(* ===== verification/Prelude.thy ===== *)
theory Prelude
  imports Complex_Main "HOL-Library.Sublist" "HOL-Library.Multiset"
begin

text \<open>
  Shared vocabulary of the development: JavaScript values as the TypeScript sources see them
  (\<open>json\<close>), property access, truthiness, insertion-ordered maps (JavaScript's \<open>Map\<close> and plain
  objects used as dictionaries), the error values that model every \<open>throw\<close>, and the platform
  services the sources import from Node.js (hashing, signature verification, the date parser, the
  collation behind \<open>localeCompare\<close>), which are parameters of the model.

  Numbers are rationals: a finite JavaScript number is identified with the shortest decimal that
  denotes it, the one its text shows, so that comparison and printing are exact; where the sources
  do arithmetic (budgets, refill rates, polygon tests) it is modelled without binary rounding.
  Strings are the lists of the bytes of their UTF-8 encoding.
\<close>

section \<open>Proof collections\<close>

named_theorems js_simps \<open>evaluation rules of JavaScript values and maps\<close>
named_theorems gate_defs \<open>definitions unfolded when a decision function is evaluated\<close>

section \<open>JavaScript values\<close>

datatype json =
    JUndef
  | JNull
  | JBool bool
  | JNum rat
  | JNonFinite
  | JStr string
  | JArr "json list"
  | JObj "(string \<times> json) list"

type_synonym jsobject = "(string \<times> json) list"
type_synonym iso_time = string
type_synonym hash = string

text \<open>Property access on a dictionary-like object: \<open>undefined\<close> when the key is absent.\<close>

definition obj_get :: "jsobject \<Rightarrow> string \<Rightarrow> json" where
  "obj_get o' k = (case map_of o' k of None \<Rightarrow> JUndef | Some v \<Rightarrow> v)"

text \<open>\<open>(value as Record<string, unknown>)[part]\<close>: arrays and primitives have no such own property.\<close>

fun js_get :: "json \<Rightarrow> string \<Rightarrow> json" where
  "js_get (JObj o') k = obj_get o' k"
| "js_get _ _ = JUndef"

fun truthy :: "json \<Rightarrow> bool" where
  "truthy JUndef = False"
| "truthy JNull = False"
| "truthy (JBool b) = b"
| "truthy (JNum n) = (n \<noteq> 0)"
| "truthy JNonFinite = True"
| "truthy (JStr s) = (s \<noteq> [])"
| "truthy (JArr _) = True"
| "truthy (JObj _) = True"

text \<open>\<open>v && typeof v === "object" && !Array.isArray(v)\<close>.\<close>

fun is_record :: "json \<Rightarrow> bool" where
  "is_record (JObj _) = True"
| "is_record _ = False"

text \<open>Optional fields: an absent field is \<open>undefined\<close>.\<close>

fun opt_json :: "('a \<Rightarrow> json) \<Rightarrow> 'a option \<Rightarrow> json" where
  "opt_json f None = JUndef"
| "opt_json f (Some x) = f x"

text \<open>Truthiness of an optional string, as in \<open>if (s && ...)\<close>.\<close>

fun str_truthy :: "string option \<Rightarrow> bool" where
  "str_truthy None = False"
| "str_truthy (Some s) = (s \<noteq> [])"

text \<open>\<open>a ?? b\<close>.\<close>

fun coalesce :: "'a option \<Rightarrow> 'a option \<Rightarrow> 'a option" where
  "coalesce (Some x) _ = Some x"
| "coalesce None y = y"

lemma coalesce_eq_None [simp]: "coalesce x y = None \<longleftrightarrow> x = None \<and> y = None"
  by (cases x) auto

lemma str_truthy_iff [simp]: "str_truthy s \<longleftrightarrow> s \<noteq> None \<and> s \<noteq> Some []"
  by (cases s) auto

lemma obj_get_Nil [js_simps]: "obj_get [] k = JUndef"
  by (simp add: obj_get_def)

lemma obj_get_Cons [js_simps]: "obj_get ((k', v) # o') k = (if k = k' then v else obj_get o' k)"
  by (simp add: obj_get_def)

section \<open>Error values\<close>

text \<open>
  One constructor per message the modelled functions throw; a fallible function returns
  \<open>js_error + 'a\<close>.
\<close>

datatype js_error =
    NonFiniteNumber
  | InvalidDate
  | WardRequired
  | DualControlPolicyInvalid
  | InvalidBudgetInput
  | BudgetStateUnreadable
  | ApprovalStateUnreadable
  | WarrantVerificationFailed string
  | RecordNotFound string
  | LedgerEmpty
  | UnknownApproval string
  | ApprovalSettled string
  | SeparationOfDuties
  | AlreadyVoted string
  | ConflictResolved string
  | UnknownConflict string
  | StoreClosed
  | ExecutionRefused
  | EphemeralSigner
  | MeshError string
  | EffectError string
  | ConfigError string
  | PolicyError string nat nat
  | TypeError

type_synonym 'a result = "js_error + 'a"

fun bind_result :: "'a result \<Rightarrow> ('a \<Rightarrow> 'b result) \<Rightarrow> 'b result" where
  "bind_result (Inl e) f = Inl e"
| "bind_result (Inr x) f = f x"

lemma bind_result_eq_Inr [simp]:
  "bind_result r f = Inr y \<longleftrightarrow> (\<exists>x. r = Inr x \<and> f x = Inr y)"
  by (cases r) auto

lemma bind_result_eq_Inl:
  "bind_result r f = Inl e \<longleftrightarrow> r = Inl e \<or> (\<exists>x. r = Inr x \<and> f x = Inl e)"
  by (cases r) auto

text \<open>\<open>xs.map(f)\<close> where \<open>f\<close> may throw: the first error wins.\<close>

fun map_result :: "('a \<Rightarrow> 'b result) \<Rightarrow> 'a list \<Rightarrow> 'b list result" where
  "map_result f [] = Inr []"
| "map_result f (x # xs) =
     bind_result (f x) (\<lambda>y. bind_result (map_result f xs) (\<lambda>ys. Inr (y # ys)))"

lemma map_result_cong [fundef_cong]:
  "xs = ys \<Longrightarrow> (\<And>x. x \<in> set ys \<Longrightarrow> f x = g x) \<Longrightarrow> map_result f xs = map_result g ys"
  by (induction ys arbitrary: xs) auto

lemma map_result_Inr:
  "map_result f xs = Inr ys \<longleftrightarrow> list_all2 (\<lambda>x y. f x = Inr y) xs ys"
proof (induction xs arbitrary: ys)
  case (Cons x xs)
  then show ?case by (cases ys) auto
qed auto

section \<open>Insertion-ordered maps\<close>

text \<open>
  JavaScript's \<open>Map\<close> enumerates its entries in insertion order, and \<open>set\<close> on a present key keeps
  its position: an association list whose update replaces in place or appends.
\<close>

type_synonym ('k, 'v) jsmap = "('k \<times> 'v) list"

fun map_set :: "'k \<Rightarrow> 'v \<Rightarrow> ('k, 'v) jsmap \<Rightarrow> ('k, 'v) jsmap" where
  "map_set k v [] = [(k, v)]"
| "map_set k v ((k', v') # m) = (if k = k' then (k, v) # m else (k', v') # map_set k v m)"

definition map_delete :: "'k \<Rightarrow> ('k, 'v) jsmap \<Rightarrow> ('k, 'v) jsmap" where
  "map_delete k m = filter (\<lambda>e. fst e \<noteq> k) m"

definition map_ok :: "('k, 'v) jsmap \<Rightarrow> bool" where
  "map_ok m \<longleftrightarrow> distinct (map fst m)"

text \<open>The interface every client of such a map relies on.\<close>

locale js_map =
  fixes get :: "'m \<Rightarrow> 'k \<Rightarrow> 'v option"
    and put :: "'k \<Rightarrow> 'v \<Rightarrow> 'm \<Rightarrow> 'm"
    and del :: "'k \<Rightarrow> 'm \<Rightarrow> 'm"
    and entries :: "'m \<Rightarrow> ('k \<times> 'v) list"
    and ok :: "'m \<Rightarrow> bool"
  assumes get_put: "get (put k v m) k' = (if k' = k then Some v else get m k')"
    and get_del: "get (del k m) k' = (if k' = k then None else get m k')"
    and ok_put: "ok m \<Longrightarrow> ok (put k v m)"
    and ok_del: "ok m \<Longrightarrow> ok (del k m)"
    and entries_get: "ok m \<Longrightarrow> (k, v) \<in> set (entries m) \<longleftrightarrow> get m k = Some v"
begin

lemma put_put_get: "get (put k v (put k w m)) = get (put k v m)"
  by (rule ext) (simp add: get_put)

lemma del_put_get: "get (del k (put k v m)) = get (del k m)"
  by (rule ext) (simp add: get_put get_del)

lemma entries_put:
  "ok m \<Longrightarrow> (a, b) \<in> set (entries (put k v m)) \<longleftrightarrow> (if a = k then b = v else (a, b) \<in> set (entries m))"
  by (auto simp: entries_get ok_put get_put)

lemma entries_del:
  "ok m \<Longrightarrow> (a, b) \<in> set (entries (del k m)) \<longleftrightarrow> a \<noteq> k \<and> (a, b) \<in> set (entries m)"
  by (auto simp: entries_get ok_del get_del)

end

lemma map_of_map_set [js_simps]: "map_of (map_set k v m) k' = (if k' = k then Some v else map_of m k')"
  by (induction m) auto

lemma map_of_map_delete [js_simps]: "map_of (map_delete k m) k' = (if k' = k then None else map_of m k')"
  by (induction m) (auto simp: map_delete_def)

lemma keys_map_set: "fst ` set (map_set k v m) = insert k (fst ` set m)"
  by (induction k v m rule: map_set.induct) auto

lemma map_ok_Nil [simp]: "map_ok []"
  by (simp add: map_ok_def)

lemma map_ok_map_set [simp]: "map_ok m \<Longrightarrow> map_ok (map_set k v m)"
proof (induction m)
  case Nil
  then show ?case by (simp add: map_ok_def)
next
  case (Cons e m)
  then show ?case using keys_map_set[of k v m] by (cases e) (auto simp: map_ok_def)
qed

lemma map_ok_map_delete [simp]: "map_ok m \<Longrightarrow> map_ok (map_delete k m)"
  by (simp add: map_ok_def map_delete_def distinct_map_filter)

lemma map_of_entry: "map_ok m \<Longrightarrow> (k, v) \<in> set m \<longleftrightarrow> map_of m k = Some v"
  by (simp add: map_ok_def)

interpretation jm: js_map map_of map_set map_delete "\<lambda>m. m" map_ok
  by unfold_locales (auto simp: js_simps map_of_entry)

lemma values_map_set: "snd ` set (map_set k v m) \<subseteq> insert v (snd ` set m)"
  by (induction k v m rule: map_set.induct) auto

lemma length_map_set: "length (map_set k v m) = (if k \<in> fst ` set m then length m else Suc (length m))"
  by (induction k v m rule: map_set.induct) auto

lemma map_set_absent: "k \<notin> fst ` set m \<Longrightarrow> map_set k v m = m @ [(k, v)]"
  by (induction m) auto

section \<open>Platform services\<close>

text \<open>
  What the sources take from Node.js and the ECMAScript runtime: \<open>sha256_hex\<close> is
  \<open>createHash("sha256").update(s).digest("hex")\<close>; \<open>ed25519_verify pub msg sig\<close> is the call of
  \<open>crypto.verify\<close> inside \<open>verifyEd25519\<close>, \<open>None\<close> where it throws (a malformed key or signature);
  \<open>date_parse\<close> is \<open>Date.parse\<close>, \<open>None\<close> for \<open>NaN\<close>; \<open>date_iso\<close> is \<open>new Date(ms).toISOString()\<close>,
  \<open>None\<close> where it throws a \<open>RangeError\<close>; \<open>locale_le a b\<close> is \<open>a.localeCompare(b) <= 0\<close>.
\<close>

record platform =
  sha256_hex :: "string \<Rightarrow> hash"
  ed25519_verify :: "string \<Rightarrow> string \<Rightarrow> string \<Rightarrow> bool option"
  date_parse :: "iso_time \<Rightarrow> int option"
  date_iso :: "int \<Rightarrow> iso_time option"
  locale_le :: "string \<Rightarrow> string \<Rightarrow> bool"

text \<open>
  Two strings on which the platform's SHA-256 collides.  Statements about hash binding give such a
  pair explicitly in the branch where binding fails, so that they need no hypothesis on the hash.
\<close>

definition sha256_collision :: "platform \<Rightarrow> string \<Rightarrow> string \<Rightarrow> bool" where
  "sha256_collision P a b \<longleftrightarrow> a \<noteq> b \<and> sha256_hex P a = sha256_hex P b"

lemma sha256_eqD: "sha256_hex P a = sha256_hex P b \<Longrightarrow> a = b \<or> sha256_collision P a b"
  by (auto simp: sha256_collision_def)

text \<open>Comparison of two parsed dates where \<open>NaN\<close> makes every comparison false.\<close>

fun nan_le :: "int option \<Rightarrow> int option \<Rightarrow> bool" where
  "nan_le (Some a) (Some b) = (a \<le> b)"
| "nan_le _ _ = False"

fun nan_less :: "int option \<Rightarrow> int option \<Rightarrow> bool" where
  "nan_less (Some a) (Some b) = (a < b)"
| "nan_less _ _ = False"

lemma nan_le_iff: "nan_le x y \<longleftrightarrow> (\<exists>a b. x = Some a \<and> y = Some b \<and> a \<le> b)"
  by (cases "(x, y)" rule: nan_le.cases) auto

lemma nan_less_iff: "nan_less x y \<longleftrightarrow> (\<exists>a b. x = Some a \<and> y = Some b \<and> a < b)"
  by (cases "(x, y)" rule: nan_less.cases) auto

section \<open>Strings\<close>

definition starts_with :: "string \<Rightarrow> string \<Rightarrow> bool" where
  "starts_with s p \<longleftrightarrow> prefix p s"

lemma starts_with_code [code, js_simps]: "starts_with s p \<longleftrightarrow> take (length p) s = p"
  by (metis starts_with_def prefix_def append_eq_conv_conj append_take_drop_id)

text \<open>\<open>xs.join(sep)\<close>.\<close>

fun join :: "string \<Rightarrow> string list \<Rightarrow> string" where
  "join sep [] = []"
| "join sep [x] = x"
| "join sep (x # y # ys) = x @ sep @ join sep (y # ys)"

text \<open>\<open>s.split(c)\<close> for a single separator character.\<close>

fun split_on :: "char \<Rightarrow> string \<Rightarrow> string list" where
  "split_on c [] = [[]]"
| "split_on c (x # xs) =
     (if x = c then [] # split_on c xs
      else (case split_on c xs of [] \<Rightarrow> [[x]] | w # ws \<Rightarrow> (x # w) # ws))"

lemma split_on_ne [simp]: "split_on c s \<noteq> []"
  by (cases s) (auto split: list.splits)

lemma join_split_on: "join [c] (split_on c s) = s"
proof (induction s)
  case (Cons x s)
  then obtain w ws where "split_on c s = w # ws"
    by (cases "split_on c s") auto
  with Cons show ?case
    by (cases ws) auto
qed simp

section \<open>Sorting with a comparator\<close>

text \<open>
  \<open>xs.sort(cmp)\<close>, which is stable: \<open>le a b\<close> is \<open>cmp(a, b) <= 0\<close>.
\<close>

fun insert_by :: "('a \<Rightarrow> 'a \<Rightarrow> bool) \<Rightarrow> 'a \<Rightarrow> 'a list \<Rightarrow> 'a list" where
  "insert_by le x [] = [x]"
| "insert_by le x (y # ys) = (if le x y then x # y # ys else y # insert_by le x ys)"

definition sort_by :: "('a \<Rightarrow> 'a \<Rightarrow> bool) \<Rightarrow> 'a list \<Rightarrow> 'a list" where
  "sort_by le xs = foldr (insert_by le) xs []"

lemma mset_insert_by [simp]: "mset (insert_by le x xs) = add_mset x (mset xs)"
  by (induction le x xs rule: insert_by.induct) auto

lemma mset_sort_by [simp]: "mset (sort_by le xs) = mset xs"
  by (induction xs) (auto simp: sort_by_def)

lemma set_insert_by [simp]: "set (insert_by le x xs) = insert x (set xs)"
  by (induction le x xs rule: insert_by.induct) auto

lemma set_sort_by [simp]: "set (sort_by le xs) = set xs"
  by (metis mset_sort_by set_mset_mset)

lemma sorted_insert_by:
  assumes "sorted_wrt le ys" "\<And>y. y \<in> set ys \<Longrightarrow> le x y \<or> le y x" "\<And>y z. le x y \<Longrightarrow> le y z \<Longrightarrow> le x z"
  shows "sorted_wrt le (insert_by le x ys)"
  using assms(1,2) by (induction ys) (auto intro: assms(3))

lemma sorted_sort_by:
  assumes "\<And>x y. le x y \<or> le y x" "\<And>x y z. le x y \<Longrightarrow> le y z \<Longrightarrow> le x z"
  shows "sorted_wrt le (sort_by le xs)"
  by (induction xs) (auto simp: sort_by_def intro!: sorted_insert_by assms(1) intro: assms(2))

end
