(* ===== verification/Json_Text.thy ===== *)
theory Json_Text
  imports Prelude
begin

text \<open>
  The text \<open>JSON.stringify\<close> prints for a value, with the number format of
  \<open>Number.prototype.toString\<close> and the string escapes of ECMAScript's \<open>QuoteJSONString\<close>.  The main
  fact is that printing is injective: on values without \<open>undefined\<close> whose numbers are printed in
  positional notation, the text determines the value.
\<close>

section \<open>Printing numbers\<close>

definition digit_char :: "nat \<Rightarrow> char" where
  "digit_char d = char_of (48 + d)"

definition char_digit :: "char \<Rightarrow> nat" where
  "char_digit c = of_char c - 48"

definition is_digit :: "char \<Rightarrow> bool" where
  "is_digit c \<longleftrightarrow> 48 \<le> (of_char c :: nat) \<and> (of_char c :: nat) \<le> 57"

fun nat_digits :: "nat \<Rightarrow> string" where
  "nat_digits n = (if n < 10 then [digit_char n] else nat_digits (n div 10) @ [digit_char (n mod 10)])"

declare nat_digits.simps [simp del]

definition digits_val :: "string \<Rightarrow> nat" where
  "digits_val s = foldl (\<lambda>a c. 10 * a + char_digit c) 0 s"

text \<open>
  The decimal of a finite number: the integer \<open>m\<close> and the least \<open>k\<close> with \<open>x = m / 10^k\<close>.  A
  number's shortest decimal has at most 341 fractional digits, so 400 steps are enough.
\<close>

fun decimal_from :: "nat \<Rightarrow> nat \<Rightarrow> rat \<Rightarrow> int \<times> nat" where
  "decimal_from 0 k x = (\<lfloor>x\<rfloor>, k)"
| "decimal_from (Suc fuel) k x =
     (if x = of_int \<lfloor>x\<rfloor> then (\<lfloor>x\<rfloor>, k) else decimal_from fuel (Suc k) (10 * x))"

definition decimal :: "rat \<Rightarrow> int \<times> nat" where
  "decimal x = decimal_from 400 0 x"

text \<open>Digits left of the point, then the point and \<open>k\<close> digits.\<close>

definition positional :: "nat \<Rightarrow> nat \<Rightarrow> string" where
  "positional m k =
     (let ds = nat_digits m;
          padded = replicate (Suc k - length ds) (digit_char 0) @ ds;
          cut = length padded - k
      in if k = 0 then padded else take cut padded @ ''.'' @ drop cut padded)"

fun strip_zeros :: "nat \<Rightarrow> nat \<Rightarrow> nat" where
  "strip_zeros 0 m = m"
| "strip_zeros (Suc fuel) m = (if m mod 10 = 0 \<and> m \<noteq> 0 then strip_zeros fuel (m div 10) else m)"

definition exponential :: "nat \<Rightarrow> int \<Rightarrow> string" where
  "exponential s e =
     (let ds = nat_digits s
      in (if length ds = 1 then ds else take 1 ds @ ''.'' @ drop 1 ds) @
         ''e'' @ (if e < 0 then ''-'' else ''+'') @ nat_digits (nat \<bar>e\<bar>))"

text \<open>Positional notation applies to 0 and to \<open>10^-6 <= |x| < 10^21\<close>.\<close>

definition positional_range :: "rat \<Rightarrow> bool" where
  "positional_range x \<longleftrightarrow> x = 0 \<or> (1 / 10 ^ 6 \<le> \<bar>x\<bar> \<and> \<bar>x\<bar> < 10 ^ 21)"

definition num_string :: "rat \<Rightarrow> string" where
  "num_string x =
     (let (m, k) = decimal \<bar>x\<bar>;
          sgn = (if x < 0 then ''-'' else [])
      in if positional_range x then sgn @ positional (nat m) k
         else (let s = strip_zeros 400 (nat m);
                   n = int (length (nat_digits (nat m))) - int k
               in sgn @ exponential s (n - 1)))"

section \<open>Printing strings and values\<close>

definition hex_digit :: "nat \<Rightarrow> char" where
  "hex_digit d = (if d < 10 then char_of (48 + d) else char_of (87 + d))"

definition esc_char :: "char \<Rightarrow> string" where
  "esc_char c =
     (let n = (of_char c :: nat)
      in if n = 34 then [CHR 0x5C, CHR 0x22]
         else if n = 92 then [CHR 0x5C, CHR 0x5C]
         else if n = 8 then [CHR 0x5C, CHR ''b'']
         else if n = 9 then [CHR 0x5C, CHR ''t'']
         else if n = 10 then [CHR 0x5C, CHR ''n'']
         else if n = 12 then [CHR 0x5C, CHR ''f'']
         else if n = 13 then [CHR 0x5C, CHR ''r'']
         else if n < 32 then [CHR 0x5C, CHR ''u'', CHR ''0'', CHR ''0'', hex_digit (n div 16), hex_digit (n mod 16)]
         else [c])"

definition json_quote :: "string \<Rightarrow> string" where
  "json_quote s = [CHR 0x22] @ concat (map esc_char s) @ [CHR 0x22]"

text \<open>
  \<open>JSON.stringify\<close> without indentation: \<open>undefined\<close> and non-finite numbers print as \<open>null\<close> inside an
  array, and a property whose value is \<open>undefined\<close> is left out.
\<close>

fun json_string :: "json \<Rightarrow> string" where
  "json_string JUndef = ''null''"
| "json_string JNull = ''null''"
| "json_string (JBool b) = (if b then ''true'' else ''false'')"
| "json_string (JNum x) = num_string x"
| "json_string JNonFinite = ''null''"
| "json_string (JStr s) = json_quote s"
| "json_string (JArr vs) = ''['' @ join '','' (map json_string vs) @ '']''"
| "json_string (JObj es) =
     ''{'' @ join '','' (map (\<lambda>(k, v). json_quote k @ '':'' @ json_string v)
                          (filter (\<lambda>(k, v). v \<noteq> JUndef) es)) @ ''}''"

section \<open>Numbers are read back from their text\<close>

lemma char_digit_digit_char [simp]: "d < 10 \<Longrightarrow> char_digit (digit_char d) = d"
  by (simp add: char_digit_def digit_char_def)

lemma is_digit_digit_char [simp]: "d < 10 \<Longrightarrow> is_digit (digit_char d)"
  by (simp add: is_digit_def digit_char_def)

lemma digits_val_snoc [simp]: "digits_val (s @ [c]) = 10 * digits_val s + char_digit c"
  by (simp add: digits_val_def)

lemma digits_val_Nil [simp]: "digits_val [] = 0"
  by (simp add: digits_val_def)

lemma digits_val_zeros [simp]: "digits_val (replicate j (digit_char 0) @ s) = digits_val s"
proof (induction s rule: rev_induct)
  case Nil
  have "digits_val (replicate (Suc j) (digit_char 0)) = 10 * digits_val (replicate j (digit_char 0))" for j
    using digits_val_snoc[of "replicate j (digit_char 0)" "digit_char 0"]
    by (simp add: replicate_append_same)
  then show ?case by (induction j) simp_all
next
  case (snoc c s)
  have "digits_val (replicate j (digit_char 0) @ s @ [c]) = digits_val ((replicate j (digit_char 0) @ s) @ [c])"
    by simp
  also have "\<dots> = digits_val (s @ [c])" by (simp only: digits_val_snoc snoc.IH)
  finally show ?case by simp
qed

lemma digits_val_nat_digits [simp]: "digits_val (nat_digits n) = n"
proof (induction n rule: nat_digits.induct)
  case (1 n)
  show ?case
  proof (cases "n < 10")
    case True
    then show ?thesis using digits_val_snoc[of "[]" "digit_char n"] by (simp add: nat_digits.simps[of n])
  next
    case False
    with 1 show ?thesis by (simp add: nat_digits.simps[of n])
  qed
qed

lemma nat_digits_digits: "list_all is_digit (nat_digits n)"
proof (induction n rule: nat_digits.induct)
  case (1 n)
  then show ?case by (cases "n < 10") (simp_all add: nat_digits.simps[of n])
qed

lemma nat_digits_ne [simp]: "nat_digits n \<noteq> []"
  by (simp add: nat_digits.simps[of n])

text \<open>Reading a positional text: its digits, and how many of them follow the point.\<close>

definition frac_len :: "string \<Rightarrow> nat" where
  "frac_len s = length (dropWhile (\<lambda>c. c \<noteq> CHR ''.'') s) - 1"

lemma not_digit_dot [simp]: "\<not> is_digit (CHR ''.'')" and not_digit_minus [simp]: "\<not> is_digit (CHR ''-'')"
  by (simp_all add: is_digit_def)

lemma filter_all_digits: "list_all is_digit s \<Longrightarrow> filter is_digit s = s"
  by (induction s) auto

lemma list_all_hd: "list_all P xs \<Longrightarrow> xs \<noteq> [] \<Longrightarrow> P (hd xs)"
  by (cases xs) auto

lemma dropWhile_no_dot: "list_all is_digit q \<Longrightarrow> dropWhile (\<lambda>c. c \<noteq> CHR ''.'') q = []"
  unfolding dropWhile_eq_Nil_conv list_all_iff using not_digit_dot by blast

lemma dropWhile_dot:
  "list_all is_digit q \<Longrightarrow> dropWhile (\<lambda>c. c \<noteq> CHR ''.'') (q @ CHR ''.'' # t) = CHR ''.'' # t"
  by (induction q) auto

lemma positional_read:
  shows "digits_val (filter is_digit (positional m k)) = m" and "frac_len (positional m k) = k"
    and "list_all (\<lambda>c. is_digit c \<or> c = CHR ''.'') (positional m k)"
    and "positional m k \<noteq> []" and "is_digit (hd (positional m k))"
proof -
  define p where "p = replicate (Suc k - length (nat_digits m)) (digit_char 0) @ nat_digits m"
  have d: "list_all is_digit p"
    using nat_digits_digits[of m] by (auto simp: p_def list_all_iff)
  have len: "Suc k \<le> length p"
    by (simp add: p_def)
  have v: "digits_val p = m" by (simp add: p_def)
  have pos: "positional m k = (if k = 0 then p else take (length p - k) p @ ''.'' @ drop (length p - k) p)"
    by (simp add: positional_def p_def Let_def)
  have dt: "list_all is_digit (take j p)" "list_all is_digit (drop j p)" for j
    using d by (auto simp: list_all_iff dest: in_set_takeD in_set_dropD)
  have cut: "take (length p - k) p @ drop (length p - k) p = p" by (rule append_take_drop_id)
  show "digits_val (filter is_digit (positional m k)) = m"
  proof (cases "k = 0")
    case True
    then have "positional m k = p" using pos by simp
    then show ?thesis by (simp only: filter_all_digits[OF d] v)
  next
    case False
    have "filter is_digit (positional m k) = take (length p - k) p @ drop (length p - k) p"
      using False by (simp only: pos if_False filter_append filter_all_digits[OF dt(1)] filter_all_digits[OF dt(2)]) simp
    then show ?thesis by (simp only: cut v)
  qed
  show "frac_len (positional m k) = k"
  proof (cases "k = 0")
    case True
    then have "positional m k = p" using pos by simp
    with True show ?thesis by (simp add: frac_len_def dropWhile_no_dot[OF d])
  next
    case False
    have "frac_len (positional m k) = length (drop (length p - k) p)"
      using False by (simp add: pos frac_len_def dropWhile_dot[OF dt(1)])
    then show ?thesis using len by simp
  qed
  show "list_all (\<lambda>c. is_digit c \<or> c = CHR ''.'') (positional m k)"
    using d dt by (auto simp: pos list_all_iff)
  show ne: "positional m k \<noteq> []"
    using len by (auto simp: pos)
  have "take (length p - k) p \<noteq> []" "p \<noteq> []" using len by auto
  then show "is_digit (hd (positional m k))"
    using list_all_hd[OF d] list_all_hd[OF dt(1)[of "length p - k"]] by (simp add: pos hd_append)
qed

text \<open>A number the decimal expansion represents and that is printed in positional notation.\<close>

definition plain_number :: "rat \<Rightarrow> bool" where
  "plain_number x \<longleftrightarrow> positional_range x \<and>
     (case decimal \<bar>x\<bar> of (m, k) \<Rightarrow> 0 \<le> m \<and> \<bar>x\<bar> = of_int m / 10 ^ k)"

definition num_char :: "char \<Rightarrow> bool" where
  "num_char c \<longleftrightarrow> is_digit c \<or> c = CHR ''.'' \<or> c = CHR ''-''"

lemma num_string_chars: "plain_number x \<Longrightarrow> list_all num_char (num_string x)"
  using positional_read(3)
  by (auto simp: plain_number_def num_string_def num_char_def list_all_iff split: prod.splits)

lemma num_string_ne: "plain_number x \<Longrightarrow> num_string x \<noteq> []"
  using positional_read(4) by (auto simp: plain_number_def num_string_def split: prod.splits)

lemma num_string_inj:
  assumes "plain_number x" "plain_number y" "num_string x = num_string y"
  shows "x = y"
proof -
  obtain m k where x: "decimal \<bar>x\<bar> = (m, k)" by (cases "decimal \<bar>x\<bar>")
  obtain n l where y: "decimal \<bar>y\<bar> = (n, l)" by (cases "decimal \<bar>y\<bar>")
  have xs: "num_string x = (if x < 0 then ''-'' else []) @ positional (nat m) k"
    using assms(1) x by (simp add: plain_number_def num_string_def)
  have ys: "num_string y = (if y < 0 then ''-'' else []) @ positional (nat n) l"
    using assms(2) y by (simp add: plain_number_def num_string_def)
  have hd: "hd (positional (nat m) k) \<noteq> CHR ''-''" "hd (positional (nat n) l) \<noteq> CHR ''-''"
    using positional_read(5) by (metis not_digit_minus)+
  have sgn: "x < 0 \<longleftrightarrow> y < 0" and p: "positional (nat m) k = positional (nat n) l"
    using assms(3) hd positional_read(4) unfolding xs ys by (auto split: if_splits) (metis list.sel(1))+
  have "nat m = nat n" "k = l"
    using positional_read(1,2) p by metis+
  then have "\<bar>x\<bar> = \<bar>y\<bar>"
    using assms(1,2) x y by (auto simp: plain_number_def)
  with sgn show ?thesis by auto
qed

section \<open>Strings are read back from their text\<close>

definition hex_val :: "char \<Rightarrow> nat" where
  "hex_val c = (let n = of_char c in if n < 58 then n - 48 else n - 87)"

lemma hex_val_hex_digit [simp]: "d < 16 \<Longrightarrow> hex_val (hex_digit d) = d"
  by (simp add: hex_val_def hex_digit_def)

definition simple_unesc :: "char \<Rightarrow> char" where
  "simple_unesc d =
     (if d = CHR ''b'' then CHR 0x08 else if d = CHR ''t'' then CHR 0x09
      else if d = CHR ''n'' then CHR 0x0A else if d = CHR ''f'' then CHR 0x0C
      else if d = CHR ''r'' then CHR 0x0D else d)"

fun read_string :: "string \<Rightarrow> (string \<times> string) option" where
  "read_string [] = None"
| "read_string (c # cs) =
     (if c = CHR 0x22 then Some ([], cs)
      else if c = CHR 0x5C then
        (case cs of [] \<Rightarrow> None
         | d # ds \<Rightarrow>
             if d = CHR ''u'' then
               (case ds of a # b # h # l # rest \<Rightarrow>
                  map_option (\<lambda>(s, r). (char_of (16 * hex_val h + hex_val l) # s, r)) (read_string rest)
                | _ \<Rightarrow> None)
             else map_option (\<lambda>(s, r). (simple_unesc d # s, r)) (read_string ds))
      else map_option (\<lambda>(s, r). (c # s, r)) (read_string cs))"

declare read_string.simps(2) [simp del]

lemma read_string_escape:
  "d \<noteq> CHR ''u'' \<Longrightarrow> read_string (CHR 0x5C # d # t) = map_option (\<lambda>(s, r). (simple_unesc d # s, r)) (read_string t)"
  by (simp add: read_string.simps(2))

lemma of_char_literal_eq:
  "(of_char c :: nat) = 34 \<longleftrightarrow> c = CHR 0x22" "(of_char c :: nat) = 92 \<longleftrightarrow> c = CHR 0x5C"
  "(of_char c :: nat) = 8 \<longleftrightarrow> c = CHR 0x08" "(of_char c :: nat) = 9 \<longleftrightarrow> c = CHR 0x09"
  "(of_char c :: nat) = 10 \<longleftrightarrow> c = CHR 0x0A" "(of_char c :: nat) = 12 \<longleftrightarrow> c = CHR 0x0C"
  "(of_char c :: nat) = 13 \<longleftrightarrow> c = CHR 0x0D"
  by (simp_all flip: of_char_eq_iff[where 'a = nat])

lemma read_string_esc_char:
  "read_string (esc_char c @ t) = map_option (\<lambda>(s, r). (c # s, r)) (read_string t)"
proof -
  define n where "n = (of_char c :: nat)"
  have c: "c = char_of n" by (simp add: n_def)
  consider (special) "n \<in> {34, 92, 8, 9, 10, 12, 13}"
    | (ctrl) "n < 32" "n \<notin> {34, 92, 8, 9, 10, 12, 13}"
    | (plain) "\<not> n < 32" "n \<noteq> 34" "n \<noteq> 92" by auto
  then show ?thesis
  proof cases
    case special
    then have "c \<in> {CHR 0x22, CHR 0x5C, CHR 0x08, CHR 0x09, CHR 0x0A, CHR 0x0C, CHR 0x0D}"
      by (auto simp: n_def of_char_literal_eq)
    then show ?thesis
      by (auto simp: esc_char_def read_string_escape simple_unesc_def)
  next
    case ctrl
    have "char_of (16 * (n div 16) + n mod 16) = c" using c by simp
    with ctrl show ?thesis
      by (simp add: esc_char_def Let_def read_string.simps(2) n_def[symmetric])
  next
    case plain
    then have "c \<noteq> CHR 0x22" "c \<noteq> CHR 0x5C" by (auto simp: n_def)
    with plain show ?thesis
      by (simp add: esc_char_def Let_def read_string.simps(2) n_def[symmetric])
  qed
qed

lemma read_string_quote:
  "read_string (concat (map esc_char s) @ CHR 0x22 # r) = Some (s, r)"
  by (induction s) (simp_all add: read_string_esc_char read_string.simps(2))

lemma json_quote_inj:
  assumes "json_quote s @ r = json_quote s' @ r'"
  shows "s = s' \<and> r = r'"
proof -
  have "concat (map esc_char s) @ CHR 0x22 # r = concat (map esc_char s') @ CHR 0x22 # r'"
    using assms by (simp only: json_quote_def append_Cons append_Nil append_assoc list.inject)
  then have "Some (s, r) = Some (s', r')"
    using read_string_quote[of s r] read_string_quote[of s' r'] by metis
  then show ?thesis by simp
qed

section \<open>The text determines the value\<close>

text \<open>
  Values the stringifier prints without loss: no \<open>undefined\<close>, no non-finite number, numbers in
  positional notation.
\<close>

fun clean_json :: "json \<Rightarrow> bool" where
  "clean_json JUndef = False"
| "clean_json JNull = True"
| "clean_json (JBool b) = True"
| "clean_json (JNum x) = plain_number x"
| "clean_json JNonFinite = False"
| "clean_json (JStr s) = True"
| "clean_json (JArr vs) = list_all clean_json vs"
| "clean_json (JObj es) = list_all (\<lambda>e. clean_json (snd e)) es"

text \<open>What can follow a value inside a text: nothing, a comma or a closing bracket.\<close>

definition delim :: "string \<Rightarrow> bool" where
  "delim r \<longleftrightarrow> r = [] \<or> hd r \<in> {CHR '','', CHR '']'', CHR ''}''}"

lemma delim_Nil [simp]: "delim []"
  by (simp add: delim_def)

lemma delim_Cons [simp]: "delim (c # r) \<longleftrightarrow> c \<in> {CHR '','', CHR '']'', CHR ''}''}"
  by (simp add: delim_def)

lemma num_char_not_delim: "num_char c \<Longrightarrow> c \<notin> {CHR '','', CHR '']'', CHR ''}''}"
  by (auto simp: num_char_def is_digit_def)

lemma takeWhile_num_string:
  assumes "plain_number x" "delim r"
  shows "takeWhile num_char (num_string x @ r) = num_string x"
proof -
  have "takeWhile num_char (num_string x @ r) = num_string x @ takeWhile num_char r"
    using num_string_chars[OF assms(1)] by (simp add: list_all_iff)
  moreover have "takeWhile num_char r = []"
  proof (cases r)
    case (Cons c t)
    then have "\<not> num_char c" using assms(2) num_char_not_delim by auto
    with Cons show ?thesis by simp
  qed simp
  ultimately show ?thesis by simp
qed

definition char_kind :: "char \<Rightarrow> nat" where
  "char_kind c =
     (if c = CHR ''n'' then 0 else if c = CHR ''t'' then 1 else if c = CHR ''f'' then 2
      else if c = CHR 0x22 then 3 else if c = CHR ''['' then 4 else if c = CHR ''{'' then 5
      else if num_char c then 6 else 7)"

fun json_kind :: "json \<Rightarrow> nat" where
  "json_kind (JBool b) = (if b then 1 else 2)"
| "json_kind (JStr s) = 3"
| "json_kind (JArr vs) = 4"
| "json_kind (JObj es) = 5"
| "json_kind (JNum x) = 6"
| "json_kind v = 0"

lemma kinds_not_num_char: "list_all (\<lambda>c. \<not> num_char c) ([CHR 0x22] @ ''ntf[{'')"
  by (simp add: num_char_def is_digit_def)

lemma num_char_kind: "num_char c \<Longrightarrow> char_kind c = 6"
  using kinds_not_num_char by (auto simp: char_kind_def)

lemma json_string_head:
  assumes "clean_json v"
  shows "json_string v \<noteq> []" and "char_kind (hd (json_string v)) = json_kind v"
proof -
  have num: "num_string x \<noteq> [] \<and> char_kind (hd (num_string x)) = 6" if "plain_number x" for x
    using num_string_ne[OF that] list_all_hd[OF num_string_chars[OF that]] num_char_kind by simp
  show "json_string v \<noteq> []" "char_kind (hd (json_string v)) = json_kind v"
    using assms num by (cases v; simp add: char_kind_def json_quote_def)+
qed

lemma json_kind_le: "clean_json v \<Longrightarrow> json_kind v < 7"
  by (cases v) auto

lemma json_string_append_kind:
  assumes "clean_json v" "clean_json w" "json_string v @ r = json_string w @ s"
  shows "json_kind v = json_kind w"
  using json_string_head[OF assms(1)] json_string_head[OF assms(2)] assms(3)
  by (metis hd_append2)

lemma join_Cons: "join sep (x # xs) = x @ (if xs = [] then [] else sep @ join sep xs)"
  by (cases xs) auto

lemma join_inj:
  assumes "\<And>v w r s. v \<in> set vs \<Longrightarrow> Q v \<Longrightarrow> Q w \<Longrightarrow> f v @ r = f w @ s \<Longrightarrow> delim r \<Longrightarrow> delim s \<Longrightarrow> v = w \<and> r = s"
    and "\<And>v. Q v \<Longrightarrow> f v \<noteq> [] \<and> hd (f v) \<noteq> z"
    and z: "z \<in> {CHR '']'', CHR ''}''}"
    and "list_all Q vs" "list_all Q ws"
    and "join '','' (map f vs) @ z # r = join '','' (map f ws) @ z # s"
  shows "vs = ws \<and> r = s"
  using assms(1,4,5,6)
proof (induction vs arbitrary: ws)
  case Nil
  show ?case
  proof (cases ws)
    case (Cons w ws')
    with Nil assms(2)[of w] show ?thesis by (cases "f w") (auto simp: join_Cons)
  qed (use Nil in simp)
next
  case (Cons v vs)
  let ?rest = "\<lambda>xs r. (if xs = [] then [] else '','' @ join '','' (map f xs)) @ z # r"
  show ?case
  proof (cases ws)
    case Nil
    with Cons.prems assms(2)[of v] show ?thesis by (cases "f v") (auto simp: join_Cons)
  next
    case ws: (Cons w ws')
    have q: "Q v" "Q w" using Cons.prems(2,3) ws by auto
    have "f v @ ?rest vs r = f w @ ?rest ws' s"
      using Cons.prems(4) ws by (simp add: join_Cons split: if_splits)
    then have vw: "v = w" and rest: "?rest vs r = ?rest ws' s"
      using Cons.prems(1)[of v w "?rest vs r" "?rest ws' s"] q z by (auto split: if_splits)
    have "vs = ws' \<and> r = s"
    proof (cases "vs = [] \<or> ws' = []")
      case True
      then show ?thesis using rest z by (auto split: if_splits)
    next
      case False
      then have eq: "join '','' (map f vs) @ z # r = join '','' (map f ws') @ z # s"
        using rest by simp
      have q': "list_all Q vs" "list_all Q ws'" using Cons.prems(2,3) ws by auto
      have "\<And>v' w r s. v' \<in> set vs \<Longrightarrow> Q v' \<Longrightarrow> Q w \<Longrightarrow> f v' @ r = f w @ s \<Longrightarrow>
          delim r \<Longrightarrow> delim s \<Longrightarrow> v' = w \<and> r = s"
        by (rule Cons.prems(1)) simp_all
      then show ?thesis using q' eq by (rule Cons.IH)
    qed
    with vw ws show ?thesis by simp
  qed
qed

abbreviation print_entry :: "string \<times> json \<Rightarrow> string" where
  "print_entry \<equiv> (\<lambda>(k, v). json_quote k @ '':'' @ json_string v)"

lemma clean_json_defined: "list_all (\<lambda>e. clean_json (snd e)) es \<Longrightarrow> filter (\<lambda>(k, v). v \<noteq> JUndef) es = es"
  by (induction es) auto

lemma json_quote_head: "json_quote k \<noteq> [] \<and> hd (json_quote k) = CHR 0x22"
  by (simp add: json_quote_def)

lemma json_string_inj:
  "clean_json v \<Longrightarrow> clean_json w \<Longrightarrow> json_string v @ r = json_string w @ s \<Longrightarrow> delim r \<Longrightarrow> delim s \<Longrightarrow>
   v = w \<and> r = s"
proof (induction v arbitrary: w r s)
  case (JArr vs)
  then obtain ws where w: "w = JArr ws"
    using json_string_append_kind[OF JArr.prems(1-3)] by (cases w) (auto split: if_splits)
  have "vs = ws \<and> r = s"
  proof (rule join_inj[where Q = clean_json and z = "CHR '']''"])
    show "json_string v \<noteq> [] \<and> hd (json_string v) \<noteq> CHR '']''" if "clean_json v" for v
      using json_string_head[OF that] json_kind_le[OF that] by (auto simp: char_kind_def num_char_def is_digit_def)
    show "v = w \<and> r = s" if "v \<in> set vs" "clean_json v" "clean_json w"
      "json_string v @ r = json_string w @ s" "delim r" "delim s" for v w r s
      using that by (rule JArr.IH)
    show "join '','' (map json_string vs) @ CHR '']'' # r = join '','' (map json_string ws) @ CHR '']'' # s"
      using JArr.prems(3) w by simp
  qed (use JArr.prems(1,2) w in simp_all)
  with w show ?case by simp
next
  case (JObj es)
  then obtain fs where w: "w = JObj fs"
    using json_string_append_kind[OF JObj.prems(1-3)] by (cases w) (auto split: if_splits)
  have "es = fs \<and> r = s"
  proof (rule join_inj[where Q = "\<lambda>e. clean_json (snd e)" and z = "CHR ''}''" and f = print_entry])
    fix e f r s
    assume e: "e \<in> set es" "clean_json (snd e)" and f: "clean_json (snd f)"
      and eq: "print_entry e @ r = print_entry f @ s" and d: "delim r" "delim s"
    obtain k v k' v' where kv: "e = (k, v)" "f = (k', v')" by (cases e, cases f)
    have "json_quote k @ (CHR '':'' # json_string v @ r) = json_quote k' @ (CHR '':'' # json_string v' @ s)"
      using eq kv by simp
    from json_quote_inj[OF this] have k: "k = k'" and "json_string v @ r = json_string v' @ s"
      by simp_all
    then have "v = v' \<and> r = s"
      using JObj.IH[of e v v' r s] e f d kv by simp
    with k kv show "e = f \<and> r = s" by simp
  next
    show "print_entry e \<noteq> [] \<and> hd (print_entry e) \<noteq> CHR ''}''" for e
      using json_quote_head[of "fst e"] by (simp add: split_beta)
    show "join '','' (map print_entry es) @ CHR ''}'' # r = join '','' (map print_entry fs) @ CHR ''}'' # s"
      using JObj.prems w by (simp add: clean_json_defined)
  qed (use JObj.prems(1,2) w in simp_all)
  with w show ?case by simp
next
  case (JNum x)
  then obtain y where w: "w = JNum y"
    using json_string_append_kind[OF JNum.prems(1-3)] by (cases w) (auto split: if_splits)
  then have "num_string x = num_string y"
    using JNum.prems takeWhile_num_string[of x r] takeWhile_num_string[of y s] by simp
  then show ?case using JNum.prems w num_string_inj[of x y] by simp
next
  case (JStr t)
  then obtain u where w: "w = JStr u"
    using json_string_append_kind[OF JStr.prems(1-3)] by (cases w) (auto split: if_splits)
  with JStr.prems json_quote_inj[of t r u s] show ?case by simp
next
  case (JBool b)
  then show ?case
    using json_string_append_kind[OF JBool.prems(1-3)] by (cases w) (auto split: if_splits)
next
  case JNull
  then show ?case
    using json_string_append_kind[OF JNull.prems(1-3)] by (cases w) (auto split: if_splits)
qed simp_all

corollary json_string_injective: "clean_json v \<Longrightarrow> clean_json w \<Longrightarrow> json_string v = json_string w \<Longrightarrow> v = w"
  using json_string_inj[of v w "[]" "[]"] by simp

end
