(* ===== verification/Canonical.thy ===== *)
theory Canonical
  imports Json_Text
begin

text \<open>
  Canonical JSON: \<open>stableNormalize\<close>, \<open>stableStringify\<close>, \<open>sha256\<close> and \<open>canonicalizeAction\<close> of
  \<open>execution-control-runtime/src/index.ts\<close>.  The main facts: normalisation keeps every property
  value, its result does not depend on the order in which an object lists its properties at any
  depth, and the canonical text determines the normalised value.
\<close>

section \<open>stableNormalize, stableStringify, canonicalizeAction\<close>

text \<open>\<open>.sort(([l], [r]) => l.localeCompare(r))\<close>: the stable sort of the entries by key.\<close>

fun insert_entry :: "(string \<Rightarrow> string \<Rightarrow> bool) \<Rightarrow> string \<times> 'v \<Rightarrow> (string \<times> 'v) list \<Rightarrow> (string \<times> 'v) list" where
  "insert_entry le e [] = [e]"
| "insert_entry le e (f # fs) = (if le (fst e) (fst f) then e # f # fs else f # insert_entry le e fs)"

fun sort_entries :: "(string \<Rightarrow> string \<Rightarrow> bool) \<Rightarrow> (string \<times> 'v) list \<Rightarrow> (string \<times> 'v) list" where
  "sort_entries le [] = []"
| "sort_entries le (e # es) = insert_entry le e (sort_entries le es)"

text \<open>
  \<open>Object.fromEntries\<close>: an object enumerates its array-index keys first, in ascending numeric order,
  then the other keys in the order they were inserted.
\<close>

definition is_array_index :: "string \<Rightarrow> bool" where
  "is_array_index k \<longleftrightarrow> list_all is_digit k \<and> nat_digits (digits_val k) = k \<and> digits_val k < 2 ^ 32 - 1"

definition index_le :: "string \<Rightarrow> string \<Rightarrow> bool" where
  "index_le a b \<longleftrightarrow> digits_val a \<le> digits_val b"

definition from_entries :: "(string \<times> 'v) list \<Rightarrow> (string \<times> 'v) list" where
  "from_entries es =
     sort_entries index_le (filter (\<lambda>e. is_array_index (fst e)) es) @
     filter (\<lambda>e. \<not> is_array_index (fst e)) es"

lemma set_insert_entry [simp]: "set (insert_entry le e es) = insert e (set es)"
  by (induction le e es rule: insert_entry.induct) auto

lemma set_sort_entries [simp]: "set (sort_entries le es) = set es"
  by (induction le es rule: sort_entries.induct) auto

function stableNormalize :: "platform \<Rightarrow> json \<Rightarrow> json result" where
  "stableNormalize P (JArr vs) = bind_result (map_result (stableNormalize P) vs) (\<lambda>ws. Inr (JArr ws))"
| "stableNormalize P (JNum x) = Inr (JNum x)"
| "stableNormalize P JNonFinite = Inl NonFiniteNumber"
| "stableNormalize P (JObj es) =
     bind_result
       (map_result (\<lambda>(k, v). bind_result (stableNormalize P v) (\<lambda>w. Inr (k, w)))
          (sort_entries (locale_le P) (filter (\<lambda>(k, v). v \<noteq> JUndef) es)))
       (\<lambda>fs. Inr (JObj (from_entries fs)))"
| "stableNormalize P JUndef = Inr JUndef"
| "stableNormalize P JNull = Inr JNull"
| "stableNormalize P (JBool b) = Inr (JBool b)"
| "stableNormalize P (JStr s) = Inr (JStr s)"
  by pat_completeness auto
termination
proof (relation "measure (\<lambda>(P, v). size v)", goal_cases)
  case (3 P es e k v)
  then have "e \<in> set es" by simp
  then have "size (snd e) < Suc (size_list (size_prod (\<lambda>x. 0) size) es)"
    by (induction es) auto
  with 3 show ?case by auto
qed (auto simp: less_Suc_eq_le size_list_estimation')

definition stableStringify :: "platform \<Rightarrow> json \<Rightarrow> string result" where
  "stableStringify P v = bind_result (stableNormalize P v) (\<lambda>w. Inr (json_string w))"

section \<open>Normalisation keeps every property\<close>

lemma map_of_insert_entry:
  "distinct (map fst (e # es)) \<Longrightarrow> map_of (insert_entry le e es) k = (if k = fst e then Some (snd e) else map_of es k)"
  by (induction le e es rule: insert_entry.induct) (auto split: prod.splits)

lemma keys_insert_entry: "fst ` set (insert_entry le e es) = insert (fst e) (fst ` set es)"
  by simp

lemma distinct_insert_entry:
  "distinct (map fst (e # es)) \<Longrightarrow> distinct (map fst (insert_entry le e es))"
  by (induction le e es rule: insert_entry.induct) auto

lemma distinct_sort_entries: "distinct (map fst es) \<Longrightarrow> distinct (map fst (sort_entries le es))"
proof (induction es)
  case (Cons e es)
  then show ?case by (simp add: distinct_insert_entry)
qed simp

lemma map_of_sort_entries: "distinct (map fst es) \<Longrightarrow> map_of (sort_entries le es) = map_of es"
proof (induction es)
  case (Cons e es)
  then have "distinct (map fst (e # sort_entries le es))"
    by (simp add: distinct_sort_entries)
  with Cons show ?case
    by (intro ext) (cases e, simp add: map_of_insert_entry)
qed simp

lemma map_of_filter_key:
  "distinct (map fst es) \<Longrightarrow> map_of (filter (\<lambda>e. Q (fst e)) es) k = (if Q k then map_of es k else None)"
  by (induction es) (auto simp: map_of_eq_None_iff)

lemma distinct_map_filter_fst: "distinct (map fst es) \<Longrightarrow> distinct (map fst (filter Q es))"
  by (rule distinct_map_filter)

lemma map_of_from_entries: "distinct (map fst es) \<Longrightarrow> map_of (from_entries es) = map_of es"
proof (rule ext)
  fix k
  assume d: "distinct (map fst es)"
  have "map_of (filter (\<lambda>e. \<not> is_array_index (fst e)) es) k = (if \<not> is_array_index k then map_of es k else None)"
    by (rule map_of_filter_key[where Q = "\<lambda>k. \<not> is_array_index k", OF d])
  then show "map_of (from_entries es) k = map_of es k"
    using d by (simp add: from_entries_def map_add_def map_of_sort_entries distinct_map_filter_fst
        map_of_filter_key split: option.splits)
qed

lemma distinct_from_entries: "distinct (map fst es) \<Longrightarrow> distinct (map fst (from_entries es))"
proof -
  assume d: "distinct (map fst es)"
  have "distinct (map fst (sort_entries index_le (filter (\<lambda>e. is_array_index (fst e)) es)))"
    using d by (simp add: distinct_sort_entries distinct_map_filter)
  moreover have "distinct (map fst (filter (\<lambda>e. \<not> is_array_index (fst e)) es))"
    using d by (simp add: distinct_map_filter)
  ultimately show ?thesis
    by (auto simp: from_entries_def)
qed

lemma set_from_entries [simp]: "set (from_entries es) = set es"
  by (auto simp: from_entries_def)

text \<open>The entries of a normalised object are the normalised entries, key by key.\<close>

lemma normalize_entries_keys:
  "map_result (\<lambda>(k, v). bind_result (f v) (\<lambda>w. Inr (k, w))) es = Inr fs \<Longrightarrow> map fst fs = map fst es"
  by (induction es arbitrary: fs) auto

lemma normalize_entries_Some:
  "map_result (\<lambda>(k, v). bind_result (f v) (\<lambda>w. Inr (k, w))) es = Inr fs \<Longrightarrow>
   map_of es k = Some v \<Longrightarrow> \<exists>w. f v = Inr w \<and> map_of fs k = Some w"
  by (induction es arbitrary: fs) (auto split: if_splits)

lemma normalize_entries_None:
  "map_result (\<lambda>(k, v). bind_result (f v) (\<lambda>w. Inr (k, w))) es = Inr fs \<Longrightarrow>
   map_of es k = None \<Longrightarrow> map_of fs k = None"
  by (drule normalize_entries_keys) (metis map_of_eq_None_iff set_map)

lemma map_of_filter_defined:
  "distinct (map fst es) \<Longrightarrow> map_of (filter (\<lambda>(k, v). v \<noteq> JUndef) es) k =
     (case map_of es k of Some JUndef \<Rightarrow> None | r \<Rightarrow> r)"
  by (induction es) (auto simp: map_of_eq_None_iff split: json.splits option.splits)

lemma normalize_obj_get:
  assumes "stableNormalize P (JObj es) = Inr (JObj fs)" and "distinct (map fst es)"
  shows "stableNormalize P (obj_get es k) = Inr (obj_get fs k)"
    and "distinct (map fst fs)"
proof -
  let ?ds = "sort_entries (locale_le P) (filter (\<lambda>(k, v). v \<noteq> JUndef) es)"
  from assms(1) obtain gs where gs: "map_result (\<lambda>(k, v). bind_result (stableNormalize P v) (\<lambda>w. Inr (k, w))) ?ds = Inr gs"
    and fs: "fs = from_entries gs" by auto
  have d: "distinct (map fst ?ds)"
    using assms(2) by (simp add: distinct_sort_entries distinct_map_filter)
  then have dg: "distinct (map fst gs)" using normalize_entries_keys[OF gs] by simp
  then show "distinct (map fst fs)" using fs by (simp add: distinct_from_entries)
  have m: "map_of ?ds k = (case map_of es k of Some JUndef \<Rightarrow> None | r \<Rightarrow> r)"
    using assms(2) by (simp add: map_of_sort_entries distinct_map_filter map_of_filter_defined)
  show "stableNormalize P (obj_get es k) = Inr (obj_get fs k)"
  proof (cases "map_of ?ds k")
    case None
    then have "map_of gs k = None" by (rule normalize_entries_None[OF gs])
    moreover from None m have "obj_get es k = JUndef"
      by (auto simp: obj_get_def split: option.splits json.splits)
    ultimately show ?thesis using fs dg by (simp add: obj_get_def map_of_from_entries)
  next
    case (Some v)
    then obtain w where "stableNormalize P v = Inr w" "map_of gs k = Some w"
      using normalize_entries_Some[OF gs] by blast
    moreover from Some m have "obj_get es k = v"
      by (auto simp: obj_get_def split: option.splits json.splits)
    ultimately show ?thesis using fs dg by (simp add: obj_get_def map_of_from_entries)
  qed
qed

section \<open>Key order does not matter\<close>

text \<open>
  What canonicalisation relies on in a key order: on the keys at hand it is a total order.  The
  numeric order on array indices is one; \<open>localeCompare\<close> is one on keys it tells apart.
\<close>

locale collation =
  fixes le :: "string \<Rightarrow> string \<Rightarrow> bool" and K :: "string set"
  assumes total: "a \<in> K \<Longrightarrow> b \<in> K \<Longrightarrow> le a b \<or> le b a"
    and trans: "a \<in> K \<Longrightarrow> b \<in> K \<Longrightarrow> c \<in> K \<Longrightarrow> le a b \<Longrightarrow> le b c \<Longrightarrow> le a c"
    and antisym: "a \<in> K \<Longrightarrow> b \<in> K \<Longrightarrow> le a b \<Longrightarrow> le b a \<Longrightarrow> a = b"
begin

lemma insert_entry_commute:
  "fst e \<in> K \<Longrightarrow> fst f \<in> K \<Longrightarrow> fst ` set es \<subseteq> K \<Longrightarrow> fst e \<noteq> fst f \<Longrightarrow>
   insert_entry le e (insert_entry le f es) = insert_entry le f (insert_entry le e es)"
proof (induction es)
  case Nil
  then show ?case using total antisym by auto
next
  case (Cons g es)
  have g: "fst g \<in> K" using Cons.prems by simp
  show ?case
    using Cons total[of "fst e" "fst f"] antisym[of "fst e" "fst f"] total[of "fst e" "fst g"]
      total[of "fst f" "fst g"] trans[of "fst e" "fst f" "fst g"] trans[of "fst f" "fst e" "fst g"] g
    by auto
qed

lemma sort_entries_remove1:
  "e \<in> set es \<Longrightarrow> distinct (map fst es) \<Longrightarrow> fst ` set es \<subseteq> K \<Longrightarrow>
   sort_entries le es = insert_entry le e (sort_entries le (remove1 e es))"
proof (induction es)
  case (Cons f es)
  show ?case
  proof (cases "e = f")
    case False
    with Cons.prems have e: "e \<in> set es" by simp
    with Cons.prems(2) have "fst e \<noteq> fst f" by (metis distinct.simps(2) image_eqI list.simps(9) set_map)
    moreover have "fst ` set (sort_entries le (remove1 e es)) \<subseteq> K"
      using Cons.prems(3) set_remove1_subset[of e es] by auto
    moreover have "sort_entries le es = insert_entry le e (sort_entries le (remove1 e es))"
      using Cons e by simp
    moreover have "fst e \<in> K" "fst f \<in> K"
      using Cons.prems(3) e by auto
    ultimately have "sort_entries le (f # es) = insert_entry le e (insert_entry le f (sort_entries le (remove1 e es)))"
      by (simp only: sort_entries.simps insert_entry_commute[of f e] not_sym)
    with False show ?thesis by simp
  qed simp
qed simp

lemma sort_entries_perm:
  "mset es = mset fs \<Longrightarrow> distinct (map fst es) \<Longrightarrow> fst ` set es \<subseteq> K \<Longrightarrow>
   sort_entries le es = sort_entries le fs"
proof (induction es arbitrary: fs)
  case (Cons e es)
  have m: "mset es = mset (remove1 e fs)"
    using Cons.prems(1) by (metis mset_remove1 add_mset_remove_trivial mset.simps(2))
  have set: "set fs = set (e # es)"
    using mset_eq_setD[OF Cons.prems(1)] by simp
  have "mset (map fst fs) = mset (map fst (e # es))"
    using Cons.prems(1) by (simp only: mset_map)
  then have "distinct (map fst fs)"
    using Cons.prems(2) mset_eq_imp_distinct_iff by blast
  with set have fs: "e \<in> set fs" "distinct (map fst fs)" "fst ` set fs \<subseteq> K"
    using Cons.prems(3) by (auto simp only: set list.set_intros)
  have "sort_entries le es = sort_entries le (remove1 e fs)"
    using Cons.IH[OF m] Cons.prems by simp
  then show ?case using sort_entries_remove1[OF fs] by simp
qed simp

end

lemma array_index_inj: "is_array_index a \<Longrightarrow> is_array_index b \<Longrightarrow> digits_val a = digits_val b \<Longrightarrow> a = b"
  by (metis is_array_index_def)

interpretation index_keys: collation index_le "{k. is_array_index k}"
  by unfold_locales (auto simp: index_le_def intro: array_index_inj)

text \<open>
  \<open>reordered K v w\<close>: \<open>w\<close> is \<open>v\<close> with the properties of its objects listed in another order, at any
  depth, all keys being distinct within an object and taken from \<open>K\<close>.
\<close>

inductive reordered :: "string set \<Rightarrow> json \<Rightarrow> json \<Rightarrow> bool" for K where
  same: "reordered K v v"
| arr: "list_all2 (reordered K) vs ws \<Longrightarrow> reordered K (JArr vs) (JArr ws)"
| obj: "list_all2 (\<lambda>e f. fst e = fst f \<and> reordered K (snd e) (snd f)) es fs \<Longrightarrow>
     mset fs = mset gs \<Longrightarrow> distinct (map fst es) \<Longrightarrow> fst ` set es \<subseteq> K \<Longrightarrow>
     reordered K (JObj es) (JObj gs)"

lemma map_result_list_all2:
  "list_all2 (\<lambda>x y. f x = f y) xs ys \<Longrightarrow> map_result f xs = map_result f ys"
  by (induction rule: list_all2_induct) auto

lemma list_all2_insert_entry:
  assumes "fst e = fst f" "R e f" "list_all2 (\<lambda>e f. fst e = fst f \<and> R e f) es fs"
  shows "list_all2 (\<lambda>e f. fst e = fst f \<and> R e f) (insert_entry le e es) (insert_entry le f fs)"
  using assms(3,1,2) by (induction rule: list_all2_induct) auto

lemma list_all2_sort_entries:
  "list_all2 (\<lambda>e f. fst e = fst f \<and> R e f) es fs \<Longrightarrow>
   list_all2 (\<lambda>e f. fst e = fst f \<and> R e f) (sort_entries le es) (sort_entries le fs)"
  by (induction rule: list_all2_induct) (auto intro: list_all2_insert_entry)

lemma list_all2_filter_iff:
  "list_all2 R es fs \<Longrightarrow> (\<And>e f. R e f \<Longrightarrow> Q e \<longleftrightarrow> Q f) \<Longrightarrow> list_all2 R (filter Q es) (filter Q fs)"
  by (induction rule: list_all2_induct) auto

definition defined_entry :: "string \<times> json \<Rightarrow> bool" where
  "defined_entry e \<longleftrightarrow> snd e \<noteq> JUndef"

lemma stableNormalize_obj:
  "stableNormalize P (JObj es) =
     bind_result
       (map_result (\<lambda>e. bind_result (stableNormalize P (snd e)) (\<lambda>w. Inr (fst e, w)))
          (sort_entries (locale_le P) (filter defined_entry es)))
       (\<lambda>fs. Inr (JObj (from_entries fs)))"
proof -
  have "(\<lambda>(k, v). v \<noteq> JUndef) = defined_entry"
    by (auto simp: defined_entry_def fun_eq_iff)
  moreover have "(\<lambda>(k :: string, v). bind_result (stableNormalize P v) (\<lambda>w. Inr (k, w))) =
      (\<lambda>e. bind_result (stableNormalize P (snd e)) (\<lambda>w. Inr (fst e, w)))"
    by (auto simp: fun_eq_iff)
  ultimately show ?thesis by simp
qed

declare stableNormalize.simps(4) [simp del]

lemma normalize_reordered:
  assumes "collation (locale_le P) K"
  shows "reordered K v w \<Longrightarrow> stableNormalize P v = stableNormalize P w \<and> (v = JUndef \<longleftrightarrow> w = JUndef)"
proof (induction rule: reordered.induct)
  case (arr vs ws)
  then have "list_all2 (\<lambda>v w. stableNormalize P v = stableNormalize P w) vs ws"
    by (rule list_all2_mono) auto
  then have "map_result (stableNormalize P) vs = map_result (stableNormalize P) ws"
    by (rule map_result_list_all2)
  then show ?case by simp
next
  case (obj es fs gs)
  let ?R = "\<lambda>e f. fst e = fst f \<and>
    (stableNormalize P (snd e) = stableNormalize P (snd f) \<and> (snd e = JUndef \<longleftrightarrow> snd f = JUndef))"
  let ?sort = "sort_entries (locale_le P)"
  have R: "list_all2 ?R es fs"
    using obj.IH by (rule list_all2_mono) auto
  have "list_all2 ?R (?sort (filter defined_entry es)) (?sort (filter defined_entry fs))"
    by (intro list_all2_sort_entries list_all2_filter_iff[OF R]) (auto simp: defined_entry_def)
  then have "list_all2 (\<lambda>e f. bind_result (stableNormalize P (snd e)) (\<lambda>w. Inr (fst e, w)) =
      bind_result (stableNormalize P (snd f)) (\<lambda>w. Inr (fst f, w)))
      (?sort (filter defined_entry es)) (?sort (filter defined_entry fs))"
    by (rule list_all2_mono) auto
  then have 1: "stableNormalize P (JObj es) = stableNormalize P (JObj fs)"
    by (simp only: stableNormalize_obj map_result_list_all2)
  have keys: "map fst fs = map fst es"
    using R by (induction rule: list_all2_induct) auto
  then have keys_K: "distinct (map fst fs)" "fst ` set fs \<subseteq> K"
    using obj.hyps(2,3) by (simp_all only: image_set)
  then have "distinct (map fst (filter defined_entry fs))" "fst ` set (filter defined_entry fs) \<subseteq> K"
    using obj.hyps(2,3) keys_K by (auto intro: distinct_map_filter_fst)
  then have "?sort (filter defined_entry fs) = ?sort (filter defined_entry gs)"
    using obj.hyps(1) by (intro collation.sort_entries_perm[OF assms]) (simp_all only: mset_filter)
  with 1 show ?case by (simp add: stableNormalize_obj)
qed simp

section \<open>When normalisation succeeds\<close>

text \<open>Only a non-finite number makes normalisation throw.\<close>

fun finite_json :: "json \<Rightarrow> bool" where
  "finite_json JNonFinite = False"
| "finite_json (JArr vs) = list_all finite_json vs"
| "finite_json (JObj es) = list_all (\<lambda>e. finite_json (snd e)) es"
| "finite_json v = True"

lemma map_result_total_iff: "(\<exists>ys. map_result f xs = Inr ys) \<longleftrightarrow> (\<forall>x \<in> set xs. \<exists>y. f x = Inr y)"
  by (induction xs) auto

lemma normalize_total: "finite_json v \<Longrightarrow> \<exists>w. stableNormalize P v = Inr w"
proof (induction v)
  case (JArr vs)
  then have "\<exists>ws. map_result (stableNormalize P) vs = Inr ws"
    by (auto simp: map_result_total_iff list_all_iff)
  then show ?case by auto
next
  case (JObj es)
  have "\<exists>fs. map_result (\<lambda>e. bind_result (stableNormalize P (snd e)) (\<lambda>w. Inr (fst e, w)))
      (sort_entries (locale_le P) (filter defined_entry es)) = Inr fs"
    unfolding map_result_total_iff
  proof
    fix e
    assume "e \<in> set (sort_entries (locale_le P) (filter defined_entry es))"
    then have "e \<in> set es" by simp
    moreover obtain k v where e: "e = (k, v)" by (cases e)
    ultimately have "\<exists>w. stableNormalize P v = Inr w"
      using JObj.IH[of e v] JObj.prems by (auto simp: list_all_iff)
    then show "\<exists>y. bind_result (stableNormalize P (snd e)) (\<lambda>w. Inr (fst e, w)) = Inr y"
      using e by auto
  qed
  then show ?case by (auto simp: stableNormalize_obj)
qed simp_all

lemma stringify_total: "finite_json v \<Longrightarrow> \<exists>s. stableStringify P v = Inr s"
  using normalize_total by (fastforce simp: stableStringify_def)

end
