(* ===== verification/Sample.thy ===== *)
theory Sample
  imports Canonical
begin

text \<open>
  A concrete platform on which the witnesses are evaluated: the identity as hash, signatures that
  spell out the key and the message, times written as decimal milliseconds, and the order of strings
  by their bytes.
\<close>

fun byte_le :: "string \<Rightarrow> string \<Rightarrow> bool" where
  "byte_le [] _ = True"
| "byte_le (a # s) [] = False"
| "byte_le (a # s) (b # t) = (if a = b then byte_le s t else (of_char a :: nat) < of_char b)"

definition decimal_parse :: "string \<Rightarrow> int option" where
  "decimal_parse s = (if s \<noteq> [] \<and> list_all is_digit s then Some (int (digits_val s)) else None)"

definition decimal_iso :: "int \<Rightarrow> string option" where
  "decimal_iso n = (if 0 \<le> n then Some (nat_digits (nat n)) else None)"

definition sample :: platform where
  "sample = \<lparr> sha256_hex = (\<lambda>s. s),
     ed25519_verify = (\<lambda>pub msg sig. Some (sig = pub @ ''/'' @ msg)),
     date_parse = decimal_parse, date_iso = decimal_iso, locale_le = byte_le \<rparr>"

lemma sample_simps [simp]:
  "sha256_hex sample s = s"
  "ed25519_verify sample pub msg sig = Some (sig = pub @ ''/'' @ msg)"
  "date_parse sample = decimal_parse" "date_iso sample = decimal_iso" "locale_le sample = byte_le"
  by (simp_all add: sample_def)

lemma sample_no_collision [simp]: "\<not> sha256_collision sample a b"
  by (simp add: sha256_collision_def)

lemma byte_le_total: "byte_le a b \<or> byte_le b a"
proof (induction a b rule: byte_le.induct)
  case (3 a s b t)
  then show ?case using linorder_cases[of "of_char a :: nat" "of_char b"] by auto
qed auto

lemma byte_le_antisym: "byte_le a b \<Longrightarrow> byte_le b a \<Longrightarrow> a = b"
proof (induction a b rule: byte_le.induct)
  case (1 b)
  then show ?case by (cases b) auto
qed (auto split: if_splits)

lemma byte_le_trans: "byte_le a b \<Longrightarrow> byte_le b c \<Longrightarrow> byte_le a c"
proof (induction a c arbitrary: b rule: byte_le.induct)
  case (2 a s)
  then show ?case by (cases b) auto
next
  case (3 a s c t)
  then obtain x u where "b = x # u" by (cases b) auto
  with 3 show ?case by (auto split: if_splits)
qed simp

interpretation bytes: collation byte_le UNIV
  using byte_le_total byte_le_antisym byte_le_trans by unfold_locales blast+

lemma decimal_parse_iso [simp]: "0 \<le> n \<Longrightarrow> decimal_iso n = Some s \<Longrightarrow> decimal_parse s = Some n"
  using nat_digits_digits[of "nat n"] by (auto simp: decimal_iso_def decimal_parse_def)

lemma nat_digits_small [simp]: "n < 10 \<Longrightarrow> nat_digits n = [digit_char n]"
  by (simp add: nat_digits.simps)

end
