(* ===== verification/Fail_Mode.thy ===== *)
theory Fail_Mode
  imports Prelude
begin

text \<open>
  \<open>execution-control-runtime/src/fail-mode.ts\<close>: the fail action of a Ward under infrastructure
  degradation is a function of its criticality and of the active conditions.  The lemmas show that
  the loop of \<open>resolveFailMode\<close> computes the most restrictive action of the active conditions, that
  the order of the conditions is irrelevant to it, and how the default matrix is ordered.
\<close>

section \<open>Data\<close>

text \<open>
  The string unions of the source are checked by the compiler only: the last constructor of each
  type is any other string a caller may send.
\<close>

datatype WardCriticality = safety_critical | mission_critical | routine | best_effort
  | UnknownCriticality string

datatype DegradationCondition = ledger_unavailable | control_plane_stale | quorum_lost
  | dependency_timeout | UnknownCondition string

datatype FailAction = allow | allow_degraded | escalate | refuse_action

primrec ACTION_RANK :: "FailAction \<Rightarrow> nat" where
  "ACTION_RANK allow = 0"
| "ACTION_RANK allow_degraded = 1"
| "ACTION_RANK escalate = 2"
| "ACTION_RANK refuse_action = 3"

instantiation FailAction :: linorder
begin

definition less_eq_FailAction :: "FailAction \<Rightarrow> FailAction \<Rightarrow> bool" where
  "less_eq_FailAction a b \<longleftrightarrow> ACTION_RANK a \<le> ACTION_RANK b"

definition less_FailAction :: "FailAction \<Rightarrow> FailAction \<Rightarrow> bool" where
  "less_FailAction a b \<longleftrightarrow> ACTION_RANK a < ACTION_RANK b"

instance
proof
  fix a b :: FailAction
  assume "a \<le> b" "b \<le> a"
  then show "a = b" by (cases a; cases b) (simp_all add: less_eq_FailAction_def)
qed (auto simp: less_eq_FailAction_def less_FailAction_def)

end

lemmas fail_action_order = less_eq_FailAction_def less_FailAction_def

definition DEFAULT_CRITICALITY :: WardCriticality where
  "DEFAULT_CRITICALITY = mission_critical"

type_synonym fail_table = "DegradationCondition \<Rightarrow> FailAction option"
type_synonym fail_policy = "WardCriticality \<Rightarrow> fail_table option"

fun fail_row :: "FailAction \<Rightarrow> FailAction \<Rightarrow> FailAction \<Rightarrow> FailAction \<Rightarrow> fail_table" where
  "fail_row l c q d ledger_unavailable = Some l"
| "fail_row l c q d control_plane_stale = Some c"
| "fail_row l c q d quorum_lost = Some q"
| "fail_row l c q d dependency_timeout = Some d"
| "fail_row l c q d (UnknownCondition s) = None"

fun DEFAULT_FAIL_MODE_POLICY :: fail_policy where
  "DEFAULT_FAIL_MODE_POLICY safety_critical =
     Some (fail_row refuse_action refuse_action refuse_action refuse_action)"
| "DEFAULT_FAIL_MODE_POLICY mission_critical =
     Some (fail_row refuse_action refuse_action refuse_action escalate)"
| "DEFAULT_FAIL_MODE_POLICY routine =
     Some (fail_row escalate escalate escalate allow_degraded)"
| "DEFAULT_FAIL_MODE_POLICY best_effort =
     Some (fail_row allow_degraded allow_degraded escalate allow_degraded)"
| "DEFAULT_FAIL_MODE_POLICY (UnknownCriticality s) = None"

record FailModeResolution =
  fm_action :: FailAction
  fm_condition :: "DegradationCondition option"
  fm_criticality :: WardCriticality

section \<open>Operations\<close>

text \<open>\<open>policy[crit] ?? policy[DEFAULT_CRITICALITY]\<close>; a policy without either row makes \<open>table[condition]\<close> throw, which no policy of the source does.\<close>

definition fail_table_of :: "fail_policy \<Rightarrow> WardCriticality \<Rightarrow> fail_table" where
  "fail_table_of policy crit =
     (case coalesce (policy crit) (policy DEFAULT_CRITICALITY) of Some t \<Rightarrow> t | None \<Rightarrow> (\<lambda>_. None))"

definition condition_action :: "fail_table \<Rightarrow> DegradationCondition \<Rightarrow> FailAction" where
  "condition_action table condition = (case table condition of Some a \<Rightarrow> a | None \<Rightarrow> refuse_action)"

fun fail_mode_loop :: "fail_table \<Rightarrow> FailAction \<Rightarrow> DegradationCondition option \<Rightarrow> DegradationCondition list
    \<Rightarrow> FailAction \<times> DegradationCondition option" where
  "fail_mode_loop table chosen binding [] = (chosen, binding)"
| "fail_mode_loop table chosen binding (condition # rest) =
     (let action = condition_action table condition
      in if ACTION_RANK action > ACTION_RANK chosen
         then fail_mode_loop table action (Some condition) rest
         else fail_mode_loop table chosen binding rest)"

text \<open>\<open>conditions ?? []\<close>.\<close>

definition active_conditions :: "DegradationCondition list option \<Rightarrow> DegradationCondition list" where
  "active_conditions conditions = (case conditions of Some cs \<Rightarrow> cs | None \<Rightarrow> [])"

definition resolveFailMode ::
  "fail_policy \<Rightarrow> WardCriticality option \<Rightarrow> DegradationCondition list option \<Rightarrow> FailModeResolution" where
  "resolveFailMode policy criticality conditions =
     (let crit = (case criticality of Some c \<Rightarrow> c | None \<Rightarrow> DEFAULT_CRITICALITY);
          (chosen, binding) =
            fail_mode_loop (fail_table_of policy crit) allow None (active_conditions conditions)
      in \<lparr> fm_action = chosen, fm_condition = binding, fm_criticality = crit \<rparr>)"

definition failModeBlocks :: "FailModeResolution \<Rightarrow> bool" where
  "failModeBlocks r \<longleftrightarrow> fm_action r = refuse_action \<or> fm_action r = escalate"

section \<open>The loop computes the most restrictive action\<close>

lemma allow_least [simp]: "allow \<le> (a :: FailAction)"
  by (cases a) (simp_all add: fail_action_order)

lemma fail_mode_loop_max:
  "fst (fail_mode_loop table chosen binding cs) = fold max (map (condition_action table) cs) chosen"
proof (induction cs arbitrary: chosen binding)
  case (Cons c cs)
  then show ?case
    by (auto simp: Let_def fail_action_order max_def not_less)
qed simp

lemma fold_max_Max: "fold max xs (a :: 'a :: linorder) = Max (insert a (set xs))"
  by (metis List.finite_set Max.set_eq_fold list.simps(15))

lemma fail_mode_loop_condition:
  "fail_mode_loop table chosen binding cs = (a, b) \<Longrightarrow>
   (a = chosen \<and> b = binding) \<or>
   (\<exists>c \<in> set cs. b = Some c \<and> condition_action table c = a \<and> ACTION_RANK chosen < ACTION_RANK a)"
proof (induction cs arbitrary: chosen binding)
  case (Cons c cs)
  show ?case
  proof (cases "ACTION_RANK (condition_action table c) > ACTION_RANK chosen")
    case True
    with Cons.prems have "fail_mode_loop table (condition_action table c) (Some c) cs = (a, b)"
      by (simp add: Let_def)
    from Cons.IH[OF this] True show ?thesis by auto
  next
    case False
    with Cons.prems have "fail_mode_loop table chosen binding cs = (a, b)"
      by (simp add: Let_def)
    from Cons.IH[OF this] show ?thesis by auto
  qed
qed simp

lemma fail_mode_loop_binding:
  "fail_mode_loop table allow None cs = (a, b) \<Longrightarrow>
   (b = None \<and> a = allow) \<or> (\<exists>c \<in> set cs. b = Some c \<and> a = condition_action table c \<and> a \<noteq> allow)"
  by (drule fail_mode_loop_condition) auto

definition effective_criticality :: "WardCriticality option \<Rightarrow> WardCriticality" where
  "effective_criticality c = (case c of Some x \<Rightarrow> x | None \<Rightarrow> DEFAULT_CRITICALITY)"

lemma active_conditions_simps [simp]: "active_conditions (Some cs) = cs" "active_conditions None = []"
  by (simp_all add: active_conditions_def)

lemma resolveFailMode_action:
  "fm_action (resolveFailMode policy c conds) =
     Max (insert allow (condition_action (fail_table_of policy (effective_criticality c)) ` set (active_conditions conds)))"
  using fail_mode_loop_max[of "fail_table_of policy (effective_criticality c)" allow None "active_conditions conds"]
  by (simp add: resolveFailMode_def effective_criticality_def fold_max_Max split_beta Let_def)

lemma Max_insert_allow_iff:
  fixes S :: "FailAction set"
  assumes "finite S" "a \<noteq> allow"
  shows "Max (insert allow S) \<ge> a \<longleftrightarrow> (\<exists>x \<in> S. x \<ge> a)"
  using assms by (subst Max_ge_iff) (auto simp: antisym)

section \<open>The default matrix\<close>

lemma Max_image_mono:
  fixes f g :: "'a \<Rightarrow> FailAction"
  assumes "finite S" "\<And>c. f c \<le> g c"
  shows "Max (insert allow (f ` S)) \<le> Max (insert allow (g ` S))"
  using assms by (subst Max_le_iff) (auto intro: Max_ge order_trans[OF assms(2) Max_ge])

abbreviation default_action :: "WardCriticality \<Rightarrow> DegradationCondition \<Rightarrow> FailAction" where
  "default_action crit \<equiv> condition_action (fail_table_of DEFAULT_FAIL_MODE_POLICY crit)"

lemmas default_action_defs = condition_action_def fail_table_of_def DEFAULT_CRITICALITY_def

lemma default_safety: "default_action safety_critical c = refuse_action"
  by (cases c) (simp_all add: default_action_defs)

lemma default_quorum: "escalate \<le> default_action crit quorum_lost"
  by (cases crit) (simp_all add: default_action_defs fail_action_order)

lemma refuse_above [simp]: "(a :: FailAction) \<le> refuse_action"
  by (cases a) (simp_all add: fail_action_order)

lemma default_unknown: "default_action crit (UnknownCondition u) = refuse_action"
  by (cases crit) (simp_all add: default_action_defs)

lemma default_order:
  "default_action best_effort c \<le> default_action routine c"
  "default_action routine c \<le> default_action mission_critical c"
  "default_action mission_critical c \<le> default_action safety_critical c"
  by (cases c; simp add: default_action_defs fail_action_order)+

lemma default_unlabelled: "default_action (UnknownCriticality s) = default_action mission_critical"
  by (rule ext) (simp add: default_action_defs)

lemma resolve_default_mono:
  "(\<And>c. default_action x c \<le> default_action y c) \<Longrightarrow>
   fm_action (resolveFailMode DEFAULT_FAIL_MODE_POLICY (Some x) conds) \<le>
   fm_action (resolveFailMode DEFAULT_FAIL_MODE_POLICY (Some y) conds)"
  by (simp only: resolveFailMode_action effective_criticality_def option.case) (rule Max_image_mono; simp)

section \<open>Properties\<close>

text \<open>
  The most restrictive active condition decides: the resolved action is at least as restrictive as
  the table's action for each active condition, it is the table's action for the condition reported as
  binding, it is plain \<open>allow\<close> exactly when no condition is reported, and the order and repetition of
  the conditions do not matter.
\<close>

theorem resolveFailMode_most_restrictive:
  "let r = resolveFailMode policy crit conds;
       act = condition_action (fail_table_of policy (effective_criticality crit))
   in (\<forall>c. c \<in> set (active_conditions conds) \<longrightarrow> act c \<le> fm_action r) \<and>
      (case fm_condition r of
         Some c \<Rightarrow> c \<in> set (active_conditions conds) \<and> fm_action r = act c \<and> fm_action r \<noteq> allow
       | None \<Rightarrow> fm_action r = allow) \<and>
      (\<forall>conds'. set (active_conditions conds') = set (active_conditions conds) \<longrightarrow>
         fm_action (resolveFailMode policy crit conds') = fm_action r)"
proof -
  let ?t = "fail_table_of policy (effective_criticality crit)"
  obtain a b where ab: "fail_mode_loop ?t allow None (active_conditions conds) = (a, b)"
    by (cases "fail_mode_loop ?t allow None (active_conditions conds)")
  have r: "fm_action (resolveFailMode policy crit conds) = a" "fm_condition (resolveFailMode policy crit conds) = b"
    using ab by (simp_all add: resolveFailMode_def effective_criticality_def Let_def)
  have "(case b of Some c \<Rightarrow> c \<in> set (active_conditions conds) \<and> a = condition_action ?t c \<and> a \<noteq> allow | None \<Rightarrow> a = allow)"
    using fail_mode_loop_binding[OF ab] by (cases b) auto
  moreover have "condition_action ?t c \<le> a" if "c \<in> set (active_conditions conds)" for c
    using that resolveFailMode_action[of policy crit conds] by (simp add: r(1))
  moreover have "fm_action (resolveFailMode policy crit conds') = a"
    if "set (active_conditions conds') = set (active_conditions conds)" for conds'
    using that r(1) by (simp only: resolveFailMode_action)
  ultimately show ?thesis unfolding Let_def r by (intro conjI allI impI)
qed

theorem resolveFailMode_most_restrictive_witness:
  "fm_action (resolveFailMode DEFAULT_FAIL_MODE_POLICY (Some routine) (Some [dependency_timeout, quorum_lost])) = escalate"
  using resolveFailMode_most_restrictive[of DEFAULT_FAIL_MODE_POLICY "Some routine" "Some [quorum_lost, dependency_timeout]"]
  by (simp add: Let_def resolveFailMode_def fail_table_of_def condition_action_def insert_commute)

text \<open>
  The default matrix fails closed: a safety-critical Ward refuses under every active condition, an
  unlabelled or unknown Ward is treated as mission-critical, lost quorum and conditions the table does
  not know never resolve below escalation, and a more critical Ward never resolves below a less
  critical one.
\<close>

theorem default_policy_fails_closed:
  "(c \<in> set cs \<longrightarrow> fm_action (resolveFailMode DEFAULT_FAIL_MODE_POLICY (Some safety_critical) (Some cs)) = refuse_action) \<and>
   fm_action (resolveFailMode DEFAULT_FAIL_MODE_POLICY None conds) =
     fm_action (resolveFailMode DEFAULT_FAIL_MODE_POLICY (Some mission_critical) conds) \<and>
   fm_action (resolveFailMode DEFAULT_FAIL_MODE_POLICY (Some (UnknownCriticality s)) conds) =
     fm_action (resolveFailMode DEFAULT_FAIL_MODE_POLICY (Some mission_critical) conds) \<and>
   (quorum_lost \<in> set cs \<or> UnknownCondition u \<in> set cs \<longrightarrow>
     escalate \<le> fm_action (resolveFailMode DEFAULT_FAIL_MODE_POLICY crit (Some cs))) \<and>
   successively (\<lambda>x y. fm_action (resolveFailMode DEFAULT_FAIL_MODE_POLICY (Some x) conds) \<le>
       fm_action (resolveFailMode DEFAULT_FAIL_MODE_POLICY (Some y) conds))
     [best_effort, routine, mission_critical, safety_critical]"
proof (intro conjI impI)
  show "fm_action (resolveFailMode DEFAULT_FAIL_MODE_POLICY (Some safety_critical) (Some cs)) = refuse_action" if "c \<in> set cs"
  proof (rule antisym)
    show "refuse_action \<le> fm_action (resolveFailMode DEFAULT_FAIL_MODE_POLICY (Some safety_critical) (Some cs))"
      using that by (auto simp: resolveFailMode_action effective_criticality_def Max_insert_allow_iff default_safety)
  qed (cases "fm_action (resolveFailMode DEFAULT_FAIL_MODE_POLICY (Some safety_critical) (Some cs))"; simp add: fail_action_order)
  show "escalate \<le> fm_action (resolveFailMode DEFAULT_FAIL_MODE_POLICY crit (Some cs))"
    if active: "quorum_lost \<in> set cs \<or> UnknownCondition u \<in> set cs"
  proof -
    obtain c where "c \<in> set cs" "escalate \<le> default_action (effective_criticality crit) c"
      using active default_quorum[of "effective_criticality crit"] default_unknown[of "effective_criticality crit" u]
      by (metis refuse_above)
    then show ?thesis by (auto simp: resolveFailMode_action Max_insert_allow_iff)
  qed
qed (simp_all add: resolve_default_mono default_order,
     simp_all add: resolveFailMode_action effective_criticality_def default_unlabelled DEFAULT_CRITICALITY_def)

theorem default_policy_fails_closed_witness:
  "fm_action (resolveFailMode DEFAULT_FAIL_MODE_POLICY (Some safety_critical) (Some [dependency_timeout])) = refuse_action \<and>
   escalate \<le> fm_action (resolveFailMode DEFAULT_FAIL_MODE_POLICY (Some best_effort) (Some [quorum_lost]))"
  using default_policy_fails_closed[of dependency_timeout "[dependency_timeout]" None "[]" "[]" None]
    default_policy_fails_closed[of quorum_lost "[quorum_lost]" None "[]" "[]" "Some best_effort"] by simp

end
