(* ===== verification/Js_String.thy ===== *)
theory Js_String
  imports Prelude
begin

text \<open>
  The string operations of ECMAScript that look at characters rather than bytes, on the UTF-8 bytes
  that stand for a string: \<open>trim\<close> and its one-sided forms, \<open>length\<close>, and the character tests behind
  the regular expressions of the sources.
\<close>

section \<open>White space\<close>

text \<open>
  The number of bytes of the white-space or line-terminator character a string starts with, 0 when it
  starts with none: tab to carriage return, space, U+00A0, U+1680, U+2000 to U+200A, U+2028, U+2029,
  U+202F, U+205F, U+3000 and U+FEFF.
\<close>

definition code :: "char \<Rightarrow> nat" where
  "code c = of_char c"

fun ws_bytes :: "nat list \<Rightarrow> nat" where
  "ws_bytes (a # b # c # _) =
     (if 9 \<le> a \<and> a \<le> 13 \<or> a = 32 then 1
      else if a = 0xC2 \<and> b = 0xA0 then 2
      else if a = 0xE1 \<and> b = 0x9A \<and> c = 0x80 \<or>
              a = 0xE2 \<and> b = 0x80 \<and> (0x80 \<le> c \<and> c \<le> 0x8A \<or> c = 0xA8 \<or> c = 0xA9 \<or> c = 0xAF) \<or>
              a = 0xE2 \<and> b = 0x81 \<and> c = 0x9F \<or> a = 0xE3 \<and> b = 0x80 \<and> c = 0x80 \<or>
              a = 0xEF \<and> b = 0xBB \<and> c = 0xBF then 3
      else 0)"
| "ws_bytes [a, b] = (if 9 \<le> a \<and> a \<le> 13 \<or> a = 32 then 1 else if a = 0xC2 \<and> b = 0xA0 then 2 else 0)"
| "ws_bytes [a] = (if 9 \<le> a \<and> a \<le> 13 \<or> a = 32 then 1 else 0)"
| "ws_bytes [] = 0"

definition ws_prefix :: "string \<Rightarrow> nat" where
  "ws_prefix s = ws_bytes (map code (take 3 s))"

function trim_start :: "string \<Rightarrow> string" where
  "trim_start s = (if ws_prefix s = 0 then s else trim_start (drop (ws_prefix s) s))"
  by auto
termination
proof (relation "measure length", goal_cases)
  case (2 s)
  then have "s \<noteq> []" by (auto simp: ws_prefix_def)
  with 2 show ?case by simp
qed simp

declare trim_start.simps [simp del]

definition js_blank :: "string \<Rightarrow> bool" where
  "js_blank s \<longleftrightarrow> trim_start s = []"

fun trim_end :: "string \<Rightarrow> string" where
  "trim_end [] = []"
| "trim_end (c # cs) = (if js_blank (c # cs) then [] else c # trim_end cs)"

definition js_trim :: "string \<Rightarrow> string" where
  "js_trim s = trim_end (trim_start s)"

text \<open>\<open>s.length\<close>, in UTF-16 code units.\<close>

definition utf16_length :: "string \<Rightarrow> nat" where
  "utf16_length s = sum_list (map (\<lambda>c. if code c < 0x80 then 1 else if code c < 0xC0 then 0
     else if code c < 0xF0 then 1 else 2) s)"

text \<open>The lower case of an ASCII character.\<close>

definition ascii_lower :: "char \<Rightarrow> char" where
  "ascii_lower c = (if 65 \<le> code c \<and> code c \<le> 90 then char_of (code c + 32) else c)"

text \<open>A string that is absent in the model only where the code does not use it.\<close>

definition the_default :: "'a \<Rightarrow> 'a option \<Rightarrow> 'a" where
  "the_default d x = (case x of Some v \<Rightarrow> v | None \<Rightarrow> d)"

text \<open>\<open>/^[a-f0-9]{64}$/.test(s)\<close>.\<close>

definition is_lower_hex :: "char \<Rightarrow> bool" where
  "is_lower_hex c \<longleftrightarrow> (48 \<le> code c \<and> code c \<le> 57) \<or> (97 \<le> code c \<and> code c \<le> 102)"

definition hex64 :: "string \<Rightarrow> bool" where
  "hex64 s \<longleftrightarrow> length s = 64 \<and> list_all is_lower_hex s"

section \<open>Trimming\<close>

lemma ws_prefix_Nil [simp]: "ws_prefix [] = 0"
  by (simp add: ws_prefix_def)

lemma trim_start_suffix: "suffix (trim_start s) s"
proof (induction s rule: trim_start.induct)
  case (1 s)
  then show ?case
    by (cases "ws_prefix s = 0") (auto simp: trim_start.simps[of s] intro: suffix_order.trans suffix_drop)
qed

lemma trim_start_no_ws: "ws_prefix (trim_start s) = 0"
proof (induction s rule: trim_start.induct)
  case (1 s)
  then show ?case by (cases "ws_prefix s = 0") (simp_all add: trim_start.simps[of s])
qed

lemma trim_start_idem [simp]: "trim_start (trim_start s) = trim_start s"
  using trim_start_no_ws[of s] by (simp add: trim_start.simps[of "trim_start s"])

lemma trim_end_prefix: "prefix (trim_end s) s"
  by (induction s) auto

lemma js_blank_Nil [simp]: "js_blank []"
  by (simp add: js_blank_def trim_start.simps)

lemma trim_end_blank: "js_blank s \<Longrightarrow> trim_end s = []"
  by (cases s) auto

lemma js_trim_empty: "js_trim s = [] \<longleftrightarrow> js_blank s"
proof
  assume "js_trim s = []"
  then have "js_blank (trim_start s)"
    by (cases "trim_start s") (auto simp: js_trim_def split: if_splits)
  then show "js_blank s" by (simp add: js_blank_def)
qed (simp add: js_trim_def js_blank_def)

section \<open>Lower case\<close>

text \<open>
  \<open>s.toLowerCase()\<close>, as far as tests on ASCII characters depend on it: ASCII letters, and the two other
  characters whose lower case has an ASCII letter, the Kelvin sign and the dotted capital I.  The lower case
  of every other character has no ASCII letter or digit.
\<close>

fun lower_codes :: "nat list \<Rightarrow> nat list" where
  "lower_codes (a # b # c # s) =
     (if a = 0xE2 \<and> b = 0x84 \<and> c = 0xAA then 107 # lower_codes s
      else if a = 0xC4 \<and> b = 0xB0 then 105 # 0xCC # 0x87 # lower_codes (c # s)
      else (if 65 \<le> a \<and> a \<le> 90 then a + 32 else a) # lower_codes (b # c # s))"
| "lower_codes [a, b] =
     (if a = 0xC4 \<and> b = 0xB0 then [105, 0xCC, 0x87]
      else (if 65 \<le> a \<and> a \<le> 90 then a + 32 else a) # lower_codes [b])"
| "lower_codes [a] = [if 65 \<le> a \<and> a \<le> 90 then a + 32 else a]"
| "lower_codes [] = []"

definition js_lower :: "string \<Rightarrow> string" where
  "js_lower s = map char_of (lower_codes (map code s))"

end
