(* ===== verification/Classification.thy ===== *)
theory Classification
  imports Js_String
begin

text \<open>
  \<open>execution-control-runtime/src/classification.ts\<close>: classification labels with caveats.  The lemmas
  show that dominance is a preorder, that the enforcement loop accepts exactly the labels every
  present clearance dominates, and that a cross-domain transfer is allowed exactly when the
  destination dominates the source.  Levels are the five of the type \<open>ClassificationLevel\<close>; the code
  does not check a level at run time, and any other text has no rank, so that the comparison of levels
  is false and the level never refuses.
\<close>

section \<open>Data\<close>

datatype ClassificationLevel = UNCLASSIFIED | CUI | CONFIDENTIAL | SECRET | TOP_SECRET

primrec LEVEL_RANK :: "ClassificationLevel \<Rightarrow> nat" where
  "LEVEL_RANK UNCLASSIFIED = 0"
| "LEVEL_RANK CUI = 1"
| "LEVEL_RANK CONFIDENTIAL = 2"
| "LEVEL_RANK SECRET = 3"
| "LEVEL_RANK TOP_SECRET = 4"

primrec level_name :: "ClassificationLevel \<Rightarrow> string" where
  "level_name UNCLASSIFIED = ''UNCLASSIFIED''"
| "level_name CUI = ''CUI''"
| "level_name CONFIDENTIAL = ''CONFIDENTIAL''"
| "level_name SECRET = ''SECRET''"
| "level_name TOP_SECRET = ''TOP_SECRET''"

record Classification =
  cl_level :: ClassificationLevel
  cl_caveats :: "string list option"

datatype ClassificationCheck = ClassificationOk | ClassificationViolation string
datatype CrossDomainCheck = TransferOk | DOWNGRADE_BLOCKED string | COMPARTMENT_LOSS string

section \<open>Operations\<close>

text \<open>
  \<open>caveat.trim().toUpperCase()\<close>; upper case is that of ASCII letters, the bytes of other characters are left as they are.
\<close>

definition upper_char :: "char \<Rightarrow> char" where
  "upper_char c =
     (let n = (of_char c :: nat) in if 97 \<le> n \<and> n \<le> 122 then char_of (n - 32) else c)"

definition js_upper :: "string \<Rightarrow> string" where
  "js_upper s = map upper_char s"

definition normCaveat :: "string \<Rightarrow> string" where
  "normCaveat caveat = js_upper (js_trim caveat)"

definition classificationRank :: "ClassificationLevel \<Rightarrow> nat" where
  "classificationRank level = LEVEL_RANK level"

definition caveats_of :: "Classification \<Rightarrow> string list" where
  "caveats_of c = (case cl_caveats c of Some cs \<Rightarrow> cs | None \<Rightarrow> [])"

definition held_caveats :: "Classification \<Rightarrow> string set" where
  "held_caveats c = set (map normCaveat (caveats_of c))"

definition dominates :: "Classification \<Rightarrow> Classification \<Rightarrow> bool" where
  "dominates clearance label =
     (if LEVEL_RANK (cl_level clearance) < LEVEL_RANK (cl_level label) then False
      else list_all (\<lambda>caveat. normCaveat caveat \<in> held_caveats clearance) (caveats_of label))"

definition checkClassification :: "Classification \<Rightarrow> Classification \<Rightarrow> ClassificationCheck" where
  "checkClassification clearance label =
     (if dominates clearance label then ClassificationOk
      else let missing = filter (\<lambda>caveat. normCaveat caveat \<notin> held_caveats clearance) (caveats_of label)
        in ClassificationViolation
          (if LEVEL_RANK (cl_level clearance) < LEVEL_RANK (cl_level label)
           then ''clearance '' @ level_name (cl_level clearance) @ '' is below label '' @ level_name (cl_level label)
           else ''clearance is missing required caveats: '' @ join '', '' missing))"

fun enforce_loop :: "Classification option list \<Rightarrow> Classification \<Rightarrow> ClassificationCheck" where
  "enforce_loop [] label = ClassificationOk"
| "enforce_loop (None # rest) label = enforce_loop rest label"
| "enforce_loop (Some clearance # rest) label =
     (case checkClassification clearance label of
        ClassificationOk \<Rightarrow> enforce_loop rest label
      | ClassificationViolation detail \<Rightarrow> ClassificationViolation detail)"

definition enforceClassification ::
  "Classification option list \<Rightarrow> Classification option \<Rightarrow> ClassificationCheck" where
  "enforceClassification clearances label =
     (case label of None \<Rightarrow> ClassificationOk | Some l \<Rightarrow> enforce_loop clearances l)"

definition crossDomainTransferAllowed :: "Classification \<Rightarrow> Classification \<Rightarrow> CrossDomainCheck" where
  "crossDomainTransferAllowed src dst =
     (if LEVEL_RANK (cl_level dst) < LEVEL_RANK (cl_level src)
      then DOWNGRADE_BLOCKED (''transfer '' @ level_name (cl_level src) @ '' -> '' @ level_name (cl_level dst) @
             '' is a downgrade; requires CDS authorization'')
      else let lost = filter (\<lambda>caveat. normCaveat caveat \<notin> held_caveats dst) (caveats_of src)
        in if lost \<noteq> [] then COMPARTMENT_LOSS (''destination lacks compartments: '' @ join '', '' lost)
           else TransferOk)"

section \<open>Dominance is a preorder\<close>

text \<open>The contract of a lattice of labels: a reflexive and transitive dominance.\<close>

locale label_order =
  fixes dom :: "'l \<Rightarrow> 'l \<Rightarrow> bool"
  assumes dom_refl: "dom x x" and dom_trans: "dom x y \<Longrightarrow> dom y z \<Longrightarrow> dom x z"
begin

text \<open>A flow along a chain of domains, each dominating the one before, ends where the data may be.\<close>

lemma dom_chain: "successively (\<lambda>a b. dom b a) (x # xs) \<Longrightarrow> dom (last (x # xs)) x"
proof (induction xs arbitrary: x)
  case (Cons y ys)
  then have "dom (last (y # ys)) y" "dom y x" by auto
  then show ?case by (auto intro: dom_trans)
qed (simp add: dom_refl)

lemma dom_all_trans: "\<forall>c \<in> C. dom c l \<Longrightarrow> dom l l' \<Longrightarrow> \<forall>c \<in> C. dom c l'"
  by (blast intro: dom_trans)

end

lemma dominates_iff:
  "dominates c l \<longleftrightarrow> LEVEL_RANK (cl_level l) \<le> LEVEL_RANK (cl_level c) \<and> held_caveats l \<subseteq> held_caveats c"
  by (auto simp: dominates_def held_caveats_def list_all_iff)

interpretation mls: label_order dominates
  by unfold_locales (auto simp: dominates_iff)

section \<open>Enforcement\<close>

lemma checkClassification_ok: "checkClassification c l = ClassificationOk \<longleftrightarrow> dominates c l"
  by (simp add: checkClassification_def Let_def)

lemma enforce_loop_ok:
  "enforce_loop cs l = ClassificationOk \<longleftrightarrow> (\<forall>c. Some c \<in> set cs \<longrightarrow> dominates c l)"
proof (induction cs l rule: enforce_loop.induct)
  case (3 c rest l)
  then show ?case using checkClassification_ok[of c l] by (cases "checkClassification c l") auto
qed auto

lemma filter_empty_list_all: "filter (\<lambda>x. \<not> Q x) xs = [] \<longleftrightarrow> list_all Q xs"
  by (auto simp: filter_empty_conv list_all_iff)

lemma crossDomain_ok: "crossDomainTransferAllowed src dst = TransferOk \<longleftrightarrow> dominates dst src"
  by (simp add: crossDomainTransferAllowed_def dominates_def Let_def filter_empty_list_all)

section \<open>Properties\<close>

text \<open>
  No read up: enforcement accepts a label exactly when every clearance that is present dominates it,
  where dominance is level order together with inclusion of the normalised caveats; an unlabelled
  action is always accepted, and a label that some accepted label dominates is accepted as well.
\<close>

theorem enforceClassification_no_read_up:
  "(enforceClassification clearances (Some label) = ClassificationOk \<longleftrightarrow>
      (\<forall>c. Some c \<in> set clearances \<longrightarrow>
         LEVEL_RANK (cl_level label) \<le> LEVEL_RANK (cl_level c) \<and> held_caveats label \<subseteq> held_caveats c)) \<and>
   enforceClassification clearances None = ClassificationOk \<and>
   (enforceClassification clearances (Some label) = ClassificationOk \<and> dominates label label' \<longrightarrow>
      enforceClassification clearances (Some label') = ClassificationOk)"
  using mls.dom_trans by (auto simp: enforceClassification_def enforce_loop_ok simp flip: dominates_iff)

theorem enforceClassification_no_read_up_witness:
  "enforceClassification [Some \<lparr> cl_level = SECRET, cl_caveats = Some ['' NOFORN''] \<rparr>, None]
     (Some \<lparr> cl_level = CUI, cl_caveats = Some [''NOFORN''] \<rparr>) = ClassificationOk"
  by (subst enforceClassification_no_read_up[THEN conjunct1])
     (simp add: held_caveats_def caveats_of_def normCaveat_def js_upper_def js_trim_def trim_start.simps ws_prefix_def js_blank_def code_def upper_char_def Let_def of_char_def)

text \<open>
  No write down: a cross-domain transfer is allowed exactly when the destination dominates the
  source; a refusal is a downgrade exactly when the level drops.  Allowed transfers compose along any
  chain of domains: data never reaches a domain that does not dominate where it started.
\<close>

theorem crossDomain_no_write_down:
  "(crossDomainTransferAllowed src dst = TransferOk \<longleftrightarrow> dominates dst src) \<and>
   ((\<exists>d. crossDomainTransferAllowed src dst = DOWNGRADE_BLOCKED d) \<longleftrightarrow>
      LEVEL_RANK (cl_level dst) < LEVEL_RANK (cl_level src)) \<and>
   (successively (\<lambda>a b. crossDomainTransferAllowed a b = TransferOk) (src # hops) \<longrightarrow>
      crossDomainTransferAllowed src (last (src # hops)) = TransferOk)"
  using mls.dom_chain[of src hops] by (auto simp: crossDomain_ok) (auto simp: crossDomainTransferAllowed_def Let_def split: if_splits)

theorem crossDomain_no_write_down_witness:
  "crossDomainTransferAllowed \<lparr> cl_level = CUI, cl_caveats = None \<rparr> \<lparr> cl_level = TOP_SECRET, cl_caveats = None \<rparr> = TransferOk"
  using crossDomain_no_write_down[of "\<lparr> cl_level = CUI, cl_caveats = None \<rparr>" undefined
    "[\<lparr> cl_level = SECRET, cl_caveats = None \<rparr>, \<lparr> cl_level = TOP_SECRET, cl_caveats = None \<rparr>]"]
  by (simp add: crossDomainTransferAllowed_def caveats_of_def)

end
