(* ===== verification/Action.thy ===== *)
theory Action
  imports Sample Fail_Mode Classification
begin

text \<open>
  The data model of the execution-control runtime (\<open>index.ts\<close>, the interfaces of lines 126 to 262
  and 621 to 670) and \<open>canonicalizeAction\<close>.  The main facts: the hash of an action does not depend
  on the order its parameters are listed in, and two actions with the same hash agree on every
  hashed field, or exhibit a SHA-256 collision.
\<close>

section \<open>Decisions and reason codes\<close>

datatype ExecutionControlDecision = ALLOW | REFUSE | ESCALATE | EXPIRE

datatype ExecutionControlReasonCode =
    WARD_NOT_FOUND | SUBJECT_NOT_IN_WARD | ENVELOPE_EXPIRED | ACTION_DENIED | ACTION_NOT_ALLOWED
  | CONSTRAINT_FAILED | PHYSICAL_INVARIANT_FAILED | RUNTIME_STATE_MISSING | POLICY_VERSION_MISMATCH
  | KILL_SWITCH_ENGAGED | REPLAY_DETECTED | BUDGET_EXCEEDED | DUAL_CONTROL_REQUIRED
  | DUAL_CONTROL_STORE_MISSING | AUTHORITY_REVOKED | CLASSIFICATION_VIOLATION | DEGRADED_MODE
  | ALLOWED

primrec decision_name :: "ExecutionControlDecision \<Rightarrow> string" where
  "decision_name ALLOW = ''ALLOW''"
| "decision_name REFUSE = ''REFUSE''"
| "decision_name ESCALATE = ''ESCALATE''"
| "decision_name EXPIRE = ''EXPIRE''"

primrec reason_name :: "ExecutionControlReasonCode \<Rightarrow> string" where
  "reason_name WARD_NOT_FOUND = ''WARD_NOT_FOUND''"
| "reason_name SUBJECT_NOT_IN_WARD = ''SUBJECT_NOT_IN_WARD''"
| "reason_name ENVELOPE_EXPIRED = ''ENVELOPE_EXPIRED''"
| "reason_name ACTION_DENIED = ''ACTION_DENIED''"
| "reason_name ACTION_NOT_ALLOWED = ''ACTION_NOT_ALLOWED''"
| "reason_name CONSTRAINT_FAILED = ''CONSTRAINT_FAILED''"
| "reason_name PHYSICAL_INVARIANT_FAILED = ''PHYSICAL_INVARIANT_FAILED''"
| "reason_name RUNTIME_STATE_MISSING = ''RUNTIME_STATE_MISSING''"
| "reason_name POLICY_VERSION_MISMATCH = ''POLICY_VERSION_MISMATCH''"
| "reason_name KILL_SWITCH_ENGAGED = ''KILL_SWITCH_ENGAGED''"
| "reason_name REPLAY_DETECTED = ''REPLAY_DETECTED''"
| "reason_name BUDGET_EXCEEDED = ''BUDGET_EXCEEDED''"
| "reason_name DUAL_CONTROL_REQUIRED = ''DUAL_CONTROL_REQUIRED''"
| "reason_name DUAL_CONTROL_STORE_MISSING = ''DUAL_CONTROL_STORE_MISSING''"
| "reason_name AUTHORITY_REVOKED = ''AUTHORITY_REVOKED''"
| "reason_name CLASSIFICATION_VIOLATION = ''CLASSIFICATION_VIOLATION''"
| "reason_name DEGRADED_MODE = ''DEGRADED_MODE''"
| "reason_name ALLOWED = ''ALLOWED''"

definition EXPIRE_REASON_CODES :: "string set" where
  "EXPIRE_REASON_CODES = {''warrant-expired'', ''warrant-not-yet-valid'', ''envelope-expired'',
     ''envelope-not-yet-effective'', ''ward-expired'', ''ward-not-yet-effective'', ''mae-expired'',
     ''mae-not-yet-effective'', ''warrant-presented-after-expiry'', ''commit-presentation-stale''}"

text \<open>\<open>reclassifyExpire\<close> on the two fields it reads; the codes are compared as strings.\<close>

definition reclassifyExpire :: "ExecutionControlDecision \<Rightarrow> string list \<Rightarrow> ExecutionControlDecision" where
  "reclassifyExpire decision reason_codes =
     (if decision \<noteq> REFUSE then decision
      else if list_ex (\<lambda>r. r \<in> EXPIRE_REASON_CODES) reason_codes then EXPIRE
      else decision)"

section \<open>Manifests, envelopes and actions\<close>

text \<open>
  \<open>PhysicalBounds\<close> has several hundred optional fields, read by name: it is the object itself, with
  the typed accessors of the theory on physical invariants.
\<close>

type_synonym PhysicalBounds = jsobject
type_synonym RuntimeRegister = jsobject

record WardManifest =
  wm_ward_id :: string
  wm_name :: string
  wm_sovereignty_context :: string
  wm_authority_domain :: string
  wm_policy_version :: string
  wm_evidence_ledger_path :: "string option"
  wm_permitted_subjects :: "string list"
  wm_physical_bounds :: "PhysicalBounds option"
  wm_metadata :: "jsobject option"
  wm_classification :: "Classification option"
  wm_criticality :: "WardCriticality option"

record AuthorityEnvelope =
  ae_envelope_id :: string
  ae_ward_id :: string
  ae_subject :: string
  ae_allowed_actions :: "string list"
  ae_denied_actions :: "string list"
  ae_constraints :: jsobject
  ae_expires_at :: iso_time
  ae_issuer :: string
  ae_signature :: "string option"
  ae_classification :: "Classification option"

record CanonicalActionInput =
  act_action_id :: string
  act_ward_id :: string
  act_subject :: string
  act_action_type :: string
  act_target :: string
  act_params :: jsobject
  act_requested_at :: iso_time
  act_nonce :: "string option"
  act_request_id :: "string option"
  act_telemetry :: "jsobject option"
  act_classification :: "Classification option"

record CanonicalAction =
  ca_canonical_json :: string
  ca_canonical_action_hash :: hash
  ca_action :: CanonicalActionInput

record PhysicalInvariantResult =
  pir_ok :: bool
  pir_reason_codes :: "ExecutionControlReasonCode list"
  pir_detail :: string

record CommitGateDecision =
  cg_decision :: ExecutionControlDecision
  cg_reason_codes :: "ExecutionControlReasonCode list"
  cg_canonical_action_hash :: hash
  cg_policy_version :: "string option"
  cg_authority_envelope_id :: "string option"
  cg_runtime_register_snapshot :: RuntimeRegister
  cg_physical_invariant_result :: "PhysicalInvariantResult option"

section \<open>canonicalizeAction\<close>

definition canonical_object :: "CanonicalActionInput \<Rightarrow> json" where
  "canonical_object action = JObj
     [(''action_id'', JStr (act_action_id action)),
      (''action_type'', JStr (act_action_type action)),
      (''nonce'', opt_json JStr (act_nonce action)),
      (''params'', JObj (act_params action)),
      (''request_id'', opt_json JStr (act_request_id action)),
      (''requested_at'', JStr (act_requested_at action)),
      (''subject'', JStr (act_subject action)),
      (''target'', JStr (act_target action)),
      (''telemetry'', opt_json JObj (act_telemetry action)),
      (''ward_id'', JStr (act_ward_id action))]"

text \<open>
  \<open>JSON.parse\<close> of the text printed for a normalised value is that value, with \<open>null\<close> for the
  \<open>undefined\<close> elements of arrays.
\<close>

fun reparsed :: "json \<Rightarrow> json" where
  "reparsed (JArr vs) = JArr (map (\<lambda>v. if v = JUndef then JNull else reparsed v) vs)"
| "reparsed (JObj es) = JObj (map (\<lambda>e. (fst e, reparsed (snd e))) es)"
| "reparsed v = v"

fun json_fields :: "json \<Rightarrow> jsobject" where
  "json_fields (JObj es) = es"
| "json_fields _ = []"

definition reparsed_action :: "CanonicalActionInput \<Rightarrow> json \<Rightarrow> CanonicalActionInput" where
  "reparsed_action action normal =
     action \<lparr> act_params := json_fields (reparsed (js_get normal ''params'')),
              act_telemetry := (case act_telemetry action of None \<Rightarrow> None
                | Some _ \<Rightarrow> Some (json_fields (reparsed (js_get normal ''telemetry'')))),
              act_classification := None \<rparr>"

definition canonicalizeAction :: "platform \<Rightarrow> CanonicalActionInput \<Rightarrow> CanonicalAction result" where
  "canonicalizeAction P action =
     bind_result (stableNormalize P (canonical_object action)) (\<lambda>normal.
       let canonical_json = json_string normal
       in Inr \<lparr> ca_canonical_json = canonical_json,
                ca_canonical_action_hash = sha256_hex P canonical_json,
                ca_action = reparsed_action action normal \<rparr>)"

section \<open>What the hash binds\<close>

text \<open>A value whose normal form is printed without loss.\<close>

definition printable :: "platform \<Rightarrow> json \<Rightarrow> bool" where
  "printable P v \<longleftrightarrow> (case stableNormalize P v of Inr w \<Rightarrow> clean_json w | Inl _ \<Rightarrow> False)"

lemma printable_text_eq:
  assumes "printable P v" "printable P w" "stableStringify P v = Inr s" "stableStringify P w = Inr s"
  shows "stableNormalize P v = stableNormalize P w"
  using assms by (auto simp: printable_def stableStringify_def dest: json_string_injective split: sum.splits)

text \<open>The fields two actions share when their canonical objects have the same normal form.\<close>

definition same_canonical_fields :: "platform \<Rightarrow> CanonicalActionInput \<Rightarrow> CanonicalActionInput \<Rightarrow> bool" where
  "same_canonical_fields P a b \<longleftrightarrow>
     act_action_id a = act_action_id b \<and> act_action_type a = act_action_type b \<and>
     act_ward_id a = act_ward_id b \<and> act_subject a = act_subject b \<and> act_target a = act_target b \<and>
     act_requested_at a = act_requested_at b \<and> act_nonce a = act_nonce b \<and>
     act_request_id a = act_request_id b \<and>
     stableNormalize P (JObj (act_params a)) = stableNormalize P (JObj (act_params b)) \<and>
     stableNormalize P (opt_json JObj (act_telemetry a)) = stableNormalize P (opt_json JObj (act_telemetry b))"

lemma stableNormalize_obj_form: "stableNormalize P (JObj es) = Inr w \<Longrightarrow> \<exists>fs. w = JObj fs"
  by (auto simp: stableNormalize_obj)

lemma normalize_fields_eq:
  assumes "stableNormalize P (JObj es) = stableNormalize P (JObj fs)" "stableNormalize P (JObj es) = Inr w"
    and "distinct (map fst es)" "distinct (map fst fs)"
  shows "stableNormalize P (obj_get es k) = stableNormalize P (obj_get fs k)"
proof -
  obtain gs where "w = JObj gs" using stableNormalize_obj_form[OF assms(2)] by blast
  then show ?thesis
    using assms normalize_obj_get(1)[of P es gs k] normalize_obj_get(1)[of P fs gs k] by simp
qed

lemma normalize_opt_str: "stableNormalize P (opt_json JStr x) = Inr (opt_json JStr x)"
  by (cases x) simp_all

lemma opt_json_JStr_inj: "opt_json JStr x = opt_json JStr y \<longleftrightarrow> x = y"
  by (cases x; cases y) simp_all

lemma canonical_object_normal_eq:
  assumes "stableNormalize P (canonical_object a) = stableNormalize P (canonical_object b)"
    and "stableNormalize P (canonical_object a) = Inr w"
  shows "same_canonical_fields P a b"
proof -
  let ?es = "\<lambda>x. json_fields (canonical_object x)"
  have obj: "canonical_object x = JObj (?es x)" for x by (simp add: canonical_object_def)
  have d: "distinct (map fst (?es x))" for x by (simp add: canonical_object_def)
  have field: "stableNormalize P (obj_get (?es a) k) = stableNormalize P (obj_get (?es b) k)" for k
    using normalize_fields_eq[of P "?es a" "?es b" w k] assms d obj by simp
  show ?thesis
    using field[of "''action_id''"] field[of "''action_type''"] field[of "''ward_id''"] field[of "''subject''"]
      field[of "''target''"] field[of "''requested_at''"] field[of "''nonce''"] field[of "''request_id''"]
      field[of "''params''"] field[of "''telemetry''"]
    by (simp add: same_canonical_fields_def canonical_object_def js_simps normalize_opt_str opt_json_JStr_inj)
qed

lemma canonicalizeAction_hash:
  "canonicalizeAction P a = Inr ca \<Longrightarrow>
   stableStringify P (canonical_object a) = Inr (ca_canonical_json ca) \<and>
   ca_canonical_action_hash ca = sha256_hex P (ca_canonical_json ca)"
  by (auto simp: canonicalizeAction_def stableStringify_def Let_def)

section \<open>Properties\<close>

text \<open>
  C8 Hash binding: two actions with the same canonical hash have the same value in every hashed field
  (the parameters and the telemetry up to the order of their properties), or their canonical texts are
  a SHA-256 collision.  Both actions are printed without loss: their numbers are in positional range.
\<close>

theorem canonical_hash_binds:
  assumes "canonicalizeAction P a = Inr ca" "canonicalizeAction P b = Inr cb"
    and "printable P (canonical_object a)" "printable P (canonical_object b)"
    and "ca_canonical_action_hash ca = ca_canonical_action_hash cb"
  shows "same_canonical_fields P a b \<or> sha256_collision P (ca_canonical_json ca) (ca_canonical_json cb)"
proof -
  note a = canonicalizeAction_hash[OF assms(1)] and b = canonicalizeAction_hash[OF assms(2)]
  have "sha256_hex P (ca_canonical_json ca) = sha256_hex P (ca_canonical_json cb)"
    using a b assms(5) by simp
  from sha256_eqD[OF this] consider "ca_canonical_json ca = ca_canonical_json cb"
    | "sha256_collision P (ca_canonical_json ca) (ca_canonical_json cb)" by blast
  then show ?thesis
  proof cases
    case 1
    then have "stableNormalize P (canonical_object a) = stableNormalize P (canonical_object b)"
      using a b printable_text_eq[OF assms(3,4)] by metis
    moreover obtain w where "stableNormalize P (canonical_object a) = Inr w"
      using assms(3) by (auto simp: printable_def split: sum.splits)
    ultimately show ?thesis by (blast intro: canonical_object_normal_eq)
  qed simp
qed

text \<open>
  C9 Order independence: listing the parameters or the telemetry of an action in another order, at any
  depth, changes neither its canonical text nor its hash, nor whether canonicalisation throws, as long
  as the collation tells the keys apart.
\<close>

theorem canonical_hash_order_independent:
  assumes "collation (locale_le P) K"
    and "reordered K (JObj (act_params a)) (JObj params)"
    and "reordered K (opt_json JObj (act_telemetry a)) (opt_json JObj telemetry)"
    and "{''action_id'', ''action_type'', ''nonce'', ''params'', ''request_id'', ''requested_at'', ''subject'',
       ''target'', ''telemetry'', ''ward_id''} \<subseteq> K"
  shows "map_sum id ca_canonical_action_hash (canonicalizeAction P (a \<lparr> act_params := params, act_telemetry := telemetry \<rparr>)) =
     map_sum id ca_canonical_action_hash (canonicalizeAction P a)"
proof -
  have "reordered K (canonical_object a) (canonical_object (a \<lparr> act_params := params, act_telemetry := telemetry \<rparr>))"
    unfolding canonical_object_def
    by (rule reordered.obj[where fs = "json_fields (canonical_object (a \<lparr> act_params := params, act_telemetry := telemetry \<rparr>))"])
       (use assms(2-4) in \<open>simp_all add: canonical_object_def reordered.same\<close>)
  then have "stableNormalize P (canonical_object (a \<lparr> act_params := params, act_telemetry := telemetry \<rparr>)) =
      stableNormalize P (canonical_object a)"
    using normalize_reordered[OF assms(1)] by simp
  then show ?thesis
    by (cases "stableNormalize P (canonical_object a)") (simp_all add: canonicalizeAction_def Let_def)
qed

definition sample_action :: CanonicalActionInput where
  "sample_action = \<lparr> act_action_id = ''a1'', act_ward_id = ''w1'', act_subject = ''agent'', act_action_type = ''pay'',
     act_target = ''t1'', act_params = [(''x'', JStr ''1''), (''b'', JStr ''2'')], act_requested_at = ''100'',
     act_nonce = None, act_request_id = None, act_telemetry = None, act_classification = None \<rparr>"

abbreviation sample_swapped :: CanonicalActionInput where
  "sample_swapped \<equiv> sample_action \<lparr> act_params := [(''b'', JStr ''2''), (''x'', JStr ''1'')] \<rparr>"

lemma sample_normal:
  "stableNormalize sample (canonical_object sample_action) = Inr (JObj
     [(''action_id'', JStr ''a1''), (''action_type'', JStr ''pay''), (''params'', JObj [(''b'', JStr ''2''), (''x'', JStr ''1'')]),
      (''requested_at'', JStr ''100''), (''subject'', JStr ''agent''), (''target'', JStr ''t1''), (''ward_id'', JStr ''w1'')])"
  "stableNormalize sample (canonical_object sample_swapped) = stableNormalize sample (canonical_object sample_action)"
  by (simp_all add: sample_action_def canonical_object_def stableNormalize_obj defined_entry_def from_entries_def
      is_array_index_def is_digit_def)

theorem canonical_hash_binds_witness: "same_canonical_fields sample sample_action sample_swapped"
proof -
  obtain ca cb where "canonicalizeAction sample sample_action = Inr ca" "canonicalizeAction sample sample_swapped = Inr cb"
    "ca_canonical_action_hash ca = ca_canonical_action_hash cb"
    by (simp add: canonicalizeAction_def sample_normal Let_def)
  from canonical_hash_binds[OF this(1,2) _ _ this(3)] show ?thesis
    by (simp add: printable_def sample_normal)
qed

theorem canonical_hash_order_independent_witness:
  "map_sum id ca_canonical_action_hash (canonicalizeAction sample (sample_action \<lparr> act_params :=
       [(''b'', JStr ''2''), (''x'', JStr ''1'')], act_telemetry := None \<rparr>)) =
     map_sum id ca_canonical_action_hash (canonicalizeAction sample sample_action)"
proof (rule canonical_hash_order_independent[where K = UNIV])
  show "collation (locale_le sample) UNIV"
    using bytes.collation_axioms by simp
  show "reordered UNIV (JObj (act_params sample_action)) (JObj [(''b'', JStr ''2''), (''x'', JStr ''1'')])"
    by (rule reordered.obj[where fs = "[(''x'', JStr ''1''), (''b'', JStr ''2'')]"])
       (simp_all add: sample_action_def reordered.same add_mset_commute)
qed (simp_all add: sample_action_def reordered.same)

end
