(* ===== verification/Physical_Base.thy ===== *)
theory Physical_Base
  imports Action
begin

text \<open>
  The building blocks of \<open>evaluatePhysicalInvariants\<close>: the typed reads of action parameters and of
  declared bounds, one combinator per shape of \<open>if\<close> statement the source uses, and the geographic
  helpers \<open>haversineKm\<close>, \<open>pointInPolygon\<close> and \<open>extractCoords\<close>.  A check is the detail text of the
  refusal it returns, or \<open>None\<close>; the source's sequence of statements is \<open>first_failure\<close>.
\<close>

section \<open>Reading parameters and bounds\<close>

fun as_number :: "json \<Rightarrow> rat option" where
  "as_number (JNum x) = Some x"
| "as_number _ = None"

fun as_string :: "json \<Rightarrow> string option" where
  "as_string (JStr s) = Some s"
| "as_string _ = None"

fun as_boolean :: "json \<Rightarrow> bool option" where
  "as_boolean (JBool b) = Some b"
| "as_boolean _ = None"

definition numericParam :: "CanonicalActionInput \<Rightarrow> string \<Rightarrow> rat option" where
  "numericParam a k = as_number (obj_get (act_params a) k)"

definition stringParam :: "CanonicalActionInput \<Rightarrow> string \<Rightarrow> string option" where
  "stringParam a k = as_string (obj_get (act_params a) k)"

definition booleanParam :: "CanonicalActionInput \<Rightarrow> string \<Rightarrow> bool option" where
  "booleanParam a k = as_boolean (obj_get (act_params a) k)"

text \<open>Declared bounds, at the types the interface \<open>PhysicalBounds\<close> gives them.\<close>

definition num_bound :: "PhysicalBounds \<Rightarrow> string \<Rightarrow> rat option" where
  "num_bound b k = as_number (obj_get b k)"

definition str_bound :: "PhysicalBounds \<Rightarrow> string \<Rightarrow> string option" where
  "str_bound b k = as_string (obj_get b k)"

definition flag_bound :: "PhysicalBounds \<Rightarrow> string \<Rightarrow> bool" where
  "flag_bound b k = truthy (obj_get b k)"

fun as_list :: "json \<Rightarrow> json list option" where
  "as_list (JArr vs) = Some vs"
| "as_list _ = None"

definition list_bound :: "PhysicalBounds \<Rightarrow> string \<Rightarrow> json list option" where
  "list_bound b k = as_list (obj_get b k)"

section \<open>The shapes of a check\<close>

text \<open>\<open>if (bound !== undefined && v !== undefined && v > bound)\<close>.\<close>

fun above :: "rat option \<Rightarrow> rat option \<Rightarrow> (rat \<Rightarrow> rat \<Rightarrow> string) \<Rightarrow> string option" where
  "above (Some m) (Some v) detail = (if v > m then Some (detail v m) else None)"
| "above _ _ detail = None"

fun below :: "rat option \<Rightarrow> rat option \<Rightarrow> (rat \<Rightarrow> rat \<Rightarrow> string) \<Rightarrow> string option" where
  "below (Some m) (Some v) detail = (if v < m then Some (detail v m) else None)"
| "below _ _ detail = None"

text \<open>\<open>if (bound && v && v !== bound)\<close> on strings.\<close>

fun mismatch :: "string option \<Rightarrow> string option \<Rightarrow> (string \<Rightarrow> string \<Rightarrow> string) \<Rightarrow> string option" where
  "mismatch (Some p) (Some v) detail = (if p \<noteq> [] \<and> v \<noteq> [] \<and> v \<noteq> p then Some (detail v p) else None)"
| "mismatch _ _ detail = None"

text \<open>\<open>if (bound?.length && v && !bound.includes(v))\<close>.\<close>

fun outside :: "json list option \<Rightarrow> string option \<Rightarrow> (string \<Rightarrow> string) \<Rightarrow> string option" where
  "outside (Some ps) (Some v) detail = (if ps \<noteq> [] \<and> v \<noteq> [] \<and> JStr v \<notin> set ps then Some (detail v) else None)"
| "outside _ _ detail = None"

definition fail_if :: "bool \<Rightarrow> string \<Rightarrow> string option" where
  "fail_if c detail = (if c then Some detail else None)"

text \<open>\<open>if (flag && p !== true)\<close>, \<open>if (flag && p === true)\<close> and \<open>if (flag && !s)\<close>.\<close>

definition unproven :: "bool \<Rightarrow> bool option \<Rightarrow> string \<Rightarrow> string option" where
  "unproven flag p detail = (if flag \<and> p \<noteq> Some True then Some detail else None)"

definition asserted :: "bool \<Rightarrow> bool option \<Rightarrow> string \<Rightarrow> string option" where
  "asserted flag p detail = (if flag \<and> p = Some True then Some detail else None)"

definition unstated :: "bool \<Rightarrow> string option \<Rightarrow> string \<Rightarrow> string option" where
  "unstated flag s detail = (if flag \<and> \<not> str_truthy s then Some detail else None)"

text \<open>\<open>!(x === undefined || x <= 0)\<close>.\<close>

fun positive :: "rat option \<Rightarrow> bool" where
  "positive (Some x) = (0 < x)"
| "positive None = False"

fun first_failure :: "string option list \<Rightarrow> string option" where
  "first_failure [] = None"
| "first_failure (None # rest) = first_failure rest"
| "first_failure (Some detail # rest) = Some detail"

section \<open>Geographic scope\<close>

text \<open>The great-circle distance over the reals.\<close>

definition to_rad :: "rat \<Rightarrow> real" where
  "to_rad d = of_rat d * pi / 180"

definition haversineKm :: "rat \<times> rat \<Rightarrow> rat \<times> rat \<Rightarrow> real" where
  "haversineKm a b =
     (let dLat = to_rad (fst b - fst a);
          dLon = to_rad (snd b - snd a);
          lat1 = to_rad (fst a);
          lat2 = to_rad (fst b);
          h = sin (dLat / 2) ^ 2 + cos lat1 * cos lat2 * sin (dLon / 2) ^ 2
      in 2 * 6371 * arcsin (sqrt h))"

definition crosses :: "rat \<times> rat \<Rightarrow> rat \<times> rat \<Rightarrow> rat \<times> rat \<Rightarrow> bool" where
  "crosses point vi vj \<longleftrightarrow>
     (snd vi > snd point) \<noteq> (snd vj > snd point) \<and>
     fst point < ((fst vj - fst vi) * (snd point - snd vi)) / (snd vj - snd vi) + fst vi"

fun ray_cast :: "rat \<times> rat \<Rightarrow> rat \<times> rat \<Rightarrow> (rat \<times> rat) list \<Rightarrow> bool \<Rightarrow> bool" where
  "ray_cast point vj [] inside = inside"
| "ray_cast point vj (vi # rest) inside =
     ray_cast point vi rest (if crosses point vi vj then \<not> inside else inside)"

definition pointInPolygon :: "rat \<times> rat \<Rightarrow> (rat \<times> rat) list \<Rightarrow> bool" where
  "pointInPolygon point polygon =
     (if length polygon < 3 then False else ray_cast point (last polygon) polygon False)"

fun not_nullish :: "json \<Rightarrow> json \<Rightarrow> json" where
  "not_nullish JUndef d = d"
| "not_nullish JNull d = d"
| "not_nullish v d = v"

definition extractCoords :: "CanonicalActionInput \<Rightarrow> (rat \<times> rat) option" where
  "extractCoords a =
     (let latRaw = not_nullish (obj_get (act_params a) ''lat'') (obj_get (act_params a) ''latitude'');
          lonRaw = not_nullish (obj_get (act_params a) ''lon'') (obj_get (act_params a) ''longitude'')
      in case (as_number latRaw, as_number lonRaw) of (Some x, Some y) \<Rightarrow> Some (x, y) | _ \<Rightarrow> None)"

fun as_pair :: "json \<Rightarrow> (rat \<times> rat) option" where
  "as_pair (JArr [JNum x, JNum y]) = Some (x, y)"
| "as_pair _ = None"

fun as_polygon :: "json \<Rightarrow> (rat \<times> rat) list" where
  "as_polygon (JArr vs) = List.map_filter as_pair vs"
| "as_polygon _ = []"

text \<open>\<open>dist.toFixed(2)\<close>.\<close>

definition to_fixed2 :: "real \<Rightarrow> string" where
  "to_fixed2 x = positional (nat \<lfloor>100 * x + 1 / 2\<rfloor>) 2"

definition geofence_check :: "CanonicalActionInput \<Rightarrow> PhysicalBounds \<Rightarrow> string option" where
  "geofence_check a b =
     (let polygon = as_polygon (obj_get b ''geofence_polygon'');
          circle = (case (as_pair (obj_get b ''geofence_center''), num_bound b ''geofence_radius_km'') of
                      (Some c, Some r) \<Rightarrow> Some (c, r) | _ \<Rightarrow> None)
      in if polygon = [] \<and> circle = None then None
         else (case extractCoords a of
           None \<Rightarrow> Some ''geofence configured but action params carry no lat/lon''
         | Some coords \<Rightarrow>
             if polygon \<noteq> [] \<and> \<not> pointInPolygon coords polygon
             then Some (''coordinates ['' @ num_string (fst coords) @ '', '' @ num_string (snd coords) @ ''] outside geofence_polygon'')
             else (case circle of None \<Rightarrow> None
               | Some (centre, radius) \<Rightarrow>
                   let dist = haversineKm coords centre
                   in if dist > of_rat radius
                      then Some (''coordinates '' @ to_fixed2 dist @ '' km from center; outside '' @ num_string radius @ '' km radius'')
                      else None)))"

section \<open>When a check passes\<close>

named_theorems check_pass \<open>when a physical check lets an action through\<close>

lemma first_failure_None [check_pass]: "first_failure cs = None \<longleftrightarrow> list_all (\<lambda>c. c = None) cs"
  by (induction cs rule: first_failure.induct) auto

lemma first_failure_Some: "first_failure cs = Some d \<Longrightarrow> Some d \<in> set cs"
  by (induction cs rule: first_failure.induct) auto

lemma above_None [check_pass]: "above bound v d = None \<longleftrightarrow> (\<forall>m x. bound = Some m \<longrightarrow> v = Some x \<longrightarrow> x \<le> m)"
  by (cases "(bound, v, d)" rule: above.cases) auto

lemma below_None [check_pass]: "below bound v d = None \<longleftrightarrow> (\<forall>m x. bound = Some m \<longrightarrow> v = Some x \<longrightarrow> m \<le> x)"
  by (cases "(bound, v, d)" rule: below.cases) auto

lemma mismatch_None [check_pass]:
  "mismatch bound v d = None \<longleftrightarrow> (\<forall>p x. bound = Some p \<longrightarrow> v = Some x \<longrightarrow> p \<noteq> [] \<longrightarrow> x \<noteq> [] \<longrightarrow> x = p)"
  by (cases "(bound, v, d)" rule: mismatch.cases) auto

lemma outside_None [check_pass]:
  "outside bound v d = None \<longleftrightarrow> (\<forall>ps x. bound = Some ps \<longrightarrow> v = Some x \<longrightarrow> ps \<noteq> [] \<longrightarrow> x \<noteq> [] \<longrightarrow> JStr x \<in> set ps)"
  by (cases "(bound, v, d)" rule: outside.cases) auto

lemma unproven_None [check_pass]: "unproven flag p d = None \<longleftrightarrow> (flag \<longrightarrow> p = Some True)"
  by (simp add: unproven_def)

lemma asserted_None [check_pass]: "asserted flag p d = None \<longleftrightarrow> (flag \<longrightarrow> p \<noteq> Some True)"
  by (simp add: asserted_def)

lemma unstated_None [check_pass]: "unstated flag s d = None \<longleftrightarrow> (flag \<longrightarrow> str_truthy s)"
  by (simp add: unstated_def)

lemma fail_if_None [check_pass]: "fail_if c d = None \<longleftrightarrow> \<not> c"
  by (simp add: fail_if_def)

section \<open>The ray cast\<close>

lemma ray_cast_parity:
  "ray_cast point pj ps inside \<longleftrightarrow>
     (inside \<noteq> odd (length (filter (\<lambda>(p, q). crosses point p q) (zip ps (pj # ps)))))"
proof (induction ps arbitrary: pj inside)
  case (Cons p ps)
  then show ?case by (cases "crosses point p pj") auto
qed simp

lemma crosses_horizontal [simp]: "\<not> crosses pt (x, y) (x', y)"
  by (simp add: crosses_def)

lemma crosses_vertical:
  "y \<noteq> y' \<Longrightarrow> crosses (px, py) (x, y) (x, y') \<longleftrightarrow> (y > py) \<noteq> (y' > py) \<and> px < x"
  by (simp add: crosses_def)

text \<open>On an axis-parallel rectangle the test is membership in the half-open rectangle.\<close>

lemma pointInPolygon_rectangle:
  assumes "x0 < x1" "y0 < y1"
  shows "pointInPolygon (px, py) [(x0, y0), (x1, y0), (x1, y1), (x0, y1)] \<longleftrightarrow>
     x0 \<le> px \<and> px < x1 \<and> y0 \<le> py \<and> py < y1"
  using assms by (auto simp: pointInPolygon_def crosses_vertical)

end
