(* ===== verification/Physical_Checks.thy ===== *)
theory Physical_Checks
  imports Physical_Base
begin

text \<open>
  The body of \<open>evaluatePhysicalInvariants\<close> (\<open>index.ts\<close>, lines 1009 to 2506), one definition per vertical
  in the order of the source: the hard interlocks on the action type, then for each vertical its
  sequence of checks.
\<close>

section \<open>Hard interlocks\<close>

text \<open>Lines 1009 to 1109.\<close>

definition interlocks_industrial :: "string \<Rightarrow> string option" where
  "interlocks_industrial action_type = first_failure
     [fail_if (action_type \<in> set [''drone.disable_geofence''])
        (''geofence disable is a hard physical interlock violation''),
      fail_if (action_type \<in> set [''vehicle.disable_safety_envelope'', ''vehicle.override.mrc''])
        (action_type @ '' is a hard vehicle safety interlock violation''),
      fail_if (action_type \<in> set [''grid.disable_protection'', ''relay.protection.disable''])
        (action_type @ '' is a hard grid protection interlock violation''),
      fail_if (action_type \<in> set [''rail.disable_ptc'', ''ptc.override.enforcement'', ''signal.force_clear'',
          ''switch.force_unlock''])
        (action_type @ '' is a hard rail safety interlock violation''),
      fail_if (action_type \<in> set [''pipeline.disable_leak_detection'', ''leak_detection.disable'', ''pipeline.disable_overpressure_protection'',
          ''pressure.relief.disable'', ''pipeline.disable_esd'', ''esd.override'',
          ''pipeline.isolation.bypass'', ''pump.overpressure_override'', ''compressor.safety_shutdown_disable''])
        (action_type @ '' is a hard pipeline safety interlock violation''),
      fail_if (action_type \<in> set [''mining.disable_proximity_detection'', ''proximity_detection.disable'', ''mining.disable_gas_monitoring'',
          ''gas_monitoring.disable'', ''mining.disable_ventilation'', ''ventilation.force_off'',
          ''mining.disable_ground_control_monitoring'', ''mining.disable_tailings_monitoring'', ''piezometer.disable'',
          ''hoist.disable_overspeed_protection'', ''blast.force_initiate''])
        (action_type @ '' is a hard mining safety interlock violation''),
      fail_if (action_type \<in> set [''port.disable_crane_interlock'', ''crane.override_exclusion_zone'', ''customs.force_release_hold'',
          ''gate.force_open'', ''shore-power.force_energize'', ''pnt.override_confidence''])
        (action_type @ '' is a hard port safety interlock violation''),
      fail_if (action_type \<in> set [''water.disable_disinfection'', ''chemical.force_overfeed'', ''plc.force_override'',
          ''valve.force_open'', ''pump.force_run_dry'', ''wastewater.bypass.force_open''])
        (action_type @ '' is a hard water safety interlock violation''),
      fail_if (action_type \<in> set [''uas.disable_geofence'', ''geofence.disable'', ''uas.disable_detect_and_avoid'',
          ''daa.disable'', ''uas.disable_remote_id'', ''remote_id.disable'',
          ''uas.override_airspace_authorization'', ''airspace.override'', ''uas.disable_return_to_home'',
          ''rtl.disable'', ''failsafe.disable'', ''uas.override_c2_link_loss_failsafe'',
          ''uas.enter_active_tfr'', ''tfr.override'', ''evtol.disable_flight_envelope_protection''])
        (action_type @ '' is a hard aviation safety interlock violation''),
      fail_if (action_type \<in> set [''robot.disable_estop'', ''estop.disable'', ''emergency_stop.disable'',
          ''robot.disable_protective_stop'', ''protective_stop.disable'', ''robot.override_speed_separation_monitoring'',
          ''ssm.override'', ''robot.override_power_force_limiting'', ''pfl.override'',
          ''robot.disable_collision_detection'', ''collision_detection.disable'', ''robot.disable_safety_scanner'',
          ''safety_scanner.disable'', ''robot.override_safety_zone'', ''safety_zone.override'',
          ''humanoid.disable_balance_controller'', ''balance.override'', ''humanoid.disable_fall_protection''])
        (action_type @ '' is a hard robotics safety interlock violation'')]"

text \<open>Lines 1110 to 1219.\<close>

definition interlocks_mission :: "string \<Rightarrow> string option" where
  "interlocks_mission action_type = first_failure
     [fail_if (action_type \<in> set [''logistics.dispatch_over_hos'', ''eld.disable'', ''carrier.vetting.override'',
          ''driver.qualification.override'', ''hazmat.route.override'', ''coldchain.temp_alarm.override'',
          ''pod.force_accept'', ''payment.force_release'', ''fuel.unbounded_advance'',
          ''yard.force_gate_open'', ''load.double_broker.override'', ''telematics.spoof_override''])
        (action_type @ '' is a hard logistics safety and fraud interlock violation''),
      fail_if (action_type \<in> set [''swarm.disable_mesh'', ''mesh.disable'', ''swarm.disable_revocation_propagation'',
          ''mesh.revocation.disable'', ''swarm.override_lost_link_failsafe'', ''lost_link_failsafe.override'',
          ''swarm.bypass_launch_readiness'', ''launch_readiness.bypass'', ''swarm.override_fluidity_token'',
          ''fluidity_token.override'', ''swarm.disable_evidence_ledger'', ''swarm.force_payload_release_without_authorization'',
          ''balloon.disable_position_monitor'', ''balloon.override_envelope_protection''])
        (action_type @ '' is a hard swarm safety interlock violation''),
      fail_if (action_type \<in> set [''medication.override_allergy'', ''pharmacy.force_dispense_controlled_substance'', ''device.disable_alarm'',
          ''device.disable_safety_limit'', ''ehr.delete_patient_record'', ''phi.export_without_consent'',
          ''claims.force_submit_without_attestation'', ''research.export_identified_dataset'', ''order.force_without_clinician_authority'',
          ''ehr.modify_record_without_patient_context''])
        (action_type @ '' is a hard healthcare clinical safety and privacy interlock violation''),
      fail_if (action_type \<in> set [''title.override_lien_release'', ''lien_release.override'', ''title.bypass_nmvtis'',
          ''nmvtis.disable'', ''title.bypass_theft_check'', ''theft_check.disable'',
          ''title.bypass_state_rules'', ''state_rule.override'', ''title.override_dealer_license'',
          ''dealer_license.override'', ''title.override_odometer_disclosure'', ''odometer.bypass'',
          ''title.disable_identity_verification'', ''identity.disable'', ''signature.bypass_jurisdiction_acceptance'',
          ''digital_signature.bypass'', ''warrant.reuse_attempt'', ''warrant.replay''])
        (action_type @ '' is a hard title-transaction integrity interlock violation''),
      fail_if (action_type \<in> set [''space.disable_flight_termination'', ''fts.disable'', ''space.override_range_safety'',
          ''range_safety.override'', ''space.bypass_collision_avoidance'', ''collision_avoidance.disable'',
          ''space.ignite_outside_window'', ''space.bypass_wind_limits'', ''wind_limits.override'',
          ''space.override_propellant_limits'', ''propellant_limits.override'', ''space.bypass_pad_interlocks'',
          ''pad_interlocks.override'', ''space.payload_deploy_outside_primary''])
        (action_type @ '' is a hard space-launch range-safety interlock violation''),
      fail_if (action_type \<in> set [''space.disable_safe_mode'', ''satellite.disable_safe_mode'', ''space.disable_collision_avoidance'',
          ''space.disable_conjunction_screening'', ''conjunction_screening.disable'', ''space.rf_transmit_without_authorization'',
          ''rf.authorization.bypass'', ''space.force_deorbit_without_approval'', ''deorbit.override'',
          ''space.payload_task_denied_target'', ''payload.targeting.override'', ''space.bypass_export_control'',
          ''export_control.bypass'', ''space.disable_evidence'', ''satellite.force_burn_without_warrant''])
        (action_type @ '' is a hard space-orbital mission interlock violation'')]"

section \<open>Bounds of each vertical\<close>

text \<open>Lines 1220 to 1324: vehicle and power grid.\<close>

definition vehicle_grid_invariants :: "CanonicalActionInput \<Rightarrow> PhysicalBounds \<Rightarrow> string option" where
  "vehicle_grid_invariants a b = first_failure
     [above (num_bound b ''max_altitude_m'') (numericParam a ''altitude_m'') (\<lambda>v m. ''altitude_m '' @ num_string v @ '' exceeds max_altitude_m '' @ num_string m),
      mismatch (str_bound b ''permitted_boundary_id'') (stringParam a ''boundary_id'') (\<lambda>v p. ''boundary_id '' @ v @ '' does not match '' @ p),
      below (num_bound b ''battery_minimum_pct'') (numericParam a ''battery_pct'') (\<lambda>v m. ''battery_pct '' @ num_string v @ '' below minimum '' @ num_string m),
      above (num_bound b ''max_speed_mps'') (numericParam a ''speed_mps'') (\<lambda>v m. ''speed_mps '' @ num_string v @ '' exceeds max_speed_mps '' @ num_string m),
      mismatch (str_bound b ''permitted_odd_id'') (stringParam a ''odd_id'') (\<lambda>v p. ''odd_id '' @ v @ '' does not match '' @ p),
      outside (list_bound b ''permitted_road_classes'') (stringParam a ''road_class'') (\<lambda>v. ''road_class '' @ v @ '' is outside permitted road classes''),
      below (num_bound b ''min_map_confidence'') (numericParam a ''map_confidence'') (\<lambda>v m. ''map_confidence '' @ num_string v @ '' below minimum '' @ num_string m),
      below (num_bound b ''min_localization_confidence'') (numericParam a ''localization_confidence'') (\<lambda>v m. ''localization_confidence '' @ num_string v @ '' below minimum '' @ num_string m),
      below (num_bound b ''min_perception_confidence'') (numericParam a ''perception_confidence'') (\<lambda>v m. ''perception_confidence '' @ num_string v @ '' below minimum '' @ num_string m),
      unproven (flag_bound b ''require_mrc_available'') (booleanParam a ''mrc_available'') (''minimum-risk-condition capability is required but unavailable''),
      outside (list_bound b ''permitted_drive_states'') (stringParam a ''drive_state'') (\<lambda>v. ''drive_state '' @ v @ '' is outside permitted drive states''),
      below (num_bound b ''min_voltage_kv'') (numericParam a ''voltage_kv'') (\<lambda>v m. ''voltage_kv '' @ num_string v @ '' below min_voltage_kv '' @ num_string m),
      above (num_bound b ''max_voltage_kv'') (numericParam a ''voltage_kv'') (\<lambda>v m. ''voltage_kv '' @ num_string v @ '' exceeds max_voltage_kv '' @ num_string m),
      below (num_bound b ''min_frequency_hz'') (numericParam a ''frequency_hz'') (\<lambda>v m. ''frequency_hz '' @ num_string v @ '' below min_frequency_hz '' @ num_string m),
      above (num_bound b ''max_frequency_hz'') (numericParam a ''frequency_hz'') (\<lambda>v m. ''frequency_hz '' @ num_string v @ '' exceeds max_frequency_hz '' @ num_string m),
      above (num_bound b ''max_feeder_load_pct'') (numericParam a ''feeder_load_pct'') (\<lambda>v m. ''feeder_load_pct '' @ num_string v @ '' exceeds max_feeder_load_pct '' @ num_string m),
      above (num_bound b ''max_transformer_load_pct'') (numericParam a ''transformer_load_pct'') (\<lambda>v m. ''transformer_load_pct '' @ num_string v @ '' exceeds max_transformer_load_pct '' @ num_string m),
      above (num_bound b ''max_der_export_mw'') (numericParam a ''der_export_mw'') (\<lambda>v m. ''der_export_mw '' @ num_string v @ '' exceeds max_der_export_mw '' @ num_string m),
      above (num_bound b ''max_telemetry_age_ms'') (numericParam a ''telemetry_age_ms'') (\<lambda>v m. ''telemetry_age_ms '' @ num_string v @ '' exceeds max_telemetry_age_ms '' @ num_string m),
      mismatch (str_bound b ''permitted_topology_model_id'') (stringParam a ''topology_model_id'') (\<lambda>v p. ''topology_model_id '' @ v @ '' does not match '' @ p),
      outside (list_bound b ''permitted_voltage_classes'') (stringParam a ''voltage_class'') (\<lambda>v. ''voltage_class '' @ v @ '' is outside permitted voltage classes''),
      outside (list_bound b ''permitted_asset_types'') (stringParam a ''asset_type'') (\<lambda>v. ''asset_type '' @ v @ '' is outside permitted asset types''),
      outside (list_bound b ''permitted_grid_states'') (stringParam a ''grid_state'') (\<lambda>v. ''grid_state '' @ v @ '' is outside permitted grid states''),
      unstated (flag_bound b ''require_switching_order'') (stringParam a ''switching_order_id'') (''switching_order_id is required for this grid Ward''),
      unproven (flag_bound b ''require_clearance_released'') (booleanParam a ''crew_clearance_released'') (''crew clearance must be released before this grid action''),
      unproven (flag_bound b ''require_protection_known'') (booleanParam a ''protection_state_known'') (''protection state must be known before this grid action''),
      unproven (flag_bound b ''require_scada_fresh'') (booleanParam a ''scada_fresh'') (''fresh SCADA telemetry is required before this grid action''),
      unproven (flag_bound b ''require_manual_fallback_ready'') (booleanParam a ''manual_fallback_ready'') (''manual fallback readiness is required before this grid action'')]"

text \<open>Lines 1325 to 1401: rail.\<close>

definition rail_invariants :: "CanonicalActionInput \<Rightarrow> PhysicalBounds \<Rightarrow> string option" where
  "rail_invariants a b = first_failure
     [mismatch (str_bound b ''permitted_territory_id'') (stringParam a ''territory_id'') (\<lambda>v p. ''territory_id '' @ v @ '' does not match '' @ p),
      outside (list_bound b ''permitted_route_classes'') (stringParam a ''route_class'') (\<lambda>v. ''route_class '' @ v @ '' is outside permitted route classes''),
      outside (list_bound b ''permitted_track_classes'') (stringParam a ''track_class'') (\<lambda>v. ''track_class '' @ v @ '' is outside permitted track classes''),
      outside (list_bound b ''permitted_signal_aspects'') (stringParam a ''signal_aspect'') (\<lambda>v. ''signal_aspect '' @ v @ '' is outside permitted signal aspects''),
      outside (list_bound b ''permitted_train_types'') (stringParam a ''train_type'') (\<lambda>v. ''train_type '' @ v @ '' is outside permitted train types''),
      outside (list_bound b ''permitted_operating_states'') (stringParam a ''operating_state'') (\<lambda>v. ''operating_state '' @ v @ '' is outside permitted operating states''),
      above (num_bound b ''max_authority_speed_mph'') (coalesce (numericParam a ''authority_speed_mph'') (coalesce (numericParam a ''speed_mph'') (numericParam a ''max_speed_mph''))) (\<lambda>v m. ''authority speed '' @ num_string v @ '' mph exceeds max_authority_speed_mph '' @ num_string m),
      below (num_bound b ''min_train_separation_m'') (numericParam a ''train_separation_m'') (\<lambda>v m. ''train_separation_m '' @ num_string v @ '' below min_train_separation_m '' @ num_string m),
      above (num_bound b ''max_train_length_ft'') (numericParam a ''train_length_ft'') (\<lambda>v m. ''train_length_ft '' @ num_string v @ '' exceeds max_train_length_ft '' @ num_string m),
      above (num_bound b ''max_train_tonnage'') (numericParam a ''train_tonnage'') (\<lambda>v m. ''train_tonnage '' @ num_string v @ '' exceeds max_train_tonnage '' @ num_string m),
      above (num_bound b ''max_ptc_telemetry_age_ms'') (numericParam a ''ptc_telemetry_age_ms'') (\<lambda>v m. ''ptc_telemetry_age_ms '' @ num_string v @ '' exceeds max_ptc_telemetry_age_ms '' @ num_string m),
      unproven (flag_bound b ''require_ptc_active'') (booleanParam a ''ptc_active'') (''PTC must be active before this rail action''),
      unproven (flag_bound b ''require_switch_proven'') (booleanParam a ''switch_position_proven'') (''switch position must be proven before this rail action''),
      fail_if (flag_bound b ''require_signal_not_stop'' \<and> stringParam a ''signal_aspect'' = Some ''stop'') (''signal aspect stop cannot admit this rail action''),
      unproven (flag_bound b ''require_work_zone_released'') (booleanParam a ''work_zone_released'') (''work zone must be released before this rail action''),
      unproven (flag_bound b ''require_track_bulletin_ack'') (booleanParam a ''track_bulletin_ack'') (''track bulletin must be acknowledged before this rail action''),
      unstated (flag_bound b ''require_dispatcher_identity'') (stringParam a ''dispatcher_id'') (''dispatcher identity is required before this rail action''),
      unproven (flag_bound b ''require_brake_test_current'') (booleanParam a ''brake_test_current'') (''brake test must be current before this rail action''),
      unstated (flag_bound b ''require_consist_verified'') (stringParam a ''consist_hash'') (''verified consist hash is required before this rail action''),
      unproven (flag_bound b ''require_grade_crossing_protected'') (booleanParam a ''grade_crossing_protected'') (''grade crossing protection must be proven before this rail action''),
      unproven (flag_bound b ''require_crew_acknowledged'') (booleanParam a ''crew_acknowledged'') (''crew acknowledgement is required before this rail action''),
      asserted (flag_bound b ''require_no_conflicting_authority'') (booleanParam a ''conflicting_authority_present'') (''conflicting movement authority is present'')]"

text \<open>Lines 1402 to 1456: pipeline.\<close>

definition pipeline_invariants :: "CanonicalActionInput \<Rightarrow> PhysicalBounds \<Rightarrow> string option" where
  "pipeline_invariants a b = first_failure
     [mismatch (str_bound b ''permitted_segment_id'') (stringParam a ''segment_id'') (\<lambda>v p. ''segment_id '' @ v @ '' does not match '' @ p),
      mismatch (str_bound b ''permitted_system_model_id'') (stringParam a ''system_model_id'') (\<lambda>v p. ''system_model_id '' @ v @ '' does not match '' @ p),
      outside (list_bound b ''permitted_pipeline_states'') (stringParam a ''pipeline_state'') (\<lambda>v. ''pipeline_state '' @ v @ '' is outside permitted pipeline states''),
      above (num_bound b ''max_pressure_psig'') (coalesce (numericParam a ''setpoint_psig'') (numericParam a ''pressure_psig'')) (\<lambda>v m. ''pressure '' @ num_string v @ '' psig exceeds max_pressure_psig '' @ num_string m @ '' (MAOP)''),
      below (num_bound b ''min_pressure_psig'') (numericParam a ''pressure_psig'') (\<lambda>v m. ''pressure '' @ num_string v @ '' psig below min_pressure_psig '' @ num_string m),
      above (num_bound b ''max_pressure_pct_maop'') (numericParam a ''pressure_pct_maop'') (\<lambda>v m. ''pressure '' @ num_string v @ ''% of MAOP exceeds max_pressure_pct_maop '' @ num_string m),
      above (num_bound b ''max_flow_bbl_per_day'') (numericParam a ''flow_bbl_per_day'') (\<lambda>v m. ''flow_bbl_per_day '' @ num_string v @ '' exceeds max_flow_bbl_per_day '' @ num_string m),
      above (num_bound b ''max_flow_mmscfd'') (numericParam a ''flow_mmscfd'') (\<lambda>v m. ''flow_mmscfd '' @ num_string v @ '' exceeds max_flow_mmscfd '' @ num_string m),
      unproven (flag_bound b ''require_leak_detection_armed'') (booleanParam a ''leak_detection_armed'') (''leak detection (CPM) must be armed before this pipeline action''),
      unproven (flag_bound b ''require_overpressure_protection'') (booleanParam a ''overpressure_protection_active'') (''overpressure protection must be active before this pipeline action''),
      unproven (flag_bound b ''require_esd_ready'') (booleanParam a ''esd_ready'') (''emergency shutdown (ESD) readiness is required before this pipeline action''),
      unproven (flag_bound b ''require_segment_isolation_ready'') (booleanParam a ''segment_isolation_ready'') (''segment isolation readiness is required before this pipeline action''),
      unproven (flag_bound b ''require_pump_primed'') (booleanParam a ''pump_primed'') (''pump priming is required before this pipeline action''),
      unproven (flag_bound b ''require_pipeline_scada_fresh'') (booleanParam a ''pipeline_scada_fresh'') (''fresh SCADA telemetry (control room management) is required before this pipeline action''),
      unproven (flag_bound b ''require_operator_qualified'') (booleanParam a ''operator_qualified'') (''operator qualification is required before this action'')]"

text \<open>Lines 1457 to 1528: mining.\<close>

definition mining_invariants :: "CanonicalActionInput \<Rightarrow> PhysicalBounds \<Rightarrow> string option" where
  "mining_invariants a b = first_failure
     [mismatch (str_bound b ''permitted_mine_site_id'') (stringParam a ''site_id'') (\<lambda>v p. ''site_id '' @ v @ '' does not match '' @ p),
      outside (list_bound b ''permitted_mine_zones'') (stringParam a ''zone_id'') (\<lambda>v. ''zone_id '' @ v @ '' is outside permitted mine zones''),
      outside (list_bound b ''permitted_mine_states'') (stringParam a ''mine_state'') (\<lambda>v. ''mine_state '' @ v @ '' is outside permitted mine states''),
      above (num_bound b ''max_methane_pct'') (numericParam a ''methane_pct'') (\<lambda>v m. ''methane_pct '' @ num_string v @ '' exceeds max_methane_pct '' @ num_string m),
      above (num_bound b ''max_co_ppm'') (numericParam a ''co_ppm'') (\<lambda>v m. ''co_ppm '' @ num_string v @ '' exceeds max_co_ppm '' @ num_string m),
      below (num_bound b ''min_oxygen_pct'') (numericParam a ''oxygen_pct'') (\<lambda>v m. ''oxygen_pct '' @ num_string v @ '' below min_oxygen_pct '' @ num_string m),
      below (num_bound b ''min_airflow_cfm'') (numericParam a ''airflow_cfm'') (\<lambda>v m. ''airflow_cfm '' @ num_string v @ '' below min_airflow_cfm '' @ num_string m),
      above (num_bound b ''max_haulage_speed_kph'') (numericParam a ''speed_kph'') (\<lambda>v m. ''speed_kph '' @ num_string v @ '' exceeds max_haulage_speed_kph '' @ num_string m),
      above (num_bound b ''max_tailings_pond_level_m'') (numericParam a ''tailings_pond_level_m'') (\<lambda>v m. ''tailings_pond_level_m '' @ num_string v @ '' exceeds max_tailings_pond_level_m '' @ num_string m),
      below (num_bound b ''min_tailings_freeboard_m'') (numericParam a ''tailings_freeboard_m'') (\<lambda>v m. ''tailings_freeboard_m '' @ num_string v @ '' below min_tailings_freeboard_m '' @ num_string m),
      above (num_bound b ''max_hoist_load_kg'') (numericParam a ''hoist_load_kg'') (\<lambda>v m. ''hoist_load_kg '' @ num_string v @ '' exceeds max_hoist_load_kg '' @ num_string m),
      unproven (flag_bound b ''require_proximity_detection'') (booleanParam a ''proximity_detection_active'') (''proximity detection must be active before this mining action''),
      unproven (flag_bound b ''require_exclusion_zone_clear'') (booleanParam a ''exclusion_zone_clear'') (''exclusion zone must be clear before this mining action''),
      unproven (flag_bound b ''require_personnel_cleared'') (booleanParam a ''personnel_cleared'') (''personnel must be cleared before this mining action''),
      unproven (flag_bound b ''require_ground_control_stable'') (booleanParam a ''ground_control_stable'') (''ground control must be stable before this mining action''),
      unproven (flag_bound b ''require_gas_monitoring'') (booleanParam a ''gas_monitoring_active'') (''gas monitoring must be active before this mining action''),
      unproven (flag_bound b ''require_ventilation_on'') (booleanParam a ''ventilation_on'') (''ventilation must be on before this mining action''),
      unproven (flag_bound b ''require_piezometer_monitoring'') (booleanParam a ''piezometer_monitoring_active'') (''tailings piezometer monitoring must be active before this mining action''),
      unproven (flag_bound b ''require_overspeed_protection'') (booleanParam a ''overspeed_protection_active'') (''hoist overspeed protection must be active before this mining action''),
      unproven (flag_bound b ''require_mining_scada_fresh'') (booleanParam a ''mining_scada_fresh'') (''fresh SCADA telemetry is required before this mining action'')]"

text \<open>Lines 1529 to 1644: port.\<close>

definition port_invariants :: "CanonicalActionInput \<Rightarrow> PhysicalBounds \<Rightarrow> string option" where
  "port_invariants a b = first_failure
     [mismatch (str_bound b ''permitted_port_id'') (stringParam a ''port_id'') (\<lambda>v p. ''port_id '' @ v @ '' does not match '' @ p),
      mismatch (str_bound b ''permitted_terminal_id'') (stringParam a ''terminal_id'') (\<lambda>v p. ''terminal_id '' @ v @ '' does not match '' @ p),
      outside (list_bound b ''permitted_berth_ids'') (stringParam a ''berth_id'') (\<lambda>v. ''berth_id '' @ v @ '' is outside permitted berths''),
      outside (list_bound b ''permitted_yard_blocks'') (coalesce (stringParam a ''yard_block_id'') (coalesce (stringParam a ''to_block'') (stringParam a ''from_block''))) (\<lambda>v. ''yard block '' @ v @ '' is outside permitted yard blocks''),
      outside (list_bound b ''permitted_gate_ids'') (stringParam a ''gate_id'') (\<lambda>v. ''gate_id '' @ v @ '' is outside permitted gates''),
      outside (list_bound b ''permitted_cargo_types'') (stringParam a ''cargo_type'') (\<lambda>v. ''cargo_type '' @ v @ '' is outside permitted cargo types''),
      outside (list_bound b ''permitted_hazmat_classes'') (stringParam a ''hazmat_class'') (\<lambda>v. ''hazmat_class '' @ v @ '' is outside permitted hazmat classes''),
      outside (list_bound b ''permitted_terminal_zones'') (stringParam a ''terminal_network_zone'') (\<lambda>v. ''terminal_network_zone '' @ v @ '' is outside permitted zones''),
      above (num_bound b ''max_container_weight_kg'') (numericParam a ''container_weight_kg'') (\<lambda>v m. ''container_weight_kg '' @ num_string v @ '' exceeds max_container_weight_kg '' @ num_string m),
      below (num_bound b ''min_pnt_confidence'') (numericParam a ''pnt_confidence'') (\<lambda>v m. ''pnt_confidence '' @ num_string v @ '' below minimum '' @ num_string m),
      above (num_bound b ''max_ais_track_age_ms'') (numericParam a ''ais_track_age_ms'') (\<lambda>v m. ''ais_track_age_ms '' @ num_string v @ '' exceeds max_ais_track_age_ms '' @ num_string m),
      above (num_bound b ''max_port_telemetry_age_ms'') (numericParam a ''ot_telemetry_age_ms'') (\<lambda>v m. ''ot_telemetry_age_ms '' @ num_string v @ '' exceeds max_port_telemetry_age_ms '' @ num_string m),
      above (num_bound b ''max_wind_speed_kn'') (numericParam a ''wind_speed_kn'') (\<lambda>v m. ''wind_speed_kn '' @ num_string v @ '' exceeds max_wind_speed_kn '' @ num_string m),
      below (num_bound b ''min_reefer_temp_c'') (coalesce (numericParam a ''reefer_temperature_c'') (numericParam a ''reefer_setpoint_c'')) (\<lambda>v m. ''reefer temperature '' @ num_string v @ '' below min_reefer_temp_c '' @ num_string m),
      above (num_bound b ''max_reefer_temp_c'') (coalesce (numericParam a ''reefer_temperature_c'') (numericParam a ''reefer_setpoint_c'')) (\<lambda>v m. ''reefer temperature '' @ num_string v @ '' exceeds max_reefer_temp_c '' @ num_string m),
      asserted (flag_bound b ''require_customs_release'') (booleanParam a ''customs_hold'') (''customs hold must be released before this port action''),
      asserted (flag_bound b ''require_no_security_hold'') (booleanParam a ''security_hold'') (''security hold must be released before this port action''),
      asserted (flag_bound b ''require_no_inspection_hold'') (booleanParam a ''inspection_hold'') (''inspection hold must be released before this port action''),
      unproven (flag_bound b ''require_vgm_verified'') (booleanParam a ''vgm_verified'') (''verified gross mass is required before this port action''),
      unproven (flag_bound b ''require_crane_exclusion_clear'') (booleanParam a ''crane_exclusion_zone_clear'') (''crane exclusion zone must be clear before this port action''),
      unproven (flag_bound b ''require_spreader_safe'') (booleanParam a ''spreader_locked'') (''spreader/twistlock state must be safe before this port action''),
      asserted (flag_bound b ''require_berth_clear'') (booleanParam a ''berth_conflict_present'') (''berth conflict is present''),
      unproven (flag_bound b ''require_tide_window_open'') (booleanParam a ''tide_window_open'') (''tide/weather window must be open before this port action''),
      unproven (flag_bound b ''require_vessel_clearance'') (booleanParam a ''vessel_clearance_granted'') (''vessel clearance is required before this port action''),
      unproven (flag_bound b ''require_truck_appointment'') (booleanParam a ''truck_appointment_valid'') (''valid truck appointment is required before this port action''),
      unproven (flag_bound b ''require_driver_identity'') (booleanParam a ''driver_identity_verified'') (''driver identity must be verified before this port action''),
      unproven (flag_bound b ''require_cold_chain_valid'') (booleanParam a ''cold_chain_valid'') (''cold-chain validity is required before this port action''),
      unproven (flag_bound b ''require_shore_power_lockout'') (booleanParam a ''shore_power_lockout_released'') (''shore-power lockout release is required before this port action''),
      unproven (flag_bound b ''require_shore_power_isolated'') (booleanParam a ''shore_power_isolated'') (''shore-power isolation state must be proven before this port action''),
      unproven (flag_bound b ''require_fire_watch_ready'') (booleanParam a ''fire_watch_ready'') (''fire watch readiness is required before this port action''),
      unproven (flag_bound b ''require_hazmat_route_approved'') (booleanParam a ''hazmat_route_approved'') (''hazmat route approval is required before this port action''),
      unproven (flag_bound b ''require_gate_access_granted'') (booleanParam a ''gate_access_granted'') (''gate access must be granted before this port action''),
      unstated (flag_bound b ''require_operator_identity'') (stringParam a ''operator_id'') (''operator identity is required before this port action''),
      asserted (flag_bound b ''require_no_vendor_remote_session'') (booleanParam a ''vendor_remote_session'') (''vendor remote session must not be active during this port action'')]"

text \<open>Lines 1645 to 1745: water.\<close>

definition water_invariants :: "CanonicalActionInput \<Rightarrow> PhysicalBounds \<Rightarrow> string option" where
  "water_invariants a b = first_failure
     [mismatch (str_bound b ''permitted_water_system_id'') (stringParam a ''water_system_id'') (\<lambda>v p. ''water_system_id '' @ v @ '' does not match '' @ p),
      mismatch (str_bound b ''permitted_facility_id'') (stringParam a ''facility_id'') (\<lambda>v p. ''facility_id '' @ v @ '' does not match '' @ p),
      outside (list_bound b ''permitted_pressure_zones'') (stringParam a ''pressure_zone_id'') (\<lambda>v. ''pressure_zone_id '' @ v @ '' is outside permitted pressure zones''),
      outside (list_bound b ''permitted_process_areas'') (stringParam a ''process_area'') (\<lambda>v. ''process_area '' @ v @ '' is outside permitted process areas''),
      outside (list_bound b ''permitted_water_asset_types'') (stringParam a ''asset_type'') (\<lambda>v. ''asset_type '' @ v @ '' is outside permitted water asset types''),
      outside (list_bound b ''permitted_discharge_permit_ids'') (stringParam a ''discharge_permit_id'') (\<lambda>v. ''discharge_permit_id '' @ v @ '' is outside permitted discharge permits''),
      above (num_bound b ''max_chlorine_dose_mg_l'') (coalesce (numericParam a ''chlorine_dose_mg_l'') (numericParam a ''dose_mg_l'')) (\<lambda>v m. ''chlorine dose '' @ num_string v @ '' exceeds max_chlorine_dose_mg_l '' @ num_string m),
      below (num_bound b ''min_chlorine_residual_mg_l'') (numericParam a ''chlorine_residual_mg_l'') (\<lambda>v m. ''chlorine_residual_mg_l '' @ num_string v @ '' below minimum '' @ num_string m),
      below (num_bound b ''min_pressure_psi'') (numericParam a ''pressure_psi'') (\<lambda>v m. ''pressure_psi '' @ num_string v @ '' below min_pressure_psi '' @ num_string m),
      above (num_bound b ''max_pressure_psi'') (numericParam a ''pressure_psi'') (\<lambda>v m. ''pressure_psi '' @ num_string v @ '' exceeds max_pressure_psi '' @ num_string m),
      below (num_bound b ''min_tank_level_pct'') (numericParam a ''tank_level_pct'') (\<lambda>v m. ''tank_level_pct '' @ num_string v @ '' below min_tank_level_pct '' @ num_string m),
      above (num_bound b ''max_tank_level_pct'') (numericParam a ''tank_level_pct'') (\<lambda>v m. ''tank_level_pct '' @ num_string v @ '' exceeds max_tank_level_pct '' @ num_string m),
      above (num_bound b ''max_wetwell_level_pct'') (numericParam a ''wetwell_level_pct'') (\<lambda>v m. ''wetwell_level_pct '' @ num_string v @ '' exceeds max_wetwell_level_pct '' @ num_string m),
      above (num_bound b ''max_turbidity_ntu'') (numericParam a ''turbidity_ntu'') (\<lambda>v m. ''turbidity_ntu '' @ num_string v @ '' exceeds max_turbidity_ntu '' @ num_string m),
      below (num_bound b ''min_ph'') (numericParam a ''ph'') (\<lambda>v m. ''ph '' @ num_string v @ '' below min_ph '' @ num_string m),
      above (num_bound b ''max_ph'') (numericParam a ''ph'') (\<lambda>v m. ''ph '' @ num_string v @ '' exceeds max_ph '' @ num_string m),
      above (num_bound b ''max_sensor_age_ms'') (numericParam a ''sensor_age_ms'') (\<lambda>v m. ''sensor_age_ms '' @ num_string v @ '' exceeds max_sensor_age_ms '' @ num_string m),
      above (num_bound b ''max_lab_sample_age_min'') (numericParam a ''lab_sample_age_min'') (\<lambda>v m. ''lab_sample_age_min '' @ num_string v @ '' exceeds max_lab_sample_age_min '' @ num_string m),
      above (num_bound b ''max_flow_mgd'') (numericParam a ''flow_mgd'') (\<lambda>v m. ''flow_mgd '' @ num_string v @ '' exceeds max_flow_mgd '' @ num_string m),
      below (num_bound b ''min_uv_intensity_pct'') (numericParam a ''uv_intensity_pct'') (\<lambda>v m. ''uv_intensity_pct '' @ num_string v @ '' below min_uv_intensity_pct '' @ num_string m),
      unproven (flag_bound b ''require_water_scada_fresh'') (booleanParam a ''scada_fresh'') (''fresh SCADA telemetry is required before this water action''),
      unproven (flag_bound b ''require_backflow_clear'') (booleanParam a ''backflow_risk_clear'') (''backflow risk must be clear before this water action''),
      unproven (flag_bound b ''require_disinfection_active'') (booleanParam a ''disinfection_active'') (''disinfection must be active before this water action''),
      unproven (flag_bound b ''require_chemical_inventory_ok'') (booleanParam a ''chemical_inventory_ok'') (''chemical inventory must be verified before this water action''),
      unproven (flag_bound b ''require_pump_available'') (booleanParam a ''pump_available'') (''pump availability is required before this water action''),
      unproven (flag_bound b ''require_valve_interlock_clear'') (booleanParam a ''valve_interlock_clear'') (''valve interlock must be clear before this water action''),
      unproven (flag_bound b ''require_discharge_permit_window'') (booleanParam a ''discharge_permit_window_open'') (''discharge permit window must be open before this water action''),
      asserted (flag_bound b ''require_no_bypass_active'') (booleanParam a ''bypass_active'') (''active bypass prevents this water action'')]"

text \<open>Lines 1746 to 1823: aviation.\<close>

definition aviation_invariants :: "CanonicalActionInput \<Rightarrow> PhysicalBounds \<Rightarrow> string option" where
  "aviation_invariants a b = first_failure
     [mismatch (str_bound b ''permitted_airspace_id'') (stringParam a ''airspace_id'') (\<lambda>v p. ''airspace_id '' @ v @ '' does not match '' @ p),
      outside (list_bound b ''permitted_airspace_classes'') (stringParam a ''airspace_class'') (\<lambda>v. ''airspace_class '' @ v @ '' is outside permitted airspace classes''),
      outside (list_bound b ''permitted_operation_volumes'') (stringParam a ''operation_volume_id'') (\<lambda>v. ''operation_volume_id '' @ v @ '' is outside permitted operation volumes''),
      outside (list_bound b ''permitted_flight_states'') (stringParam a ''flight_state'') (\<lambda>v. ''flight_state '' @ v @ '' is outside permitted flight states''),
      above (num_bound b ''max_altitude_agl_ft'') (numericParam a ''altitude_agl_ft'') (\<lambda>v m. ''altitude_agl_ft '' @ num_string v @ '' exceeds max_altitude_agl_ft '' @ num_string m),
      above (num_bound b ''max_groundspeed_kts'') (numericParam a ''groundspeed_kts'') (\<lambda>v m. ''groundspeed_kts '' @ num_string v @ '' exceeds max_groundspeed_kts '' @ num_string m),
      below (num_bound b ''min_battery_soc_pct'') (numericParam a ''battery_soc_pct'') (\<lambda>v m. ''battery_soc_pct '' @ num_string v @ '' below min_battery_soc_pct '' @ num_string m @ '' (RTL reserve)''),
      above (num_bound b ''max_wind_speed_kts'') (numericParam a ''wind_speed_kts'') (\<lambda>v m. ''wind_speed_kts '' @ num_string v @ '' exceeds max_wind_speed_kts '' @ num_string m),
      below (num_bound b ''min_visibility_sm'') (numericParam a ''visibility_sm'') (\<lambda>v m. ''visibility_sm '' @ num_string v @ '' below min_visibility_sm '' @ num_string m),
      below (num_bound b ''min_ceiling_ft'') (numericParam a ''ceiling_ft'') (\<lambda>v m. ''ceiling_ft '' @ num_string v @ '' below min_ceiling_ft '' @ num_string m),
      above (num_bound b ''max_payload_kg'') (numericParam a ''payload_kg'') (\<lambda>v m. ''payload_kg '' @ num_string v @ '' exceeds max_payload_kg '' @ num_string m),
      unproven (flag_bound b ''require_geofence_active'') (booleanParam a ''geofence_active'') (''geofence must be active before this flight action''),
      unproven (flag_bound b ''require_remote_id_broadcasting'') (booleanParam a ''remote_id_broadcasting'') (''Remote ID must be broadcasting before this flight action''),
      unproven (flag_bound b ''require_daa_active'') (booleanParam a ''daa_active'') (''detect-and-avoid must be active before this flight action''),
      unproven (flag_bound b ''require_c2_link_healthy'') (booleanParam a ''c2_link_healthy'') (''C2 link must be healthy before this flight action''),
      unproven (flag_bound b ''require_airspace_authorization'') (booleanParam a ''airspace_authorization_active'') (''airspace authorization (LAANC/ATC) is required before this flight action''),
      unproven (flag_bound b ''require_no_active_tfr'') (booleanParam a ''no_active_tfr'') (''an active TFR prohibits this flight action''),
      unproven (flag_bound b ''require_vlos_or_waiver'') (booleanParam a ''vlos_or_waiver'') (''visual line of sight or a BVLOS waiver is required before this flight action''),
      unproven (flag_bound b ''require_rtl_available'') (booleanParam a ''rtl_available'') (''return-to-launch failsafe must be available before this flight action''),
      unproven (flag_bound b ''require_vertiport_clearance'') (booleanParam a ''vertiport_clearance'') (''vertiport clearance is required before this eVTOL action''),
      unproven (flag_bound b ''require_weather_within_limits'') (booleanParam a ''weather_within_limits'') (''weather must be within limits before this flight action''),
      unproven (flag_bound b ''require_ops_over_people_authorized'') (booleanParam a ''ops_over_people_authorized'') (''operations over people authorization is required for this action'')]"

text \<open>Lines 1824 to 1902: robotics.\<close>

definition robotics_invariants :: "CanonicalActionInput \<Rightarrow> PhysicalBounds \<Rightarrow> string option" where
  "robotics_invariants a b = first_failure
     [mismatch (str_bound b ''permitted_workcell_id'') (stringParam a ''workcell_id'') (\<lambda>v p. ''workcell_id '' @ v @ '' does not match '' @ p),
      outside (list_bound b ''permitted_robot_zones'') (stringParam a ''robot_zone'') (\<lambda>v. ''robot_zone '' @ v @ '' is outside permitted robot zones''),
      outside (list_bound b ''permitted_operating_modes'') (stringParam a ''operating_mode'') (\<lambda>v. ''operating_mode '' @ v @ '' is outside permitted operating modes''),
      outside (list_bound b ''permitted_robot_states'') (stringParam a ''robot_state'') (\<lambda>v. ''robot_state '' @ v @ '' is outside permitted robot states''),
      above (num_bound b ''max_tcp_speed_mm_s'') (numericParam a ''tcp_speed_mm_s'') (\<lambda>v m. ''tcp_speed_mm_s '' @ num_string v @ '' exceeds max_tcp_speed_mm_s '' @ num_string m),
      above (num_bound b ''max_force_n'') (numericParam a ''force_n'') (\<lambda>v m. ''force_n '' @ num_string v @ '' exceeds max_force_n '' @ num_string m @ '' (ISO/TS 15066 biomechanical limit)''),
      above (num_bound b ''max_torque_nm'') (numericParam a ''torque_nm'') (\<lambda>v m. ''torque_nm '' @ num_string v @ '' exceeds max_torque_nm '' @ num_string m),
      above (num_bound b ''max_power_w'') (numericParam a ''power_w'') (\<lambda>v m. ''power_w '' @ num_string v @ '' exceeds max_power_w '' @ num_string m),
      below (num_bound b ''min_separation_distance_mm'') (numericParam a ''separation_distance_mm'') (\<lambda>v m. ''separation_distance_mm '' @ num_string v @ '' below min_separation_distance_mm '' @ num_string m @ '' (SSM)''),
      above (num_bound b ''max_com_deviation_mm'') (numericParam a ''com_deviation_mm'') (\<lambda>v m. ''com_deviation_mm '' @ num_string v @ '' exceeds max_com_deviation_mm '' @ num_string m @ '' (humanoid balance)''),
      above (num_bound b ''max_step_height_mm'') (numericParam a ''step_height_mm'') (\<lambda>v m. ''step_height_mm '' @ num_string v @ '' exceeds max_step_height_mm '' @ num_string m),
      unproven (flag_bound b ''require_estop_functional'') (booleanParam a ''estop_functional'') (''a functional emergency stop is required before this robot action''),
      unproven (flag_bound b ''require_protective_stop_armed'') (booleanParam a ''protective_stop_armed'') (''the protective stop must be armed before this robot action''),
      unproven (flag_bound b ''require_ssm_active'') (booleanParam a ''ssm_active'') (''speed-and-separation monitoring must be active before this robot action''),
      unproven (flag_bound b ''require_pfl_active'') (booleanParam a ''pfl_active'') (''power-and-force limiting must be active before this robot action''),
      unproven (flag_bound b ''require_collision_detection_active'') (booleanParam a ''collision_detection_active'') (''collision detection must be active before this robot action''),
      unproven (flag_bound b ''require_safety_scanner_active'') (booleanParam a ''safety_scanner_active'') (''the safety scanner must be active before this robot action''),
      unproven (flag_bound b ''require_balance_controller_active'') (booleanParam a ''balance_controller_active'') (''the humanoid balance controller must be active before this action''),
      unproven (flag_bound b ''require_fall_protection_armed'') (booleanParam a ''fall_protection_armed'') (''humanoid fall protection must be armed before this action''),
      unproven (flag_bound b ''require_teleop_link_healthy'') (booleanParam a ''teleop_link_healthy'') (''the teleoperation link must be healthy before this action''),
      fail_if (flag_bound b ''require_collaborative_mode_when_human_present'' \<and> booleanParam a ''human_present'' = Some True
        \<and> stringParam a ''operating_mode'' \<noteq> Some ''collaborative'') (''a human is present but the robot is not in collaborative mode (ISO/TS 15066)'')]"

text \<open>Lines 1903 to 1990: trucking and logistics, identities and limits.\<close>

definition logistics_invariants :: "CanonicalActionInput \<Rightarrow> PhysicalBounds \<Rightarrow> string option" where
  "logistics_invariants a b = first_failure
     [mismatch (str_bound b ''permitted_logistics_network_id'') (stringParam a ''logistics_network_id'') (\<lambda>v p. ''logistics_network_id '' @ v @ '' does not match '' @ p),
      outside (list_bound b ''permitted_logistics_facility_ids'') (stringParam a ''origin_facility_id'') (\<lambda>v. ''origin_facility_id '' @ v @ '' is outside permitted logistics facilities''),
      outside (list_bound b ''permitted_logistics_facility_ids'') (stringParam a ''destination_facility_id'') (\<lambda>v. ''destination_facility_id '' @ v @ '' is outside permitted logistics facilities''),
      outside (list_bound b ''permitted_logistics_facility_ids'') (stringParam a ''current_facility_id'') (\<lambda>v. ''current_facility_id '' @ v @ '' is outside permitted logistics facilities''),
      outside (list_bound b ''permitted_route_ids'') (stringParam a ''route_id'') (\<lambda>v. ''route_id '' @ v @ '' is outside permitted routes''),
      outside (list_bound b ''permitted_geofence_ids'') (stringParam a ''geofence_id'') (\<lambda>v. ''geofence_id '' @ v @ '' is outside permitted geofences''),
      outside (list_bound b ''permitted_carrier_ids'') (stringParam a ''carrier_id'') (\<lambda>v. ''carrier_id '' @ v @ '' is outside permitted carriers''),
      outside (list_bound b ''permitted_driver_ids'') (stringParam a ''driver_id'') (\<lambda>v. ''driver_id '' @ v @ '' is outside permitted drivers''),
      outside (list_bound b ''permitted_cargo_classes'') (coalesce (stringParam a ''cargo_class'') (stringParam a ''cargo_type'')) (\<lambda>v. ''cargo_class '' @ v @ '' is outside permitted cargo classes''),
      outside (list_bound b ''permitted_logistics_hazmat_classes'') (stringParam a ''hazmat_class'') (\<lambda>v. ''hazmat_class '' @ v @ '' is outside permitted logistics hazmat classes''),
      outside (list_bound b ''permitted_trailer_types'') (stringParam a ''trailer_type'') (\<lambda>v. ''trailer_type '' @ v @ '' is outside permitted trailer types''),
      outside (list_bound b ''permitted_cdl_classes'') (stringParam a ''cdl_class'') (\<lambda>v. ''cdl_class '' @ v @ '' is outside permitted CDL classes''),
      above (num_bound b ''max_gross_weight_lbs'') (numericParam a ''gross_weight_lbs'') (\<lambda>v m. ''gross_weight_lbs '' @ num_string v @ '' exceeds max_gross_weight_lbs '' @ num_string m),
      above (num_bound b ''max_cargo_value_usd'') (numericParam a ''cargo_value_usd'') (\<lambda>v m. ''cargo_value_usd '' @ num_string v @ '' exceeds max_cargo_value_usd '' @ num_string m),
      above (num_bound b ''max_fuel_advance_usd'') (numericParam a ''fuel_advance_usd'') (\<lambda>v m. ''fuel_advance_usd '' @ num_string v @ '' exceeds max_fuel_advance_usd '' @ num_string m),
      above (num_bound b ''max_accessorial_amount_usd'') (numericParam a ''accessorial_amount_usd'') (\<lambda>v m. ''accessorial_amount_usd '' @ num_string v @ '' exceeds max_accessorial_amount_usd '' @ num_string m),
      above (num_bound b ''max_fraud_score'') (numericParam a ''fraud_score'') (\<lambda>v m. ''fraud_score '' @ num_string v @ '' exceeds max_fraud_score '' @ num_string m),
      above (num_bound b ''max_double_broker_risk_score'') (numericParam a ''double_broker_risk_score'') (\<lambda>v m. ''double_broker_risk_score '' @ num_string v @ '' exceeds max_double_broker_risk_score '' @ num_string m),
      above (num_bound b ''max_eld_event_age_ms'') (numericParam a ''eld_event_age_ms'') (\<lambda>v m. ''eld_event_age_ms '' @ num_string v @ '' exceeds max_eld_event_age_ms '' @ num_string m),
      above (num_bound b ''max_telematics_age_ms'') (numericParam a ''telematics_age_ms'') (\<lambda>v m. ''telematics_age_ms '' @ num_string v @ '' exceeds max_telematics_age_ms '' @ num_string m),
      above (num_bound b ''max_route_deviation_km'') (numericParam a ''route_deviation_km'') (\<lambda>v m. ''route_deviation_km '' @ num_string v @ '' exceeds max_route_deviation_km '' @ num_string m),
      below (num_bound b ''min_remaining_drive_minutes'') (numericParam a ''remaining_drive_minutes'') (\<lambda>v m. ''remaining_drive_minutes '' @ num_string v @ '' below minimum '' @ num_string m)]"

text \<open>Lines 1991 to 2070: trucking and logistics, hours and proofs.\<close>

definition logistics_proof_invariants :: "CanonicalActionInput \<Rightarrow> PhysicalBounds \<Rightarrow> string option" where
  "logistics_proof_invariants a b = first_failure
     [above (numericParam a ''remaining_drive_minutes'') (numericParam a ''required_drive_minutes'') (\<lambda>v m. ''required_drive_minutes '' @ num_string v @ '' exceeds remaining_drive_minutes '' @ num_string m),
      below (num_bound b ''min_remaining_duty_minutes'') (numericParam a ''remaining_duty_minutes'') (\<lambda>v m. ''remaining_duty_minutes '' @ num_string v @ '' below minimum '' @ num_string m),
      below (num_bound b ''min_reefer_temp_c'') (coalesce (numericParam a ''cargo_temperature_c'') (numericParam a ''reefer_temperature_c'')) (\<lambda>v m. ''cargo temperature '' @ num_string v @ '' below min_reefer_temp_c '' @ num_string m),
      above (num_bound b ''max_reefer_temp_c'') (coalesce (numericParam a ''cargo_temperature_c'') (numericParam a ''reefer_temperature_c'')) (\<lambda>v m. ''cargo temperature '' @ num_string v @ '' exceeds max_reefer_temp_c '' @ num_string m),
      unproven (flag_bound b ''require_driver_qualified'') (booleanParam a ''driver_qualified'') (''driver qualification is required before this logistics action''),
      unproven (flag_bound b ''require_medical_card_valid'') (booleanParam a ''medical_card_valid'') (''driver medical card must be valid before this logistics action''),
      unproven (flag_bound b ''require_carrier_authority_active'') (booleanParam a ''carrier_authority_active'') (''carrier authority must be active before this logistics action''),
      unproven (flag_bound b ''require_carrier_insurance_valid'') (booleanParam a ''carrier_insurance_valid'') (''carrier insurance must be valid before this logistics action''),
      unproven (flag_bound b ''require_broker_authority_active'') (booleanParam a ''broker_authority_active'') (''broker authority must be active before this logistics action''),
      unproven (flag_bound b ''require_hos_available'') (booleanParam a ''hos_available'') (''HOS availability must be proven before dispatch''),
      unproven (flag_bound b ''require_eld_fresh'') (booleanParam a ''eld_fresh'') (''fresh ELD state is required before this logistics action''),
      unproven (flag_bound b ''require_route_permitted'') (booleanParam a ''route_permitted'') (''route must be permitted before this logistics action''),
      unproven (flag_bound b ''require_restricted_area_clear'') (booleanParam a ''restricted_area_clear'') (''restricted area clearance is required before this logistics action''),
      unproven (flag_bound b ''require_vehicle_maintenance_clear'') (booleanParam a ''vehicle_maintenance_clear'') (''vehicle maintenance clearance is required before this logistics action''),
      unproven (flag_bound b ''require_dvir_clear'') (booleanParam a ''dvir_clear'') (''DVIR must be clear before this logistics action''),
      unproven (flag_bound b ''require_trailer_seal_intact'') (booleanParam a ''trailer_seal_intact'') (''trailer seal must be intact before this logistics action''),
      unproven (flag_bound b ''require_cargo_secured'') (booleanParam a ''cargo_secured'') (''cargo securement must be proven before this logistics action''),
      unproven (flag_bound b ''require_temperature_in_range'') (booleanParam a ''temperature_in_range'') (''temperature must be in range before this logistics action''),
      fail_if (flag_bound b ''require_logistics_hazmat_endorsement'' \<and> str_truthy (stringParam a ''hazmat_class'') \<and> stringParam a ''hazmat_class'' \<noteq> Some ''none''
        \<and> booleanParam a ''hazmat_endorsement_valid'' \<noteq> Some True) (''hazmat endorsement is required before this logistics action''),
      unproven (flag_bound b ''require_customs_clearance'') (booleanParam a ''customs_clearance_present'') (''customs clearance is required before this logistics action''),
      unproven (flag_bound b ''require_logistics_appointment_valid'') (booleanParam a ''appointment_valid'') (''valid appointment is required before this logistics action''),
      unproven (flag_bound b ''require_dock_available'') (booleanParam a ''dock_available'') (''dock availability is required before this logistics action''),
      unproven (flag_bound b ''require_yard_gate_access'') (booleanParam a ''yard_gate_access_granted'') (''yard gate access must be granted before this logistics action''),
      unproven (flag_bound b ''require_fuel_card_active'') (booleanParam a ''fuel_card_active'') (''fuel card must be active before this logistics action''),
      unstated (flag_bound b ''require_logistics_dispatcher_identity'') (stringParam a ''dispatcher_id'') (''dispatcher identity is required before this logistics action''),
      asserted (flag_bound b ''require_no_double_broker_risk'') (booleanParam a ''double_broker_flag'') (''double-broker risk flag prevents this logistics action'')]"

text \<open>Lines 2071 to 2135: swarm.\<close>

definition swarm_invariants :: "CanonicalActionInput \<Rightarrow> PhysicalBounds \<Rightarrow> string option" where
  "swarm_invariants a b = first_failure
     [mismatch (str_bound b ''permitted_swarm_id'') (stringParam a ''swarm_id'') (\<lambda>v p. ''swarm_id '' @ v @ '' does not match '' @ p),
      outside (list_bound b ''permitted_mission_classes'') (stringParam a ''mission_class'') (\<lambda>v. ''mission_class '' @ v @ '' is outside permitted mission classes''),
      below (num_bound b ''min_swarm_size'') (numericParam a ''swarm_size'') (\<lambda>v m. ''swarm_size '' @ num_string v @ '' below min_swarm_size '' @ num_string m),
      above (num_bound b ''max_swarm_size'') (numericParam a ''swarm_size'') (\<lambda>v m. ''swarm_size '' @ num_string v @ '' exceeds max_swarm_size '' @ num_string m),
      above (num_bound b ''max_swarm_radius_m'') (numericParam a ''swarm_radius_m'') (\<lambda>v m. ''swarm_radius_m '' @ num_string v @ '' exceeds max_swarm_radius_m '' @ num_string m),
      below (num_bound b ''min_unit_separation_m'') (numericParam a ''unit_separation_m'') (\<lambda>v m. ''unit_separation_m '' @ num_string v @ '' below min_unit_separation_m '' @ num_string m),
      above (num_bound b ''max_unit_separation_m'') (numericParam a ''unit_separation_m'') (\<lambda>v m. ''unit_separation_m '' @ num_string v @ '' exceeds max_unit_separation_m '' @ num_string m @ '' (mesh degraded)''),
      below (num_bound b ''min_swarm_battery_soc_pct'') (numericParam a ''swarm_battery_soc_min_pct'') (\<lambda>v m. ''swarm_battery_soc_min_pct '' @ num_string v @ '' below min_swarm_battery_soc_pct '' @ num_string m),
      below (num_bound b ''min_mesh_link_quality'') (numericParam a ''mesh_link_quality'') (\<lambda>v m. ''mesh_link_quality '' @ num_string v @ '' below min_mesh_link_quality '' @ num_string m),
      above (num_bound b ''max_mesh_hops'') (numericParam a ''mesh_hops'') (\<lambda>v m. ''mesh_hops '' @ num_string v @ '' exceeds max_mesh_hops '' @ num_string m),
      above (num_bound b ''max_lost_link_seconds'') (numericParam a ''lost_link_seconds'') (\<lambda>v m. ''lost_link_seconds '' @ num_string v @ '' exceeds max_lost_link_seconds '' @ num_string m @ '' '' @ [CHR 0xE2, CHR 0x80, CHR 0x94] @ '' swarm must enter hold-safe''),
      above (num_bound b ''max_authority_sync_age_ms'') (numericParam a ''authority_sync_age_ms'') (\<lambda>v m. ''authority_sync_age_ms '' @ num_string v @ '' exceeds max_authority_sync_age_ms '' @ num_string m),
      unproven (flag_bound b ''require_mesh_relay_healthy'') (booleanParam a ''mesh_relay_healthy'') (''mesh relay must be healthy before this swarm action''),
      unproven (flag_bound b ''require_fluidity_token_valid'') (booleanParam a ''fluidity_token_valid'') (''fluidity token must be valid (degraded-comms authority expired)''),
      unproven (flag_bound b ''require_launch_readiness_approved'') (booleanParam a ''launch_readiness_approved'') (''launch readiness must be approved before this swarm action''),
      unproven (flag_bound b ''require_recovery_plan_active'') (booleanParam a ''recovery_plan_active'') (''an active recovery plan is required before this swarm action''),
      unproven (flag_bound b ''require_balloon_position_monitor_active'') (booleanParam a ''balloon_position_monitor_active'') (''balloon position-monitor must be active (14 CFR Part 101)''),
      unproven (flag_bound b ''require_balloon_within_envelope'') (booleanParam a ''balloon_within_envelope'') (''balloon is outside its authorized flight envelope'')]"

text \<open>Lines 2136 to 2249: healthcare.\<close>

definition healthcare_invariants :: "CanonicalActionInput \<Rightarrow> PhysicalBounds \<Rightarrow> string option" where
  "healthcare_invariants a b = first_failure
     [mismatch (str_bound b ''permitted_healthcare_system_id'') (stringParam a ''healthcare_system_id'') (\<lambda>v p. ''healthcare_system_id '' @ v @ '' does not match '' @ p),
      mismatch (str_bound b ''permitted_healthcare_facility_id'') (stringParam a ''facility_id'') (\<lambda>v p. ''facility_id '' @ v @ '' does not match '' @ p),
      outside (list_bound b ''permitted_clinical_units'') (stringParam a ''clinical_unit'') (\<lambda>v. ''clinical_unit '' @ v @ '' is outside permitted clinical units''),
      outside (list_bound b ''permitted_fhir_resource_types'') (stringParam a ''fhir_resource_type'') (\<lambda>v. ''fhir_resource_type '' @ v @ '' is outside permitted FHIR resource types''),
      outside (list_bound b ''permitted_order_types'') (stringParam a ''order_type'') (\<lambda>v. ''order_type '' @ v @ '' is outside permitted order types''),
      outside (list_bound b ''permitted_medication_classes'') (stringParam a ''medication_class'') (\<lambda>v. ''medication_class '' @ v @ '' is outside permitted medication classes''),
      outside (list_bound b ''permitted_healthcare_device_ids'') (stringParam a ''device_id'') (\<lambda>v. ''device_id '' @ v @ '' is outside permitted healthcare device ids''),
      outside (list_bound b ''permitted_phi_purposes'') (coalesce (stringParam a ''phi_purpose'') (stringParam a ''tpo_basis'')) (\<lambda>v. ''PHI purpose '' @ v @ '' is outside permitted purposes''),
      above (num_bound b ''max_phi_record_count'') (numericParam a ''phi_record_count'') (\<lambda>v m. ''phi_record_count '' @ num_string v @ '' exceeds max_phi_record_count '' @ num_string m),
      above (num_bound b ''max_claim_amount_usd'') (numericParam a ''claim_amount_usd'') (\<lambda>v m. ''claim_amount_usd '' @ num_string v @ '' exceeds max_claim_amount_usd '' @ num_string m),
      above (num_bound b ''max_patient_message_risk_score'') (numericParam a ''patient_message_risk_score'') (\<lambda>v m. ''patient_message_risk_score '' @ num_string v @ '' exceeds max_patient_message_risk_score '' @ num_string m),
      above (num_bound b ''max_clinical_context_age_ms'') (numericParam a ''clinical_context_age_ms'') (\<lambda>v m. ''clinical_context_age_ms '' @ num_string v @ '' exceeds max_clinical_context_age_ms '' @ num_string m),
      above (num_bound b ''max_medication_reconciliation_age_ms'') (numericParam a ''medication_reconciliation_age_ms'') (\<lambda>v m. ''medication_reconciliation_age_ms '' @ num_string v @ '' exceeds max_medication_reconciliation_age_ms '' @ num_string m),
      above (num_bound b ''max_device_telemetry_age_ms'') (numericParam a ''device_telemetry_age_ms'') (\<lambda>v m. ''device_telemetry_age_ms '' @ num_string v @ '' exceeds max_device_telemetry_age_ms '' @ num_string m),
      fail_if (flag_bound b ''require_patient_context'' \<and> (\<not> str_truthy (stringParam a ''patient_context_hash'')
        \<or> booleanParam a ''patient_context_present'' \<noteq> Some True)) (''patient context hash and presence proof are required before this healthcare action''),
      unproven (flag_bound b ''require_patient_identity_verified'') (booleanParam a ''patient_identity_verified'') (''patient identity must be verified before this healthcare action''),
      fail_if (flag_bound b ''require_tpo_basis_or_consent'' \<and> booleanParam a ''patient_consent_valid'' \<noteq> Some True
        \<and> coalesce (stringParam a ''phi_purpose'') (stringParam a ''tpo_basis'') \<notin> Some ` {''treatment'', ''payment'', ''operations'', ''prior-authorization'', ''emergency''}) (''valid consent or treatment/payment/operations basis is required before this healthcare action''),
      unproven (flag_bound b ''require_clinician_privilege_active'') (booleanParam a ''clinician_privilege_active'') (''active clinician privilege is required before this healthcare action''),
      unproven (flag_bound b ''require_pharmacist_authority'') (booleanParam a ''pharmacist_authority_present'') (''pharmacist authority is required before this pharmacy action''),
      unproven (flag_bound b ''require_allergy_checked'') (booleanParam a ''allergy_checked'') (''allergy check is required before this medication action''),
      asserted (flag_bound b ''require_no_allergy_conflict'') (booleanParam a ''allergy_conflict'') (''active allergy conflict prevents this healthcare action''),
      unproven (flag_bound b ''require_medication_interaction_clear'') (booleanParam a ''medication_interaction_clear'') (''medication interaction check must be clear before this healthcare action''),
      unproven (flag_bound b ''require_order_signing_authority'') (booleanParam a ''order_signing_authority'') (''order signing authority is required before this order action''),
      unproven (flag_bound b ''require_diagnosis_context'') (booleanParam a ''diagnosis_context_present'') (''diagnosis context is required before this healthcare action''),
      unproven (flag_bound b ''require_device_safety_limits'') (booleanParam a ''device_safety_limits_active'') (''device safety limits must remain active before this device action''),
      unproven (flag_bound b ''require_device_alarm_active'') (booleanParam a ''alarm_active'') (''device alarm must remain active before this device action''),
      unproven (flag_bound b ''require_privacy_officer_approval'') (booleanParam a ''privacy_officer_approval'') (''privacy officer approval is required before this PHI or research action''),
      unproven (flag_bound b ''require_deidentification_valid'') (booleanParam a ''deidentification_valid'') (''valid de-identification is required before this research export''),
      fail_if (flag_bound b ''require_break_glass_attestation'' \<and> stringParam a ''tpo_basis'' = Some ''emergency''
        \<and> booleanParam a ''break_glass_attested'' \<noteq> Some True) (''emergency break-glass actions require attestation''),
      unproven (flag_bound b ''require_chart_lock_clear'') (booleanParam a ''chart_lock_clear'') (''chart lock must be clear before this EHR mutation''),
      unproven (flag_bound b ''require_human_review_for_patient_message'') (booleanParam a ''human_review_present'') (''human review is required before this patient-facing message''),
      unproven (flag_bound b ''require_claim_attestation'') (booleanParam a ''claim_attestation_present'') (''claim attestation is required before this revenue-cycle action''),
      unproven (flag_bound b ''require_healthcare_audit_context'') (booleanParam a ''audit_context_present'') (''audit context is required before this healthcare action'')]"

text \<open>Lines 2250 to 2325: title transactions.\<close>

definition title_invariants :: "CanonicalActionInput \<Rightarrow> PhysicalBounds \<Rightarrow> string option" where
  "title_invariants a b = first_failure
     [outside (list_bound b ''permitted_jurisdictions'') (stringParam a ''jurisdiction'') (\<lambda>v. ''jurisdiction '' @ v @ '' is outside permitted jurisdictions''),
      outside (list_bound b ''permitted_transaction_types'') (stringParam a ''transaction_type'') (\<lambda>v. ''transaction_type '' @ v @ '' is outside permitted transaction types''),
      outside (list_bound b ''permitted_organization_kinds'') (stringParam a ''organization_kind'') (\<lambda>v. ''organization_kind '' @ v @ '' is outside permitted organization kinds''),
      above (num_bound b ''max_fraud_risk_score'') (numericParam a ''fraud_risk_score'') (\<lambda>v m. ''fraud_risk_score '' @ num_string v @ '' exceeds max_fraud_risk_score '' @ num_string m),
      below (num_bound b ''min_identity_confidence_score'') (numericParam a ''identity_confidence_score'') (\<lambda>v m. ''identity_confidence_score '' @ num_string v @ '' below min_identity_confidence_score '' @ num_string m),
      above (num_bound b ''max_warrant_age_ms'') (numericParam a ''warrant_age_ms'') (\<lambda>v m. ''warrant_age_ms '' @ num_string v @ '' exceeds max_warrant_age_ms '' @ num_string m @ '' (warrant stale)''),
      unproven (flag_bound b ''require_dealer_license_active'') (booleanParam a ''dealer_license_active'') (''dealer license must be active for this title transaction''),
      unproven (flag_bound b ''require_lender_active'') (booleanParam a ''lender_active'') (''lender must be active for this lien transaction''),
      unproven (flag_bound b ''require_lender_elt_participant'') (booleanParam a ''lender_elt_participant'') (''lender must participate in the state ELT program for this action''),
      unproven (flag_bound b ''require_signer_authorized'') (booleanParam a ''signer_authorized'') (''signer is not authorized for this title transaction''),
      unproven (flag_bound b ''require_nmvtis_passed'') (booleanParam a ''nmvtis_passed'') (''NMVTIS check must pass before this title transaction''),
      unproven (flag_bound b ''require_theft_flag_clear'') (booleanParam a ''theft_flag_clear'') (''theft flag is set on this vehicle; title action refused''),
      unproven (flag_bound b ''require_odometer_disclosed'') (booleanParam a ''odometer_disclosed'') (''odometer disclosure is required (49 CFR Part 580) but missing''),
      unproven (flag_bound b ''require_identity_verified'') (booleanParam a ''identity_verified'') (''identity verification required but not completed''),
      unproven (flag_bound b ''require_authority_envelope_unrevoked'') (booleanParam a ''authority_envelope_unrevoked'') (''authority envelope has been revoked''),
      unproven (flag_bound b ''require_warrant_unused'') (booleanParam a ''warrant_unused'') (''warrant has already been consumed (single-use)''),
      unproven (flag_bound b ''require_required_forms_present'') (booleanParam a ''required_forms_present'') (''required forms for this jurisdiction/transaction are missing''),
      unproven (flag_bound b ''require_vin_inspection_present'') (booleanParam a ''vin_inspection_present'') (''VIN inspection is required for this transaction but missing''),
      unproven (flag_bound b ''require_state_supports_elt'') (booleanParam a ''state_supports_elt'') (''state does not support ELT for this transaction''),
      unproven (flag_bound b ''require_state_supports_digital_signature'') (booleanParam a ''state_supports_digital_signature'') (''state does not accept digital signatures for this transaction''),
      unproven (flag_bound b ''require_digital_signature_accepted'') (booleanParam a ''digital_signature_accepted'') (''digital signature was not accepted by the jurisdiction for this document''),
      unproven (flag_bound b ''require_lien_exists'') (booleanParam a ''lien_exists'') (''no lien exists on this title (refusing lien-release / satisfaction)''),
      unproven (flag_bound b ''require_lien_release_authority_active'') (booleanParam a ''lien_release_authority_active'') (''lien-release authority is not active for the requesting lender'')]"

text \<open>Lines 2326 to 2354: geographic scope and model lineage.\<close>

definition cross_vertical_invariants :: "CanonicalActionInput \<Rightarrow> PhysicalBounds \<Rightarrow> string option" where
  "cross_vertical_invariants a b = first_failure
     [geofence_check a b,
      outside (list_bound b ''permitted_model_ids'') (stringParam a ''model_id'') (\<lambda>v. ''model_id '' @ v @ '' not in permitted_model_ids''),
      outside (list_bound b ''permitted_model_hashes'') (stringParam a ''model_hash'') (\<lambda>v. ''model_hash '' @ v @ '' not in permitted_model_hashes'')]"

text \<open>Lines 2355 to 2411: space launch.\<close>

definition launch_invariants :: "CanonicalActionInput \<Rightarrow> PhysicalBounds \<Rightarrow> string option" where
  "launch_invariants a b = first_failure
     [outside (list_bound b ''permitted_launch_sites'') (stringParam a ''launch_site'') (\<lambda>v. ''launch_site '' @ v @ '' is outside permitted launch sites''),
      outside (list_bound b ''permitted_vehicle_classes'') (stringParam a ''vehicle_class'') (\<lambda>v. ''vehicle_class '' @ v @ '' is outside permitted vehicle classes''),
      above (num_bound b ''max_surface_wind_kts'') (numericParam a ''surface_wind_kts'') (\<lambda>v m. ''surface_wind_kts '' @ num_string v @ '' exceeds max_surface_wind_kts '' @ num_string m),
      above (num_bound b ''max_upper_wind_shear_kts_per_kft'') (numericParam a ''upper_wind_shear_kts_per_kft'') (\<lambda>v m. ''upper_wind_shear_kts_per_kft '' @ num_string v @ '' exceeds max_upper_wind_shear_kts_per_kft '' @ num_string m),
      above (num_bound b ''max_q_kpa'') (numericParam a ''expected_max_q_kpa'') (\<lambda>v m. ''expected_max_q_kpa '' @ num_string v @ '' exceeds max_q_kpa '' @ num_string m),
      unproven (flag_bound b ''require_range_clear'') (booleanParam a ''range_clear'') (''range is not clear (ships / aircraft / hazard area)''),
      unproven (flag_bound b ''require_fts_armed'') (booleanParam a ''fts_armed'') (''Flight Termination System is not armed''),
      unproven (flag_bound b ''require_afts_nominal'') (booleanParam a ''afts_nominal'') (''Autonomous Flight Termination System is not nominal''),
      unproven (flag_bound b ''require_fts_battery_ok'') (booleanParam a ''fts_battery_ok'') (''FTS battery is outside voltage envelope''),
      unproven (flag_bound b ''require_fts_rf_link_ok'') (booleanParam a ''fts_rf_link_ok'') (''FTS RF link to range is unhealthy''),
      unproven (flag_bound b ''require_propellant_temp_in_spec'') (booleanParam a ''propellant_temp_k_within_spec'') (''propellant temperature is outside spec''),
      unproven (flag_bound b ''require_itar_cleared'') (booleanParam a ''itar_cleared'') (''ITAR pre-clearance is required but missing''),
      unproven (flag_bound b ''require_comms_licensed'') (booleanParam a ''comms_licensed'') (''comms licensing (FCC / ITU) is required but missing''),
      unproven (flag_bound b ''require_hazard_area_cleared'') (booleanParam a ''hazard_area_cleared'') (''downrange hazard area is not cleared''),
      unproven (flag_bound b ''require_tracking_radar_acquired'') (booleanParam a ''tracking_radar_acquired'') (''tracking radar has not acquired the vehicle''),
      unproven (flag_bound b ''require_range_commander_go'') (booleanParam a ''range_commander_go'') (''range commander has not issued GO'')]"

text \<open>Lines 2412 to 2506: space, orbital.\<close>

definition orbital_invariants :: "CanonicalActionInput \<Rightarrow> PhysicalBounds \<Rightarrow> string option" where
  "orbital_invariants a b = first_failure
     [outside (list_bound b ''permitted_space_asset_ids'') (stringParam a ''asset_id'') (\<lambda>v. ''space asset '' @ v @ '' is outside permitted assets''),
      outside (list_bound b ''permitted_orbit_regimes'') (stringParam a ''orbit_regime'') (\<lambda>v. ''orbit_regime '' @ v @ '' is outside permitted orbit regimes''),
      outside (list_bound b ''permitted_space_mission_classes'') (stringParam a ''mission_class'') (\<lambda>v. ''mission_class '' @ v @ '' is outside permitted space mission classes''),
      outside (list_bound b ''permitted_ground_station_ids'') (stringParam a ''ground_station_id'') (\<lambda>v. ''ground_station_id '' @ v @ '' is outside permitted ground stations''),
      outside (list_bound b ''permitted_rf_bands'') (stringParam a ''rf_band'') (\<lambda>v. ''rf_band '' @ v @ '' is outside permitted RF bands''),
      outside (list_bound b ''permitted_payload_modes'') (stringParam a ''payload_mode'') (\<lambda>v. ''payload_mode '' @ v @ '' is outside permitted payload modes''),
      above (num_bound b ''max_delta_v_mps'') (numericParam a ''delta_v_mps'') (\<lambda>v m. ''delta_v_mps '' @ num_string v @ '' exceeds max_delta_v_mps '' @ num_string m),
      above (num_bound b ''max_burn_duration_s'') (numericParam a ''burn_duration_s'') (\<lambda>v m. ''burn_duration_s '' @ num_string v @ '' exceeds max_burn_duration_s '' @ num_string m),
      above (num_bound b ''max_conjunction_probability'') (numericParam a ''conjunction_probability'') (\<lambda>v m. ''conjunction_probability '' @ num_string v @ '' exceeds max_conjunction_probability '' @ num_string m),
      below (num_bound b ''min_miss_distance_km'') (numericParam a ''miss_distance_km'') (\<lambda>v m. ''miss_distance_km '' @ num_string v @ '' below min_miss_distance_km '' @ num_string m),
      below (num_bound b ''min_power_margin_pct'') (numericParam a ''power_margin_pct'') (\<lambda>v m. ''power_margin_pct '' @ num_string v @ '' below min_power_margin_pct '' @ num_string m),
      above (num_bound b ''max_ephemeris_age_ms'') (numericParam a ''ephemeris_age_ms'') (\<lambda>v m. ''ephemeris_age_ms '' @ num_string v @ '' exceeds max_ephemeris_age_ms '' @ num_string m),
      above (num_bound b ''max_command_window_age_ms'') (numericParam a ''command_window_age_ms'') (\<lambda>v m. ''command_window_age_ms '' @ num_string v @ '' exceeds max_command_window_age_ms '' @ num_string m),
      unproven (flag_bound b ''require_conjunction_screening_clear'') (booleanParam a ''conjunction_screening_clear'') (''conjunction screening must be clear before this space action''),
      unproven (flag_bound b ''require_debris_mitigation_plan'') (booleanParam a ''debris_mitigation_plan_approved'') (''debris mitigation plan must be approved before this space action''),
      unproven (flag_bound b ''require_rf_authorization'') (booleanParam a ''rf_authorization_active'') (''RF authorization must be active before this transmission''),
      unproven (flag_bound b ''require_ground_station_authorized'') (booleanParam a ''ground_station_authorized'') (''ground station must be authorized before this command/contact''),
      fail_if (flag_bound b ''require_ephemeris_fresh'' \<and> numericParam a ''ephemeris_age_ms'' = None) (''fresh ephemeris age is required before this space action''),
      unproven (flag_bound b ''require_attitude_control_stable'') (booleanParam a ''attitude_control_stable'') (''attitude control must be stable before this space action''),
      unproven (flag_bound b ''require_safe_mode_available'') (booleanParam a ''safe_mode_available'') (''safe mode must remain available before this space action''),
      fail_if (flag_bound b ''require_power_margin_positive'' \<and> \<not> positive (numericParam a ''power_margin_pct'')) (''power margin must be positive before this space action''),
      unproven (flag_bound b ''require_thermal_limits_nominal'') (booleanParam a ''thermal_limits_nominal'') (''thermal limits must be nominal before this space action''),
      unproven (flag_bound b ''require_operator_console_locked'') (booleanParam a ''operator_console_locked'') (''operator console must be locked to the mission authority context''),
      unproven (flag_bound b ''require_payload_tasking_authorized'') (booleanParam a ''payload_tasking_authorized'') (''payload tasking is not authorized for this target/mode''),
      unproven (flag_bound b ''require_export_control_clearance'') (booleanParam a ''export_control_clearance'') (''export-control clearance is required before this space action''),
      unproven (flag_bound b ''require_deorbit_plan_approved'') (booleanParam a ''deorbit_plan_approved'') (''approved deorbit/reentry plan is required before this action''),
      unproven (flag_bound b ''require_collision_avoidance_enabled'') (booleanParam a ''collision_avoidance_enabled'') (''collision avoidance must remain enabled before this space action'')]"

lemmas vertical_defs =
  vehicle_grid_invariants_def rail_invariants_def pipeline_invariants_def mining_invariants_def port_invariants_def water_invariants_def aviation_invariants_def robotics_invariants_def logistics_invariants_def logistics_proof_invariants_def swarm_invariants_def healthcare_invariants_def title_invariants_def cross_vertical_invariants_def launch_invariants_def orbital_invariants_def

end
