(* ===== verification/Physical.thy ===== *)
theory Physical
  imports Physical_Checks
begin

text \<open>
  \<open>evaluatePhysicalInvariants\<close> of \<open>index.ts\<close> as a whole, and what its acceptance means: for each
  vertical a table lists the limits a Ward may declare and the parameters each of them governs, and
  the theorems show that an action is accepted exactly when it respects every one of them and is none
  of the interlocked types.
\<close>

section \<open>evaluatePhysicalInvariants\<close>

definition physical_failure :: "CanonicalActionInput \<Rightarrow> PhysicalBounds \<Rightarrow> string option" where
  "physical_failure a b = first_failure
     [interlocks_industrial (act_action_type a), interlocks_mission (act_action_type a),
      vehicle_grid_invariants a b, rail_invariants a b, pipeline_invariants a b,
      mining_invariants a b, port_invariants a b, water_invariants a b,
      aviation_invariants a b, robotics_invariants a b, logistics_invariants a b,
      logistics_proof_invariants a b, swarm_invariants a b, healthcare_invariants a b,
      title_invariants a b, cross_vertical_invariants a b, launch_invariants a b,
      orbital_invariants a b]"

definition evaluatePhysicalInvariants ::
  "CanonicalActionInput \<Rightarrow> PhysicalBounds option \<Rightarrow> PhysicalInvariantResult" where
  "evaluatePhysicalInvariants a bounds =
     (case bounds of
        None \<Rightarrow> \<lparr> pir_ok = True, pir_reason_codes = [], pir_detail = ''no physical bounds declared'' \<rparr>
      | Some b \<Rightarrow>
          (case physical_failure a b of
             Some detail \<Rightarrow> \<lparr> pir_ok = False, pir_reason_codes = [PHYSICAL_INVARIANT_FAILED], pir_detail = detail \<rparr>
           | None \<Rightarrow> \<lparr> pir_ok = True, pir_reason_codes = [], pir_detail = ''physical invariants satisfied'' \<rparr>))"

section \<open>The declared limits\<close>

text \<open>
  What a Ward may declare, as data.  \<open>At_most bound ps\<close>, \<open>At_least bound ps\<close> and \<open>Among bound ps\<close> are a
  ceiling, a floor and a list of permitted values for the first of the parameters \<open>ps\<close> the action
  states; \<open>Equal_to bound p\<close> fixes an identity; \<open>Proven flag p\<close>, \<open>Denied flag p\<close> and \<open>Stated flag p\<close>
  demand that a parameter is \<open>true\<close>, is not \<open>true\<close>, or is a non-empty text.  The others are the rules of
  a particular shape.
\<close>

datatype limit =
    At_most string "string list"
  | At_least string "string list"
  | Among string "string list"
  | Equal_to string string
  | Proven string string
  | Denied string string
  | Stated string string
  | Geofence
  | Signal_clear
  | Collaborative_mode
  | Drive_time_left
  | Hazmat_endorsed
  | Patient_context
  | Basis_or_consent
  | Break_glass_attested
  | Ephemeris_known
  | Power_positive

fun stated_number :: "CanonicalActionInput \<Rightarrow> string list \<Rightarrow> rat option" where
  "stated_number a [] = None"
| "stated_number a (p # ps) = (case obj_get (act_params a) p of JNum x \<Rightarrow> Some x | _ \<Rightarrow> stated_number a ps)"

fun stated_text :: "CanonicalActionInput \<Rightarrow> string list \<Rightarrow> string option" where
  "stated_text a [] = None"
| "stated_text a (p # ps) = (case obj_get (act_params a) p of JStr x \<Rightarrow> Some x | _ \<Rightarrow> stated_text a ps)"

definition holds :: "CanonicalActionInput \<Rightarrow> string \<Rightarrow> bool" where
  "holds a p \<longleftrightarrow> obj_get (act_params a) p = JBool True"

text \<open>Inside the geofence: a polygon or a circle that is declared contains the stated position.\<close>

definition declared_circle :: "PhysicalBounds \<Rightarrow> ((rat \<times> rat) \<times> rat) option" where
  "declared_circle b = (case (as_pair (obj_get b ''geofence_center''), obj_get b ''geofence_radius_km'') of
     (Some c, JNum r) \<Rightarrow> Some (c, r) | _ \<Rightarrow> None)"

definition inside_geofence :: "CanonicalActionInput \<Rightarrow> PhysicalBounds \<Rightarrow> bool" where
  "inside_geofence a b \<longleftrightarrow>
     (let polygon = as_polygon (obj_get b ''geofence_polygon'')
      in polygon = [] \<and> declared_circle b = None \<or>
         (case extractCoords a of
            None \<Rightarrow> False
          | Some at_point \<Rightarrow> (polygon = [] \<or> pointInPolygon at_point polygon) \<and>
              (case declared_circle b of None \<Rightarrow> True | Some (c, r) \<Rightarrow> haversineKm at_point c \<le> of_rat r)))"

fun honours :: "CanonicalActionInput \<Rightarrow> PhysicalBounds \<Rightarrow> limit \<Rightarrow> bool" where
  "honours a b (At_most k ps) =
     (case (obj_get b k, stated_number a ps) of (JNum m, Some x) \<Rightarrow> x \<le> m | _ \<Rightarrow> True)"
| "honours a b (At_least k ps) =
     (case (obj_get b k, stated_number a ps) of (JNum m, Some x) \<Rightarrow> m \<le> x | _ \<Rightarrow> True)"
| "honours a b (Among k ps) =
     (case (obj_get b k, stated_text a ps) of (JArr vs, Some x) \<Rightarrow> vs = [] \<or> x = [] \<or> JStr x \<in> set vs | _ \<Rightarrow> True)"
| "honours a b (Equal_to k p) =
     (case (obj_get b k, obj_get (act_params a) p) of (JStr m, JStr x) \<Rightarrow> m = [] \<or> x = [] \<or> x = m | _ \<Rightarrow> True)"
| "honours a b (Proven k p) = (truthy (obj_get b k) \<longrightarrow> holds a p)"
| "honours a b (Denied k p) = (truthy (obj_get b k) \<longrightarrow> \<not> holds a p)"
| "honours a b (Stated k p) = (truthy (obj_get b k) \<longrightarrow> (\<exists>c s. obj_get (act_params a) p = JStr (c # s)))"
| "honours a b Geofence = inside_geofence a b"
| "honours a b Signal_clear =
     (truthy (obj_get b ''require_signal_not_stop'') \<longrightarrow> obj_get (act_params a) ''signal_aspect'' \<noteq> JStr ''stop'')"
| "honours a b Collaborative_mode =
     (truthy (obj_get b ''require_collaborative_mode_when_human_present'') \<longrightarrow> holds a ''human_present'' \<longrightarrow>
        obj_get (act_params a) ''operating_mode'' = JStr ''collaborative'')"
| "honours a b Drive_time_left =
     (case (obj_get (act_params a) ''remaining_drive_minutes'', obj_get (act_params a) ''required_drive_minutes'') of
        (JNum remaining, JNum needed) \<Rightarrow> needed \<le> remaining | _ \<Rightarrow> True)"
| "honours a b Hazmat_endorsed =
     (truthy (obj_get b ''require_logistics_hazmat_endorsement'') \<longrightarrow>
        (case obj_get (act_params a) ''hazmat_class'' of
           JStr c \<Rightarrow> c = [] \<or> c = ''none'' \<or> holds a ''hazmat_endorsement_valid'' | _ \<Rightarrow> True))"
| "honours a b Patient_context =
     (truthy (obj_get b ''require_patient_context'') \<longrightarrow>
        (\<exists>c s. obj_get (act_params a) ''patient_context_hash'' = JStr (c # s)) \<and> holds a ''patient_context_present'')"
| "honours a b Basis_or_consent =
     (truthy (obj_get b ''require_tpo_basis_or_consent'') \<longrightarrow>
        holds a ''patient_consent_valid'' \<or>
        (case stated_text a [''phi_purpose'', ''tpo_basis''] of
           Some p \<Rightarrow> p \<in> {''treatment'', ''payment'', ''operations'', ''prior-authorization'', ''emergency''} | None \<Rightarrow> False))"
| "honours a b Break_glass_attested =
     (truthy (obj_get b ''require_break_glass_attestation'') \<longrightarrow> obj_get (act_params a) ''tpo_basis'' = JStr ''emergency'' \<longrightarrow>
        holds a ''break_glass_attested'')"
| "honours a b Ephemeris_known =
     (truthy (obj_get b ''require_ephemeris_fresh'') \<longrightarrow> (\<exists>x. obj_get (act_params a) ''ephemeris_age_ms'' = JNum x))"
| "honours a b Power_positive =
     (truthy (obj_get b ''require_power_margin_positive'') \<longrightarrow>
        (case obj_get (act_params a) ''power_margin_pct'' of JNum x \<Rightarrow> 0 < x | _ \<Rightarrow> False))"

section \<open>The limits of each vertical\<close>

definition vehicle_grid_limits :: "limit list" where
  "vehicle_grid_limits =
     [At_most ''max_altitude_m'' [''altitude_m''], Equal_to ''permitted_boundary_id'' ''boundary_id'',
      At_least ''battery_minimum_pct'' [''battery_pct''], At_most ''max_speed_mps'' [''speed_mps''],
      Equal_to ''permitted_odd_id'' ''odd_id'', Among ''permitted_road_classes'' [''road_class''],
      At_least ''min_map_confidence'' [''map_confidence''],
      At_least ''min_localization_confidence'' [''localization_confidence''],
      At_least ''min_perception_confidence'' [''perception_confidence''],
      Proven ''require_mrc_available'' ''mrc_available'', Among ''permitted_drive_states'' [''drive_state''],
      At_least ''min_voltage_kv'' [''voltage_kv''], At_most ''max_voltage_kv'' [''voltage_kv''],
      At_least ''min_frequency_hz'' [''frequency_hz''], At_most ''max_frequency_hz'' [''frequency_hz''],
      At_most ''max_feeder_load_pct'' [''feeder_load_pct''],
      At_most ''max_transformer_load_pct'' [''transformer_load_pct''], At_most ''max_der_export_mw'' [''der_export_mw''],
      At_most ''max_telemetry_age_ms'' [''telemetry_age_ms''],
      Equal_to ''permitted_topology_model_id'' ''topology_model_id'',
      Among ''permitted_voltage_classes'' [''voltage_class''], Among ''permitted_asset_types'' [''asset_type''],
      Among ''permitted_grid_states'' [''grid_state''], Stated ''require_switching_order'' ''switching_order_id'',
      Proven ''require_clearance_released'' ''crew_clearance_released'',
      Proven ''require_protection_known'' ''protection_state_known'', Proven ''require_scada_fresh'' ''scada_fresh'',
      Proven ''require_manual_fallback_ready'' ''manual_fallback_ready'']"

definition rail_limits :: "limit list" where
  "rail_limits =
     [Equal_to ''permitted_territory_id'' ''territory_id'', Among ''permitted_route_classes'' [''route_class''],
      Among ''permitted_track_classes'' [''track_class''], Among ''permitted_signal_aspects'' [''signal_aspect''],
      Among ''permitted_train_types'' [''train_type''], Among ''permitted_operating_states'' [''operating_state''],
      At_most ''max_authority_speed_mph'' [''authority_speed_mph'', ''speed_mph'', ''max_speed_mph''],
      At_least ''min_train_separation_m'' [''train_separation_m''],
      At_most ''max_train_length_ft'' [''train_length_ft''], At_most ''max_train_tonnage'' [''train_tonnage''],
      At_most ''max_ptc_telemetry_age_ms'' [''ptc_telemetry_age_ms''], Proven ''require_ptc_active'' ''ptc_active'',
      Proven ''require_switch_proven'' ''switch_position_proven'', Signal_clear,
      Proven ''require_work_zone_released'' ''work_zone_released'',
      Proven ''require_track_bulletin_ack'' ''track_bulletin_ack'',
      Stated ''require_dispatcher_identity'' ''dispatcher_id'',
      Proven ''require_brake_test_current'' ''brake_test_current'', Stated ''require_consist_verified'' ''consist_hash'',
      Proven ''require_grade_crossing_protected'' ''grade_crossing_protected'',
      Proven ''require_crew_acknowledged'' ''crew_acknowledged'',
      Denied ''require_no_conflicting_authority'' ''conflicting_authority_present'']"

definition pipeline_limits :: "limit list" where
  "pipeline_limits =
     [Equal_to ''permitted_segment_id'' ''segment_id'', Equal_to ''permitted_system_model_id'' ''system_model_id'',
      Among ''permitted_pipeline_states'' [''pipeline_state''],
      At_most ''max_pressure_psig'' [''setpoint_psig'', ''pressure_psig''],
      At_least ''min_pressure_psig'' [''pressure_psig''], At_most ''max_pressure_pct_maop'' [''pressure_pct_maop''],
      At_most ''max_flow_bbl_per_day'' [''flow_bbl_per_day''], At_most ''max_flow_mmscfd'' [''flow_mmscfd''],
      Proven ''require_leak_detection_armed'' ''leak_detection_armed'',
      Proven ''require_overpressure_protection'' ''overpressure_protection_active'',
      Proven ''require_esd_ready'' ''esd_ready'', Proven ''require_segment_isolation_ready'' ''segment_isolation_ready'',
      Proven ''require_pump_primed'' ''pump_primed'', Proven ''require_pipeline_scada_fresh'' ''pipeline_scada_fresh'',
      Proven ''require_operator_qualified'' ''operator_qualified'']"

definition mining_limits :: "limit list" where
  "mining_limits =
     [Equal_to ''permitted_mine_site_id'' ''site_id'', Among ''permitted_mine_zones'' [''zone_id''],
      Among ''permitted_mine_states'' [''mine_state''], At_most ''max_methane_pct'' [''methane_pct''],
      At_most ''max_co_ppm'' [''co_ppm''], At_least ''min_oxygen_pct'' [''oxygen_pct''],
      At_least ''min_airflow_cfm'' [''airflow_cfm''], At_most ''max_haulage_speed_kph'' [''speed_kph''],
      At_most ''max_tailings_pond_level_m'' [''tailings_pond_level_m''],
      At_least ''min_tailings_freeboard_m'' [''tailings_freeboard_m''],
      At_most ''max_hoist_load_kg'' [''hoist_load_kg''],
      Proven ''require_proximity_detection'' ''proximity_detection_active'',
      Proven ''require_exclusion_zone_clear'' ''exclusion_zone_clear'',
      Proven ''require_personnel_cleared'' ''personnel_cleared'',
      Proven ''require_ground_control_stable'' ''ground_control_stable'',
      Proven ''require_gas_monitoring'' ''gas_monitoring_active'', Proven ''require_ventilation_on'' ''ventilation_on'',
      Proven ''require_piezometer_monitoring'' ''piezometer_monitoring_active'',
      Proven ''require_overspeed_protection'' ''overspeed_protection_active'',
      Proven ''require_mining_scada_fresh'' ''mining_scada_fresh'']"

definition port_limits :: "limit list" where
  "port_limits =
     [Equal_to ''permitted_port_id'' ''port_id'', Equal_to ''permitted_terminal_id'' ''terminal_id'',
      Among ''permitted_berth_ids'' [''berth_id''],
      Among ''permitted_yard_blocks'' [''yard_block_id'', ''to_block'', ''from_block''],
      Among ''permitted_gate_ids'' [''gate_id''], Among ''permitted_cargo_types'' [''cargo_type''],
      Among ''permitted_hazmat_classes'' [''hazmat_class''],
      Among ''permitted_terminal_zones'' [''terminal_network_zone''],
      At_most ''max_container_weight_kg'' [''container_weight_kg''],
      At_least ''min_pnt_confidence'' [''pnt_confidence''], At_most ''max_ais_track_age_ms'' [''ais_track_age_ms''],
      At_most ''max_port_telemetry_age_ms'' [''ot_telemetry_age_ms''], At_most ''max_wind_speed_kn'' [''wind_speed_kn''],
      At_least ''min_reefer_temp_c'' [''reefer_temperature_c'', ''reefer_setpoint_c''],
      At_most ''max_reefer_temp_c'' [''reefer_temperature_c'', ''reefer_setpoint_c''],
      Denied ''require_customs_release'' ''customs_hold'', Denied ''require_no_security_hold'' ''security_hold'',
      Denied ''require_no_inspection_hold'' ''inspection_hold'', Proven ''require_vgm_verified'' ''vgm_verified'',
      Proven ''require_crane_exclusion_clear'' ''crane_exclusion_zone_clear'',
      Proven ''require_spreader_safe'' ''spreader_locked'', Denied ''require_berth_clear'' ''berth_conflict_present'',
      Proven ''require_tide_window_open'' ''tide_window_open'',
      Proven ''require_vessel_clearance'' ''vessel_clearance_granted'',
      Proven ''require_truck_appointment'' ''truck_appointment_valid'',
      Proven ''require_driver_identity'' ''driver_identity_verified'',
      Proven ''require_cold_chain_valid'' ''cold_chain_valid'',
      Proven ''require_shore_power_lockout'' ''shore_power_lockout_released'',
      Proven ''require_shore_power_isolated'' ''shore_power_isolated'',
      Proven ''require_fire_watch_ready'' ''fire_watch_ready'',
      Proven ''require_hazmat_route_approved'' ''hazmat_route_approved'',
      Proven ''require_gate_access_granted'' ''gate_access_granted'',
      Stated ''require_operator_identity'' ''operator_id'',
      Denied ''require_no_vendor_remote_session'' ''vendor_remote_session'']"

definition water_limits :: "limit list" where
  "water_limits =
     [Equal_to ''permitted_water_system_id'' ''water_system_id'', Equal_to ''permitted_facility_id'' ''facility_id'',
      Among ''permitted_pressure_zones'' [''pressure_zone_id''], Among ''permitted_process_areas'' [''process_area''],
      Among ''permitted_water_asset_types'' [''asset_type''],
      Among ''permitted_discharge_permit_ids'' [''discharge_permit_id''],
      At_most ''max_chlorine_dose_mg_l'' [''chlorine_dose_mg_l'', ''dose_mg_l''],
      At_least ''min_chlorine_residual_mg_l'' [''chlorine_residual_mg_l''],
      At_least ''min_pressure_psi'' [''pressure_psi''], At_most ''max_pressure_psi'' [''pressure_psi''],
      At_least ''min_tank_level_pct'' [''tank_level_pct''], At_most ''max_tank_level_pct'' [''tank_level_pct''],
      At_most ''max_wetwell_level_pct'' [''wetwell_level_pct''], At_most ''max_turbidity_ntu'' [''turbidity_ntu''],
      At_least ''min_ph'' [''ph''], At_most ''max_ph'' [''ph''], At_most ''max_sensor_age_ms'' [''sensor_age_ms''],
      At_most ''max_lab_sample_age_min'' [''lab_sample_age_min''], At_most ''max_flow_mgd'' [''flow_mgd''],
      At_least ''min_uv_intensity_pct'' [''uv_intensity_pct''], Proven ''require_water_scada_fresh'' ''scada_fresh'',
      Proven ''require_backflow_clear'' ''backflow_risk_clear'',
      Proven ''require_disinfection_active'' ''disinfection_active'',
      Proven ''require_chemical_inventory_ok'' ''chemical_inventory_ok'',
      Proven ''require_pump_available'' ''pump_available'',
      Proven ''require_valve_interlock_clear'' ''valve_interlock_clear'',
      Proven ''require_discharge_permit_window'' ''discharge_permit_window_open'',
      Denied ''require_no_bypass_active'' ''bypass_active'']"

definition aviation_limits :: "limit list" where
  "aviation_limits =
     [Equal_to ''permitted_airspace_id'' ''airspace_id'', Among ''permitted_airspace_classes'' [''airspace_class''],
      Among ''permitted_operation_volumes'' [''operation_volume_id''],
      Among ''permitted_flight_states'' [''flight_state''], At_most ''max_altitude_agl_ft'' [''altitude_agl_ft''],
      At_most ''max_groundspeed_kts'' [''groundspeed_kts''], At_least ''min_battery_soc_pct'' [''battery_soc_pct''],
      At_most ''max_wind_speed_kts'' [''wind_speed_kts''], At_least ''min_visibility_sm'' [''visibility_sm''],
      At_least ''min_ceiling_ft'' [''ceiling_ft''], At_most ''max_payload_kg'' [''payload_kg''],
      Proven ''require_geofence_active'' ''geofence_active'',
      Proven ''require_remote_id_broadcasting'' ''remote_id_broadcasting'', Proven ''require_daa_active'' ''daa_active'',
      Proven ''require_c2_link_healthy'' ''c2_link_healthy'',
      Proven ''require_airspace_authorization'' ''airspace_authorization_active'',
      Proven ''require_no_active_tfr'' ''no_active_tfr'', Proven ''require_vlos_or_waiver'' ''vlos_or_waiver'',
      Proven ''require_rtl_available'' ''rtl_available'', Proven ''require_vertiport_clearance'' ''vertiport_clearance'',
      Proven ''require_weather_within_limits'' ''weather_within_limits'',
      Proven ''require_ops_over_people_authorized'' ''ops_over_people_authorized'']"

definition robotics_limits :: "limit list" where
  "robotics_limits =
     [Equal_to ''permitted_workcell_id'' ''workcell_id'', Among ''permitted_robot_zones'' [''robot_zone''],
      Among ''permitted_operating_modes'' [''operating_mode''], Among ''permitted_robot_states'' [''robot_state''],
      At_most ''max_tcp_speed_mm_s'' [''tcp_speed_mm_s''], At_most ''max_force_n'' [''force_n''],
      At_most ''max_torque_nm'' [''torque_nm''], At_most ''max_power_w'' [''power_w''],
      At_least ''min_separation_distance_mm'' [''separation_distance_mm''],
      At_most ''max_com_deviation_mm'' [''com_deviation_mm''], At_most ''max_step_height_mm'' [''step_height_mm''],
      Proven ''require_estop_functional'' ''estop_functional'',
      Proven ''require_protective_stop_armed'' ''protective_stop_armed'', Proven ''require_ssm_active'' ''ssm_active'',
      Proven ''require_pfl_active'' ''pfl_active'',
      Proven ''require_collision_detection_active'' ''collision_detection_active'',
      Proven ''require_safety_scanner_active'' ''safety_scanner_active'',
      Proven ''require_balance_controller_active'' ''balance_controller_active'',
      Proven ''require_fall_protection_armed'' ''fall_protection_armed'',
      Proven ''require_teleop_link_healthy'' ''teleop_link_healthy'', Collaborative_mode]"

definition logistics_limits :: "limit list" where
  "logistics_limits =
     [Equal_to ''permitted_logistics_network_id'' ''logistics_network_id'',
      Among ''permitted_logistics_facility_ids'' [''origin_facility_id''],
      Among ''permitted_logistics_facility_ids'' [''destination_facility_id''],
      Among ''permitted_logistics_facility_ids'' [''current_facility_id''], Among ''permitted_route_ids'' [''route_id''],
      Among ''permitted_geofence_ids'' [''geofence_id''], Among ''permitted_carrier_ids'' [''carrier_id''],
      Among ''permitted_driver_ids'' [''driver_id''],
      Among ''permitted_cargo_classes'' [''cargo_class'', ''cargo_type''],
      Among ''permitted_logistics_hazmat_classes'' [''hazmat_class''],
      Among ''permitted_trailer_types'' [''trailer_type''], Among ''permitted_cdl_classes'' [''cdl_class''],
      At_most ''max_gross_weight_lbs'' [''gross_weight_lbs''], At_most ''max_cargo_value_usd'' [''cargo_value_usd''],
      At_most ''max_fuel_advance_usd'' [''fuel_advance_usd''],
      At_most ''max_accessorial_amount_usd'' [''accessorial_amount_usd''], At_most ''max_fraud_score'' [''fraud_score''],
      At_most ''max_double_broker_risk_score'' [''double_broker_risk_score''],
      At_most ''max_eld_event_age_ms'' [''eld_event_age_ms''], At_most ''max_telematics_age_ms'' [''telematics_age_ms''],
      At_most ''max_route_deviation_km'' [''route_deviation_km''],
      At_least ''min_remaining_drive_minutes'' [''remaining_drive_minutes'']]"

definition logistics_proof_limits :: "limit list" where
  "logistics_proof_limits =
     [Drive_time_left, At_least ''min_remaining_duty_minutes'' [''remaining_duty_minutes''],
      At_least ''min_reefer_temp_c'' [''cargo_temperature_c'', ''reefer_temperature_c''],
      At_most ''max_reefer_temp_c'' [''cargo_temperature_c'', ''reefer_temperature_c''],
      Proven ''require_driver_qualified'' ''driver_qualified'',
      Proven ''require_medical_card_valid'' ''medical_card_valid'',
      Proven ''require_carrier_authority_active'' ''carrier_authority_active'',
      Proven ''require_carrier_insurance_valid'' ''carrier_insurance_valid'',
      Proven ''require_broker_authority_active'' ''broker_authority_active'',
      Proven ''require_hos_available'' ''hos_available'', Proven ''require_eld_fresh'' ''eld_fresh'',
      Proven ''require_route_permitted'' ''route_permitted'',
      Proven ''require_restricted_area_clear'' ''restricted_area_clear'',
      Proven ''require_vehicle_maintenance_clear'' ''vehicle_maintenance_clear'',
      Proven ''require_dvir_clear'' ''dvir_clear'', Proven ''require_trailer_seal_intact'' ''trailer_seal_intact'',
      Proven ''require_cargo_secured'' ''cargo_secured'',
      Proven ''require_temperature_in_range'' ''temperature_in_range'', Hazmat_endorsed,
      Proven ''require_customs_clearance'' ''customs_clearance_present'',
      Proven ''require_logistics_appointment_valid'' ''appointment_valid'',
      Proven ''require_dock_available'' ''dock_available'',
      Proven ''require_yard_gate_access'' ''yard_gate_access_granted'',
      Proven ''require_fuel_card_active'' ''fuel_card_active'',
      Stated ''require_logistics_dispatcher_identity'' ''dispatcher_id'',
      Denied ''require_no_double_broker_risk'' ''double_broker_flag'']"

definition swarm_limits :: "limit list" where
  "swarm_limits =
     [Equal_to ''permitted_swarm_id'' ''swarm_id'', Among ''permitted_mission_classes'' [''mission_class''],
      At_least ''min_swarm_size'' [''swarm_size''], At_most ''max_swarm_size'' [''swarm_size''],
      At_most ''max_swarm_radius_m'' [''swarm_radius_m''], At_least ''min_unit_separation_m'' [''unit_separation_m''],
      At_most ''max_unit_separation_m'' [''unit_separation_m''],
      At_least ''min_swarm_battery_soc_pct'' [''swarm_battery_soc_min_pct''],
      At_least ''min_mesh_link_quality'' [''mesh_link_quality''], At_most ''max_mesh_hops'' [''mesh_hops''],
      At_most ''max_lost_link_seconds'' [''lost_link_seconds''],
      At_most ''max_authority_sync_age_ms'' [''authority_sync_age_ms''],
      Proven ''require_mesh_relay_healthy'' ''mesh_relay_healthy'',
      Proven ''require_fluidity_token_valid'' ''fluidity_token_valid'',
      Proven ''require_launch_readiness_approved'' ''launch_readiness_approved'',
      Proven ''require_recovery_plan_active'' ''recovery_plan_active'',
      Proven ''require_balloon_position_monitor_active'' ''balloon_position_monitor_active'',
      Proven ''require_balloon_within_envelope'' ''balloon_within_envelope'']"

definition healthcare_limits :: "limit list" where
  "healthcare_limits =
     [Equal_to ''permitted_healthcare_system_id'' ''healthcare_system_id'',
      Equal_to ''permitted_healthcare_facility_id'' ''facility_id'',
      Among ''permitted_clinical_units'' [''clinical_unit''],
      Among ''permitted_fhir_resource_types'' [''fhir_resource_type''], Among ''permitted_order_types'' [''order_type''],
      Among ''permitted_medication_classes'' [''medication_class''],
      Among ''permitted_healthcare_device_ids'' [''device_id''],
      Among ''permitted_phi_purposes'' [''phi_purpose'', ''tpo_basis''],
      At_most ''max_phi_record_count'' [''phi_record_count''], At_most ''max_claim_amount_usd'' [''claim_amount_usd''],
      At_most ''max_patient_message_risk_score'' [''patient_message_risk_score''],
      At_most ''max_clinical_context_age_ms'' [''clinical_context_age_ms''],
      At_most ''max_medication_reconciliation_age_ms'' [''medication_reconciliation_age_ms''],
      At_most ''max_device_telemetry_age_ms'' [''device_telemetry_age_ms''], Patient_context,
      Proven ''require_patient_identity_verified'' ''patient_identity_verified'', Basis_or_consent,
      Proven ''require_clinician_privilege_active'' ''clinician_privilege_active'',
      Proven ''require_pharmacist_authority'' ''pharmacist_authority_present'',
      Proven ''require_allergy_checked'' ''allergy_checked'',
      Denied ''require_no_allergy_conflict'' ''allergy_conflict'',
      Proven ''require_medication_interaction_clear'' ''medication_interaction_clear'',
      Proven ''require_order_signing_authority'' ''order_signing_authority'',
      Proven ''require_diagnosis_context'' ''diagnosis_context_present'',
      Proven ''require_device_safety_limits'' ''device_safety_limits_active'',
      Proven ''require_device_alarm_active'' ''alarm_active'',
      Proven ''require_privacy_officer_approval'' ''privacy_officer_approval'',
      Proven ''require_deidentification_valid'' ''deidentification_valid'', Break_glass_attested,
      Proven ''require_chart_lock_clear'' ''chart_lock_clear'',
      Proven ''require_human_review_for_patient_message'' ''human_review_present'',
      Proven ''require_claim_attestation'' ''claim_attestation_present'',
      Proven ''require_healthcare_audit_context'' ''audit_context_present'']"

definition title_limits :: "limit list" where
  "title_limits =
     [Among ''permitted_jurisdictions'' [''jurisdiction''], Among ''permitted_transaction_types'' [''transaction_type''],
      Among ''permitted_organization_kinds'' [''organization_kind''],
      At_most ''max_fraud_risk_score'' [''fraud_risk_score''],
      At_least ''min_identity_confidence_score'' [''identity_confidence_score''],
      At_most ''max_warrant_age_ms'' [''warrant_age_ms''],
      Proven ''require_dealer_license_active'' ''dealer_license_active'',
      Proven ''require_lender_active'' ''lender_active'',
      Proven ''require_lender_elt_participant'' ''lender_elt_participant'',
      Proven ''require_signer_authorized'' ''signer_authorized'', Proven ''require_nmvtis_passed'' ''nmvtis_passed'',
      Proven ''require_theft_flag_clear'' ''theft_flag_clear'',
      Proven ''require_odometer_disclosed'' ''odometer_disclosed'',
      Proven ''require_identity_verified'' ''identity_verified'',
      Proven ''require_authority_envelope_unrevoked'' ''authority_envelope_unrevoked'',
      Proven ''require_warrant_unused'' ''warrant_unused'',
      Proven ''require_required_forms_present'' ''required_forms_present'',
      Proven ''require_vin_inspection_present'' ''vin_inspection_present'',
      Proven ''require_state_supports_elt'' ''state_supports_elt'',
      Proven ''require_state_supports_digital_signature'' ''state_supports_digital_signature'',
      Proven ''require_digital_signature_accepted'' ''digital_signature_accepted'',
      Proven ''require_lien_exists'' ''lien_exists'',
      Proven ''require_lien_release_authority_active'' ''lien_release_authority_active'']"

definition cross_vertical_limits :: "limit list" where
  "cross_vertical_limits =
     [Geofence, Among ''permitted_model_ids'' [''model_id''], Among ''permitted_model_hashes'' [''model_hash'']]"

definition launch_limits :: "limit list" where
  "launch_limits =
     [Among ''permitted_launch_sites'' [''launch_site''], Among ''permitted_vehicle_classes'' [''vehicle_class''],
      At_most ''max_surface_wind_kts'' [''surface_wind_kts''],
      At_most ''max_upper_wind_shear_kts_per_kft'' [''upper_wind_shear_kts_per_kft''],
      At_most ''max_q_kpa'' [''expected_max_q_kpa''], Proven ''require_range_clear'' ''range_clear'',
      Proven ''require_fts_armed'' ''fts_armed'', Proven ''require_afts_nominal'' ''afts_nominal'',
      Proven ''require_fts_battery_ok'' ''fts_battery_ok'', Proven ''require_fts_rf_link_ok'' ''fts_rf_link_ok'',
      Proven ''require_propellant_temp_in_spec'' ''propellant_temp_k_within_spec'',
      Proven ''require_itar_cleared'' ''itar_cleared'', Proven ''require_comms_licensed'' ''comms_licensed'',
      Proven ''require_hazard_area_cleared'' ''hazard_area_cleared'',
      Proven ''require_tracking_radar_acquired'' ''tracking_radar_acquired'',
      Proven ''require_range_commander_go'' ''range_commander_go'']"

definition orbital_limits :: "limit list" where
  "orbital_limits =
     [Among ''permitted_space_asset_ids'' [''asset_id''], Among ''permitted_orbit_regimes'' [''orbit_regime''],
      Among ''permitted_space_mission_classes'' [''mission_class''],
      Among ''permitted_ground_station_ids'' [''ground_station_id''], Among ''permitted_rf_bands'' [''rf_band''],
      Among ''permitted_payload_modes'' [''payload_mode''], At_most ''max_delta_v_mps'' [''delta_v_mps''],
      At_most ''max_burn_duration_s'' [''burn_duration_s''],
      At_most ''max_conjunction_probability'' [''conjunction_probability''],
      At_least ''min_miss_distance_km'' [''miss_distance_km''], At_least ''min_power_margin_pct'' [''power_margin_pct''],
      At_most ''max_ephemeris_age_ms'' [''ephemeris_age_ms''],
      At_most ''max_command_window_age_ms'' [''command_window_age_ms''],
      Proven ''require_conjunction_screening_clear'' ''conjunction_screening_clear'',
      Proven ''require_debris_mitigation_plan'' ''debris_mitigation_plan_approved'',
      Proven ''require_rf_authorization'' ''rf_authorization_active'',
      Proven ''require_ground_station_authorized'' ''ground_station_authorized'', Ephemeris_known,
      Proven ''require_attitude_control_stable'' ''attitude_control_stable'',
      Proven ''require_safe_mode_available'' ''safe_mode_available'', Power_positive,
      Proven ''require_thermal_limits_nominal'' ''thermal_limits_nominal'',
      Proven ''require_operator_console_locked'' ''operator_console_locked'',
      Proven ''require_payload_tasking_authorized'' ''payload_tasking_authorized'',
      Proven ''require_export_control_clearance'' ''export_control_clearance'',
      Proven ''require_deorbit_plan_approved'' ''deorbit_plan_approved'',
      Proven ''require_collision_avoidance_enabled'' ''collision_avoidance_enabled'']"

definition declared_limits :: "limit list" where
  "declared_limits =
     vehicle_grid_limits @ rail_limits @ pipeline_limits @ mining_limits @ port_limits @ water_limits @
     aviation_limits @ robotics_limits @ logistics_limits @ logistics_proof_limits @ swarm_limits @
     healthcare_limits @ title_limits @ cross_vertical_limits @ launch_limits @ orbital_limits"

definition hard_interlocks :: "string list" where
  "hard_interlocks =
     [''drone.disable_geofence'', ''vehicle.disable_safety_envelope'', ''vehicle.override.mrc'',
      ''grid.disable_protection'', ''relay.protection.disable'', ''rail.disable_ptc'',
      ''ptc.override.enforcement'', ''signal.force_clear'', ''switch.force_unlock'',
      ''pipeline.disable_leak_detection'', ''leak_detection.disable'', ''pipeline.disable_overpressure_protection'',
      ''pressure.relief.disable'', ''pipeline.disable_esd'', ''esd.override'',
      ''pipeline.isolation.bypass'', ''pump.overpressure_override'', ''compressor.safety_shutdown_disable'',
      ''mining.disable_proximity_detection'', ''proximity_detection.disable'', ''mining.disable_gas_monitoring'',
      ''gas_monitoring.disable'', ''mining.disable_ventilation'', ''ventilation.force_off'',
      ''mining.disable_ground_control_monitoring'', ''mining.disable_tailings_monitoring'', ''piezometer.disable'',
      ''hoist.disable_overspeed_protection'', ''blast.force_initiate'', ''port.disable_crane_interlock'',
      ''crane.override_exclusion_zone'', ''customs.force_release_hold'', ''gate.force_open'',
      ''shore-power.force_energize'', ''pnt.override_confidence'', ''water.disable_disinfection'',
      ''chemical.force_overfeed'', ''plc.force_override'', ''valve.force_open'',
      ''pump.force_run_dry'', ''wastewater.bypass.force_open'', ''uas.disable_geofence'',
      ''geofence.disable'', ''uas.disable_detect_and_avoid'', ''daa.disable'',
      ''uas.disable_remote_id'', ''remote_id.disable'', ''uas.override_airspace_authorization'',
      ''airspace.override'', ''uas.disable_return_to_home'', ''rtl.disable'',
      ''failsafe.disable'', ''uas.override_c2_link_loss_failsafe'', ''uas.enter_active_tfr'',
      ''tfr.override'', ''evtol.disable_flight_envelope_protection'', ''robot.disable_estop'',
      ''estop.disable'', ''emergency_stop.disable'', ''robot.disable_protective_stop'',
      ''protective_stop.disable'', ''robot.override_speed_separation_monitoring'', ''ssm.override'',
      ''robot.override_power_force_limiting'', ''pfl.override'', ''robot.disable_collision_detection'',
      ''collision_detection.disable'', ''robot.disable_safety_scanner'', ''safety_scanner.disable'',
      ''robot.override_safety_zone'', ''safety_zone.override'', ''humanoid.disable_balance_controller'',
      ''balance.override'', ''humanoid.disable_fall_protection'', ''logistics.dispatch_over_hos'',
      ''eld.disable'', ''carrier.vetting.override'', ''driver.qualification.override'',
      ''hazmat.route.override'', ''coldchain.temp_alarm.override'', ''pod.force_accept'',
      ''payment.force_release'', ''fuel.unbounded_advance'', ''yard.force_gate_open'',
      ''load.double_broker.override'', ''telematics.spoof_override'', ''swarm.disable_mesh'',
      ''mesh.disable'', ''swarm.disable_revocation_propagation'', ''mesh.revocation.disable'',
      ''swarm.override_lost_link_failsafe'', ''lost_link_failsafe.override'', ''swarm.bypass_launch_readiness'',
      ''launch_readiness.bypass'', ''swarm.override_fluidity_token'', ''fluidity_token.override'',
      ''swarm.disable_evidence_ledger'', ''swarm.force_payload_release_without_authorization'', ''balloon.disable_position_monitor'',
      ''balloon.override_envelope_protection'', ''medication.override_allergy'', ''pharmacy.force_dispense_controlled_substance'',
      ''device.disable_alarm'', ''device.disable_safety_limit'', ''ehr.delete_patient_record'',
      ''phi.export_without_consent'', ''claims.force_submit_without_attestation'', ''research.export_identified_dataset'',
      ''order.force_without_clinician_authority'', ''ehr.modify_record_without_patient_context'', ''title.override_lien_release'',
      ''lien_release.override'', ''title.bypass_nmvtis'', ''nmvtis.disable'',
      ''title.bypass_theft_check'', ''theft_check.disable'', ''title.bypass_state_rules'',
      ''state_rule.override'', ''title.override_dealer_license'', ''dealer_license.override'',
      ''title.override_odometer_disclosure'', ''odometer.bypass'', ''title.disable_identity_verification'',
      ''identity.disable'', ''signature.bypass_jurisdiction_acceptance'', ''digital_signature.bypass'',
      ''warrant.reuse_attempt'', ''warrant.replay'', ''space.disable_flight_termination'',
      ''fts.disable'', ''space.override_range_safety'', ''range_safety.override'',
      ''space.bypass_collision_avoidance'', ''collision_avoidance.disable'', ''space.ignite_outside_window'',
      ''space.bypass_wind_limits'', ''wind_limits.override'', ''space.override_propellant_limits'',
      ''propellant_limits.override'', ''space.bypass_pad_interlocks'', ''pad_interlocks.override'',
      ''space.payload_deploy_outside_primary'', ''space.disable_safe_mode'', ''satellite.disable_safe_mode'',
      ''space.disable_collision_avoidance'', ''space.disable_conjunction_screening'', ''conjunction_screening.disable'',
      ''space.rf_transmit_without_authorization'', ''rf.authorization.bypass'', ''space.force_deorbit_without_approval'',
      ''deorbit.override'', ''space.payload_task_denied_target'', ''payload.targeting.override'',
      ''space.bypass_export_control'', ''export_control.bypass'', ''space.disable_evidence'',
      ''satellite.force_burn_without_warrant'']"

section \<open>An accepted action respects them\<close>

lemma accepted_iff:
  "pir_ok (evaluatePhysicalInvariants a (Some b)) \<longleftrightarrow> physical_failure a b = None"
  by (simp add: evaluatePhysicalInvariants_def split: option.splits)

text \<open>A check passes exactly when its limit is respected, for each shape of a check.\<close>

named_theorems check_respects \<open>a check passes exactly when its limit is respected\<close>

lemma bound_of_json:
  "num_bound b k = (case obj_get b k of JNum x \<Rightarrow> Some x | _ \<Rightarrow> None)"
  "str_bound b k = (case obj_get b k of JStr x \<Rightarrow> Some x | _ \<Rightarrow> None)"
  "list_bound b k = (case obj_get b k of JArr x \<Rightarrow> Some x | _ \<Rightarrow> None)"
  by (simp_all add: num_bound_def str_bound_def list_bound_def split: json.split)

lemma param_of_json:
  "numericParam a p = (case obj_get (act_params a) p of JNum x \<Rightarrow> Some x | _ \<Rightarrow> None)"
  "stringParam a p = (case obj_get (act_params a) p of JStr x \<Rightarrow> Some x | _ \<Rightarrow> None)"
  "booleanParam a p = (case obj_get (act_params a) p of JBool x \<Rightarrow> Some x | _ \<Rightarrow> None)"
  by (simp_all add: numericParam_def stringParam_def booleanParam_def split: json.split)

lemma stated_param:
  "numericParam a p = stated_number a [p]" "stringParam a p = stated_text a [p]"
  "coalesce (stated_number a ps) (stated_number a qs) = stated_number a (ps @ qs)"
  "coalesce (stated_text a ps) (stated_text a qs) = stated_text a (ps @ qs)"
  by (simp_all add: param_of_json split: json.split, induction ps, simp_all split: json.split, induction ps, simp_all split: json.split)

lemma stated_shapes:
  "above (num_bound b k) (stated_number a ps) d = None \<longleftrightarrow> honours a b (At_most k ps)"
  "below (num_bound b k) (stated_number a ps) d' = None \<longleftrightarrow> honours a b (At_least k ps)"
  "outside (list_bound b k) (stated_text a ps) d'' = None \<longleftrightarrow> honours a b (Among k ps)"
  by (simp_all add: bound_of_json split: json.split option.split)

lemma one_param [check_respects]:
  "above (num_bound b k) (numericParam a p) d = None \<longleftrightarrow> honours a b (At_most k [p])"
  "below (num_bound b k) (numericParam a p) d = None \<longleftrightarrow> honours a b (At_least k [p])"
  "outside (list_bound b k) (stringParam a p) d' = None \<longleftrightarrow> honours a b (Among k [p])"
  by (simp_all only: stated_param stated_shapes)

lemma two_params [check_respects]:
  "above (num_bound b k) (coalesce (numericParam a p) (numericParam a q)) d = None \<longleftrightarrow> honours a b (At_most k [p, q])"
  "below (num_bound b k) (coalesce (numericParam a p) (numericParam a q)) d = None \<longleftrightarrow> honours a b (At_least k [p, q])"
  "outside (list_bound b k) (coalesce (stringParam a p) (stringParam a q)) d' = None \<longleftrightarrow> honours a b (Among k [p, q])"
  by (simp_all only: stated_param stated_shapes append.simps)

lemma three_params [check_respects]:
  "above (num_bound b k) (coalesce (numericParam a p) (coalesce (numericParam a q) (numericParam a r))) d = None \<longleftrightarrow>
     honours a b (At_most k [p, q, r])"
  "outside (list_bound b k) (coalesce (stringParam a p) (coalesce (stringParam a q) (stringParam a r))) d' = None \<longleftrightarrow>
     honours a b (Among k [p, q, r])"
  by (simp_all only: stated_param stated_shapes append.simps)

lemma param_shapes [check_respects]:
  "unproven (flag_bound b k) (booleanParam a p) t = None \<longleftrightarrow> honours a b (Proven k p)"
  "asserted (flag_bound b k) (booleanParam a p) t = None \<longleftrightarrow> honours a b (Denied k p)"
  "unstated (flag_bound b k) (stringParam a p) t = None \<longleftrightarrow> honours a b (Stated k p)"
  by (auto simp: check_pass param_of_json flag_bound_def holds_def neq_Nil_conv split: json.split)

lemma identity_shape [check_respects]: "mismatch (str_bound b k) (stringParam a p) d = None \<longleftrightarrow> honours a b (Equal_to k p)"
  by (simp add: bound_of_json param_of_json split: json.split)

lemma special_shapes [check_respects]:
  "fail_if (flag_bound b ''require_signal_not_stop'' \<and> stringParam a ''signal_aspect'' = Some ''stop'') t = None \<longleftrightarrow>
     honours a b Signal_clear"
  "fail_if (flag_bound b ''require_collaborative_mode_when_human_present'' \<and> booleanParam a ''human_present'' = Some True
     \<and> stringParam a ''operating_mode'' \<noteq> Some ''collaborative'') t = None \<longleftrightarrow> honours a b Collaborative_mode"
  "fail_if (flag_bound b ''require_logistics_hazmat_endorsement'' \<and> str_truthy (stringParam a ''hazmat_class'') \<and>
     stringParam a ''hazmat_class'' \<noteq> Some ''none'' \<and> booleanParam a ''hazmat_endorsement_valid'' \<noteq> Some True) t = None \<longleftrightarrow>
     honours a b Hazmat_endorsed"
  "fail_if (flag_bound b ''require_patient_context'' \<and> (\<not> str_truthy (stringParam a ''patient_context_hash'')
     \<or> booleanParam a ''patient_context_present'' \<noteq> Some True)) t = None \<longleftrightarrow> honours a b Patient_context"
  "fail_if (flag_bound b ''require_break_glass_attestation'' \<and> stringParam a ''tpo_basis'' = Some ''emergency''
     \<and> booleanParam a ''break_glass_attested'' \<noteq> Some True) t = None \<longleftrightarrow> honours a b Break_glass_attested"
  "fail_if (flag_bound b ''require_ephemeris_fresh'' \<and> numericParam a ''ephemeris_age_ms'' = None) t = None \<longleftrightarrow>
     honours a b Ephemeris_known"
  "fail_if (flag_bound b ''require_power_margin_positive'' \<and> \<not> positive (numericParam a ''power_margin_pct'')) t = None \<longleftrightarrow>
     honours a b Power_positive"
  by (auto simp: check_pass param_of_json flag_bound_def holds_def neq_Nil_conv split: json.splits if_splits)

lemma drive_time_shape:
  "above (numericParam a ''remaining_drive_minutes'') (numericParam a ''required_drive_minutes'') d = None \<longleftrightarrow>
     honours a b Drive_time_left"
  by (simp add: param_of_json split: json.split)

lemma basis_shape [check_respects]:
  "fail_if (flag_bound b ''require_tpo_basis_or_consent'' \<and> booleanParam a ''patient_consent_valid'' \<noteq> Some True
     \<and> coalesce (stringParam a ''phi_purpose'') (stringParam a ''tpo_basis'') \<notin>
       Some ` {''treatment'', ''payment'', ''operations'', ''prior-authorization'', ''emergency''}) t = None \<longleftrightarrow>
     honours a b Basis_or_consent"
proof -
  have consent: "booleanParam a ''patient_consent_valid'' = Some True \<longleftrightarrow> holds a ''patient_consent_valid''"
    by (simp add: param_of_json holds_def split: json.split)
  show ?thesis
    unfolding fail_if_None stated_param append.simps consent flag_bound_def
    by (auto split: option.split)
qed

lemma geofence_shape [check_respects]: "geofence_check a b = None \<longleftrightarrow> honours a b Geofence"
proof -
  have "(case (as_pair (obj_get b ''geofence_center''), num_bound b ''geofence_radius_km'') of
      (Some c, Some r) \<Rightarrow> Some (c, r) | _ \<Rightarrow> None) = declared_circle b"
    by (simp add: declared_circle_def bound_of_json split: option.split json.split)
  then show ?thesis
    by (auto simp: geofence_check_def inside_geofence_def Let_def not_less split: option.split if_splits)
qed

lemma vehicle_grid_exact: "vehicle_grid_invariants a b = None \<longleftrightarrow> list_all (honours a b) vehicle_grid_limits"
  by (simp only: vehicle_grid_invariants_def vehicle_grid_limits_def first_failure_None list.pred_inject check_respects)

lemma rail_exact: "rail_invariants a b = None \<longleftrightarrow> list_all (honours a b) rail_limits"
  by (simp only: rail_invariants_def rail_limits_def first_failure_None list.pred_inject check_respects)

lemma pipeline_exact: "pipeline_invariants a b = None \<longleftrightarrow> list_all (honours a b) pipeline_limits"
  by (simp only: pipeline_invariants_def pipeline_limits_def first_failure_None list.pred_inject check_respects)

lemma mining_exact: "mining_invariants a b = None \<longleftrightarrow> list_all (honours a b) mining_limits"
  by (simp only: mining_invariants_def mining_limits_def first_failure_None list.pred_inject check_respects)

lemma port_exact: "port_invariants a b = None \<longleftrightarrow> list_all (honours a b) port_limits"
  by (simp only: port_invariants_def port_limits_def first_failure_None list.pred_inject check_respects)

lemma water_exact: "water_invariants a b = None \<longleftrightarrow> list_all (honours a b) water_limits"
  by (simp only: water_invariants_def water_limits_def first_failure_None list.pred_inject check_respects)

lemma aviation_exact: "aviation_invariants a b = None \<longleftrightarrow> list_all (honours a b) aviation_limits"
  by (simp only: aviation_invariants_def aviation_limits_def first_failure_None list.pred_inject check_respects)

lemma robotics_exact: "robotics_invariants a b = None \<longleftrightarrow> list_all (honours a b) robotics_limits"
  by (simp only: robotics_invariants_def robotics_limits_def first_failure_None list.pred_inject check_respects)

lemma logistics_exact: "logistics_invariants a b = None \<longleftrightarrow> list_all (honours a b) logistics_limits"
  by (simp only: logistics_invariants_def logistics_limits_def first_failure_None list.pred_inject check_respects)

lemma logistics_proof_exact: "logistics_proof_invariants a b = None \<longleftrightarrow> list_all (honours a b) logistics_proof_limits"
  by (simp only: logistics_proof_invariants_def logistics_proof_limits_def first_failure_None list.pred_inject check_respects
      drive_time_shape[of a _ b])

lemma swarm_exact: "swarm_invariants a b = None \<longleftrightarrow> list_all (honours a b) swarm_limits"
  by (simp only: swarm_invariants_def swarm_limits_def first_failure_None list.pred_inject check_respects)

lemma healthcare_exact: "healthcare_invariants a b = None \<longleftrightarrow> list_all (honours a b) healthcare_limits"
  by (simp only: healthcare_invariants_def healthcare_limits_def first_failure_None list.pred_inject check_respects)

lemma title_exact: "title_invariants a b = None \<longleftrightarrow> list_all (honours a b) title_limits"
  by (simp only: title_invariants_def title_limits_def first_failure_None list.pred_inject check_respects)

lemma cross_vertical_exact: "cross_vertical_invariants a b = None \<longleftrightarrow> list_all (honours a b) cross_vertical_limits"
  by (simp only: cross_vertical_invariants_def cross_vertical_limits_def first_failure_None list.pred_inject check_respects)

lemma launch_exact: "launch_invariants a b = None \<longleftrightarrow> list_all (honours a b) launch_limits"
  by (simp only: launch_invariants_def launch_limits_def first_failure_None list.pred_inject check_respects)

lemma orbital_exact: "orbital_invariants a b = None \<longleftrightarrow> list_all (honours a b) orbital_limits"
  by (simp only: orbital_invariants_def orbital_limits_def first_failure_None list.pred_inject check_respects)

lemmas verticals_exact =
  vehicle_grid_exact rail_exact pipeline_exact mining_exact port_exact water_exact aviation_exact
  robotics_exact logistics_exact logistics_proof_exact swarm_exact healthcare_exact title_exact
  cross_vertical_exact launch_exact orbital_exact

lemma physical_failure_None:
  "physical_failure a b = None \<longleftrightarrow>
     interlocks_industrial (act_action_type a) = None \<and> interlocks_mission (act_action_type a) = None \<and>
     vehicle_grid_invariants a b = None \<and>
     rail_invariants a b = None \<and>
     pipeline_invariants a b = None \<and>
     mining_invariants a b = None \<and>
     port_invariants a b = None \<and>
     water_invariants a b = None \<and>
     aviation_invariants a b = None \<and>
     robotics_invariants a b = None \<and>
     logistics_invariants a b = None \<and>
     logistics_proof_invariants a b = None \<and>
     swarm_invariants a b = None \<and>
     healthcare_invariants a b = None \<and>
     title_invariants a b = None \<and>
     cross_vertical_invariants a b = None \<and>
     launch_invariants a b = None \<and>
     orbital_invariants a b = None"
  by (simp add: physical_failure_def first_failure_None)

lemma interlocks_exact: "interlocks_industrial t = None \<and> interlocks_mission t = None \<longleftrightarrow> t \<notin> set hard_interlocks"
  by (simp add: interlocks_industrial_def interlocks_mission_def first_failure_None fail_if_None hard_interlocks_def)

lemma physical_failure_exact:
  "physical_failure a b = None \<longleftrightarrow> list_all (honours a b) declared_limits \<and> act_action_type a \<notin> set hard_interlocks"
  unfolding physical_failure_None verticals_exact interlocks_exact[symmetric] declared_limits_def list_all_append by blast

lemma accepted_respects: "physical_failure a b = None \<Longrightarrow> list_all (honours a b) declared_limits"
  by (simp add: physical_failure_exact)

text \<open>The invariants read the action type and the parameters only.\<close>

lemma physical_cong:
  assumes "act_params a = act_params a'" "act_action_type a = act_action_type a'"
  shows "evaluatePhysicalInvariants a b = evaluatePhysicalInvariants a' b"
proof -
  have "numericParam a = numericParam a'" "stringParam a = stringParam a'" "booleanParam a = booleanParam a'"
    "extractCoords a = extractCoords a'"
    using assms(1) by (auto simp: fun_eq_iff numericParam_def stringParam_def booleanParam_def extractCoords_def)
  then show ?thesis
    by (simp only: evaluatePhysicalInvariants_def physical_failure_def vertical_defs geofence_check_def assms(2))
qed

section \<open>Properties\<close>

text \<open>
  C12 The physical checks are exactly the declared limits: under declared bounds an action is accepted if
  and only if it respects every one of the 358 limits a Ward may declare - ceilings, floors, permitted
  values, fixed identities, required proofs, forbidden conditions, required statements, the geofence and
  the rules of a particular shape - and its type is not one of the 157 interlocked ones.  A ceiling or
  floor over several parameters concerns the first of them the action states.  The bounds count at the
  types the interface declares for them; a bound of another type limits nothing here.
\<close>

theorem physical_limits_enforced:
  "pir_ok (evaluatePhysicalInvariants a (Some b)) \<longleftrightarrow>
     list_all (honours a b) declared_limits \<and> act_action_type a \<notin> set hard_interlocks"
  unfolding accepted_iff physical_failure_exact ..

text \<open>
  The verdict: without declared bounds every action is accepted; otherwise a refusal carries exactly
  the code \<open>PHYSICAL_INVARIANT_FAILED\<close> and the text of a failed check, an acceptance carries no code,
  and an interlocked action type is refused whatever its parameters and the bounds are.
\<close>

theorem physical_verdict:
  "pir_ok (evaluatePhysicalInvariants a None) \<and>
   (let r = evaluatePhysicalInvariants a (Some b)
    in (if pir_ok r then pir_reason_codes r = [] \<and> physical_failure a b = None
        else pir_reason_codes r = [PHYSICAL_INVARIANT_FAILED] \<and> physical_failure a b = Some (pir_detail r)) \<and>
       (act_action_type a \<in> set hard_interlocks \<longrightarrow> \<not> pir_ok r))"
proof (cases "physical_failure a b")
  case None
  then have "act_action_type a \<notin> set hard_interlocks"
    by (simp add: physical_failure_exact)
  with None show ?thesis by (simp add: evaluatePhysicalInvariants_def Let_def)
qed (simp add: evaluatePhysicalInvariants_def Let_def)

text \<open>
  On an axis-parallel rectangle the ray-casting point-in-polygon test is membership in the
  half-open rectangle.
\<close>

theorem geofence_rectangle:
  assumes "x0 < x1" "y0 < y1"
  shows "pointInPolygon (px, py) [(x0, y0), (x1, y0), (x1, y1), (x0, y1)] \<longleftrightarrow>
     x0 \<le> px \<and> px < x1 \<and> y0 \<le> py \<and> py < y1"
  using assms by (rule pointInPolygon_rectangle)

theorem geofence_rectangle_witness:
  "pointInPolygon (1, 2) [(0, 0), (3, 0), (3, 4), (0, 4)] \<and> \<not> pointInPolygon (3, 2) [(0, 0), (3, 0), (3, 4), (0, 4)]"
  using geofence_rectangle[of 0 3 0 4 1 2] geofence_rectangle[of 0 3 0 4 3 2] by simp

text \<open>An action without parameters, under a Ward that only declares a ceiling, is accepted.\<close>

lemma sample_accepted:
  "pir_ok (evaluatePhysicalInvariants (sample_action \<lparr> act_params := [(''altitude_m'', JNum 90)] \<rparr>)
     (Some [(''max_altitude_m'', JNum 120)]))"
  unfolding accepted_iff physical_failure_None
  by (simp add: vertical_defs interlocks_industrial_def interlocks_mission_def sample_action_def check_pass
      num_bound_def str_bound_def flag_bound_def list_bound_def numericParam_def stringParam_def booleanParam_def
      js_simps geofence_check_def)

theorem physical_verdict_witness:
  "\<not> pir_ok (evaluatePhysicalInvariants (sample_action \<lparr> act_action_type := ''estop.disable'' \<rparr>) (Some []))"
  using physical_verdict[of "sample_action \<lparr> act_action_type := ''estop.disable'' \<rparr>" "[]"]
  by (simp add: Let_def hard_interlocks_def)

end
