(* ===== verification/Commit_Gate.thy ===== *)
theory Commit_Gate
  imports Physical
begin

text \<open>
  The Commit Gate of \<open>execution-control-runtime/src/index.ts\<close>: \<open>evaluateCommitGate\<close>, \<open>refuse\<close>,
  \<open>missingRuntimeRegisters\<close>, \<open>getPath\<close> and \<open>constraintsPass\<close>.  The theorems give the exact condition
  under which the gate admits an action, which reason codes each decision carries, and that a denial
  overrides a grant.

  Property lookup models own properties: names inherited from \<open>Object.prototype\<close> and from the array
  prototype are outside the model.
\<close>

section \<open>Input\<close>

record CommitGateInput =
  ci_ward :: "WardManifest option"
  ci_authorityEnvelope :: "AuthorityEnvelope option"
  ci_action :: CanonicalActionInput
  ci_runtimeRegister :: "RuntimeRegister option"
  ci_now :: "iso_time option"
  ci_degradedConditions :: "DegradationCondition list option"

section \<open>Runtime registers and constraints\<close>

text \<open>\<open>{ ...a, ...b }\<close> as far as lookup sees it: the later object wins.\<close>

definition spread :: "jsobject \<Rightarrow> jsobject \<Rightarrow> jsobject" where
  "spread a b = b @ a"

text \<open>Own properties of a value: those of an object, the indices and the length of an array.\<close>

fun own_property :: "json \<Rightarrow> string \<Rightarrow> json" where
  "own_property (JObj es) k = obj_get es k"
| "own_property (JArr vs) k =
     (if is_array_index k \<and> digits_val k < length vs then vs ! digits_val k
      else if k = ''length'' then JNum (of_nat (length vs)) else JUndef)"
| "own_property v k = JUndef"

definition getPath :: "json \<Rightarrow> string \<Rightarrow> json" where
  "getPath source dottedPath = foldl own_property source (split_on (CHR ''.'') dottedPath)"

fun record_fields :: "json \<Rightarrow> jsobject" where
  "record_fields (JObj es) = es"
| "record_fields _ = []"

definition combined_registers :: "CanonicalActionInput \<Rightarrow> RuntimeRegister \<Rightarrow> jsobject" where
  "combined_registers action rr =
     spread rr
       [(''telemetry'', JObj (spread (record_fields (obj_get rr ''telemetry''))
                                (case act_telemetry action of Some t \<Rightarrow> t | None \<Rightarrow> []))),
        (''registers'', not_nullish (obj_get rr ''registers'') (JObj []))]"

definition missingRuntimeRegisters ::
  "AuthorityEnvelope \<Rightarrow> CanonicalActionInput \<Rightarrow> RuntimeRegister \<Rightarrow> string list" where
  "missingRuntimeRegisters envelope action rr =
     (case obj_get (ae_constraints envelope) ''required_runtime_registers'' of
        JArr required \<Rightarrow>
          filter (\<lambda>item. getPath (JObj (combined_registers action rr)) item = JUndef)
            (List.map_filter as_string required)
      | _ \<Rightarrow> [])"

definition numericConstraint :: "AuthorityEnvelope \<Rightarrow> string \<Rightarrow> rat option" where
  "numericConstraint envelope k = as_number (obj_get (ae_constraints envelope) k)"

definition constraintsPass :: "AuthorityEnvelope \<Rightarrow> CanonicalActionInput \<Rightarrow> bool" where
  "constraintsPass envelope action =
     (if (case (numericConstraint envelope ''max_amount'', numericParam action ''amount'') of
            (Some maxAmount, Some amount) \<Rightarrow> amount > maxAmount | _ \<Rightarrow> False)
      then False
      else (case obj_get (ae_constraints envelope) ''allowed_targets'' of
              JArr ts \<Rightarrow> JStr (act_target action) \<in> set ts | _ \<Rightarrow> True))"

section \<open>The gate\<close>

definition refuse ::
  "ExecutionControlDecision \<Rightarrow> ExecutionControlReasonCode list \<Rightarrow> CanonicalAction \<Rightarrow> RuntimeRegister
   \<Rightarrow> WardManifest option \<Rightarrow> AuthorityEnvelope option \<Rightarrow> CommitGateDecision" where
  "refuse decision reason_codes canonical snapshot ward envelope =
     \<lparr> cg_decision = decision,
       cg_reason_codes = reason_codes,
       cg_canonical_action_hash = ca_canonical_action_hash canonical,
       cg_policy_version = map_option wm_policy_version ward,
       cg_authority_envelope_id = map_option ae_envelope_id envelope,
       cg_runtime_register_snapshot = snapshot,
       cg_physical_invariant_result = None \<rparr>"

text \<open>
  \<open>stableNormalize(input.runtimeRegister ?? {})\<close>.
\<close>

definition register_snapshot :: "platform \<Rightarrow> RuntimeRegister option \<Rightarrow> RuntimeRegister result" where
  "register_snapshot P rr =
     bind_result (stableNormalize P (JObj (case rr of Some r \<Rightarrow> r | None \<Rightarrow> []))) (\<lambda>v. Inr (record_fields v))"

text \<open>The degraded-mode verdict: the fail action, when some condition is active.\<close>

definition degraded_action :: "WardManifest \<Rightarrow> DegradationCondition list option \<Rightarrow> FailAction" where
  "degraded_action ward conditions =
     (case conditions of
        Some (c # cs) \<Rightarrow> fm_action (resolveFailMode DEFAULT_FAIL_MODE_POLICY (wm_criticality ward) (Some (c # cs)))
      | _ \<Rightarrow> allow)"

text \<open>The checks after the Ward and the degraded mode are settled, in the order of the source.\<close>

definition gate_with_envelope ::
  "platform \<Rightarrow> int option \<Rightarrow> CanonicalActionInput \<Rightarrow> CanonicalAction \<Rightarrow> RuntimeRegister \<Rightarrow> WardManifest
   \<Rightarrow> AuthorityEnvelope \<Rightarrow> CommitGateDecision" where
  "gate_with_envelope P nowMs action canonical snapshot ward envelope =
     (let refuse' = (\<lambda>d r. refuse d r canonical snapshot (Some ward) (Some envelope));
          physical = evaluatePhysicalInvariants action (wm_physical_bounds ward)
      in if ae_ward_id envelope \<noteq> wm_ward_id ward \<or> ae_subject envelope \<noteq> act_subject action
         then refuse' REFUSE [ACTION_NOT_ALLOWED]
         else if truthy (obj_get snapshot ''policy_version'') \<and>
                 obj_get snapshot ''policy_version'' \<noteq> JStr (wm_policy_version ward)
         then refuse' ESCALATE [POLICY_VERSION_MISMATCH]
         else if nan_le (date_parse P (ae_expires_at envelope)) nowMs
         then refuse' REFUSE [ENVELOPE_EXPIRED]
         else if missingRuntimeRegisters envelope action snapshot \<noteq> []
         then refuse' ESCALATE [RUNTIME_STATE_MISSING]
         else if act_action_type action \<in> set (ae_denied_actions envelope)
         then refuse' REFUSE [ACTION_DENIED]
         else if act_action_type action \<notin> set (ae_allowed_actions envelope)
         then refuse' REFUSE [ACTION_NOT_ALLOWED]
         else if \<not> constraintsPass envelope action
         then refuse' REFUSE [CONSTRAINT_FAILED]
         else if \<not> pir_ok physical
         then (refuse' REFUSE [PHYSICAL_INVARIANT_FAILED]) \<lparr> cg_physical_invariant_result := Some physical \<rparr>
         else if enforceClassification [wm_classification ward, ae_classification envelope]
                   (act_classification action) \<noteq> ClassificationOk
         then refuse' REFUSE [CLASSIFICATION_VIOLATION]
         else \<lparr> cg_decision = ALLOW,
                cg_reason_codes = [ALLOWED],
                cg_canonical_action_hash = ca_canonical_action_hash canonical,
                cg_policy_version = Some (wm_policy_version ward),
                cg_authority_envelope_id = Some (ae_envelope_id envelope),
                cg_runtime_register_snapshot = snapshot,
                cg_physical_invariant_result = Some physical \<rparr>)"

definition gate_decision ::
  "platform \<Rightarrow> int option \<Rightarrow> CommitGateInput \<Rightarrow> CanonicalAction \<Rightarrow> RuntimeRegister \<Rightarrow> CommitGateDecision" where
  "gate_decision P nowMs input canonical snapshot =
     (case ci_ward input of
        None \<Rightarrow> refuse REFUSE [WARD_NOT_FOUND] canonical snapshot None None
      | Some ward \<Rightarrow>
          if act_subject (ci_action input) \<notin> set (wm_permitted_subjects ward)
          then refuse REFUSE [SUBJECT_NOT_IN_WARD] canonical snapshot (Some ward) None
          else if degraded_action ward (ci_degradedConditions input) = refuse_action
          then refuse REFUSE [DEGRADED_MODE] canonical snapshot (Some ward) (ci_authorityEnvelope input)
          else if degraded_action ward (ci_degradedConditions input) = escalate
          then refuse ESCALATE [DEGRADED_MODE] canonical snapshot (Some ward) (ci_authorityEnvelope input)
          else (case ci_authorityEnvelope input of
             None \<Rightarrow> refuse REFUSE [ACTION_NOT_ALLOWED] canonical snapshot (Some ward) None
           | Some envelope \<Rightarrow>
               gate_with_envelope P nowMs (ci_action input) canonical snapshot ward envelope))"

text \<open>\<open>wall\<close> is the clock reading \<open>new Date().toISOString()\<close> used when the input carries no \<open>now\<close>.\<close>

definition evaluateCommitGate :: "platform \<Rightarrow> iso_time \<Rightarrow> CommitGateInput \<Rightarrow> CommitGateDecision result" where
  "evaluateCommitGate P wall input =
     bind_result (register_snapshot P (ci_runtimeRegister input)) (\<lambda>snapshot.
     bind_result (canonicalizeAction P (ci_action input)) (\<lambda>canonical.
       Inr (gate_decision P (date_parse P (case ci_now input of Some t \<Rightarrow> t | None \<Rightarrow> wall))
              input canonical snapshot)))"

lemmas gate_unfold = gate_decision_def gate_with_envelope_def refuse_def Let_def

section \<open>The abstract specification\<close>

text \<open>
  What the gate promises: an action is admissible under a Ward, an envelope, a register snapshot and
  a time when the Ward permits the subject, the active degradations do not block it, the envelope is
  the subject's in that Ward, in force, grants and does not deny the action type, its constraints,
  the Ward's physical limits and the classification labels hold, and the runtime state it requires is
  present and of the Ward's policy version.
\<close>

definition envelope_admits ::
  "platform \<Rightarrow> int option \<Rightarrow> CanonicalActionInput \<Rightarrow> RuntimeRegister \<Rightarrow> WardManifest \<Rightarrow> AuthorityEnvelope \<Rightarrow> bool" where
  "envelope_admits P nowMs action snapshot ward envelope \<longleftrightarrow>
     ae_ward_id envelope = wm_ward_id ward \<and> ae_subject envelope = act_subject action \<and>
     act_action_type action \<in> set (ae_allowed_actions envelope) - set (ae_denied_actions envelope) \<and>
     \<not> nan_le (date_parse P (ae_expires_at envelope)) nowMs \<and>
     (obj_get snapshot ''policy_version'' = JStr (wm_policy_version ward) \<or>
        \<not> truthy (obj_get snapshot ''policy_version'')) \<and>
     missingRuntimeRegisters envelope action snapshot = [] \<and>
     constraintsPass envelope action \<and>
     pir_ok (evaluatePhysicalInvariants action (wm_physical_bounds ward)) \<and>
     (\<forall>label. act_classification action = Some label \<longrightarrow>
        (\<forall>c \<in> set_option (wm_classification ward) \<union> set_option (ae_classification envelope). dominates c label))"

definition admissible ::
  "platform \<Rightarrow> int option \<Rightarrow> CommitGateInput \<Rightarrow> RuntimeRegister \<Rightarrow> bool" where
  "admissible P nowMs input snapshot \<longleftrightarrow>
     (\<exists>ward envelope. ci_ward input = Some ward \<and> ci_authorityEnvelope input = Some envelope \<and>
        act_subject (ci_action input) \<in> set (wm_permitted_subjects ward) \<and>
        degraded_action ward (ci_degradedConditions input) \<in> {allow, allow_degraded} \<and>
        envelope_admits P nowMs (ci_action input) snapshot ward envelope)"

lemma enforceClassification_ok:
  "enforceClassification [c1, c2] label = ClassificationOk \<longleftrightarrow>
     (\<forall>l. label = Some l \<longrightarrow> (\<forall>c \<in> set_option c1 \<union> set_option c2. dominates c l))"
  by (cases label) (auto simp: enforceClassification_def enforce_loop_ok simp del: enforce_loop.simps)

lemma fail_action_nonblocking: "(a :: FailAction) \<noteq> refuse_action \<and> a \<noteq> escalate \<longleftrightarrow> a \<in> {allow, allow_degraded}"
  by (cases a) auto

lemma gate_with_envelope_allow:
  "cg_decision (gate_with_envelope P nowMs action canonical snapshot ward envelope) = ALLOW \<longleftrightarrow>
     envelope_admits P nowMs action snapshot ward envelope"
  unfolding envelope_admits_def enforceClassification_ok[symmetric]
  by (simp add: gate_with_envelope_def Let_def refuse_def) blast

lemma gate_decision_allow:
  "cg_decision (gate_decision P nowMs input canonical snapshot) = ALLOW \<longleftrightarrow> admissible P nowMs input snapshot"
proof (cases "ci_ward input")
  case (Some ward)
  then show ?thesis
    using fail_action_nonblocking[of "degraded_action ward (ci_degradedConditions input)"]
    by (cases "ci_authorityEnvelope input") (auto simp: gate_decision_def admissible_def refuse_def gate_with_envelope_allow)
qed (simp add: gate_decision_def admissible_def refuse_def)

section \<open>Reason codes\<close>

definition reason_of :: "ExecutionControlReasonCode \<Rightarrow> ExecutionControlDecision set" where
  "reason_of r = (if r = ALLOWED then {ALLOW}
     else if r \<in> {POLICY_VERSION_MISMATCH, RUNTIME_STATE_MISSING} then {ESCALATE}
     else if r = DEGRADED_MODE then {REFUSE, ESCALATE} else {REFUSE})"

text \<open>A decision that carries one reason code, of its kind.\<close>

definition reasoned :: "CommitGateDecision \<Rightarrow> bool" where
  "reasoned d \<longleftrightarrow> (\<exists>r. cg_reason_codes d = [r] \<and> cg_decision d \<in> reason_of r)"

lemma reasoned_if: "(c \<Longrightarrow> reasoned x) \<Longrightarrow> (\<not> c \<Longrightarrow> reasoned y) \<Longrightarrow> reasoned (if c then x else y)"
  by simp

lemma reasoned_refuse: "d \<in> reason_of r \<Longrightarrow> reasoned (refuse d [r] canonical snapshot ward envelope)"
  by (simp add: reasoned_def refuse_def)

lemma gate_with_envelope_reason: "reasoned (gate_with_envelope P nowMs action canonical snapshot ward envelope)"
  unfolding gate_with_envelope_def Let_def
  by (intro reasoned_if reasoned_refuse) (simp_all add: reason_of_def reasoned_def refuse_def)

lemma gate_decision_reason: "reasoned (gate_decision P nowMs input canonical snapshot)"
  unfolding gate_decision_def
  by (cases "ci_ward input"; cases "ci_authorityEnvelope input")
     (simp_all add: reasoned_refuse gate_with_envelope_reason reason_of_def)

lemma gate_decision_fields:
  "cg_canonical_action_hash (gate_decision P nowMs input canonical snapshot) = ca_canonical_action_hash canonical"
  "cg_runtime_register_snapshot (gate_decision P nowMs input canonical snapshot) = snapshot"
  by (auto simp: gate_unfold split: option.split)

lemma gate_decision_allow_fields:
  assumes "cg_decision (gate_decision P nowMs input canonical snapshot) = ALLOW"
  obtains ward envelope where "ci_ward input = Some ward" "ci_authorityEnvelope input = Some envelope"
    "cg_policy_version (gate_decision P nowMs input canonical snapshot) = Some (wm_policy_version ward)"
    "cg_authority_envelope_id (gate_decision P nowMs input canonical snapshot) = Some (ae_envelope_id envelope)"
proof -
  obtain ward envelope where we: "ci_ward input = Some ward" "ci_authorityEnvelope input = Some envelope"
    using assms by (auto simp: gate_decision_allow admissible_def)
  with assms that show thesis
    by (auto simp: gate_unfold split: if_splits)
qed

lemma evaluateCommitGate_Inr:
  "evaluateCommitGate P wall input = Inr d \<longleftrightarrow>
     (\<exists>snapshot canonical. register_snapshot P (ci_runtimeRegister input) = Inr snapshot \<and>
        canonicalizeAction P (ci_action input) = Inr canonical \<and>
        d = gate_decision P (date_parse P (case ci_now input of Some t \<Rightarrow> t | None \<Rightarrow> wall)) input canonical snapshot)"
  by (auto simp: evaluateCommitGate_def)

text \<open>The part of a decision that callers branch on.\<close>

definition verdict :: "CommitGateDecision \<Rightarrow> ExecutionControlDecision \<times> ExecutionControlReasonCode list" where
  "verdict d = (cg_decision d, cg_reason_codes d)"

lemma verdict_if: "verdict (if c then x else y) = (if c then verdict x else verdict y)"
  by simp

lemma verdict_refuse: "verdict (refuse d r c s w e) = (d, r)"
  by (simp add: verdict_def refuse_def)

section \<open>Properties\<close>

text \<open>
  C3 The gate refines its specification: on an input that can be canonicalised the gate returns a
  decision, and it is ALLOW exactly when the action is admissible: permitted subject, no blocking
  degradation, an unexpired envelope of this Ward and subject that grants and does not deny the action
  type, its constraints met, the required runtime state present and of the right policy version, the
  physical limits and the classification clearances respected.
\<close>

theorem commit_gate_refines_admissible:
  assumes "register_snapshot P (ci_runtimeRegister input) = Inr snapshot"
    and "canonicalizeAction P (ci_action input) = Inr canonical"
  shows "\<exists>d. evaluateCommitGate P wall input = Inr d \<and>
     (cg_decision d = ALLOW \<longleftrightarrow>
        admissible P (date_parse P (case ci_now input of Some t \<Rightarrow> t | None \<Rightarrow> wall)) input snapshot) \<and>
     cg_canonical_action_hash d = ca_canonical_action_hash canonical \<and> cg_runtime_register_snapshot d = snapshot"
  using assms by (simp add: evaluateCommitGate_def gate_decision_allow gate_decision_fields)

text \<open>
  Decisions and reasons: every decision of the gate carries exactly one reason code; \<open>ALLOWED\<close> comes
  with ALLOW only, a policy version mismatch and missing runtime state escalate, a degraded mode
  refuses or escalates, every other code refuses, and the gate never answers EXPIRE.
\<close>

theorem commit_gate_reasons:
  assumes "evaluateCommitGate P wall input = Inr d"
  shows "(\<exists>r. cg_reason_codes d = [r] \<and> cg_decision d \<in> reason_of r) \<and> cg_decision d \<noteq> EXPIRE \<and>
     (cg_decision d = ALLOW \<longleftrightarrow> cg_reason_codes d = [ALLOWED])"
proof -
  have "reasoned d"
    using assms gate_decision_reason by (auto simp: evaluateCommitGate_Inr)
  then obtain r where r: "cg_reason_codes d = [r]" "cg_decision d \<in> reason_of r"
    by (auto simp: reasoned_def)
  then have "cg_decision d \<noteq> EXPIRE \<and> (cg_decision d = ALLOW \<longleftrightarrow> r = ALLOWED)"
    by (auto simp: reason_of_def split: if_splits)
  with r show ?thesis by simp
qed

text \<open>
  Denial overrides grant: an action type on the envelope's deny list is never admitted, even when the
  allow list names it too, and neither is one for an envelope of another Ward or another subject.
\<close>

theorem commit_gate_deny_overrides:
  assumes "evaluateCommitGate P wall input = Inr d" "ci_authorityEnvelope input = Some envelope" "ci_ward input = Some ward"
    and "act_action_type (ci_action input) \<in> set (ae_denied_actions envelope) \<or> ae_ward_id envelope \<noteq> wm_ward_id ward \<or>
       ae_subject envelope \<noteq> act_subject (ci_action input)"
  shows "cg_decision d \<noteq> ALLOW"
  using assms by (auto simp: evaluateCommitGate_Inr gate_decision_allow admissible_def envelope_admits_def)

text \<open>
  The gate does not compare the Ward an action names with the Ward it is judged under: an action of
  any \<open>ward_id\<close> gets the same verdict and the same reasons, so one that names another Ward is admitted
  whenever the same action naming this Ward is.
\<close>

theorem commit_gate_ignores_action_ward:
  assumes "canonicalizeAction P (ci_action input) = Inr canonical"
    and "canonicalizeAction P ((ci_action input) \<lparr> act_ward_id := other \<rparr>) = Inr canonical'"
  shows "map_sum id verdict
       (evaluateCommitGate P wall (input \<lparr> ci_action := (ci_action input) \<lparr> act_ward_id := other \<rparr> \<rparr>)) =
     map_sum id verdict (evaluateCommitGate P wall input)"
proof -
  let ?a = "(ci_action input) \<lparr> act_ward_id := other \<rparr>"
  have phys: "evaluatePhysicalInvariants ?a b = evaluatePhysicalInvariants (ci_action input) b" for b
    by (rule physical_cong) simp_all
  have comb: "combined_registers ?a s = combined_registers (ci_action input) s" for s
    by (simp add: combined_registers_def)
  have missing: "missingRuntimeRegisters e ?a s = missingRuntimeRegisters e (ci_action input) s" for e s
    unfolding missingRuntimeRegisters_def comb by (rule refl)
  have params: "numericParam ?a k = numericParam (ci_action input) k" "act_target ?a = act_target (ci_action input)" for k
    by (simp_all add: numericParam_def)
  have constraints: "constraintsPass e ?a = constraintsPass e (ci_action input)" for e
    unfolding constraintsPass_def params by (rule refl)
  have "verdict (gate_with_envelope P t ?a canonical' s ward env) = verdict (gate_with_envelope P t (ci_action input) canonical s ward env)"
    for t s ward env
    unfolding gate_with_envelope_def Let_def phys verdict_if verdict_refuse missing constraints
    by (simp add: verdict_def refuse_def)
  then have "verdict (gate_decision P t (input \<lparr> ci_action := ?a \<rparr>) canonical' s) = verdict (gate_decision P t input canonical s)" for t s
    by (cases "ci_ward input"; cases "ci_authorityEnvelope input") (simp_all add: gate_decision_def verdict_refuse)
  then show ?thesis
    using assms by (cases "register_snapshot P (ci_runtimeRegister input)") (simp_all add: evaluateCommitGate_def)
qed

definition sample_ward :: WardManifest where
  "sample_ward = \<lparr> wm_ward_id = ''w1'', wm_name = ''pay'', wm_sovereignty_context = ''eu'', wm_authority_domain = ''d'',
     wm_policy_version = ''v1'', wm_evidence_ledger_path = None, wm_permitted_subjects = [''agent''],
     wm_physical_bounds = None, wm_metadata = None, wm_classification = None, wm_criticality = None \<rparr>"

definition sample_envelope :: AuthorityEnvelope where
  "sample_envelope = \<lparr> ae_envelope_id = ''e1'', ae_ward_id = ''w1'', ae_subject = ''agent'', ae_allowed_actions = [''pay''],
     ae_denied_actions = [], ae_constraints = [], ae_expires_at = ''900'', ae_issuer = ''root'', ae_signature = None,
     ae_classification = None \<rparr>"

definition sample_gate :: CommitGateInput where
  "sample_gate = \<lparr> ci_ward = Some sample_ward, ci_authorityEnvelope = Some sample_envelope, ci_action = sample_action,
     ci_runtimeRegister = None, ci_now = Some ''200'', ci_degradedConditions = None \<rparr>"

lemma sample_canonical: "\<exists>c. canonicalizeAction sample sample_action = Inr c"
  by (simp add: canonicalizeAction_def sample_normal Let_def)

lemma sample_snapshot: "register_snapshot sample None = Inr []"
  by (simp add: register_snapshot_def stableNormalize_obj from_entries_def)

lemma sample_admissible: "admissible sample (decimal_parse ''200'') sample_gate []"
proof -
  have "decimal_parse ''200'' = Some 200" "decimal_parse ''900'' = Some 900"
    by (simp_all add: decimal_parse_def is_digit_def digits_val_def char_digit_def)
  then show ?thesis
    by (simp add: admissible_def envelope_admits_def sample_gate_def sample_ward_def sample_envelope_def sample_action_def
        degraded_action_def missingRuntimeRegisters_def constraintsPass_def numericConstraint_def js_simps
        evaluatePhysicalInvariants_def)
qed

theorem commit_gate_refines_admissible_witness:
  "\<exists>d. evaluateCommitGate sample ''0'' sample_gate = Inr d \<and> cg_decision d = ALLOW"
proof -
  obtain c where "canonicalizeAction sample (ci_action sample_gate) = Inr c"
    using sample_canonical by (auto simp: sample_gate_def)
  moreover have "register_snapshot sample (ci_runtimeRegister sample_gate) = Inr []"
    using sample_snapshot by (simp add: sample_gate_def)
  ultimately show ?thesis
    using commit_gate_refines_admissible[of sample sample_gate "[]" c "''0''"] sample_admissible
    by (auto simp: sample_gate_def)
qed

theorem commit_gate_reasons_witness:
  "\<exists>d. evaluateCommitGate sample ''0'' sample_gate = Inr d \<and> cg_decision d \<noteq> EXPIRE"
proof -
  obtain d where d: "evaluateCommitGate sample ''0'' sample_gate = Inr d"
    using sample_canonical sample_snapshot by (auto simp: evaluateCommitGate_def sample_gate_def)
  with commit_gate_reasons[OF d] show ?thesis by blast
qed


theorem commit_gate_ignores_action_ward_witness:
  "map_sum id verdict
       (evaluateCommitGate sample ''0'' (sample_gate \<lparr> ci_action := sample_action \<lparr> act_ward_id := ''elsewhere'' \<rparr> \<rparr>)) =
     Inr (ALLOW, [ALLOWED])"
proof -
  obtain c where c: "canonicalizeAction sample sample_action = Inr c" using sample_canonical by blast
  have "\<exists>w. stableNormalize sample (canonical_object (sample_action \<lparr> act_ward_id := ''elsewhere'' \<rparr>)) = Inr w"
    by (simp add: canonical_object_def sample_action_def stableNormalize_obj defined_entry_def)
  then have "\<exists>c'. canonicalizeAction sample (sample_action \<lparr> act_ward_id := ''elsewhere'' \<rparr>) = Inr c'"
    by (auto simp: canonicalizeAction_def Let_def)
  then obtain c' where "canonicalizeAction sample (sample_action \<lparr> act_ward_id := ''elsewhere'' \<rparr>) = Inr c'" by blast
  with c have "map_sum id verdict
       (evaluateCommitGate sample ''0'' (sample_gate \<lparr> ci_action := sample_action \<lparr> act_ward_id := ''elsewhere'' \<rparr> \<rparr>)) =
      map_sum id verdict (evaluateCommitGate sample ''0'' sample_gate)"
    using commit_gate_ignores_action_ward[of sample sample_gate c "''elsewhere''" c' "''0''"] by (simp add: sample_gate_def)
  moreover obtain d where d: "evaluateCommitGate sample ''0'' sample_gate = Inr d" "cg_decision d = ALLOW"
    using c sample_snapshot sample_admissible
    by (auto simp: evaluateCommitGate_def sample_gate_def gate_decision_allow)
  moreover have "reasoned d"
    using d(1) gate_decision_reason by (auto simp: evaluateCommitGate_Inr)
  then have "cg_reason_codes d = [ALLOWED]"
    using d(2) by (auto simp: reasoned_def reason_of_def split: if_splits)
  ultimately show ?thesis by (simp add: verdict_def)
qed

end
