(* ===== verification/Revocation.thy ===== *)
theory Revocation
  imports Prelude
begin

text \<open>
  \<open>execution-control-runtime/src/revocation.ts\<close>: the revocation list of keys, envelopes and warrants.
  The file that holds the list is an optional value (absent file: \<open>None\<close>) of parsed JSON; the model
  covers loading, adding and looking up.  The lemmas show that a revocation is never lost and takes
  effect on every later lookup.
\<close>

section \<open>Data\<close>

record RevocationList =
  revoked_key_ids :: "json list"
  revoked_envelope_ids :: "json list"
  revoked_warrant_ids :: "json list"

datatype RevocationKind = key_kind | envelope_kind | warrant_kind

datatype RevocationReason = REVOKED_KEY | REVOKED_ENVELOPE | REVOKED_WARRANT

record RevocationTarget =
  rt_signing_key_id :: "string option"
  rt_authority_envelope_id :: "string option"
  rt_warrant_id :: "string option"

definition EMPTY_REVOCATION_LIST :: RevocationList where
  "EMPTY_REVOCATION_LIST = \<lparr> revoked_key_ids = [], revoked_envelope_ids = [], revoked_warrant_ids = [] \<rparr>"

text \<open>A list of the file: an array is taken as it is, anything else as empty.\<close>

fun id_array :: "json \<Rightarrow> json list" where
  "id_array (JArr vs) = vs"
| "id_array _ = []"

text \<open>The file is the parsed JSON value it holds, \<open>None\<close> when it does not exist.\<close>

type_synonym revocation_file = "json option"

definition loadRevocationList :: "revocation_file \<Rightarrow> RevocationList" where
  "loadRevocationList store =
     (case store of None \<Rightarrow> EMPTY_REVOCATION_LIST
      | Some raw \<Rightarrow> \<lparr> revoked_key_ids = id_array (js_get raw ''revoked_key_ids''),
                     revoked_envelope_ids = id_array (js_get raw ''revoked_envelope_ids''),
                     revoked_warrant_ids = id_array (js_get raw ''revoked_warrant_ids'') \<rparr>)"

definition saveRevocationList :: "RevocationList \<Rightarrow> revocation_file" where
  "saveRevocationList list = Some (JObj
     [(''revoked_key_ids'', JArr (revoked_key_ids list)),
      (''revoked_envelope_ids'', JArr (revoked_envelope_ids list)),
      (''revoked_warrant_ids'', JArr (revoked_warrant_ids list))])"

definition add_id :: "string \<Rightarrow> json list \<Rightarrow> json list" where
  "add_id i ids = (if JStr i \<in> set ids then ids else ids @ [JStr i])"

fun add_to_list :: "RevocationKind \<Rightarrow> string \<Rightarrow> RevocationList \<Rightarrow> RevocationList" where
  "add_to_list key_kind i l = l \<lparr> revoked_key_ids := add_id i (revoked_key_ids l) \<rparr>"
| "add_to_list envelope_kind i l = l \<lparr> revoked_envelope_ids := add_id i (revoked_envelope_ids l) \<rparr>"
| "add_to_list warrant_kind i l = l \<lparr> revoked_warrant_ids := add_id i (revoked_warrant_ids l) \<rparr>"

text \<open>The new file and the returned list.\<close>

definition addRevocation ::
  "revocation_file \<Rightarrow> RevocationKind \<Rightarrow> string \<Rightarrow> revocation_file \<times> RevocationList" where
  "addRevocation store kind i =
     (let list = add_to_list kind i (loadRevocationList store) in (saveRevocationList list, list))"

text \<open>\<open>target.id && list.includes(target.id)\<close>.\<close>

definition listed :: "string option \<Rightarrow> json list \<Rightarrow> bool" where
  "listed i ids = (case i of None \<Rightarrow> False | Some s \<Rightarrow> s \<noteq> [] \<and> JStr s \<in> set ids)"

definition revocationReason :: "RevocationList \<Rightarrow> RevocationTarget \<Rightarrow> RevocationReason option" where
  "revocationReason list target =
     (if listed (rt_warrant_id target) (revoked_warrant_ids list) then Some REVOKED_WARRANT
      else if listed (rt_signing_key_id target) (revoked_key_ids list) then Some REVOKED_KEY
      else if listed (rt_authority_envelope_id target) (revoked_envelope_ids list) then Some REVOKED_ENVELOPE
      else None)"

section \<open>Revocations are durable and monotone\<close>

lemma load_save [simp]: "loadRevocationList (saveRevocationList l) = l"
  by (simp add: loadRevocationList_def saveRevocationList_def js_simps)

lemma set_add_id [simp]: "set (add_id i ids) = insert (JStr i) (set ids)"
  by (auto simp: add_id_def)

text \<open>One list revokes at least what another does.\<close>

definition revokes_more :: "RevocationList \<Rightarrow> RevocationList \<Rightarrow> bool" where
  "revokes_more l m \<longleftrightarrow> set (revoked_key_ids l) \<subseteq> set (revoked_key_ids m) \<and>
     set (revoked_envelope_ids l) \<subseteq> set (revoked_envelope_ids m) \<and>
     set (revoked_warrant_ids l) \<subseteq> set (revoked_warrant_ids m)"

lemma revokes_more_refl [simp]: "revokes_more l l"
  by (simp add: revokes_more_def)

lemma revokes_more_trans: "revokes_more l m \<Longrightarrow> revokes_more m n \<Longrightarrow> revokes_more l n"
  by (auto simp: revokes_more_def)

lemma add_to_list_more: "revokes_more l (add_to_list kind i l)"
  by (cases kind) (auto simp: revokes_more_def)

lemma revocationReason_mono:
  "revokes_more l m \<Longrightarrow> revocationReason l t \<noteq> None \<Longrightarrow> revocationReason m t \<noteq> None"
  by (auto simp: revocationReason_def revokes_more_def listed_def split: option.splits if_splits)

text \<open>What \<open>addRevocation\<close> of each kind makes revoked.\<close>

fun target_id :: "RevocationKind \<Rightarrow> RevocationTarget \<Rightarrow> string option" where
  "target_id key_kind t = rt_signing_key_id t"
| "target_id envelope_kind t = rt_authority_envelope_id t"
| "target_id warrant_kind t = rt_warrant_id t"

lemma add_to_list_revokes:
  "target_id kind t = Some i \<Longrightarrow> i \<noteq> [] \<Longrightarrow> revocationReason (add_to_list kind i l) t \<noteq> None"
  by (cases kind) (auto simp: revocationReason_def listed_def)

fun apply_revocations :: "(RevocationKind \<times> string) list \<Rightarrow> revocation_file \<Rightarrow> revocation_file" where
  "apply_revocations [] store = store"
| "apply_revocations ((kind, i) # rest) store = apply_revocations rest (fst (addRevocation store kind i))"

lemma apply_revocations_more:
  "revokes_more (loadRevocationList store) (loadRevocationList (apply_revocations rs store))"
proof (induction rs arbitrary: store)
  case (Cons r rs)
  obtain kind i where r: "r = (kind, i)" by (cases r)
  have "revokes_more (loadRevocationList store) (loadRevocationList (fst (addRevocation store kind i)))"
    by (simp add: addRevocation_def Let_def add_to_list_more)
  then show ?case
    using Cons.IH r by (auto intro: revokes_more_trans)
qed simp

section \<open>Properties\<close>

text \<open>
  A revocation is durable and takes effect at once: after \<open>addRevocation\<close> of a non-empty id, and any
  later sequence of revocations, the list loaded from the file still revokes every target with that id,
  and everything revoked before stays revoked.
\<close>

theorem addRevocation_durable:
  assumes "i \<noteq> []"
  shows "let store' = apply_revocations later (fst (addRevocation store kind i))
     in (target_id kind t = Some i \<longrightarrow> revocationReason (loadRevocationList store') t \<noteq> None) \<and>
        (revocationReason (loadRevocationList store) t' \<noteq> None \<longrightarrow>
           revocationReason (loadRevocationList store') t' \<noteq> None)"
proof -
  have l: "loadRevocationList (fst (addRevocation store kind i)) = add_to_list kind i (loadRevocationList store)"
    by (simp add: addRevocation_def Let_def)
  note more = apply_revocations_more[of "fst (addRevocation store kind i)" later, unfolded l]
  show ?thesis
    unfolding Let_def using revocationReason_mono[OF more] add_to_list_revokes[OF _ assms]
      revocationReason_mono[OF add_to_list_more] by blast
qed

theorem addRevocation_durable_witness:
  "revocationReason (loadRevocationList (apply_revocations [(key_kind, ''k1'')] (fst (addRevocation None envelope_kind ''e1''))))
     \<lparr> rt_signing_key_id = None, rt_authority_envelope_id = Some ''e1'', rt_warrant_id = None \<rparr> \<noteq> None"
  using addRevocation_durable[of "''e1''" "[(key_kind, ''k1'')]" None envelope_kind
      "\<lparr> rt_signing_key_id = None, rt_authority_envelope_id = Some ''e1'', rt_warrant_id = None \<rparr>" undefined]
  by (simp add: Let_def)

end
