(* ===== verification/Warrant.thy ===== *)
theory Warrant
  imports Commit_Gate Revocation
begin

text \<open>
  Warrants of \<open>execution-control-runtime\<close>: the signer of \<open>signing.ts\<close>, and from \<open>index.ts\<close>
  \<open>warrantMaterial\<close>, \<open>issueWarrant\<close>, \<open>verifyWarrant\<close>, \<open>AristotleWarrant.consume\<close> and \<open>consumeWarrant\<close>.
  The theorems: the signed material determines every bound field, an issued warrant verifies in its
  window, verification implies each of its checks, and a consumed warrant never verifies again.
\<close>

section \<open>Signing\<close>

text \<open>
  \<open>AristotleSigner\<close>; \<open>sg_sign\<close> is the call of \<open>crypto.sign\<close> under the signer's private key.
\<close>

record AristotleSigner =
  sg_key_id :: string
  sg_algorithm :: string
  sg_public_key_pem :: string
  sg_ephemeral :: bool
  sg_sign :: "string \<Rightarrow> string"

definition verifyEd25519 :: "platform \<Rightarrow> string \<Rightarrow> string \<Rightarrow> string \<Rightarrow> bool" where
  "verifyEd25519 P pub msg sig = (case ed25519_verify P pub msg sig of Some ok \<Rightarrow> ok | None \<Rightarrow> False)"

text \<open>\<open>requireProductionSigner\<close>.\<close>

definition requireProductionSigner :: "AristotleSigner \<Rightarrow> AristotleSigner result" where
  "requireProductionSigner signer = (if sg_ephemeral signer then Inl EphemeralSigner else Inr signer)"

text \<open>
  The contract of a signature scheme that its clients rely on: what the private key signs, the public
  key verifies, and the PEM text of a public key is not empty.
\<close>

locale signature_scheme =
  fixes verify :: "string \<Rightarrow> string \<Rightarrow> string \<Rightarrow> bool" and sign :: "string \<Rightarrow> string" and pub :: string
  assumes verify_sign: "verify pub msg (sign msg)" and pub_nonempty: "pub \<noteq> []"

abbreviation sound_signer :: "platform \<Rightarrow> AristotleSigner \<Rightarrow> bool" where
  "sound_signer P sg \<equiv> signature_scheme (verifyEd25519 P) (sg_sign sg) (sg_public_key_pem sg) \<and> sg_algorithm sg = ''ed25519''"

section \<open>Data\<close>

record Warrant =
  wr_warrant_id :: string
  wr_ward_id :: string
  wr_authority_envelope_id :: string
  wr_canonical_action_hash :: hash
  wr_subject :: string
  wr_action_type :: string
  wr_decision :: string
  wr_issued_at :: iso_time
  wr_expires_at :: iso_time
  wr_single_use :: bool
  wr_consumed :: bool
  wr_nonce :: "string option"
  wr_issuer :: string
  wr_signature :: string
  wr_signature_algorithm :: string
  wr_signing_key_id :: string
  wr_signing_public_key :: string

datatype WarrantReason = WARRANT_CONSUMED | WARRANT_INVALID_TIME | WARRANT_EXPIRED | WARRANT_NOT_YET_VALID
  | WARRANT_LIFETIME_EXCEEDED | WARRANT_REPLAYED | ACTION_HASH_MISMATCH | DECISION_NOT_ALLOWED
  | SIGNATURE_MISMATCH | UNTRUSTED_SIGNING_KEY | REVOKED

primrec warrant_reason_name :: "WarrantReason \<Rightarrow> string" where
  "warrant_reason_name WARRANT_CONSUMED = ''WARRANT_CONSUMED''"
| "warrant_reason_name WARRANT_INVALID_TIME = ''WARRANT_INVALID_TIME''"
| "warrant_reason_name WARRANT_EXPIRED = ''WARRANT_EXPIRED''"
| "warrant_reason_name WARRANT_NOT_YET_VALID = ''WARRANT_NOT_YET_VALID''"
| "warrant_reason_name WARRANT_LIFETIME_EXCEEDED = ''WARRANT_LIFETIME_EXCEEDED''"
| "warrant_reason_name WARRANT_REPLAYED = ''WARRANT_REPLAYED''"
| "warrant_reason_name ACTION_HASH_MISMATCH = ''ACTION_HASH_MISMATCH''"
| "warrant_reason_name DECISION_NOT_ALLOWED = ''DECISION_NOT_ALLOWED''"
| "warrant_reason_name SIGNATURE_MISMATCH = ''SIGNATURE_MISMATCH''"
| "warrant_reason_name UNTRUSTED_SIGNING_KEY = ''UNTRUSTED_SIGNING_KEY''"
| "warrant_reason_name REVOKED = ''REVOKED''"

text \<open>\<open>WarrantVerification\<close>: \<open>None\<close> is \<open>{ ok: true }\<close>.\<close>

type_synonym WarrantVerification = "WarrantReason option"

record WarrantVerifyOptions =
  vo_trustedKeyIds :: "string list option"
  vo_revocations :: "RevocationList option"
  vo_maxClockSkewMs :: "rat option"
  vo_maxLifetimeMs :: "rat option"
  vo_seenNonces :: "(string \<Rightarrow> bool) option"

definition default_options :: WarrantVerifyOptions where
  "default_options = \<lparr> vo_trustedKeyIds = None, vo_revocations = None, vo_maxClockSkewMs = None,
     vo_maxLifetimeMs = None, vo_seenNonces = None \<rparr>"

section \<open>Material and issue\<close>

definition warrant_object :: "string \<Rightarrow> string \<Rightarrow> hash \<Rightarrow> iso_time \<Rightarrow> iso_time \<Rightarrow> string \<Rightarrow> string \<Rightarrow> string
    \<Rightarrow> string option \<Rightarrow> jsobject" where
  "warrant_object action_type envelope_id action_hash expires_at issued_at issuer subject ward_id nonce =
     [(''action_type'', JStr action_type), (''authority_envelope_id'', JStr envelope_id),
      (''canonical_action_hash'', JStr action_hash), (''expires_at'', JStr expires_at),
      (''issued_at'', JStr issued_at), (''issuer'', JStr issuer), (''subject'', JStr subject),
      (''ward_id'', JStr ward_id), (''nonce'', opt_json JStr nonce),
      (''decision'', JStr ''ALLOW''), (''single_use'', JBool True)]"

text \<open>\<open>stableStringify\<close> of an object without numbers never throws (shown below).\<close>

definition canonical_text :: "platform \<Rightarrow> json \<Rightarrow> string" where
  "canonical_text P v = (case stableStringify P v of Inr s \<Rightarrow> s | Inl _ \<Rightarrow> [])"

definition warrantMaterial :: "platform \<Rightarrow> string \<Rightarrow> string \<Rightarrow> hash \<Rightarrow> iso_time \<Rightarrow> iso_time \<Rightarrow> string \<Rightarrow> string \<Rightarrow> string
    \<Rightarrow> string option \<Rightarrow> string" where
  "warrantMaterial P action_type envelope_id action_hash expires_at issued_at issuer subject ward_id nonce =
     canonical_text P (JObj (warrant_object action_type envelope_id action_hash expires_at issued_at issuer subject ward_id nonce))"

definition material_of :: "platform \<Rightarrow> Warrant \<Rightarrow> string" where
  "material_of P w = warrantMaterial P (wr_action_type w) (wr_authority_envelope_id w) (wr_canonical_action_hash w)
     (wr_expires_at w) (wr_issued_at w) (wr_issuer w) (wr_subject w) (wr_ward_id w) (wr_nonce w)"

definition DEFAULT_WARRANT_TTL_SECONDS :: rat where
  "DEFAULT_WARRANT_TTL_SECONDS = 60"

text \<open>\<open>Number.isFinite(ttl) && ttl > 0 ? ttl : 60\<close>; \<open>None\<close> stands for an absent or non-finite value.\<close>

definition effective_ttl :: "rat option \<Rightarrow> rat" where
  "effective_ttl ttlSeconds =
     (case ttlSeconds of Some t \<Rightarrow> if t > 0 then t else DEFAULT_WARRANT_TTL_SECONDS
      | None \<Rightarrow> DEFAULT_WARRANT_TTL_SECONDS)"

text \<open>\<open>new Date(x)\<close> truncates to whole milliseconds.\<close>

definition js_trunc :: "rat \<Rightarrow> int" where
  "js_trunc x = (if x < 0 then - \<lfloor>- x\<rfloor> else \<lfloor>x\<rfloor>)"

definition to_iso :: "platform \<Rightarrow> rat option \<Rightarrow> iso_time result" where
  "to_iso P ms = (case ms of None \<Rightarrow> Inl InvalidDate
     | Some x \<Rightarrow> (case date_iso P (js_trunc x) of None \<Rightarrow> Inl InvalidDate | Some s \<Rightarrow> Inr s))"

definition warrant_id_of :: "platform \<Rightarrow> string \<Rightarrow> string \<Rightarrow> string \<Rightarrow> string" where
  "warrant_id_of P material signature key_id =
     ''wrn-'' @ take 24 (sha256_hex P (canonical_text P (JObj
        [(''material'', JStr material), (''signature'', JStr signature), (''signing_key_id'', JStr key_id)])))"

definition issueWarrant :: "platform \<Rightarrow> CommitGateDecision \<Rightarrow> CanonicalActionInput \<Rightarrow> AuthorityEnvelope
    \<Rightarrow> iso_time \<Rightarrow> AristotleSigner \<Rightarrow> rat option \<Rightarrow> string \<Rightarrow> Warrant option result" where
  "issueWarrant P decision action envelope now signer ttlSeconds nonce =
     (if cg_decision decision \<noteq> ALLOW then Inr None
      else bind_result
        (to_iso P (map_option (\<lambda>ms. of_int ms + effective_ttl ttlSeconds * 1000) (date_parse P now)))
        (\<lambda>expires_at.
          let material = warrantMaterial P (act_action_type action) (ae_envelope_id envelope)
                (cg_canonical_action_hash decision) expires_at now (ae_issuer envelope)
                (act_subject action) (act_ward_id action) (Some nonce);
              signature = sg_sign signer material
          in Inr (Some
            \<lparr> wr_warrant_id = warrant_id_of P material signature (sg_key_id signer),
              wr_ward_id = act_ward_id action,
              wr_authority_envelope_id = ae_envelope_id envelope,
              wr_canonical_action_hash = cg_canonical_action_hash decision,
              wr_subject = act_subject action,
              wr_action_type = act_action_type action,
              wr_decision = ''ALLOW'',
              wr_issued_at = now,
              wr_expires_at = expires_at,
              wr_single_use = True,
              wr_consumed = False,
              wr_nonce = Some nonce,
              wr_issuer = ae_issuer envelope,
              wr_signature = signature,
              wr_signature_algorithm = sg_algorithm signer,
              wr_signing_key_id = sg_key_id signer,
              wr_signing_public_key = sg_public_key_pem signer \<rparr>)))"

section \<open>Verification and consumption\<close>

definition nonce_seen :: "WarrantVerifyOptions \<Rightarrow> Warrant \<Rightarrow> bool" where
  "nonce_seen opts w = (case (vo_seenNonces opts, wr_nonce w) of
     (Some seen, Some n) \<Rightarrow> n \<noteq> [] \<and> seen n | _ \<Rightarrow> False)"

definition key_untrusted :: "WarrantVerifyOptions \<Rightarrow> string \<Rightarrow> bool" where
  "key_untrusted opts key_id = (case vo_trustedKeyIds opts of Some ids \<Rightarrow> key_id \<notin> set ids | None \<Rightarrow> False)"

definition warrant_revoked :: "WarrantVerifyOptions \<Rightarrow> Warrant \<Rightarrow> bool" where
  "warrant_revoked opts w = (case vo_revocations opts of None \<Rightarrow> False
     | Some l \<Rightarrow> revocationReason l \<lparr> rt_signing_key_id = Some (wr_signing_key_id w),
                   rt_authority_envelope_id = Some (wr_authority_envelope_id w),
                   rt_warrant_id = Some (wr_warrant_id w) \<rparr> \<noteq> None)"

definition lifetime_exceeded :: "WarrantVerifyOptions \<Rightarrow> int \<Rightarrow> int \<Rightarrow> bool" where
  "lifetime_exceeded opts issuedMs expiresMs =
     (case vo_maxLifetimeMs opts of Some m \<Rightarrow> of_int (expiresMs - issuedMs) > m | None \<Rightarrow> False)"

definition clock_skew :: "WarrantVerifyOptions \<Rightarrow> rat" where
  "clock_skew opts = (case vo_maxClockSkewMs opts of Some s \<Rightarrow> s | None \<Rightarrow> 60000)"

definition signature_valid :: "platform \<Rightarrow> Warrant \<Rightarrow> bool" where
  "signature_valid P w \<longleftrightarrow> wr_signature_algorithm w = ''ed25519'' \<and>
     verifyEd25519 P (wr_signing_public_key w) (material_of P w) (wr_signature w)"

definition verifyWarrant ::
  "platform \<Rightarrow> Warrant \<Rightarrow> hash \<Rightarrow> iso_time \<Rightarrow> WarrantVerifyOptions \<Rightarrow> WarrantVerification" where
  "verifyWarrant P w actionHash now opts =
     (if wr_decision w \<noteq> ''ALLOW'' then Some DECISION_NOT_ALLOWED
      else if wr_consumed w then Some WARRANT_CONSUMED
      else (case (date_parse P now, date_parse P (wr_issued_at w), date_parse P (wr_expires_at w)) of
        (Some nowMs, Some issuedMs, Some expiresMs) \<Rightarrow>
          if expiresMs \<le> nowMs then Some WARRANT_EXPIRED
          else if of_int (issuedMs - nowMs) > clock_skew opts then Some WARRANT_NOT_YET_VALID
          else if lifetime_exceeded opts issuedMs expiresMs then Some WARRANT_LIFETIME_EXCEEDED
          else if nonce_seen opts w then Some WARRANT_REPLAYED
          else if wr_canonical_action_hash w \<noteq> actionHash then Some ACTION_HASH_MISMATCH
          else if key_untrusted opts (wr_signing_key_id w) then Some UNTRUSTED_SIGNING_KEY
          else if warrant_revoked opts w then Some REVOKED
          else if \<not> signature_valid P w then Some SIGNATURE_MISMATCH
          else None
      | _ \<Rightarrow> Some WARRANT_INVALID_TIME))"

text \<open>\<open>AristotleWarrant.consume\<close> and \<open>consumeWarrant\<close>: the warrant object is updated in place and returned.\<close>

definition consumeWarrant ::
  "platform \<Rightarrow> Warrant \<Rightarrow> hash \<Rightarrow> iso_time \<Rightarrow> WarrantVerifyOptions \<Rightarrow> Warrant result" where
  "consumeWarrant P w actionHash now opts =
     (case verifyWarrant P w actionHash now opts of
        Some reason \<Rightarrow> Inl (WarrantVerificationFailed (warrant_reason_name reason))
      | None \<Rightarrow> Inr (w \<lparr> wr_consumed := True \<rparr>))"

section \<open>What the material binds\<close>

text \<open>Objects of strings and booleans are normalised without error, and printed without loss.\<close>

fun flat_value :: "json \<Rightarrow> bool" where
  "flat_value (JStr s) = True"
| "flat_value (JBool b) = True"
| "flat_value JNull = True"
| "flat_value JUndef = True"
| "flat_value _ = False"

definition flat_object :: "jsobject \<Rightarrow> bool" where
  "flat_object es \<longleftrightarrow> list_all (\<lambda>e. flat_value (snd e)) es"

lemma flat_value_normal: "flat_value v \<Longrightarrow> stableNormalize P v = Inr v"
  by (cases v) auto

lemma map_result_total: "(\<And>x. x \<in> set xs \<Longrightarrow> f x = Inr (g x)) \<Longrightarrow> map_result f xs = Inr (map g xs)"
  by (induction xs) auto

lemma normalize_flat:
  assumes "flat_object es"
  shows "stableNormalize P (JObj es) = Inr (JObj (from_entries (sort_entries (locale_le P) (filter defined_entry es))))"
proof -
  have "map_result (\<lambda>e. bind_result (stableNormalize P (snd e)) (\<lambda>w. Inr (fst e, w)))
      (sort_entries (locale_le P) (filter defined_entry es)) =
      Inr (map (\<lambda>e. e) (sort_entries (locale_le P) (filter defined_entry es)))"
    using assms by (intro map_result_total) (auto simp: flat_object_def list_all_iff flat_value_normal)
  then show ?thesis by (simp add: stableNormalize_obj)
qed

lemma printable_flat: "flat_object es \<Longrightarrow> printable P (JObj es)"
  unfolding printable_def normalize_flat
  by (auto simp: normalize_flat flat_object_def list_all_iff defined_entry_def elim: flat_value.elims) 
     (metis (no_types, lifting) clean_json.simps(2,3,6) flat_value.elims(2) snd_conv)

lemma canonical_text_inj:
  assumes "printable P v" "printable P w" "canonical_text P v = canonical_text P w"
  shows "stableNormalize P v = stableNormalize P w"
proof -
  obtain s t where "stableStringify P v = Inr s" "stableStringify P w = Inr t"
    using assms(1,2) by (auto simp: printable_def stableStringify_def split: sum.splits)
  with assms printable_text_eq[of P v w s] show ?thesis by (simp add: canonical_text_def)
qed

text \<open>Two flat objects with the same canonical text agree on every property.\<close>

lemma flat_text_fields:
  assumes "flat_object es" "flat_object fs" "distinct (map fst es)" "distinct (map fst fs)"
    and "canonical_text P (JObj es) = canonical_text P (JObj fs)"
  shows "obj_get es k = obj_get fs k"
proof -
  have eq: "stableNormalize P (JObj es) = stableNormalize P (JObj fs)"
    using assms(1,2,5) by (intro canonical_text_inj printable_flat)
  have flat: "flat_value (obj_get xs k)" if "flat_object xs" for xs
    using that by (auto simp: obj_get_def flat_object_def list_all_iff dest!: map_of_SomeD split: option.split)
  have "stableNormalize P (obj_get es k) = stableNormalize P (obj_get fs k)"
    using normalize_fields_eq[OF eq normalize_flat[OF assms(1)] assms(3,4)] .
  then show ?thesis
    using flat[OF assms(1)] flat[OF assms(2)] by (simp add: flat_value_normal)
qed

lemma warrant_object_flat: "flat_object (warrant_object t e h x i u s w n)" "distinct (map fst (warrant_object t e h x i u s w n))"
  by (cases n) (simp_all add: warrant_object_def flat_object_def)

lemma warrantMaterial_fields:
  assumes "warrantMaterial P t e h x i u s w n = warrantMaterial P t' e' h' x' i' u' s' w' n'"
  shows "t = t' \<and> e = e' \<and> h = h' \<and> x = x' \<and> i = i' \<and> u = u' \<and> s = s' \<and> w = w' \<and> n = n'"
proof -
  have f: "obj_get (warrant_object t e h x i u s w n) k = obj_get (warrant_object t' e' h' x' i' u' s' w' n') k" for k
    using assms by (intro flat_text_fields warrant_object_flat) (simp add: warrantMaterial_def)
  show ?thesis
    using f[of "''action_type''"] f[of "''authority_envelope_id''"] f[of "''canonical_action_hash''"]
      f[of "''expires_at''"] f[of "''issued_at''"] f[of "''issuer''"] f[of "''subject''"] f[of "''ward_id''"] f[of "''nonce''"]
    by (simp add: warrant_object_def js_simps opt_json_JStr_inj)
qed

section \<open>Verification\<close>

lemma verifyWarrant_ok:
  "verifyWarrant P w h now opts = None \<longleftrightarrow>
     wr_decision w = ''ALLOW'' \<and> \<not> wr_consumed w \<and>
     (\<exists>nowMs issuedMs expiresMs. date_parse P now = Some nowMs \<and> date_parse P (wr_issued_at w) = Some issuedMs \<and>
        date_parse P (wr_expires_at w) = Some expiresMs \<and> nowMs < expiresMs \<and>
        of_int (issuedMs - nowMs) \<le> clock_skew opts \<and> \<not> lifetime_exceeded opts issuedMs expiresMs) \<and>
     \<not> nonce_seen opts w \<and> wr_canonical_action_hash w = h \<and> \<not> key_untrusted opts (wr_signing_key_id w) \<and>
     \<not> warrant_revoked opts w \<and> signature_valid P w"
  unfolding verifyWarrant_def by (auto split: option.splits if_splits)

lemma issueWarrant_Some:
  assumes "issueWarrant P decision action envelope now signer ttl nonce = Inr (Some w)"
  shows "cg_decision decision = ALLOW"
    and "wr_canonical_action_hash w = cg_canonical_action_hash decision"
    and "wr_subject w = act_subject action" "wr_action_type w = act_action_type action"
    and "wr_ward_id w = act_ward_id action" "wr_authority_envelope_id w = ae_envelope_id envelope"
    and "wr_issued_at w = now" "wr_nonce w = Some nonce" "\<not> wr_consumed w" "wr_decision w = ''ALLOW''"
    and "wr_signature w = sg_sign signer (material_of P w)"
    and "wr_signing_public_key w = sg_public_key_pem signer" "wr_signing_key_id w = sg_key_id signer"
    and "wr_signature_algorithm w = sg_algorithm signer"
    and "to_iso P (map_option (\<lambda>ms. of_int ms + effective_ttl ttl * 1000) (date_parse P now)) = Inr (wr_expires_at w)"
  using assms by (auto simp: issueWarrant_def Let_def material_of_def split: if_splits)

lemma issued_signature_valid:
  assumes "issueWarrant P decision action envelope now signer ttl nonce = Inr (Some w)" "sound_signer P signer"
  shows "signature_valid P w"
  using issueWarrant_Some[OF assms(1)] assms(2)
  by (simp add: signature_valid_def signature_scheme.verify_sign)

lemma effective_ttl_pos: "0 < effective_ttl ttl"
  by (simp add: effective_ttl_def DEFAULT_WARRANT_TTL_SECONDS_def split: option.split)

section \<open>Properties\<close>

text \<open>
  The signed material determines the warrant's bound fields: two warrants with the same material
  agree on action type, envelope, action hash, validity window, issuer, subject, Ward and nonce, so a
  signature cannot be carried over to a warrant that differs in any of them.
\<close>

theorem warrant_material_binds:
  assumes "material_of P w = material_of P w'"
  shows "wr_action_type w = wr_action_type w' \<and> wr_authority_envelope_id w = wr_authority_envelope_id w' \<and>
     wr_canonical_action_hash w = wr_canonical_action_hash w' \<and> wr_expires_at w = wr_expires_at w' \<and>
     wr_issued_at w = wr_issued_at w' \<and> wr_issuer w = wr_issuer w' \<and> wr_subject w = wr_subject w' \<and>
     wr_ward_id w = wr_ward_id w' \<and> wr_nonce w = wr_nonce w'"
  using assms unfolding material_of_def by (rule warrantMaterial_fields)

text \<open>
  An issued warrant verifies: with a sound signer, a warrant issued on an ALLOW decision verifies for
  its own action hash at every time from issue up to, and not including, its expiry, under options
  that trust the key, revoke nothing and have not seen its nonce.
\<close>

theorem issued_warrant_verifies:
  assumes "issueWarrant P decision action envelope now signer ttl nonce = Inr (Some w)" "sound_signer P signer"
    and "date_parse P now = Some issuedMs" "date_parse P t = Some ms" "date_parse P (wr_expires_at w) = Some expiresMs"
    and "issuedMs \<le> ms" "ms < expiresMs"
  shows "verifyWarrant P w (cg_canonical_action_hash decision) t
     (default_options \<lparr> vo_trustedKeyIds := Some [sg_key_id signer], vo_seenNonces := Some (\<lambda>n. n \<noteq> nonce) \<rparr>) = None"
  using issueWarrant_Some[OF assms(1)] issued_signature_valid[OF assms(1,2)] assms(3-)
  by (simp add: verifyWarrant_ok default_options_def clock_skew_def lifetime_exceeded_def nonce_seen_def key_untrusted_def
      warrant_revoked_def)

text \<open>Printing the material never throws, so the signature is checked against the printed object.\<close>

lemma material_printed: "stableStringify P (JObj (warrant_object t e h x i u s w n)) = Inr (warrantMaterial P t e h x i u s w n)"
  using normalize_flat[OF warrant_object_flat(1)]
  by (simp add: warrantMaterial_def canonical_text_def stableStringify_def)

lemma not_revoked_iff:
  "\<not> warrant_revoked opts w \<longleftrightarrow> (case vo_revocations opts of None \<Rightarrow> True | Some l \<Rightarrow>
     \<not> (wr_warrant_id w \<noteq> [] \<and> JStr (wr_warrant_id w) \<in> set (revoked_warrant_ids l)) \<and>
     \<not> (wr_signing_key_id w \<noteq> [] \<and> JStr (wr_signing_key_id w) \<in> set (revoked_key_ids l)) \<and>
     \<not> (wr_authority_envelope_id w \<noteq> [] \<and> JStr (wr_authority_envelope_id w) \<in> set (revoked_envelope_ids l)))"
  by (auto simp: warrant_revoked_def revocationReason_def listed_def split: option.split if_splits)

text \<open>
  C7 What acceptance means, in terms of the warrant and the options alone.  A warrant verifies exactly
  when it was decided ALLOW, is unconsumed, carries the presented action hash, and
  (1) the three times parse, the present lies before the expiry and the issue at most the clock skew
  (one minute unless the options say otherwise) ahead, and the validity does not exceed the lifetime
  ceiling if there is one; (2) its nonce, if it has one, was not seen; (3) its key id is on the
  allowlist if there is one; (4) neither its id, its key id nor its envelope id is on the revocation
  list if there is one; (5) Ed25519 accepts its signature under the embedded key over the canonical
  text of exactly these eleven fields.  Consuming it succeeds in just these cases, and afterwards it
  is refused as consumed, whatever hash, time and options are presented.
\<close>

theorem verifyWarrant_exact:
  "(verifyWarrant P w h now opts = None \<longleftrightarrow>
     wr_decision w = ''ALLOW'' \<and> \<not> wr_consumed w \<and> wr_canonical_action_hash w = h \<and>
     (\<exists>nowMs issuedMs expiresMs. date_parse P now = Some nowMs \<and> date_parse P (wr_issued_at w) = Some issuedMs \<and>
        date_parse P (wr_expires_at w) = Some expiresMs \<and> nowMs < expiresMs \<and>
        of_int issuedMs \<le> of_int nowMs + (case vo_maxClockSkewMs opts of Some skew \<Rightarrow> skew | None \<Rightarrow> 60000) \<and>
        (case vo_maxLifetimeMs opts of Some ceil \<Rightarrow> of_int expiresMs \<le> of_int issuedMs + ceil | None \<Rightarrow> True)) \<and>
     (case vo_seenNonces opts of None \<Rightarrow> True | Some seen \<Rightarrow>
        (case wr_nonce w of None \<Rightarrow> True | Some n \<Rightarrow> \<not> (n \<noteq> [] \<and> seen n))) \<and>
     (case vo_trustedKeyIds opts of None \<Rightarrow> True | Some ids \<Rightarrow> wr_signing_key_id w \<in> set ids) \<and>
     (case vo_revocations opts of None \<Rightarrow> True | Some l \<Rightarrow>
        \<not> (wr_warrant_id w \<noteq> [] \<and> JStr (wr_warrant_id w) \<in> set (revoked_warrant_ids l)) \<and>
        \<not> (wr_signing_key_id w \<noteq> [] \<and> JStr (wr_signing_key_id w) \<in> set (revoked_key_ids l)) \<and>
        \<not> (wr_authority_envelope_id w \<noteq> [] \<and> JStr (wr_authority_envelope_id w) \<in> set (revoked_envelope_ids l))) \<and>
     wr_signature_algorithm w = ''ed25519'' \<and>
     (\<exists>msg. stableStringify P (JObj
          [(''action_type'', JStr (wr_action_type w)), (''authority_envelope_id'', JStr (wr_authority_envelope_id w)),
           (''canonical_action_hash'', JStr (wr_canonical_action_hash w)), (''expires_at'', JStr (wr_expires_at w)),
           (''issued_at'', JStr (wr_issued_at w)), (''issuer'', JStr (wr_issuer w)), (''subject'', JStr (wr_subject w)),
           (''ward_id'', JStr (wr_ward_id w)), (''nonce'', case wr_nonce w of Some n \<Rightarrow> JStr n | None \<Rightarrow> JUndef),
           (''decision'', JStr ''ALLOW''), (''single_use'', JBool True)]) = Inr msg \<and>
        ed25519_verify P (wr_signing_public_key w) msg (wr_signature w) = Some True)) \<and>
   (case consumeWarrant P w h now opts of
      Inl _ \<Rightarrow> verifyWarrant P w h now opts \<noteq> None
    | Inr w' \<Rightarrow> verifyWarrant P w h now opts = None \<and> w' = w \<lparr> wr_consumed := True \<rparr> \<and>
        verifyWarrant P w' h' now' opts' = Some WARRANT_CONSUMED)"
proof (rule conjI, goal_cases)
  case 1
  have sig: "signature_valid P w \<longleftrightarrow> wr_signature_algorithm w = ''ed25519'' \<and>
      (\<exists>msg. stableStringify P (JObj (warrant_object (wr_action_type w) (wr_authority_envelope_id w)
          (wr_canonical_action_hash w) (wr_expires_at w) (wr_issued_at w) (wr_issuer w) (wr_subject w) (wr_ward_id w)
          (wr_nonce w))) = Inr msg \<and> ed25519_verify P (wr_signing_public_key w) msg (wr_signature w) = Some True)"
    by (auto simp: signature_valid_def verifyEd25519_def material_printed material_of_def split: option.splits)
  have life: "\<not> lifetime_exceeded opts i e \<longleftrightarrow>
      (case vo_maxLifetimeMs opts of Some ceil \<Rightarrow> of_int e \<le> of_int i + ceil | None \<Rightarrow> True)" for i e
    by (auto simp: lifetime_exceeded_def split: option.split)
  have skew: "of_int (i - n) \<le> clock_skew opts \<longleftrightarrow>
      of_int i \<le> of_int n + (case vo_maxClockSkewMs opts of Some skew \<Rightarrow> skew | None \<Rightarrow> 60000)" for i n
    by (auto simp: clock_skew_def split: option.split)
  have seen: "\<not> nonce_seen opts w \<longleftrightarrow> (case vo_seenNonces opts of None \<Rightarrow> True | Some seen \<Rightarrow>
      (case wr_nonce w of None \<Rightarrow> True | Some n \<Rightarrow> \<not> (n \<noteq> [] \<and> seen n)))"
    by (auto simp: nonce_seen_def split: option.split)
  have key: "\<not> key_untrusted opts k \<longleftrightarrow> (case vo_trustedKeyIds opts of None \<Rightarrow> True | Some ids \<Rightarrow> k \<in> set ids)" for k
    by (auto simp: key_untrusted_def split: option.split)
  have nonce: "opt_json JStr n = (case n of Some m \<Rightarrow> JStr m | None \<Rightarrow> JUndef)" for n
    by (cases n) simp_all
  show ?case
    unfolding verifyWarrant_ok sig life skew seen key not_revoked_iff warrant_object_def nonce by blast
next
  case 2
  have "verifyWarrant P (w \<lparr> wr_consumed := True \<rparr>) h' now' opts' = Some WARRANT_CONSUMED"
    if "verifyWarrant P w h now opts = None"
    using that by (simp add: verifyWarrant_ok) (simp add: verifyWarrant_def)
  then show ?case by (simp add: consumeWarrant_def split: option.split)
qed

text \<open>
  Single use: consuming a warrant succeeds exactly when it verifies, changes nothing but the consumed
  flag, and afterwards the warrant neither verifies nor can be consumed again, for any hash, time and
  options.
\<close>

theorem warrant_single_use:
  "(consumeWarrant P w h now opts = Inr w' \<longleftrightarrow>
      verifyWarrant P w h now opts = None \<and> w' = w \<lparr> wr_consumed := True \<rparr>) \<and>
   (consumeWarrant P w h now opts = Inr w' \<longrightarrow>
      verifyWarrant P w' h' now' opts' = Some WARRANT_CONSUMED \<and>
      consumeWarrant P w' h' now' opts' = Inl (WarrantVerificationFailed ''WARRANT_CONSUMED''))"
proof -
  have ok: "consumeWarrant P w h now opts = Inr w' \<longleftrightarrow>
      verifyWarrant P w h now opts = None \<and> w' = w \<lparr> wr_consumed := True \<rparr>"
    by (auto simp: consumeWarrant_def split: option.splits)
  have "verifyWarrant P w' h' now' opts' = Some WARRANT_CONSUMED" if "consumeWarrant P w h now opts = Inr w'"
    using that ok by (auto simp: verifyWarrant_ok) (simp add: verifyWarrant_def)
  with ok show ?thesis by (auto simp: consumeWarrant_def)
qed

text \<open>
  The allowlist of key ids is not bound to the keys: a warrant that verifies under an allowlist keeps
  verifying when its public key and signature are replaced by those of any other signer, whose id is
  not on the list, as long as the key id field is left as it was.
\<close>

theorem trusted_key_id_not_bound_to_key:
  assumes "verifyWarrant P w h now opts = None" "sound_signer P other"
  shows "verifyWarrant P (w \<lparr> wr_signing_public_key := sg_public_key_pem other,
       wr_signature := sg_sign other (material_of P w) \<rparr>) h now opts = None"
proof -
  let ?w = "w \<lparr> wr_signing_public_key := sg_public_key_pem other, wr_signature := sg_sign other (material_of P w) \<rparr>"
  have "material_of P ?w = material_of P w" by (simp add: material_of_def)
  moreover have "verifyEd25519 P (sg_public_key_pem other) (material_of P w) (sg_sign other (material_of P w))"
    using assms(2) by (simp add: signature_scheme.verify_sign)
  moreover have "nonce_seen opts ?w = nonce_seen opts w" "warrant_revoked opts ?w = warrant_revoked opts w"
    by (simp_all add: nonce_seen_def warrant_revoked_def split: option.split)
  ultimately show ?thesis
    using assms(1) by (simp add: verifyWarrant_ok signature_valid_def)
qed

definition sample_signer :: AristotleSigner where
  "sample_signer = \<lparr> sg_key_id = ''k1'', sg_algorithm = ''ed25519'', sg_public_key_pem = ''pem1'', sg_ephemeral = False,
     sg_sign = (\<lambda>m. ''pem1'' @ ''/'' @ m) \<rparr>"

definition other_signer :: AristotleSigner where
  "other_signer = \<lparr> sg_key_id = ''k2'', sg_algorithm = ''ed25519'', sg_public_key_pem = ''pem2'', sg_ephemeral = False,
     sg_sign = (\<lambda>m. ''pem2'' @ ''/'' @ m) \<rparr>"

lemma sample_signers_sound: "sound_signer sample sample_signer" "sound_signer sample other_signer"
  by (simp_all add: signature_scheme_def verifyEd25519_def sample_signer_def other_signer_def)

interpretation sample_signing: signature_scheme "verifyEd25519 sample" "sg_sign sample_signer" "sg_public_key_pem sample_signer"
  using sample_signers_sound by simp

definition sample_warrant :: Warrant where
  "sample_warrant =
     (let m = warrantMaterial sample ''pay'' ''e1'' ''h'' ''300'' ''200'' ''root'' ''agent'' ''w1'' (Some ''n1'')
      in \<lparr> wr_warrant_id = warrant_id_of sample m (sg_sign sample_signer m) ''k1'', wr_ward_id = ''w1'',
         wr_authority_envelope_id = ''e1'', wr_canonical_action_hash = ''h'', wr_subject = ''agent'', wr_action_type = ''pay'',
         wr_decision = ''ALLOW'', wr_issued_at = ''200'', wr_expires_at = ''300'', wr_single_use = True, wr_consumed = False,
         wr_nonce = Some ''n1'', wr_issuer = ''root'', wr_signature = sg_sign sample_signer m,
         wr_signature_algorithm = ''ed25519'', wr_signing_key_id = ''k1'', wr_signing_public_key = ''pem1'' \<rparr>)"

definition sample_decision :: CommitGateDecision where
  "sample_decision = \<lparr> cg_decision = ALLOW, cg_reason_codes = [ALLOWED], cg_canonical_action_hash = ''h'',
     cg_policy_version = None, cg_authority_envelope_id = None, cg_runtime_register_snapshot = [],
     cg_physical_invariant_result = None \<rparr>"

lemma sample_dates:
  "decimal_parse ''200'' = Some 200" "decimal_parse ''250'' = Some 250" "decimal_parse ''300'' = Some 300"
  "decimal_iso 300 = Some ''300''"
  by (simp_all add: decimal_parse_def decimal_iso_def is_digit_def digits_val_def char_digit_def
      nat_digits.simps digit_char_def char_of_def bit_iff_odd)

lemma sample_issued:
  "issueWarrant sample sample_decision sample_action sample_envelope ''200'' sample_signer (Some (1 / 10)) ''n1'' =
     Inr (Some sample_warrant)"
  by (simp add: issueWarrant_def sample_decision_def to_iso_def sample_dates effective_ttl_def js_trunc_def Let_def
      sample_warrant_def sample_action_def sample_envelope_def sample_signer_def)

theorem issued_warrant_verifies_witness:
  "verifyWarrant sample sample_warrant ''h'' ''250''
     (default_options \<lparr> vo_trustedKeyIds := Some [''k1''], vo_seenNonces := Some (\<lambda>n. n \<noteq> ''n1'') \<rparr>) = None"
  using issued_warrant_verifies[OF sample_issued sample_signers_sound(1), of 200 "''250''" 250 300]
  by (simp add: sample_dates sample_decision_def sample_warrant_def Let_def sample_signer_def)

theorem warrant_material_binds_witness:
  "material_of sample sample_warrant \<noteq> material_of sample (sample_warrant \<lparr> wr_subject := ''mallory'' \<rparr>)"
  using warrant_material_binds[of sample sample_warrant "sample_warrant \<lparr> wr_subject := ''mallory'' \<rparr>"]
  by (auto simp: sample_warrant_def Let_def)

lemma sample_warrant_ok:
  "verifyWarrant sample sample_warrant ''h'' ''250'' (default_options \<lparr> vo_trustedKeyIds := Some [''k1''] \<rparr>) = None"
  using issued_signature_valid[OF sample_issued sample_signers_sound(1)]
  by (simp add: verifyWarrant_ok sample_dates default_options_def clock_skew_def lifetime_exceeded_def nonce_seen_def
      key_untrusted_def warrant_revoked_def sample_warrant_def Let_def)

theorem warrant_single_use_witness:
  "verifyWarrant sample (sample_warrant \<lparr> wr_consumed := True \<rparr>) ''h'' ''250'' default_options = Some WARRANT_CONSUMED"
  using warrant_single_use[of sample sample_warrant "''h''" "''250''" "default_options \<lparr> vo_trustedKeyIds := Some [''k1''] \<rparr>"
      "sample_warrant \<lparr> wr_consumed := True \<rparr>" "''h''" "''250''" default_options] sample_warrant_ok by simp

theorem trusted_key_id_not_bound_to_key_witness:
  "verifyWarrant sample (sample_warrant \<lparr> wr_signing_public_key := ''pem2'',
       wr_signature := sg_sign other_signer (material_of sample sample_warrant) \<rparr>) ''h'' ''250''
       (default_options \<lparr> vo_trustedKeyIds := Some [''k1''] \<rparr>) = None \<and> sg_key_id other_signer \<notin> set [''k1'']"
  using trusted_key_id_not_bound_to_key[OF sample_warrant_ok sample_signers_sound(2)] by (simp add: other_signer_def)

end
