(* ===== verification/Ledger.thy ===== *)
theory Ledger
  imports Warrant
begin

text \<open>
  The Governance Evidence Ledger of \<open>index.ts\<close>: \<open>buildGelRecord\<close>, \<open>verifyGelRecords\<close>, the index and
  the in-memory and file backends behind the interface \<open>LedgerBackend\<close>, and \<open>LedgerStore.append\<close>.

  A ledger record is the JavaScript object itself, since verification hashes whatever properties it
  has.  The ledger file is the list of the objects its lines hold; writing a record stores what
  \<open>JSON.parse\<close> reads back from the printed line.
\<close>

section \<open>Records\<close>

type_synonym GelRecord = jsobject

definition GENESIS_HASH :: string where
  "GENESIS_HASH = ''GENESIS''"

definition GEL_NON_MATERIAL_FIELDS :: "string list" where
  "GEL_NON_MATERIAL_FIELDS =
     [''record_hash'', ''signature'', ''signature_algorithm'', ''signing_key_id'', ''signing_public_key'']"

record BuildGelRecordInput =
  bg_effect_event :: "json option"
  bg_ward :: WardManifest
  bg_action :: CanonicalActionInput
  bg_decision :: CommitGateDecision
  bg_warrant :: "Warrant option"
  bg_now :: "iso_time option"
  bg_signer :: "AristotleSigner option"
  bg_actor :: "json option"
  bg_trace_context :: "json option"

definition physical_json :: "PhysicalInvariantResult \<Rightarrow> json" where
  "physical_json r = JObj [(''ok'', JBool (pir_ok r)),
     (''reason_codes'', JArr (map (\<lambda>c. JStr (reason_name c)) (pir_reason_codes r))),
     (''detail'', JStr (pir_detail r))]"

definition gel_timestamp :: "iso_time \<Rightarrow> BuildGelRecordInput \<Rightarrow> iso_time" where
  "gel_timestamp wall input = (case bg_now input of Some t \<Rightarrow> t | None \<Rightarrow> wall)"

text \<open>The object \<open>base\<close>, whose canonical text is hashed; \<open>record_id\<close> is computed first.\<close>

definition gel_base :: "iso_time \<Rightarrow> string \<Rightarrow> json \<Rightarrow> BuildGelRecordInput \<Rightarrow> GelRecord" where
  "gel_base timestamp record_id previous_hash input =
     [(''record_id'', JStr record_id),
      (''previous_hash'', previous_hash),
      (''timestamp'', JStr timestamp),
      (''ward_id'', JStr (wm_ward_id (bg_ward input))),
      (''subject'', JStr (act_subject (bg_action input))),
      (''canonical_action_hash'', JStr (cg_canonical_action_hash (bg_decision input))),
      (''decision'', JStr (decision_name (cg_decision (bg_decision input)))),
      (''reason_codes'', JArr (map (\<lambda>c. JStr (reason_name c)) (cg_reason_codes (bg_decision input)))),
      (''authority_envelope_id'', opt_json JStr (cg_authority_envelope_id (bg_decision input))),
      (''warrant_id'', opt_json JStr (map_option wr_warrant_id (bg_warrant input))),
      (''policy_version'', opt_json JStr (cg_policy_version (bg_decision input))),
      (''request_id'', opt_json JStr (act_request_id (bg_action input))),
      (''trace_context'', opt_json (\<lambda>v. v) (bg_trace_context input)),
      (''actor'', opt_json (\<lambda>v. v) (bg_actor input)),
      (''runtime_register_snapshot'', JObj (cg_runtime_register_snapshot (bg_decision input))),
      (''physical_invariant_result'', opt_json physical_json (cg_physical_invariant_result (bg_decision input)))]
     @ (case bg_effect_event input of Some e \<Rightarrow> [(''effect_event'', e)] | None \<Rightarrow> [])"

definition sign_fields :: "AristotleSigner option \<Rightarrow> hash \<Rightarrow> jsobject" where
  "sign_fields signer record_hash =
     (case signer of None \<Rightarrow> []
      | Some s \<Rightarrow> [(''signature'', JStr (sg_sign s record_hash)),
                  (''signature_algorithm'', JStr (sg_algorithm s)),
                  (''signing_key_id'', JStr (sg_key_id s)),
                  (''signing_public_key'', JStr (sg_public_key_pem s))])"

definition record_id_of :: "platform \<Rightarrow> json \<Rightarrow> iso_time \<Rightarrow> hash \<Rightarrow> string result" where
  "record_id_of P previous_hash timestamp action_hash =
     bind_result (stableStringify P (JObj [(''previous_hash'', previous_hash), (''timestamp'', JStr timestamp),
                    (''action'', JStr action_hash)]))
       (\<lambda>s. Inr (''gel-'' @ take 24 (sha256_hex P s)))"

definition buildGelRecord :: "platform \<Rightarrow> iso_time \<Rightarrow> json \<Rightarrow> BuildGelRecordInput \<Rightarrow> GelRecord result" where
  "buildGelRecord P wall previous_hash input =
     (let timestamp = gel_timestamp wall input
      in bind_result (record_id_of P previous_hash timestamp (cg_canonical_action_hash (bg_decision input)))
        (\<lambda>record_id.
          let base = gel_base timestamp record_id previous_hash input
          in bind_result (stableStringify P (JObj base)) (\<lambda>printed.
               let record_hash = sha256_hex P printed
               in Inr (base @ [(''record_hash'', JStr record_hash)] @ sign_fields (bg_signer input) record_hash))))"

section \<open>Chain verification\<close>

record GelVerification =
  gv_ok :: bool
  gv_count :: nat
  gv_failure :: "string option"

definition gel_material :: "GelRecord \<Rightarrow> GelRecord" where
  "gel_material r = filter (\<lambda>e. fst e \<notin> set GEL_NON_MATERIAL_FIELDS) r"

definition record_signature_ok :: "platform \<Rightarrow> GelRecord \<Rightarrow> bool" where
  "record_signature_ok P r \<longleftrightarrow>
     obj_get r ''signature_algorithm'' = JStr ''ed25519'' \<and> truthy (obj_get r ''signing_public_key'') \<and>
     (case (as_string (obj_get r ''signing_public_key''), as_string (obj_get r ''record_hash''), as_string (obj_get r ''signature'')) of
        (Some pub, Some h, Some sig) \<Rightarrow> verifyEd25519 P pub h sig | _ \<Rightarrow> False)"

text \<open>The loop over the chain: the failure text of the first bad record, or none.\<close>

fun chain_failure :: "platform \<Rightarrow> nat \<Rightarrow> json \<Rightarrow> GelRecord list \<Rightarrow> string option result" where
  "chain_failure P index previous [] = Inr None"
| "chain_failure P index previous (r # rest) =
     (if obj_get r ''previous_hash'' \<noteq> previous
      then Inr (Some (''record '' @ nat_digits index @ '' previous_hash mismatch''))
      else bind_result (stableStringify P (JObj (gel_material r))) (\<lambda>printed.
        if obj_get r ''record_hash'' \<noteq> JStr (sha256_hex P printed)
        then Inr (Some (''record '' @ nat_digits index @ '' hash mismatch''))
        else if truthy (obj_get r ''signature'') \<and> \<not> record_signature_ok P r
        then Inr (Some (''record '' @ nat_digits index @ '' signature invalid''))
        else chain_failure P (Suc index) (obj_get r ''record_hash'') rest))"

definition verifyGelRecords :: "platform \<Rightarrow> GelRecord list \<Rightarrow> GelVerification result" where
  "verifyGelRecords P chain =
     bind_result (chain_failure P 0 (JStr GENESIS_HASH) chain) (\<lambda>failure.
       Inr \<lparr> gv_ok = (failure = None), gv_count = length chain, gv_failure = failure \<rparr>)"

definition chain_tip :: "GelRecord list \<Rightarrow> json" where
  "chain_tip chain = (case chain of [] \<Rightarrow> JStr GENESIS_HASH
     | _ \<Rightarrow> not_nullish (obj_get (last chain) ''record_hash'') (JStr GENESIS_HASH))"

definition is_admission :: "hash \<Rightarrow> GelRecord \<Rightarrow> bool" where
  "is_admission h r \<longleftrightarrow> obj_get r ''canonical_action_hash'' = JStr h \<and> obj_get r ''decision'' = JStr ''ALLOW''"

text \<open>\<open>hasPriorAdmission\<close> on the loaded chain.\<close>

definition hasPriorAdmission :: "GelRecord list \<Rightarrow> hash \<Rightarrow> bool" where
  "hasPriorAdmission chain h = list_ex (is_admission h) chain"

section \<open>The index and the backends\<close>

record LedgerIndex =
  ix_tip :: json
  ix_count :: nat
  ix_admitted :: "json set"
  ix_ok :: bool
  ix_failure :: "string option"

definition admitted_hashes :: "GelRecord list \<Rightarrow> json set" where
  "admitted_hashes chain =
     set (map (\<lambda>r. obj_get r ''canonical_action_hash'') (filter (\<lambda>r. obj_get r ''decision'' = JStr ''ALLOW'') chain))"

definition index_seed :: "platform \<Rightarrow> GelRecord list \<Rightarrow> LedgerIndex result" where
  "index_seed P chain =
     bind_result (verifyGelRecords P chain) (\<lambda>v.
       Inr \<lparr> ix_tip = chain_tip chain, ix_count = length chain, ix_admitted = admitted_hashes chain,
             ix_ok = gv_ok v, ix_failure = gv_failure v \<rparr>)"

definition index_record :: "GelRecord \<Rightarrow> LedgerIndex \<Rightarrow> LedgerIndex" where
  "index_record r ix = ix \<lparr> ix_tip := obj_get r ''record_hash'', ix_count := ix_count ix + 1,
     ix_admitted := (if obj_get r ''decision'' = JStr ''ALLOW''
       then insert (obj_get r ''canonical_action_hash'') (ix_admitted ix) else ix_admitted ix) \<rparr>"

definition index_verification :: "LedgerIndex \<Rightarrow> GelVerification" where
  "index_verification ix = \<lparr> gv_ok = ix_ok ix, gv_count = ix_count ix,
     gv_failure = (if ix_ok ix then None else ix_failure ix) \<rparr>"

text \<open>The interface \<open>LedgerBackend\<close>: an object is its state and these methods.\<close>

record 'b LedgerBackend =
  lb_tipHash :: "'b \<Rightarrow> json"
  lb_count :: "'b \<Rightarrow> nat"
  lb_hasAdmitted :: "'b \<Rightarrow> hash \<Rightarrow> bool"
  lb_verification :: "'b \<Rightarrow> GelVerification"
  lb_persist :: "GelRecord \<Rightarrow> 'b \<Rightarrow> 'b result"
  lb_records :: "'b \<Rightarrow> GelRecord list"
  lb_tail :: "nat \<Rightarrow> 'b \<Rightarrow> GelRecord list"

text \<open>\<open>xs.slice(-limit)\<close>, which for 0 is the whole list.\<close>

definition slice_tail :: "nat \<Rightarrow> 'a list \<Rightarrow> 'a list" where
  "slice_tail limit xs = (if limit = 0 then xs else drop (length xs - limit) xs)"

record memory_ledger =
  ml_index :: LedgerIndex
  ml_chain :: "GelRecord list"

definition memory_new :: "platform \<Rightarrow> GelRecord list \<Rightarrow> memory_ledger result" where
  "memory_new P seed = bind_result (index_seed P seed) (\<lambda>ix. Inr \<lparr> ml_index = ix, ml_chain = seed \<rparr>)"

definition memory_persist :: "GelRecord \<Rightarrow> memory_ledger \<Rightarrow> memory_ledger result" where
  "memory_persist r b = Inr \<lparr> ml_index = index_record r (ml_index b), ml_chain = ml_chain b @ [r] \<rparr>"

definition InMemoryLedgerBackend :: "memory_ledger LedgerBackend" where
  "InMemoryLedgerBackend =
     \<lparr> lb_tipHash = (\<lambda>b. ix_tip (ml_index b)), lb_count = (\<lambda>b. ix_count (ml_index b)),
       lb_hasAdmitted = (\<lambda>b h. JStr h \<in> ix_admitted (ml_index b)),
       lb_verification = (\<lambda>b. index_verification (ml_index b)),
       lb_persist = memory_persist, lb_records = ml_chain,
       lb_tail = (\<lambda>n b. slice_tail n (ml_chain b)) \<rparr>"

record file_ledger =
  fl_index :: LedgerIndex
  fl_file :: "GelRecord list"

text \<open>\<open>writeGelRecord\<close>, and what \<open>loadGelChain\<close> then reads at the end of the file.\<close>

definition writeGelRecord :: "platform \<Rightarrow> GelRecord \<Rightarrow> GelRecord list \<Rightarrow> GelRecord list result" where
  "writeGelRecord P r file_lines =
     bind_result (stableNormalize P (JObj r)) (\<lambda>v. Inr (file_lines @ [json_fields (reparsed v)]))"

definition file_new :: "platform \<Rightarrow> GelRecord list \<Rightarrow> file_ledger result" where
  "file_new P file_lines = bind_result (index_seed P file_lines) (\<lambda>ix. Inr \<lparr> fl_index = ix, fl_file = file_lines \<rparr>)"

definition file_persist :: "platform \<Rightarrow> GelRecord \<Rightarrow> file_ledger \<Rightarrow> file_ledger result" where
  "file_persist P r b =
     bind_result (writeGelRecord P r (fl_file b)) (\<lambda>file_lines.
       Inr \<lparr> fl_index = index_record r (fl_index b), fl_file = file_lines \<rparr>)"

definition FileLedgerBackend :: "platform \<Rightarrow> file_ledger LedgerBackend" where
  "FileLedgerBackend P =
     \<lparr> lb_tipHash = (\<lambda>b. ix_tip (fl_index b)), lb_count = (\<lambda>b. ix_count (fl_index b)),
       lb_hasAdmitted = (\<lambda>b h. JStr h \<in> ix_admitted (fl_index b)),
       lb_verification = (\<lambda>b. index_verification (fl_index b)),
       lb_persist = file_persist P, lb_records = fl_file,
       lb_tail = (\<lambda>n b. slice_tail n (fl_file b)) \<rparr>"

text \<open>\<open>LedgerStore.append\<close>: the record and the new backend state.\<close>

definition ledger_append ::
  "platform \<Rightarrow> 'b LedgerBackend \<Rightarrow> iso_time \<Rightarrow> BuildGelRecordInput \<Rightarrow> 'b \<Rightarrow> (GelRecord \<times> 'b) result" where
  "ledger_append P B wall input b =
     bind_result (buildGelRecord P wall (lb_tipHash B b) input) (\<lambda>r.
     bind_result (lb_persist B r b) (\<lambda>b'. Inr (r, b')))"

text \<open>\<open>appendGelRecord\<close>, which works on the file without an index.\<close>

definition appendGelRecord ::
  "platform \<Rightarrow> iso_time \<Rightarrow> BuildGelRecordInput \<Rightarrow> GelRecord list \<Rightarrow> (GelRecord \<times> GelRecord list) result" where
  "appendGelRecord P wall input file_lines =
     bind_result (buildGelRecord P wall (chain_tip file_lines) input) (\<lambda>r.
     bind_result (writeGelRecord P r file_lines) (\<lambda>file'. Inr (r, file')))"

section \<open>The contract of a backend\<close>

text \<open>A stored record agrees with the record that was passed in on every string-valued property.\<close>

definition same_strings :: "GelRecord \<Rightarrow> GelRecord \<Rightarrow> bool" where
  "same_strings r r' \<longleftrightarrow> (\<forall>k s. obj_get r k = JStr s \<longleftrightarrow> obj_get r' k = JStr s)"

text \<open>
  What \<open>LedgerStore.append\<close> relies on: the hot-path reads agree with the records, and a persisted
  record is appended to them.  \<open>hasPriorAdmission\<close> also relies on the index of admitted hashes.
\<close>

locale append_ledger =
  fixes B :: "'b LedgerBackend" and inv :: "'b \<Rightarrow> bool"
  assumes tip_records: "inv b \<Longrightarrow> lb_tipHash B b = chain_tip (lb_records B b)"
    and count_records: "inv b \<Longrightarrow> lb_count B b = length (lb_records B b)"
    and persist_records: "inv b \<Longrightarrow> distinct (map fst r) \<Longrightarrow> obj_get r ''record_hash'' = JStr h \<Longrightarrow>
      lb_persist B r b = Inr b' \<Longrightarrow>
      inv b' \<and> (\<exists>r'. lb_records B b' = lb_records B b @ [r'] \<and> same_strings r r')"

locale ledger_backend = append_ledger B inv for B :: "'b LedgerBackend" and inv :: "'b \<Rightarrow> bool" +
  assumes admitted_records: "inv b \<Longrightarrow> lb_hasAdmitted B b h \<longleftrightarrow> hasPriorAdmission (lb_records B b) h"

section \<open>Facts about built records\<close>

lemma gel_base_keys: "map fst (gel_base t i p input) =
    [''record_id'', ''previous_hash'', ''timestamp'', ''ward_id'', ''subject'', ''canonical_action_hash'',
     ''decision'', ''reason_codes'', ''authority_envelope_id'', ''warrant_id'', ''policy_version'', ''request_id'',
     ''trace_context'', ''actor'', ''runtime_register_snapshot'', ''physical_invariant_result'']
    @ (case bg_effect_event input of Some e \<Rightarrow> [''effect_event''] | None \<Rightarrow> [])"
  by (simp add: gel_base_def split: option.split)

lemma sign_fields_keys: "map fst (sign_fields s h) =
    (case s of None \<Rightarrow> [] | Some _ \<Rightarrow> [''signature'', ''signature_algorithm'', ''signing_key_id'', ''signing_public_key''])"
  by (simp add: sign_fields_def split: option.split)

lemma obj_get_append: "obj_get (xs @ ys) k = (if k \<in> fst ` set xs then obj_get xs k else obj_get ys k)"
  by (auto simp: obj_get_def map_add_def dom_map_of_conv_image_fst[symmetric] split: option.splits)

lemma buildGelRecord_Inr:
  assumes "buildGelRecord P wall prev input = Inr r"
  obtains i printed where "record_id_of P prev (gel_timestamp wall input) (cg_canonical_action_hash (bg_decision input)) = Inr i"
    "stableStringify P (JObj (gel_base (gel_timestamp wall input) i prev input)) = Inr printed"
    "r = gel_base (gel_timestamp wall input) i prev input @ [(''record_hash'', JStr (sha256_hex P printed))]
           @ sign_fields (bg_signer input) (sha256_hex P printed)"
  using assms by (auto simp: buildGelRecord_def Let_def)

lemma built_keys_distinct: "buildGelRecord P wall prev input = Inr r \<Longrightarrow> distinct (map fst r)"
  by (erule buildGelRecord_Inr) (simp add: gel_base_keys sign_fields_keys split: option.split)

lemma built_material: 
  assumes "buildGelRecord P wall prev input = Inr r"
  obtains i printed where "gel_material r = gel_base (gel_timestamp wall input) i prev input"
    "stableStringify P (JObj (gel_material r)) = Inr printed" "obj_get r ''record_hash'' = JStr (sha256_hex P printed)"
proof -
  obtain i printed where r: "stableStringify P (JObj (gel_base (gel_timestamp wall input) i prev input)) = Inr printed"
    "r = gel_base (gel_timestamp wall input) i prev input @ [(''record_hash'', JStr (sha256_hex P printed))]
           @ sign_fields (bg_signer input) (sha256_hex P printed)"
    using buildGelRecord_Inr[OF assms] by metis
  have base: "gel_material (gel_base t i p input) = gel_base t i p input" for t i p
    by (simp add: gel_material_def GEL_NON_MATERIAL_FIELDS_def gel_base_def split: option.split)
  have rest: "gel_material ((''record_hash'', h) # sign_fields s h') = []" for h s h'
    by (simp add: gel_material_def GEL_NON_MATERIAL_FIELDS_def sign_fields_def split: option.split)
  have m: "gel_material r = gel_base (gel_timestamp wall input) i prev input"
    using base rest by (simp add: r(2) gel_material_def)
  have "''record_hash'' \<notin> fst ` set (gel_base t i p input)" for t i p
    by (cases "bg_effect_event input") (simp_all add: gel_base_def)
  then have "obj_get r ''record_hash'' = JStr (sha256_hex P printed)"
    by (simp add: r(2) obj_get_append js_simps)
  with m r(1) that show thesis by simp
qed

lemma built_field:
  assumes "buildGelRecord P wall prev input = Inr r"
  shows "obj_get r ''previous_hash'' = prev"
    and "obj_get r ''canonical_action_hash'' = JStr (cg_canonical_action_hash (bg_decision input))"
    and "obj_get r ''decision'' = JStr (decision_name (cg_decision (bg_decision input)))"
    and "obj_get r ''ward_id'' = JStr (wm_ward_id (bg_ward input))"
    and "obj_get r ''subject'' = JStr (act_subject (bg_action input))"
  using assms by (auto elim!: buildGelRecord_Inr simp: gel_base_def js_simps)

lemma built_warrant_id:
  "buildGelRecord P wall prev input = Inr r \<Longrightarrow>
   obj_get r ''warrant_id'' = opt_json JStr (map_option wr_warrant_id (bg_warrant input))"
  by (auto elim!: buildGelRecord_Inr simp: gel_base_def js_simps)

lemma decision_name_ALLOW [simp]: "decision_name d = ''ALLOW'' \<longleftrightarrow> d = ALLOW"
  by (cases d) auto

lemma built_admission:
  "buildGelRecord P wall prev input = Inr r \<Longrightarrow>
   is_admission h r \<longleftrightarrow> cg_canonical_action_hash (bg_decision input) = h \<and> cg_decision (bg_decision input) = ALLOW"
  by (simp add: is_admission_def built_field)

context append_ledger
begin

lemma append_spec:
  assumes "inv b" "ledger_append P B wall inp b = Inr (r, b')"
  shows "inv b' \<and> (\<exists>r'. lb_records B b' = lb_records B b @ [r'] \<and> same_strings r r')"
proof -
  from assms(2) have r: "buildGelRecord P wall (lb_tipHash B b) inp = Inr r" "lb_persist B r b = Inr b'"
    by (auto simp: ledger_append_def)
  obtain h where "obj_get r ''record_hash'' = JStr h"
    using built_material[OF r(1)] by metis
  with persist_records[OF assms(1) built_keys_distinct[OF r(1)] _ r(2)] show ?thesis by blast
qed

end

section \<open>The backends keep the contract\<close>

definition index_agrees :: "GelRecord list \<Rightarrow> LedgerIndex \<Rightarrow> bool" where
  "index_agrees chain ix \<longleftrightarrow> ix_tip ix = chain_tip chain \<and> ix_count ix = length chain \<and>
     (\<forall>h. JStr h \<in> ix_admitted ix \<longleftrightarrow> hasPriorAdmission chain h)"

lemma admitted_hashes_iff: "JStr h \<in> admitted_hashes chain \<longleftrightarrow> hasPriorAdmission chain h"
  by (auto simp: admitted_hashes_def hasPriorAdmission_def is_admission_def list_ex_iff image_iff)

lemma index_seed_agrees: "index_seed P chain = Inr ix \<Longrightarrow> index_agrees chain ix"
  by (auto simp: index_seed_def index_agrees_def admitted_hashes_iff)

lemma same_strings_refl [simp]: "same_strings r r"
  by (simp add: same_strings_def)

lemma same_strings_admission: "same_strings r r' \<Longrightarrow> is_admission h r' \<longleftrightarrow> is_admission h r"
  by (simp add: same_strings_def is_admission_def)

lemma hasPriorAdmission_snoc:
  "hasPriorAdmission (chain @ [r]) h \<longleftrightarrow> hasPriorAdmission chain h \<or> is_admission h r"
  by (simp add: hasPriorAdmission_def)

lemma index_record_agrees:
  assumes "index_agrees chain ix" "same_strings r r'" "obj_get r ''record_hash'' = JStr h"
  shows "index_agrees (chain @ [r']) (index_record r ix)"
proof -
  have "obj_get r' ''record_hash'' = JStr h"
    using assms(2,3) by (auto simp: same_strings_def)
  then have "chain_tip (chain @ [r']) = JStr h"
    by (simp add: chain_tip_def list.case_eq_if)
  moreover have "JStr x \<in> ix_admitted (index_record r ix) \<longleftrightarrow> hasPriorAdmission (chain @ [r']) x" for x
    using assms(1) same_strings_admission[OF assms(2)]
    by (auto simp: index_agrees_def index_record_def hasPriorAdmission_snoc is_admission_def)
  ultimately show ?thesis
    using assms(1,3) by (simp add: index_agrees_def index_record_def)
qed

definition memory_inv :: "memory_ledger \<Rightarrow> bool" where
  "memory_inv b \<longleftrightarrow> index_agrees (ml_chain b) (ml_index b)"

definition file_inv :: "file_ledger \<Rightarrow> bool" where
  "file_inv b \<longleftrightarrow> index_agrees (fl_file b) (fl_index b)"

interpretation memory: ledger_backend InMemoryLedgerBackend memory_inv
proof (unfold_locales, goal_cases)
  case (3 b r h b')
  then show ?case
    using index_record_agrees[OF _ same_strings_refl, of "ml_chain b" "ml_index b" r h]
    by (auto simp: InMemoryLedgerBackend_def memory_inv_def memory_persist_def)
qed (auto simp: InMemoryLedgerBackend_def memory_inv_def index_agrees_def)

lemma reparsed_JStr: "reparsed v = JStr s \<longleftrightarrow> v = JStr s"
  by (cases v) auto

lemma obj_get_reparsed: "obj_get (map (\<lambda>e. (fst e, reparsed (snd e))) es) k = reparsed (obj_get es k)"
  by (induction es) (auto simp: js_simps obj_get_def)

lemma stored_same_strings:
  assumes "stableNormalize P (JObj r) = Inr v" "distinct (map fst r)"
  shows "same_strings r (json_fields (reparsed v))"
proof -
  obtain fs where v: "v = JObj fs" using stableNormalize_obj_form[OF assms(1)] by blast
  have n: "stableNormalize P (obj_get r k) = Inr (obj_get fs k)" for k
    using normalize_obj_get(1)[of P r fs k] assms v by simp
  have "stableNormalize P w = Inr (JStr s) \<longleftrightarrow> w = JStr s" for w s
    by (cases w) (auto simp: stableNormalize_obj)
  then have "obj_get fs k = JStr s \<longleftrightarrow> obj_get r k = JStr s" for k s
    using n[of k] by (metis sum.inject(2))
  then show ?thesis by (simp add: v same_strings_def obj_get_reparsed reparsed_JStr)
qed

interpretation file_backed: ledger_backend "FileLedgerBackend P" file_inv for P
proof (unfold_locales, goal_cases)
  case (3 b r h b')
  then obtain v where v: "stableNormalize P (JObj r) = Inr v"
    and b': "b' = \<lparr> fl_index = index_record r (fl_index b), fl_file = fl_file b @ [json_fields (reparsed v)] \<rparr>"
    by (auto simp: FileLedgerBackend_def file_persist_def writeGelRecord_def)
  with 3 index_record_agrees[OF _ stored_same_strings[OF v]] stored_same_strings[OF v] show ?case
    by (auto simp: FileLedgerBackend_def file_inv_def)
qed (auto simp: FileLedgerBackend_def file_inv_def index_agrees_def)

end
