(* ===== verification/Ledger_Chain.thy ===== *)
theory Ledger_Chain
  imports Ledger
begin

text \<open>
  The hash chain: appending through a \<open>LedgerStore\<close> keeps it verifiable, and a verified chain is
  tamper-evident, two verified chains of one length with the same tip having the same content unless
  the hash collides on two of their records.
\<close>

section \<open>Verified chains\<close>

definition chain_ok :: "platform \<Rightarrow> GelRecord list \<Rightarrow> bool" where
  "chain_ok P chain \<longleftrightarrow> (\<exists>v. verifyGelRecords P chain = Inr v \<and> gv_ok v)"

text \<open>The three checks of one record of the chain.\<close>

definition record_ok :: "platform \<Rightarrow> json \<Rightarrow> GelRecord \<Rightarrow> bool" where
  "record_ok P previous r \<longleftrightarrow> obj_get r ''previous_hash'' = previous \<and>
     (\<exists>printed. stableStringify P (JObj (gel_material r)) = Inr printed \<and>
        obj_get r ''record_hash'' = JStr (sha256_hex P printed)) \<and>
     (truthy (obj_get r ''signature'') \<longrightarrow> record_signature_ok P r)"

fun linked :: "platform \<Rightarrow> json \<Rightarrow> GelRecord list \<Rightarrow> bool" where
  "linked P previous [] = True"
| "linked P previous (r # rest) = (record_ok P previous r \<and> linked P (obj_get r ''record_hash'') rest)"

lemma chain_failure_None: "chain_failure P i previous chain = Inr None \<longleftrightarrow> linked P previous chain"
proof (induction P i previous chain rule: chain_failure.induct)
  case (2 P i previous r rest)
  show ?case
  proof (cases "stableStringify P (JObj (gel_material r))")
    case (Inr printed)
    with 2 show ?thesis by (auto simp: record_ok_def)
  qed (auto simp: record_ok_def)
qed simp

lemma chain_ok_linked: "chain_ok P chain \<longleftrightarrow> linked P (JStr GENESIS_HASH) chain"
  unfolding chain_failure_None[of P 0, symmetric] chain_ok_def verifyGelRecords_def by auto

lemma chain_ok_Nil [simp]: "chain_ok P []"
  by (simp add: chain_ok_linked)

definition tip_after :: "json \<Rightarrow> GelRecord list \<Rightarrow> json" where
  "tip_after previous chain = (if chain = [] then previous else obj_get (last chain) ''record_hash'')"

lemma linked_snoc: "linked P previous (chain @ [r]) \<longleftrightarrow> linked P previous chain \<and> record_ok P (tip_after previous chain) r"
  by (induction P previous chain rule: linked.induct) (auto simp: tip_after_def)

lemma linked_append:
  "linked P previous (xs @ ys) \<longleftrightarrow> linked P previous xs \<and> linked P (tip_after previous xs) ys"
proof (induction xs arbitrary: previous)
  case (Cons r xs)
  then show ?case by (cases xs) (auto simp: tip_after_def)
qed (simp add: tip_after_def)

lemma linked_hash: "linked P previous chain \<Longrightarrow> r \<in> set chain \<Longrightarrow> \<exists>h. obj_get r ''record_hash'' = JStr h"
  by (induction P previous chain rule: linked.induct) (auto simp: record_ok_def)

lemma chain_tip_linked:
  assumes "linked P (JStr GENESIS_HASH) chain"
  shows "chain_tip chain = tip_after (JStr GENESIS_HASH) chain"
proof (cases chain)
  case (Cons r rest)
  then have "last chain \<in> set chain" by (intro last_in_set) simp
  then obtain h where "obj_get (last chain) ''record_hash'' = JStr h"
    using linked_hash[OF assms] by blast
  with Cons show ?thesis by (simp add: chain_tip_def tip_after_def)
qed (simp add: chain_tip_def tip_after_def)

lemma verification_verdict:
  "verifyGelRecords P chain = Inr v \<Longrightarrow> gv_count v = length chain \<and> (gv_ok v \<longleftrightarrow> gv_failure v = None)"
  by (auto simp: verifyGelRecords_def)

section \<open>Appending keeps the chain verifiable\<close>

definition sound_signer_opt :: "platform \<Rightarrow> AristotleSigner option \<Rightarrow> bool" where
  "sound_signer_opt P s \<longleftrightarrow> (case s of None \<Rightarrow> True | Some sg \<Rightarrow> sound_signer P sg)"

lemma built_record_ok:
  assumes b: "buildGelRecord P wall prev input = Inr r" and s: "sound_signer_opt P (bg_signer input)"
  shows "record_ok P prev r"
proof -
  obtain i printed where p: "stableStringify P (JObj (gel_material r)) = Inr printed"
      "obj_get r ''record_hash'' = JStr (sha256_hex P printed)"
    using built_material[OF b] by metis
  obtain i' printed' where r: "r = gel_base (gel_timestamp wall input) i' prev input
      @ [(''record_hash'', JStr (sha256_hex P printed'))] @ sign_fields (bg_signer input) (sha256_hex P printed')"
    using buildGelRecord_Inr[OF b] by metis
  have key: "k \<notin> fst ` set (gel_base t j q input)"
    if "k \<in> {''record_hash'', ''signature'', ''signature_algorithm'', ''signing_key_id'', ''signing_public_key''}" for k t j q
    using that by (cases "bg_effect_event input") (auto simp: gel_base_def)
  have h: "sha256_hex P printed' = sha256_hex P printed"
    using p(2) by (simp add: r obj_get_append key js_simps)
  have "truthy (obj_get r ''signature'') \<longrightarrow> record_signature_ok P r"
  proof (cases "bg_signer input")
    case None
    then show ?thesis by (simp add: r obj_get_append key sign_fields_def js_simps)
  next
    case (Some sg)
    then have sg: "signature_scheme (verifyEd25519 P) (sg_sign sg) (sg_public_key_pem sg)" "sg_algorithm sg = ''ed25519''"
      using s by (simp_all add: sound_signer_opt_def)
    show ?thesis
      using Some sg(2) signature_scheme.verify_sign[OF sg(1)] signature_scheme.pub_nonempty[OF sg(1)]
      by (simp add: record_signature_ok_def r obj_get_append key sign_fields_def js_simps)
  qed
  then show ?thesis
    using p built_field(1)[OF b] by (simp add: record_ok_def)
qed

lemma append_chain_ok:
  assumes "chain_ok P chain" "buildGelRecord P wall (chain_tip chain) input = Inr r"
    and "sound_signer_opt P (bg_signer input)"
  shows "chain_ok P (chain @ [r])"
  using assms built_record_ok[OF assms(2,3)]
  by (simp add: chain_ok_linked linked_snoc chain_tip_linked)

section \<open>A verified chain is tamper-evident\<close>

definition material_text :: "platform \<Rightarrow> GelRecord \<Rightarrow> string" where
  "material_text P r = canonical_text P (JObj (gel_material r))"

definition same_material :: "platform \<Rightarrow> GelRecord \<Rightarrow> GelRecord \<Rightarrow> bool" where
  "same_material P r r' \<longleftrightarrow> stableNormalize P (JObj (gel_material r)) = stableNormalize P (JObj (gel_material r'))"

definition faithful_record :: "platform \<Rightarrow> GelRecord \<Rightarrow> bool" where
  "faithful_record P r \<longleftrightarrow> distinct (map fst r) \<and> printable P (JObj (gel_material r))"

lemma record_ok_hash: "record_ok P prev r \<Longrightarrow> obj_get r ''record_hash'' = JStr (sha256_hex P (material_text P r))"
  by (auto simp: record_ok_def material_text_def canonical_text_def)

lemma gel_material_get: "k \<notin> set GEL_NON_MATERIAL_FIELDS \<Longrightarrow> obj_get (gel_material r) k = obj_get r k"
  by (induction r) (auto simp: gel_material_def obj_get_def)

lemma same_material_field:
  assumes "same_material P r r'" "faithful_record P r" "faithful_record P r'" "k \<notin> set GEL_NON_MATERIAL_FIELDS"
  shows "stableNormalize P (obj_get r k) = stableNormalize P (obj_get r' k)"
proof -
  obtain w where w: "stableNormalize P (JObj (gel_material r)) = Inr w"
    using assms(2) by (auto simp: faithful_record_def printable_def split: sum.splits)
  have "distinct (map fst (gel_material x))" if "faithful_record P x" for x
    using that by (simp add: faithful_record_def gel_material_def distinct_map_filter)
  then have "stableNormalize P (obj_get (gel_material r) k) = stableNormalize P (obj_get (gel_material r') k)"
    using assms(1-3) by (intro normalize_fields_eq[OF _ w]) (auto simp: same_material_def)
  then show ?thesis using assms(4) by (simp add: gel_material_get)
qed

lemma same_hash_same_material:
  assumes "record_ok P p r" "record_ok P p' r'" "obj_get r ''record_hash'' = obj_get r' ''record_hash''"
    and "faithful_record P r" "faithful_record P r'"
  shows "same_material P r r' \<or> sha256_collision P (material_text P r) (material_text P r')"
proof -
  have "sha256_hex P (material_text P r) = sha256_hex P (material_text P r')"
    using assms(1-3) by (simp add: record_ok_hash)
  then consider "material_text P r = material_text P r'" | "sha256_collision P (material_text P r) (material_text P r')"
    by (auto dest: sha256_eqD)
  then show ?thesis
  proof cases
    case 1
    then show ?thesis
      using assms(4,5) canonical_text_inj by (auto simp: material_text_def same_material_def faithful_record_def)
  qed simp
qed

lemma stableNormalize_JStr: "stableNormalize P v = Inr (JStr s) \<longleftrightarrow> v = JStr s"
  by (cases v) (auto simp: stableNormalize_obj)

lemma linked_tip_JStr: "linked P (JStr g) chain \<Longrightarrow> \<exists>h. tip_after (JStr g) chain = JStr h"
  using linked_hash[of P "JStr g" chain "last chain"] by (auto simp: tip_after_def)

text \<open>Equal tips propagate backwards, record by record.\<close>

lemma chain_binding:
  assumes "length xs = length ys" "linked P (JStr g) xs" "linked P (JStr g) ys"
    and "tip_after (JStr g) xs = tip_after (JStr g) ys"
    and "list_all (faithful_record P) xs" "list_all (faithful_record P) ys"
  shows "list_all2 (same_material P) xs ys \<or>
     (\<exists>i < length xs. sha256_collision P (material_text P (xs ! i)) (material_text P (ys ! i)))"
  using assms
proof (induction xs arbitrary: ys rule: rev_induct)
  case (snoc r xs)
  from snoc.prems(1) obtain r' ys' where ys: "ys = ys' @ [r']" and len: "length xs = length ys'"
    by (cases ys rule: rev_cases) auto
  note linked = snoc.prems(2,3)[unfolded ys linked_snoc]
  have hash: "obj_get r ''record_hash'' = obj_get r' ''record_hash''"
    using snoc.prems(4) by (simp add: ys tip_after_def)
  have faithful: "faithful_record P r" "faithful_record P r'" "list_all (faithful_record P) xs" "list_all (faithful_record P) ys'"
    using snoc.prems(5,6) ys by simp_all
  show ?case
  proof (cases "same_material P r r'")
    case True
    have "''previous_hash'' \<notin> set GEL_NON_MATERIAL_FIELDS" by (simp add: GEL_NON_MATERIAL_FIELDS_def)
    from same_material_field[OF True faithful(1,2) this]
    have "stableNormalize P (tip_after (JStr g) xs) = stableNormalize P (tip_after (JStr g) ys')"
      using linked by (simp add: record_ok_def)
    then have "tip_after (JStr g) xs = tip_after (JStr g) ys'"
      using linked_tip_JStr linked by (metis stableNormalize_JStr)
    from snoc.IH[OF len _ _ this faithful(3,4)] linked
    consider "list_all2 (same_material P) xs ys'"
      | i where "i < length xs" "sha256_collision P (material_text P (xs ! i)) (material_text P (ys' ! i))" by auto
    then show ?thesis
    proof cases
      case 1
      then show ?thesis using True ys len by (simp add: list_all2_append)
    next
      case 2
      then show ?thesis using ys len by (auto simp: nth_append intro!: exI[of _ i])
    qed
  next
    case False
    then have "sha256_collision P (material_text P r) (material_text P r')"
      using same_hash_same_material[OF _ _ hash faithful(1,2)] linked by blast
    then show ?thesis using ys len by (auto simp: nth_append intro!: exI[of _ "length xs"])
  qed
qed simp

section \<open>Properties\<close>

text \<open>
  C5 Tamper evidence: two ledger chains of one length that both verify and have the same tip hash have
  the same hashed content record by record, up to the order of properties, or the texts of two records
  at one position are a SHA-256 collision.  The records have distinct property names and finite numbers
  of the range that prints positionally (\<open>faithful_record\<close>).
\<close>

theorem chain_tamper_evident:
  assumes "chain_ok P xs" "chain_ok P ys" "length xs = length ys" "chain_tip xs = chain_tip ys"
    and "list_all (faithful_record P) xs" "list_all (faithful_record P) ys"
  shows "list_all2 (same_material P) xs ys \<or>
     (\<exists>i. i < length xs \<and> sha256_collision P (material_text P (xs ! i)) (material_text P (ys ! i)))"
  using chain_binding[of xs ys P GENESIS_HASH] assms by (auto simp: chain_ok_linked chain_tip_linked)

text \<open>
  Appending keeps the chain verifiable: a record built on the tip of a verified chain, by a sound
  signer or unsigned, extends it to a verified chain, whose verification reports one more record.
\<close>

theorem append_keeps_chain:
  assumes "chain_ok P chain" "buildGelRecord P wall (chain_tip chain) input = Inr r"
    and "sound_signer_opt P (bg_signer input)"
  shows "\<exists>v. verifyGelRecords P (chain @ [r]) = Inr v \<and> gv_ok v \<and> gv_count v = Suc (length chain) \<and> gv_failure v = None"
  using append_chain_ok[OF assms] verification_verdict[of P "chain @ [r]"] unfolding chain_ok_def by fastforce

text \<open>
  A single altered record is detected: a record of a verified chain cannot be replaced by one with
  another content and the same record hash, unless the two contents are a SHA-256 collision; replacing
  it and keeping the rest breaks the verification.
\<close>

theorem altered_record_detected:
  assumes "chain_ok P (xs @ [r] @ ys)" "chain_ok P (xs @ [r'] @ ys)" "ys \<noteq> []"
    and "faithful_record P r" "faithful_record P r'"
  shows "same_material P r r' \<or> sha256_collision P (material_text P r) (material_text P r')"
proof -
  let ?t = "tip_after (JStr GENESIS_HASH) xs"
  have ok: "record_ok P ?t r" "record_ok P ?t r'"
    and "linked P (obj_get r ''record_hash'') ys" "linked P (obj_get r' ''record_hash'') ys"
    using assms(1,2) by (auto simp: chain_ok_linked linked_append)
  then have "obj_get r ''record_hash'' = obj_get r' ''record_hash''"
    using assms(3) by (cases ys) (auto simp: record_ok_def)
  from same_hash_same_material[OF ok this assms(4,5)] show ?thesis .
qed

definition sample_build :: BuildGelRecordInput where
  "sample_build = \<lparr> bg_effect_event = None, bg_ward = sample_ward, bg_action = sample_action, bg_decision = sample_decision,
     bg_warrant = None, bg_now = Some ''200'', bg_signer = Some sample_signer, bg_actor = None, bg_trace_context = None \<rparr>"

lemma normalize_strings [simp]: "stableNormalize P (JArr (map (\<lambda>c. JStr (f c)) cs)) = Inr (JArr (map (\<lambda>c. JStr (f c)) cs))"
proof -
  have "map_result (stableNormalize P) (map (\<lambda>c. JStr (f c)) cs) = Inr (map (\<lambda>c. JStr (f c)) cs)"
    by (induction cs) auto
  then show ?thesis by simp
qed

lemma sample_built: "\<exists>r. buildGelRecord sample wall (JStr h) sample_build = Inr r"
proof -
  have base: "\<exists>s. stableStringify sample (JObj (gel_base t i (JStr h) sample_build)) = Inr s" for t i
    unfolding stableStringify_def
    by (simp add: gel_base_def sample_build_def sample_ward_def sample_action_def sample_decision_def stableNormalize_obj
        defined_entry_def)
  have "\<exists>i. record_id_of sample (JStr h) t c = Inr i" for t c
    using normalize_flat[of "[(''previous_hash'', JStr h), (''timestamp'', JStr t), (''action'', JStr c)]"]
    by (simp add: record_id_of_def stableStringify_def flat_object_def)
  with base show ?thesis
    unfolding buildGelRecord_def Let_def by (metis bind_result.simps(2))
qed

text \<open>A one-record chain, and the same record with its properties in another order.\<close>

definition sample_record :: GelRecord where
  "sample_record = [(''previous_hash'', JStr ''GENESIS''), (''note'', JStr ''n''),
     (''record_hash'', JStr (canonical_text sample (JObj [(''previous_hash'', JStr ''GENESIS''), (''note'', JStr ''n'')])))]"

definition sample_reordered :: GelRecord where
  "sample_reordered = [(''note'', JStr ''n''), (''record_hash'', obj_get sample_record ''record_hash''),
     (''previous_hash'', JStr ''GENESIS'')]"

lemma sample_record_material:
  "gel_material sample_record = [(''previous_hash'', JStr ''GENESIS''), (''note'', JStr ''n'')]"
  "gel_material sample_reordered = [(''note'', JStr ''n''), (''previous_hash'', JStr ''GENESIS'')]"
  by (simp_all add: gel_material_def sample_record_def sample_reordered_def GEL_NON_MATERIAL_FIELDS_def)

lemma sample_record_faithful: "faithful_record sample sample_record" "faithful_record sample sample_reordered"
  using printable_flat[of "gel_material sample_record" sample] printable_flat[of "gel_material sample_reordered" sample]
  by (simp_all add: faithful_record_def sample_record_material flat_object_def)
     (simp_all add: sample_record_def sample_reordered_def)

lemma sample_record_text:
  "stableStringify sample (JObj [(''note'', JStr ''n''), (''previous_hash'', JStr ''GENESIS'')]) =
   stableStringify sample (JObj [(''previous_hash'', JStr ''GENESIS''), (''note'', JStr ''n'')])"
  by (simp add: stableStringify_def stableNormalize_obj defined_entry_def)

lemma sample_record_chain: "chain_ok sample [sample_record]" "chain_ok sample [sample_reordered]"
proof -
  obtain s where s: "stableStringify sample (JObj (gel_material sample_record)) = Inr s"
    using normalize_flat[of "gel_material sample_record" sample]
    by (simp add: stableStringify_def sample_record_material flat_object_def)
  then show "chain_ok sample [sample_record]"
    by (simp add: chain_ok_linked record_ok_def GENESIS_HASH_def canonical_text_def sample_record_material)
       (simp add: sample_record_def js_simps canonical_text_def)
  from s show "chain_ok sample [sample_reordered]"
    by (simp add: chain_ok_linked record_ok_def GENESIS_HASH_def canonical_text_def sample_record_material sample_record_text)
       (simp add: sample_record_def sample_reordered_def js_simps canonical_text_def)
qed

theorem chain_tamper_evident_witness: "list_all2 (same_material sample) [sample_record] [sample_reordered]"
  using chain_tamper_evident[OF sample_record_chain] sample_record_faithful
  by (simp add: chain_tip_def sample_reordered_def js_simps)

end
