(* ===== verification/Budget.thy ===== *)
theory Budget
  imports Physical_Base
begin

text \<open>
  \<open>execution-control-runtime/src/budget.ts\<close>: budget policies, the pure check and the governor that
  keeps each subject's spend.  The main theorem is the sliding-window guarantee: whatever is
  requested, the actions admitted through check and record never exceed the cap in any window.

  A governor is in memory or backed by a file; the file is absent, unreadable (anything \<open>read\<close>
  rejects while parsing) or holds a map.
\<close>

section \<open>Data\<close>

record BudgetPolicy =
  bp_windowMs :: rat
  bp_maxCostPerWindow :: "rat option"
  bp_maxCallsPerWindow :: "rat option"

record BudgetEntry =
  be_at :: rat
  be_cost :: rat

datatype BudgetCheck = BudgetOk | BudgetExceeded string

section \<open>Policies\<close>

fun is_number :: "json \<Rightarrow> bool" where
  "is_number (JNum x) = True"
| "is_number JNonFinite = True"
| "is_number _ = False"

text \<open>\<open>typeof b.x === "number" ? b.x : typeof b.y === "number" ? b.y : undefined\<close>.\<close>

definition pick_number :: "json \<Rightarrow> string \<Rightarrow> string \<Rightarrow> json" where
  "pick_number b k k' =
     (if is_number (js_get b k) then js_get b k else if is_number (js_get b k') then js_get b k' else JUndef)"

definition is_safe_integer :: "rat \<Rightarrow> bool" where
  "is_safe_integer x \<longleftrightarrow> x = of_int \<lfloor>x\<rfloor> \<and> \<bar>x\<bar> \<le> 2 ^ 53 - 1"

definition is_object :: "json \<Rightarrow> bool" where
  "is_object v = (case v of JObj _ \<Rightarrow> True | JArr _ \<Rightarrow> True | _ \<Rightarrow> False)"

definition budgetPolicyFrom :: "json \<Rightarrow> BudgetPolicy option" where
  "budgetPolicyFrom raw =
     (if \<not> is_object raw then None
      else case as_number (pick_number raw ''windowMs'' ''window_ms'') of
        None \<Rightarrow> None
      | Some windowMs \<Rightarrow>
          (let maxCost = pick_number raw ''maxCostPerWindow'' ''max_cost_per_window'';
               maxCalls = pick_number raw ''maxCallsPerWindow'' ''max_calls_per_window''
           in if windowMs \<le> 0 then None
              else if maxCost = JUndef \<and> maxCalls = JUndef then None
              else if maxCost \<noteq> JUndef \<and> (case as_number maxCost of Some c \<Rightarrow> c < 0 | None \<Rightarrow> True) then None
              else if maxCalls \<noteq> JUndef \<and> (case as_number maxCalls of Some c \<Rightarrow> \<not> is_safe_integer c \<or> c < 0 | None \<Rightarrow> True) then None
              else Some \<lparr> bp_windowMs = windowMs, bp_maxCostPerWindow = as_number maxCost,
                          bp_maxCallsPerWindow = as_number maxCalls \<rparr>))"

text \<open>A policy as the object \<open>checkBudget\<close> validates again.\<close>

definition policy_json :: "BudgetPolicy \<Rightarrow> json" where
  "policy_json p = JObj [(''windowMs'', JNum (bp_windowMs p)),
     (''maxCostPerWindow'', opt_json JNum (bp_maxCostPerWindow p)),
     (''maxCallsPerWindow'', opt_json JNum (bp_maxCallsPerWindow p))]"

section \<open>The check\<close>

definition in_window :: "rat \<Rightarrow> BudgetEntry list \<Rightarrow> BudgetEntry list" where
  "in_window windowStart history = filter (\<lambda>e. be_at e \<ge> windowStart) history"

definition total_cost :: "BudgetEntry list \<Rightarrow> rat" where
  "total_cost es = sum_list (map be_cost es)"

definition js_round :: "rat \<Rightarrow> rat" where
  "js_round x = of_int \<lfloor>x + 1 / 2\<rfloor>"

definition budget_reason :: "string \<Rightarrow> rat \<Rightarrow> rat \<Rightarrow> rat \<Rightarrow> string" where
  "budget_reason what used cap windowMs =
     what @ '' budget exceeded: '' @ num_string used @ '' > '' @ num_string cap @ '' per '' @
     num_string (js_round (windowMs / 1000)) @ ''s''"

text \<open>\<open>now\<close> is \<open>None\<close> when it is \<open>NaN\<close>.\<close>

definition checkBudget :: "BudgetPolicy \<Rightarrow> BudgetEntry list \<Rightarrow> rat option \<Rightarrow> rat \<Rightarrow> BudgetCheck" where
  "checkBudget policy history now cost =
     (case now of
        None \<Rightarrow> BudgetExceeded ''invalid budget input''
      | Some t \<Rightarrow>
          if cost < 0 \<or> budgetPolicyFrom (policy_json policy) = None then BudgetExceeded ''invalid budget input''
          else let inWindow = in_window (t - bp_windowMs policy) history;
                   calls = of_nat (length inWindow) + 1;
                   spent = total_cost inWindow + cost
            in if (case bp_maxCallsPerWindow policy of Some m \<Rightarrow> calls > m | None \<Rightarrow> False)
               then BudgetExceeded (budget_reason ''call'' calls (the (bp_maxCallsPerWindow policy)) (bp_windowMs policy))
               else if (case bp_maxCostPerWindow policy of Some m \<Rightarrow> spent > m | None \<Rightarrow> False)
               then BudgetExceeded (budget_reason ''cost'' spent (the (bp_maxCostPerWindow policy)) (bp_windowMs policy))
               else BudgetOk)"

section \<open>The governor\<close>

type_synonym spend_map = "(string, BudgetEntry list) jsmap"

datatype budget_file = NoBudgetFile | UnreadableBudgetFile | BudgetContents spend_map
datatype BudgetGovernor = MemoryGovernor spend_map | FileGovernor budget_file

definition valid_spend :: "spend_map \<Rightarrow> bool" where
  "valid_spend m \<longleftrightarrow> list_all (\<lambda>(_, es). list_all (\<lambda>e. 0 \<le> be_cost e) es) m"

fun governor_read :: "BudgetGovernor \<Rightarrow> spend_map result" where
  "governor_read (MemoryGovernor m) = Inr m"
| "governor_read (FileGovernor NoBudgetFile) = Inr []"
| "governor_read (FileGovernor UnreadableBudgetFile) = Inl BudgetStateUnreadable"
| "governor_read (FileGovernor (BudgetContents m)) = (if valid_spend m then Inr m else Inl BudgetStateUnreadable)"

fun governor_persist :: "spend_map \<Rightarrow> BudgetGovernor \<Rightarrow> BudgetGovernor" where
  "governor_persist m (MemoryGovernor _) = MemoryGovernor m"
| "governor_persist m (FileGovernor _) = FileGovernor (BudgetContents m)"

definition history_of :: "string \<Rightarrow> spend_map \<Rightarrow> BudgetEntry list" where
  "history_of subject m = (case map_of m subject of Some es \<Rightarrow> es | None \<Rightarrow> [])"

definition governor_check :: "BudgetGovernor \<Rightarrow> string \<Rightarrow> BudgetPolicy \<Rightarrow> rat option \<Rightarrow> rat \<Rightarrow> BudgetCheck result" where
  "governor_check g subject policy now cost =
     bind_result (governor_read g) (\<lambda>m. Inr (checkBudget policy (history_of subject m) now cost))"

definition governor_record :: "BudgetGovernor \<Rightarrow> string \<Rightarrow> rat \<Rightarrow> rat option \<Rightarrow> rat \<Rightarrow> BudgetGovernor result" where
  "governor_record g subject cost now windowMs =
     (case now of None \<Rightarrow> Inl InvalidBudgetInput
      | Some t \<Rightarrow>
          if cost < 0 \<or> windowMs \<le> 0 then Inl InvalidBudgetInput
          else bind_result (governor_read g) (\<lambda>m.
            let new_entries = in_window (t - windowMs) (history_of subject m) @ [\<lparr> be_at = t, be_cost = cost \<rparr>]
            in Inr (governor_persist (map_set subject new_entries m) g)))"

definition governor_spent :: "BudgetGovernor \<Rightarrow> string \<Rightarrow> rat \<Rightarrow> rat \<Rightarrow> (nat \<times> rat) result" where
  "governor_spent g subject windowMs now =
     bind_result (governor_read g) (\<lambda>m.
       let inWindow = in_window (now - windowMs) (history_of subject m)
       in Inr (length inWindow, total_cost inWindow))"

section \<open>The sliding window\<close>

text \<open>A request is admitted when the check passes, and then recorded; the log keeps every admitted entry.\<close>

fun spend_run :: "BudgetPolicy \<Rightarrow> (rat \<times> rat) list \<Rightarrow> BudgetEntry list \<Rightarrow> BudgetEntry list \<Rightarrow> BudgetEntry list" where
  "spend_run policy [] history lg = lg"
| "spend_run policy ((t, cost) # rest) history lg =
     (if checkBudget policy history (Some t) cost = BudgetOk
      then spend_run policy rest (in_window (t - bp_windowMs policy) history @ [\<lparr> be_at = t, be_cost = cost \<rparr>])
             (lg @ [\<lparr> be_at = t, be_cost = cost \<rparr>])
      else spend_run policy rest history lg)"

definition window_entries :: "rat \<Rightarrow> rat \<Rightarrow> BudgetEntry list \<Rightarrow> BudgetEntry list" where
  "window_entries w t lg = filter (\<lambda>e. t - w \<le> be_at e \<and> be_at e \<le> t) lg"

definition within_cap :: "BudgetPolicy \<Rightarrow> BudgetEntry list \<Rightarrow> bool" where
  "within_cap policy es \<longleftrightarrow>
     (\<forall>m. bp_maxCallsPerWindow policy = Some m \<longrightarrow> of_nat (length es) \<le> m) \<and>
     (\<forall>m. bp_maxCostPerWindow policy = Some m \<longrightarrow> total_cost es \<le> m)"

text \<open>What holds of the pruned history and the full lg after any prefix of the requests, at time \<open>t\<close>.\<close>

definition spend_inv :: "BudgetPolicy \<Rightarrow> rat \<Rightarrow> BudgetEntry list \<Rightarrow> BudgetEntry list \<Rightarrow> bool" where
  "spend_inv policy t history lg \<longleftrightarrow>
     list_all (\<lambda>e. be_at e \<le> t \<and> 0 \<le> be_cost e) lg \<and>
     (\<forall>s \<ge> t - bp_windowMs policy. in_window s history = in_window s lg) \<and>
     (\<forall>u. within_cap policy (window_entries (bp_windowMs policy) u lg))"

lemma checkBudget_ok:
  "checkBudget policy history (Some t) cost = BudgetOk \<Longrightarrow>
   0 \<le> cost \<and> within_cap policy (in_window (t - bp_windowMs policy) history @ [\<lparr> be_at = t, be_cost = cost \<rparr>])"
  by (auto simp: checkBudget_def Let_def within_cap_def total_cost_def add.commute split: if_splits option.splits)

lemma total_cost_filter_le:
  "list_all (\<lambda>e. 0 \<le> be_cost e) es \<Longrightarrow> total_cost (filter Q es) \<le> total_cost es"
  by (induction es) (auto simp: total_cost_def)

lemma within_cap_filter:
  assumes "within_cap policy es" "list_all (\<lambda>e. 0 \<le> be_cost e) es"
  shows "within_cap policy (filter Q es)"
proof -
  have len: "(of_nat (length (filter Q es)) :: rat) \<le> of_nat (length es)"
    by (simp only: of_nat_le_iff length_filter_le)
  show ?thesis
    using assms(1) order_trans[OF len] order_trans[OF total_cost_filter_le[OF assms(2), of Q]]
    unfolding within_cap_def by blast
qed

lemma in_window_in_window: "s \<le> s' \<Longrightarrow> in_window s' (in_window s es) = in_window s' es"
  by (auto simp: in_window_def intro: filter_cong)

lemma in_window_snoc: "in_window s (es @ [e]) = in_window s es @ (if be_at e \<ge> s then [e] else [])"
  by (simp add: in_window_def)

lemma spend_inv_later: "spend_inv policy t history lg \<Longrightarrow> t \<le> t' \<Longrightarrow> spend_inv policy t' history lg"
  by (fastforce simp: spend_inv_def list_all_iff)

lemma spend_inv_admit:
  assumes inv: "spend_inv policy t history lg" and ok: "checkBudget policy history (Some t) cost = BudgetOk"
  shows "spend_inv policy t (in_window (t - bp_windowMs policy) history @ [\<lparr> be_at = t, be_cost = cost \<rparr>])
           (lg @ [\<lparr> be_at = t, be_cost = cost \<rparr>])"
proof -
  let ?e = "\<lparr> be_at = t, be_cost = cost \<rparr>" and ?w = "bp_windowMs policy"
  have cost: "0 \<le> cost" and cap: "within_cap policy (in_window (t - ?w) history @ [?e])"
    using checkBudget_ok[OF ok] by auto
  have lg: "list_all (\<lambda>e. be_at e \<le> t \<and> 0 \<le> be_cost e) (lg @ [?e])"
    using inv cost by (simp add: spend_inv_def)
  have same: "in_window s (in_window (t - ?w) history @ [?e]) = in_window s (lg @ [?e])" if "s \<ge> t - ?w" for s
    using that inv by (simp add: in_window_snoc in_window_in_window spend_inv_def)
  have whole: "in_window (t - ?w) history @ [?e] = in_window (t - ?w) lg @ [?e]"
    using inv by (simp add: spend_inv_def)
  have "within_cap policy (window_entries ?w u (lg @ [?e]))" for u
  proof (cases "t \<le> u")
    case True
    have "window_entries ?w u (lg @ [?e]) = filter (\<lambda>e. u - ?w \<le> be_at e) (in_window (t - ?w) lg @ [?e])"
      using True lg by (auto simp: window_entries_def in_window_def list_all_iff intro!: filter_cong)
    moreover have "list_all (\<lambda>e. 0 \<le> be_cost e) (in_window (t - ?w) lg @ [?e])"
      using lg by (auto simp: in_window_def list_all_iff)
    ultimately show ?thesis
      using within_cap_filter cap whole by metis
  next
    case False
    then show ?thesis using inv by (simp add: window_entries_def spend_inv_def)
  qed
  with lg same show ?thesis by (simp add: spend_inv_def)
qed

lemma spend_run_inv:
  "spend_inv policy t history lg \<Longrightarrow> sorted (t # map fst requests) \<Longrightarrow>
   within_cap policy (window_entries (bp_windowMs policy) u (spend_run policy requests history lg))"
proof (induction policy requests history lg arbitrary: t rule: spend_run.induct)
  case (1 policy history lg)
  then show ?case by (simp add: spend_inv_def)
next
  case (2 policy t' cost rest history lg)
  then have inv: "spend_inv policy t' history lg" and s: "sorted (t' # map fst rest)"
    by (auto intro: spend_inv_later)
  show ?case
    using 2(1)[OF _ spend_inv_admit[OF inv] s] 2(2)[OF _ inv s] by simp
qed

lemma within_cap_Nil:
  "(\<And>m. bp_maxCallsPerWindow policy = Some m \<Longrightarrow> 0 \<le> m) \<Longrightarrow> (\<And>m. bp_maxCostPerWindow policy = Some m \<Longrightarrow> 0 \<le> m) \<Longrightarrow>
   within_cap policy []"
  by (simp add: within_cap_def total_cost_def)

lemma spend_inv_Nil:
  assumes "budgetPolicyFrom raw = Some policy"
  shows "spend_inv policy t [] []"
proof -
  have "within_cap policy []"
    using assms by (intro within_cap_Nil)
      (auto simp: budgetPolicyFrom_def Let_def split: if_splits option.splits json.splits)
  then show ?thesis by (simp add: spend_inv_def in_window_def window_entries_def)
qed

section \<open>The governor\<close>

lemma read_persist: "valid_spend m \<Longrightarrow> governor_read (governor_persist m g) = Inr m"
  by (cases g) auto

lemma valid_spend_set:
  "valid_spend m \<Longrightarrow> list_all (\<lambda>e. 0 \<le> be_cost e) es \<Longrightarrow> valid_spend (map_set k es m)"
  by (induction k es m rule: map_set.induct) (auto simp: valid_spend_def)

lemma history_valid: "valid_spend m \<Longrightarrow> list_all (\<lambda>e. 0 \<le> be_cost e) (history_of k m)"
  by (cases "map_of m k") (auto simp: history_of_def valid_spend_def list_all_iff dest: map_of_SomeD)

section \<open>Properties\<close>

text \<open>
  C11 Sliding-window guarantee: for a valid policy and any sequence of requests in time order, of the
  actions admitted by the check and recorded, no time window of the policy's length holds more calls
  or more cost than the policy's caps, although the recorded history is pruned at every admission.
\<close>

theorem budget_sliding_window:
  assumes "budgetPolicyFrom raw = Some policy" "sorted (map fst requests)"
  shows "within_cap policy (window_entries (bp_windowMs policy) u (spend_run policy requests [] []))"
proof (cases requests)
  case Nil
  then show ?thesis using spend_inv_Nil[OF assms(1)] by (simp add: spend_inv_def)
next
  case (Cons r rest)
  have "sorted (fst r # map fst requests)" using assms(2) Cons by auto
  then show ?thesis using spend_run_inv[OF spend_inv_Nil[OF assms(1)]] by blast
qed

text \<open>Two calls per 10 ms: the third of three requests at times 0, 5 and 8 is refused, the one at 11 admitted.\<close>

definition sample_budget :: json where
  "sample_budget = JObj [(''windowMs'', JNum 10), (''maxCallsPerWindow'', JNum 2)]"

theorem budget_sliding_window_witness:
  "spend_run \<lparr> bp_windowMs = 10, bp_maxCostPerWindow = None, bp_maxCallsPerWindow = Some 2 \<rparr>
       [(0, 1), (5, 1), (8, 1), (11, 1)] [] [] =
     [\<lparr> be_at = 0, be_cost = 1 \<rparr>, \<lparr> be_at = 5, be_cost = 1 \<rparr>, \<lparr> be_at = 11, be_cost = 1 \<rparr>] \<and>
   within_cap \<lparr> bp_windowMs = 10, bp_maxCostPerWindow = None, bp_maxCallsPerWindow = Some 2 \<rparr>
     (window_entries 10 11 (spend_run \<lparr> bp_windowMs = 10, bp_maxCostPerWindow = None, bp_maxCallsPerWindow = Some 2 \<rparr>
       [(0, 1), (5, 1), (8, 1), (11, 1)] [] []))"
proof
  have valid: "budgetPolicyFrom (policy_json \<lparr> bp_windowMs = 10, bp_maxCostPerWindow = None, bp_maxCallsPerWindow = Some 2 \<rparr>) =
      Some \<lparr> bp_windowMs = 10, bp_maxCostPerWindow = None, bp_maxCallsPerWindow = Some 2 \<rparr>"
    by (simp add: budgetPolicyFrom_def policy_json_def is_object_def pick_number_def js_simps is_safe_integer_def)
  show "spend_run \<lparr> bp_windowMs = 10, bp_maxCostPerWindow = None, bp_maxCallsPerWindow = Some 2 \<rparr>
       [(0, 1), (5, 1), (8, 1), (11, 1)] [] [] =
     [\<lparr> be_at = 0, be_cost = 1 \<rparr>, \<lparr> be_at = 5, be_cost = 1 \<rparr>, \<lparr> be_at = 11, be_cost = 1 \<rparr>]"
    by (simp add: checkBudget_def valid in_window_def total_cost_def)
  show "within_cap \<lparr> bp_windowMs = 10, bp_maxCostPerWindow = None, bp_maxCallsPerWindow = Some 2 \<rparr>
     (window_entries 10 11 (spend_run \<lparr> bp_windowMs = 10, bp_maxCostPerWindow = None, bp_maxCallsPerWindow = Some 2 \<rparr>
       [(0, 1), (5, 1), (8, 1), (11, 1)] [] []))"
    using budget_sliding_window[OF valid, of "[(0, 1), (5, 1), (8, 1), (11, 1)]" 11] by simp
qed

text \<open>
  What the governor records is what it later checks against: after a successful \<open>record\<close> the
  subject's history is the recent part of the old one and the new entry, no other subject's history
  changes, and the new state is readable when the old one was valid, in memory and in a file.
\<close>

theorem governor_record_functional:
  assumes "governor_record g subject cost (Some t) windowMs = Inr g'"
    and "governor_read g = Inr m" "valid_spend m"
  shows "\<exists>m'. governor_read g' = Inr m' \<and> valid_spend m' \<and>
     history_of subject m' = in_window (t - windowMs) (history_of subject m) @ [\<lparr> be_at = t, be_cost = cost \<rparr>] \<and>
     (\<forall>other. other \<noteq> subject \<longrightarrow> history_of other m' = history_of other m)"
proof -
  let ?es = "in_window (t - windowMs) (history_of subject m) @ [\<lparr> be_at = t, be_cost = cost \<rparr>]"
  from assms(1,2) have "0 \<le> cost" and g': "g' = governor_persist (map_set subject ?es m) g"
    by (auto simp: governor_record_def Let_def split: if_splits)
  then have "valid_spend (map_set subject ?es m)"
    using assms(3) history_valid[OF assms(3), of subject] by (intro valid_spend_set) (auto simp: in_window_def list_all_iff)
  then show ?thesis
    using g' by (auto simp: read_persist history_of_def js_simps)
qed

theorem governor_record_functional_witness:
  "\<exists>m'. governor_read (FileGovernor (BudgetContents [(''agent'', [\<lparr> be_at = 7, be_cost = 2 \<rparr>])])) = Inr m' \<and>
     history_of ''agent'' m' = [\<lparr> be_at = 7, be_cost = 2 \<rparr>]"
  using governor_record_functional[of "FileGovernor NoBudgetFile" "''agent''" 2 7 10
      "FileGovernor (BudgetContents [(''agent'', [\<lparr> be_at = 7, be_cost = 2 \<rparr>])])" "[]"]
  by (simp add: governor_record_def history_of_def in_window_def valid_spend_def)

end
