(* ===== verification/Dual_Control.thy ===== *)
theory Dual_Control
  imports Warrant Budget
begin

text \<open>
  \<open>execution-control-runtime/src/dual-control.ts\<close>: M-of-N approval requests.  The store is a map from
  request ids to requests, in memory or in a file.  The life of one request is the step relation
  \<open>vote_step\<close>; the theorems show that an approved request carries the required number of distinct
  approvers other than the requesting subject and no rejection, and that a settled request never
  changes again.
\<close>

section \<open>Data\<close>

record DualControlPolicy =
  dp_actions :: "string list"
  dp_required :: rat
  dp_ttlMs :: "rat option"

datatype ApprovalStatus = pending | approved | rejected | expired
datatype ApprovalDecision = approve | reject

record ApprovalVote =
  av_by :: string
  av_decision :: ApprovalDecision
  av_reason :: "string option"
  av_at :: iso_time

text \<open>\<open>StoredRequest\<close>; an \<open>ApprovalRequest\<close> is such a request with its status.\<close>

record StoredRequest =
  sr_request_id :: string
  sr_canonical_action_hash :: hash
  sr_ward_id :: string
  sr_subject :: string
  sr_action_type :: string
  sr_required :: rat
  sr_votes :: "ApprovalVote list"
  sr_created_at :: iso_time
  sr_expires_at :: "iso_time option"

type_synonym ApprovalRequest = "StoredRequest \<times> ApprovalStatus"

record OpenApprovalInput =
  oa_canonicalHash :: hash
  oa_wardId :: string
  oa_subject :: string
  oa_actionType :: string
  oa_required :: rat
  oa_ttlMs :: "rat option"
  oa_now :: iso_time

section \<open>Operations\<close>

definition dualControlPolicyFrom :: "json \<Rightarrow> DualControlPolicy option" where
  "dualControlPolicyFrom raw =
     (if \<not> is_object raw then None
      else let actions = (case js_get raw ''actions'' of JArr vs \<Rightarrow> List.map_filter as_string vs | _ \<Rightarrow> []);
               ttl = pick_number raw ''ttlMs'' ''ttl_ms''
        in case as_number (js_get raw ''required'') of
             None \<Rightarrow> None
           | Some required \<Rightarrow>
               if actions = [] \<or> \<not> is_safe_integer required \<or> required < 1 then None
               else if ttl \<noteq> JUndef \<and> (case as_number ttl of Some t \<Rightarrow> t \<le> 0 | None \<Rightarrow> True) then None
               else Some \<lparr> dp_actions = actions, dp_required = required, dp_ttlMs = as_number ttl \<rparr>)"

definition approvers :: "ApprovalVote list \<Rightarrow> string set" where
  "approvers votes = set (map av_by (filter (\<lambda>v. av_decision v = approve) votes))"

definition evaluateApproval :: "platform \<Rightarrow> StoredRequest \<Rightarrow> iso_time \<Rightarrow> ApprovalStatus" where
  "evaluateApproval P req now =
     (if list_ex (\<lambda>v. av_decision v = reject) (sr_votes req) then rejected
      else if of_nat (card (approvers (sr_votes req))) \<ge> sr_required req then approved
      else if (case sr_expires_at req of Some e \<Rightarrow> e \<noteq> [] \<and> nan_less (date_parse P e) (date_parse P now) | None \<Rightarrow> False)
      then expired
      else pending)"

definition withStatus :: "platform \<Rightarrow> StoredRequest \<Rightarrow> iso_time \<Rightarrow> ApprovalRequest" where
  "withStatus P req now = (req, evaluateApproval P req now)"

definition requestIdFor :: "hash \<Rightarrow> string" where
  "requestIdFor canonicalHash = ''apr-'' @ take 16 canonicalHash"

type_synonym request_map = "(string, StoredRequest) jsmap"

datatype approval_file = NoApprovalFile | UnreadableApprovalFile | ApprovalContents request_map
datatype ApprovalStore = MemoryApprovals request_map | FileApprovals approval_file

definition valid_requests :: "request_map \<Rightarrow> bool" where
  "valid_requests m \<longleftrightarrow> list_all (\<lambda>(_, r). is_safe_integer (sr_required r) \<and> 1 \<le> sr_required r) m"

fun approvals_read :: "ApprovalStore \<Rightarrow> request_map result" where
  "approvals_read (MemoryApprovals m) = Inr m"
| "approvals_read (FileApprovals NoApprovalFile) = Inr []"
| "approvals_read (FileApprovals UnreadableApprovalFile) = Inl ApprovalStateUnreadable"
| "approvals_read (FileApprovals (ApprovalContents m)) =
     (if valid_requests m then Inr m else Inl ApprovalStateUnreadable)"

fun approvals_persist :: "request_map \<Rightarrow> ApprovalStore \<Rightarrow> ApprovalStore" where
  "approvals_persist m (MemoryApprovals _) = MemoryApprovals m"
| "approvals_persist m (FileApprovals _) = FileApprovals (ApprovalContents m)"

text \<open>\<open>...(input.ttlMs ? { expires_at: new Date(Date.parse(now) + ttlMs).toISOString() } : {})\<close>.\<close>

definition request_expiry :: "platform \<Rightarrow> iso_time \<Rightarrow> rat option \<Rightarrow> iso_time option result" where
  "request_expiry P now ttlMs =
     (case ttlMs of
        Some t \<Rightarrow> if t = 0 then Inr None
                  else bind_result (to_iso P (map_option (\<lambda>ms. of_int ms + t) (date_parse P now))) (\<lambda>e. Inr (Some e))
      | None \<Rightarrow> Inr None)"

definition approvals_request ::
  "platform \<Rightarrow> OpenApprovalInput \<Rightarrow> ApprovalStore \<Rightarrow> (ApprovalRequest \<times> ApprovalStore) result" where
  "approvals_request P input store =
     bind_result (approvals_read store) (\<lambda>m.
       let i = requestIdFor (oa_canonicalHash input)
       in case map_of m i of
            Some req \<Rightarrow> Inr (withStatus P req (oa_now input), store)
          | None \<Rightarrow>
              bind_result (request_expiry P (oa_now input) (oa_ttlMs input)) (\<lambda>expires_at.
                let req = \<lparr> sr_request_id = i, sr_canonical_action_hash = oa_canonicalHash input,
                      sr_ward_id = oa_wardId input, sr_subject = oa_subject input, sr_action_type = oa_actionType input,
                      sr_required = oa_required input, sr_votes = [], sr_created_at = oa_now input,
                      sr_expires_at = expires_at \<rparr>
                in Inr (withStatus P req (oa_now input), approvals_persist (map_set i req m) store)))"

definition approvals_get :: "platform \<Rightarrow> string \<Rightarrow> iso_time \<Rightarrow> ApprovalStore \<Rightarrow> ApprovalRequest option result" where
  "approvals_get P requestId now store =
     bind_result (approvals_read store) (\<lambda>m. Inr (map_option (\<lambda>req. withStatus P req now) (map_of m requestId)))"

definition approvals_getByHash :: "platform \<Rightarrow> hash \<Rightarrow> iso_time \<Rightarrow> ApprovalStore \<Rightarrow> ApprovalRequest option result" where
  "approvals_getByHash P canonicalHash now store = approvals_get P (requestIdFor canonicalHash) now store"

text \<open>The checks of \<open>vote\<close> on the stored request, and the vote it pushes.\<close>

definition cast_vote ::
  "platform \<Rightarrow> string \<Rightarrow> ApprovalDecision \<Rightarrow> string option \<Rightarrow> iso_time \<Rightarrow> StoredRequest \<Rightarrow> StoredRequest result" where
  "cast_vote P by_whom decision reason now req =
     (if evaluateApproval P req now \<noteq> pending then Inl (ApprovalSettled (sr_request_id req))
      else if by_whom = sr_subject req then Inl SeparationOfDuties
      else if list_ex (\<lambda>v. av_by v = by_whom) (sr_votes req) then Inl (AlreadyVoted by_whom)
      else Inr (req \<lparr> sr_votes := sr_votes req @ [\<lparr> av_by = by_whom, av_decision = decision,
                  av_reason = (if str_truthy reason then reason else None), av_at = now \<rparr>] \<rparr>))"

definition approvals_vote :: "platform \<Rightarrow> string \<Rightarrow> string \<Rightarrow> ApprovalDecision \<Rightarrow> string option \<Rightarrow> iso_time
    \<Rightarrow> ApprovalStore \<Rightarrow> (ApprovalRequest \<times> ApprovalStore) result" where
  "approvals_vote P requestId by_whom decision reason now store =
     bind_result (approvals_read store) (\<lambda>m.
       case map_of m requestId of
         None \<Rightarrow> Inl (UnknownApproval requestId)
       | Some req \<Rightarrow>
           bind_result (cast_vote P by_whom decision reason now req) (\<lambda>req'.
             Inr (withStatus P req' now, approvals_persist (map_set requestId req' m) store)))"

text \<open>\<open>list\<close> sorts by creation time, then by id, both with \<open>localeCompare\<close>.\<close>

definition request_le :: "platform \<Rightarrow> ApprovalRequest \<Rightarrow> ApprovalRequest \<Rightarrow> bool" where
  "request_le P a b =
     (let ca = sr_created_at (fst a); cb = sr_created_at (fst b)
      in if locale_le P ca cb \<and> locale_le P cb ca
         then locale_le P (sr_request_id (fst a)) (sr_request_id (fst b))
         else locale_le P ca cb)"

definition approvals_list :: "platform \<Rightarrow> iso_time \<Rightarrow> ApprovalStore \<Rightarrow> ApprovalRequest list result" where
  "approvals_list P now store =
     bind_result (approvals_read store) (\<lambda>m.
       Inr (sort_by (request_le P) (map (\<lambda>(_, req). withStatus P req now) m)))"

definition approvals_listPending :: "platform \<Rightarrow> iso_time \<Rightarrow> ApprovalStore \<Rightarrow> ApprovalRequest list result" where
  "approvals_listPending P now store =
     bind_result (approvals_list P now store) (\<lambda>rs. Inr (filter (\<lambda>r. snd r = pending) rs))"

section \<open>The life of a request\<close>

text \<open>One successful vote at some time.\<close>

inductive vote_step :: "platform \<Rightarrow> StoredRequest \<Rightarrow> StoredRequest \<Rightarrow> bool" for P where
  vote: "cast_vote P by_whom decision reason now req = Inr req' \<Longrightarrow> vote_step P req req'"

inductive_cases vote_stepE: "vote_step P req req'"

definition request_inv :: "StoredRequest \<Rightarrow> bool" where
  "request_inv req \<longleftrightarrow> distinct (map av_by (sr_votes req)) \<and> sr_subject req \<notin> av_by ` set (sr_votes req)"

lemma cast_vote_Inr:
  "cast_vote P w d r now req = Inr req' \<longleftrightarrow>
     evaluateApproval P req now = pending \<and> w \<noteq> sr_subject req \<and> w \<notin> av_by ` set (sr_votes req) \<and>
     req' = req \<lparr> sr_votes := sr_votes req @ [\<lparr> av_by = w, av_decision = d,
                  av_reason = (if str_truthy r then r else None), av_at = now \<rparr>] \<rparr>"
  by (auto simp: cast_vote_def list_ex_iff)

lemma vote_step_inv: "vote_step P req req' \<Longrightarrow> request_inv req \<Longrightarrow> request_inv req'"
  by (auto simp: cast_vote_Inr request_inv_def elim!: vote_stepE)

lemma vote_steps_inv: "(vote_step P)\<^sup>*\<^sup>* req req' \<Longrightarrow> request_inv req \<Longrightarrow> request_inv req'"
  by (induction rule: rtranclp_induct) (auto intro: vote_step_inv)

lemma vote_step_same:
  "vote_step P req req' \<Longrightarrow> sr_subject req' = sr_subject req \<and> sr_required req' = sr_required req \<and>
     sr_canonical_action_hash req' = sr_canonical_action_hash req"
  by (auto simp: cast_vote_Inr elim!: vote_stepE)

lemma vote_steps_same:
  "(vote_step P)\<^sup>*\<^sup>* req req' \<Longrightarrow> sr_subject req' = sr_subject req \<and> sr_required req' = sr_required req \<and>
     sr_canonical_action_hash req' = sr_canonical_action_hash req"
  by (induction rule: rtranclp_induct) (auto dest: vote_step_same)

text \<open>Rejection and approval do not depend on the time, so a settled request accepts no vote at any time.\<close>

lemma evaluateApproval_settled:
  "evaluateApproval P req now \<in> {approved, rejected} \<Longrightarrow> evaluateApproval P req now' = evaluateApproval P req now"
  by (auto simp: evaluateApproval_def split: if_splits)

lemma settled_no_step:
  assumes "evaluateApproval P req now \<in> {approved, rejected}"
  shows "\<not> vote_step P req req'"
proof
  assume "vote_step P req req'"
  then obtain now' where "evaluateApproval P req now' = pending"
    by (auto simp: cast_vote_Inr elim!: vote_stepE)
  with assms evaluateApproval_settled[OF assms, of now'] show False by auto
qed

lemma settled_final:
  assumes "(vote_step P)\<^sup>*\<^sup>* req req'" "evaluateApproval P req now \<in> {approved, rejected}"
  shows "req' = req"
  using assms(1) settled_no_step[OF assms(2)] by (auto elim: converse_rtranclpE)

lemma approved_meaning:
  assumes "request_inv req" "evaluateApproval P req now = approved"
  shows "sr_required req \<le> of_nat (card (approvers (sr_votes req)))"
    and "sr_subject req \<notin> approvers (sr_votes req)"
    and "\<forall>v \<in> set (sr_votes req). av_decision v = approve"
proof -
  show "sr_required req \<le> of_nat (card (approvers (sr_votes req)))"
    using assms(2) by (auto simp: evaluateApproval_def split: if_splits)
  show "sr_subject req \<notin> approvers (sr_votes req)"
    using assms(1) by (auto simp: request_inv_def approvers_def)
  show "\<forall>v \<in> set (sr_votes req). av_decision v = approve"
  proof
    fix v
    assume "v \<in> set (sr_votes req)"
    with assms(2) show "av_decision v = approve"
      by (cases "av_decision v") (auto simp: evaluateApproval_def list_ex_iff split: if_splits)
  qed
qed

section \<open>The store keeps the invariant\<close>

definition store_inv :: "request_map \<Rightarrow> bool" where
  "store_inv m \<longleftrightarrow> map_ok m \<and> (\<forall>i req. map_of m i = Some req \<longrightarrow> request_inv req \<and>
     requestIdFor (sr_canonical_action_hash req) = i \<and> is_safe_integer (sr_required req) \<and> 1 \<le> sr_required req)"

definition approvals_inv :: "ApprovalStore \<Rightarrow> bool" where
  "approvals_inv store \<longleftrightarrow> (\<forall>m. approvals_read store = Inr m \<longrightarrow> store_inv m)"

lemma store_inv_valid: "store_inv m \<Longrightarrow> valid_requests m"
  by (auto simp: store_inv_def valid_requests_def list_all_iff map_of_entry)

lemma approvals_read_persist: "store_inv m \<Longrightarrow> approvals_read (approvals_persist m store) = Inr m"
  by (cases store) (auto simp: store_inv_valid)

lemma persist_inv: "store_inv m \<Longrightarrow> approvals_inv (approvals_persist m store)"
  by (simp add: approvals_inv_def approvals_read_persist)

text \<open>The next map after opening a request, and after a vote.\<close>

lemma approvals_request_next:
  assumes "approvals_request P input store = Inr (r, store')" "approvals_inv store"
    and "is_safe_integer (oa_required input)" "1 \<le> oa_required input"
  shows "(\<exists>m. store' = store \<and> approvals_read store = Inr m) \<or> (\<exists>m. store' = approvals_persist m store \<and> store_inv m)"
proof -
  obtain m where m: "approvals_read store = Inr m" "store_inv m"
    using assms(1,2) by (auto simp: approvals_request_def approvals_inv_def)
  show ?thesis
  proof (cases "map_of m (requestIdFor (oa_canonicalHash input))")
    case (Some req)
    with assms(1) m show ?thesis by (auto simp: approvals_request_def)
  next
    case None
    with assms(1) m obtain req where req: "store' = approvals_persist (map_set (requestIdFor (oa_canonicalHash input)) req m) store"
      "sr_canonical_action_hash req = oa_canonicalHash input" "sr_votes req = []" "sr_required req = oa_required input"
      by (auto simp: approvals_request_def Let_def)
    have "store_inv (map_set (requestIdFor (oa_canonicalHash input)) req m)"
      using m(2) assms(3,4) req(2-4) by (auto simp: store_inv_def js_simps request_inv_def)
    with req(1) show ?thesis by blast
  qed
qed

lemma approvals_vote_next:
  assumes "approvals_vote P i w d reason now store = Inr (r, store')" "approvals_inv store"
  shows "\<exists>m. store' = approvals_persist m store \<and> store_inv m"
proof -
  obtain m req req' where m: "approvals_read store = Inr m" "store_inv m" "map_of m i = Some req"
    "cast_vote P w d reason now req = Inr req'" "store' = approvals_persist (map_set i req' m) store"
    using assms by (auto simp: approvals_vote_def approvals_inv_def split: option.splits)
  have step: "vote_step P req req'" using m(4) by (rule vote_step.vote)
  have "store_inv (map_set i req' m)"
    using m(2,3) vote_step_inv[OF step] vote_step_same[OF step] by (auto simp: store_inv_def js_simps)
  with m(5) show ?thesis by blast
qed

section \<open>Properties\<close>

text \<open>
  C10 Plural authority: a request that was opened without votes and reached through accepted votes is
  approved only with at least the required number of distinct approvers, none of whom is the
  requesting subject, and without any rejection.
\<close>

theorem approval_needs_quorum:
  assumes "sr_votes req = []" "(vote_step P)\<^sup>*\<^sup>* req req'" "evaluateApproval P req' now = approved"
  shows "sr_required req \<le> of_nat (card (approvers (sr_votes req'))) \<and>
     sr_subject req \<notin> approvers (sr_votes req') \<and>
     (\<forall>v. v \<in> set (sr_votes req') \<longrightarrow> av_decision v = approve) \<and> distinct (map av_by (sr_votes req'))"
proof -
  have "request_inv req" using assms(1) by (simp add: request_inv_def)
  then have inv: "request_inv req'" using vote_steps_inv[OF assms(2)] by blast
  then show ?thesis
    using approved_meaning[OF inv assms(3)] vote_steps_same[OF assms(2)] by (auto simp: request_inv_def)
qed

definition sample_request :: StoredRequest where
  "sample_request = \<lparr> sr_request_id = ''apr-h'', sr_canonical_action_hash = ''h'', sr_ward_id = ''w'', sr_subject = ''agent'',
     sr_action_type = ''launch'', sr_required = 2, sr_votes = [], sr_created_at = ''0'', sr_expires_at = None \<rparr>"

definition sample_vote :: "string \<Rightarrow> ApprovalVote" where
  "sample_vote who = \<lparr> av_by = who, av_decision = approve, av_reason = None, av_at = ''1'' \<rparr>"

theorem approval_needs_quorum_witness:
  "(2 :: rat) \<le> of_nat (card (approvers [sample_vote ''alice'', sample_vote ''bob'']))"
proof -
  let ?r1 = "sample_request \<lparr> sr_votes := [sample_vote ''alice''] \<rparr>"
  let ?r2 = "sample_request \<lparr> sr_votes := [sample_vote ''alice'', sample_vote ''bob''] \<rparr>"
  have "cast_vote sample ''alice'' approve None ''1'' sample_request = Inr ?r1" "cast_vote sample ''bob'' approve None ''1'' ?r1 = Inr ?r2"
    by (simp_all add: cast_vote_def evaluateApproval_def approvers_def sample_request_def sample_vote_def)
  then have "(vote_step sample)\<^sup>*\<^sup>* sample_request ?r2"
    by (meson converse_rtranclp_into_rtranclp rtranclp.rtrancl_refl vote_step.vote)
  moreover have "evaluateApproval sample ?r2 ''2'' = approved"
    by (simp add: evaluateApproval_def approvers_def sample_request_def sample_vote_def)
  ultimately show ?thesis
    using approval_needs_quorum[of sample_request sample ?r2 "''2''"] by (simp add: sample_request_def)
qed

text \<open>
  A settled request is final: once approved or rejected, its status is the same at every later time
  and no vote is accepted; an unsettled one past its expiry accepts no vote either.
\<close>

theorem approval_settled_final:
  assumes "evaluateApproval P req now \<noteq> pending"
  shows "(\<exists>e. cast_vote P w d reason now req = Inl e) \<and>
     (evaluateApproval P req now \<in> {approved, rejected} \<longrightarrow>
        evaluateApproval P req now' = evaluateApproval P req now \<and> (\<forall>req'. (vote_step P)\<^sup>*\<^sup>* req req' \<longrightarrow> req' = req))"
  using assms evaluateApproval_settled[of P req now now'] settled_final[of P req _ now]
  by (auto simp: cast_vote_def)

theorem approval_settled_final_witness:
  "evaluateApproval sample (sample_request \<lparr> sr_required := 1, sr_votes := [sample_vote ''alice''] \<rparr>) ''99'' = approved"
  using approval_settled_final[of sample "sample_request \<lparr> sr_required := 1, sr_votes := [sample_vote ''alice''] \<rparr>" "''2''" _ _ _ "''99''"]
  by (simp add: evaluateApproval_def approvers_def sample_vote_def)

text \<open>
  The approval store keeps its invariant: after opening a request or casting a vote every stored
  request has distinct voters other than its subject, is filed under the id of its own action hash,
  and the state written to a file is readable again.
\<close>

theorem approval_store_invariant:
  assumes "approvals_inv store"
  shows "(is_safe_integer (oa_required input) \<and> 1 \<le> oa_required input \<and>
       approvals_request P input store = Inr (r, store') \<longrightarrow> approvals_inv store' \<and> (\<exists>m. approvals_read store' = Inr m)) \<and>
     (approvals_vote P i w d reason now store = Inr (r', store'') \<longrightarrow>
       approvals_inv store'' \<and> (\<exists>m. approvals_read store'' = Inr m))"
  using approvals_request_next[of P input store r store'] approvals_vote_next[of P i w d reason now store r' store''] assms
    persist_inv approvals_read_persist by (intro conjI impI) blast+

theorem approval_store_invariant_witness:
  "approvals_inv (MemoryApprovals [(requestIdFor ''h'', sample_request \<lparr> sr_request_id := requestIdFor ''h'', sr_created_at := ''1'' \<rparr>)])"
  using approval_store_invariant[of "MemoryApprovals []" "\<lparr> oa_canonicalHash = ''h'', oa_wardId = ''w'', oa_subject = ''agent'',
      oa_actionType = ''launch'', oa_required = 2, oa_ttlMs = None, oa_now = ''1'' \<rparr>" sample]
  by (simp add: approvals_request_def request_expiry_def approvals_inv_def store_inv_def is_safe_integer_def
      sample_request_def)

end
