(* ===== verification/Decision.thy ===== *)
theory Decision
  imports Ledger_Chain Dual_Control
begin

text \<open>
  The decision path of \<open>index.ts\<close>: \<open>decideAndWarrant\<close>, \<open>evaluateBudget\<close>, \<open>recordBudget\<close>,
  \<open>evaluateDualControl\<close>, \<open>openDualControlRequest\<close> and \<open>evaluateExecutionControl\<close>, over any ledger
  backend.  The state of the boundary is its ledger, its budget governor and its approval store; a
  call returns a result or an error together with the state it leaves, since the budget and the
  approvals are written before the ledger.

  The tracer is not modelled: its spans wrap the calls and do not change what they return.
\<close>

section \<open>Data\<close>

text \<open>
  \<open>ec_killSwitch\<close> is \<open>input.killSwitchPath && existsSync(input.killSwitchPath)\<close>, and
  \<open>ec_revocations\<close> the content of the revocation file when a path is configured.
\<close>

record EvaluateExecutionControlInput =
  ec_gate :: CommitGateInput
  ec_signer :: "AristotleSigner option"
  ec_killSwitch :: bool
  ec_replayProtection :: bool
  ec_revocations :: "revocation_file option"
  ec_warrantTtlSeconds :: "rat option"
  ec_actor :: "json option"
  ec_trace_context :: "json option"

record EvaluateExecutionControlResult =
  er_decision :: ExecutionControlDecision
  er_reason_codes :: "ExecutionControlReasonCode list"
  er_canonical_action_hash :: hash
  er_warrant :: "Warrant option"
  er_gel_record :: GelRecord
  er_ledger_verification :: GelVerification

record 'b boundary =
  bd_ledger :: 'b
  bd_budget :: "BudgetGovernor option"
  bd_approvals :: "ApprovalStore option"

text \<open>The clock reading, the nonce and the default signer of one call.\<close>

record ambience =
  am_wall :: iso_time
  am_nonce :: string
  am_dev_signer :: AristotleSigner

section \<open>decideAndWarrant\<close>

definition revoked_now :: "EvaluateExecutionControlInput \<Rightarrow> AristotleSigner \<Rightarrow> bool" where
  "revoked_now input signer =
     (case ec_revocations input of None \<Rightarrow> False
      | Some f \<Rightarrow> revocationReason (loadRevocationList f)
          \<lparr> rt_signing_key_id = Some (sg_key_id signer),
            rt_authority_envelope_id = map_option ae_envelope_id (ci_authorityEnvelope (ec_gate input)),
            rt_warrant_id = None \<rparr> \<noteq> None)"

definition pre_gate_refusal :: "EvaluateExecutionControlInput \<Rightarrow> AristotleSigner \<Rightarrow> bool \<Rightarrow> bool
    \<Rightarrow> ExecutionControlReasonCode option" where
  "pre_gate_refusal input signer replaySeen budgetExceeded =
     (if ec_killSwitch input then Some KILL_SWITCH_ENGAGED
      else if revoked_now input signer then Some AUTHORITY_REVOKED
      else if replaySeen then Some REPLAY_DETECTED
      else if budgetExceeded then Some BUDGET_EXCEEDED
      else None)"

definition warrant_for ::
  "platform \<Rightarrow> ambience \<Rightarrow> EvaluateExecutionControlInput \<Rightarrow> AristotleSigner \<Rightarrow> CommitGateDecision \<Rightarrow> Warrant option result" where
  "warrant_for P am input signer decision =
     (case ci_authorityEnvelope (ec_gate input) of
        Some envelope \<Rightarrow>
          if cg_decision decision = ALLOW
          then issueWarrant P decision (ci_action (ec_gate input)) envelope
                 (case ci_now (ec_gate input) of Some t \<Rightarrow> t | None \<Rightarrow> am_wall am) signer
                 (ec_warrantTtlSeconds input) (am_nonce am)
          else Inr None
      | None \<Rightarrow> Inr None)"

definition decideAndWarrant ::
  "platform \<Rightarrow> ambience \<Rightarrow> EvaluateExecutionControlInput \<Rightarrow> AristotleSigner \<Rightarrow> CanonicalAction \<Rightarrow> RuntimeRegister
   \<Rightarrow> bool \<Rightarrow> bool \<Rightarrow> bool \<Rightarrow> bool \<Rightarrow> (CommitGateDecision \<times> Warrant option) result" where
  "decideAndWarrant P am input signer canonical snapshot replaySeen budgetExceeded dualPending storeMissing =
     (let gate = ec_gate input;
          refuse' = (\<lambda>d r. refuse d [r] canonical snapshot (ci_ward gate) (ci_authorityEnvelope gate))
      in bind_result
        (case pre_gate_refusal input signer replaySeen budgetExceeded of
           Some r \<Rightarrow> Inr (refuse' REFUSE r)
         | None \<Rightarrow> evaluateCommitGate P (am_wall am) gate)
        (\<lambda>first.
          let decision = (if (dualPending \<or> storeMissing) \<and> cg_decision first = ALLOW
                then refuse' ESCALATE (if storeMissing then DUAL_CONTROL_STORE_MISSING else DUAL_CONTROL_REQUIRED)
                else first)
          in bind_result (warrant_for P am input signer decision) (\<lambda>w. Inr (decision, w))))"

section \<open>Budget and dual control of a call\<close>

definition envelope_constraint :: "CommitGateInput \<Rightarrow> string \<Rightarrow> json" where
  "envelope_constraint gate k =
     (case ci_authorityEnvelope gate of Some e \<Rightarrow> obj_get (ae_constraints e) k | None \<Rightarrow> JUndef)"

record BudgetVerdict =
  bv_policy :: "BudgetPolicy option"
  bv_nowMs :: "rat option"
  bv_cost :: rat
  bv_exceeded :: "string option"

definition evaluateBudget ::
  "platform \<Rightarrow> ambience \<Rightarrow> EvaluateExecutionControlInput \<Rightarrow> BudgetGovernor option \<Rightarrow> BudgetVerdict result" where
  "evaluateBudget P am input governor =
     (let gate = ec_gate input;
          raw_cost = obj_get (act_params (ci_action gate)) ''cost'';
          nowMs = map_option of_int (date_parse P
            (case ci_now gate of Some t \<Rightarrow> if t = [] then am_wall am else t | None \<Rightarrow> am_wall am));
          cost = (case as_number raw_cost of Some c \<Rightarrow> c | None \<Rightarrow> 0);
          raw = envelope_constraint gate ''budget''
      in case governor of
           None \<Rightarrow> Inr \<lparr> bv_policy = None, bv_nowMs = nowMs, bv_cost = cost, bv_exceeded = None \<rparr>
         | Some g \<Rightarrow>
             if raw \<noteq> JUndef \<and> (budgetPolicyFrom raw = None \<or> raw_cost \<noteq> JUndef \<and> \<not> is_number raw_cost)
             then Inr \<lparr> bv_policy = None, bv_nowMs = nowMs, bv_cost = cost, bv_exceeded = Some ''invalid budget policy or cost'' \<rparr>
             else case budgetPolicyFrom raw of
               None \<Rightarrow> Inr \<lparr> bv_policy = None, bv_nowMs = nowMs, bv_cost = cost, bv_exceeded = None \<rparr>
             | Some policy \<Rightarrow>
                 bind_result (governor_check g (act_subject (ci_action gate)) policy nowMs cost) (\<lambda>check.
                   Inr \<lparr> bv_policy = Some policy, bv_nowMs = nowMs, bv_cost = cost,
                         bv_exceeded = (case check of BudgetOk \<Rightarrow> None | BudgetExceeded reason \<Rightarrow> Some reason) \<rparr>))"

definition recordBudget ::
  "EvaluateExecutionControlInput \<Rightarrow> BudgetVerdict \<Rightarrow> ExecutionControlDecision \<Rightarrow> BudgetGovernor option
   \<Rightarrow> BudgetGovernor option result" where
  "recordBudget input budget decision governor =
     (case (bv_policy budget, governor) of
        (Some policy, Some g) \<Rightarrow>
          if decision = ALLOW
          then bind_result (governor_record g (act_subject (ci_action (ec_gate input))) (bv_cost budget)
                 (bv_nowMs budget) (bp_windowMs policy)) (\<lambda>g'. Inr (Some g'))
          else Inr governor
      | _ \<Rightarrow> Inr governor)"

record DualVerdict =
  dv_required :: rat
  dv_ttlMs :: "rat option"
  dv_satisfied :: bool
  dv_now :: iso_time
  dv_storeAvailable :: bool

definition evaluateDualControl ::
  "platform \<Rightarrow> ambience \<Rightarrow> EvaluateExecutionControlInput \<Rightarrow> CanonicalAction \<Rightarrow> ApprovalStore option
   \<Rightarrow> DualVerdict option result" where
  "evaluateDualControl P am input canonical store =
     (let gate = ec_gate input;
          raw = envelope_constraint gate ''dual_control'';
          now = (case ci_now gate of Some t \<Rightarrow> t | None \<Rightarrow> am_wall am)
      in case dualControlPolicyFrom raw of
           None \<Rightarrow> if raw \<noteq> JUndef then Inl DualControlPolicyInvalid else Inr None
         | Some policy \<Rightarrow>
             if act_action_type (ci_action gate) \<notin> set (dp_actions policy) then Inr None
             else (case store of
               None \<Rightarrow> Inr (Some \<lparr> dv_required = dp_required policy, dv_ttlMs = dp_ttlMs policy, dv_satisfied = False,
                                  dv_now = now, dv_storeAvailable = False \<rparr>)
             | Some s \<Rightarrow>
                 bind_result (approvals_getByHash P (ca_canonical_action_hash canonical) now s) (\<lambda>existing.
                   Inr (Some \<lparr> dv_required = dp_required policy, dv_ttlMs = dp_ttlMs policy,
                               dv_satisfied = (map_option snd existing = Some approved),
                               dv_now = now, dv_storeAvailable = True \<rparr>))))"

definition openDualControlRequest ::
  "platform \<Rightarrow> EvaluateExecutionControlInput \<Rightarrow> CanonicalAction \<Rightarrow> DualVerdict option \<Rightarrow> CommitGateDecision
   \<Rightarrow> ApprovalStore option \<Rightarrow> ApprovalStore option result" where
  "openDualControlRequest P input canonical dual decision store =
     (case (dual, store, ci_ward (ec_gate input)) of
        (Some d, Some s, Some ward) \<Rightarrow>
          if DUAL_CONTROL_REQUIRED \<in> set (cg_reason_codes decision)
          then bind_result (approvals_request P
                 \<lparr> oa_canonicalHash = ca_canonical_action_hash canonical, oa_wardId = wm_ward_id ward,
                   oa_subject = act_subject (ci_action (ec_gate input)),
                   oa_actionType = act_action_type (ci_action (ec_gate input)),
                   oa_required = dv_required d, oa_ttlMs = dv_ttlMs d, oa_now = dv_now d \<rparr> s)
               (\<lambda>(_, s'). Inr (Some s'))
          else Inr store
      | _ \<Rightarrow> Inr store)"

section \<open>evaluateExecutionControl\<close>

record decided =
  dd_canonical :: CanonicalAction
  dd_budget :: BudgetVerdict
  dd_dual :: "DualVerdict option"
  dd_decision :: CommitGateDecision
  dd_warrant :: "Warrant option"

definition call_signer :: "ambience \<Rightarrow> EvaluateExecutionControlInput \<Rightarrow> AristotleSigner" where
  "call_signer am input = (case ec_signer input of Some s \<Rightarrow> s | None \<Rightarrow> am_dev_signer am)"

text \<open>Everything before the first write.\<close>

definition decide_phase ::
  "platform \<Rightarrow> 'b LedgerBackend \<Rightarrow> ambience \<Rightarrow> EvaluateExecutionControlInput \<Rightarrow> 'b boundary \<Rightarrow> decided result" where
  "decide_phase P B am input st =
     bind_result (canonicalizeAction P (ci_action (ec_gate input))) (\<lambda>canonical.
     bind_result (register_snapshot P (ci_runtimeRegister (ec_gate input))) (\<lambda>snapshot.
     bind_result (evaluateBudget P am input (bd_budget st)) (\<lambda>budget.
     bind_result (evaluateDualControl P am input canonical (bd_approvals st)) (\<lambda>dual.
     bind_result (decideAndWarrant P am input (call_signer am input) canonical snapshot
        (ec_replayProtection input \<and> lb_hasAdmitted B (bd_ledger st) (ca_canonical_action_hash canonical))
        (bv_exceeded budget \<noteq> None)
        (case dual of Some d \<Rightarrow> \<not> dv_satisfied d | None \<Rightarrow> False)
        (case dual of Some d \<Rightarrow> \<not> dv_storeAvailable d | None \<Rightarrow> False))
      (\<lambda>(decision, warrant). Inr \<lparr> dd_canonical = canonical, dd_budget = budget, dd_dual = dual,
          dd_decision = decision, dd_warrant = warrant \<rparr>)))))"

definition gel_input ::
  "ambience \<Rightarrow> EvaluateExecutionControlInput \<Rightarrow> WardManifest \<Rightarrow> decided \<Rightarrow> BuildGelRecordInput" where
  "gel_input am input ward d =
     \<lparr> bg_effect_event = None, bg_ward = ward, bg_action = ci_action (ec_gate input),
       bg_decision = dd_decision d, bg_warrant = dd_warrant d, bg_now = ci_now (ec_gate input),
       bg_signer = Some (call_signer am input), bg_actor = ec_actor input,
       bg_trace_context = ec_trace_context input \<rparr>"

definition evaluateExecutionControl ::
  "platform \<Rightarrow> 'b LedgerBackend \<Rightarrow> ambience \<Rightarrow> EvaluateExecutionControlInput \<Rightarrow> 'b boundary
   \<Rightarrow> EvaluateExecutionControlResult result \<times> 'b boundary" where
  "evaluateExecutionControl P B am input st =
     (case ci_ward (ec_gate input) of
        None \<Rightarrow> (Inl WardRequired, st)
      | Some ward \<Rightarrow>
     (case decide_phase P B am input st of
        Inl e \<Rightarrow> (Inl e, st)
      | Inr d \<Rightarrow>
     (case recordBudget input (dd_budget d) (cg_decision (dd_decision d)) (bd_budget st) of
        Inl e \<Rightarrow> (Inl e, st)
      | Inr budget' \<Rightarrow>
     (let st1 = st \<lparr> bd_budget := budget' \<rparr> in
     (case openDualControlRequest P input (dd_canonical d) (dd_dual d) (dd_decision d) (bd_approvals st1) of
        Inl e \<Rightarrow> (Inl e, st1)
      | Inr approvals' \<Rightarrow>
     (let st2 = st1 \<lparr> bd_approvals := approvals' \<rparr> in
     (case ledger_append P B (am_wall am) (gel_input am input ward d) (bd_ledger st2) of
        Inl e \<Rightarrow> (Inl e, st2)
      | Inr (r, ledger') \<Rightarrow>
         (Inr \<lparr> er_decision = reclassifyExpire (cg_decision (dd_decision d)) (map reason_name (cg_reason_codes (dd_decision d))),
                er_reason_codes = cg_reason_codes (dd_decision d),
                er_canonical_action_hash = cg_canonical_action_hash (dd_decision d),
                er_warrant = dd_warrant d,
                er_gel_record = r,
                er_ledger_verification = lb_verification B ledger' \<rparr>,
          st2 \<lparr> bd_ledger := ledger' \<rparr>))))))))"

section \<open>The decision\<close>

text \<open>No code of the runtime is one of the codes \<open>reclassifyExpire\<close> looks for.\<close>

lemma reason_name_not_expire: "reason_name r \<notin> EXPIRE_REASON_CODES"
  by (cases r) (simp_all add: EXPIRE_REASON_CODES_def)

lemma reclassify_runtime: "reclassifyExpire d (map reason_name rs) = d"
  by (auto simp: reclassifyExpire_def list_ex_iff reason_name_not_expire)

text \<open>What the four checks before the gate let through.\<close>

lemma pre_gate_None:
  "pre_gate_refusal input signer replaySeen budgetExceeded = None \<longleftrightarrow>
     \<not> ec_killSwitch input \<and> \<not> revoked_now input signer \<and> \<not> replaySeen \<and> \<not> budgetExceeded"
  by (simp add: pre_gate_refusal_def)

lemma refuse_fields [simp]:
  "cg_decision (refuse d r c s w e) = d" "cg_reason_codes (refuse d r c s w e) = r"
  "cg_canonical_action_hash (refuse d r c s w e) = ca_canonical_action_hash c"
  by (simp_all add: refuse_def)

definition gate_time :: "platform \<Rightarrow> ambience \<Rightarrow> CommitGateInput \<Rightarrow> int option" where
  "gate_time P am gate = date_parse P (case ci_now gate of Some t \<Rightarrow> t | None \<Rightarrow> am_wall am)"

text \<open>The decision of a call whose action and registers are canonical.\<close>

definition full_decision ::
  "platform \<Rightarrow> ambience \<Rightarrow> EvaluateExecutionControlInput \<Rightarrow> AristotleSigner \<Rightarrow> CanonicalAction \<Rightarrow> RuntimeRegister
   \<Rightarrow> bool \<Rightarrow> bool \<Rightarrow> bool \<Rightarrow> bool \<Rightarrow> CommitGateDecision" where
  "full_decision P am input signer canonical snapshot rs be dp sm =
     (let gate = ec_gate input;
          refuse' = (\<lambda>d r. refuse d [r] canonical snapshot (ci_ward gate) (ci_authorityEnvelope gate))
      in case pre_gate_refusal input signer rs be of
           Some r \<Rightarrow> refuse' REFUSE r
         | None \<Rightarrow> (let first = gate_decision P (gate_time P am gate) gate canonical snapshot
             in if (dp \<or> sm) \<and> cg_decision first = ALLOW
                then refuse' ESCALATE (if sm then DUAL_CONTROL_STORE_MISSING else DUAL_CONTROL_REQUIRED)
                else first))"

lemma decideAndWarrant_full:
  assumes "canonicalizeAction P (ci_action (ec_gate input)) = Inr canonical"
    and "register_snapshot P (ci_runtimeRegister (ec_gate input)) = Inr snapshot"
  shows "decideAndWarrant P am input signer canonical snapshot rs be dp sm =
     (let d = full_decision P am input signer canonical snapshot rs be dp sm
      in bind_result (warrant_for P am input signer d) (\<lambda>w. Inr (d, w)))"
  using assms
  by (cases "pre_gate_refusal input signer rs be")
     (simp_all add: decideAndWarrant_def full_decision_def Let_def evaluateCommitGate_def gate_time_def)

lemma full_decision_hash:
  "cg_canonical_action_hash (full_decision P am input signer canonical snapshot rs be dp sm) = ca_canonical_action_hash canonical"
  by (auto simp: full_decision_def Let_def gate_decision_fields split: option.splits)

lemma full_decision_allow:
  "cg_decision (full_decision P am input signer canonical snapshot rs be dp sm) = ALLOW \<longleftrightarrow>
     \<not> ec_killSwitch input \<and> \<not> revoked_now input signer \<and> \<not> rs \<and> \<not> be \<and> \<not> dp \<and> \<not> sm \<and>
     admissible P (gate_time P am (ec_gate input)) (ec_gate input) snapshot"
proof (cases "pre_gate_refusal input signer rs be")
  case None
  then have "full_decision P am input signer canonical snapshot rs be dp sm =
      (let first = gate_decision P (gate_time P am (ec_gate input)) (ec_gate input) canonical snapshot
       in if (dp \<or> sm) \<and> cg_decision first = ALLOW
          then refuse ESCALATE [if sm then DUAL_CONTROL_STORE_MISSING else DUAL_CONTROL_REQUIRED] canonical snapshot
                 (ci_ward (ec_gate input)) (ci_authorityEnvelope (ec_gate input))
          else first)"
    by (simp add: full_decision_def Let_def)
  then show ?thesis
    using None[unfolded pre_gate_None] by (auto simp: Let_def gate_decision_allow)
next
  case (Some r)
  then have "\<not> (\<not> ec_killSwitch input \<and> \<not> revoked_now input signer \<and> \<not> rs \<and> \<not> be)"
    using pre_gate_None[of input signer rs be] by simp
  with Some show ?thesis by (auto simp: full_decision_def Let_def)
qed

lemma warrant_for_iff:
  assumes "warrant_for P am input signer d = Inr w" "cg_decision d = ALLOW \<longrightarrow> ci_authorityEnvelope (ec_gate input) \<noteq> None"
  shows "w \<noteq> None \<longleftrightarrow> cg_decision d = ALLOW"
  using assms by (auto simp: warrant_for_def issueWarrant_def Let_def split: option.splits if_splits)

lemma warrant_for_Some:
  assumes "warrant_for P am input signer d = Inr (Some w)"
  obtains envelope where "ci_authorityEnvelope (ec_gate input) = Some envelope"
    "issueWarrant P d (ci_action (ec_gate input)) envelope (case ci_now (ec_gate input) of Some t \<Rightarrow> t | None \<Rightarrow> am_wall am)
         signer (ec_warrantTtlSeconds input) (am_nonce am) = Inr (Some w)"
  using assms by (auto simp: warrant_for_def split: option.splits if_splits)

section \<open>A whole call\<close>

text \<open>What the phase before the writes computes.\<close>

lemma decide_phase_Inr:
  assumes "decide_phase P B am input st = Inr d"
  obtains snapshot where
    "canonicalizeAction P (ci_action (ec_gate input)) = Inr (dd_canonical d)"
    "register_snapshot P (ci_runtimeRegister (ec_gate input)) = Inr snapshot"
    "evaluateBudget P am input (bd_budget st) = Inr (dd_budget d)"
    "evaluateDualControl P am input (dd_canonical d) (bd_approvals st) = Inr (dd_dual d)"
    "dd_decision d = full_decision P am input (call_signer am input) (dd_canonical d) snapshot
        (ec_replayProtection input \<and> lb_hasAdmitted B (bd_ledger st) (ca_canonical_action_hash (dd_canonical d)))
        (bv_exceeded (dd_budget d) \<noteq> None)
        (case dd_dual d of Some v \<Rightarrow> \<not> dv_satisfied v | None \<Rightarrow> False)
        (case dd_dual d of Some v \<Rightarrow> \<not> dv_storeAvailable v | None \<Rightarrow> False)"
    "warrant_for P am input (call_signer am input) (dd_decision d) = Inr (dd_warrant d)"
  using assms by (auto simp: decide_phase_def decideAndWarrant_full Let_def)

lemma decide_phase_hash:
  "decide_phase P B am input st = Inr d \<Longrightarrow> cg_canonical_action_hash (dd_decision d) = ca_canonical_action_hash (dd_canonical d)"
  by (erule decide_phase_Inr) (simp add: full_decision_hash)

lemma decide_phase_allow:
  assumes "decide_phase P B am input st = Inr d" "cg_decision (dd_decision d) = ALLOW"
  obtains snapshot where "register_snapshot P (ci_runtimeRegister (ec_gate input)) = Inr snapshot"
    "admissible P (gate_time P am (ec_gate input)) (ec_gate input) snapshot"
    "\<not> ec_killSwitch input" "\<not> revoked_now input (call_signer am input)"
    "ec_replayProtection input \<longrightarrow> \<not> lb_hasAdmitted B (bd_ledger st) (cg_canonical_action_hash (dd_decision d))"
    "bv_exceeded (dd_budget d) = None"
    "dd_dual d = None \<or> (\<exists>v. dd_dual d = Some v \<and> dv_satisfied v \<and> dv_storeAvailable v)"
proof -
  from assms(1) obtain snapshot where s: "register_snapshot P (ci_runtimeRegister (ec_gate input)) = Inr snapshot"
    and d: "dd_decision d = full_decision P am input (call_signer am input) (dd_canonical d) snapshot
        (ec_replayProtection input \<and> lb_hasAdmitted B (bd_ledger st) (ca_canonical_action_hash (dd_canonical d)))
        (bv_exceeded (dd_budget d) \<noteq> None)
        (case dd_dual d of Some v \<Rightarrow> \<not> dv_satisfied v | None \<Rightarrow> False)
        (case dd_dual d of Some v \<Rightarrow> \<not> dv_storeAvailable v | None \<Rightarrow> False)"
    by (rule decide_phase_Inr)
  show thesis
    using assms(2)[unfolded d full_decision_allow] decide_phase_hash[OF assms(1)]
    by (intro that[OF s]) (auto split: option.splits)
qed

lemma decide_phase_warrant:
  assumes "decide_phase P B am input st = Inr d"
  shows "dd_warrant d \<noteq> None \<longleftrightarrow> cg_decision (dd_decision d) = ALLOW"
proof -
  have "cg_decision (dd_decision d) = ALLOW \<longrightarrow> ci_authorityEnvelope (ec_gate input) \<noteq> None"
    using decide_phase_allow[OF assms] by (auto simp: admissible_def)
  with assms show ?thesis by (auto elim!: decide_phase_Inr dest: warrant_for_iff)
qed

text \<open>A call that returns has run every phase.\<close>

lemma evaluate_Inr:
  assumes "evaluateExecutionControl P B am input st = (Inr res, st')"
  obtains ward d g a where "ci_ward (ec_gate input) = Some ward" "decide_phase P B am input st = Inr d"
    "recordBudget input (dd_budget d) (cg_decision (dd_decision d)) (bd_budget st) = Inr g"
    "openDualControlRequest P input (dd_canonical d) (dd_dual d) (dd_decision d) (bd_approvals st) = Inr a"
    "ledger_append P B (am_wall am) (gel_input am input ward d) (bd_ledger st) = Inr (er_gel_record res, bd_ledger st')"
    "bd_budget st' = g" "bd_approvals st' = a"
    "er_decision res = cg_decision (dd_decision d)" "er_reason_codes res = cg_reason_codes (dd_decision d)"
    "er_canonical_action_hash res = cg_canonical_action_hash (dd_decision d)" "er_warrant res = dd_warrant d"
    "er_ledger_verification res = lb_verification B (bd_ledger st')"
  using assms
  by (auto simp: evaluateExecutionControl_def Let_def reclassify_runtime split: option.splits sum.splits)

text \<open>A call that throws leaves the ledger as it was.\<close>

lemma evaluate_Inl:
  "evaluateExecutionControl P B am input st = (Inl e, st') \<Longrightarrow> bd_ledger st' = bd_ledger st"
  by (auto simp: evaluateExecutionControl_def Let_def split: option.splits sum.splits)

text \<open>A satisfied verdict comes from an approved request under the id of the action's hash.\<close>

lemma dual_control_satisfied:
  assumes "evaluateDualControl P am input canonical store = Inr dual"
    and "dualControlPolicyFrom (envelope_constraint (ec_gate input) ''dual_control'') = Some policy"
    and "act_action_type (ci_action (ec_gate input)) \<in> set (dp_actions policy)"
    and "dual = None \<or> (\<exists>v. dual = Some v \<and> dv_satisfied v \<and> dv_storeAvailable v)"
  shows "\<exists>s m req. store = Some s \<and> approvals_read s = Inr m \<and>
     map_of m (requestIdFor (ca_canonical_action_hash canonical)) = Some req \<and>
     evaluateApproval P req (case ci_now (ec_gate input) of Some t \<Rightarrow> t | None \<Rightarrow> am_wall am) = approved"
  using assms
  by (auto simp: evaluateDualControl_def Let_def approvals_getByHash_def approvals_get_def withStatus_def split: option.splits)

lemma decide_phase_issued:
  assumes "decide_phase P B am input st = Inr d" "dd_warrant d = Some w"
  shows "\<exists>envelope. issueWarrant P (dd_decision d) (ci_action (ec_gate input)) envelope
     (case ci_now (ec_gate input) of Some t \<Rightarrow> t | None \<Rightarrow> am_wall am) (call_signer am input) (ec_warrantTtlSeconds input)
     (am_nonce am) = Inr (Some w)"
  using assms by (auto elim!: decide_phase_Inr warrant_for_Some)

lemma gate_decision_not_expire: "cg_decision (gate_decision P t input canonical snapshot) \<noteq> EXPIRE"
  using gate_decision_reason[of P t input canonical snapshot] by (auto simp: reasoned_def reason_of_def split: if_splits)

lemma full_decision_not_expire: "cg_decision (full_decision P am input signer canonical snapshot rs be dp sm) \<noteq> EXPIRE"
  by (auto simp: full_decision_def Let_def gate_decision_not_expire split: option.splits)

end
