(* ===== verification/Boundary.thy ===== *)
theory Boundary
  imports Decision
begin

text \<open>
  Sequences of calls of \<open>evaluateExecutionControl\<close> on one boundary.  The lemmas are proved once for any
  backend that keeps the contract \<open>ledger_backend\<close>, and the backends of the source inherit them: every
  call that returns adds exactly one record, an admission leaves its evidence in the ledger, with
  replay protection no canonical action is admitted twice, and the chain of an exact backend stays
  verifiable.
\<close>

section \<open>Runs\<close>

type_synonym call = "ambience \<times> EvaluateExecutionControlInput"

fun run_calls ::
  "platform \<Rightarrow> 'b LedgerBackend \<Rightarrow> call list \<Rightarrow> 'b boundary
   \<Rightarrow> EvaluateExecutionControlResult result list \<times> 'b boundary" where
  "run_calls P B [] st = ([], st)"
| "run_calls P B ((am, input) # rest) st =
     (let (res, st1) = evaluateExecutionControl P B am input st;
          (results, st2) = run_calls P B rest st1
      in (res # results, st2))"

lemma run_calls_Cons:
  assumes "run_calls P B ((am, input) # rest) st = (results, st')"
  obtains res st1 rs where "evaluateExecutionControl P B am input st = (res, st1)"
    "run_calls P B rest st1 = (rs, st')" "results = res # rs"
  using assms by (auto simp: Let_def split: prod.splits)

definition admits :: "hash \<Rightarrow> EvaluateExecutionControlResult result \<Rightarrow> bool" where
  "admits h res = (case res of Inr r \<Rightarrow> er_decision r = ALLOW \<and> er_canonical_action_hash r = h | Inl _ \<Rightarrow> False)"

definition returned :: "EvaluateExecutionControlResult result \<Rightarrow> bool" where
  "returned res = (case res of Inr _ \<Rightarrow> True | Inl _ \<Rightarrow> False)"

definition admissions :: "hash \<Rightarrow> GelRecord list \<Rightarrow> nat" where
  "admissions h rs = length (filter (is_admission h) rs)"

lemma admissions_snoc: "admissions h (rs @ [r]) = admissions h rs + (if is_admission h r then 1 else 0)"
  by (simp add: admissions_def)

lemma admissions_0: "admissions h rs = 0 \<longleftrightarrow> \<not> hasPriorAdmission rs h"
  by (auto simp: admissions_def hasPriorAdmission_def list_ex_iff filter_empty_conv)

section \<open>Any backend\<close>

context ledger_backend
begin

lemma evaluate_inv:
  assumes "inv (bd_ledger st)" "evaluateExecutionControl P B am input st = (res, st')"
  shows "inv (bd_ledger st')"
proof (cases res)
  case (Inl e)
  with assms show ?thesis by (auto dest: evaluate_Inl)
next
  case (Inr r)
  with assms(2) obtain ward d where
    "ledger_append P B (am_wall am) (gel_input am input ward d) (bd_ledger st) = Inr (er_gel_record r, bd_ledger st')"
    by (auto elim: evaluate_Inr)
  with append_spec[OF assms(1)] show ?thesis by blast
qed

text \<open>One call: one record when it returns, carrying the decision that was returned.\<close>

lemma evaluate_appends:
  assumes "inv (bd_ledger st)" "evaluateExecutionControl P B am input st = (Inr res, st')"
  shows "\<exists>r'. lb_records B (bd_ledger st') = lb_records B (bd_ledger st) @ [r'] \<and>
     same_strings (er_gel_record res) r' \<and> (\<forall>h. is_admission h r' \<longleftrightarrow> admits h (Inr res))"
proof -
  obtain ward d where a: "ledger_append P B (am_wall am) (gel_input am input ward d) (bd_ledger st)
        = Inr (er_gel_record res, bd_ledger st')"
    and d: "er_decision res = cg_decision (dd_decision d)" "er_canonical_action_hash res = cg_canonical_action_hash (dd_decision d)"
    using assms(2) by (rule evaluate_Inr)
  then have b: "buildGelRecord P (am_wall am) (lb_tipHash B (bd_ledger st)) (gel_input am input ward d) = Inr (er_gel_record res)"
    by (auto simp: ledger_append_def)
  obtain r' where r': "lb_records B (bd_ledger st') = lb_records B (bd_ledger st) @ [r']" "same_strings (er_gel_record res) r'"
    using append_spec[OF assms(1) a] by blast
  have "is_admission h r' \<longleftrightarrow> admits h (Inr res)" for h
    using same_strings_admission[OF r'(2)] built_admission[OF b] d
    by (auto simp: admits_def gel_input_def)
  with r' show ?thesis by blast
qed

lemma evaluate_admissions:
  assumes "inv (bd_ledger st)" "evaluateExecutionControl P B am input st = (res, st')"
  shows "admissions h (lb_records B (bd_ledger st')) =
     admissions h (lb_records B (bd_ledger st)) + (if admits h res then 1 else 0)"
proof (cases res)
  case (Inl e)
  with assms(2) have "bd_ledger st' = bd_ledger st" by (auto dest: evaluate_Inl)
  with Inl show ?thesis by (simp add: admits_def)
next
  case (Inr r)
  with evaluate_appends[OF assms(1), of P am input r st'] assms(2) show ?thesis
    by (auto simp: admissions_snoc)
qed

text \<open>A replay-protected call admits only what the ledger has not admitted.\<close>

lemma protected_admits_fresh:
  assumes "inv (bd_ledger st)" "evaluateExecutionControl P B am input st = (res, st')"
    and "ec_replayProtection input" "admits h res"
  shows "admissions h (lb_records B (bd_ledger st)) = 0"
proof -
  obtain r where res: "res = Inr r" and r: "er_decision r = ALLOW" "er_canonical_action_hash r = h"
    using assms(4) by (cases res) (auto simp: admits_def)
  obtain d where d: "decide_phase P B am input st = Inr d" "er_decision r = cg_decision (dd_decision d)"
      "er_canonical_action_hash r = cg_canonical_action_hash (dd_decision d)"
    using assms(2) unfolding res by (rule evaluate_Inr)
  have "\<not> lb_hasAdmitted B (bd_ledger st) h"
    using decide_phase_allow[OF d(1)] d r assms(3) by metis
  then show ?thesis
    using admitted_records[OF assms(1)] by (simp add: admissions_0)
qed

lemma run_inv:
  "inv (bd_ledger st) \<Longrightarrow> run_calls P B calls st = (results, st') \<Longrightarrow> inv (bd_ledger st')"
proof (induction calls arbitrary: st results)
  case (Cons c rest)
  obtain am input where c: "c = (am, input)" by (cases c)
  from Cons.prems(2)[unfolded c] obtain res st1 rs where
    "evaluateExecutionControl P B am input st = (res, st1)" "run_calls P B rest st1 = (rs, st')"
    by (rule run_calls_Cons)
  with Cons.IH evaluate_inv[OF Cons.prems(1)] show ?case by blast
qed simp

lemma run_length:
  "inv (bd_ledger st) \<Longrightarrow> run_calls P B calls st = (results, st') \<Longrightarrow>
   length (lb_records B (bd_ledger st')) = length (lb_records B (bd_ledger st)) + length (filter returned results)"
proof (induction calls arbitrary: st results)
  case (Cons c rest)
  obtain am input where c: "c = (am, input)" by (cases c)
  from Cons.prems(2)[unfolded c] obtain res st1 rs where
    e: "evaluateExecutionControl P B am input st = (res, st1)" and r: "run_calls P B rest st1 = (rs, st')" "results = res # rs"
    by (rule run_calls_Cons)
  have "length (lb_records B (bd_ledger st1)) = length (lb_records B (bd_ledger st)) + (if returned res then 1 else 0)"
  proof (cases res)
    case (Inr x)
    then show ?thesis using evaluate_appends[OF Cons.prems(1) e[unfolded Inr]] by (auto simp: returned_def)
  qed (use e in \<open>auto simp: returned_def dest: evaluate_Inl\<close>)
  with Cons.IH[OF evaluate_inv[OF Cons.prems(1) e] r(1)] r(2) show ?case by simp
qed simp

lemma run_admissions:
  "inv (bd_ledger st) \<Longrightarrow> run_calls P B calls st = (results, st') \<Longrightarrow>
   list_all (\<lambda>c. ec_replayProtection (snd c)) calls \<Longrightarrow> admissions h (lb_records B (bd_ledger st)) \<le> 1 \<Longrightarrow>
   admissions h (lb_records B (bd_ledger st)) + length (filter (admits h) results) = admissions h (lb_records B (bd_ledger st')) \<and>
   admissions h (lb_records B (bd_ledger st')) \<le> 1"
proof (induction calls arbitrary: st results)
  case (Cons c rest)
  obtain am input where c: "c = (am, input)" by (cases c)
  from Cons.prems(2)[unfolded c] obtain res st1 rs where
    e: "evaluateExecutionControl P B am input st = (res, st1)" and r: "run_calls P B rest st1 = (rs, st')" "results = res # rs"
    by (rule run_calls_Cons)
  note step = evaluate_admissions[OF Cons.prems(1) e, of h]
  have "admissions h (lb_records B (bd_ledger st1)) \<le> 1"
    using step protected_admits_fresh[OF Cons.prems(1) e, of h] Cons.prems(3,4) c by auto
  with Cons.IH[OF evaluate_inv[OF Cons.prems(1) e] r(1)] Cons.prems(3) step r(2) show ?case by auto
qed simp

end

section \<open>Exact backends\<close>

text \<open>A backend whose records are the very objects passed in, as the in-memory one.\<close>

locale exact_ledger_backend = ledger_backend +
  assumes persist_exact: "lb_persist B r b = Inr b' \<Longrightarrow> lb_records B b' = lb_records B b @ [r]"
begin

lemma append_chain:
  assumes "inv b" "chain_ok P (lb_records B b)" "ledger_append P B wall inp b = Inr (r, b')"
    and "sound_signer_opt P (bg_signer inp)"
  shows "chain_ok P (lb_records B b')"
  using assms append_chain_ok[of P "lb_records B b" wall inp r]
  by (auto simp: ledger_append_def tip_records dest: persist_exact)

lemma run_chain:
  "inv (bd_ledger st) \<Longrightarrow> chain_ok P (lb_records B (bd_ledger st)) \<Longrightarrow> run_calls P B calls st = (results, st') \<Longrightarrow>
   list_all (\<lambda>(am, input). sound_signer P (call_signer am input)) calls \<Longrightarrow>
   chain_ok P (lb_records B (bd_ledger st'))"
proof (induction calls arbitrary: st results)
  case (Cons c rest)
  obtain am input where c: "c = (am, input)" by (cases c)
  from Cons.prems(3)[unfolded c] obtain res st1 rs where
    e: "evaluateExecutionControl P B am input st = (res, st1)" and r: "run_calls P B rest st1 = (rs, st')"
    by (rule run_calls_Cons)
  have "chain_ok P (lb_records B (bd_ledger st1))"
  proof (cases res)
    case (Inl x)
    then show ?thesis using e Cons.prems(2) by (auto dest: evaluate_Inl)
  next
    case (Inr x)
    with e obtain ward d where
      "ledger_append P B (am_wall am) (gel_input am input ward d) (bd_ledger st) = Inr (er_gel_record x, bd_ledger st1)"
      by (auto elim: evaluate_Inr)
    moreover have "sound_signer_opt P (bg_signer (gel_input am input ward d))"
      using Cons.prems(4) c by (simp add: gel_input_def sound_signer_opt_def)
    ultimately show ?thesis using append_chain[OF Cons.prems(1,2)] by blast
  qed
  with Cons.IH[OF evaluate_inv[OF Cons.prems(1) e] _ r] Cons.prems(4) show ?case by simp
qed simp

end

interpretation memory: exact_ledger_backend InMemoryLedgerBackend memory_inv
  by unfold_locales (auto simp: InMemoryLedgerBackend_def memory_persist_def)

end
