(* ===== verification/Token_Bucket.thy ===== *)
theory Token_Bucket
  imports Prelude
begin

text \<open>
  The contract of a token-bucket limiter, which the boundary's \<open>SubjectRateLimiter\<close> and the mesh's
  \<open>createMeshRateLimiter\<close> both provide: the tokens a client has available grow no faster than the refill
  rate, never exceed the capacity, and an admitted call takes one.  The bound on admitted calls is proved
  once, from the contract.
\<close>

text \<open>A run of calls, each a client and the clock reading; the verdicts in order.\<close>

fun calls_run :: "('k \<Rightarrow> rat \<Rightarrow> 's \<Rightarrow> bool \<times> 's) \<Rightarrow> ('k \<times> rat) list \<Rightarrow> 's \<Rightarrow> bool list \<times> 's" where
  "calls_run allow [] s = ([], s)"
| "calls_run allow ((k, t) # calls) s =
     (let (ok, s') = allow k t s; (oks, s'') = calls_run allow calls s' in (ok # oks, s''))"

definition admitted_for :: "'k \<Rightarrow> ('k \<times> rat) list \<Rightarrow> bool list \<Rightarrow> nat" where
  "admitted_for client calls oks = length (filter (\<lambda>(c, ok). fst c = client \<and> ok) (zip calls oks))"

lemma min_add_le: "0 \<le> d \<Longrightarrow> min c (x + d) \<le> min c x + (d :: rat)"
  by (simp add: min_def)

locale token_bucket =
  fixes allow :: "'k \<Rightarrow> rat \<Rightarrow> 's \<Rightarrow> bool \<times> 's"
    and avail :: "'s \<Rightarrow> 'k \<Rightarrow> rat \<Rightarrow> rat"
    and inv :: "rat \<Rightarrow> 's \<Rightarrow> bool"
    and capacity :: "'s \<Rightarrow> rat"
    and refill :: "'s \<Rightarrow> rat"
  assumes inv_later: "inv t s \<Longrightarrow> t \<le> t' \<Longrightarrow> inv t' s"
    and avail_le: "avail s k t \<le> capacity s"
    and avail_nonneg: "inv t s \<Longrightarrow> 0 \<le> avail s k t"
    and avail_advance: "inv t s \<Longrightarrow> t \<le> t' \<Longrightarrow> avail s k t' \<le> avail s k t + (t' - t) / 1000 * refill s"
    and allow_takes: "inv t s \<Longrightarrow> t \<le> now \<Longrightarrow> allow k now s = (ok, s') \<Longrightarrow>
          avail s' k' now = avail s k' now - (if ok \<and> k' = k then 1 else 0)"
    and allow_inv: "inv t s \<Longrightarrow> t \<le> now \<Longrightarrow> allow k now s = (ok, s') \<Longrightarrow>
          inv now s' \<and> capacity s' = capacity s \<and> refill s' = refill s"
begin

lemma run_bound:
  assumes "inv t0 s" "sorted (map snd calls)" "\<forall>c \<in> set calls. t0 \<le> snd c \<and> snd c \<le> t1" "t0 \<le> t1"
    and "calls_run allow calls s = (oks, s')"
  shows "inv t1 s' \<and> capacity s' = capacity s \<and> refill s' = refill s \<and>
    of_nat (admitted_for k calls oks) + avail s' k t1 \<le> avail s k t0 + (t1 - t0) / 1000 * refill s"
  using assms
proof (induction calls arbitrary: s oks t0)
  case Nil
  then show ?case using avail_advance[of t0 s t1 k] inv_later[of t0 s t1] by (simp add: admitted_for_def)
next
  case (Cons c calls)
  obtain u t where c: "c = (u, t)" by (cases c)
  obtain ok s1 where step: "allow u t s = (ok, s1)" by (cases "allow u t s")
  with Cons.prems(5) c obtain oks1 where run: "calls_run allow calls s1 = (oks1, s')" and out: "oks = ok # oks1"
    by (auto split: prod.splits)
  have t: "t0 \<le> t" "t \<le> t1" using Cons.prems(3) c by auto
  note takes = allow_takes[OF Cons.prems(1) t(1) step, of k] and kept = allow_inv[OF Cons.prems(1) t(1) step]
  have IH: "inv t1 s' \<and> capacity s' = capacity s1 \<and> refill s' = refill s1 \<and>
      of_nat (admitted_for k calls oks1) + avail s' k t1 \<le> avail s1 k t + (t1 - t) / 1000 * refill s1"
    by (rule Cons.IH[OF _ _ _ t(2) run]) (use Cons.prems(2,3) c kept in auto)
  have "avail s k t \<le> avail s k t0 + (t - t0) / 1000 * refill s"
    by (rule avail_advance[OF Cons.prems(1) t(1)])
  moreover have "(t1 - t0) / 1000 * refill s = (t - t0) / 1000 * refill s + (t1 - t) / 1000 * refill s"
    by (simp add: field_simps)
  moreover have "(of_nat (admitted_for k (c # calls) oks) :: rat)
      = of_nat (admitted_for k calls oks1) + (if ok \<and> k = u then 1 else 0)"
    by (auto simp: admitted_for_def c out)
  ultimately have "of_nat (admitted_for k (c # calls) oks) + avail s' k t1
      \<le> avail s k t0 + (t1 - t0) / 1000 * refill s"
    using IH takes kept by (cases "ok \<and> k = u") (simp_all only: if_True if_False, linarith+)
  with IH kept show ?case by simp
qed

text \<open>The bound for a stretch of a run that starts in a state satisfying the invariant at all times.\<close>

lemma stretch_bound:
  assumes "\<And>t. inv t s"
    and "sorted (map snd (earlier @ stretch))"
    and "\<forall>c \<in> set earlier. snd c \<le> t0"
    and "\<forall>c \<in> set stretch. t0 \<le> snd c \<and> snd c \<le> t1" "t0 \<le> t1"
    and "calls_run allow earlier s = (oks, s1)"
    and "calls_run allow stretch s1 = (oks', s2)"
  shows "of_nat (admitted_for k stretch oks') \<le> capacity s + refill s * (t1 - t0) / 1000"
proof -
  obtain start where start: "start \<le> t0" "\<forall>c \<in> set earlier. start \<le> snd c"
  proof (cases earlier)
    case (Cons c cs)
    then show thesis using assms(2,3) that[of "snd c"] by auto
  qed auto
  have "inv t0 s1 \<and> capacity s1 = capacity s \<and> refill s1 = refill s"
    using run_bound[OF assms(1) _ _ start(1) assms(6), of k] assms(2,3) start(2) by (simp add: sorted_append)
  with run_bound[OF _ _ assms(4,5,7), of k] assms(2) avail_le[of s1 k t0] avail_nonneg[of t1 s2 k]
  show ?thesis by (simp add: sorted_append field_simps)
qed

end

end
