(* ===== verification/Rate_Limiter.thy ===== *)
theory Rate_Limiter
  imports Token_Bucket
begin

text \<open>
  \<open>SubjectRateLimiter\<close> of \<open>execution-control-runtime/src/index.ts\<close>: a token bucket per subject.  The
  main theorem is the classical bound: in any stretch of a run the calls admitted for a subject are at
  most the burst capacity plus what the refill rate supplies during that stretch, whatever the other
  subjects do.
\<close>

section \<open>The limiter\<close>

record Bucket =
  bk_tokens :: rat
  bk_updated :: rat

record SubjectRateLimiter =
  rl_capacity :: rat
  rl_refillPerSec :: rat
  rl_buckets :: "(string, Bucket) jsmap"

definition new_limiter :: "rat \<Rightarrow> rat \<Rightarrow> SubjectRateLimiter" where
  "new_limiter capacity refillPerSec =
     \<lparr> rl_capacity = capacity, rl_refillPerSec = refillPerSec, rl_buckets = [] \<rparr>"

definition perMinute :: "rat \<Rightarrow> rat option \<Rightarrow> SubjectRateLimiter" where
  "perMinute per_minute burst =
     new_limiter (max 1 (case burst of Some b \<Rightarrow> b | None \<Rightarrow> per_minute)) (per_minute / 60)"

definition limiter_allow :: "string \<Rightarrow> rat \<Rightarrow> SubjectRateLimiter \<Rightarrow> bool \<times> SubjectRateLimiter" where
  "limiter_allow subject now rl =
     (let bucket = (case map_of (rl_buckets rl) subject of Some b \<Rightarrow> b
                    | None \<Rightarrow> \<lparr> bk_tokens = rl_capacity rl, bk_updated = now \<rparr>);
          elapsedSec = max 0 ((now - bk_updated bucket) / 1000);
          tokens = min (rl_capacity rl) (bk_tokens bucket + elapsedSec * rl_refillPerSec rl);
          ok = (tokens \<ge> 1);
          bucket' = \<lparr> bk_tokens = (if ok then tokens - 1 else tokens), bk_updated = now \<rparr>
      in (ok, rl \<lparr> rl_buckets := map_set subject bucket' (rl_buckets rl) \<rparr>))"

abbreviation limiter_run :: "(string \<times> rat) list \<Rightarrow> SubjectRateLimiter \<Rightarrow> bool list \<times> SubjectRateLimiter" where
  "limiter_run \<equiv> calls_run limiter_allow"

section \<open>The tokens available to a subject\<close>

definition available :: "SubjectRateLimiter \<Rightarrow> string \<Rightarrow> rat \<Rightarrow> rat" where
  "available rl subject now =
     (case map_of (rl_buckets rl) subject of
        None \<Rightarrow> rl_capacity rl
      | Some b \<Rightarrow> min (rl_capacity rl) (bk_tokens b + (now - bk_updated b) / 1000 * rl_refillPerSec rl))"

text \<open>Rates are not negative and, at time \<open>t\<close>, no bucket is ahead of the clock, overdrawn or overfull.\<close>

definition limiter_inv :: "rat \<Rightarrow> SubjectRateLimiter \<Rightarrow> bool" where
  "limiter_inv t rl \<longleftrightarrow> 0 \<le> rl_capacity rl \<and> 0 \<le> rl_refillPerSec rl \<and>
     (\<forall>s b. map_of (rl_buckets rl) s = Some b \<longrightarrow>
        0 \<le> bk_tokens b \<and> bk_tokens b \<le> rl_capacity rl \<and> bk_updated b \<le> t)"

lemma limiter_inv_new: "0 \<le> capacity \<Longrightarrow> 0 \<le> refill \<Longrightarrow> limiter_inv t (new_limiter capacity refill)"
  by (simp add: limiter_inv_def new_limiter_def)

lemma limiter_inv_later: "limiter_inv t rl \<Longrightarrow> t \<le> t' \<Longrightarrow> limiter_inv t' rl"
  by (fastforce simp: limiter_inv_def)

lemma available_le_capacity: "available rl s t \<le> rl_capacity rl"
  by (simp add: available_def split: option.splits)

lemma available_nonneg: "limiter_inv t rl \<Longrightarrow> 0 \<le> available rl s t"
  by (auto simp: available_def limiter_inv_def split: option.splits)

lemma available_advance:
  assumes "limiter_inv t rl" "t \<le> t'"
  shows "available rl s t' \<le> available rl s t + (t' - t) / 1000 * rl_refillPerSec rl"
proof (cases "map_of (rl_buckets rl) s")
  case None
  with assms show ?thesis by (simp add: available_def limiter_inv_def)
next
  case (Some b)
  define x d where "x = bk_tokens b + (t - bk_updated b) / 1000 * rl_refillPerSec rl"
    and "d = (t' - t) / 1000 * rl_refillPerSec rl"
  have "0 \<le> d" using assms by (simp add: d_def limiter_inv_def)
  moreover have "bk_tokens b + (t' - bk_updated b) / 1000 * rl_refillPerSec rl = x + d"
    by (simp add: x_def d_def field_simps)
  ultimately show ?thesis
    using min_add_le[of d "rl_capacity rl" x] by (simp only: available_def Some option.case x_def[symmetric] d_def[symmetric])
qed

text \<open>A call takes one token from its subject when it is admitted and leaves every other subject alone.\<close>

lemma limiter_allow_spec:
  assumes inv: "limiter_inv t rl" and t: "t \<le> now" and call: "limiter_allow s now rl = (ok, rl')"
  shows "ok \<longleftrightarrow> 1 \<le> available rl s now"
    and "available rl' s' now = available rl s' now - (if ok \<and> s' = s then 1 else 0)"
    and "limiter_inv now rl'"
    and "rl_capacity rl' = rl_capacity rl" "rl_refillPerSec rl' = rl_refillPerSec rl"
proof -
  define b where "b = (case map_of (rl_buckets rl) s of Some b \<Rightarrow> b
    | None \<Rightarrow> \<lparr> bk_tokens = rl_capacity rl, bk_updated = now \<rparr>)"
  define a where "a = available rl s now"
  have av: "min (rl_capacity rl) (bk_tokens b + (now - bk_updated b) / 1000 * rl_refillPerSec rl) = a"
    by (simp add: a_def available_def b_def split: option.splits)
  have "bk_updated b \<le> now"
    using inv t by (fastforce simp: b_def limiter_inv_def split: option.splits)
  then have e: "max 0 ((now - bk_updated b) / 1000) = (now - bk_updated b) / 1000" by simp
  have ok: "ok \<longleftrightarrow> 1 \<le> a"
    and rl': "rl' = rl \<lparr> rl_buckets := map_set s \<lparr> bk_tokens = (if 1 \<le> a then a - 1 else a), bk_updated = now \<rparr>
                   (rl_buckets rl) \<rparr>"
    using call by (simp_all only: limiter_allow_def Let_def b_def[symmetric] e av prod.inject) metis+
  have bounds: "0 \<le> a" "a \<le> rl_capacity rl"
    unfolding a_def by (rule available_nonneg[OF limiter_inv_later[OF inv t]], rule available_le_capacity)
  show "ok \<longleftrightarrow> 1 \<le> available rl s now" using ok by (simp only: a_def)
  show "available rl' s' now = available rl s' now - (if ok \<and> s' = s then 1 else 0)"
  proof (cases "s' = s")
    case True
    then have "available rl' s' now = (if 1 \<le> a then a - 1 else a)"
      using bounds by (simp add: rl' available_def js_simps)
    with True show ?thesis by (simp add: ok a_def)
  qed (simp add: rl' available_def js_simps split: option.split)
  show "limiter_inv now rl'"
    using limiter_inv_later[OF inv t] bounds by (auto simp: limiter_inv_def rl' js_simps)
  show "rl_capacity rl' = rl_capacity rl" "rl_refillPerSec rl' = rl_refillPerSec rl"
    by (simp_all add: rl')
qed

interpretation subject_bucket: token_bucket limiter_allow available limiter_inv rl_capacity rl_refillPerSec
  by (unfold_locales, fact limiter_inv_later, fact available_le_capacity, fact available_nonneg, fact available_advance,
      fact limiter_allow_spec(2), simp only: limiter_allow_spec(3-5))

section \<open>Properties\<close>

text \<open>
  C15: take any run of a fresh limiter whose clock does not go backwards, and any stretch of it between
  the times \<open>t0\<close> and \<open>t1\<close>.  The calls of a subject admitted in that stretch number at most the capacity
  plus the refill of \<open>t1 - t0\<close> milliseconds, whatever calls other subjects interleave.
\<close>

theorem rate_limit_bound:
  assumes "0 \<le> capacity" "0 \<le> refill"
    and "sorted (map snd (earlier @ stretch))"
    and "\<forall>c \<in> set earlier. snd c \<le> t0"
    and "\<forall>c \<in> set stretch. t0 \<le> snd c \<and> snd c \<le> t1" "t0 \<le> t1"
    and "limiter_run earlier (new_limiter capacity refill) = (oks, rl)"
    and "limiter_run stretch rl = (oks', rl')"
  shows "of_nat (admitted_for subject stretch oks') \<le> capacity + refill * (t1 - t0) / 1000"
  using subject_bucket.stretch_bound[OF limiter_inv_new[OF assms(1,2)] assms(3-), of subject]
  by (simp add: new_limiter_def)

theorem rate_limit_bound_witness:
  "fst (limiter_run [(''a'', 0), (''b'', 0), (''a'', 0), (''a'', 1000)] (new_limiter 1 1)) = [True, True, False, True] \<and>
   of_nat (admitted_for ''a'' [(''a'', 0), (''b'', 0), (''a'', 0), (''a'', 1000)] [True, True, False, True])
     \<le> (1 :: rat) + 1 * (1000 - 0) / 1000" (is "fst ?run = ?oks \<and> _")
proof -
  have oks: "fst ?run = ?oks" by code_simp
  then have run: "?run = (?oks, snd ?run)" by (metis prod.collapse)
  have "of_nat (admitted_for ''a'' [(''a'', 0), (''b'', 0), (''a'', 0), (''a'', 1000)] ?oks) \<le> (1 :: rat) + 1 * (1000 - 0) / 1000"
    by (rule rate_limit_bound[OF _ _ _ _ _ _ _ run, where earlier = "[]" and oks = "[]"]) simp_all
  with oks show ?thesis by blast
qed

end
