(* ===== verification/Edge_Containment.thy ===== *)
theory Edge_Containment
  imports Sample Fail_Mode
begin

text \<open>
  \<open>execution-control-runtime/src/edge-containment.ts\<close> and \<open>degradation.ts\<close>: the containment of a
  disconnected edge node and the probes that turn a stale node into a degradation condition.  The main
  theorem bounds what a node can issue between two synchronisations with the control plane.

  The state file is absent, unreadable (anything \<open>state\<close> catches) or holds an object whose two fields
  may be missing.  \<open>runWithTimeout\<close> is not modelled: it races a promise against a timer.
\<close>

section \<open>Data\<close>

record EdgeContainmentPolicy =
  ep_maxRevocationStalenessMs :: "rat option"
  ep_offlineWarrantQuota :: "rat option"

record EdgeContainmentState =
  es_lastSyncAt :: iso_time
  es_offlineWarrantsIssued :: rat

datatype ContainmentReason = REVOCATION_STALE | OFFLINE_QUOTA_EXCEEDED

datatype EdgeContainmentCheck = Contained | Uncontained ContainmentReason string

section \<open>The check\<close>

definition em_dash :: string where
  "em_dash = [CHR 0xE2, CHR 0x80, CHR 0x94]"

definition checkEdgeContainment ::
  "platform \<Rightarrow> EdgeContainmentPolicy \<Rightarrow> EdgeContainmentState \<Rightarrow> iso_time \<Rightarrow> EdgeContainmentCheck" where
  "checkEdgeContainment P policy state now =
     (let age = (case (date_parse P now, date_parse P (es_lastSyncAt state)) of
                   (Some n, Some l) \<Rightarrow> Some (of_int (n - l) :: rat) | _ \<Rightarrow> None)
      in if (case ep_maxRevocationStalenessMs policy of
               Some m \<Rightarrow> (case age of None \<Rightarrow> True | Some a \<Rightarrow> a > m) | None \<Rightarrow> False)
         then Uncontained REVOCATION_STALE (''last control-plane sync '' @
           (case age of Some a \<Rightarrow> num_string a @ ''ms'' | None \<Rightarrow> ''unknown'') @ '' ago exceeds '' @
           num_string (the (ep_maxRevocationStalenessMs policy)) @ ''ms '' @ em_dash @ '' failing closed'')
         else if (case ep_offlineWarrantQuota policy of Some q \<Rightarrow> es_offlineWarrantsIssued state \<ge> q | None \<Rightarrow> False)
         then Uncontained OFFLINE_QUOTA_EXCEEDED (num_string (es_offlineWarrantsIssued state) @
           '' Warrants issued since last sync >= quota '' @ num_string (the (ep_offlineWarrantQuota policy)) @
           '' '' @ em_dash @ '' requires resync'')
         else Contained)"

section \<open>The tracker\<close>

definition EPOCH :: iso_time where
  "EPOCH = ''1970-01-01T00:00:00.000Z''"

datatype containment_file =
    NoContainmentFile
  | UnreadableContainmentFile
  | ContainmentContents "iso_time option" "rat option"

fun tracker_state :: "containment_file \<Rightarrow> EdgeContainmentState" where
  "tracker_state (ContainmentContents lastSyncAt issued) =
     \<lparr> es_lastSyncAt = (case lastSyncAt of Some t \<Rightarrow> t | None \<Rightarrow> EPOCH),
       es_offlineWarrantsIssued = (case issued of Some n \<Rightarrow> n | None \<Rightarrow> 0) \<rparr>"
| "tracker_state _ = \<lparr> es_lastSyncAt = EPOCH, es_offlineWarrantsIssued = 0 \<rparr>"

definition tracker_write :: "EdgeContainmentState \<Rightarrow> EdgeContainmentState \<times> containment_file" where
  "tracker_write state =
     (state, ContainmentContents (Some (es_lastSyncAt state)) (Some (es_offlineWarrantsIssued state)))"

definition recordSync :: "iso_time \<Rightarrow> EdgeContainmentState \<times> containment_file" where
  "recordSync now = tracker_write \<lparr> es_lastSyncAt = now, es_offlineWarrantsIssued = 0 \<rparr>"

definition recordWarrantIssued :: "containment_file \<Rightarrow> EdgeContainmentState \<times> containment_file" where
  "recordWarrantIssued f =
     (let state = tracker_state f
      in tracker_write (state \<lparr> es_offlineWarrantsIssued := es_offlineWarrantsIssued state + 1 \<rparr>))"

definition tracker_check ::
  "platform \<Rightarrow> EdgeContainmentPolicy \<Rightarrow> containment_file \<Rightarrow> iso_time \<Rightarrow> EdgeContainmentCheck" where
  "tracker_check P policy f now = checkEdgeContainment P policy (tracker_state f) now"

section \<open>Degradation probes\<close>

text \<open>
  A probe run is the condition it reports, nothing when it is healthy, or an error when it throws.
  \<open>ledgerUnavailableProbe\<close> takes the outcome of the canary write.
\<close>

type_synonym probe_run = "DegradationCondition option result"

definition ledgerUnavailableProbe :: "bool \<Rightarrow> probe_run" where
  "ledgerUnavailableProbe writable = Inr (if writable then None else Some ledger_unavailable)"

definition controlPlaneStaleProbe ::
  "platform \<Rightarrow> EdgeContainmentPolicy \<Rightarrow> containment_file \<Rightarrow> iso_time \<Rightarrow> probe_run" where
  "controlPlaneStaleProbe P policy f now =
     Inr (case tracker_check P policy f now of
            Uncontained REVOCATION_STALE _ \<Rightarrow> Some control_plane_stale
          | _ \<Rightarrow> None)"

definition predicateProbe :: "DegradationCondition \<Rightarrow> bool result \<Rightarrow> probe_run" where
  "predicateProbe condition healthy =
     Inr (case healthy of Inr ok \<Rightarrow> if ok then None else Some condition | Inl _ \<Rightarrow> Some condition)"

fun collect_loop :: "DegradationCondition list \<Rightarrow> probe_run list \<Rightarrow> DegradationCondition list" where
  "collect_loop seen [] = seen"
| "collect_loop seen (r # rs) =
     (case r of
        Inr (Some c) \<Rightarrow> collect_loop (if c \<in> set seen then seen else seen @ [c]) rs
      | _ \<Rightarrow> collect_loop seen rs)"

definition collectDegradation :: "probe_run list \<Rightarrow> DegradationCondition list" where
  "collectDegradation probes = collect_loop [] probes"

lemma collect_loop_spec:
  "distinct seen \<Longrightarrow> distinct (collect_loop seen rs) \<and>
     set (collect_loop seen rs) = set seen \<union> {c. Inr (Some c) \<in> set rs}"
  by (induction seen rs rule: collect_loop.induct) (auto split: sum.splits option.splits)

lemma collectDegradation_set:
  "distinct (collectDegradation rs)" "c \<in> set (collectDegradation rs) \<longleftrightarrow> Inr (Some c) \<in> set rs"
  using collect_loop_spec[of "[]" rs] by (auto simp: collectDegradation_def)

section \<open>Issuing under containment\<close>

text \<open>
  How a node uses the tracker: \<open>recordSync\<close> on a successful refresh, \<open>check\<close> before issuing and
  \<open>recordWarrantIssued\<close> on each issuance.  An event carries its clock reading; the verdict tells whether
  a warrant was issued.  A restart changes nothing, because the state is the file.
\<close>

datatype edge_event = Sync iso_time | Issue iso_time

fun edge_step :: "platform \<Rightarrow> EdgeContainmentPolicy \<Rightarrow> edge_event \<Rightarrow> containment_file \<Rightarrow> bool \<times> containment_file" where
  "edge_step P policy (Sync t) f = (False, snd (recordSync t))"
| "edge_step P policy (Issue t) f =
     (if tracker_check P policy f t = Contained then (True, snd (recordWarrantIssued f)) else (False, f))"

fun edge_run :: "platform \<Rightarrow> EdgeContainmentPolicy \<Rightarrow> edge_event list \<Rightarrow> containment_file \<Rightarrow> bool list \<times> containment_file" where
  "edge_run P policy [] f = ([], f)"
| "edge_run P policy (e # es) f =
     (let (issued, f1) = edge_step P policy e f; (rest, f2) = edge_run P policy es f1 in (issued # rest, f2))"

fun event_time :: "edge_event \<Rightarrow> iso_time" where
  "event_time (Sync t) = t"
| "event_time (Issue t) = t"

fun last_sync :: "iso_time \<Rightarrow> edge_event list \<Rightarrow> iso_time" where
  "last_sync t [] = t"
| "last_sync t (Sync u # es) = last_sync u es"
| "last_sync t (Issue u # es) = last_sync t es"

definition fresh_at :: "platform \<Rightarrow> rat \<Rightarrow> iso_time \<Rightarrow> iso_time \<Rightarrow> bool" where
  "fresh_at P m synced now \<longleftrightarrow>
     (\<exists>n l. date_parse P now = Some n \<and> date_parse P synced = Some l \<and> of_int (n - l) \<le> m)"

abbreviation issued_count :: "containment_file \<Rightarrow> rat" where
  "issued_count f \<equiv> es_offlineWarrantsIssued (tracker_state f)"

lemma tracker_state_ops [simp]:
  "tracker_state (snd (recordSync t)) = \<lparr> es_lastSyncAt = t, es_offlineWarrantsIssued = 0 \<rparr>"
  "es_lastSyncAt (tracker_state (snd (recordWarrantIssued f))) = es_lastSyncAt (tracker_state f)"
  "issued_count (snd (recordWarrantIssued f)) = issued_count f + 1"
  by (simp_all add: recordSync_def recordWarrantIssued_def tracker_write_def Let_def)

lemma contained_iff:
  "checkEdgeContainment P policy state now = Contained \<longleftrightarrow>
     (\<forall>m. ep_maxRevocationStalenessMs policy = Some m \<longrightarrow> fresh_at P m (es_lastSyncAt state) now) \<and>
     (\<forall>q. ep_offlineWarrantQuota policy = Some q \<longrightarrow> es_offlineWarrantsIssued state < q)"
  by (auto simp: checkEdgeContainment_def fresh_at_def Let_def split: option.splits if_splits)

lemma stale_iff:
  "(\<exists>d. checkEdgeContainment P policy state now = Uncontained REVOCATION_STALE d) \<longleftrightarrow>
     (\<exists>m. ep_maxRevocationStalenessMs policy = Some m \<and> \<not> fresh_at P m (es_lastSyncAt state) now)"
  by (auto simp: checkEdgeContainment_def fresh_at_def Let_def split: option.splits if_splits)

lemma edge_run_quota:
  assumes "ep_offlineWarrantQuota policy = Some (of_nat n)" "0 \<le> issued_count f"
    and "list_all (\<lambda>e. \<exists>t. e = Issue t) es" "edge_run P policy es f = (issued, f')"
  shows "issued_count f' = issued_count f + of_nat (length (filter (\<lambda>b. b) issued)) \<and>
     (filter (\<lambda>b. b) issued = [] \<or> issued_count f' < of_nat n + 1)"
  using assms
proof (induction es arbitrary: f issued)
  case (Cons e es)
  from Cons.prems(3) obtain t where e: "e = Issue t" by auto
  obtain b f1 where step: "edge_step P policy e f = (b, f1)" by (cases "edge_step P policy e f")
  obtain rest where run: "edge_run P policy es f1 = (rest, f')" and issued: "issued = b # rest"
    using Cons.prems(4) step by (auto simp: Let_def split: prod.splits)
  have f1: "issued_count f1 = issued_count f + (if b then 1 else 0)" "b \<Longrightarrow> issued_count f < of_nat n"
    using step e Cons.prems(1) by (auto simp: tracker_check_def contained_iff split: if_splits)
  have IH: "issued_count f' = issued_count f1 + of_nat (length (filter (\<lambda>b. b) rest)) \<and>
     (filter (\<lambda>b. b) rest = [] \<or> issued_count f' < of_nat n + 1)"
    by (rule Cons.IH[OF Cons.prems(1) _ _ run]) (use Cons.prems(2,3) f1 in auto)
  then show ?case using f1 issued by (auto split: if_splits)
qed simp

lemma edge_run_fresh:
  assumes "ep_maxRevocationStalenessMs policy = Some m" "edge_run P policy es f = (issued, f')"
    and "i < length es" "issued ! i"
  shows "fresh_at P m (last_sync (es_lastSyncAt (tracker_state f)) (take i es)) (event_time (es ! i))"
  using assms
proof (induction es arbitrary: f issued i)
  case (Cons e es)
  obtain b f1 where step: "edge_step P policy e f = (b, f1)" by (cases "edge_step P policy e f")
  obtain rest where run: "edge_run P policy es f1 = (rest, f')" and issued: "issued = b # rest"
    using Cons.prems(2) step by (auto simp: Let_def split: prod.splits)
  show ?case
  proof (cases i)
    case 0
    with Cons.prems(1,4) issued step show ?thesis
      by (cases e) (auto simp: tracker_check_def contained_iff split: if_splits)
  next
    case (Suc j)
    have "fresh_at P m (last_sync (es_lastSyncAt (tracker_state f1)) (take j es)) (event_time (es ! j))"
      by (rule Cons.IH[OF Cons.prems(1) run]) (use Cons.prems(3,4) Suc issued in auto)
    with step Suc show ?thesis by (cases e) (auto split: if_splits)
  qed
qed simp

section \<open>Properties\<close>

text \<open>
  A dark node is contained: take any stretch of a node's life with no synchronisation in it.  Under
  an offline quota of \<open>n\<close> it issues at most \<open>n\<close> warrants in that stretch, across restarts.  Under a
  staleness limit, every warrant issued in a run is issued within that limit of the last
  synchronisation before it.
\<close>

theorem containment_bounds_issuance:
  assumes "edge_run P policy events f = (issued, f')" "0 \<le> issued_count f"
  shows "(\<forall>n. ep_offlineWarrantQuota policy = Some (of_nat n) \<and> list_all (\<lambda>e. \<exists>t. e = Issue t) events \<longrightarrow>
      length (filter (\<lambda>b. b) issued) \<le> n) \<and>
    (\<forall>m i. ep_maxRevocationStalenessMs policy = Some m \<and> i < length events \<and> issued ! i \<longrightarrow>
      fresh_at P m (last_sync (es_lastSyncAt (tracker_state f)) (take i events)) (event_time (events ! i)))"
proof (intro conjI allI impI; elim conjE)
  fix n
  assume "ep_offlineWarrantQuota policy = Some (of_nat n)" "list_all (\<lambda>e. \<exists>t. e = Issue t) events"
  from edge_run_quota[OF this(1) assms(2) this(2) assms(1)] assms(2)
  have "filter (\<lambda>b. b) issued = [] \<or> (of_nat (length (filter (\<lambda>b. b) issued)) :: rat) < of_nat (Suc n)"
    by auto
  then show "length (filter (\<lambda>b. b) issued) \<le> n" by (auto simp del: of_nat_Suc)
qed (rule edge_run_fresh[OF _ assms(1)])

theorem containment_bounds_issuance_witness:
  "fst (edge_run sample \<lparr> ep_maxRevocationStalenessMs = None, ep_offlineWarrantQuota = Some (of_nat 1) \<rparr>
      [Issue ''5'', Issue ''6''] NoContainmentFile) = [True, False] \<and>
   length (filter (\<lambda>b. b) [True, False]) \<le> 1"
proof -
  let ?p = "\<lparr> ep_maxRevocationStalenessMs = None, ep_offlineWarrantQuota = Some (of_nat 1) \<rparr>"
  have run: "fst (edge_run sample ?p [Issue ''5'', Issue ''6''] NoContainmentFile) = [True, False]"
    by (simp add: tracker_check_def contained_iff)
  then have "edge_run sample ?p [Issue ''5'', Issue ''6''] NoContainmentFile =
      ([True, False], snd (edge_run sample ?p [Issue ''5'', Issue ''6''] NoContainmentFile))"
    by (metis prod.collapse)
  from containment_bounds_issuance[OF this] have "length (filter (\<lambda>b. b) [True, False]) \<le> 1" by simp
  with run show ?thesis by blast
qed

end
