(* ===== verification/Server.thy ===== *)
theory Server
  imports Boundary Rate_Limiter Edge_Containment
begin

text \<open>
  The \<open>POST /v1/execution-control/evaluate\<close> handler of the boundary server in \<open>index.ts\<close>: the rate
  limiter, the degradation probes, the answer given while the ledger is unavailable, and the governed
  call.  The theorems say where an ALLOW answer can come from, and that a stale node fails closed.

  Authentication, metrics, logging, tracing and the audit sink do not change the answer and are not
  modelled; the asynchronous ledger is not modelled.
\<close>

section \<open>Data\<close>

text \<open>What the server was configured with; the probes are the outcomes of one run of them.\<close>

record ServerOptions =
  so_ward :: WardManifest
  so_authorityEnvelope :: "AuthorityEnvelope option"
  so_now :: "iso_time option"
  so_signer :: "AristotleSigner option"
  so_killSwitch :: bool
  so_replayProtection :: bool
  so_revocations :: "revocation_file option"
  so_warrantTtlSeconds :: "rat option"
  so_probes :: "probe_run list"

record EvaluateRequest =
  rq_action :: CanonicalActionInput
  rq_runtime_register :: "RuntimeRegister option"
  rq_degraded_conditions :: "DegradationCondition list option"
  rq_principal :: "json option"
  rq_trace_context :: "json option"

datatype EvaluateResponse =
    RateLimited string
  | DegradedAnswer ExecutionControlDecision "DegradationCondition option"
  | Answer nat EvaluateExecutionControlResult
  | ServerError js_error

record 'b server =
  sv_boundary :: "'b boundary"
  sv_rateLimiter :: "SubjectRateLimiter option"

section \<open>The handler\<close>

definition request_conditions :: "ServerOptions \<Rightarrow> EvaluateRequest \<Rightarrow> DegradationCondition list" where
  "request_conditions opts req =
     (case rq_degraded_conditions req of Some cs \<Rightarrow> cs | None \<Rightarrow> []) @ collectDegradation (so_probes opts)"

definition evaluate_params :: "ServerOptions \<Rightarrow> EvaluateRequest \<Rightarrow> EvaluateExecutionControlInput" where
  "evaluate_params opts req =
     (let conditions = request_conditions opts req
      in \<lparr> ec_gate = \<lparr> ci_ward = Some (so_ward opts), ci_authorityEnvelope = so_authorityEnvelope opts,
             ci_action = rq_action req, ci_runtimeRegister = rq_runtime_register req, ci_now = so_now opts,
             ci_degradedConditions = (if conditions = [] then None else Some conditions) \<rparr>,
           ec_signer = so_signer opts, ec_killSwitch = so_killSwitch opts, ec_replayProtection = so_replayProtection opts,
           ec_revocations = so_revocations opts, ec_warrantTtlSeconds = so_warrantTtlSeconds opts,
           ec_actor = rq_principal req, ec_trace_context = rq_trace_context req \<rparr>)"

definition degraded_answer :: "ServerOptions \<Rightarrow> EvaluateRequest \<Rightarrow> EvaluateResponse" where
  "degraded_answer opts req =
     (let fm = resolveFailMode DEFAULT_FAIL_MODE_POLICY (wm_criticality (so_ward opts)) (Some (request_conditions opts req))
      in DegradedAnswer (if fm_action fm = refuse_action then REFUSE else if fm_action fm = escalate then ESCALATE else ALLOW)
           (fm_condition fm))"

primrec decision_status :: "ExecutionControlDecision \<Rightarrow> nat" where
  "decision_status ALLOW = 200"
| "decision_status ESCALATE = 202"
| "decision_status REFUSE = 409"
| "decision_status EXPIRE = 409"

definition governed_answer ::
  "platform \<Rightarrow> 'b LedgerBackend \<Rightarrow> ServerOptions \<Rightarrow> ambience \<Rightarrow> EvaluateRequest \<Rightarrow> 'b server \<Rightarrow> EvaluateResponse \<times> 'b server" where
  "governed_answer P B opts am req sv =
     (case evaluateExecutionControl P B am (evaluate_params opts req) (sv_boundary sv) of
        (Inl e, b) \<Rightarrow> (ServerError e, sv \<lparr> sv_boundary := b \<rparr>)
      | (Inr res, b) \<Rightarrow> (Answer (decision_status (er_decision res)) res, sv \<lparr> sv_boundary := b \<rparr>))"

text \<open>\<open>ms\<close> is \<open>Date.now()\<close> as the rate limiter reads it.\<close>

definition handle_evaluate ::
  "platform \<Rightarrow> 'b LedgerBackend \<Rightarrow> ServerOptions \<Rightarrow> ambience \<Rightarrow> rat \<Rightarrow> EvaluateRequest \<Rightarrow> 'b server \<Rightarrow> EvaluateResponse \<times> 'b server" where
  "handle_evaluate P B opts am ms req sv =
     (let (ok, rl') = (case sv_rateLimiter sv of
            None \<Rightarrow> (True, None)
          | Some rl \<Rightarrow> (let (ok, rl') = limiter_allow (act_subject (rq_action req)) ms rl in (ok, Some rl')));
          sv1 = sv \<lparr> sv_rateLimiter := rl' \<rparr>
      in if \<not> ok then (RateLimited (act_subject (rq_action req)), sv1)
         else if ledger_unavailable \<in> set (request_conditions opts req) then (degraded_answer opts req, sv1)
         else governed_answer P B opts am req sv1)"

section \<open>What an answer tells\<close>

fun answered_decision :: "EvaluateResponse \<Rightarrow> ExecutionControlDecision option" where
  "answered_decision (DegradedAnswer d _) = Some d"
| "answered_decision (Answer _ res) = Some (er_decision res)"
| "answered_decision _ = None"

lemma handle_cases:
  assumes "handle_evaluate P B opts am ms req sv = (resp, sv')"
  obtains (limited) "resp = RateLimited (act_subject (rq_action req))" "sv_boundary sv' = sv_boundary sv"
  | (degraded) "ledger_unavailable \<in> set (request_conditions opts req)" "resp = degraded_answer opts req"
      "sv_boundary sv' = sv_boundary sv"
  | (governed) res where "ledger_unavailable \<notin> set (request_conditions opts req)"
      "evaluateExecutionControl P B am (evaluate_params opts req) (sv_boundary sv) = (Inr res, sv_boundary sv')"
      "resp = Answer (decision_status (er_decision res)) res"
  | (failed) e where "evaluateExecutionControl P B am (evaluate_params opts req) (sv_boundary sv) = (Inl e, sv_boundary sv')"
      "resp = ServerError e"
  using assms
  by (auto simp: handle_evaluate_def governed_answer_def Let_def split: prod.splits if_splits option.splits sum.splits)

lemma default_condition_blocks:
  assumes "crit \<noteq> Some best_effort" "c \<in> {ledger_unavailable, control_plane_stale}" "c \<in> set cs"
  shows "fm_action (resolveFailMode DEFAULT_FAIL_MODE_POLICY crit (Some cs)) \<in> {escalate, refuse_action}"
proof -
  have "escalate \<le> default_action (effective_criticality crit) c"
    using assms(1,2) by (cases "effective_criticality crit")
      (auto simp: effective_criticality_def DEFAULT_CRITICALITY_def fail_table_of_def condition_action_def fail_action_order
        split: option.splits)
  then have "escalate \<le> fm_action (resolveFailMode DEFAULT_FAIL_MODE_POLICY crit (Some cs))"
    using assms(3) by (auto simp: resolveFailMode_action Max_insert_allow_iff)
  then show ?thesis
    by (cases "fm_action (resolveFailMode DEFAULT_FAIL_MODE_POLICY crit (Some cs))") (simp_all add: fail_action_order)
qed

lemma degraded_answer_blocks:
  assumes "wm_criticality (so_ward opts) \<noteq> Some best_effort" "c \<in> {ledger_unavailable, control_plane_stale}"
    "c \<in> set (request_conditions opts req)"
  shows "answered_decision (degraded_answer opts req) \<noteq> Some ALLOW"
  using default_condition_blocks[OF assms] by (auto simp: degraded_answer_def Let_def)

lemma governed_blocks:
  assumes "wm_criticality (so_ward opts) \<noteq> Some best_effort" "c \<in> {ledger_unavailable, control_plane_stale}"
    "c \<in> set (request_conditions opts req)"
    and "evaluateExecutionControl P B am (evaluate_params opts req) b = (Inr res, b')"
  shows "er_decision res \<noteq> ALLOW"
proof
  assume "er_decision res = ALLOW"
  obtain d where d: "decide_phase P B am (evaluate_params opts req) b = Inr d" "er_decision res = cg_decision (dd_decision d)"
    using assms(4) by (rule evaluate_Inr)
  obtain snapshot where "admissible P (gate_time P am (ec_gate (evaluate_params opts req))) (ec_gate (evaluate_params opts req)) snapshot"
    using decide_phase_allow[OF d(1)] d(2) \<open>er_decision res = ALLOW\<close> by metis
  moreover obtain x xs where "request_conditions opts req = x # xs"
    using assms(3) by (cases "request_conditions opts req") auto
  ultimately show False
    using default_condition_blocks[OF assms(1-3)]
    by (auto simp: admissible_def evaluate_params_def Let_def degraded_action_def)
qed

section \<open>Properties\<close>

text \<open>
  C16 Where an ALLOW answer comes from: the handler on a file ledger answers ALLOW either after a governed
  call, with status 200, whose action the Commit Gate specification admits and which left exactly one
  record carrying that decision and hash, or on a best-effort Ward while \<open>ledger_unavailable\<close> is
  reported by a probe or claimed by the caller, and then nothing was checked or recorded.
\<close>

theorem server_allow_origin:
  assumes "file_inv (bd_ledger (sv_boundary sv))"
    and "handle_evaluate P (FileLedgerBackend P) opts am ms req sv = (resp, sv')" "answered_decision resp = Some ALLOW"
  shows "(\<exists>res snapshot r. resp = Answer 200 res \<and>
        admissible P (gate_time P am (ec_gate (evaluate_params opts req))) (ec_gate (evaluate_params opts req)) snapshot \<and>
        fl_file (bd_ledger (sv_boundary sv')) = fl_file (bd_ledger (sv_boundary sv)) @ [r] \<and>
        is_admission (er_canonical_action_hash res) r) \<or>
     (wm_criticality (so_ward opts) = Some best_effort \<and> ledger_unavailable \<in> set (request_conditions opts req) \<and>
        sv_boundary sv' = sv_boundary sv)"
  using assms(2)
proof (cases rule: handle_cases)
  case degraded
  then show ?thesis using assms(3) degraded_answer_blocks[of opts ledger_unavailable req] by auto
next
  case (governed res)
  have allow: "er_decision res = ALLOW" using governed(3) assms(3) by simp
  obtain d where d: "decide_phase P (FileLedgerBackend P) am (evaluate_params opts req) (sv_boundary sv) = Inr d"
      "er_decision res = cg_decision (dd_decision d)"
    using governed(2) by (rule evaluate_Inr)
  obtain snapshot where s: "admissible P (gate_time P am (ec_gate (evaluate_params opts req))) (ec_gate (evaluate_params opts req)) snapshot"
    using decide_phase_allow[OF d(1)] d(2) allow by metis
  obtain r where "fl_file (bd_ledger (sv_boundary sv')) = fl_file (bd_ledger (sv_boundary sv)) @ [r]"
    "is_admission (er_canonical_action_hash res) r"
    using file_backed.evaluate_appends[OF assms(1) governed(2)] allow by (auto simp: FileLedgerBackend_def admits_def)
  with s allow governed(3) show ?thesis by auto
qed (use assms(3) in auto)

text \<open>
  A stale node fails closed: when the control-plane probe watches a containment tracker whose last
  synchronisation is older than the staleness limit, or whose age is unknown, no request on a Ward that
  is not marked best-effort is answered ALLOW, whatever else the request claims.
\<close>

theorem stale_node_fails_closed:
  assumes "handle_evaluate P B opts am ms req sv = (resp, sv')"
    and "controlPlaneStaleProbe P policy f now \<in> set (so_probes opts)"
    and "ep_maxRevocationStalenessMs policy = Some m" "\<not> fresh_at P m (es_lastSyncAt (tracker_state f)) now"
    and "wm_criticality (so_ward opts) \<noteq> Some best_effort"
  shows "answered_decision resp \<noteq> Some ALLOW"
proof -
  obtain detail where "tracker_check P policy f now = Uncontained REVOCATION_STALE detail"
    using assms(3,4) stale_iff[of P policy "tracker_state f" now] by (auto simp: tracker_check_def)
  then have "Inr (Some control_plane_stale) \<in> set (so_probes opts)"
    using assms(2) by (simp add: controlPlaneStaleProbe_def)
  then have c: "control_plane_stale \<in> {ledger_unavailable, control_plane_stale}" "control_plane_stale \<in> set (request_conditions opts req)"
    by (simp_all add: request_conditions_def collectDegradation_set)
  from assms(1) show ?thesis
    by (cases rule: handle_cases) (use degraded_answer_blocks[OF assms(5) c] in \<open>auto dest!: governed_blocks[OF assms(5) c]\<close>)
qed

text \<open>A server with empty stores; the caller of the request claims that the ledger is unavailable.\<close>

definition sample_options :: "WardCriticality option \<Rightarrow> probe_run list \<Rightarrow> ServerOptions" where
  "sample_options criticality probes =
     \<lparr> so_ward = sample_ward \<lparr> wm_criticality := criticality \<rparr>, so_authorityEnvelope = Some sample_envelope,
       so_now = Some ''200'', so_signer = Some sample_signer, so_killSwitch = True, so_replayProtection = True,
       so_revocations = None, so_warrantTtlSeconds = None, so_probes = probes \<rparr>"

definition sample_request :: EvaluateRequest where
  "sample_request = \<lparr> rq_action = sample_action, rq_runtime_register = None,
     rq_degraded_conditions = Some [ledger_unavailable], rq_principal = None, rq_trace_context = None \<rparr>"

definition sample_server :: "file_ledger server" where
  "sample_server = \<lparr> sv_boundary = \<lparr> bd_ledger = \<lparr> fl_index = \<lparr> ix_tip = JStr GENESIS_HASH, ix_count = 0, ix_admitted = {},
       ix_ok = True, ix_failure = None \<rparr>, fl_file = [] \<rparr>, bd_budget = None, bd_approvals = None \<rparr>, sv_rateLimiter = None \<rparr>"

definition sample_call_ambience :: ambience where
  "sample_call_ambience = \<lparr> am_wall = ''200'', am_nonce = ''n1'', am_dev_signer = sample_signer \<rparr>"

lemma sample_degraded:
  "handle_evaluate sample (FileLedgerBackend sample) (sample_options (Some best_effort) []) sample_call_ambience 0 sample_request sample_server
     = (DegradedAnswer ALLOW (Some ledger_unavailable), sample_server)"
  by (simp add: handle_evaluate_def sample_server_def request_conditions_def sample_request_def degraded_answer_def
      sample_options_def collectDegradation_def resolveFailMode_def default_action_defs Let_def)

theorem server_allow_origin_witness:
  "answered_decision (fst (handle_evaluate sample (FileLedgerBackend sample) (sample_options (Some best_effort) [])
       sample_call_ambience 0 sample_request sample_server)) = Some ALLOW \<and>
   wm_criticality (so_ward (sample_options (Some best_effort) [])) = Some best_effort \<and>
   ledger_unavailable \<in> set (request_conditions (sample_options (Some best_effort) []) sample_request)"
proof -
  have "file_inv (bd_ledger (sv_boundary sample_server))"
    by (simp add: file_inv_def sample_server_def index_agrees_def chain_tip_def hasPriorAdmission_def)
  from server_allow_origin[OF this sample_degraded] show ?thesis by (simp add: sample_degraded)
qed

theorem stale_node_fails_closed_witness:
  "answered_decision (fst (handle_evaluate sample (FileLedgerBackend sample)
     (sample_options None [controlPlaneStaleProbe sample \<lparr> ep_maxRevocationStalenessMs = Some 1000, ep_offlineWarrantQuota = None \<rparr>
        UnreadableContainmentFile ''200'']) sample_call_ambience 0 sample_request sample_server)) \<noteq> Some ALLOW"
proof (rule stale_node_fails_closed[OF prod.collapse[symmetric], where m = 1000 and f = UnreadableContainmentFile and now = "''200''"
      and policy = "\<lparr> ep_maxRevocationStalenessMs = Some 1000, ep_offlineWarrantQuota = None \<rparr>"])
  show "\<not> fresh_at sample 1000 (es_lastSyncAt (tracker_state UnreadableContainmentFile)) ''200''"
    by (simp add: fresh_at_def EPOCH_def decimal_parse_def is_digit_def)
qed (simp_all add: sample_options_def)

end
