(* ===== verification/Evidence.thy ===== *)
theory Evidence
  imports Ledger_Chain
begin

text \<open>
  Evidence bundles of \<open>index.ts\<close>: \<open>exportEvidenceBundle\<close>, \<open>verifyEvidenceBundle\<close> and
  \<open>evidenceBundleHash\<close>.  The bundled Ward Manifest and Authority Envelope are the JavaScript objects,
  since they are hashed as such.  The theorems: what a successful verification establishes, and that
  an exported bundle of a sound ledger verifies.
\<close>

section \<open>Data\<close>

record EvidenceHashes =
  eh_ward_manifest_hash :: hash
  eh_authority_envelope_hash :: "hash option"
  eh_selected_record_hash :: json
  eh_ledger_tip_hash :: json
  eh_bundle_hash :: hash

record EvidenceBundleSignature =
  bs_algorithm :: string
  bs_key_id :: string
  bs_public_key :: string
  bs_value :: string

record EvidenceBundle =
  eb_bundle_version :: string
  eb_exported_at :: iso_time
  eb_ward :: json
  eb_authority_envelope :: "json option"
  eb_selected_record :: GelRecord
  eb_ledger_chain :: "GelRecord list"
  eb_warrant :: "Warrant option"
  eb_hashes :: EvidenceHashes
  eb_bundle_signature :: "EvidenceBundleSignature option"

record EvidenceBundleVerification =
  ev_ok :: bool
  ev_failures :: "string list"
  ev_ledger :: GelVerification
  ev_warrant :: "WarrantVerification option"
  ev_bundle_hash :: hash
  ev_bundle_signature_ok :: "bool option"

record VerifyEvidenceBundleOptions =
  ve_trustedKeyIds :: "string list option"
  ve_revocations :: "RevocationList option"

record ExportEvidenceBundleInput =
  ei_ledger :: "GelRecord list"
  ei_ward :: json
  ei_authorityEnvelope :: "json option"
  ei_recordId :: "string option"
  ei_warrant :: "Warrant option"
  ei_exportedAt :: "iso_time option"
  ei_signer :: "AristotleSigner option"

definition BUNDLE_VERSION :: string where
  "BUNDLE_VERSION = ''aristotle.execution-evidence.v1''"

section \<open>Hashes\<close>

definition json_hash :: "platform \<Rightarrow> json \<Rightarrow> hash result" where
  "json_hash P v = bind_result (stableStringify P v) (\<lambda>s. Inr (sha256_hex P s))"

definition opt_hash :: "platform \<Rightarrow> json option \<Rightarrow> hash option result" where
  "opt_hash P v = (case v of None \<Rightarrow> Inr None | Some w \<Rightarrow> bind_result (json_hash P w) (\<lambda>h. Inr (Some h)))"

definition warrant_json :: "Warrant \<Rightarrow> json" where
  "warrant_json w = JObj
     [(''warrant_id'', JStr (wr_warrant_id w)), (''ward_id'', JStr (wr_ward_id w)),
      (''authority_envelope_id'', JStr (wr_authority_envelope_id w)),
      (''canonical_action_hash'', JStr (wr_canonical_action_hash w)), (''subject'', JStr (wr_subject w)),
      (''action_type'', JStr (wr_action_type w)), (''decision'', JStr (wr_decision w)),
      (''issued_at'', JStr (wr_issued_at w)), (''expires_at'', JStr (wr_expires_at w)),
      (''single_use'', JBool (wr_single_use w)), (''consumed'', JBool (wr_consumed w)),
      (''nonce'', opt_json JStr (wr_nonce w)), (''issuer'', JStr (wr_issuer w)),
      (''signature'', JStr (wr_signature w)), (''signature_algorithm'', JStr (wr_signature_algorithm w)),
      (''signing_key_id'', JStr (wr_signing_key_id w)), (''signing_public_key'', JStr (wr_signing_public_key w))]"

definition evidenceBundleHash :: "platform \<Rightarrow> EvidenceBundle \<Rightarrow> hash result" where
  "evidenceBundleHash P bundle = json_hash P (JObj
     [(''bundle_version'', JStr (eb_bundle_version bundle)),
      (''exported_at'', JStr (eb_exported_at bundle)),
      (''ward'', eb_ward bundle),
      (''authority_envelope'', opt_json (\<lambda>v. v) (eb_authority_envelope bundle)),
      (''selected_record'', JObj (eb_selected_record bundle)),
      (''ledger_chain'', JArr (map JObj (eb_ledger_chain bundle))),
      (''warrant'', opt_json warrant_json (eb_warrant bundle)),
      (''hashes'', JObj
         [(''ward_manifest_hash'', JStr (eh_ward_manifest_hash (eb_hashes bundle))),
          (''authority_envelope_hash'', opt_json JStr (eh_authority_envelope_hash (eb_hashes bundle))),
          (''selected_record_hash'', eh_selected_record_hash (eb_hashes bundle)),
          (''ledger_tip_hash'', eh_ledger_tip_hash (eb_hashes bundle))])])"

section \<open>Verification\<close>

definition find_record :: "json \<Rightarrow> GelRecord list \<Rightarrow> GelRecord option" where
  "find_record record_id chain = find (\<lambda>r. obj_get r ''record_id'' = record_id) chain"

definition push_if :: "bool \<Rightarrow> string \<Rightarrow> string list" where
  "push_if c s = (if c then [s] else [])"

text \<open>The texts of the found record and of the bundled one, compared when a record was found.\<close>

definition selected_failures :: "platform \<Rightarrow> EvidenceBundle \<Rightarrow> string list result" where
  "selected_failures P bundle =
     (case find_record (obj_get (eb_selected_record bundle) ''record_id'') (eb_ledger_chain bundle) of
        None \<Rightarrow> Inr [''selected GEL record is not present in ledger chain'']
      | Some selected \<Rightarrow>
          bind_result (stableStringify P (JObj selected)) (\<lambda>a.
          bind_result (stableStringify P (JObj (eb_selected_record bundle))) (\<lambda>b.
            Inr (push_if (a \<noteq> b) ''selected GEL record does not match ledger chain material''))))"

definition envelope_failures :: "platform \<Rightarrow> EvidenceBundle \<Rightarrow> string list result" where
  "envelope_failures P bundle =
     (case eb_authority_envelope bundle of
        None \<Rightarrow> Inr []
      | Some env \<Rightarrow>
          bind_result (json_hash P env) (\<lambda>expected.
            Inr (push_if (eh_authority_envelope_hash (eb_hashes bundle) \<noteq> Some expected) ''Authority Envelope hash mismatch'' @
                 push_if (truthy (obj_get (eb_selected_record bundle) ''authority_envelope_id'') \<and>
                          obj_get (eb_selected_record bundle) ''authority_envelope_id'' \<noteq> js_get env ''envelope_id'')
                   ''selected record Authority Envelope does not match bundled Authority Envelope'')))"

definition warrant_check :: "platform \<Rightarrow> VerifyEvidenceBundleOptions \<Rightarrow> EvidenceBundle \<Rightarrow> WarrantVerification option" where
  "warrant_check P opts bundle =
     map_option (\<lambda>w.
       case as_string (obj_get (eb_selected_record bundle) ''canonical_action_hash'') of
         Some h \<Rightarrow> verifyWarrant P w h (wr_issued_at w)
                    (default_options \<lparr> vo_trustedKeyIds := ve_trustedKeyIds opts, vo_revocations := ve_revocations opts \<rparr>)
       | None \<Rightarrow> Some ACTION_HASH_MISMATCH) (eb_warrant bundle)"

definition warrant_failures :: "platform \<Rightarrow> VerifyEvidenceBundleOptions \<Rightarrow> EvidenceBundle \<Rightarrow> string list" where
  "warrant_failures P opts bundle =
     (let recorded = obj_get (eb_selected_record bundle) ''warrant_id''
      in case eb_warrant bundle of
           Some w \<Rightarrow>
             (case warrant_check P opts bundle of
                Some (Some reason) \<Rightarrow> [''warrant verification failed: '' @ warrant_reason_name reason]
              | _ \<Rightarrow> []) @
             push_if (truthy recorded \<and> recorded \<noteq> JStr (wr_warrant_id w)) ''selected record Warrant id does not match bundled Warrant''
         | None \<Rightarrow> push_if (truthy recorded) ''selected record references a Warrant but no Warrant material is bundled'')"

definition bundle_signature_check ::
  "platform \<Rightarrow> VerifyEvidenceBundleOptions \<Rightarrow> EvidenceBundle \<Rightarrow> bool option \<times> string list" where
  "bundle_signature_check P opts bundle =
     (case eb_bundle_signature bundle of
        None \<Rightarrow> (None, [])
      | Some sig \<Rightarrow>
          if (case ve_trustedKeyIds opts of Some ids \<Rightarrow> bs_key_id sig \<notin> set ids | None \<Rightarrow> False)
          then (Some False, [''bundle signature uses an untrusted signing key''])
          else if bs_algorithm sig \<noteq> ''ed25519'' \<or>
                  \<not> verifyEd25519 P (bs_public_key sig) (eh_bundle_hash (eb_hashes bundle)) (bs_value sig)
          then (Some False, [''bundle signature verification failed''])
          else (Some True, []))"

definition verifyEvidenceBundle ::
  "platform \<Rightarrow> EvidenceBundle \<Rightarrow> VerifyEvidenceBundleOptions \<Rightarrow> EvidenceBundleVerification result" where
  "verifyEvidenceBundle P bundle opts =
     bind_result (verifyGelRecords P (eb_ledger_chain bundle)) (\<lambda>ledger.
     bind_result (selected_failures P bundle) (\<lambda>selected.
     bind_result (json_hash P (eb_ward bundle)) (\<lambda>expectedWardHash.
     bind_result (envelope_failures P bundle) (\<lambda>env.
     bind_result (evidenceBundleHash P bundle) (\<lambda>expectedBundleHash.
       let hashes = eb_hashes bundle;
           record = eb_selected_record bundle;
           failures =
             push_if (eb_bundle_version bundle \<noteq> BUNDLE_VERSION) ''unsupported evidence bundle version'' @
             push_if (\<not> gv_ok ledger) (''ledger verification failed: '' @ (case gv_failure ledger of Some f \<Rightarrow> f | None \<Rightarrow> ''undefined'')) @
             selected @
             push_if (obj_get record ''record_hash'' \<noteq> eh_selected_record_hash hashes)
               ''selected record hash does not match bundle hash declaration'' @
             push_if (eh_ward_manifest_hash hashes \<noteq> expectedWardHash) ''Ward Manifest hash mismatch'' @
             push_if (obj_get record ''ward_id'' \<noteq> js_get (eb_ward bundle) ''ward_id'')
               ''selected record Ward does not match bundled Ward Manifest'' @
             env @
             push_if (eh_ledger_tip_hash hashes \<noteq> chain_tip (eb_ledger_chain bundle)) ''ledger tip hash mismatch'' @
             warrant_failures P opts bundle @
             push_if (eh_bundle_hash hashes \<noteq> [] \<and> eh_bundle_hash hashes \<noteq> expectedBundleHash) ''evidence bundle hash mismatch'' @
             snd (bundle_signature_check P opts bundle)
       in Inr \<lparr> ev_ok = (failures = []), ev_failures = failures, ev_ledger = ledger,
                ev_warrant = warrant_check P opts bundle, ev_bundle_hash = expectedBundleHash,
                ev_bundle_signature_ok = fst (bundle_signature_check P opts bundle) \<rparr>)))))"

section \<open>Export\<close>

definition no_options :: VerifyEvidenceBundleOptions where
  "no_options = \<lparr> ve_trustedKeyIds = None, ve_revocations = None \<rparr>"

definition select_record :: "string option \<Rightarrow> GelRecord list \<Rightarrow> GelRecord result" where
  "select_record recordId chain =
     (case recordId of
        Some i \<Rightarrow> if i \<noteq> [] then (case find_record (JStr i) chain of Some r \<Rightarrow> Inr r | None \<Rightarrow> Inl (RecordNotFound i))
                  else if chain = [] then Inl LedgerEmpty else Inr (last chain)
      | None \<Rightarrow> if chain = [] then Inl LedgerEmpty else Inr (last chain))"

definition normalize_opt :: "platform \<Rightarrow> json option \<Rightarrow> json option result" where
  "normalize_opt P v = (case v of None \<Rightarrow> Inr None | Some w \<Rightarrow> bind_result (stableNormalize P w) (\<lambda>n. Inr (Some n)))"

text \<open>The exported bundle and its own verification verdict.\<close>

definition exportEvidenceBundle ::
  "platform \<Rightarrow> iso_time \<Rightarrow> ExportEvidenceBundleInput \<Rightarrow> (EvidenceBundle \<times> EvidenceBundleVerification) result" where
  "exportEvidenceBundle P wall input =
     bind_result (select_record (ei_recordId input) (ei_ledger input)) (\<lambda>selected.
     bind_result (stableNormalize P (ei_ward input)) (\<lambda>ward.
     bind_result (normalize_opt P (ei_authorityEnvelope input)) (\<lambda>env.
     bind_result (json_hash P ward) (\<lambda>ward_hash.
     bind_result (opt_hash P env) (\<lambda>env_hash.
       let partial = \<lparr> eb_bundle_version = BUNDLE_VERSION,
             eb_exported_at = (case ei_exportedAt input of Some t \<Rightarrow> t | None \<Rightarrow> wall),
             eb_ward = ward, eb_authority_envelope = env, eb_selected_record = selected,
             eb_ledger_chain = ei_ledger input, eb_warrant = ei_warrant input,
             eb_hashes = \<lparr> eh_ward_manifest_hash = ward_hash, eh_authority_envelope_hash = env_hash,
               eh_selected_record_hash = obj_get selected ''record_hash'',
               eh_ledger_tip_hash = chain_tip (ei_ledger input), eh_bundle_hash = [] \<rparr>,
             eb_bundle_signature = None \<rparr>
       in bind_result (evidenceBundleHash P partial) (\<lambda>bundle_hash.
            let draft = partial \<lparr> eb_hashes := (eb_hashes partial) \<lparr> eh_bundle_hash := bundle_hash \<rparr>,
                  eb_bundle_signature := map_option (\<lambda>sg. \<lparr> bs_algorithm = sg_algorithm sg, bs_key_id = sg_key_id sg,
                     bs_public_key = sg_public_key_pem sg, bs_value = sg_sign sg bundle_hash \<rparr>) (ei_signer input) \<rparr>
            in bind_result (verifyEvidenceBundle P draft no_options) (\<lambda>v. Inr (draft, v))))))))"

section \<open>What verification establishes\<close>

lemma push_if_Nil [simp]: "push_if c s = [] \<longleftrightarrow> \<not> c"
  by (simp add: push_if_def)

lemma find_record_Some: "find_record i chain = Some r \<Longrightarrow> r \<in> set chain \<and> obj_get r ''record_id'' = i"
  by (auto simp: find_record_def find_Some_iff)

definition bundle_sound :: "platform \<Rightarrow> VerifyEvidenceBundleOptions \<Rightarrow> EvidenceBundle \<Rightarrow> bool" where
  "bundle_sound P opts bundle \<longleftrightarrow>
     eb_bundle_version bundle = BUNDLE_VERSION \<and>
     chain_ok P (eb_ledger_chain bundle) \<and>
     (\<exists>r \<in> set (eb_ledger_chain bundle). stableStringify P (JObj r) = stableStringify P (JObj (eb_selected_record bundle))) \<and>
     obj_get (eb_selected_record bundle) ''ward_id'' = js_get (eb_ward bundle) ''ward_id'' \<and>
     json_hash P (eb_ward bundle) = Inr (eh_ward_manifest_hash (eb_hashes bundle)) \<and>
     eh_ledger_tip_hash (eb_hashes bundle) = chain_tip (eb_ledger_chain bundle) \<and>
     (truthy (obj_get (eb_selected_record bundle) ''warrant_id'') \<longrightarrow> (\<exists>w. eb_warrant bundle = Some w \<and>
        obj_get (eb_selected_record bundle) ''warrant_id'' = JStr (wr_warrant_id w))) \<and>
     (\<forall>w. eb_warrant bundle = Some w \<longrightarrow> signature_valid P w \<and>
        obj_get (eb_selected_record bundle) ''canonical_action_hash'' = JStr (wr_canonical_action_hash w)) \<and>
     (\<forall>sig. eb_bundle_signature bundle = Some sig \<longrightarrow>
        verifyEd25519 P (bs_public_key sig) (eh_bundle_hash (eb_hashes bundle)) (bs_value sig) \<and>
        (\<forall>ids. ve_trustedKeyIds opts = Some ids \<longrightarrow> bs_key_id sig \<in> set ids)) \<and>
     (eh_bundle_hash (eb_hashes bundle) \<noteq> [] \<longrightarrow> evidenceBundleHash P bundle = Inr (eh_bundle_hash (eb_hashes bundle)))"

lemma verifyEvidenceBundle_ok_parts:
  assumes "verifyEvidenceBundle P bundle opts = Inr v" "ev_ok v"
  shows "eb_bundle_version bundle = BUNDLE_VERSION" "chain_ok P (eb_ledger_chain bundle)"
    and "selected_failures P bundle = Inr []" "envelope_failures P bundle = Inr []" "warrant_failures P opts bundle = []"
    and "obj_get (eb_selected_record bundle) ''ward_id'' = js_get (eb_ward bundle) ''ward_id''"
    and "json_hash P (eb_ward bundle) = Inr (eh_ward_manifest_hash (eb_hashes bundle))"
    and "eh_ledger_tip_hash (eb_hashes bundle) = chain_tip (eb_ledger_chain bundle)"
    and "eh_bundle_hash (eb_hashes bundle) \<noteq> [] \<longrightarrow> evidenceBundleHash P bundle = Inr (eh_bundle_hash (eb_hashes bundle))"
    and "snd (bundle_signature_check P opts bundle) = []"
  using assms by (auto simp: verifyEvidenceBundle_def Let_def chain_ok_def)

lemma selected_failures_ok:
  assumes "selected_failures P bundle = Inr []"
  shows "\<exists>r \<in> set (eb_ledger_chain bundle). stableStringify P (JObj r) = stableStringify P (JObj (eb_selected_record bundle))"
  using assms by (auto simp: selected_failures_def dest!: find_record_Some split: option.splits)

lemma warrant_failures_ok:
  assumes "warrant_failures P opts bundle = []"
  shows "truthy (obj_get (eb_selected_record bundle) ''warrant_id'') \<longrightarrow> (\<exists>w. eb_warrant bundle = Some w \<and>
        obj_get (eb_selected_record bundle) ''warrant_id'' = JStr (wr_warrant_id w))"
    and "\<forall>w. eb_warrant bundle = Some w \<longrightarrow> signature_valid P w \<and>
        obj_get (eb_selected_record bundle) ''canonical_action_hash'' = JStr (wr_canonical_action_hash w)"
proof -
  have as_str: "as_string v = Some s \<longleftrightarrow> v = JStr s" for v s by (cases v) auto
  show "truthy (obj_get (eb_selected_record bundle) ''warrant_id'') \<longrightarrow> (\<exists>w. eb_warrant bundle = Some w \<and>
        obj_get (eb_selected_record bundle) ''warrant_id'' = JStr (wr_warrant_id w))"
    using assms by (auto simp: warrant_failures_def Let_def split: option.splits)
  show "\<forall>w. eb_warrant bundle = Some w \<longrightarrow> signature_valid P w \<and>
        obj_get (eb_selected_record bundle) ''canonical_action_hash'' = JStr (wr_canonical_action_hash w)"
    using assms by (auto simp: warrant_failures_def warrant_check_def Let_def as_str verifyWarrant_ok split: option.splits)
qed

lemma bundle_signature_ok:
  assumes "snd (bundle_signature_check P opts bundle) = []" "eb_bundle_signature bundle = Some sig"
  shows "verifyEd25519 P (bs_public_key sig) (eh_bundle_hash (eb_hashes bundle)) (bs_value sig) \<and>
     (\<forall>ids. ve_trustedKeyIds opts = Some ids \<longrightarrow> bs_key_id sig \<in> set ids)"
  using assms by (auto simp: bundle_signature_check_def split: if_splits option.splits)

lemma verified_bundle_sound:
  "verifyEvidenceBundle P bundle opts = Inr v \<Longrightarrow> ev_ok v \<Longrightarrow> bundle_sound P opts bundle"
  unfolding bundle_sound_def
  using verifyEvidenceBundle_ok_parts[of P "bundle" opts v] selected_failures_ok[of P "bundle"]
    warrant_failures_ok[of P opts "bundle"] bundle_signature_ok[of P opts "bundle"]
  by (intro conjI allI impI) simp_all

section \<open>Export\<close>

lemma select_record_found:
  assumes "select_record i chain = Inr r" "distinct (map (\<lambda>r. obj_get r ''record_id'') chain)"
  shows "find_record (obj_get r ''record_id'') chain = Some r"
proof -
  have last: "find_record (obj_get (last xs) ''record_id'') xs = Some (last xs)"
    if "xs \<noteq> []" "distinct (map (\<lambda>r. obj_get r ''record_id'') xs)" for xs
    using that
  proof (induction xs)
    case (Cons x xs)
    then show ?case by (cases "xs = []") (auto simp: find_record_def dest: last_in_set)
  qed simp
  have named: "find_record (JStr x) chain = Some r \<Longrightarrow> find_record (obj_get r ''record_id'') chain = Some r" for x
    by (frule find_record_Some) simp
  show ?thesis
    using assms last[of chain] named
    by (auto simp: select_record_def split: option.splits if_splits)
qed

lemma evidenceBundleHash_cong:
  "evidenceBundleHash P (b \<lparr> eb_hashes := (eb_hashes b) \<lparr> eh_bundle_hash := h \<rparr>, eb_bundle_signature := s \<rparr>) = evidenceBundleHash P b"
  by (simp add: evidenceBundleHash_def)

text \<open>
  What an exporter brings together for a record: the Ward Manifest that has the id the record names, an
  envelope, if there is one, with the recorded id, and the warrant.
\<close>

definition names_field :: "json \<Rightarrow> string \<Rightarrow> json \<Rightarrow> bool" where
  "names_field v k i \<longleftrightarrow> (\<exists>es s. v = JObj es \<and> distinct (map fst es) \<and> finite_json v \<and> obj_get es k = JStr s \<and> i = JStr s)"

text \<open>
  The warrant of a record: none, for a record without a warrant id; otherwise the one that was issued
  by a sound signer for the recorded action hash, has the recorded id, a validity that is not empty,
  and is exported as issued, unconsumed.
\<close>

definition warrant_of_record :: "platform \<Rightarrow> GelRecord \<Rightarrow> Warrant option \<Rightarrow> bool" where
  "warrant_of_record P r warrant \<longleftrightarrow> (case warrant of
     None \<Rightarrow> obj_get r ''warrant_id'' = JUndef
   | Some w \<Rightarrow> obj_get r ''warrant_id'' = JStr (wr_warrant_id w) \<and>
       obj_get r ''canonical_action_hash'' = JStr (wr_canonical_action_hash w) \<and>
       (\<exists>decision action envelope now signer ttl nonce issuedMs expiresMs.
          issueWarrant P decision action envelope now signer ttl nonce = Inr (Some w) \<and> sound_signer P signer \<and>
          date_parse P (wr_issued_at w) = Some issuedMs \<and> date_parse P (wr_expires_at w) = Some expiresMs \<and> issuedMs < expiresMs))"

text \<open>A record the runtime built for a decision carries the warrant that was issued on it.\<close>

lemma built_warrant_of_record:
  assumes "buildGelRecord P wall prev build = Inr r"
    and "case bg_warrant build of None \<Rightarrow> True | Some w \<Rightarrow>
      issueWarrant P (bg_decision build) (bg_action build) envelope now signer ttl nonce = Inr (Some w) \<and> sound_signer P signer \<and>
      date_parse P (wr_issued_at w) = Some issuedMs \<and> date_parse P (wr_expires_at w) = Some expiresMs \<and> issuedMs < expiresMs"
  shows "warrant_of_record P r (bg_warrant build)"
proof (cases "bg_warrant build")
  case None
  then show ?thesis using built_warrant_id[OF assms(1)] by (simp add: warrant_of_record_def)
next
  case (Some w)
  with assms(2) have w: "issueWarrant P (bg_decision build) (bg_action build) envelope now signer ttl nonce = Inr (Some w)"
      "sound_signer P signer" "date_parse P (wr_issued_at w) = Some issuedMs" "date_parse P (wr_expires_at w) = Some expiresMs"
      "issuedMs < expiresMs" by simp_all
  then show ?thesis
    unfolding warrant_of_record_def Some option.case
    using built_warrant_id[OF assms(1)] built_field(2)[OF assms(1)] issueWarrant_Some(2)[OF w(1)] Some by simp blast
qed

lemma issued_warrant_no_failures:
  assumes "warrant_of_record P (eb_selected_record b) (eb_warrant b)"
  shows "warrant_failures P no_options b = []"
proof (cases "eb_warrant b")
  case None
  with assms show ?thesis by (simp add: warrant_failures_def warrant_of_record_def)
next
  case (Some w)
  with assms obtain decision action envelope now signer ttl nonce issuedMs expiresMs where
    w: "issueWarrant P decision action envelope now signer ttl nonce = Inr (Some w)" "sound_signer P signer"
      "date_parse P (wr_issued_at w) = Some issuedMs" "date_parse P (wr_expires_at w) = Some expiresMs" "issuedMs < expiresMs"
    and r: "obj_get (eb_selected_record b) ''warrant_id'' = JStr (wr_warrant_id w)"
      "obj_get (eb_selected_record b) ''canonical_action_hash'' = JStr (wr_canonical_action_hash w)"
    unfolding warrant_of_record_def Some option.case by auto
  have "verifyWarrant P w (wr_canonical_action_hash w) (wr_issued_at w)
      (default_options \<lparr> vo_trustedKeyIds := None, vo_revocations := None \<rparr>) = None"
    using issueWarrant_Some[OF w(1)] issued_signature_valid[OF w(1,2)] w(3-)
    by (simp add: verifyWarrant_ok default_options_def clock_skew_def lifetime_exceeded_def nonce_seen_def key_untrusted_def
        warrant_revoked_def)
  then show ?thesis
    by (simp add: warrant_failures_def warrant_check_def Some r no_options_def Let_def)
qed

lemma normalized_finite: "stableNormalize P v = Inr w \<Longrightarrow> finite_json w"
proof (induction P v arbitrary: w rule: stableNormalize.induct)
  case (1 P vs)
  then obtain ws where ws: "map_result (stableNormalize P) vs = Inr ws" "w = JArr ws" by auto
  have "list_all finite_json ws" if "map_result (stableNormalize P) xs = Inr ws" "set xs \<subseteq> set vs" for xs ws
    using that 1(1) by (induction xs arbitrary: ws) auto
  with ws show ?case by auto
next
  case (4 P es)
  let ?ds = "sort_entries (locale_le P) (filter (\<lambda>(k, v). v \<noteq> JUndef) es)"
  let ?f = "\<lambda>(k :: string, v). bind_result (stableNormalize P v) (\<lambda>w. Inr (k, w))"
  obtain fs where fs: "map_result ?f ?ds = Inr fs" "w = JObj (from_entries fs)"
    using 4(2) unfolding stableNormalize.simps by auto
  have "list_all (\<lambda>e. finite_json (snd e)) fs" if "map_result ?f xs = Inr fs" "set xs \<subseteq> set ?ds" for xs fs
    using that 4(1) by (induction xs arbitrary: fs) auto
  with fs have "list_all (\<lambda>e. finite_json (snd e)) fs" by blast
  with fs(2) show ?case by (simp add: list_all_iff)
qed auto

lemma names_field_normalized:
  assumes "names_field v k i" "stableNormalize P v = Inr w"
  shows "js_get w k = i"
proof -
  obtain es s where v: "v = JObj es" "distinct (map fst es)" "obj_get es k = JStr s" "i = JStr s"
    using assms(1) by (auto simp: names_field_def)
  obtain fs where w: "w = JObj fs" using stableNormalize_obj_form assms(2) v(1) by blast
  show ?thesis
    using normalize_obj_get(1)[of P es fs k] assms(2) v w by simp
qed

lemma finite_field: "finite_json (JObj r) \<Longrightarrow> finite_json (obj_get r k)"
  by (auto simp: obj_get_def list_all_iff dest!: map_of_SomeD split: option.split)

lemma finite_hash: "finite_json v \<Longrightarrow> \<exists>h. json_hash P v = Inr h"
  using stringify_total[of v P] by (auto simp: json_hash_def)

lemma bundle_hash_total:
  assumes "finite_json (eb_ward b)" "case eb_authority_envelope b of None \<Rightarrow> True | Some e \<Rightarrow> finite_json e"
    and "list_all (\<lambda>r. finite_json (JObj r)) (eb_ledger_chain b)" "finite_json (JObj (eb_selected_record b))"
    and "finite_json (eh_selected_record_hash (eb_hashes b))" "finite_json (eh_ledger_tip_hash (eb_hashes b))"
  shows "\<exists>h. evidenceBundleHash P b = Inr h"
proof -
  have opt: "finite_json (opt_json f x)" if "\<And>y. x = Some y \<Longrightarrow> finite_json (f y)" for f :: "'a \<Rightarrow> json" and x
    using that by (cases x) auto
  have "finite_json (warrant_json w)" for w by (simp add: warrant_json_def opt)
  then show ?thesis
    unfolding evidenceBundleHash_def using assms
    by (intro finite_hash) (auto simp: list_all_iff opt split: option.splits)
qed

lemma finite_not_nullish: "finite_json v \<Longrightarrow> finite_json d \<Longrightarrow> finite_json (not_nullish v d)"
  by (cases v) simp_all

lemma chain_tip_finite:
  assumes "list_all (\<lambda>r. finite_json (JObj r)) chain"
  shows "finite_json (chain_tip chain)"
proof (cases chain)
  case (Cons r rest)
  then have "last chain \<in> set chain" by (intro last_in_set) simp
  then have "finite_json (JObj (last chain))" using assms unfolding list_all_iff by blast
  then have "finite_json (obj_get (last chain) ''record_hash'')" by (rule finite_field)
  with Cons show ?thesis by (auto simp: chain_tip_def intro!: finite_not_nullish)
qed (simp add: chain_tip_def)

lemma select_record_in: "select_record i chain = Inr r \<Longrightarrow> r \<in> set chain"
  by (auto simp: select_record_def dest: find_record_Some split: option.splits if_splits)

text \<open>A bundle with these parts, hashed and signed, has nothing to complain about.\<close>

lemma sound_bundle_verifies:
  assumes "eb_bundle_version b = BUNDLE_VERSION" "chain_ok P (eb_ledger_chain b)"
    and "find_record (obj_get (eb_selected_record b) ''record_id'') (eb_ledger_chain b) = Some (eb_selected_record b)"
    and "finite_json (JObj (eb_selected_record b))" "obj_get (eb_selected_record b) ''record_hash'' = eh_selected_record_hash (eb_hashes b)"
    and "json_hash P (eb_ward b) = Inr (eh_ward_manifest_hash (eb_hashes b))"
    and "obj_get (eb_selected_record b) ''ward_id'' = js_get (eb_ward b) ''ward_id''"
    and "envelope_failures P b = Inr []" "eh_ledger_tip_hash (eb_hashes b) = chain_tip (eb_ledger_chain b)"
    and "warrant_failures P opts b = []" "evidenceBundleHash P b = Inr (eh_bundle_hash (eb_hashes b))"
    and "snd (bundle_signature_check P opts b) = []"
  shows "\<exists>v. verifyEvidenceBundle P b opts = Inr v \<and> ev_ok v"
proof -
  obtain s where "stableStringify P (JObj (eb_selected_record b)) = Inr s" using stringify_total[OF assms(4)] by blast
  then have "selected_failures P b = Inr []" using assms(3) by (simp add: selected_failures_def)
  with assms show ?thesis by (auto simp: verifyEvidenceBundle_def Let_def chain_ok_def)
qed

lemma exported_bundle_ok:
  assumes chain: "chain_ok P (ei_ledger input)" "distinct (map (\<lambda>r. obj_get r ''record_id'') (ei_ledger input))"
    and finite: "list_all (\<lambda>r. finite_json (JObj r)) (ei_ledger input)"
    and sel: "select_record (ei_recordId input) (ei_ledger input) = Inr r"
    and ward: "names_field (ei_ward input) ''ward_id'' (obj_get r ''ward_id'')"
    and env: "case ei_authorityEnvelope input of None \<Rightarrow> True
      | Some e \<Rightarrow> names_field e ''envelope_id'' (obj_get r ''authority_envelope_id'')"
    and warrant: "warrant_of_record P r (ei_warrant input)" and signer: "sound_signer_opt P (ei_signer input)"
  shows "\<exists>b v. exportEvidenceBundle P wall input = Inr (b, v) \<and> ev_ok v \<and> verifyEvidenceBundle P b no_options = Inr v \<and>
     eb_selected_record b = r \<and> eb_ledger_chain b = ei_ledger input \<and> eb_warrant b = ei_warrant input"
proof -
  have r: "finite_json (JObj r)" using select_record_in[OF sel] finite by (simp add: list_all_iff)
  obtain w where w: "stableNormalize P (ei_ward input) = Inr w"
    using normalize_total ward unfolding names_field_def by blast
  obtain wh where wh: "json_hash P w = Inr wh" using finite_hash[OF normalized_finite[OF w]] by blast
  obtain e where e: "normalize_opt P (ei_authorityEnvelope input) = Inr e"
    and ek: "case e of None \<Rightarrow> True | Some v \<Rightarrow> finite_json v \<and> js_get v ''envelope_id'' = obj_get r ''authority_envelope_id''"
  proof (cases "ei_authorityEnvelope input")
    case None
    then show thesis using that[of None] by (simp add: normalize_opt_def)
  next
    case (Some v)
    with env obtain n where "stableNormalize P v = Inr n" using normalize_total unfolding names_field_def by auto
    with Some env show thesis
      using that[of "Some n"] normalized_finite names_field_normalized by (simp add: normalize_opt_def)
  qed
  obtain eh where eh: "opt_hash P e = Inr eh"
    using finite_hash[of _ P] ek by (cases e) (fastforce simp: opt_hash_def)+
  define partial where "partial = \<lparr> eb_bundle_version = BUNDLE_VERSION,
     eb_exported_at = (case ei_exportedAt input of Some t \<Rightarrow> t | None \<Rightarrow> wall),
     eb_ward = w, eb_authority_envelope = e, eb_selected_record = r, eb_ledger_chain = ei_ledger input, eb_warrant = ei_warrant input,
     eb_hashes = \<lparr> eh_ward_manifest_hash = wh, eh_authority_envelope_hash = eh, eh_selected_record_hash = obj_get r ''record_hash'',
       eh_ledger_tip_hash = chain_tip (ei_ledger input), eh_bundle_hash = [] \<rparr>, eb_bundle_signature = None \<rparr>"
  obtain bh where bh: "evidenceBundleHash P partial = Inr bh"
    using bundle_hash_total[of partial P] normalized_finite[OF w] ek finite r finite_field[OF r] chain_tip_finite[OF finite]
    by (auto simp: partial_def split: option.splits)
  define b where "b = partial \<lparr> eb_hashes := (eb_hashes partial) \<lparr> eh_bundle_hash := bh \<rparr>,
     eb_bundle_signature := map_option (\<lambda>sg. \<lparr> bs_algorithm = sg_algorithm sg, bs_key_id = sg_key_id sg,
        bs_public_key = sg_public_key_pem sg, bs_value = sg_sign sg bh \<rparr>) (ei_signer input) \<rparr>"
  have hash: "evidenceBundleHash P b = Inr bh" unfolding b_def by (simp only: evidenceBundleHash_cong bh)
  have sig: "snd (bundle_signature_check P no_options b) = []"
    using signer by (cases "ei_signer input")
      (simp_all add: bundle_signature_check_def b_def no_options_def sound_signer_opt_def signature_scheme.verify_sign)
  have env_ok: "envelope_failures P b = Inr []"
    using eh ek by (cases e) (auto simp: envelope_failures_def b_def partial_def opt_hash_def)
  have "\<exists>v. verifyEvidenceBundle P b no_options = Inr v \<and> ev_ok v"
    using chain(1) select_record_found[OF sel chain(2)] r wh names_field_normalized[OF ward w] env_ok hash sig
      issued_warrant_no_failures[of P b] warrant
    by (intro sound_bundle_verifies) (simp_all add: b_def partial_def)
  then obtain v where v: "verifyEvidenceBundle P b no_options = Inr v" "ev_ok v" by blast
  have "exportEvidenceBundle P wall input = Inr (b, v)"
    unfolding exportEvidenceBundle_def using sel w e wh eh bh v(1) by (simp add: Let_def partial_def b_def)
  with v show ?thesis by (auto simp: b_def partial_def)
qed

text \<open>
  The warrant is needed: a bundle of a record that names one, exported without it, does not verify.
\<close>

lemma exported_without_warrant_fails:
  assumes "exportEvidenceBundle P wall input = Inr (b, v)" "ei_warrant input = None"
    and "select_record (ei_recordId input) (ei_ledger input) = Inr r" "obj_get r ''warrant_id'' = JStr (c # cs)"
  shows "\<not> ev_ok v"
proof
  assume ok: "ev_ok v"
  have b: "verifyEvidenceBundle P b no_options = Inr v" "eb_selected_record b = r" "eb_warrant b = None"
    using assms(1-3) unfolding exportEvidenceBundle_def Let_def by auto
  from verifyEvidenceBundle_ok_parts(5)[OF b(1) ok] show False
    using assms(4) b by (simp add: warrant_failures_def)
qed

text \<open>Nor does a bundle whose warrant has been consumed in the meantime.\<close>

lemma consumed_warrant_fails:
  assumes "verifyEvidenceBundle P b opts = Inr v" "eb_warrant b = Some w" "wr_consumed w"
  shows "\<not> ev_ok v"
proof
  assume "ev_ok v"
  from verifyEvidenceBundle_ok_parts(5)[OF assms(1) this] show False
    using assms(2,3) by (auto simp: warrant_failures_def warrant_check_def Let_def verifyWarrant_ok split: option.splits)
qed

section \<open>Properties\<close>

text \<open>
  C13 What a verified evidence bundle establishes: its ledger chain verifies, the selected record is in it
  with the very canonical text that is bundled, the Ward Manifest is the one whose hash is declared and
  the one the record names, a warrant the record references is bundled, has the recorded id, a valid
  signature and the recorded action hash, and a bundle signature is valid and of a trusted key.
\<close>

theorem verified_bundle_establishes:
  assumes "verifyEvidenceBundle P b opts = Inr v" "ev_ok v"
  shows "bundle_sound P opts b"
  using assms by (rule verified_bundle_sound)


text \<open>A ledger of one record, built for an ALLOW decision and its warrant, and an export of it.\<close>

definition sample_allow_build :: BuildGelRecordInput where
  "sample_allow_build = sample_build \<lparr> bg_warrant := Some sample_warrant \<rparr>"

definition sample_export :: "GelRecord \<Rightarrow> ExportEvidenceBundleInput" where
  "sample_export r = \<lparr> ei_ledger = [r], ei_ward = JObj [(''ward_id'', JStr ''w1'')], ei_authorityEnvelope = None, ei_recordId = None,
     ei_warrant = Some sample_warrant, ei_exportedAt = None, ei_signer = Some sample_signer \<rparr>"

lemma sample_allow_built: "\<exists>r. buildGelRecord sample ''0'' (JStr GENESIS_HASH) sample_allow_build = Inr r"
proof -
  have base: "\<exists>s. stableStringify sample (JObj (gel_base t i (JStr h) sample_allow_build)) = Inr s" for t i h
    by (rule stringify_total)
       (simp add: gel_base_def sample_allow_build_def sample_build_def sample_ward_def sample_action_def sample_decision_def)
  obtain i where "record_id_of sample (JStr GENESIS_HASH) (gel_timestamp ''0'' sample_allow_build)
      (cg_canonical_action_hash (bg_decision sample_allow_build)) = Inr i"
    using stringify_total[of "JObj [(''previous_hash'', JStr GENESIS_HASH), (''timestamp'', JStr (gel_timestamp ''0'' sample_allow_build)),
      (''action'', JStr (cg_canonical_action_hash (bg_decision sample_allow_build)))]" sample]
    unfolding record_id_of_def by auto
  moreover obtain s where "stableStringify sample (JObj (gel_base (gel_timestamp ''0'' sample_allow_build) i (JStr GENESIS_HASH)
      sample_allow_build)) = Inr s"
    using base by blast
  ultimately show ?thesis
    unfolding buildGelRecord_def Let_def by simp
qed

lemma sample_allow_finite: "buildGelRecord sample ''0'' (JStr h) sample_allow_build = Inr r \<Longrightarrow> finite_json (JObj r)"
  by (erule buildGelRecord_Inr)
     (simp add: gel_base_def sample_allow_build_def sample_build_def sample_ward_def sample_action_def sample_decision_def
       sign_fields_def sample_signer_def)

lemma sample_export_fields:
  "ei_ledger (sample_export r) = [r]" "ei_ward (sample_export r) = JObj [(''ward_id'', JStr ''w1'')]"
  "ei_authorityEnvelope (sample_export r) = None" "ei_recordId (sample_export r) = None"
  "ei_warrant (sample_export r) = Some sample_warrant" "ei_signer (sample_export r) = Some sample_signer"
  by (simp_all add: sample_export_def)

lemma sample_export_facts:
  assumes r: "buildGelRecord sample ''0'' (JStr GENESIS_HASH) sample_allow_build = Inr r"
  shows "chain_ok sample [r]" "warrant_of_record sample r (Some sample_warrant)"
    and "names_field (JObj [(''ward_id'', JStr ''w1'')]) ''ward_id'' (obj_get r ''ward_id'')"
    and "select_record None [r] = Inr r" "list_all (\<lambda>r. finite_json (JObj r)) [r]"
    and "sound_signer_opt sample (Some sample_signer)" "distinct (map (\<lambda>r. obj_get r ''record_id'') [r])"
proof -
  show "chain_ok sample [r]"
    using append_chain_ok[of sample "[]" "''0''" sample_allow_build r] r sample_signers_sound
    by (simp add: chain_tip_def sound_signer_opt_def sample_allow_build_def sample_build_def)
  have "wr_issued_at sample_warrant = ''200''" "wr_expires_at sample_warrant = ''300''"
    by (simp_all add: sample_warrant_def Let_def)
  then have "warrant_of_record sample r (bg_warrant sample_allow_build)"
    using sample_issued sample_signers_sound(1) sample_dates
    by (intro built_warrant_of_record[OF r, of sample_envelope "''200''" sample_signer "Some (1 / 10)" "''n1''" 200 300])
       (simp add: sample_allow_build_def sample_build_def)
  then show "warrant_of_record sample r (Some sample_warrant)" by (simp add: sample_allow_build_def)
  show "names_field (JObj [(''ward_id'', JStr ''w1'')]) ''ward_id'' (obj_get r ''ward_id'')"
    using built_field(4)[OF r] by (simp add: names_field_def js_simps sample_allow_build_def sample_build_def sample_ward_def)
  show "list_all (\<lambda>r. finite_json (JObj r)) [r]" using sample_allow_finite[OF r] by (simp del: finite_json.simps)
qed (use sample_signers_sound in \<open>simp_all add: select_record_def sound_signer_opt_def\<close>)


theorem verified_bundle_establishes_witness:
  "\<exists>r b v. buildGelRecord sample ''0'' (JStr GENESIS_HASH) sample_allow_build = Inr r \<and>
     exportEvidenceBundle sample ''0'' (sample_export r) = Inr (b, v) \<and> ev_ok v \<and> bundle_sound sample no_options b"
proof -
  obtain r where r: "buildGelRecord sample ''0'' (JStr GENESIS_HASH) sample_allow_build = Inr r" using sample_allow_built by blast
  have "\<exists>b v. exportEvidenceBundle sample ''0'' (sample_export r) = Inr (b, v) \<and> ev_ok v \<and>
      verifyEvidenceBundle sample b no_options = Inr v \<and> eb_selected_record b = r \<and> eb_ledger_chain b = ei_ledger (sample_export r) \<and>
      eb_warrant b = ei_warrant (sample_export r)"
    by (rule exported_bundle_ok) (simp_all only: sample_export_fields sample_export_facts[OF r] option.case)
  then obtain b v where e: "exportEvidenceBundle sample ''0'' (sample_export r) = Inr (b, v)" "ev_ok v"
      "verifyEvidenceBundle sample b no_options = Inr v" by blast
  from verified_bundle_establishes[OF e(3,2)] r e(1,2) show ?thesis by blast
qed

end
