(* ===== verification/Conflict_Inbox.thy ===== *)
theory Conflict_Inbox
  imports Commit_Gate
begin

text \<open>
  The reconciliation engine \<open>execution-control-runtime/src/reconcile.ts\<close> and the durable inbox
  \<open>conflict-inbox.ts\<close>.  The engine replays edge decisions through the Commit Gate and classifies the
  differences; the inbox keeps the items and their operator resolutions.  The theorems show that a
  report accounts for every record, and that no operation undoes what an operator decided.

  \<open>clock i\<close> is the \<open>i\<close>-th clock reading of a call: each record may read the clock twice, once per
  replay, and the report once more.
\<close>

section \<open>Reconciliation\<close>

record EdgeRecord =
  xr_action :: CanonicalActionInput
  xr_edge_decision :: ExecutionControlDecision
  xr_edge_policy_version :: "string option"
  xr_occurred_at :: "iso_time option"
  xr_runtimeRegister :: "RuntimeRegister option"
  xr_executionTimeWard :: "WardManifest option"
  xr_executionTimeEnvelope :: "AuthorityEnvelope option"
  xr_gel_record_id :: "string option"

datatype ConflictStatus = open_status | accepted_status | rejected_status | escalated_status | reconciled_status
datatype ConflictKind = edge_more_permissive | edge_more_restrictive | reason_divergence
datatype ResolutionAction = accept | reject_conflict | escalate_conflict | reconcile

record ReplayResult =
  rr_decision :: ExecutionControlDecision
  rr_reason_codes :: "ExecutionControlReasonCode list"

record ReconciliationItem =
  ri_action_id :: string
  ri_action_type :: string
  ri_subject :: string
  ri_ward_id :: string
  ri_edge_decision :: ExecutionControlDecision
  ri_current_decision :: ExecutionControlDecision
  ri_current_reason_codes :: "ExecutionControlReasonCode list"
  ri_agrees :: bool
  ri_conflict_kind :: "ConflictKind option"
  ri_status :: ConflictStatus
  ri_edge_policy_version :: "string option"
  ri_occurred_at :: "iso_time option"
  ri_gel_record_id :: "string option"
  ri_against_current :: ReplayResult
  ri_against_execution_time :: "ReplayResult option"

record ReconciliationReport =
  rp_ward_id :: string
  rp_authority_envelope_id :: string
  rp_reconciled_at :: iso_time
  rp_count :: nat
  rp_agreements :: nat
  rp_conflicts :: nat
  rp_by_kind :: "ConflictKind \<Rightarrow> nat"
  rp_by_status :: "ConflictStatus \<Rightarrow> nat"
  rp_items :: "ReconciliationItem list"

record ReconcileInput =
  rc_records :: "EdgeRecord list"
  rc_ward :: WardManifest
  rc_authorityEnvelope :: AuthorityEnvelope
  rc_now :: "iso_time option"

definition classify :: "ExecutionControlDecision \<Rightarrow> ExecutionControlDecision \<Rightarrow> bool \<times> ConflictKind option" where
  "classify edge current =
     (if edge = current then (True, None)
      else if edge = ALLOW \<and> current \<noteq> ALLOW then (False, Some edge_more_permissive)
      else if edge \<noteq> ALLOW \<and> current = ALLOW then (False, Some edge_more_restrictive)
      else (False, Some reason_divergence))"

definition replay_input ::
  "WardManifest \<Rightarrow> AuthorityEnvelope \<Rightarrow> EdgeRecord \<Rightarrow> iso_time option \<Rightarrow> CommitGateInput" where
  "replay_input ward envelope r now =
     \<lparr> ci_ward = Some ward, ci_authorityEnvelope = Some envelope, ci_action = xr_action r,
       ci_runtimeRegister = xr_runtimeRegister r, ci_now = now, ci_degradedConditions = None \<rparr>"

definition replay_of :: "CommitGateDecision \<Rightarrow> ReplayResult" where
  "replay_of d = \<lparr> rr_decision = cg_decision d, rr_reason_codes = cg_reason_codes d \<rparr>"

definition reconcile_record ::
  "platform \<Rightarrow> (nat \<Rightarrow> iso_time) \<Rightarrow> ReconcileInput \<Rightarrow> nat \<times> EdgeRecord \<Rightarrow> ReconciliationItem result" where
  "reconcile_record P clock input = (\<lambda>(i, r).
     bind_result (evaluateCommitGate P (clock (2 * i))
        (replay_input (rc_ward input) (rc_authorityEnvelope input) r (rc_now input))) (\<lambda>current.
     bind_result (case (xr_executionTimeWard r, xr_executionTimeEnvelope r) of
          (Some ward, Some envelope) \<Rightarrow>
            bind_result (evaluateCommitGate P (clock (2 * i + 1)) (replay_input ward envelope r (xr_occurred_at r)))
              (\<lambda>historical. Inr (Some (replay_of historical)))
        | _ \<Rightarrow> Inr None) (\<lambda>historical.
     let (agrees, kind) = classify (xr_edge_decision r) (cg_decision current)
     in Inr \<lparr> ri_action_id = act_action_id (xr_action r), ri_action_type = act_action_type (xr_action r),
              ri_subject = act_subject (xr_action r), ri_ward_id = act_ward_id (xr_action r),
              ri_edge_decision = xr_edge_decision r, ri_current_decision = cg_decision current,
              ri_current_reason_codes = cg_reason_codes current, ri_agrees = agrees, ri_conflict_kind = kind,
              ri_status = (if agrees then reconciled_status else open_status),
              ri_edge_policy_version = xr_edge_policy_version r, ri_occurred_at = xr_occurred_at r,
              ri_gel_record_id = xr_gel_record_id r, ri_against_current = replay_of current,
              ri_against_execution_time = historical \<rparr>)))"

text \<open>The counting loops \<open>m[key] += 1\<close>.\<close>

fun tally :: "'k option list \<Rightarrow> ('k \<Rightarrow> nat) \<Rightarrow> 'k \<Rightarrow> nat" where
  "tally [] m = m"
| "tally (None # ks) m = tally ks m"
| "tally (Some k # ks) m = tally ks (m(k := m k + 1))"

definition reconcileEdgeRecords ::
  "platform \<Rightarrow> (nat \<Rightarrow> iso_time) \<Rightarrow> ReconcileInput \<Rightarrow> ReconciliationReport result" where
  "reconcileEdgeRecords P clock input =
     bind_result (map_result (reconcile_record P clock input) (enumerate 0 (rc_records input))) (\<lambda>items.
       Inr \<lparr> rp_ward_id = wm_ward_id (rc_ward input),
             rp_authority_envelope_id = ae_envelope_id (rc_authorityEnvelope input),
             rp_reconciled_at = (case rc_now input of Some t \<Rightarrow> t | None \<Rightarrow> clock (2 * length (rc_records input))),
             rp_count = length items,
             rp_agreements = length (filter ri_agrees items),
             rp_conflicts = length (filter (\<lambda>i. \<not> ri_agrees i) items),
             rp_by_kind = tally (map ri_conflict_kind items) (\<lambda>_. 0),
             rp_by_status = tally (map (\<lambda>i. Some (ri_status i)) items) (\<lambda>_. 0),
             rp_items = items \<rparr>)"

primrec NEXT_STATUS :: "ResolutionAction \<Rightarrow> ConflictStatus" where
  "NEXT_STATUS accept = accepted_status"
| "NEXT_STATUS reject_conflict = rejected_status"
| "NEXT_STATUS escalate_conflict = escalated_status"
| "NEXT_STATUS reconcile = reconciled_status"

definition applyResolution ::
  "'a ReconciliationItem_scheme \<Rightarrow> ResolutionAction \<Rightarrow> 'a ReconciliationItem_scheme result" where
  "applyResolution item action =
     (if ri_status item \<noteq> open_status \<and> ri_status item \<noteq> escalated_status
      then Inl (ConflictResolved (ri_action_id item))
      else Inr (item \<lparr> ri_status := NEXT_STATUS action \<rparr>))"

section \<open>The inbox\<close>

record ConflictInboxRecord = ReconciliationItem +
  xi_resolved_by :: "string option"
  xi_resolved_at :: "iso_time option"
  xi_resolution_action :: "ResolutionAction option"
  xi_resolution_reason :: "string option"
  xi_first_seen_at :: "iso_time option"

record ConflictInboxSummary =
  xs_total :: nat
  xs_open :: nat
  xs_conflicts :: nat
  xs_by_status :: "ConflictStatus \<Rightarrow> nat"

definition RESOLVED_STATES :: "ConflictStatus list" where
  "RESOLVED_STATES = [accepted_status, rejected_status, escalated_status, reconciled_status]"

type_synonym inbox_map = "(string, ConflictInboxRecord) jsmap"

datatype inbox_file = NoInboxFile | CorruptInboxFile | InboxContents inbox_map
datatype ConflictInboxStore = MemoryInbox inbox_map | FileInbox inbox_file

fun inbox_read :: "ConflictInboxStore \<Rightarrow> inbox_map" where
  "inbox_read (MemoryInbox m) = m"
| "inbox_read (FileInbox (InboxContents m)) = m"
| "inbox_read (FileInbox _) = []"

text \<open>Written as a plain object, whose integer-like keys come first when it is read back.\<close>

fun inbox_persist :: "inbox_map \<Rightarrow> ConflictInboxStore \<Rightarrow> ConflictInboxStore" where
  "inbox_persist m (MemoryInbox _) = MemoryInbox m"
| "inbox_persist m (FileInbox _) = FileInbox (InboxContents (from_entries m))"

definition inbox_record ::
  "ReconciliationItem \<Rightarrow> string option \<Rightarrow> iso_time option \<Rightarrow> ResolutionAction option \<Rightarrow> string option
   \<Rightarrow> iso_time option \<Rightarrow> ConflictInboxRecord" where
  "inbox_record item resolved_by resolved_at action reason first_seen =
     ReconciliationItem.extend item
       (ConflictInboxRecord.fields resolved_by resolved_at action reason first_seen)"

definition upsert_item :: "iso_time \<Rightarrow> ReconciliationItem \<Rightarrow> inbox_map \<Rightarrow> inbox_map" where
  "upsert_item now item m =
     (case map_of m (ri_action_id item) of
        Some ex \<Rightarrow>
          if xi_resolution_action ex \<noteq> None \<and> ri_status ex \<in> set RESOLVED_STATES
          then map_set (ri_action_id item)
                 (inbox_record (item \<lparr> ri_status := ri_status ex \<rparr>) (xi_resolved_by ex) (xi_resolved_at ex)
                    (xi_resolution_action ex) (xi_resolution_reason ex) (coalesce (xi_first_seen_at ex) (Some now))) m
          else map_set (ri_action_id item)
                 (inbox_record item None None None None (coalesce (xi_first_seen_at ex) (Some now))) m
      | None \<Rightarrow> map_set (ri_action_id item) (inbox_record item None None None None (Some now)) m)"

definition inbox_ingest ::
  "platform \<Rightarrow> (nat \<Rightarrow> iso_time) \<Rightarrow> ReconcileInput \<Rightarrow> ConflictInboxStore
   \<Rightarrow> (ReconciliationReport \<times> ConflictInboxStore) result" where
  "inbox_ingest P clock input store =
     bind_result (reconcileEdgeRecords P clock input) (\<lambda>report.
       let now = (case rc_now input of Some t \<Rightarrow> t | None \<Rightarrow> clock (2 * length (rc_records input) + 1))
       in Inr (report, inbox_persist (fold (upsert_item now) (rp_items report) (inbox_read store)) store))"

definition item_le :: "platform \<Rightarrow> ConflictInboxRecord \<Rightarrow> ConflictInboxRecord \<Rightarrow> bool" where
  "item_le P a b =
     (if ri_agrees a \<noteq> ri_agrees b then \<not> ri_agrees a
      else locale_le P (case ri_occurred_at b of Some t \<Rightarrow> t | None \<Rightarrow> [])
                       (case ri_occurred_at a of Some t \<Rightarrow> t | None \<Rightarrow> []))"

definition inbox_list :: "platform \<Rightarrow> ConflictInboxStore \<Rightarrow> ConflictInboxRecord list" where
  "inbox_list P store = sort_by (item_le P) (map snd (inbox_read store))"

definition inbox_get :: "ConflictInboxStore \<Rightarrow> string \<Rightarrow> ConflictInboxRecord option" where
  "inbox_get store actionId = map_of (inbox_read store) actionId"

definition inbox_resolve ::
  "string \<Rightarrow> ResolutionAction \<Rightarrow> string \<Rightarrow> string option \<Rightarrow> iso_time \<Rightarrow> ConflictInboxStore
   \<Rightarrow> (ConflictInboxRecord \<times> ConflictInboxStore) result" where
  "inbox_resolve actionId action by_whom reason now store =
     (let m = inbox_read store
      in case map_of m actionId of
           None \<Rightarrow> Inl (UnknownConflict actionId)
         | Some ex \<Rightarrow>
             bind_result (applyResolution ex action) (\<lambda>resolved.
               let r = resolved \<lparr> xi_resolved_by := Some by_whom, xi_resolved_at := Some now,
                     xi_resolution_action := Some action, xi_resolution_reason := reason,
                     xi_first_seen_at := xi_first_seen_at ex \<rparr>
               in Inr (r, inbox_persist (map_set actionId r m) store)))"

definition inbox_summary :: "platform \<Rightarrow> ConflictInboxStore \<Rightarrow> ConflictInboxSummary" where
  "inbox_summary P store =
     (let items = inbox_list P store;
          by_status = tally (map (\<lambda>i. Some (ri_status i)) items) (\<lambda>_. 0)
      in \<lparr> xs_total = length items, xs_open = by_status open_status + by_status escalated_status,
           xs_conflicts = length (filter (\<lambda>i. \<not> ri_agrees i) items), xs_by_status = by_status \<rparr>)"

section \<open>What a report accounts for\<close>

lemma tally_eq: "tally ks m k = m k + count_list ks (Some k)"
proof (induction ks arbitrary: m)
  case (Cons a ks)
  then show ?case by (cases a) auto
qed simp

lemma count_list_filter: "count_list (map f xs) y = length (filter (\<lambda>x. f x = y) xs)"
  by (induction xs) auto

text \<open>An item as the engine makes it from a record.\<close>

definition fresh_item :: "ReconciliationItem \<Rightarrow> bool" where
  "fresh_item i \<longleftrightarrow> (ri_agrees i \<longleftrightarrow> ri_edge_decision i = ri_current_decision i) \<and>
     (ri_agrees i \<longleftrightarrow> ri_conflict_kind i = None) \<and>
     ri_status i = (if ri_agrees i then reconciled_status else open_status)"

definition replayed ::
  "platform \<Rightarrow> iso_time \<Rightarrow> ReconcileInput \<Rightarrow> EdgeRecord \<Rightarrow> ReconciliationItem \<Rightarrow> bool" where
  "replayed P wall input r i \<longleftrightarrow>
     ri_action_id i = act_action_id (xr_action r) \<and> ri_edge_decision i = xr_edge_decision r \<and>
     (\<exists>current. evaluateCommitGate P wall (replay_input (rc_ward input) (rc_authorityEnvelope input) r (rc_now input)) = Inr current \<and>
        ri_current_decision i = cg_decision current \<and> ri_current_reason_codes i = cg_reason_codes current) \<and>
     (ri_conflict_kind i = Some edge_more_permissive \<longleftrightarrow> xr_edge_decision r = ALLOW \<and> ri_current_decision i \<noteq> ALLOW) \<and>
     (ri_conflict_kind i = Some edge_more_restrictive \<longleftrightarrow> xr_edge_decision r \<noteq> ALLOW \<and> ri_current_decision i = ALLOW)"

lemma reconcile_record_Inr:
  "reconcile_record P clock input (k, r) = Inr i \<Longrightarrow> fresh_item i \<and> replayed P (clock (2 * k)) input r i"
  by (auto simp: reconcile_record_def fresh_item_def replayed_def classify_def replay_of_def Let_def split: prod.splits if_splits)

lemma reconcile_items:
  assumes "reconcileEdgeRecords P clock input = Inr report"
  shows "length (rp_items report) = length (rc_records input)"
    and "k < length (rc_records input) \<Longrightarrow>
      fresh_item (rp_items report ! k) \<and> replayed P (clock (2 * k)) input (rc_records input ! k) (rp_items report ! k)"
    and "report = \<lparr> rp_ward_id = rp_ward_id report, rp_authority_envelope_id = rp_authority_envelope_id report,
       rp_reconciled_at = rp_reconciled_at report, rp_count = length (rp_items report),
       rp_agreements = length (filter ri_agrees (rp_items report)),
       rp_conflicts = length (filter (\<lambda>i. \<not> ri_agrees i) (rp_items report)),
       rp_by_kind = tally (map ri_conflict_kind (rp_items report)) (\<lambda>_. 0),
       rp_by_status = tally (map (\<lambda>i. Some (ri_status i)) (rp_items report)) (\<lambda>_. 0),
       rp_items = rp_items report \<rparr>"
proof -
  have all: "list_all2 (\<lambda>x y. reconcile_record P clock input x = Inr y) (enumerate 0 (rc_records input)) (rp_items report)"
    using assms by (auto simp: reconcileEdgeRecords_def map_result_Inr)
  then show "length (rp_items report) = length (rc_records input)"
    by (auto dest: list_all2_lengthD)
  show "fresh_item (rp_items report ! k) \<and> replayed P (clock (2 * k)) input (rc_records input ! k) (rp_items report ! k)"
    if "k < length (rc_records input)"
    using list_all2_nthD[OF all, of k] that reconcile_record_Inr by (simp add: nth_enumerate_eq)
  show "report = \<lparr> rp_ward_id = rp_ward_id report, rp_authority_envelope_id = rp_authority_envelope_id report,
       rp_reconciled_at = rp_reconciled_at report, rp_count = length (rp_items report),
       rp_agreements = length (filter ri_agrees (rp_items report)),
       rp_conflicts = length (filter (\<lambda>i. \<not> ri_agrees i) (rp_items report)),
       rp_by_kind = tally (map ri_conflict_kind (rp_items report)) (\<lambda>_. 0),
       rp_by_status = tally (map (\<lambda>i. Some (ri_status i)) (rp_items report)) (\<lambda>_. 0),
       rp_items = rp_items report \<rparr>"
    using assms by (auto simp: reconcileEdgeRecords_def)
qed

lemma fresh_items:
  assumes "reconcileEdgeRecords P clock input = Inr report"
  shows "list_all fresh_item (rp_items report)"
  using reconcile_items(1,2)[OF assms] by (auto simp: list_all_length)

lemma fresh_counts:
  assumes "list_all fresh_item items"
  shows "tally (map (\<lambda>i. Some (ri_status i)) items) (\<lambda>_. 0) reconciled_status = length (filter ri_agrees items)"
    and "tally (map (\<lambda>i. Some (ri_status i)) items) (\<lambda>_. 0) open_status = length (filter (\<lambda>i. \<not> ri_agrees i) items)"
    and "(\<Sum>k \<in> {edge_more_permissive, edge_more_restrictive, reason_divergence}.
       tally (map ri_conflict_kind items) (\<lambda>_. 0) k) = length (filter (\<lambda>i. \<not> ri_agrees i) items)"
proof -
  show "tally (map (\<lambda>i. Some (ri_status i)) items) (\<lambda>_. 0) reconciled_status = length (filter ri_agrees items)"
    "tally (map (\<lambda>i. Some (ri_status i)) items) (\<lambda>_. 0) open_status = length (filter (\<lambda>i. \<not> ri_agrees i) items)"
    using assms by (induction items) (auto simp: tally_eq fresh_item_def)
  show "(\<Sum>k \<in> {edge_more_permissive, edge_more_restrictive, reason_divergence}.
       tally (map ri_conflict_kind items) (\<lambda>_. 0) k) = length (filter (\<lambda>i. \<not> ri_agrees i) items)"
    using assms
  proof (induction items)
    case (Cons i items)
    then show ?case
      by (cases "ri_conflict_kind i"; cases "the (ri_conflict_kind i)") (auto simp: tally_eq fresh_item_def)
  qed (simp add: tally_eq)
qed

section \<open>The life of the inbox\<close>

text \<open>A step is a successful ingest or a successful resolution; a failed one leaves the store as it is.\<close>

inductive inbox_step :: "platform \<Rightarrow> ConflictInboxStore \<Rightarrow> ConflictInboxStore \<Rightarrow> bool" for P where
  ingest: "inbox_ingest P clock input store = Inr (report, store') \<Longrightarrow> inbox_step P store store'"
| resolve: "inbox_resolve i action by_whom reason now store = Inr (r, store') \<Longrightarrow> inbox_step P store store'"

inductive_cases inbox_stepE: "inbox_step P store store'"

text \<open>
  Every record is stored under its action id; a resolved record has the status of its resolution and
  names who resolved it; an unresolved one is open or an agreement.
\<close>

definition record_inv :: "ConflictInboxRecord \<Rightarrow> bool" where
  "record_inv r \<longleftrightarrow>
     (case xi_resolution_action r of
        Some a \<Rightarrow> ri_status r = NEXT_STATUS a \<and> xi_resolved_by r \<noteq> None \<and> xi_resolved_at r \<noteq> None
      | None \<Rightarrow> ri_status r = (if ri_agrees r then reconciled_status else open_status) \<and> xi_resolved_by r = None)"

definition inbox_inv :: "inbox_map \<Rightarrow> bool" where
  "inbox_inv m \<longleftrightarrow> map_ok m \<and> (\<forall>k r. map_of m k = Some r \<longrightarrow> ri_action_id r = k \<and> record_inv r)"

lemma inbox_record_sel [simp]:
  "ri_action_id (inbox_record i a b c d e) = ri_action_id i" "ri_status (inbox_record i a b c d e) = ri_status i"
  "ri_agrees (inbox_record i a b c d e) = ri_agrees i" "xi_resolved_by (inbox_record i a b c d e) = a"
  "xi_resolved_at (inbox_record i a b c d e) = b" "xi_resolution_action (inbox_record i a b c d e) = c"
  "xi_resolution_reason (inbox_record i a b c d e) = d" "xi_first_seen_at (inbox_record i a b c d e) = e"
  by (simp_all add: inbox_record_def ReconciliationItem.defs ConflictInboxRecord.defs)

lemma NEXT_STATUS_resolved [simp]: "NEXT_STATUS a \<in> set RESOLVED_STATES"
  by (cases a) (simp_all add: RESOLVED_STATES_def)

lemma inbox_read_persist:
  "map_ok m \<Longrightarrow> map_of (inbox_read (inbox_persist m store)) = map_of m \<and> map_ok (inbox_read (inbox_persist m store))"
  by (cases store) (auto simp: map_ok_def map_of_from_entries distinct_from_entries)

lemma inbox_inv_cong: "map_ok m' \<Longrightarrow> map_of m' = map_of m \<Longrightarrow> inbox_inv m \<Longrightarrow> inbox_inv m'"
  by (simp add: inbox_inv_def)

lemma inbox_inv_set: "inbox_inv m \<Longrightarrow> record_inv r \<Longrightarrow> inbox_inv (map_set (ri_action_id r) r m)"
  by (auto simp: inbox_inv_def js_simps split: if_splits)

lemma upsert_inv:
  assumes "inbox_inv m" "fresh_item item"
  shows "inbox_inv (upsert_item now item m)"
proof (cases "map_of m (ri_action_id item)")
  case None
  then show ?thesis using assms inbox_inv_set[OF assms(1), of "inbox_record item None None None None (Some now)"]
    by (auto simp: upsert_item_def record_inv_def fresh_item_def)
next
  case (Some ex)
  with assms(1) have "record_inv ex" by (simp add: inbox_inv_def)
  then show ?thesis using assms Some
    inbox_inv_set[OF assms(1), of "inbox_record (item \<lparr> ri_status := ri_status ex \<rparr>) (xi_resolved_by ex) (xi_resolved_at ex)
      (xi_resolution_action ex) (xi_resolution_reason ex) (coalesce (xi_first_seen_at ex) (Some now))"]
    inbox_inv_set[OF assms(1), of "inbox_record item None None None None (coalesce (xi_first_seen_at ex) (Some now))"]
    by (auto simp: upsert_item_def record_inv_def fresh_item_def)
qed

text \<open>What an operator decided about an item.\<close>

definition resolution_of :: "ConflictInboxRecord \<Rightarrow> ConflictStatus \<times> string option \<times> iso_time option \<times> ResolutionAction option \<times> string option" where
  "resolution_of r = (ri_status r, xi_resolved_by r, xi_resolved_at r, xi_resolution_action r, xi_resolution_reason r)"

definition keeps_resolution :: "inbox_map \<Rightarrow> inbox_map \<Rightarrow> bool" where
  "keeps_resolution m m' \<longleftrightarrow> (\<forall>k r. map_of m k = Some r \<and> xi_resolution_action r \<noteq> None \<longrightarrow>
     (\<exists>r'. map_of m' k = Some r' \<and> resolution_of r' = resolution_of r))"

lemma keeps_resolution_trans: "keeps_resolution m m' \<Longrightarrow> keeps_resolution m' m'' \<Longrightarrow> keeps_resolution m m''"
  by (fastforce simp: keeps_resolution_def resolution_of_def)

lemma upsert_keeps: "inbox_inv m \<Longrightarrow> keeps_resolution m (upsert_item now item m)"
  by (fastforce simp: keeps_resolution_def upsert_item_def resolution_of_def inbox_inv_def record_inv_def js_simps
      split: option.splits)

lemma fold_upsert:
  "inbox_inv m \<Longrightarrow> list_all fresh_item items \<Longrightarrow>
     inbox_inv (fold (upsert_item now) items m) \<and> keeps_resolution m (fold (upsert_item now) items m)"
proof (induction items arbitrary: m)
  case (Cons i items)
  then have "inbox_inv (upsert_item now i m)" "keeps_resolution m (upsert_item now i m)"
    by (simp_all add: upsert_inv upsert_keeps)
  with Cons show ?case using keeps_resolution_trans by fastforce
qed (simp add: keeps_resolution_def)

lemma ingest_inv:
  assumes "inbox_inv (inbox_read store)" "inbox_ingest P clock input store = Inr (report, store')"
  shows "inbox_inv (inbox_read store') \<and> keeps_resolution (inbox_read store) (inbox_read store')"
proof -
  obtain now where r: "reconcileEdgeRecords P clock input = Inr report"
    and s: "store' = inbox_persist (fold (upsert_item now) (rp_items report) (inbox_read store)) store"
    using assms(2) by (auto simp: inbox_ingest_def Let_def)
  note f = fold_upsert[OF assms(1) fresh_items[OF r], of now]
  then have "map_of (inbox_read store') = map_of (fold (upsert_item now) (rp_items report) (inbox_read store))"
    "map_ok (inbox_read store')"
    unfolding s using inbox_read_persist by (auto simp: inbox_inv_def)
  with f show ?thesis by (auto simp: inbox_inv_def keeps_resolution_def)
qed

lemma resolve_spec:
  assumes "inbox_inv (inbox_read store)" "inbox_resolve i action by_whom reason now store = Inr (r, store')"
  shows "\<exists>ex. map_of (inbox_read store) i = Some ex \<and> ri_status ex \<in> {open_status, escalated_status} \<and>
      resolution_of r = (NEXT_STATUS action, Some by_whom, Some now, Some action, reason) \<and>
      map_ok (inbox_read store') \<and> map_of (inbox_read store') = (map_of (inbox_read store))(i \<mapsto> r) \<and>
      ri_action_id r = i"
proof -
  obtain ex where ex: "map_of (inbox_read store) i = Some ex" "ri_status ex \<in> {open_status, escalated_status}"
    and r: "r = ex \<lparr> ri_status := NEXT_STATUS action, xi_resolved_by := Some by_whom, xi_resolved_at := Some now,
                     xi_resolution_action := Some action, xi_resolution_reason := reason,
                     xi_first_seen_at := xi_first_seen_at ex \<rparr>"
    and s: "store' = inbox_persist (map_set i r (inbox_read store)) store"
    using assms(2) by (auto simp: inbox_resolve_def applyResolution_def Let_def split: option.splits if_splits)
  have "map_of (inbox_read store') = map_of (map_set i r (inbox_read store))" "map_ok (inbox_read store')"
    unfolding s using inbox_read_persist[of "map_set i r (inbox_read store)"] assms(1) by (auto simp: inbox_inv_def)
  with ex r assms(1) show ?thesis by (auto simp: inbox_inv_def js_simps resolution_of_def fun_eq_iff)
qed

lemma resolve_inv:
  assumes "inbox_inv (inbox_read store)" "inbox_resolve i action by_whom reason now store = Inr (r, store')"
  shows "inbox_inv (inbox_read store')"
proof -
  have "record_inv r"
    using resolve_spec[OF assms] by (auto simp: record_inv_def resolution_of_def)
  then show ?thesis
    using resolve_spec[OF assms] assms(1) by (auto simp: inbox_inv_def split: if_splits)
qed

lemma inbox_step_inv: "inbox_step P store store' \<Longrightarrow> inbox_inv (inbox_read store) \<Longrightarrow> inbox_inv (inbox_read store')"
  by (auto elim!: inbox_stepE dest: ingest_inv resolve_inv)

text \<open>A resolution other than an escalation is settled.\<close>

definition settled :: "ConflictInboxStore \<Rightarrow> string \<Rightarrow> ConflictInboxRecord \<Rightarrow> bool" where
  "settled store k r \<longleftrightarrow> inbox_get store k = Some r \<and>
     xi_resolution_action r \<in> {Some accept, Some reject_conflict, Some reconcile}"

lemma settled_status:
  assumes "inbox_inv (inbox_read store)" "settled store k r"
  shows "ri_status r \<notin> {open_status, escalated_status}" "ri_action_id r = k"
proof -
  have "record_inv r" "ri_action_id r = k"
    using assms by (auto simp: settled_def inbox_get_def inbox_inv_def)
  then show "ri_status r \<notin> {open_status, escalated_status}" "ri_action_id r = k"
    using assms(2) by (auto simp: settled_def record_inv_def)
qed

lemma inbox_step_settled:
  assumes "inbox_step P store store'" "inbox_inv (inbox_read store)" "settled store k r"
  shows "\<exists>r'. settled store' k r' \<and> resolution_of r' = resolution_of r"
  using assms(1)
proof (cases rule: inbox_step.cases)
  case (ingest clock input report)
  with ingest_inv[OF assms(2) ingest] assms(3) show ?thesis
    by (fastforce simp: keeps_resolution_def settled_def inbox_get_def resolution_of_def)
next
  case (resolve i action by_whom reason now r1)
  have "i \<noteq> k"
    using resolve_spec[OF assms(2) resolve] settled_status(1)[OF assms(2,3)] assms(3)
    by (auto simp: settled_def inbox_get_def)
  with resolve_spec[OF assms(2) resolve] assms(3) show ?thesis
    by (auto simp: settled_def inbox_get_def)
qed

section \<open>Properties\<close>

text \<open>
  Reconciliation accounts for every edge record: the report has one item per record, in order, which
  carries the Commit Gate's decision under the current policy; an item agrees exactly when the edge
  decided the same, and a conflict is called permissive or restrictive exactly when only the edge, or
  only the gate, allows.  The totals add up: agreements and conflicts to the count, the kinds to the
  conflicts, and the initial statuses are reconciled for agreements and open for conflicts.
\<close>

theorem reconcile_report_exact:
  assumes "reconcileEdgeRecords P clock input = Inr report"
  shows "length (rp_items report) = length (rc_records input) \<and>
     (\<forall>k < length (rc_records input). let i = rp_items report ! k in
        replayed P (clock (2 * k)) input (rc_records input ! k) i \<and>
        (ri_agrees i \<longleftrightarrow> ri_edge_decision i = ri_current_decision i)) \<and>
     rp_count report = length (rc_records input) \<and> rp_agreements report + rp_conflicts report = rp_count report \<and>
     (\<Sum>k \<in> {edge_more_permissive, edge_more_restrictive, reason_divergence}. rp_by_kind report k) = rp_conflicts report \<and>
     rp_by_status report reconciled_status = rp_agreements report \<and> rp_by_status report open_status = rp_conflicts report"
proof -
  note r = reconcile_items[OF assms]
  have sel: "rp_count report = length (rp_items report)" "rp_agreements report = length (filter ri_agrees (rp_items report))"
    "rp_conflicts report = length (filter (\<lambda>i. \<not> ri_agrees i) (rp_items report))"
    "rp_by_kind report = tally (map ri_conflict_kind (rp_items report)) (\<lambda>_. 0)"
    "rp_by_status report = tally (map (\<lambda>i. Some (ri_status i)) (rp_items report)) (\<lambda>_. 0)"
    by (subst r(3), simp)+
  have "\<forall>k < length (rc_records input). let i = rp_items report ! k in
        replayed P (clock (2 * k)) input (rc_records input ! k) i \<and>
        (ri_agrees i \<longleftrightarrow> ri_edge_decision i = ri_current_decision i)"
    using r(2) by (auto simp: Let_def fresh_item_def)
  then show ?thesis
    using r(1) fresh_counts[OF fresh_items[OF assms]] sum_length_filter_compl[of ri_agrees "rp_items report"] by (simp only: sel)
qed

text \<open>
  Operator resolutions are final: whatever batches are ingested and whatever other items are resolved
  afterwards, an item an operator accepted, rejected or reconciled keeps its status, who resolved it,
  when, how and why; resolving it again fails.
\<close>

theorem inbox_resolution_final:
  assumes "(inbox_step P)\<^sup>*\<^sup>* store store'" "inbox_inv (inbox_read store)" "settled store k r"
  shows "\<exists>r'. settled store' k r' \<and> resolution_of r' = resolution_of r \<and>
     (\<forall>action by_whom reason now. inbox_resolve k action by_whom reason now store' = Inl (ConflictResolved k))"
proof -
  have "inbox_inv (inbox_read store') \<and> (\<exists>r'. settled store' k r' \<and> resolution_of r' = resolution_of r)"
    using assms(1)
  proof (induction rule: rtranclp_induct)
    case base
    then show ?case using assms(2,3) by auto
  next
    case (step s s')
    then show ?case using inbox_step_inv inbox_step_settled by metis
  qed
  then obtain r' where r': "inbox_inv (inbox_read store')" "settled store' k r'" "resolution_of r' = resolution_of r" by blast
  then have "inbox_resolve k action by_whom reason now store' = Inl (ConflictResolved k)" for action by_whom reason now
    using settled_status[OF r'(1,2)] by (auto simp: inbox_resolve_def applyResolution_def settled_def inbox_get_def Let_def)
  with r' show ?thesis by blast
qed

text \<open>An edge node refused an action the current policy admits.\<close>

definition sample_batch :: ReconcileInput where
  "sample_batch = \<lparr> rc_records = [\<lparr> xr_action = sample_action, xr_edge_decision = REFUSE, xr_edge_policy_version = None,
       xr_occurred_at = None, xr_runtimeRegister = None, xr_executionTimeWard = None, xr_executionTimeEnvelope = None,
       xr_gel_record_id = None \<rparr>],
     rc_ward = sample_ward, rc_authorityEnvelope = sample_envelope, rc_now = Some ''200'' \<rparr>"

lemma sample_reconciled: "\<exists>report. reconcileEdgeRecords sample clock sample_batch = Inr report"
proof -
  obtain r where in_batch: "rc_records sample_batch = [r]" "xr_executionTimeWard r = None" "xr_action r = sample_action"
      "xr_runtimeRegister r = None"
    by (simp add: sample_batch_def)
  obtain c where "canonicalizeAction sample sample_action = Inr c" using sample_canonical by blast
  then obtain d where d: "evaluateCommitGate sample (clock 0)
      (replay_input (rc_ward sample_batch) (rc_authorityEnvelope sample_batch) r (rc_now sample_batch)) = Inr d"
    using sample_snapshot by (auto simp: evaluateCommitGate_def replay_input_def in_batch)
  then have "\<exists>i. reconcile_record sample clock sample_batch (0, r) = Inr i"
    using in_batch(2) by (cases "classify (xr_edge_decision r) (cg_decision d)") (simp add: reconcile_record_def)
  then show ?thesis
    unfolding reconcileEdgeRecords_def in_batch(1) by auto
qed

theorem reconcile_report_exact_witness:
  "\<exists>report. reconcileEdgeRecords sample (\<lambda>_. ''200'') sample_batch = Inr report \<and>
     rp_agreements report + rp_conflicts report = 1 \<and> ri_action_id (rp_items report ! 0) = ''a1''"
proof -
  obtain report where r: "reconcileEdgeRecords sample (\<lambda>_. ''200'') sample_batch = Inr report"
    using sample_reconciled by blast
  from reconcile_report_exact[OF r] r show ?thesis
    by (simp add: sample_batch_def replayed_def Let_def sample_action_def)
qed

text \<open>The same action, resolved by an operator before the batch comes in again.\<close>

definition sample_resolved :: ConflictInboxRecord where
  "sample_resolved = inbox_record
     \<lparr> ri_action_id = ''a1'', ri_action_type = ''pay'', ri_subject = ''agent'', ri_ward_id = ''w1'', ri_edge_decision = REFUSE,
       ri_current_decision = ALLOW, ri_current_reason_codes = [ALLOWED], ri_agrees = False,
       ri_conflict_kind = Some edge_more_restrictive, ri_status = rejected_status, ri_edge_policy_version = None,
       ri_occurred_at = None, ri_gel_record_id = None,
       ri_against_current = \<lparr> rr_decision = ALLOW, rr_reason_codes = [ALLOWED] \<rparr>, ri_against_execution_time = None \<rparr>
     (Some ''op'') (Some ''150'') (Some reject_conflict) None (Some ''140'')"

theorem inbox_resolution_final_witness:
  "\<exists>report store' r'. inbox_ingest sample (\<lambda>_. ''200'') sample_batch (MemoryInbox [(''a1'', sample_resolved)]) = Inr (report, store') \<and>
     inbox_get store' ''a1'' = Some r' \<and> ri_status r' = rejected_status"
proof -
  let ?s = "MemoryInbox [(''a1'', sample_resolved)]"
  obtain report store' where i: "inbox_ingest sample (\<lambda>_. ''200'') sample_batch ?s = Inr (report, store')"
    using sample_reconciled by (auto simp: inbox_ingest_def Let_def)
  have "inbox_inv (inbox_read ?s)" "settled ?s ''a1'' sample_resolved"
    by (simp_all add: inbox_inv_def record_inv_def settled_def inbox_get_def sample_resolved_def map_ok_def)
  from inbox_resolution_final[OF r_into_rtranclp[of "inbox_step sample", OF inbox_step.ingest[OF i]] this]
  obtain r' where "settled store' ''a1'' r'" "resolution_of r' = resolution_of sample_resolved" by blast
  with i show ?thesis by (auto simp: settled_def resolution_of_def sample_resolved_def)
qed

end
