(* ===== verification/Nonce_Store.thy ===== *)
theory Nonce_Store
  imports Prelude
begin

text \<open>
  \<open>shared/nonce-store/src/index.ts\<close>: the seen-nonce stores behind the artifact replay check of
  \<open>verifyWarrant\<close>.  Both backends keep the contract \<open>nonce_backend\<close>, from which replay detection within
  the retention window follows once, for the in-memory store and, across restarts and crashes in the
  middle of an append, for the file store.

  The clock reading of an operation is an argument; the two readings inside \<open>addAndCheck\<close> are one.  The
  file is its lines that end in a newline, each a record \<open>{nonce, ts}\<close> or text \<open>hydrate\<close> skips, and the
  text after the last newline, if there is any.  Writes that return succeed, and the swap of the
  compacted file takes effect as a whole.
\<close>

section \<open>The in-memory store\<close>

record InMemoryNonceStore =
  ns_seen :: "(string, rat) jsmap"
  ns_maxAgeMs :: "rat option"

definition memory_nonces :: "rat option \<Rightarrow> InMemoryNonceStore" where
  "memory_nonces maxAgeMs = \<lparr> ns_seen = [], ns_maxAgeMs = maxAgeMs \<rparr>"

definition too_old :: "rat option \<Rightarrow> rat \<Rightarrow> rat \<Rightarrow> bool" where
  "too_old maxAgeMs now ts = (case maxAgeMs of Some m \<Rightarrow> now - ts > m | None \<Rightarrow> False)"

definition nonce_has :: "string \<Rightarrow> rat \<Rightarrow> 'a InMemoryNonceStore_scheme \<Rightarrow> bool \<times> 'a InMemoryNonceStore_scheme" where
  "nonce_has nonce now s =
     (case map_of (ns_seen s) nonce of
        None \<Rightarrow> (False, s)
      | Some ts \<Rightarrow>
          if too_old (ns_maxAgeMs s) now ts then (False, s \<lparr> ns_seen := map_delete nonce (ns_seen s) \<rparr>)
          else (True, s))"

definition nonce_add :: "string \<Rightarrow> rat \<Rightarrow> InMemoryNonceStore \<Rightarrow> InMemoryNonceStore" where
  "nonce_add nonce now s =
     (if map_of (ns_seen s) nonce \<noteq> None then s else s \<lparr> ns_seen := map_set nonce now (ns_seen s) \<rparr>)"

definition nonce_addAndCheck :: "string \<Rightarrow> rat \<Rightarrow> InMemoryNonceStore \<Rightarrow> bool \<times> InMemoryNonceStore" where
  "nonce_addAndCheck nonce now s =
     (let (wasSeen, s') = nonce_has nonce now s
      in (wasSeen, if wasSeen then s' else s' \<lparr> ns_seen := map_set nonce now (ns_seen s') \<rparr>))"

definition compactInternal :: "rat \<Rightarrow> 'a InMemoryNonceStore_scheme \<Rightarrow> nat \<times> 'a InMemoryNonceStore_scheme" where
  "compactInternal now s =
     (case ns_maxAgeMs s of
        None \<Rightarrow> (0, s)
      | Some m \<Rightarrow>
          let kept = filter (\<lambda>(_, ts). \<not> ts \<le> now - m) (ns_seen s)
          in (length (ns_seen s) - length kept, s \<lparr> ns_seen := kept \<rparr>))"

definition nonce_size :: "rat \<Rightarrow> 'a InMemoryNonceStore_scheme \<Rightarrow> nat \<times> 'a InMemoryNonceStore_scheme" where
  "nonce_size now s =
     (let s' = (if ns_maxAgeMs s \<noteq> None then snd (compactInternal now s) else s) in (length (ns_seen s'), s'))"

section \<open>The file store\<close>

datatype nonce_line = NonceLine string rat | SkippedLine

text \<open>\<open>ns_tail\<close> is what \<open>hydrate\<close> reads in the text after the last newline, \<open>None\<close> where there is none.\<close>

record FilesystemNonceStore = InMemoryNonceStore +
  ns_file :: "nonce_line list"
  ns_tail :: "nonce_line option"
  ns_closed :: bool

fun hydrate_line :: "rat option \<Rightarrow> rat \<Rightarrow> nonce_line \<Rightarrow> (string, rat) jsmap \<Rightarrow> (string, rat) jsmap" where
  "hydrate_line maxAgeMs now SkippedLine m = m"
| "hydrate_line maxAgeMs now (NonceLine nonce ts) m =
     (if (case maxAgeMs of Some a \<Rightarrow> ts \<le> now - a | None \<Rightarrow> False) then m else map_set nonce ts m)"

text \<open>\<open>data.split("\n")\<close>: the text after the last newline is a line as well.\<close>

definition file_lines :: "nonce_line list \<Rightarrow> nonce_line option \<Rightarrow> nonce_line list" where
  "file_lines lines tail = lines @ (case tail of Some l \<Rightarrow> [l] | None \<Rightarrow> [])"

text \<open>The constructor: an absent file is an empty one.\<close>

definition hydrate :: "rat option \<Rightarrow> rat \<Rightarrow> nonce_line list \<Rightarrow> nonce_line option \<Rightarrow> FilesystemNonceStore" where
  "hydrate maxAgeMs now lines tail =
     \<lparr> ns_seen = fold (hydrate_line maxAgeMs now) (file_lines lines tail) [], ns_maxAgeMs = maxAgeMs,
       ns_file = lines, ns_tail = tail, ns_closed = False \<rparr>"

text \<open>
  \<open>appendFileSync\<close> writes at the end of the file: a record after text without a newline continues that
  text, and the joined line is no JSON, since the text is a proper or full piece of a printed record
  and the record starts with a brace.
\<close>

definition file_persist_nonce :: "string \<Rightarrow> rat \<Rightarrow> FilesystemNonceStore \<Rightarrow> FilesystemNonceStore" where
  "file_persist_nonce nonce ts s =
     s \<lparr> ns_file := ns_file s @ [case ns_tail s of None \<Rightarrow> NonceLine nonce ts | Some _ \<Rightarrow> SkippedLine],
         ns_tail := None, ns_seen := map_set nonce ts (ns_seen s) \<rparr>"

definition file_nonce_add :: "string \<Rightarrow> rat \<Rightarrow> FilesystemNonceStore \<Rightarrow> FilesystemNonceStore result" where
  "file_nonce_add nonce now s =
     (if ns_closed s then Inl StoreClosed
      else if map_of (ns_seen s) nonce \<noteq> None then Inr s
      else Inr (file_persist_nonce nonce now s))"

definition file_nonce_addAndCheck :: "string \<Rightarrow> rat \<Rightarrow> FilesystemNonceStore \<Rightarrow> bool \<times> FilesystemNonceStore" where
  "file_nonce_addAndCheck nonce now s =
     (let (wasSeen, s') = nonce_has nonce now s
      in (wasSeen, if wasSeen then s' else file_persist_nonce nonce now s'))"

definition file_nonce_compact :: "rat \<Rightarrow> FilesystemNonceStore \<Rightarrow> nat \<times> FilesystemNonceStore" where
  "file_nonce_compact now s =
     (let (evicted, s') = compactInternal now s
      in (evicted, s' \<lparr> ns_file := map (\<lambda>(nonce, ts). NonceLine nonce ts) (ns_seen s'), ns_tail := None \<rparr>))"

definition file_nonce_close :: "FilesystemNonceStore \<Rightarrow> FilesystemNonceStore" where
  "file_nonce_close s = s \<lparr> ns_closed := True \<rparr>"

section \<open>The contract\<close>

text \<open>A nonce stamped \<open>ts\<close> is inside the retention window at time \<open>now\<close>.\<close>

definition retained :: "rat option \<Rightarrow> rat \<Rightarrow> rat \<Rightarrow> bool" where
  "retained maxAgeMs ts now \<longleftrightarrow> (case maxAgeMs of Some m \<Rightarrow> now - ts < m | None \<Rightarrow> True)"

lemma retained_earlier: "retained m ts now \<Longrightarrow> t \<le> now \<Longrightarrow> retained m ts t"
  by (auto simp: retained_def split: option.splits)

lemma retained_not_old: "retained m ts now \<Longrightarrow> \<not> too_old m now ts"
  by (auto simp: retained_def too_old_def split: option.splits)

text \<open>
  What a verifier relies on: an operation at time \<open>t\<close> keeps the stamp of every nonce retained at \<open>t\<close>; a
  check finds such a nonce, and a check that finds nothing in a store that is ready stamps the nonce
  with the time.
\<close>

locale nonce_backend =
  fixes step :: "'op \<Rightarrow> rat \<Rightarrow> 's \<Rightarrow> 's"
    and check :: "string \<Rightarrow> rat \<Rightarrow> 's \<Rightarrow> bool \<times> 's"
    and stamp_of :: "'s \<Rightarrow> string \<Rightarrow> rat option"
    and inv :: "'s \<Rightarrow> bool"
    and ready :: "'s \<Rightarrow> bool"
    and maxAge :: "rat option"
  assumes step_inv: "inv s \<Longrightarrow> inv (step op t s)"
    and check_inv: "inv s \<Longrightarrow> inv (snd (check n t s))"
    and step_keeps: "inv s \<Longrightarrow> stamp_of s n = Some ts \<Longrightarrow> retained maxAge ts t \<Longrightarrow> stamp_of (step op t s) n = Some ts"
    and check_finds: "inv s \<Longrightarrow> stamp_of s n = Some ts \<Longrightarrow> retained maxAge ts t \<Longrightarrow> fst (check n t s)"
    and check_stamps: "inv s \<Longrightarrow> ready s \<Longrightarrow> \<not> fst (check n t s) \<Longrightarrow> stamp_of (snd (check n t s)) n = Some t"
begin

lemma run_keeps:
  assumes "inv s" "stamp_of s n = Some ts" "\<forall>(op, t) \<in> set ops. retained maxAge ts t"
  shows "inv (fold (\<lambda>(op, t). step op t) ops s) \<and> stamp_of (fold (\<lambda>(op, t). step op t) ops s) n = Some ts"
  using assms
proof (induction ops arbitrary: s)
  case (Cons o' ops)
  obtain op t where o': "o' = (op, t)" by (cases o')
  have "inv (step op t s)" "stamp_of (step op t s) n = Some ts"
    using Cons.prems o' by (auto intro: step_inv step_keeps)
  from Cons.IH[OF this] Cons.prems(3) o' show ?case by auto
qed auto

lemma replay_found:
  assumes "inv s" "ready s" "\<not> fst (check n u s)" "sorted (u # map snd ops @ [v])" "retained maxAge u v"
  shows "fst (check n v (fold (\<lambda>(op, t). step op t) ops (snd (check n u s))))"
proof -
  have "\<forall>(op, t') \<in> set ops. retained maxAge u t'"
    using assms(4) retained_earlier[OF assms(5)] by (auto simp: sorted_append)
  from run_keeps[OF check_inv[OF assms(1)] check_stamps[OF assms(1-3)] this] assms(5)
  show ?thesis by (blast intro: check_finds)
qed

end

section \<open>The backends\<close>

text \<open>The operations of a life: lookups, additions, checks, sizes and compactions.\<close>

datatype nonce_op = HasOp string | AddOp string | CheckOp string | SizeOp | CompactOp

fun memory_nonce_step :: "nonce_op \<Rightarrow> rat \<Rightarrow> InMemoryNonceStore \<Rightarrow> InMemoryNonceStore" where
  "memory_nonce_step (HasOp n) t s = snd (nonce_has n t s)"
| "memory_nonce_step (AddOp n) t s = nonce_add n t s"
| "memory_nonce_step (CheckOp n) t s = snd (nonce_addAndCheck n t s)"
| "memory_nonce_step SizeOp t s = snd (nonce_size t s)"
| "memory_nonce_step CompactOp t s = snd (compactInternal t s)"

text \<open>
  A file store can also be opened again on its file, after a proper end or after a crash in the middle
  of the append of a check of a nonce that is not seen.  The crash leaves text without a newline, which
  may or may not be the whole record.
\<close>

datatype file_op = StoreOp nonce_op | RestartOp | CrashOp string bool

definition torn_tail :: "string \<Rightarrow> rat \<Rightarrow> bool \<Rightarrow> FilesystemNonceStore \<Rightarrow> nonce_line option" where
  "torn_tail nonce ts whole s =
     (if fst (nonce_has nonce ts s) then ns_tail s
      else Some (if whole \<and> ns_tail s = None then NonceLine nonce ts else SkippedLine))"

fun file_nonce_step :: "file_op \<Rightarrow> rat \<Rightarrow> FilesystemNonceStore \<Rightarrow> FilesystemNonceStore" where
  "file_nonce_step (StoreOp (HasOp n)) t s = snd (nonce_has n t s)"
| "file_nonce_step (StoreOp (AddOp n)) t s = (case file_nonce_add n t s of Inr s' \<Rightarrow> s' | Inl _ \<Rightarrow> s)"
| "file_nonce_step (StoreOp (CheckOp n)) t s = snd (file_nonce_addAndCheck n t s)"
| "file_nonce_step (StoreOp SizeOp) t s = snd (nonce_size t s)"
| "file_nonce_step (StoreOp CompactOp) t s = snd (file_nonce_compact t s)"
| "file_nonce_step RestartOp t s = hydrate (ns_maxAgeMs s) t (ns_file s) (ns_tail s)"
| "file_nonce_step (CrashOp n whole) t s = hydrate (ns_maxAgeMs s) t (ns_file s) (torn_tail n t whole s)"

text \<open>The stamps of a nonce in the file, oldest line first.\<close>

fun stamps :: "string \<Rightarrow> nonce_line list \<Rightarrow> rat list" where
  "stamps n [] = []"
| "stamps n (SkippedLine # ls) = stamps n ls"
| "stamps n (NonceLine k ts # ls) = (if k = n then ts # stamps n ls else stamps n ls)"

definition nonce_inv :: "rat option \<Rightarrow> 'a InMemoryNonceStore_scheme \<Rightarrow> bool" where
  "nonce_inv maxAge s \<longleftrightarrow> ns_maxAgeMs s = maxAge \<and> map_ok (ns_seen s)"

text \<open>
  The stamp a nonce has in memory and on the file: the last of its lines that end in a newline has it,
  and the text after the last newline is no line of it.
\<close>

definition on_file :: "string \<Rightarrow> rat \<Rightarrow> nonce_line list \<Rightarrow> nonce_line option \<Rightarrow> bool" where
  "on_file n ts ls tail \<longleftrightarrow> stamps n ls \<noteq> [] \<and> last (stamps n ls) = ts \<and> stamps n (file_lines ls tail) = stamps n ls"

definition durable :: "FilesystemNonceStore \<Rightarrow> string \<Rightarrow> rat option" where
  "durable s n = (case map_of (ns_seen s) n of
     Some ts \<Rightarrow> if on_file n ts (ns_file s) (ns_tail s) then Some ts else None | None \<Rightarrow> None)"

lemma durable_iff: "durable s n = Some ts \<longleftrightarrow> map_of (ns_seen s) n = Some ts \<and> on_file n ts (ns_file s) (ns_tail s)"
  by (auto simp: durable_def split: option.splits if_splits)

lemma map_of_filter_entry:
  "map_ok m \<Longrightarrow> map_of (filter Q m) n = (case map_of m n of Some v \<Rightarrow> if Q (n, v) then Some v else None | None \<Rightarrow> None)"
proof (induction m)
  case (Cons e m)
  then have "map_of m (fst e) = None" by (simp add: map_ok_def map_of_eq_None_iff)
  with Cons show ?case by (cases e) (auto simp: map_ok_def split: option.splits)
qed simp

lemma map_ok_filter: "map_ok m \<Longrightarrow> map_ok (filter Q m)"
  by (simp add: map_ok_def distinct_map_filter)

lemma stamps_append: "stamps n (xs @ ys) = stamps n xs @ stamps n ys"
  by (induction n xs rule: stamps.induct) auto

lemma stamps_entries:
  "map_ok m \<Longrightarrow> stamps n (map (\<lambda>(nonce, ts). NonceLine nonce ts) m) = (case map_of m n of Some ts \<Rightarrow> [ts] | None \<Rightarrow> [])"
proof (induction m)
  case (Cons e m)
  then have "map_of m (fst e) = None" by (simp add: map_ok_def map_of_eq_None_iff)
  with Cons show ?case by (cases e) (auto simp: map_ok_def)
qed simp

lemma map_ok_hydrate: "map_ok m \<Longrightarrow> map_ok (fold (hydrate_line maxAge t) ls m)"
proof (induction ls arbitrary: m)
  case (Cons l ls)
  then show ?case by (cases l) auto
qed simp

definition hydrated_stamps :: "rat option \<Rightarrow> rat \<Rightarrow> string \<Rightarrow> nonce_line list \<Rightarrow> rat list" where
  "hydrated_stamps maxAge t n ls = filter (\<lambda>ts. case maxAge of Some a \<Rightarrow> t - a < ts | None \<Rightarrow> True) (stamps n ls)"

lemma map_of_hydrate:
  "map_of (fold (hydrate_line maxAge t) ls m) n =
     (if hydrated_stamps maxAge t n ls = [] then map_of m n else Some (last (hydrated_stamps maxAge t n ls)))"
proof (induction ls arbitrary: m)
  case (Cons l ls)
  then show ?case by (cases l) (auto simp: hydrated_stamps_def js_simps not_le split: option.splits)
qed (simp add: hydrated_stamps_def)

lemma last_filter_last: "xs \<noteq> [] \<Longrightarrow> Q (last xs) \<Longrightarrow> filter Q xs \<noteq> [] \<and> last (filter Q xs) = last xs"
  by (induction xs rule: rev_induct) auto

lemma hydrate_keeps:
  assumes "stamps n ls \<noteq> []" "last (stamps n ls) = ts" "retained maxAge ts t"
  shows "map_of (fold (hydrate_line maxAge t) ls []) n = Some ts"
proof -
  have "case maxAge of Some a \<Rightarrow> t - a < last (stamps n ls) | None \<Rightarrow> True"
    using assms by (auto simp: retained_def split: option.splits)
  from last_filter_last[OF assms(1), of "\<lambda>ts. case maxAge of Some a \<Rightarrow> t - a < ts | None \<Rightarrow> True", OF this] assms(2)
  show ?thesis by (simp add: map_of_hydrate hydrated_stamps_def)
qed

lemma hydrate_durable:
  assumes "on_file n ts ls tail" "retained maxAge ts t"
  shows "durable (hydrate maxAge t ls tail) n = Some ts"
  unfolding durable_iff hydrate_def using assms hydrate_keeps[of n "file_lines ls tail" ts maxAge t]
  by (simp add: on_file_def)

lemma hydrate_inv: "nonce_inv maxAge (hydrate maxAge t ls tail)"
  by (simp add: nonce_inv_def hydrate_def map_ok_hydrate)

text \<open>A line of another nonce, or a line that is skipped, changes nothing for this one.\<close>

lemma on_file_other:
  assumes "on_file n ts ls tail" "stamps n [l] = []"
  shows "on_file n ts (ls @ [l]) None" "on_file n ts ls (Some l)"
  using assms by (simp_all add: on_file_def file_lines_def stamps_append)

lemma on_file_entries: "map_ok m \<Longrightarrow> map_of m n = Some ts \<Longrightarrow> on_file n ts (map (\<lambda>(nonce, ts). NonceLine nonce ts) m) None"
  by (simp add: on_file_def file_lines_def stamps_entries)

lemma persist_durable_other:
  assumes "durable s n = Some ts" "k \<noteq> n"
  shows "durable (file_persist_nonce k t s) n = Some ts"
  using assms on_file_other(1)[of n ts "ns_file s" "ns_tail s" "case ns_tail s of None \<Rightarrow> NonceLine k t | Some _ \<Rightarrow> SkippedLine"]
  by (simp add: durable_iff file_persist_nonce_def js_simps split: option.split)

lemma persist_durable: "ns_tail s = None \<Longrightarrow> durable (file_persist_nonce n t s) n = Some t"
  by (simp add: durable_iff file_persist_nonce_def on_file_def file_lines_def stamps_append js_simps)

text \<open>Eviction drops only nonces that are no longer retained.\<close>

definition evicts :: "rat option \<Rightarrow> rat \<Rightarrow> (string, rat) jsmap \<Rightarrow> (string, rat) jsmap \<Rightarrow> bool" where
  "evicts maxAge t m m' \<longleftrightarrow> map_ok m' \<and> (\<forall>n ts. map_of m' n = Some ts \<longrightarrow> map_of m n = Some ts) \<and>
     (\<forall>n ts. map_of m n = Some ts \<and> retained maxAge ts t \<longrightarrow> map_of m' n = Some ts)"

lemma nonce_has_spec:
  assumes "nonce_inv maxAge s"
  shows "evicts maxAge t (ns_seen s) (ns_seen (snd (nonce_has n t s)))" "ns_maxAgeMs (snd (nonce_has n t s)) = maxAge"
    and "snd (nonce_has n t s) = s \<lparr> ns_seen := ns_seen (snd (nonce_has n t s)) \<rparr>"
    and "\<not> fst (nonce_has n t s) \<Longrightarrow> map_of (ns_seen (snd (nonce_has n t s))) n = None"
    and "map_of (ns_seen s) n = Some ts \<Longrightarrow> retained maxAge ts t \<Longrightarrow> fst (nonce_has n t s)"
  using assms retained_not_old
  by (auto simp: nonce_has_def evicts_def nonce_inv_def js_simps split: option.splits if_splits)

lemma compactInternal_spec:
  assumes "nonce_inv maxAge s"
  shows "evicts maxAge t (ns_seen s) (ns_seen (snd (compactInternal t s)))"
    "ns_maxAgeMs (snd (compactInternal t s)) = maxAge"
    "snd (compactInternal t s) = s \<lparr> ns_seen := ns_seen (snd (compactInternal t s)) \<rparr>"
  using assms
  by (auto simp: compactInternal_def evicts_def nonce_inv_def map_of_filter_entry map_ok_filter retained_def Let_def
      split: option.splits if_splits)

lemma nonce_size_compacts: "snd (nonce_size t s) = snd (compactInternal t s)"
  by (auto simp: nonce_size_def compactInternal_def Let_def split: option.splits)

lemma evicts_refl: "map_ok m \<Longrightarrow> evicts maxAge t m m"
  by (simp add: evicts_def)

text \<open>What every operation does to the memory: it evicts, and may then stamp one nonce that is not there.\<close>

definition nonce_effect :: "rat option \<Rightarrow> rat \<Rightarrow> (string, rat) jsmap \<Rightarrow> (string, rat) jsmap \<Rightarrow> bool" where
  "nonce_effect maxAge t m m' \<longleftrightarrow>
     (\<exists>m1. evicts maxAge t m m1 \<and> (m' = m1 \<or> (\<exists>n. map_of m1 n = None \<and> m' = map_set n t m1)))"

lemma nonce_effect_keeps:
  assumes "nonce_effect maxAge t m m'" "map_of m n = Some ts" "retained maxAge ts t"
  shows "map_of m' n = Some ts"
proof -
  obtain m1 where m1: "evicts maxAge t m m1" "m' = m1 \<or> (\<exists>k. map_of m1 k = None \<and> m' = map_set k t m1)"
    using assms(1) unfolding nonce_effect_def by blast
  have "map_of m1 n = Some ts" using m1(1) assms(2,3) unfolding evicts_def by blast
  with m1(2) show ?thesis by (auto simp: js_simps)
qed

lemma nonce_effect_ok: "nonce_effect maxAge t m m' \<Longrightarrow> map_ok m'"
  unfolding nonce_effect_def evicts_def using map_ok_map_set by metis

lemma memory_check_spec:
  assumes "nonce_inv maxAge s"
  shows "nonce_effect maxAge t (ns_seen s) (ns_seen (snd (nonce_addAndCheck n t s)))"
    and "ns_maxAgeMs (snd (nonce_addAndCheck n t s)) = maxAge"
    and "map_of (ns_seen s) n = Some ts \<Longrightarrow> retained maxAge ts t \<Longrightarrow> fst (nonce_addAndCheck n t s)"
    and "\<not> fst (nonce_addAndCheck n t s) \<Longrightarrow> map_of (ns_seen (snd (nonce_addAndCheck n t s))) n = Some t"
proof -
  note spec = nonce_has_spec[OF assms, where t = t and n = n]
  have c: "nonce_addAndCheck n t s = (fst (nonce_has n t s), if fst (nonce_has n t s) then snd (nonce_has n t s)
      else snd (nonce_has n t s) \<lparr> ns_seen := map_set n t (ns_seen (snd (nonce_has n t s))) \<rparr>)"
    by (simp add: nonce_addAndCheck_def Let_def split: prod.splits)
  show "nonce_effect maxAge t (ns_seen s) (ns_seen (snd (nonce_addAndCheck n t s)))"
    unfolding nonce_effect_def c by (rule exI, rule conjI, rule spec(1)) (use spec(4) in auto)
  show "ns_maxAgeMs (snd (nonce_addAndCheck n t s)) = maxAge"
    "\<not> fst (nonce_addAndCheck n t s) \<Longrightarrow> map_of (ns_seen (snd (nonce_addAndCheck n t s))) n = Some t"
    using spec(2) by (simp_all add: c js_simps)
  show "map_of (ns_seen s) n = Some ts \<Longrightarrow> retained maxAge ts t \<Longrightarrow> fst (nonce_addAndCheck n t s)"
    using spec(5) by (simp add: c)
qed

lemma nonce_effect_evicts: "evicts maxAge t m m' \<Longrightarrow> nonce_effect maxAge t m m'"
  unfolding nonce_effect_def by blast

lemma memory_step_spec:
  assumes "nonce_inv maxAge s"
  shows "nonce_effect maxAge t (ns_seen s) (ns_seen (memory_nonce_step op t s)) \<and>
     ns_maxAgeMs (memory_nonce_step op t s) = maxAge"
proof (cases op)
  case (HasOp n)
  then show ?thesis by (simp add: nonce_effect_evicts nonce_has_spec(1,2)[OF assms])
next
  case (AddOp n)
  have "evicts maxAge t (ns_seen s) (ns_seen s)" using assms by (simp add: nonce_inv_def evicts_refl)
  then have "nonce_effect maxAge t (ns_seen s) (ns_seen (nonce_add n t s))"
    unfolding nonce_effect_def nonce_add_def by (intro exI[of _ "ns_seen s"]) auto
  with AddOp show ?thesis using assms by (simp add: nonce_add_def nonce_inv_def)
next
  case (CheckOp n)
  then show ?thesis by (simp add: memory_check_spec(1,2)[OF assms])
qed (use assms in \<open>simp_all add: nonce_effect_evicts compactInternal_spec(1,2)[OF assms] nonce_size_compacts nonce_inv_def evicts_refl\<close>)

interpretation memory_nonces: nonce_backend memory_nonce_step nonce_addAndCheck "\<lambda>s. map_of (ns_seen s)" "nonce_inv maxAge"
  "\<lambda>_. True" maxAge
  for maxAge
proof
  fix t n ts op and s :: InMemoryNonceStore
  assume inv: "nonce_inv maxAge s"
  note step = memory_step_spec[OF inv, where t = t and op = op] and check = memory_check_spec[OF inv, where t = t and n = n]
  show "nonce_inv maxAge (memory_nonce_step op t s)" "nonce_inv maxAge (snd (nonce_addAndCheck n t s))"
    using step check(1,2) by (auto simp: nonce_inv_def dest: nonce_effect_ok)
  show "map_of (ns_seen (memory_nonce_step op t s)) n = Some ts" if "map_of (ns_seen s) n = Some ts" "retained maxAge ts t"
    using step that nonce_effect_keeps by blast
  show "fst (nonce_addAndCheck n t s)" if "map_of (ns_seen s) n = Some ts" "retained maxAge ts t"
    by (rule check(3)[OF that])
  show "map_of (ns_seen (snd (nonce_addAndCheck n t s))) n = Some t" if "\<not> fst (nonce_addAndCheck n t s)"
    by (rule check(4)[OF that])
qed

text \<open>The file store: evictions leave the file alone, and a check that finds nothing appends a line.\<close>

lemma evicts_durable:
  assumes "durable s n = Some ts" "retained maxAge ts t" "evicts maxAge t (ns_seen s) m"
  shows "durable (s \<lparr> ns_seen := m \<rparr>) n = Some ts"
proof -
  have "map_of (ns_seen s) n = Some ts" "on_file n ts (ns_file s) (ns_tail s)" using assms(1) unfolding durable_iff by blast+
  moreover from this(1) have "map_of m n = Some ts" using assms(2,3) unfolding evicts_def by blast
  ultimately show ?thesis unfolding durable_iff by simp
qed

lemma has_durable:
  assumes "nonce_inv maxAge s" "durable s n = Some ts" "retained maxAge ts t"
  shows "durable (snd (nonce_has k t s)) n = Some ts" "\<not> fst (nonce_has k t s) \<Longrightarrow> k \<noteq> n"
    and "ns_tail (snd (nonce_has k t s)) = ns_tail s" "nonce_inv maxAge (snd (nonce_has k t s))"
proof -
  note h = nonce_has_spec[OF assms(1), where t = t and n = k]
  show "durable (snd (nonce_has k t s)) n = Some ts"
    by (subst h(3)) (rule evicts_durable[OF assms(2,3) h(1)])
  show "\<not> fst (nonce_has k t s) \<Longrightarrow> k \<noteq> n"
    using nonce_has_spec(5)[OF assms(1), where n = n and ts = ts and t = t] assms(2,3) by (auto simp: durable_iff)
  show "ns_tail (snd (nonce_has k t s)) = ns_tail s" by (subst h(3)) simp
  show "nonce_inv maxAge (snd (nonce_has k t s))" using h(1,2) by (simp add: nonce_inv_def evicts_def)
qed

lemma compact_durable:
  assumes "nonce_inv maxAge s" "durable s n = Some ts" "retained maxAge ts t"
  shows "durable (snd (compactInternal t s)) n = Some ts" "durable (snd (file_nonce_compact t s)) n = Some ts"
proof -
  note c = compactInternal_spec[OF assms(1), where t = t]
  show d: "durable (snd (compactInternal t s)) n = Some ts"
    by (subst c(3)) (rule evicts_durable[OF assms(2,3) c(1)])
  have "map_ok (ns_seen (snd (compactInternal t s)))" using c(1) by (simp add: evicts_def)
  with d show "durable (snd (file_nonce_compact t s)) n = Some ts"
    by (auto simp: file_nonce_compact_def Let_def durable_iff on_file_entries split: prod.splits)
qed

lemma check_durable:
  assumes "nonce_inv maxAge s" "durable s n = Some ts" "retained maxAge ts t"
  shows "durable (snd (file_nonce_addAndCheck k t s)) n = Some ts"
  using has_durable[OF assms, of k] persist_durable_other[of "snd (nonce_has k t s)" n ts k t]
  by (auto simp: file_nonce_addAndCheck_def Let_def split: prod.splits)

lemma crash_on_file:
  assumes "nonce_inv maxAge s" "durable s n = Some ts" "retained maxAge ts t"
  shows "on_file n ts (ns_file s) (torn_tail k t whole s)"
  using has_durable(2)[OF assms, of k] assms(2) on_file_other(2)[of n ts "ns_file s" "ns_tail s"]
  by (auto simp: torn_tail_def durable_iff)

lemma file_step_keeps:
  assumes "nonce_inv maxAge s" "durable s n = Some ts" "retained maxAge ts t"
  shows "durable (file_nonce_step op t s) n = Some ts"
proof (cases "(op, t, s)" rule: file_nonce_step.cases)
  case (2 k t' s')
  have "map_of (ns_seen s) n = Some ts" using assms(2) by (simp add: durable_iff)
  then have "map_of (ns_seen s) k = None \<Longrightarrow> k \<noteq> n" by auto
  with 2 show ?thesis
    using assms(2) persist_durable_other[OF assms(2), of k t] by (auto simp: file_nonce_add_def)
next
  case (6 t' s')
  moreover have "on_file n ts (ns_file s) (ns_tail s)" using assms(2) by (simp add: durable_iff)
  ultimately show ?thesis using assms(1,3) by (simp add: hydrate_durable nonce_inv_def)
next
  case (7 k whole t' s')
  then show ?thesis using assms(1,3) crash_on_file[OF assms] by (simp add: hydrate_durable nonce_inv_def)
qed (use assms has_durable(1) compact_durable check_durable in \<open>auto simp: nonce_size_compacts\<close>)

lemma file_check_inv: "nonce_inv maxAge s \<Longrightarrow> nonce_inv maxAge (snd (file_nonce_addAndCheck n t s))"
  using nonce_has_spec(1,2)[where maxAge = maxAge and s = s and t = t and n = n]
  by (auto simp: file_nonce_addAndCheck_def file_persist_nonce_def nonce_inv_def evicts_def Let_def split: prod.splits)

lemma file_step_inv:
  assumes "nonce_inv maxAge s"
  shows "nonce_inv maxAge (file_nonce_step op t s)"
proof (cases "(op, t, s)" rule: file_nonce_step.cases)
  case (1 k t' s')
  then show ?thesis using nonce_has_spec(1,2)[OF assms, where t = t and n = k] by (simp add: nonce_inv_def evicts_def)
next
  case (2 k t' s')
  then show ?thesis using assms by (simp add: file_nonce_add_def file_persist_nonce_def nonce_inv_def)
next
  case (4 t' s')
  then show ?thesis using compactInternal_spec(1,2)[OF assms, where t = t] by (simp add: nonce_inv_def evicts_def nonce_size_compacts)
next
  case (5 t' s')
  then show ?thesis using compactInternal_spec(1,2)[OF assms, where t = t]
    by (auto simp: nonce_inv_def evicts_def file_nonce_compact_def Let_def split: prod.splits)
qed (use assms file_check_inv hydrate_inv in \<open>auto simp: nonce_inv_def\<close>)

interpretation file_nonces: nonce_backend file_nonce_step file_nonce_addAndCheck durable "nonce_inv maxAge"
  "\<lambda>s. ns_tail s = None" maxAge
  for maxAge
proof
  fix t n ts op and s :: FilesystemNonceStore
  assume inv: "nonce_inv maxAge s"
  have fst_eq: "fst (file_nonce_addAndCheck n t s) = fst (nonce_has n t s)"
    by (simp add: file_nonce_addAndCheck_def Let_def split: prod.splits)
  show "nonce_inv maxAge (file_nonce_step op t s)" "nonce_inv maxAge (snd (file_nonce_addAndCheck n t s))"
    by (fact file_step_inv[OF inv] file_check_inv[OF inv])+
  show "durable (file_nonce_step op t s) n = Some ts" if "durable s n = Some ts" "retained maxAge ts t"
    by (rule file_step_keeps[OF inv that])
  show "fst (file_nonce_addAndCheck n t s)" if "durable s n = Some ts" "retained maxAge ts t"
    unfolding fst_eq using that by (intro nonce_has_spec(5)[OF inv]) (simp_all add: durable_iff)
  show "durable (snd (file_nonce_addAndCheck n t s)) n = Some t" if "ns_tail s = None" "\<not> fst (file_nonce_addAndCheck n t s)"
  proof -
    have "ns_tail (snd (nonce_has n t s)) = None" using that(1) by (subst nonce_has_spec(3)[OF inv]) simp
    with that(2) show ?thesis
      by (auto simp: file_nonce_addAndCheck_def Let_def persist_durable split: prod.splits)
  qed
qed

section \<open>Properties\<close>

text \<open>
  C40 Artifact replay is detected across restarts and crashes.  Suppose the file store accepted a nonce at
  time \<open>u\<close>, when its file ended in a newline.  Then after any lookups, additions, checks, sizes and
  compactions, restarts, and crashes that cut an append short and are followed by a restart, a check of
  the same nonce at a time \<open>v\<close> inside the retention window reports it as seen.  The clock does not go
  backwards, and a compaction is not interrupted.  The condition on the file is needed: see
  \<open>torn_file_loses_nonce\<close>.
\<close>

theorem nonce_replay_detected:
  assumes "nonce_inv maxAge s" "ns_tail s = None" "\<not> fst (file_nonce_addAndCheck n u s)"
    and "sorted (u # map snd ops @ [v])" "retained maxAge u v"
  shows "fst (file_nonce_addAndCheck n v (fold (\<lambda>(op, t). file_nonce_step op t) ops (snd (file_nonce_addAndCheck n u s))))"
  by (rule file_nonces.replay_found[OF assms])

theorem nonce_replay_detected_witness:
  "fst (file_nonce_addAndCheck ''n1'' 60 (fold (\<lambda>(op, t). file_nonce_step op t)
     [(StoreOp CompactOp, 20), (CrashOp ''n2'' False, 30), (StoreOp (CheckOp ''n3''), 40), (RestartOp, 50)]
     (snd (file_nonce_addAndCheck ''n1'' 10 (hydrate (Some 100) 0 [] None)))))"
proof (rule nonce_replay_detected[where maxAge = "Some 100"])
  show "nonce_inv (Some 100) (hydrate (Some 100) 0 [] None)" by (rule hydrate_inv)
  show "\<not> fst (file_nonce_addAndCheck ''n1'' 10 (hydrate (Some 100) 0 [] None))"
    by (simp add: file_nonce_addAndCheck_def nonce_has_def hydrate_def file_lines_def)
qed (simp_all add: retained_def hydrate_def)

text \<open>
  The record of a nonce accepted after a crash that cut an append short is joined to the text the crash
  left, and lost: after the next restart the same nonce is accepted again, inside its window.
\<close>

theorem torn_file_loses_nonce:
  "let s = file_nonce_step (CrashOp ''n2'' False) 10 (hydrate (Some 100) 0 [] None);
       first = file_nonce_addAndCheck ''n1'' 20 s
   in \<not> fst first \<and> \<not> fst (file_nonce_addAndCheck ''n1'' 40 (file_nonce_step RestartOp 30 (snd first)))"
  by code_simp

text \<open>After \<open>close()\<close> a check is still answered, and its nonce written.\<close>

theorem closed_store_still_checks:
  "let r = file_nonce_addAndCheck ''n1'' 20 (file_nonce_close (hydrate None 0 [] None))
   in \<not> fst r \<and> ns_file (snd r) = [NonceLine ''n1'' 20]"
  by code_simp

end
