(* ===== verification/Json_Clone.thy ===== *)
theory Json_Clone
  imports Action
begin

text \<open>
  The round trip \<open>JSON.parse(JSON.stringify(v))\<close> through which values pass when they are kept in a
  database column, and the fact the stored evidence rests on: the canonical text of a value survives
  the trip.
\<close>

section \<open>Cloning\<close>

text \<open>
  An \<open>undefined\<close> property is left out, an \<open>undefined\<close> element and a non-finite number become \<open>null\<close>,
  and the object read back lists its array-index keys first.
\<close>

fun json_clone :: "json \<Rightarrow> json" where
  "json_clone (JArr vs) = JArr (map (\<lambda>v. if v = JUndef then JNull else json_clone v) vs)"
| "json_clone (JObj es) = JObj (from_entries (filter defined_entry (map (\<lambda>e. (fst e, json_clone (snd e))) es)))"
| "json_clone JNonFinite = JNull"
| "json_clone v = v"

definition clone_object :: "jsobject \<Rightarrow> jsobject" where
  "clone_object es = json_fields (json_clone (JObj es))"

lemma clone_object_eq:
  "clone_object es = from_entries (filter defined_entry (map (\<lambda>e. (fst e, json_clone (snd e))) es))"
  by (simp add: clone_object_def)

lemma json_clone_JStr [simp]: "json_clone v = JStr s \<longleftrightarrow> v = JStr s"
  by (cases v) auto

lemma json_clone_JUndef [simp]: "json_clone v = JUndef \<longleftrightarrow> v = JUndef"
  by (cases v) auto

lemma map_of_clone_entries: "map_of (map (\<lambda>e. (fst e, json_clone (snd e))) es) k = map_option json_clone (map_of es k)"
  by (induction es) auto

lemma obj_get_clone:
  assumes "distinct (map fst es)"
  shows "obj_get (clone_object es) k = json_clone (obj_get es k)"
proof -
  let ?cs = "map (\<lambda>e. (fst e, json_clone (snd e))) es"
  have keys: "map fst ?cs = map fst es" by (simp add: comp_def)
  have "distinct (map fst (filter defined_entry ?cs))"
    using assms keys by (intro distinct_map_filter_fst) (simp only:)
  then have "map_of (clone_object es) k = map_of (filter defined_entry ?cs) k"
    by (simp add: clone_object_eq map_of_from_entries)
  also have "\<dots> = (case map_of ?cs k of None \<Rightarrow> None | Some v \<Rightarrow> if v = JUndef then None else Some v)"
    using assms keys
  proof (induction es)
    case (Cons e es)
    then show ?case
      by (auto simp: defined_entry_def map_of_clone_entries split: option.splits dest: map_of_SomeD weak_map_of_SomeI)
         (metis (no_types, lifting) fst_conv image_eqI map_of_SomeD)+
  qed simp
  finally show ?thesis by (simp add: obj_get_def map_of_clone_entries split: option.splits)
qed

section \<open>The canonical text survives\<close>

text \<open>
  Values all of whose objects have distinct keys, none of them an array index, whose arrays have no
  \<open>undefined\<close> element.
\<close>

fun plain_json :: "json \<Rightarrow> bool" where
  "plain_json (JArr vs) = list_all (\<lambda>v. v \<noteq> JUndef \<and> plain_json v) vs"
| "plain_json (JObj es) = (distinct (map fst es) \<and> list_all (\<lambda>e. \<not> is_array_index (fst e) \<and> plain_json (snd e)) es)"
| "plain_json JNonFinite = False"
| "plain_json _ = True"

lemma from_entries_plain: "list_all (\<lambda>e. \<not> is_array_index (fst e)) es \<Longrightarrow> from_entries es = es"
  by (simp add: from_entries_def list_all_iff filter_False filter_True)

lemma clone_plain_obj:
  assumes "list_all (\<lambda>e. \<not> is_array_index (fst e)) es"
  shows "clone_object es = filter defined_entry (map (\<lambda>e. (fst e, json_clone (snd e))) es)"
  unfolding clone_object_eq using assms by (intro from_entries_plain) (auto simp: list_all_iff)

lemma normalize_clone: "plain_json v \<Longrightarrow> stableNormalize P (json_clone v) = stableNormalize P v"
proof (induction v)
  case (JArr vs)
  then have "map_result (stableNormalize P) (map (\<lambda>v. if v = JUndef then JNull else json_clone v) vs) =
      map_result (stableNormalize P) vs"
    by (intro map_result_list_all2) (auto simp: list_all2_conv_all_nth list_all_length)
  then show ?case by simp
next
  case (JObj es)
  let ?c = "\<lambda>e. (fst e, json_clone (snd e))"
  have IH: "stableNormalize P (json_clone (snd e)) = stableNormalize P (snd e)" if "e \<in> set es" for e
    using JObj that by (cases e) (auto simp: list_all_iff)
  have plain: "list_all (\<lambda>e. \<not> is_array_index (fst e)) es"
    using JObj.prems by (auto simp: list_all_iff)
  have obj: "json_clone (JObj es) = JObj (filter defined_entry (map ?c es))"
    using clone_plain_obj[OF plain] by (simp add: clone_object_def)
  let ?R = "\<lambda>e f. fst e = fst f \<and> (snd e = JUndef \<longleftrightarrow> snd f = JUndef) \<and> stableNormalize P (snd e) = stableNormalize P (snd f)"
  have "list_all2 ?R (map ?c es) es"
    using IH by (auto simp: list_all2_conv_all_nth)
  then have "list_all2 ?R (filter defined_entry (map ?c es)) (filter defined_entry es)"
    by (rule list_all2_filter_iff) (auto simp: defined_entry_def)
  then have "list_all2 ?R (sort_entries (locale_le P) (filter defined_entry (map ?c es)))
      (sort_entries (locale_le P) (filter defined_entry es))"
    by (rule list_all2_sort_entries)
  then have "map_result (\<lambda>e. bind_result (stableNormalize P (snd e)) (\<lambda>w. Inr (fst e, w)))
      (sort_entries (locale_le P) (filter defined_entry (map ?c es))) =
    map_result (\<lambda>e. bind_result (stableNormalize P (snd e)) (\<lambda>w. Inr (fst e, w)))
      (sort_entries (locale_le P) (filter defined_entry es))"
    by (intro map_result_list_all2) (auto elim: list_all2_mono)
  then show ?case by (simp only: obj) (simp add: stableNormalize_obj)
qed simp_all

lemma stringify_clone: "plain_json v \<Longrightarrow> stableStringify P (json_clone v) = stableStringify P v"
  by (simp add: stableStringify_def normalize_clone)

text \<open>A value without \<open>undefined\<close> that is plain is its own clone.\<close>

fun solid_json :: "json \<Rightarrow> bool" where
  "solid_json JUndef = False"
| "solid_json JNonFinite = False"
| "solid_json (JArr vs) = list_all solid_json vs"
| "solid_json (JObj es) = list_all (\<lambda>e. \<not> is_array_index (fst e) \<and> solid_json (snd e)) es"
| "solid_json _ = True"

lemma clone_solid: "solid_json v \<Longrightarrow> json_clone v = v"
proof (induction v)
  case (JArr vs)
  then show ?case by (auto simp: list_all_iff intro!: map_idI) (metis solid_json.simps(1))
next
  case (JObj es)
  have IH: "json_clone (snd e) = snd e" if "e \<in> set es" for e
    using JObj that by (cases e) (auto simp: list_all_iff)
  then have m: "map (\<lambda>e. (fst e, json_clone (snd e))) es = es"
    by (intro map_idI) simp
  have "filter defined_entry es = es"
    using JObj.prems by (intro filter_True) (auto simp: defined_entry_def list_all_iff)
  moreover have "list_all (\<lambda>e. \<not> is_array_index (fst e)) es"
    using JObj.prems by (auto simp: list_all_iff)
  ultimately show ?case by (simp add: m from_entries_plain)
qed simp_all

end
