(* ===== verification/Effects.thy ===== *)
theory Effects
  imports Ledger_Chain Json_Clone Js_String
begin

text \<open>
  \<open>SqliteEffectStore\<close> of \<open>effects.ts\<close>: durable ownership of the dispatch of an admitted action.  An
  attempt is authorised and in flight, then unknown, and settled only by a signed observation; every
  change of state is an event of a ledger of its own.

  The database is its three tables, in the order of their sequence numbers.  A row holds what
  \<open>JSON.parse\<close> reads back from the column.  A transaction that throws is rolled back, so an operation
  returns the new database only together with its result.
\<close>

section \<open>Data\<close>

datatype EffectState = AUTHORIZED | IN_FLIGHT | CONFIRMED_EFFECT | CONFIRMED_NO_EFFECT | EFFECT_UNKNOWN

primrec effect_state_name :: "EffectState \<Rightarrow> string" where
  "effect_state_name AUTHORIZED = ''AUTHORIZED''"
| "effect_state_name IN_FLIGHT = ''IN_FLIGHT''"
| "effect_state_name CONFIRMED_EFFECT = ''CONFIRMED_EFFECT''"
| "effect_state_name CONFIRMED_NO_EFFECT = ''CONFIRMED_NO_EFFECT''"
| "effect_state_name EFFECT_UNKNOWN = ''EFFECT_UNKNOWN''"

record EffectBinding =
  eb_operation_id :: string
  eb_attempt_id :: string
  eb_warrant_id :: string
  eb_authority_envelope_id :: string
  eb_canonical_action_hash :: hash
  eb_ward_id :: string
  eb_subject :: string
  eb_target :: string
  eb_state_fingerprint :: hash

record EffectObservation = EffectBinding +
  eo_version :: string
  eo_observation_id :: string
  eo_outcome :: string
  eo_finality :: string
  eo_observed_at :: iso_time
  eo_method :: string
  eo_external_evidence_hash :: hash
  eo_observer_key_id :: string
  eo_signature :: string

text \<open>The field \<open>consumed\<close> is the literal \<open>true\<close>.\<close>

record EffectAttempt = EffectBinding +
  ea_state :: EffectState
  ea_started_at :: iso_time
  ea_updated_at :: iso_time
  ea_admission_record_hash :: hash

record Context =
  cx_ward :: WardManifest
  cx_action :: CanonicalActionInput
  cx_decision :: CommitGateDecision
  cx_warrant :: Warrant

record Stored =
  st_attempt :: EffectAttempt
  st_context :: Context

text \<open>A row of \<open>effect_attempts\<close>, and the database.\<close>

record effect_row =
  er_attempt_id :: string
  er_warrant_id :: string
  er_nonce :: string
  er_scope :: string
  er_json :: Stored

record effect_db =
  db_attempts :: "effect_row list"
  db_gel :: "GelRecord list"
  db_observations :: "(string, string) jsmap"

definition empty_db :: effect_db where
  "empty_db = \<lparr> db_attempts = [], db_gel = [], db_observations = [] \<rparr>"

text \<open>The constructor's arguments.\<close>

record effect_config =
  ec_signer :: AristotleSigner
  ec_trustedWarrantKeys :: "string \<rightharpoonup> string"

section \<open>Objects as values\<close>

definition binding_fields :: "'a EffectBinding_scheme \<Rightarrow> jsobject" where
  "binding_fields b =
     [(''operation_id'', JStr (eb_operation_id b)), (''attempt_id'', JStr (eb_attempt_id b)),
      (''warrant_id'', JStr (eb_warrant_id b)), (''authority_envelope_id'', JStr (eb_authority_envelope_id b)),
      (''canonical_action_hash'', JStr (eb_canonical_action_hash b)), (''ward_id'', JStr (eb_ward_id b)),
      (''subject'', JStr (eb_subject b)), (''target'', JStr (eb_target b)),
      (''state_fingerprint'', JStr (eb_state_fingerprint b))]"

definition attempt_object :: "EffectAttempt \<Rightarrow> jsobject" where
  "attempt_object a = binding_fields a @
     [(''state'', JStr (effect_state_name (ea_state a))), (''consumed'', JBool True),
      (''started_at'', JStr (ea_started_at a)), (''updated_at'', JStr (ea_updated_at a)),
      (''admission_record_hash'', JStr (ea_admission_record_hash a))]"

definition observation_object :: "EffectObservation \<Rightarrow> jsobject" where
  "observation_object o' = binding_fields o' @
     [(''version'', JStr (eo_version o')), (''observation_id'', JStr (eo_observation_id o')),
      (''outcome'', JStr (eo_outcome o')), (''finality'', JStr (eo_finality o')),
      (''observed_at'', JStr (eo_observed_at o')), (''method'', JStr (eo_method o')),
      (''external_evidence_hash'', JStr (eo_external_evidence_hash o')),
      (''observer_key_id'', JStr (eo_observer_key_id o')), (''signature'', JStr (eo_signature o'))]"

definition effectObservationMaterial :: "platform \<Rightarrow> jsobject \<Rightarrow> string result" where
  "effectObservationMaterial P observation =
     stableStringify P (JObj (filter (\<lambda>e. fst e \<noteq> ''signature'') observation))"

definition EFFECT_EVENT_VERSION :: string where
  "EFFECT_EVENT_VERSION = ''aristotle.effect-event.v1''"

definition EFFECT_OBSERVATION_VERSION :: string where
  "EFFECT_OBSERVATION_VERSION = ''aristotle.effect-observation.v1''"

text \<open>The event object of \<open>event(stored, observation?)\<close>.\<close>

definition effect_event :: "string \<Rightarrow> EffectAttempt \<Rightarrow> EffectObservation option \<Rightarrow> json" where
  "effect_event event_id attempt observation = JObj
     ([(''version'', JStr EFFECT_EVENT_VERSION), (''event_id'', JStr event_id), (''attempt'', JObj (attempt_object attempt))]
      @ (case observation of Some o' \<Rightarrow> [(''observation'', JObj (observation_object o'))] | None \<Rightarrow> []))"

section \<open>The ledger of events\<close>

definition effect_tail :: "nat \<Rightarrow> effect_db \<Rightarrow> GelRecord list" where
  "effect_tail limit db = drop (length (db_gel db) - limit) (db_gel db)"

definition effect_tip :: "effect_db \<Rightarrow> json" where
  "effect_tip db = (case effect_tail 1 db of [] \<Rightarrow> JStr GENESIS_HASH
     | r # _ \<Rightarrow> not_nullish (obj_get r ''record_hash'') (JStr GENESIS_HASH))"

text \<open>Unlike the other backends, \<open>hasAdmitted\<close> does not look at the decision of the record.\<close>

definition effect_hasAdmitted :: "effect_db \<Rightarrow> hash \<Rightarrow> bool" where
  "effect_hasAdmitted db h = list_ex (\<lambda>r. obj_get r ''canonical_action_hash'' = JStr h) (db_gel db)"

definition effect_persist :: "GelRecord \<Rightarrow> effect_db \<Rightarrow> effect_db result" where
  "effect_persist r db = Inr (db \<lparr> db_gel := db_gel db @ [clone_object r] \<rparr>)"

text \<open>
  A record read back holds no non-finite number, so \<open>verifyGelRecords\<close> does not throw on the records
  of the table.
\<close>

definition effect_verification :: "platform \<Rightarrow> effect_db \<Rightarrow> GelVerification" where
  "effect_verification P db = (case verifyGelRecords P (db_gel db) of Inr v \<Rightarrow> v
     | Inl _ \<Rightarrow> \<lparr> gv_ok = False, gv_count = 0, gv_failure = None \<rparr>)"

definition SqliteEffectStore :: "platform \<Rightarrow> effect_db LedgerBackend" where
  "SqliteEffectStore P =
     \<lparr> lb_tipHash = effect_tip, lb_count = (\<lambda>db. length (db_gel db)), lb_hasAdmitted = effect_hasAdmitted,
       lb_verification = effect_verification P, lb_persist = effect_persist, lb_records = db_gel,
       lb_tail = effect_tail \<rparr>"

definition event_input :: "effect_config \<Rightarrow> string \<Rightarrow> Stored \<Rightarrow> EffectObservation option \<Rightarrow> BuildGelRecordInput" where
  "event_input cfg event_id stored observation =
     \<lparr> bg_effect_event = Some (effect_event event_id (st_attempt stored) observation),
       bg_ward = cx_ward (st_context stored), bg_action = cx_action (st_context stored),
       bg_decision = cx_decision (st_context stored), bg_warrant = Some (cx_warrant (st_context stored)),
       bg_now = Some (ea_updated_at (st_attempt stored)), bg_signer = Some (ec_signer cfg),
       bg_actor = None, bg_trace_context = None \<rparr>"

definition event :: "platform \<Rightarrow> effect_config \<Rightarrow> string \<Rightarrow> Stored \<Rightarrow> EffectObservation option \<Rightarrow> effect_db \<Rightarrow> effect_db result" where
  "event P cfg event_id stored observation db =
     bind_result (ledger_append P (SqliteEffectStore P) [] (event_input cfg event_id stored observation) db)
       (\<lambda>(r, db'). Inr db')"

section \<open>Rows\<close>

text \<open>What \<open>JSON.parse\<close> reads back for a stored context.\<close>

definition clone_stored :: "Stored \<Rightarrow> Stored" where
  "clone_stored s = s \<lparr> st_context := (st_context s)
     \<lparr> cx_ward := (cx_ward (st_context s))
         \<lparr> wm_physical_bounds := map_option clone_object (wm_physical_bounds (cx_ward (st_context s))),
           wm_metadata := map_option clone_object (wm_metadata (cx_ward (st_context s))) \<rparr> \<rparr> \<rparr>"

definition load :: "string \<Rightarrow> effect_db \<Rightarrow> Stored result" where
  "load attemptId db = (case find (\<lambda>r. er_attempt_id r = attemptId) (db_attempts db) of
     None \<Rightarrow> Inl (EffectError ''EFFECT_ATTEMPT_NOT_FOUND'') | Some r \<Rightarrow> Inr (er_json r))"

definition get_attempt :: "string \<Rightarrow> effect_db \<Rightarrow> EffectAttempt result" where
  "get_attempt attemptId db = bind_result (load attemptId db) (\<lambda>s. Inr (st_attempt s))"

text \<open>\<open>UPDATE effect_attempts SET json=? WHERE attempt_id=?\<close>.\<close>

definition update_row :: "string \<Rightarrow> Stored \<Rightarrow> effect_db \<Rightarrow> effect_db" where
  "update_row attemptId stored db = db \<lparr> db_attempts :=
     map (\<lambda>r. if er_attempt_id r = attemptId then r \<lparr> er_json := clone_stored stored \<rparr> else r) (db_attempts db) \<rparr>"

text \<open>The insertion, which the three unique columns can refuse.\<close>

definition insert_row :: "effect_row \<Rightarrow> effect_db \<Rightarrow> effect_db result" where
  "insert_row row db =
     (if list_ex (\<lambda>r. er_attempt_id r = er_attempt_id row \<or> er_warrant_id r = er_warrant_id row \<or> er_nonce r = er_nonce row)
           (db_attempts db)
      then Inl (EffectError ''UNIQUE constraint failed'')
      else Inr (db \<lparr> db_attempts := db_attempts db @ [row] \<rparr>))"

definition latest_in_scope :: "string \<Rightarrow> effect_db \<Rightarrow> effect_row option" where
  "latest_in_scope scope db = find (\<lambda>r. er_scope r = scope) (rev (db_attempts db))"

section \<open>begin\<close>

text \<open>What \<open>begin\<close> reads of the admission record.\<close>

record Admission =
  ad_canonical_action_hash :: hash
  ad_warrant_id :: "string option"
  ad_decision :: ExecutionControlDecision
  ad_reason_codes :: "ExecutionControlReasonCode list"
  ad_policy_version :: "string option"
  ad_runtime_register_snapshot :: RuntimeRegister
  ad_record_hash :: hash

record BeginInput =
  bi_ward :: WardManifest
  bi_action :: CanonicalActionInput
  bi_warrant :: Warrant
  bi_admission :: Admission
  bi_now :: "iso_time option"
  bi_verify :: "WarrantVerifyOptions option"

definition operation_scope :: "platform \<Rightarrow> string \<Rightarrow> string \<Rightarrow> string \<Rightarrow> string result" where
  "operation_scope P ward_id subject operation = stableStringify P (JArr [JStr ward_id, JStr subject, JStr operation])"

definition operation_id :: "CanonicalActionInput \<Rightarrow> string result" where
  "operation_id action =
     (case not_nullish (obj_get (act_params action) ''operation_id'') (JStr (act_action_id action)) of
        JStr operation \<Rightarrow> if js_trim operation = [] \<or> utf16_length operation > 512
          then Inl (EffectError ''EFFECT_OPERATION_ID_REQUIRED'') else Inr operation
      | _ \<Rightarrow> Inl (EffectError ''EFFECT_OPERATION_ID_REQUIRED''))"

definition state_fingerprint :: "platform \<Rightarrow> CanonicalActionInput \<Rightarrow> Admission \<Rightarrow> hash result" where
  "state_fingerprint P action admission =
     bind_result (stableStringify P (JObj [(''telemetry'', opt_json JObj (act_telemetry action)),
         (''registers'', JObj (ad_runtime_register_snapshot admission))]))
       (\<lambda>s. Inr (sha256_hex P s))"

text \<open>The checks before the transaction: the hash of the action.\<close>

definition check_begin :: "platform \<Rightarrow> effect_config \<Rightarrow> iso_time \<Rightarrow> BeginInput \<Rightarrow> hash result" where
  "check_begin P cfg now input =
     (if date_parse P now = None then Inl (EffectError ''EFFECT_INVALID_TIME'')
      else bind_result (canonicalizeAction P (bi_action input)) (\<lambda>canonical.
        let h = ca_canonical_action_hash canonical; w = bi_warrant input; ad = bi_admission input;
            warrantKey = ec_trustedWarrantKeys cfg (wr_signing_key_id w)
        in if \<not> str_truthy warrantKey \<or> warrantKey \<noteq> Some (wr_signing_public_key w)
           then Inl (EffectError ''EFFECT_WARRANT_KEY_UNTRUSTED'')
           else case verifyWarrant P w h now (case bi_verify input of Some v \<Rightarrow> v | None \<Rightarrow> default_options) of
             Some reason \<Rightarrow> Inl (EffectError (''EFFECT_WARRANT_INVALID: '' @ warrant_reason_name reason))
           | None \<Rightarrow>
             if \<not> str_truthy (wr_nonce w) then Inl (EffectError ''EFFECT_WARRANT_INVALID: NONCE_MISSING'')
             else if ad_canonical_action_hash ad \<noteq> h \<or> ad_warrant_id ad \<noteq> Some (wr_warrant_id w) \<or> ad_decision ad \<noteq> ALLOW
             then Inl (EffectError ''EFFECT_ADMISSION_MISMATCH'')
             else Inr h))"

definition begin_context :: "hash \<Rightarrow> BeginInput \<Rightarrow> Context" where
  "begin_context h input = (let a = bi_action input; ad = bi_admission input in
     \<lparr> cx_ward = bi_ward input,
       cx_action = a \<lparr> act_params := [], act_nonce := None, act_telemetry := None, act_classification := None \<rparr>,
       cx_decision = \<lparr> cg_decision = ALLOW, cg_reason_codes = ad_reason_codes ad, cg_canonical_action_hash = h,
         cg_policy_version = ad_policy_version ad,
         cg_authority_envelope_id = Some (wr_authority_envelope_id (bi_warrant input)),
         cg_runtime_register_snapshot = [], cg_physical_invariant_result = None \<rparr>,
       cx_warrant = (bi_warrant input) \<lparr> wr_consumed := True \<rparr> \<rparr>)"

definition begin_attempt :: "iso_time \<Rightarrow> hash \<Rightarrow> string \<Rightarrow> string \<Rightarrow> hash \<Rightarrow> BeginInput \<Rightarrow> EffectAttempt" where
  "begin_attempt now h operation attempt_id fingerprint input =
     \<lparr> eb_operation_id = operation, eb_attempt_id = attempt_id, eb_warrant_id = wr_warrant_id (bi_warrant input),
       eb_authority_envelope_id = wr_authority_envelope_id (bi_warrant input), eb_canonical_action_hash = h,
       eb_ward_id = act_ward_id (bi_action input), eb_subject = act_subject (bi_action input),
       eb_target = act_target (bi_action input), eb_state_fingerprint = fingerprint,
       ea_state = AUTHORIZED, ea_started_at = now, ea_updated_at = now,
       ea_admission_record_hash = ad_record_hash (bi_admission input) \<rparr>"

text \<open>
  \<open>begin\<close>; \<open>uuid 0\<close>, \<open>uuid 1\<close> and \<open>uuid 2\<close> are the results of its calls of \<open>randomUUID\<close>.
\<close>

definition begin_effect ::
  "platform \<Rightarrow> effect_config \<Rightarrow> iso_time \<Rightarrow> (nat \<Rightarrow> string) \<Rightarrow> BeginInput \<Rightarrow> effect_db \<Rightarrow> (EffectAttempt \<times> effect_db) result" where
  "begin_effect P cfg wall uuid input db =
     (let now = (case bi_now input of Some t \<Rightarrow> t | None \<Rightarrow> wall)
      in bind_result (check_begin P cfg now input) (\<lambda>h.
         bind_result (operation_id (bi_action input)) (\<lambda>operation.
         bind_result (operation_scope P (act_ward_id (bi_action input)) (act_subject (bi_action input)) operation) (\<lambda>scope.
         bind_result (state_fingerprint P (bi_action input) (bi_admission input)) (\<lambda>fingerprint.
           let attempt = begin_attempt now h operation (uuid 0) fingerprint input;
               stored = \<lparr> st_attempt = attempt, st_context = begin_context h input \<rparr>;
               flying = stored \<lparr> st_attempt := attempt \<lparr> ea_state := IN_FLIGHT \<rparr> \<rparr>
           in if (case latest_in_scope scope db of None \<Rightarrow> False
                  | Some previous \<Rightarrow> ea_state (st_attempt (er_json previous)) \<noteq> CONFIRMED_NO_EFFECT)
              then Inl (EffectError ''EFFECT_OPERATION_ALREADY_ATTEMPTED'')
              else bind_result (insert_row \<lparr> er_attempt_id = uuid 0, er_warrant_id = eb_warrant_id attempt,
                       er_nonce = the_default [] (wr_nonce (bi_warrant input)), er_scope = scope,
                       er_json = clone_stored stored \<rparr> db) (\<lambda>db1.
                   bind_result (event P cfg (uuid 1) stored None db1) (\<lambda>db2.
                   bind_result (event P cfg (uuid 2) flying None (update_row (uuid 0) flying db2)) (\<lambda>db3.
                     Inr (st_attempt flying, db3)))))))))"

section \<open>markUnknown and reconcile\<close>

definition markUnknown ::
  "platform \<Rightarrow> effect_config \<Rightarrow> string \<Rightarrow> string \<Rightarrow> iso_time \<Rightarrow> effect_db \<Rightarrow> (EffectAttempt \<times> effect_db) result" where
  "markUnknown P cfg event_id attemptId now db =
     (if date_parse P now = None then Inl (EffectError ''EFFECT_INVALID_TIME'')
      else bind_result (load attemptId db) (\<lambda>stored.
        if ea_state (st_attempt stored) \<noteq> IN_FLIGHT then Inr (st_attempt stored, db)
        else let attempt = (st_attempt stored) \<lparr> ea_state := EFFECT_UNKNOWN, ea_updated_at := now \<rparr>;
                 stored' = stored \<lparr> st_attempt := attempt \<rparr>
             in bind_result (event P cfg event_id stored' None (update_row attemptId stored' db))
                  (\<lambda>db'. Inr (attempt, db'))))"

record ReconcileOptions =
  ro_trustedObservers :: "string \<rightharpoonup> string"
  ro_allowedMethods :: "string list"
  ro_now :: "iso_time option"
  ro_maxAgeMs :: "rat option"

text \<open>The state an outcome names.\<close>

definition outcome_state :: "string \<Rightarrow> EffectState option" where
  "outcome_state outcome =
     find (\<lambda>s. effect_state_name s = outcome) [CONFIRMED_EFFECT, CONFIRMED_NO_EFFECT, EFFECT_UNKNOWN]"

definition terminal :: "EffectState \<Rightarrow> bool" where
  "terminal s \<longleftrightarrow> s = CONFIRMED_EFFECT \<or> s = CONFIRMED_NO_EFFECT"

text \<open>The checks before the transaction: the new state and the time of the observation.\<close>

definition check_observation ::
  "platform \<Rightarrow> ReconcileOptions \<Rightarrow> iso_time \<Rightarrow> EffectObservation \<Rightarrow> (EffectState \<times> int) result" where
  "check_observation P opts now observation =
     (let key = ro_trustedObservers opts (eo_observer_key_id observation)
      in if eo_version observation \<noteq> EFFECT_OBSERVATION_VERSION \<or> \<not> str_truthy key
         then Inl (EffectError ''EFFECT_OBSERVER_UNTRUSTED'')
         else bind_result (effectObservationMaterial P (observation_object observation)) (\<lambda>material.
           if \<not> verifyEd25519 P (the_default [] key) material (eo_signature observation)
           then Inl (EffectError ''EFFECT_OBSERVER_UNTRUSTED'')
           else case outcome_state (eo_outcome observation) of
             None \<Rightarrow> Inl (EffectError ''EFFECT_OUTCOME_INVALID'')
           | Some outcome \<Rightarrow>
             if outcome \<noteq> EFFECT_UNKNOWN \<and> eo_finality observation \<noteq> ''settled''
             then Inl (EffectError ''EFFECT_OBSERVATION_NOT_FINAL'')
             else if eo_method observation \<notin> set (ro_allowedMethods opts) \<or> \<not> hex64 (eo_external_evidence_hash observation)
                \<or> eo_observation_id observation = []
             then Inl (EffectError ''EFFECT_EVIDENCE_INVALID'')
             else case (date_parse P now, date_parse P (eo_observed_at observation)) of
               (Some nowMs, Some observedMs) \<Rightarrow>
                 let maxAge = (case ro_maxAgeMs opts of Some m \<Rightarrow> m | None \<Rightarrow> 300000)
                 in if maxAge < 0 \<or> observedMs > nowMs \<or> of_int (nowMs - observedMs) > maxAge
                    then Inl (EffectError ''EFFECT_OBSERVATION_STALE'') else Inr (outcome, observedMs)
             | _ \<Rightarrow> Inl (EffectError ''EFFECT_OBSERVATION_STALE'')))"

text \<open>The name of the first binding field on which the observation and the attempt differ.\<close>

definition binding_mismatch :: "'a EffectBinding_scheme \<Rightarrow> 'b EffectBinding_scheme \<Rightarrow> string option" where
  "binding_mismatch observation attempt =
     map_option fst (find (\<lambda>(field, v). v \<noteq> obj_get (binding_fields attempt) field) (binding_fields observation))"

definition reconcile_effect ::
  "platform \<Rightarrow> effect_config \<Rightarrow> iso_time \<Rightarrow> string \<Rightarrow> EffectObservation \<Rightarrow> ReconcileOptions \<Rightarrow> effect_db
    \<Rightarrow> (EffectAttempt \<times> effect_db) result" where
  "reconcile_effect P cfg wall event_id observation opts db =
     (let now = (case ro_now opts of Some t \<Rightarrow> t | None \<Rightarrow> wall)
      in bind_result (check_observation P opts now observation) (\<lambda>(outcome, observedMs).
         bind_result (load (eb_attempt_id observation) db) (\<lambda>stored.
           let attempt = st_attempt stored
           in case binding_mismatch observation attempt of
                Some field \<Rightarrow> Inl (EffectError (''EFFECT_BINDING_MISMATCH: '' @ field))
              | None \<Rightarrow>
                if nan_less (Some observedMs) (date_parse P (ea_started_at attempt))
                then Inl (EffectError ''EFFECT_OBSERVATION_PREDATES_ATTEMPT'')
                else bind_result (effectObservationMaterial P (observation_object observation)) (\<lambda>material.
                  case map_of (db_observations db) (eo_observation_id observation) of
                    Some previous \<Rightarrow> if previous \<noteq> material then Inl (EffectError ''EFFECT_OBSERVATION_ID_REUSED'')
                      else Inr (attempt, db)
                  | None \<Rightarrow>
                    if terminal (ea_state attempt) then Inl (EffectError ''EFFECT_TERMINAL_CONFLICT'')
                    else if ea_state attempt = IN_FLIGHT \<and> outcome = CONFIRMED_NO_EFFECT
                    then Inl (EffectError ''EFFECT_ATTEMPT_STILL_IN_FLIGHT'')
                    else let attempt' = attempt \<lparr> ea_state := outcome, ea_updated_at := now \<rparr>;
                             stored' = stored \<lparr> st_attempt := attempt' \<rparr>;
                             db1 = db \<lparr> db_observations := map_set (eo_observation_id observation) material (db_observations db) \<rparr>
                         in bind_result (event P cfg event_id stored' (Some observation)
                                (update_row (eb_attempt_id observation) stored' db1))
                              (\<lambda>db'. Inr (attempt', db'))))))"

section \<open>assertIntegrity\<close>

definition event_attempt :: "GelRecord \<Rightarrow> json" where
  "event_attempt r = js_get (obj_get r ''effect_event'') ''attempt''"

text \<open>The map of the latest attempt per identifier; the keys are the strings of the records.\<close>

fun latest_attempts :: "GelRecord list \<Rightarrow> (json, json) jsmap \<Rightarrow> (json, json) jsmap result" where
  "latest_attempts [] m = Inr m"
| "latest_attempts (r # rs) m =
     (if \<not> truthy (obj_get r ''signature'') \<or> \<not> truthy (obj_get r ''effect_event'')
      then Inl (EffectError ''EFFECT_EVENT_UNSIGNED_OR_MISSING'')
      else latest_attempts rs (map_set (js_get (event_attempt r) ''attempt_id'') (event_attempt r) m))"

fun rows_agree :: "platform \<Rightarrow> (json, json) jsmap \<Rightarrow> effect_row list \<Rightarrow> bool result" where
  "rows_agree P m [] = Inr True"
| "rows_agree P m (row # rows) =
     (let attempt = st_attempt (er_json row)
      in bind_result (stableStringify P (case map_of m (JStr (eb_attempt_id attempt)) of Some v \<Rightarrow> v | None \<Rightarrow> JUndef)) (\<lambda>a.
         bind_result (stableStringify P (JObj (attempt_object attempt))) (\<lambda>b.
           if a \<noteq> b then Inr False else rows_agree P m rows)))"

definition assertIntegrity :: "platform \<Rightarrow> effect_db \<Rightarrow> unit result" where
  "assertIntegrity P db =
     bind_result (verifyGelRecords P (db_gel db)) (\<lambda>v.
       if \<not> gv_ok v then Inl (EffectError (''EFFECT_LEDGER_INVALID: '' @ the_default [] (gv_failure v)))
       else bind_result (latest_attempts (db_gel db) []) (\<lambda>latest.
         if length latest \<noteq> length (db_attempts db) then Inl (EffectError ''EFFECT_STATE_LEDGER_MISMATCH'')
         else bind_result (rows_agree P latest (db_attempts db)) (\<lambda>ok.
           if ok then Inr () else Inl (EffectError ''EFFECT_STATE_LEDGER_MISMATCH''))))"

text \<open>Opening a store on an existing database: the constructor closes it and throws when the check fails.\<close>

definition open_store :: "platform \<Rightarrow> effect_db \<Rightarrow> effect_db result" where
  "open_store P db = bind_result (assertIntegrity P db) (\<lambda>_. Inr db)"

end
