(* ===== verification/Effect_Store.thy ===== *)
theory Effect_Store
  imports Effects
begin

text \<open>
  Every database the effect store can reach.  The store refines a small ownership discipline
  (an operation has at most one attempt that may still have an effect), its rows are the projection of
  its event ledger, the ledger verifies, and an attempt that is not settled can be settled.
\<close>

section \<open>Reachable databases\<close>

inductive effect_step :: "platform \<Rightarrow> effect_config \<Rightarrow> effect_db \<Rightarrow> effect_db \<Rightarrow> bool" for P cfg where
  step_begin: "begin_effect P cfg wall uuid input db = Inr (a, db') \<Longrightarrow> effect_step P cfg db db'"
| step_unknown: "markUnknown P cfg event_id attemptId now db = Inr (a, db') \<Longrightarrow> effect_step P cfg db db'"
| step_reconcile: "reconcile_effect P cfg wall event_id observation opts db = Inr (a, db') \<Longrightarrow> effect_step P cfg db db'"
| step_open: "open_store P db = Inr db' \<Longrightarrow> effect_step P cfg db db'"

inductive effect_reachable :: "platform \<Rightarrow> effect_config \<Rightarrow> effect_db \<Rightarrow> bool" for P cfg where
  reach_empty: "effect_reachable P cfg empty_db"
| reach_step: "effect_reachable P cfg db \<Longrightarrow> effect_step P cfg db db' \<Longrightarrow> effect_reachable P cfg db'"

section \<open>The ledger of events\<close>

abbreviation row_attempt :: "effect_row \<Rightarrow> EffectAttempt" where
  "row_attempt r \<equiv> st_attempt (er_json r)"

abbreviation row_state :: "effect_row \<Rightarrow> EffectState" where
  "row_state r \<equiv> ea_state (row_attempt r)"

lemma clone_same_strings: "distinct (map fst r) \<Longrightarrow> same_strings r (clone_object r)"
  by (simp add: same_strings_def obj_get_clone)

lemma effect_tip_chain: "effect_tip db = chain_tip (db_gel db)"
proof (cases "db_gel db" rule: rev_cases)
  case (snoc rs r)
  then show ?thesis by (simp add: effect_tip_def effect_tail_def chain_tip_def list.case_eq_if)
qed (simp add: effect_tip_def effect_tail_def chain_tip_def)

interpretation effect_gel: append_ledger "SqliteEffectStore P" "\<lambda>_. True" for P
  by unfold_locales (auto simp: SqliteEffectStore_def effect_tip_chain effect_persist_def intro!: clone_same_strings)

lemma event_Inr:
  assumes "event P cfg event_id stored observation db = Inr db'"
  obtains r where "buildGelRecord P [] (chain_tip (db_gel db)) (event_input cfg event_id stored observation) = Inr r"
    "db' = db \<lparr> db_gel := db_gel db @ [clone_object r] \<rparr>"
  using assms by (auto simp: event_def ledger_append_def SqliteEffectStore_def effect_persist_def effect_tip_chain)

lemma event_tables:
  assumes "event P cfg event_id stored observation db = Inr db'"
  shows "db_attempts db' = db_attempts db" "db_observations db' = db_observations db"
  by (rule event_Inr[OF assms], simp)+

section \<open>What each operation does to the rows\<close>

lemma clone_stored_attempt [simp]: "st_attempt (clone_stored s) = st_attempt s"
  by (simp add: clone_stored_def)

lemma load_Inr: "load i db = Inr s \<Longrightarrow> \<exists>r \<in> set (db_attempts db). er_attempt_id r = i \<and> er_json r = s"
  by (auto simp: load_def find_Some_iff split: option.splits)

lemma latest_in_scope_None: "latest_in_scope sc db = None \<longleftrightarrow> (\<forall>r \<in> set (db_attempts db). er_scope r \<noteq> sc)"
  by (auto simp: latest_in_scope_def find_None_iff)

text \<open>The row \<open>begin\<close> inserts, and the guards that let it.\<close>

definition fresh_row :: "effect_row \<Rightarrow> effect_db \<Rightarrow> bool" where
  "fresh_row row db \<longleftrightarrow> (\<forall>r \<in> set (db_attempts db).
     er_attempt_id r \<noteq> er_attempt_id row \<and> er_warrant_id r \<noteq> er_warrant_id row \<and> er_nonce r \<noteq> er_nonce row)"

definition scope_free :: "string \<Rightarrow> effect_db \<Rightarrow> bool" where
  "scope_free sc db \<longleftrightarrow> (case latest_in_scope sc db of None \<Rightarrow> True | Some r \<Rightarrow> row_state r = CONFIRMED_NO_EFFECT)"

text \<open>The context of a stored attempt carries no register snapshot and no physical verdict.\<close>

definition event_context :: "Stored \<Rightarrow> bool" where
  "event_context stored \<longleftrightarrow> cg_runtime_register_snapshot (cx_decision (st_context stored)) = [] \<and>
     cg_physical_invariant_result (cx_decision (st_context stored)) = None"

lemma begin_context_event: "event_context \<lparr> st_attempt = a, st_context = begin_context h input \<rparr>"
  by (simp add: event_context_def begin_context_def Let_def)

definition begun_from :: "platform \<Rightarrow> BeginInput \<Rightarrow> Stored \<Rightarrow> bool" where
  "begun_from P input stored \<longleftrightarrow> (\<exists>now h oper u fp. date_parse P now \<noteq> None \<and>
     stored = \<lparr> st_attempt = begin_attempt now h oper u fp input, st_context = begin_context h input \<rparr>)"

lemma begun_from_context: "begun_from P input stored \<Longrightarrow> event_context stored"
  by (auto simp: begun_from_def begin_context_event)

lemma begin_Inr:
  assumes "begin_effect P cfg wall uuid input db = Inr (a, db')"
  obtains row db1 db2 stored where
    "fresh_row row db" "scope_free (er_scope row) db" "row_attempt row = a" "ea_state a = IN_FLIGHT"
    "er_attempt_id row = uuid 0" "eb_attempt_id a = uuid 0" "er_warrant_id row = eb_warrant_id a"
    "operation_scope P (eb_ward_id a) (eb_subject a) (eb_operation_id a) = Inr (er_scope row)"
    "wr_nonce (bi_warrant input) = Some (er_nonce row)"
    "st_attempt stored = a \<lparr> ea_state := AUTHORIZED \<rparr>" "begun_from P input stored"
    "db1 = db \<lparr> db_attempts := db_attempts db @ [row \<lparr> er_json := clone_stored stored \<rparr>] \<rparr>"
    "event P cfg (uuid 1) stored None db1 = Inr db2"
    "event P cfg (uuid 2) (stored \<lparr> st_attempt := a \<rparr>) None (update_row (uuid 0) (stored \<lparr> st_attempt := a \<rparr>) db2) = Inr db'"
    "db_attempts db' = db_attempts db @ [row]"
proof -
  let ?now = "case bi_now input of Some t \<Rightarrow> t | None \<Rightarrow> wall"
  from assms obtain h oper sc fp db1 db2 where
    c: "check_begin P cfg ?now input = Inr h"
    and sc: "operation_scope P (act_ward_id (bi_action input)) (act_subject (bi_action input)) oper = Inr sc"
    and free: "\<not> (case latest_in_scope sc db of None \<Rightarrow> False
                  | Some previous \<Rightarrow> ea_state (st_attempt (er_json previous)) \<noteq> CONFIRMED_NO_EFFECT)"
    and ins: "insert_row \<lparr> er_attempt_id = uuid 0, er_warrant_id = wr_warrant_id (bi_warrant input),
        er_nonce = the_default [] (wr_nonce (bi_warrant input)), er_scope = sc,
        er_json = clone_stored \<lparr> st_attempt = begin_attempt ?now h oper (uuid 0) fp input, st_context = begin_context h input \<rparr> \<rparr> db = Inr db1"
    and e1: "event P cfg (uuid 1) \<lparr> st_attempt = begin_attempt ?now h oper (uuid 0) fp input, st_context = begin_context h input \<rparr> None db1 = Inr db2"
    and e2: "event P cfg (uuid 2) \<lparr> st_attempt = begin_attempt ?now h oper (uuid 0) fp input \<lparr> ea_state := IN_FLIGHT \<rparr>, st_context = begin_context h input \<rparr> None
       (update_row (uuid 0) \<lparr> st_attempt = begin_attempt ?now h oper (uuid 0) fp input \<lparr> ea_state := IN_FLIGHT \<rparr>, st_context = begin_context h input \<rparr> db2) = Inr db'"
    and a: "a = begin_attempt ?now h oper (uuid 0) fp input \<lparr> ea_state := IN_FLIGHT \<rparr>"
    by (auto simp: begin_effect_def Let_def begin_attempt_def split: if_splits)
  define stored where "stored = \<lparr> st_attempt = begin_attempt ?now h oper (uuid 0) fp input, st_context = begin_context h input \<rparr>"
  define row where "row = \<lparr> er_attempt_id = uuid 0, er_warrant_id = wr_warrant_id (bi_warrant input),
        er_nonce = the_default [] (wr_nonce (bi_warrant input)), er_scope = sc, er_json = clone_stored (stored \<lparr> st_attempt := a \<rparr>) \<rparr>"
  from c obtain n where n: "wr_nonce (bi_warrant input) = Some n" and "date_parse P ?now \<noteq> None"
    by (auto simp: check_begin_def Let_def split: if_splits option.splits)
  then have begun: "begun_from P input stored" unfolding begun_from_def stored_def by blast
  have fresh: "fresh_row row db" and db1: "db1 = db \<lparr> db_attempts := db_attempts db @ [row \<lparr> er_json := clone_stored stored \<rparr>] \<rparr>"
    using ins by (auto simp: insert_row_def row_def stored_def fresh_row_def list_ex_iff split: if_splits)
  have ids: "er_attempt_id r \<noteq> uuid 0" if "r \<in> set (db_attempts db)" for r
    using fresh that by (auto simp: fresh_row_def row_def)
  have "db_attempts db' = db_attempts (update_row (uuid 0) (stored \<lparr> st_attempt := a \<rparr>) db2)"
    using event_tables(1)[OF e2] by (simp add: stored_def a)
  also have "\<dots> = db_attempts db @ [row]"
    using ids event_tables(1)[OF e1] by (auto simp: db1 update_row_def row_def intro!: map_idI)
  finally have rows: "db_attempts db' = db_attempts db @ [row]" .
  show thesis
    by (rule that[of row stored db1 db2])
      (use fresh free n sc db1 e1 e2 rows begun in
        \<open>simp_all add: stored_def row_def a begin_attempt_def scope_free_def the_default_def split: option.splits\<close>)
qed

text \<open>The changes of state an attempt can make.\<close>

fun may_become :: "EffectState \<Rightarrow> EffectState \<Rightarrow> bool" where
  "may_become IN_FLIGHT s = (s = EFFECT_UNKNOWN \<or> s = CONFIRMED_EFFECT)"
| "may_become EFFECT_UNKNOWN s = (s = EFFECT_UNKNOWN \<or> s = CONFIRMED_EFFECT \<or> s = CONFIRMED_NO_EFFECT)"
| "may_become _ s = False"

text \<open>One attempt of the store changes its state and its time stamp, and nothing else.\<close>

definition attempt_change :: "string \<Rightarrow> Stored \<Rightarrow> EffectState \<Rightarrow> iso_time \<Rightarrow> Stored" where
  "attempt_change i stored s now = stored \<lparr> st_attempt := (st_attempt stored) \<lparr> ea_state := s, ea_updated_at := now \<rparr> \<rparr>"

lemma markUnknown_Inr:
  assumes "markUnknown P cfg eid i now db = Inr (a, db')"
  obtains "db' = db" "get_attempt i db = Inr a"
  | stored where "load i db = Inr stored" "ea_state (st_attempt stored) = IN_FLIGHT"
    "a = st_attempt (attempt_change i stored EFFECT_UNKNOWN now)"
    "event P cfg eid (attempt_change i stored EFFECT_UNKNOWN now) None
       (update_row i (attempt_change i stored EFFECT_UNKNOWN now) db) = Inr db'"
  using assms by (auto simp: markUnknown_def Let_def attempt_change_def get_attempt_def split: if_splits)

lemma outcome_state_Some: "outcome_state o' = Some s \<Longrightarrow> effect_state_name s = o' \<and> s \<noteq> AUTHORIZED \<and> s \<noteq> IN_FLIGHT"
  by (auto simp: outcome_state_def split: if_splits)

lemma check_observation_outcome:
  assumes "check_observation P opts now obs = Inr (s, ms)"
  shows "outcome_state (eo_outcome obs) = Some s"
  using assms by (auto simp: check_observation_def Let_def split: if_splits option.splits)

lemma reconcile_Inr:
  assumes "reconcile_effect P cfg wall eid obs opts db = Inr (a, db')"
  obtains "db' = db" "get_attempt (eb_attempt_id obs) db = Inr a"
  | stored s now db1 ms where "load (eb_attempt_id obs) db = Inr stored" "may_become (ea_state (st_attempt stored)) s \<or> ea_state (st_attempt stored) = AUTHORIZED"
    "eo_outcome obs = effect_state_name s" "s \<noteq> AUTHORIZED" "s \<noteq> IN_FLIGHT"
    "binding_mismatch obs (st_attempt stored) = None"
    "a = st_attempt (attempt_change (eb_attempt_id obs) stored s now)"
    "db_attempts db1 = db_attempts db" "db_gel db1 = db_gel db"
    "event P cfg eid (attempt_change (eb_attempt_id obs) stored s now) (Some obs)
       (update_row (eb_attempt_id obs) (attempt_change (eb_attempt_id obs) stored s now) db1) = Inr db'"
    "check_observation P opts now obs = Inr (s, ms)" "\<not> nan_less (Some ms) (date_parse P (ea_started_at (st_attempt stored)))"
    "\<not> (ea_state (st_attempt stored) = IN_FLIGHT \<and> s = CONFIRMED_NO_EFFECT)"
proof -
  define now where "now = (case ro_now opts of Some t \<Rightarrow> t | None \<Rightarrow> wall)"
  from assms obtain s ms stored where c: "check_observation P opts now obs = Inr (s, ms)"
    and l: "load (eb_attempt_id obs) db = Inr stored"
    by (auto simp: reconcile_effect_def Let_def now_def)
  note s = outcome_state_Some[OF check_observation_outcome[OF c]]
  have guard: "may_become (ea_state (st_attempt stored)) s \<or> ea_state (st_attempt stored) = AUTHORIZED"
    if "\<not> terminal (ea_state (st_attempt stored))" "\<not> (ea_state (st_attempt stored) = IN_FLIGHT \<and> s = CONFIRMED_NO_EFFECT)"
    using that s by (cases "ea_state (st_attempt stored)"; cases s) (auto simp: terminal_def)
  show thesis
  proof (cases "map_of (db_observations db) (eo_observation_id obs)")
    case None
    with assms c l obtain material where bm: "binding_mismatch obs (st_attempt stored) = None"
      and nt: "\<not> terminal (ea_state (st_attempt stored))" "\<not> (ea_state (st_attempt stored) = IN_FLIGHT \<and> s = CONFIRMED_NO_EFFECT)"
      and a: "a = st_attempt (attempt_change (eb_attempt_id obs) stored s now)"
      and started: "\<not> nan_less (Some ms) (date_parse P (ea_started_at (st_attempt stored)))"
      and e: "event P cfg eid (attempt_change (eb_attempt_id obs) stored s now) (Some obs)
        (update_row (eb_attempt_id obs) (attempt_change (eb_attempt_id obs) stored s now)
          (db \<lparr> db_observations := map_set (eo_observation_id obs) material (db_observations db) \<rparr>)) = Inr db'"
      by (auto simp: reconcile_effect_def Let_def now_def[symmetric] attempt_change_def split: if_splits option.splits)
    show thesis
      by (rule that(2)[OF l guard[OF nt] _ _ _ bm a _ _ e c started nt(2)]) (use s in auto)
  next
    case (Some prev)
    with assms c l that(1) show thesis
      by (auto simp: reconcile_effect_def Let_def now_def[symmetric] get_attempt_def split: if_splits option.splits)
  qed
qed

section \<open>The ownership discipline\<close>

text \<open>
  The abstract state is the sequence of attempts, each an operation of a subject in a ward with its
  state.  An operation is started only when no attempt of it can still have an effect, and an attempt
  changes its state only forward.
\<close>

type_synonym operation_key = "string \<times> string \<times> string"

inductive own_step :: "(operation_key \<times> EffectState) list \<Rightarrow> (operation_key \<times> EffectState) list \<Rightarrow> bool" where
  own_start: "\<forall>s. (k, s) \<in> set xs \<longrightarrow> s = CONFIRMED_NO_EFFECT \<Longrightarrow> own_step xs (xs @ [(k, IN_FLIGHT)])"
| own_change: "i < length xs \<Longrightarrow> xs ! i = (k, s) \<Longrightarrow> may_become s s' \<Longrightarrow> own_step xs (xs[i := (k, s')])"

inductive_cases own_stepE: "own_step xs ys"

definition single_owner :: "(operation_key \<times> EffectState) list \<Rightarrow> bool" where
  "single_owner xs \<longleftrightarrow> sorted_wrt (\<lambda>x y. fst x = fst y \<longrightarrow> snd x = CONFIRMED_NO_EFFECT) xs"

lemma single_owner_nth:
  "single_owner xs \<longleftrightarrow> (\<forall>i j. i < j \<longrightarrow> j < length xs \<longrightarrow> fst (xs ! i) = fst (xs ! j) \<longrightarrow> snd (xs ! i) = CONFIRMED_NO_EFFECT)"
  by (auto simp: single_owner_def sorted_wrt_iff_nth_less)

lemma own_step_single_owner:
  assumes "own_step xs ys" "single_owner xs"
  shows "single_owner ys"
  using assms(1)
proof cases
  case (own_start k)
  with assms(2) show ?thesis by (auto simp: single_owner_def sorted_wrt_append)
next
  case (own_change i k s s')
  have "s \<noteq> CONFIRMED_NO_EFFECT" using own_change(4) by (cases s) auto
  then have "fst (ys ! j) = fst (xs ! j)" "snd (xs ! j) = CONFIRMED_NO_EFFECT \<Longrightarrow> snd (ys ! j) = CONFIRMED_NO_EFFECT"
    if "j < length xs" for j
    using own_change that by (auto simp: nth_list_update)
  with assms(2) show ?thesis by (simp add: single_owner_nth own_change(1))
qed

definition attempt_key :: "'a EffectBinding_scheme \<Rightarrow> operation_key" where
  "attempt_key b = (eb_ward_id b, eb_subject b, eb_operation_id b)"

definition ownership :: "effect_db \<Rightarrow> (operation_key \<times> EffectState) list" where
  "ownership db = map (\<lambda>r. (attempt_key (row_attempt r), row_state r)) (db_attempts db)"

section \<open>The rows\<close>

text \<open>A scope names one operation of one subject in one ward.\<close>

lemma operation_scope_total: "\<exists>sc. operation_scope P w s o' = Inr sc"
  by (simp add: operation_scope_def stableStringify_def)

lemma operation_scope_inj:
  assumes "operation_scope P w s o' = Inr sc" "operation_scope P w2 s2 o2 = Inr sc"
  shows "w = w2 \<and> s = s2 \<and> o' = o2"
proof -
  have "printable P (JArr [JStr a, JStr b, JStr c])" for a b c
    by (simp add: printable_def)
  from printable_text_eq[OF this this, of w s o' sc w2 s2 o2] assms show ?thesis
    by (simp add: operation_scope_def)
qed

definition row_ok :: "platform \<Rightarrow> effect_row \<Rightarrow> bool" where
  "row_ok P r \<longleftrightarrow> er_attempt_id r = eb_attempt_id (row_attempt r) \<and> er_warrant_id r = eb_warrant_id (row_attempt r) \<and>
     operation_scope P (eb_ward_id (row_attempt r)) (eb_subject (row_attempt r)) (eb_operation_id (row_attempt r)) = Inr (er_scope r) \<and>
     row_state r \<noteq> AUTHORIZED"

definition rows_ok :: "platform \<Rightarrow> effect_db \<Rightarrow> bool" where
  "rows_ok P db \<longleftrightarrow> distinct (map er_attempt_id (db_attempts db)) \<and> distinct (map er_warrant_id (db_attempts db)) \<and>
     distinct (map er_nonce (db_attempts db)) \<and> list_all (row_ok P) (db_attempts db) \<and> single_owner (ownership db)"

lemma row_scope_key:
  assumes "row_ok P r" "row_ok P r'"
  shows "er_scope r = er_scope r' \<longleftrightarrow> attempt_key (row_attempt r) = attempt_key (row_attempt r')"
proof
  assume "er_scope r = er_scope r'"
  with assms operation_scope_inj show "attempt_key (row_attempt r) = attempt_key (row_attempt r')"
    unfolding row_ok_def attempt_key_def by fastforce
qed (use assms in \<open>simp add: row_ok_def attempt_key_def\<close>)

lemma find_split: "find Q xs = Some x \<Longrightarrow> \<exists>ys zs. xs = ys @ x # zs \<and> Q x \<and> (\<forall>y \<in> set ys. \<not> Q y)"
proof (induction xs)
  case (Cons y xs)
  show ?case
  proof (cases "Q y")
    case True
    with Cons.prems show ?thesis by (intro exI[of _ "[]"] exI[of _ xs]) auto
  next
    case False
    with Cons obtain ys zs where "xs = ys @ x # zs" "Q x" "\<forall>y \<in> set ys. \<not> Q y" by auto
    with False show ?thesis by (intro exI[of _ "y # ys"] exI[of _ zs]) auto
  qed
qed simp

lemma find_rev_last:
  assumes "find Q (rev xs) = Some x"
  obtains ys zs where "xs = ys @ x # zs" "Q x" "\<forall>z \<in> set zs. \<not> Q z"
proof -
  from find_split[OF assms] obtain ys zs where "rev xs = ys @ x # zs" "Q x" "\<forall>y \<in> set ys. \<not> Q y"
    by blast
  then have "xs = rev zs @ x # rev ys" by (simp add: rev_swap)
  with that \<open>Q x\<close> \<open>\<forall>y \<in> set ys. \<not> Q y\<close> show thesis by simp
qed

text \<open>Nothing of an operation can still have an effect once its latest attempt is settled without one.\<close>

lemma scope_free_settled:
  assumes "rows_ok P db" "scope_free sc db" "r \<in> set (db_attempts db)" "er_scope r = sc"
  shows "row_state r = CONFIRMED_NO_EFFECT"
proof -
  have "latest_in_scope sc db \<noteq> None" using assms(3,4) by (auto simp: latest_in_scope_None)
  then obtain l where l: "find (\<lambda>r. er_scope r = sc) (rev (db_attempts db)) = Some l" "row_state l = CONFIRMED_NO_EFFECT"
    using assms(2) by (auto simp: scope_free_def latest_in_scope_def)
  then obtain ys zs where d: "db_attempts db = ys @ l # zs" "er_scope l = sc" "\<forall>z \<in> set zs. er_scope z \<noteq> sc"
    using find_rev_last[OF l(1)] by metis
  have ok: "row_ok P x" if "x \<in> set (db_attempts db)" for x
    using assms(1) that by (auto simp: rows_ok_def list_all_iff)
  have "row_state x = CONFIRMED_NO_EFFECT" if "x \<in> set ys" "er_scope x = sc" for x
    using assms(1) that d row_scope_key[OF ok ok, of x l]
    by (auto simp: rows_ok_def single_owner_def ownership_def sorted_wrt_append sorted_wrt_map)
  with assms(3,4) d l(2) show ?thesis by auto
qed

lemma update_change:
  assumes "rows_ok P db" "load i db = Inr stored" "ea_state (st_attempt stored) \<noteq> AUTHORIZED \<Longrightarrow> may_become (ea_state (st_attempt stored)) s"
    and "s \<noteq> AUTHORIZED" "db_attempts db' = db_attempts (update_row i (attempt_change i stored s now) db)"
  shows "own_step (ownership db) (ownership db') \<and> rows_ok P db'"
proof -
  obtain r where r: "r \<in> set (db_attempts db)" "er_attempt_id r = i" "er_json r = stored"
    using load_Inr[OF assms(2)] by blast
  then obtain n where n: "n < length (db_attempts db)" "db_attempts db ! n = r" by (auto simp: in_set_conv_nth)
  have ok: "row_ok P r" using assms(1) r(1) by (auto simp: rows_ok_def list_all_iff)
  let ?r = "r \<lparr> er_json := clone_stored (attempt_change i stored s now) \<rparr>"
  have only: "er_attempt_id (db_attempts db ! m) = i \<longleftrightarrow> m = n" if "m < length (db_attempts db)" for m
    using assms(1) that n r(2) by (auto simp: rows_ok_def distinct_map distinct_conv_nth nth_eq_iff_index_eq)
  have rows: "db_attempts db' = (db_attempts db)[n := ?r]"
    unfolding assms(5) update_row_def using only n
    by (intro nth_equalityI) (auto simp: nth_list_update)
  have key: "attempt_key (row_attempt ?r) = attempt_key (row_attempt r)" "row_state ?r = s"
    by (simp_all add: attempt_change_def attempt_key_def r(3))
  have own: "ownership db' = (ownership db)[n := (attempt_key (row_attempt r), s)]"
    using key by (simp add: ownership_def rows map_update)
  have step: "own_step (ownership db) (ownership db')"
    unfolding own
    by (rule own_change[where s = "row_state r"])
      (use n ok assms(3) r(3) in \<open>auto simp: ownership_def row_ok_def\<close>)
  have ids: "map f (db_attempts db') = map f (db_attempts db)" if "f ?r = f r" for f :: "effect_row \<Rightarrow> string"
    using that n by (simp add: rows map_update list_update_same_conv)
  have "row_ok P ?r" using ok assms(4) r(3) by (auto simp: row_ok_def attempt_change_def)
  then have "list_all (row_ok P) (db_attempts db')"
    using assms(1) by (auto simp: rows rows_ok_def list_all_iff dest!: set_update_subset_insert[THEN subsetD])
  with step ids[of er_attempt_id] ids[of er_warrant_id] ids[of er_nonce] assms(1) own_step_single_owner[OF step]
  show ?thesis by (simp add: rows_ok_def)
qed

lemma begin_change:
  assumes "rows_ok P db" "begin_effect P cfg wall uuid input db = Inr (a, db')"
  shows "own_step (ownership db) (ownership db') \<and> rows_ok P db'"
proof -
  obtain row where row: "fresh_row row db" "scope_free (er_scope row) db" "row_attempt row = a" "ea_state a = IN_FLIGHT"
    "er_attempt_id row = eb_attempt_id a" "er_warrant_id row = eb_warrant_id a"
    "operation_scope P (eb_ward_id a) (eb_subject a) (eb_operation_id a) = Inr (er_scope row)"
    "db_attempts db' = db_attempts db @ [row]"
    using begin_Inr[OF assms(2)] by metis
  have ok: "row_ok P row" using row by (simp add: row_ok_def)
  have own: "ownership db' = ownership db @ [(attempt_key a, IN_FLIGHT)]"
    using row by (simp add: ownership_def)
  have "s = CONFIRMED_NO_EFFECT" if "(attempt_key a, s) \<in> set (ownership db)" for s
  proof -
    from that obtain r where r: "r \<in> set (db_attempts db)" "attempt_key (row_attempt r) = attempt_key a" "row_state r = s"
      by (auto simp: ownership_def)
    then have "row_ok P r" using assms(1) by (auto simp: rows_ok_def list_all_iff)
    then have "er_scope r = er_scope row" using row_scope_key[OF _ ok] r(2) row(3) by simp
    with scope_free_settled[OF assms(1) row(2) r(1)] r(3) show ?thesis by simp
  qed
  then have step: "own_step (ownership db) (ownership db')" unfolding own by (intro own_start) blast
  with own_step_single_owner[OF step] assms(1) row(1,8) ok show ?thesis
    by (auto simp: rows_ok_def fresh_row_def)
qed

text \<open>Every operation either leaves the attempts as they are or makes one step of the discipline.\<close>

lemma step_ownership:
  assumes "effect_step P cfg db db'" "rows_ok P db"
  shows "(db' = db \<or> own_step (ownership db) (ownership db')) \<and> rows_ok P db'"
  using assms(1)
proof cases
  case (step_begin wall uuid input a)
  then show ?thesis using begin_change[OF assms(2)] by blast
next
  case (step_unknown eid i now a)
  then show ?thesis
  proof (cases rule: markUnknown_Inr)
    case (2 stored)
    with update_change[OF assms(2) 2(1), of EFFECT_UNKNOWN db' now] show ?thesis
      by (simp add: event_tables(1)[OF 2(4)])
  qed (use assms(2) in simp)
next
  case (step_reconcile wall eid obs opts a)
  then show ?thesis
  proof (cases rule: reconcile_Inr)
    case (2 stored s now db1 ms)
    with update_change[OF assms(2) 2(1), of s db' now] show ?thesis
      by (auto simp: event_tables(1)[OF 2(10)] update_row_def)
  qed (use assms(2) in simp)
next
  case step_open
  with assms(2) show ?thesis by (simp add: open_store_def)
qed

lemma reachable_rows: "effect_reachable P cfg db \<Longrightarrow> rows_ok P db"
proof (induction rule: effect_reachable.induct)
  case reach_empty
  then show ?case by (simp add: rows_ok_def empty_db_def ownership_def single_owner_def)
qed (use step_ownership in blast)

section \<open>The rows are the projection of the ledger\<close>

text \<open>
  What the ledger relies on: a sound signer, whose signatures are not the empty string.
\<close>

definition effect_signing :: "platform \<Rightarrow> effect_config \<Rightarrow> bool" where
  "effect_signing P cfg \<longleftrightarrow> sound_signer P (ec_signer cfg) \<and> (\<forall>m. sg_sign (ec_signer cfg) m \<noteq> [])"

lemma index_key_letter: "is_array_index (c # k) \<Longrightarrow> is_digit c"
  by (simp add: is_array_index_def)

lemma binding_solid: "list_all (\<lambda>e. \<not> is_array_index (fst e) \<and> solid_json (snd e)) (binding_fields b)"
  by (auto simp: binding_fields_def is_digit_def dest!: index_key_letter)

lemma attempt_solid: "solid_json (JObj (attempt_object a))"
  using binding_solid[of a] by (auto simp: attempt_object_def is_digit_def dest!: index_key_letter)

lemma observation_solid: "solid_json (JObj (observation_object o'))"
  using binding_solid[of o'] by (auto simp: observation_object_def is_digit_def dest!: index_key_letter)

lemma event_solid: "solid_json (effect_event i a o')"
  using attempt_solid[of a] observation_solid
  by (auto simp: effect_event_def is_digit_def dest!: index_key_letter split: option.split)

lemma binding_plain: "distinct (map fst (binding_fields b))" "list_all (\<lambda>e. plain_json (snd e)) (binding_fields b)"
  by (simp_all add: binding_fields_def)

lemma plain_entries:
  "solid_json (JObj es) \<Longrightarrow> list_all (\<lambda>e. plain_json (snd e)) es \<Longrightarrow> distinct (map fst es) \<Longrightarrow> plain_json (JObj es)"
  by (simp add: list_all_iff)

lemma attempt_plain: "plain_json (JObj (attempt_object a))"
  by (rule plain_entries[OF attempt_solid]) (simp_all add: attempt_object_def binding_fields_def)

lemma observation_plain: "plain_json (JObj (observation_object o'))"
  by (rule plain_entries[OF observation_solid]) (simp_all add: observation_object_def binding_fields_def)

lemma event_plain: "plain_json (effect_event i a o')"
  using attempt_plain[of a] observation_plain event_solid[of i a o']
  unfolding effect_event_def by (intro plain_entries) (auto split: option.splits)

lemma plain_obj_get: "plain_json (JObj r) \<Longrightarrow> plain_json (obj_get r k)"
  by (auto simp: obj_get_def list_all_iff dest!: map_of_SomeD split: option.split)

lemma truthy_clone: "plain_json v \<Longrightarrow> truthy (json_clone v) = truthy v"
  by (cases v) auto

lemma as_string_clone: "as_string (json_clone v) = as_string v"
  by (cases v) auto

lemma clone_record_ok:
  assumes "record_ok P (JStr prev) r" "plain_json (JObj r)"
  shows "record_ok P (JStr prev) (clone_object r)"
proof -
  have d: "distinct (map fst r)" and plain: "list_all (\<lambda>e. \<not> is_array_index (fst e)) r"
    using assms(2) by (auto simp: list_all_iff)
  note get = obj_get_clone[OF d]
  have "gel_material (clone_object r) = clone_object (gel_material r)"
    using plain by (subst (1 2) clone_plain_obj) (auto simp: list_all_iff gel_material_def filter_map o_def conj_commute)
  moreover have "plain_json (JObj (gel_material r))"
    using assms(2) by (auto simp: gel_material_def list_all_iff distinct_map_filter)
  ultimately have "stableStringify P (JObj (gel_material (clone_object r))) = stableStringify P (JObj (gel_material r))"
    using stringify_clone[of "JObj (gel_material r)" P] by (simp add: clone_object_def)
  moreover have "record_signature_ok P (clone_object r) = record_signature_ok P r"
    by (simp add: record_signature_ok_def get as_string_clone truthy_clone plain_obj_get[OF assms(2)])
  ultimately show ?thesis
    using assms(1) by (simp add: record_ok_def get truthy_clone plain_obj_get[OF assms(2)])
qed

lemma built_event_fields:
  assumes "buildGelRecord P wall prev (event_input cfg i stored o') = Inr r"
  shows "obj_get r ''effect_event'' = effect_event i (st_attempt stored) o'"
    and "\<exists>h. obj_get r ''signature'' = JStr (sg_sign (ec_signer cfg) h)"
proof -
  obtain j printed where r: "r = gel_base (gel_timestamp wall (event_input cfg i stored o')) j prev (event_input cfg i stored o')
      @ [(''record_hash'', JStr (sha256_hex P printed))] @ sign_fields (bg_signer (event_input cfg i stored o')) (sha256_hex P printed)"
    using buildGelRecord_Inr[OF assms] by metis
  show "obj_get r ''effect_event'' = effect_event i (st_attempt stored) o'"
    by (simp add: r gel_base_def event_input_def js_simps)
  show "\<exists>h. obj_get r ''signature'' = JStr (sg_sign (ec_signer cfg) h)"
    by (simp add: r gel_base_def event_input_def sign_fields_def js_simps) blast
qed

lemma built_event_plain:
  assumes "buildGelRecord P wall (JStr prev) (event_input cfg i stored o') = Inr r"
    and "cg_runtime_register_snapshot (cx_decision (st_context stored)) = []"
    and "cg_physical_invariant_result (cx_decision (st_context stored)) = None"
  shows "plain_json (JObj r)"
proof -
  obtain j printed where r: "r = gel_base (gel_timestamp wall (event_input cfg i stored o')) j (JStr prev) (event_input cfg i stored o')
      @ [(''record_hash'', JStr (sha256_hex P printed))] @ sign_fields (bg_signer (event_input cfg i stored o')) (sha256_hex P printed)"
    using buildGelRecord_Inr[OF assms(1)] by metis
  have opt: "plain_json (opt_json JStr x)" for x by (cases x) auto
  have codes: "plain_json (JArr (map (\<lambda>c. JStr (reason_name c)) cs))" for cs by (simp add: list_all_iff)
  have keys: "\<not> is_array_index k" if "k \<in> set (map fst r)" for k
    using that by (auto simp: r gel_base_def sign_fields_def event_input_def is_digit_def dest!: index_key_letter)
  have vals: "list_all (\<lambda>e. plain_json (snd e)) r"
    using event_plain[of i "st_attempt stored" o'] opt codes
    by (simp add: r gel_base_def sign_fields_def event_input_def assms(2,3) del: plain_json.simps(1))
  with keys built_keys_distinct[OF assms(1)] show ?thesis by (auto simp: list_all_iff)
qed

lemma latest_attempts_append:
  "latest_attempts (rs @ qs) m = bind_result (latest_attempts rs m) (latest_attempts qs)"
  by (induction rs m rule: latest_attempts.induct) auto

lemma attempt_object_id: "js_get (JObj (attempt_object a)) ''attempt_id'' = JStr (eb_attempt_id a)"
  by (simp add: attempt_object_def binding_fields_def js_simps)

lemma event_log:
  assumes sig: "effect_signing P cfg" and ok: "chain_ok P (db_gel db)" and cx: "event_context stored"
    and latest: "latest_attempts (db_gel db) [] = Inr m"
    and e: "event P cfg i stored o' db = Inr db'"
  shows "chain_ok P (db_gel db') \<and>
    latest_attempts (db_gel db') [] = Inr (map_set (JStr (eb_attempt_id (st_attempt stored))) (JObj (attempt_object (st_attempt stored))) m)"
proof -
  obtain r where r: "buildGelRecord P [] (chain_tip (db_gel db)) (event_input cfg i stored o') = Inr r"
    and db': "db' = db \<lparr> db_gel := db_gel db @ [clone_object r] \<rparr>"
    using event_Inr[OF e] by metis
  have link: "linked P (JStr GENESIS_HASH) (db_gel db)" using ok by (simp add: chain_ok_linked)
  then obtain p where p: "chain_tip (db_gel db) = JStr p"
    using linked_tip_JStr chain_tip_linked by metis
  have plain: "plain_json (JObj r)"
    using built_event_plain[of P "[]" p] r cx by (simp add: p event_context_def)
  have "record_ok P (JStr p) r"
    using r sig by (intro built_record_ok) (auto simp: p sound_signer_opt_def event_input_def effect_signing_def)
  then have "record_ok P (JStr p) (clone_object r)" using plain by (rule clone_record_ok)
  then have "chain_ok P (db_gel db')"
    using link p chain_tip_linked[OF link] by (simp add: chain_ok_linked db' linked_snoc)
  moreover have d: "distinct (map fst r)" using plain by simp
  have ev: "obj_get (clone_object r) ''effect_event'' = effect_event i (st_attempt stored) o'"
    by (simp add: obj_get_clone[OF d] built_event_fields(1)[OF r] clone_solid event_solid)
  moreover obtain h where "obj_get (clone_object r) ''signature'' = JStr (sg_sign (ec_signer cfg) h)"
    using built_event_fields(2)[OF r] by (auto simp: obj_get_clone[OF d])
  moreover have "event_attempt (clone_object r) = JObj (attempt_object (st_attempt stored))"
    by (simp add: event_attempt_def ev) (simp add: effect_event_def js_simps)
  moreover have "truthy (effect_event i (st_attempt stored) o')" by (simp add: effect_event_def)
  ultimately show ?thesis
    using latest sig attempt_object_id by (simp add: db' latest_attempts_append effect_signing_def)
qed

definition rows_view :: "effect_row list \<Rightarrow> (json, json) jsmap" where
  "rows_view rows = map (\<lambda>r. (JStr (er_attempt_id r), JObj (attempt_object (row_attempt r)))) rows"

lemma rows_view_keys: "fst ` set (rows_view rows) = JStr ` er_attempt_id ` set rows"
  by (auto simp: rows_view_def image_image)

lemma rows_view_update:
  assumes "distinct (map er_attempt_id rows)" "i \<in> er_attempt_id ` set rows"
  shows "map_set (JStr i) (JObj (attempt_object (st_attempt stored))) (rows_view rows) =
    rows_view (map (\<lambda>r. if er_attempt_id r = i then r \<lparr> er_json := clone_stored stored \<rparr> else r) rows)"
  using assms
proof (induction rows)
  case (Cons r rows)
  show ?case
  proof (cases "er_attempt_id r = i")
    case True
    with Cons.prems(1) have "er_attempt_id r' \<noteq> i" if "r' \<in> set rows" for r'
      using that by (metis distinct.simps(2) imageI image_set list.map(2))
    with True show ?thesis by (simp add: rows_view_def)
  next
    case False
    with Cons show ?thesis by (auto simp: rows_view_def)
  qed
qed simp

definition log_ok :: "platform \<Rightarrow> effect_db \<Rightarrow> bool" where
  "log_ok P db \<longleftrightarrow> chain_ok P (db_gel db) \<and> latest_attempts (db_gel db) [] = Inr (rows_view (db_attempts db)) \<and>
     (\<forall>r \<in> set (db_attempts db). event_context (er_json r))"

lemma clone_stored_context: "event_context (clone_stored s) = event_context s"
  by (simp add: event_context_def clone_stored_def)

text \<open>Replacing the attempt of one row and appending its event keeps the projection.\<close>

lemma log_update:
  assumes sig: "effect_signing P cfg" and dist: "distinct (map er_attempt_id (db_attempts db))" and log: "log_ok P db"
    and i: "i \<in> er_attempt_id ` set (db_attempts db)" "eb_attempt_id (st_attempt stored) = i" "event_context stored"
    and e: "event P cfg eid stored o' (update_row i stored db) = Inr db'"
  shows "log_ok P db'"
proof -
  have "chain_ok P (db_gel (update_row i stored db))"
    "latest_attempts (db_gel (update_row i stored db)) [] = Inr (rows_view (db_attempts db))"
    using log by (simp_all add: log_ok_def update_row_def)
  from event_log[OF sig this(1) i(3) this(2) e]
  have "chain_ok P (db_gel db') \<and> latest_attempts (db_gel db') [] = Inr (rows_view (db_attempts db'))"
    using rows_view_update[OF dist i(1), of stored] by (simp add: i(2) event_tables(1)[OF e] update_row_def)
  moreover have "event_context (er_json r)" if "r \<in> set (db_attempts db')" for r
    using that log i(3) by (auto simp: event_tables(1)[OF e] update_row_def log_ok_def clone_stored_context split: if_splits)
  ultimately show ?thesis by (simp add: log_ok_def)
qed

text \<open>Inserting a fresh row and appending its first event keeps it too.\<close>

lemma log_first:
  assumes sig: "effect_signing P cfg" and log: "log_ok P db" and fresh: "fresh_row row db"
    and st: "eb_attempt_id (st_attempt stored) = er_attempt_id row" "event_context stored" "er_json row = clone_stored stored"
    and e: "event P cfg eid stored o' (db \<lparr> db_attempts := db_attempts db @ [row] \<rparr>) = Inr db'"
  shows "log_ok P db'"
proof -
  let ?db = "db \<lparr> db_attempts := db_attempts db @ [row] \<rparr>"
  have key: "JStr (er_attempt_id row) \<notin> fst ` set (rows_view (db_attempts db))"
    using fresh by (auto simp: rows_view_keys fresh_row_def)
  have "chain_ok P (db_gel ?db)" "latest_attempts (db_gel ?db) [] = Inr (rows_view (db_attempts db))"
    using log by (simp_all add: log_ok_def)
  from event_log[OF sig this(1) st(2) this(2) e] have "chain_ok P (db_gel db')"
    "latest_attempts (db_gel db') [] = Inr (rows_view (db_attempts db'))"
    using key st(1,3) by (simp_all add: event_tables(1)[OF e] map_set_absent) (simp add: rows_view_def)
  then show ?thesis
    using log st(2,3) by (auto simp: log_ok_def event_tables(1)[OF e] clone_stored_context)
qed

lemma log_begin:
  assumes sig: "effect_signing P cfg" and rows: "rows_ok P db" and log: "log_ok P db"
    and b: "begin_effect P cfg wall uuid input db = Inr (a, db')"
  shows "log_ok P db'"
proof -
  obtain row db1 db2 stored where f: "fresh_row row db" "er_attempt_id row = uuid 0" "eb_attempt_id a = uuid 0"
    and st: "st_attempt stored = a \<lparr> ea_state := AUTHORIZED \<rparr>" "event_context stored"
    and db1: "db1 = db \<lparr> db_attempts := db_attempts db @ [row \<lparr> er_json := clone_stored stored \<rparr>] \<rparr>"
    and e1: "event P cfg (uuid 1) stored None db1 = Inr db2"
    and e2: "event P cfg (uuid 2) (stored \<lparr> st_attempt := a \<rparr>) None (update_row (uuid 0) (stored \<lparr> st_attempt := a \<rparr>) db2) = Inr db'"
    using begin_Inr[OF b] begun_from_context by metis
  have fresh: "uuid 0 \<notin> er_attempt_id ` set (db_attempts db)"
    using f(1,2) by (auto simp: fresh_row_def)
  have "log_ok P db2"
    by (rule log_first[OF sig log, where row = "row \<lparr> er_json := clone_stored stored \<rparr>"])
      (use f st e1 db1 in \<open>simp_all add: fresh_row_def\<close>)
  then show ?thesis
  proof (rule log_update[OF sig _ _ _ _ _ e2, rotated])
    show "distinct (map er_attempt_id (db_attempts db2))"
      using rows fresh f(2) by (simp add: rows_ok_def event_tables(1)[OF e1] db1)
  qed (use f st(2) in \<open>simp_all add: event_tables(1)[OF e1] db1 event_context_def\<close>)
qed

lemma load_row:
  assumes "rows_ok P db" "log_ok P db" "load i db = Inr stored"
  shows "i \<in> er_attempt_id ` set (db_attempts db)" "eb_attempt_id (st_attempt stored) = i" "event_context stored"
  using assms load_Inr[OF assms(3)] by (auto simp: rows_ok_def row_ok_def log_ok_def list_all_iff)

lemma step_log:
  assumes sig: "effect_signing P cfg" and rows: "rows_ok P db" and log: "log_ok P db" and step: "effect_step P cfg db db'"
  shows "log_ok P db'"
proof -
  have change: "log_ok P db'"
    if l: "load i db = Inr stored" and d: "db_attempts d = db_attempts db" "db_gel d = db_gel db"
      and e: "event P cfg eid (attempt_change i stored s now) o' (update_row i (attempt_change i stored s now) d) = Inr db'"
    for i stored s now o' eid d
  proof (rule log_update[OF sig _ _ _ _ _ e])
    show "distinct (map er_attempt_id (db_attempts d))" using rows d by (simp add: rows_ok_def)
    show "log_ok P d" using log d by (simp add: log_ok_def)
  qed (use load_row[OF rows log l] d in \<open>simp_all add: attempt_change_def event_context_def\<close>)
  from step show ?thesis
  proof cases
    case step_begin
    then show ?thesis using log_begin[OF sig rows log] by blast
  next
    case step_unknown
    then show ?thesis by (cases rule: markUnknown_Inr) (use log change in auto)
  next
    case step_reconcile
    then show ?thesis
    proof (cases rule: reconcile_Inr)
      case (2 stored s now db1 ms)
      then show ?thesis by (intro change[OF 2(1) 2(8,9)])
    qed (use log in simp)
  next
    case step_open
    with log show ?thesis by (simp add: open_store_def)
  qed
qed

lemma reachable_log: "effect_reachable P cfg db \<Longrightarrow> effect_signing P cfg \<Longrightarrow> log_ok P db"
proof (induction rule: effect_reachable.induct)
  case reach_empty
  then show ?case by (simp add: log_ok_def empty_db_def rows_view_def)
qed (use step_log reachable_rows in blast)

section \<open>The store can be opened again\<close>

lemma map_of_rows_view:
  "distinct (map er_attempt_id rows) \<Longrightarrow> r \<in> set rows \<Longrightarrow>
   map_of (rows_view rows) (JStr (er_attempt_id r)) = Some (JObj (attempt_object (row_attempt r)))"
  by (intro map_of_is_SomeI)
     (auto simp: rows_view_def o_def distinct_map inj_on_def)

lemma attempt_text: "\<exists>s. stableStringify P (JObj (attempt_object a)) = Inr s"
  by (intro stringify_total) (simp add: attempt_object_def binding_fields_def)

lemma rows_agree_ok:
  assumes "\<And>r. r \<in> set rows \<Longrightarrow> map_of m (JStr (eb_attempt_id (row_attempt r))) = Some (JObj (attempt_object (row_attempt r)))"
  shows "rows_agree P m rows = Inr True"
  using assms
proof (induction rows)
  case (Cons r rows)
  obtain s where "stableStringify P (JObj (attempt_object (row_attempt r))) = Inr s" using attempt_text by blast
  with Cons show ?case by (simp add: Let_def)
qed simp

lemma integrity_ok:
  assumes "rows_ok P db" "log_ok P db"
  shows "assertIntegrity P db = Inr ()"
proof -
  obtain v where v: "verifyGelRecords P (db_gel db) = Inr v" "gv_ok v"
    using assms(2) by (auto simp: log_ok_def chain_ok_def)
  have "rows_agree P (rows_view (db_attempts db)) (db_attempts db) = Inr True"
    using assms(1) map_of_rows_view[of "db_attempts db"]
    by (intro rows_agree_ok) (metis list_all_iff row_ok_def rows_ok_def)
  with v assms(2) show ?thesis by (simp add: assertIntegrity_def log_ok_def) (simp add: rows_view_def)
qed

end
