(* ===== verification/Effect_Safety.thy ===== *)
theory Effect_Safety
  imports Effect_Store
begin

text \<open>
  The promises of the effect store: one owner per operation, a forward-only state machine whose settled
  states are final, refinement of the ownership discipline, a database that opens again after any
  history, and that an unsettled attempt can be settled.
\<close>

section \<open>One step of one attempt\<close>

text \<open>A row keeps its columns and its attempt, except for the state and the time of the change.\<close>

definition evolves :: "effect_row \<Rightarrow> effect_row \<Rightarrow> bool" where
  "evolves r r' \<longleftrightarrow> r' = r \<or>
     may_become (row_state r) (row_state r') \<and>
     (\<exists>s t. r' = r \<lparr> er_json := clone_stored (attempt_change (er_attempt_id r) (er_json r) s t) \<rparr>)"

definition same_columns :: "effect_row \<Rightarrow> effect_row \<Rightarrow> bool" where
  "same_columns r r' \<longleftrightarrow> er_attempt_id r' = er_attempt_id r \<and> er_warrant_id r' = er_warrant_id r \<and>
     er_nonce r' = er_nonce r \<and> er_scope r' = er_scope r \<and>
     binding_fields (row_attempt r') = binding_fields (row_attempt r) \<and>
     ea_started_at (row_attempt r') = ea_started_at (row_attempt r) \<and>
     ea_admission_record_hash (row_attempt r') = ea_admission_record_hash (row_attempt r)"

lemma evolves_columns: "evolves r r' \<Longrightarrow> same_columns r r'"
  by (auto simp: evolves_def same_columns_def attempt_change_def binding_fields_def)

lemma evolves_terminal: "evolves r r' \<Longrightarrow> terminal (row_state r) \<Longrightarrow> r' = r"
  by (auto simp: evolves_def terminal_def)

lemma update_evolves:
  assumes "rows_ok P db" "load i db = Inr stored" "may_become (ea_state (st_attempt stored)) s \<or> ea_state (st_attempt stored) = AUTHORIZED"
    and "r \<in> set (db_attempts db)"
  shows "\<exists>r' \<in> set (db_attempts (update_row i (attempt_change i stored s now) db)). evolves r r'"
proof -
  let ?r = "if er_attempt_id r = i then r \<lparr> er_json := clone_stored (attempt_change i stored s now) \<rparr> else r"
  obtain q where q: "q \<in> set (db_attempts db)" "er_attempt_id q = i" "er_json q = stored"
    using load_Inr[OF assms(2)] by blast
  have "r = q" if "er_attempt_id r = i"
    using assms(1,4) q(1,2) that by (auto simp: rows_ok_def distinct_map inj_on_def)
  moreover have "row_ok P r" using assms(1,4) by (auto simp: rows_ok_def list_all_iff)
  ultimately have "evolves r ?r"
    using assms(3) q(3) by (auto simp: evolves_def row_ok_def attempt_change_def) 
  moreover have "?r \<in> set (db_attempts (update_row i (attempt_change i stored s now) db))"
    using assms(4) by (auto simp: update_row_def)
  ultimately show ?thesis by blast
qed

lemma step_evolves:
  assumes "effect_step P cfg db db'" "rows_ok P db" "r \<in> set (db_attempts db)"
  shows "\<exists>r' \<in> set (db_attempts db'). evolves r r'"
  using assms(1)
proof cases
  case step_begin
  then obtain row where "db_attempts db' = db_attempts db @ [row]" using begin_Inr by metis
  with assms(3) show ?thesis by (auto simp: evolves_def)
next
  case (step_unknown eid i now a)
  then show ?thesis
  proof (cases rule: markUnknown_Inr)
    case (2 stored)
    with update_evolves[OF assms(2) 2(1) _ assms(3)] show ?thesis by (simp add: event_tables(1)[OF 2(4)])
  qed (use assms(3) in \<open>auto simp: evolves_def\<close>)
next
  case (step_reconcile wall eid obs opts a)
  then show ?thesis
  proof (cases rule: reconcile_Inr)
    case (2 stored s now db1 ms)
    with update_evolves[OF assms(2) 2(1,2) assms(3)] show ?thesis
      by (simp add: event_tables(1)[OF 2(10)] update_row_def)
  qed (use assms(3) in \<open>auto simp: evolves_def\<close>)
next
  case step_open
  with assms(3) show ?thesis by (auto simp: open_store_def evolves_def)
qed

section \<open>Events are always written\<close>

lemma event_total:
  assumes "chain_tip (db_gel db) = JStr p" "event_context stored"
  shows "\<exists>db'. event P cfg i stored o' db = Inr db'"
proof -
  let ?in = "event_input cfg i stored o'"
  have opt: "finite_json (opt_json JStr x)" for x by (cases x) auto
  have att: "finite_json (JObj (attempt_object a))" for a by (simp add: attempt_object_def binding_fields_def)
  have obs: "finite_json (JObj (observation_object a))" for a by (simp add: observation_object_def binding_fields_def)
  have ev: "finite_json (effect_event i (st_attempt stored) o')"
    using att obs by (simp add: effect_event_def split: option.split)
  obtain j where j: "record_id_of P (JStr p) (gel_timestamp [] ?in) (cg_canonical_action_hash (bg_decision ?in)) = Inr j"
    using stringify_total[of "JObj [(''previous_hash'', JStr p), (''timestamp'', JStr (gel_timestamp [] ?in)),
      (''action'', JStr (cg_canonical_action_hash (bg_decision ?in)))]" P] by (auto simp: record_id_of_def)
  have "finite_json (JObj (gel_base t j (JStr p) ?in))" for t
    using ev opt assms(2) by (simp add: gel_base_def event_input_def event_context_def list_all_iff)
  then obtain printed where "stableStringify P (JObj (gel_base (gel_timestamp [] ?in) j (JStr p) ?in)) = Inr printed"
    using stringify_total by blast
  with j show ?thesis
    by (simp add: event_def ledger_append_def SqliteEffectStore_def effect_persist_def effect_tip_chain assms(1)
        buildGelRecord_def Let_def)
qed

lemma log_tip: "log_ok P db \<Longrightarrow> \<exists>p. chain_tip (db_gel db) = JStr p"
  using linked_tip_JStr chain_tip_linked by (metis log_ok_def chain_ok_linked)

lemma load_found: "i \<in> er_attempt_id ` set (db_attempts db) \<Longrightarrow> \<exists>s. load i db = Inr s"
  by (auto simp: load_def find_None_iff split: option.split)

lemma load_update:
  assumes "i \<in> er_attempt_id ` set (db_attempts db)"
  shows "load i (update_row i stored db) = Inr (clone_stored stored)"
proof -
  have "\<exists>r. find (\<lambda>r. er_attempt_id r = i) (map (\<lambda>r. if er_attempt_id r = i then r \<lparr> er_json := clone_stored stored \<rparr> else r) rows) = Some r
      \<and> er_json r = clone_stored stored" if "i \<in> er_attempt_id ` set rows" for rows
    using that by (induction rows) auto
  from this[OF assms] show ?thesis by (auto simp: load_def update_row_def)
qed

lemma load_event: "event P cfg eid s o' db = Inr db' \<Longrightarrow> load i db' = load i db"
  by (simp add: load_def event_tables)

lemma binding_mismatch_None:
  "binding_mismatch o' a = None \<longleftrightarrow> binding_fields o' = binding_fields a"
  by (auto simp: binding_mismatch_def binding_fields_def js_simps)

lemma binding_attempt_id: "binding_fields o' = binding_fields a \<Longrightarrow> eb_attempt_id o' = eb_attempt_id a"
  by (simp add: binding_fields_def)

lemma material_total: "\<exists>m. effectObservationMaterial P (observation_object o') = Inr m"
  unfolding effectObservationMaterial_def
  by (intro stringify_total) (simp add: observation_object_def binding_fields_def)

lemma markUnknown_returns:
  assumes "rows_ok P db" "log_ok P db" "load i db = Inr stored" "\<not> terminal (ea_state (st_attempt stored))" "date_parse P now \<noteq> None"
  shows "\<exists>a db' stored'. markUnknown P cfg eid i now db = Inr (a, db') \<and> ea_state a = EFFECT_UNKNOWN \<and>
    load i db' = Inr stored' \<and> st_attempt stored' = a \<and> binding_fields a = binding_fields (st_attempt stored) \<and>
    ea_started_at a = ea_started_at (st_attempt stored) \<and> db_observations db' = db_observations db"
proof -
  note row = load_row[OF assms(1-3)]
  obtain p where p: "chain_tip (db_gel db) = JStr p" using log_tip[OF assms(2)] by blast
  have "ea_state (st_attempt stored) \<noteq> AUTHORIZED"
    using assms(1) load_Inr[OF assms(3)] by (auto simp: rows_ok_def row_ok_def list_all_iff)
  then consider "ea_state (st_attempt stored) = IN_FLIGHT" | "ea_state (st_attempt stored) = EFFECT_UNKNOWN"
    using assms(4) by (cases "ea_state (st_attempt stored)") (auto simp: terminal_def)
  then show ?thesis
  proof cases
    case 1
    let ?s = "attempt_change i stored EFFECT_UNKNOWN now"
    have "event_context ?s" using row(3) by (simp add: attempt_change_def event_context_def)
    then obtain db' where e: "event P cfg eid ?s None (update_row i ?s db) = Inr db'"
      using event_total[of "update_row i ?s db" p ?s P cfg eid None] p by (auto simp: update_row_def)
    have "markUnknown P cfg eid i now db = Inr (st_attempt ?s, db')"
      using 1 assms(3,5) e by (simp add: markUnknown_def attempt_change_def Let_def)
    then show ?thesis
      using load_update[OF row(1), of ?s] event_tables(2)[OF e]
      by (auto simp: load_event[OF e] update_row_def attempt_change_def binding_fields_def)
  next
    case 2
    then show ?thesis using assms(3,5) by (simp add: markUnknown_def)
  qed
qed

lemma reconcile_returns:
  assumes "rows_ok P db" "log_ok P db" "load (eb_attempt_id obs) db = Inr stored" "ea_state (st_attempt stored) = EFFECT_UNKNOWN"
    and "ro_now opts = Some now" "check_observation P opts now obs = Inr (s, ms)"
    and "binding_fields obs = binding_fields (st_attempt stored)" "date_parse P (ea_started_at (st_attempt stored)) = Some t" "t \<le> ms"
    and "map_of (db_observations db) (eo_observation_id obs) = None"
  shows "\<exists>a db'. reconcile_effect P cfg wall eid obs opts db = Inr (a, db') \<and> ea_state a = s \<and>
    get_attempt (eb_attempt_id obs) db' = Inr a"
proof -
  note row = load_row[OF assms(1-3)]
  obtain p where p: "chain_tip (db_gel db) = JStr p" using log_tip[OF assms(2)] by blast
  obtain m where m: "effectObservationMaterial P (observation_object obs) = Inr m" using material_total by blast
  let ?s = "attempt_change (eb_attempt_id obs) stored s now"
  let ?db = "db \<lparr> db_observations := map_set (eo_observation_id obs) m (db_observations db) \<rparr>"
  have "event_context ?s" using row(3) by (simp add: attempt_change_def event_context_def)
  then obtain db' where e: "event P cfg eid ?s (Some obs) (update_row (eb_attempt_id obs) ?s ?db) = Inr db'"
    using event_total[of "update_row (eb_attempt_id obs) ?s ?db" p ?s P cfg eid "Some obs"] p by (auto simp: update_row_def)
  have bm: "binding_mismatch obs (st_attempt stored) = None" using assms(7) by (simp only: binding_mismatch_None)
  have "reconcile_effect P cfg wall eid obs opts db = Inr (st_attempt ?s, db')"
    using assms(3-6,8-10) bm m e by (simp add: reconcile_effect_def attempt_change_def Let_def terminal_def)
  moreover have "get_attempt (eb_attempt_id obs) db' = Inr (st_attempt ?s)"
    using load_update[of "eb_attempt_id obs" ?db ?s] row(1) by (simp add: get_attempt_def load_event[OF e])
  ultimately show ?thesis by (auto simp: attempt_change_def)
qed

section \<open>The promises of the store\<close>

text \<open>
  C17: in every reachable database no warrant, no nonce and no attempt identifier is used twice, and of two
  attempts of one operation of a subject in a Ward the earlier is settled without effect: an operation
  is never dispatched again while an earlier dispatch may have had, or may still have, its effect.
\<close>

theorem effect_single_owner:
  assumes "effect_reachable P cfg db"
  shows "distinct (map (\<lambda>r. eb_warrant_id (row_attempt r)) (db_attempts db)) \<and>
    distinct (map er_nonce (db_attempts db)) \<and>
    distinct (map (\<lambda>r. eb_attempt_id (row_attempt r)) (db_attempts db)) \<and>
    (\<forall>i j. i < j \<and> j < length (db_attempts db) \<and>
       attempt_key (row_attempt (db_attempts db ! i)) = attempt_key (row_attempt (db_attempts db ! j)) \<longrightarrow>
       row_state (db_attempts db ! i) = CONFIRMED_NO_EFFECT)"
proof -
  note ok = reachable_rows[OF assms]
  have ids: "map (\<lambda>r. eb_warrant_id (row_attempt r)) (db_attempts db) = map er_warrant_id (db_attempts db)"
    "map (\<lambda>r. eb_attempt_id (row_attempt r)) (db_attempts db) = map er_attempt_id (db_attempts db)"
    using ok by (auto simp: rows_ok_def row_ok_def list_all_iff)
  have "row_state (db_attempts db ! i) = CONFIRMED_NO_EFFECT"
    if "i < j" "j < length (db_attempts db)"
      "attempt_key (row_attempt (db_attempts db ! i)) = attempt_key (row_attempt (db_attempts db ! j))" for i j
    using ok that by (simp add: rows_ok_def single_owner_nth ownership_def)
  with ok show ?thesis unfolding ids rows_ok_def by blast
qed

text \<open>
  C18: every operation of the store either changes nothing or, seen through \<open>ownership\<close>, makes one
  step of the ownership discipline: it starts an operation none of whose attempts can still have an
  effect, or moves one attempt forward.
\<close>

theorem effect_store_refines:
  assumes "effect_reachable P cfg db" "effect_step P cfg db db'"
  shows "db' = db \<or> own_step (ownership db) (ownership db')"
  using step_ownership[OF assms(2) reachable_rows[OF assms(1)]] by blast

text \<open>
  an attempt is never removed, what binds it to its warrant, action and admission never changes,
  its state changes only along the state machine, and a settled attempt does not change at all.
\<close>

theorem effect_settled_final:
  assumes "effect_reachable P cfg db" "effect_step P cfg db db'" "r \<in> set (db_attempts db)"
  shows "\<exists>r' \<in> set (db_attempts db'). same_columns r r' \<and>
    (r' = r \<or> may_become (row_state r) (row_state r')) \<and> (terminal (row_state r) \<longrightarrow> r' = r)"
  using step_evolves[OF assms(2) reachable_rows[OF assms(1)] assms(3)] evolves_columns evolves_terminal
  by (metis evolves_def)

text \<open>
  after any history the event ledger verifies, is signed throughout, replays to exactly the attempts
  of the table, and so the constructor opens the database again.
\<close>

theorem effect_store_reopens:
  assumes "effect_reachable P cfg db" "effect_signing P cfg"
  shows "open_store P db = Inr db \<and>
    effect_verification P db = \<lparr> gv_ok = True, gv_count = length (db_gel db), gv_failure = None \<rparr>"
proof -
  note log = reachable_log[OF assms] and rows = reachable_rows[OF assms(1)]
  have "open_store P db = Inr db" using integrity_ok[OF rows log] by (simp add: open_store_def)
  moreover have "effect_verification P db = \<lparr> gv_ok = True, gv_count = length (db_gel db), gv_failure = None \<rparr>"
    using log by (auto simp: effect_verification_def log_ok_def chain_ok_def verifyGelRecords_def split: sum.splits)
  ultimately show ?thesis by blast
qed

text \<open>
  C19: no attempt is stuck.  From every reachable database an attempt that is not settled can be marked
  unknown, and then any admissible final observation that names the attempt, is not older than it
  and carries a new identifier settles it with the observed outcome.
\<close>

theorem effect_attempt_settles:
  assumes "effect_reachable P cfg db" "effect_signing P cfg" "get_attempt i db = Inr attempt" "\<not> terminal (ea_state attempt)"
    and "date_parse P t0 \<noteq> None" "ro_now opts = Some now" "check_observation P opts now obs = Inr (s, observedMs)"
    and "binding_fields obs = binding_fields attempt" "date_parse P (ea_started_at attempt) = Some startedMs" "startedMs \<le> observedMs"
    and "map_of (db_observations db) (eo_observation_id obs) = None"
  shows "\<exists>a1 db1 a2 db2. markUnknown P cfg eid1 i t0 db = Inr (a1, db1) \<and>
    reconcile_effect P cfg wall eid2 obs opts db1 = Inr (a2, db2) \<and> ea_state a2 = s \<and> get_attempt i db2 = Inr a2"
proof -
  obtain stored where l: "load i db = Inr stored" "st_attempt stored = attempt"
    using assms(3) by (auto simp: get_attempt_def)
  note rows = reachable_rows[OF assms(1)] and log = reachable_log[OF assms(1,2)]
  from markUnknown_returns[OF rows log l(1)] assms(4,5) l(2) obtain a1 db1 stored1 where
    m: "markUnknown P cfg eid1 i t0 db = Inr (a1, db1)" "ea_state a1 = EFFECT_UNKNOWN" "load i db1 = Inr stored1" "st_attempt stored1 = a1"
       "binding_fields a1 = binding_fields attempt" "ea_started_at a1 = ea_started_at attempt" "db_observations db1 = db_observations db"
    by metis
  have step: "effect_step P cfg db db1" using m(1) by (rule step_unknown)
  have rows1: "rows_ok P db1" using step_ownership[OF step rows] by blast
  have i: "eb_attempt_id obs = i"
    using load_row(2)[OF rows log l(1)] binding_attempt_id[OF assms(8)] l(2) by simp
  show ?thesis
    using reconcile_returns[OF rows1 step_log[OF assms(2) rows log step], of obs stored1 opts now s observedMs startedMs cfg wall eid2]
      m assms(6-11) i by auto
qed

section \<open>A sample attempt\<close>

definition sample_hash :: hash where
  "sample_hash = (case canonicalizeAction sample sample_action of Inr ca \<Rightarrow> ca_canonical_action_hash ca | Inl _ \<Rightarrow> [])"

definition effect_warrant :: Warrant where
  "effect_warrant =
     (let m = warrantMaterial sample ''pay'' ''e1'' sample_hash ''300'' ''200'' ''root'' ''agent'' ''w1'' (Some ''n1'')
      in sample_warrant \<lparr> wr_warrant_id := ''wrn-1'', wr_canonical_action_hash := sample_hash, wr_signature := sg_sign sample_signer m \<rparr>)"

definition effect_input :: BeginInput where
  "effect_input = \<lparr> bi_ward = sample_ward, bi_action = sample_action, bi_warrant = effect_warrant,
     bi_admission = \<lparr> ad_canonical_action_hash = sample_hash, ad_warrant_id = Some ''wrn-1'', ad_decision = ALLOW,
       ad_reason_codes = [ALLOWED], ad_policy_version = None, ad_runtime_register_snapshot = [], ad_record_hash = ''r'' \<rparr>,
     bi_now = Some ''250'', bi_verify = None \<rparr>"

definition sample_config :: effect_config where
  "sample_config = \<lparr> ec_signer = sample_signer, ec_trustedWarrantKeys = [''k1'' \<mapsto> ''pem1''] \<rparr>"

definition sample_uuid :: "nat \<Rightarrow> string" where
  "sample_uuid n = ''u'' @ nat_digits n"

definition sample_begun :: "(EffectAttempt \<times> effect_db) result" where
  "sample_begun = begin_effect sample sample_config [] sample_uuid effect_input empty_db"

definition sample_db :: effect_db where
  "sample_db = (case sample_begun of Inr (a, db) \<Rightarrow> db | Inl _ \<Rightarrow> empty_db)"

lemma sample_signing_config: "effect_signing sample sample_config"
  using sample_signers_sound by (simp add: effect_signing_def sample_config_def) (simp add: sample_signer_def)

lemma sample_check: "check_begin sample sample_config ''250'' effect_input = Inr sample_hash"
proof -
  obtain ca where ca: "canonicalizeAction sample sample_action = Inr ca"
    by (simp add: canonicalizeAction_def sample_normal Let_def)
  have "verifyWarrant sample effect_warrant sample_hash ''250'' default_options = None"
    by (simp add: verifyWarrant_ok effect_warrant_def sample_warrant_def Let_def sample_dates default_options_def clock_skew_def
        lifetime_exceeded_def nonce_seen_def key_untrusted_def warrant_revoked_def signature_valid_def material_of_def
        verifyEd25519_def sample_signer_def)
  then show ?thesis
    using ca by (simp add: check_begin_def effect_input_def sample_dates Let_def sample_config_def sample_hash_def
        effect_warrant_def sample_warrant_def)
qed

lemma sample_operation: "operation_id sample_action = Inr ''a1''"
  by (simp add: operation_id_def sample_action_def js_simps js_trim_empty js_blank_def trim_start.simps ws_prefix_def code_def
      utf16_length_def)

lemma begin_first:
  assumes "effect_signing P cfg" "bi_now input = Some now" "check_begin P cfg now input = Inr h"
    and "operation_id (bi_action input) = Inr oper" "state_fingerprint P (bi_action input) (bi_admission input) = Inr fp"
  shows "\<exists>db. begin_effect P cfg wall uuid input empty_db = Inr (begin_attempt now h oper (uuid 0) fp input \<lparr> ea_state := IN_FLIGHT \<rparr>, db)"
proof -
  let ?st = "\<lparr> st_attempt = begin_attempt now h oper (uuid 0) fp input, st_context = begin_context h input \<rparr>"
  let ?fl = "?st \<lparr> st_attempt := begin_attempt now h oper (uuid 0) fp input \<lparr> ea_state := IN_FLIGHT \<rparr> \<rparr>"
  obtain sc where sc: "operation_scope P (act_ward_id (bi_action input)) (act_subject (bi_action input)) oper = Inr sc"
    using operation_scope_total by blast
  define db1 where "db1 = empty_db \<lparr> db_attempts := [\<lparr> er_attempt_id = uuid 0, er_warrant_id = wr_warrant_id (bi_warrant input),
      er_nonce = the_default [] (wr_nonce (bi_warrant input)), er_scope = sc, er_json = clone_stored ?st \<rparr>] \<rparr>"
  have cx: "event_context ?st" "event_context ?fl" using begin_context_event by simp_all
  have "chain_tip (db_gel db1) = JStr GENESIS_HASH" by (simp add: db1_def empty_db_def chain_tip_def)
  from event_total[OF this cx(1)] obtain db2 where e1: "event P cfg (uuid 1) ?st None db1 = Inr db2"
    by blast
  have "chain_ok P (db_gel db2)"
    using event_log[OF assms(1) _ cx(1) _ e1] by (simp add: db1_def empty_db_def)
  then obtain p where "chain_tip (db_gel db2) = JStr p"
    using linked_tip_JStr chain_tip_linked by (metis chain_ok_linked)
  then have "chain_tip (db_gel (update_row (uuid 0) ?fl db2)) = JStr p" by (simp add: update_row_def)
  from event_total[OF this cx(2)] obtain db3 where "event P cfg (uuid 2) ?fl None (update_row (uuid 0) ?fl db2) = Inr db3"
    by blast
  with e1 assms(2-5) sc show ?thesis
    by (simp add: begin_effect_def Let_def latest_in_scope_def insert_row_def db1_def empty_db_def begin_attempt_def)
qed

definition sample_attempt :: EffectAttempt where
  "sample_attempt = (case sample_begun of Inr (a, db) \<Rightarrow> a | Inl _ \<Rightarrow> undefined)"

lemma sample_begun_eq:
  "sample_begun = Inr (sample_attempt, sample_db)" "ea_state sample_attempt = IN_FLIGHT" "ea_started_at sample_attempt = ''250''"
  "eb_attempt_id sample_attempt = ''u0''"
proof -
  obtain fp where "state_fingerprint sample sample_action (bi_admission effect_input) = Inr fp"
    by (auto simp: state_fingerprint_def sample_action_def effect_input_def stableStringify_def stableNormalize_obj defined_entry_def)
  with begin_first[OF sample_signing_config _ sample_check, of "''a1''" fp "[]" sample_uuid] obtain db where
    b: "sample_begun = Inr (begin_attempt ''250'' sample_hash ''a1'' (sample_uuid 0) fp effect_input \<lparr> ea_state := IN_FLIGHT \<rparr>, db)"
    using sample_operation by (auto simp: sample_begun_def effect_input_def)
  have u: "sample_uuid 0 = ''u0''" by (simp add: sample_uuid_def digit_char_def char_of_def bit_iff_odd)
  have a: "sample_attempt = begin_attempt ''250'' sample_hash ''a1'' (sample_uuid 0) fp effect_input \<lparr> ea_state := IN_FLIGHT \<rparr>" "sample_db = db"
    unfolding sample_attempt_def sample_db_def b by simp_all
  show "sample_begun = Inr (sample_attempt, sample_db)" "ea_state sample_attempt = IN_FLIGHT" "ea_started_at sample_attempt = ''250''"
    "eb_attempt_id sample_attempt = ''u0''"
    unfolding a b by (simp_all add: begin_attempt_def u)
qed

lemma sample_reachable: "effect_reachable sample sample_config sample_db"
  using step_begin[OF sample_begun_eq(1)[unfolded sample_begun_def]] by (rule reach_step[OF reach_empty])

lemma sample_rows: "\<exists>row. db_attempts sample_db = [row] \<and> row_attempt row = sample_attempt"
  using begin_Inr[OF sample_begun_eq(1)[unfolded sample_begun_def]] by (metis append_Nil effect_db.select_convs(1) empty_db_def)

definition unsigned_observation :: EffectObservation where
  "unsigned_observation = EffectBinding.extend (EffectBinding.truncate sample_attempt)
     (EffectObservation.fields EFFECT_OBSERVATION_VERSION ''o1'' ''CONFIRMED_NO_EFFECT'' ''settled'' ''255'' ''poll''
        (replicate 64 (CHR ''a'')) ''obs'' [])"

definition sample_observation :: EffectObservation where
  "sample_observation = unsigned_observation \<lparr> eo_signature :=
     ''pem3/'' @ (case effectObservationMaterial sample (observation_object unsigned_observation) of Inr m \<Rightarrow> m | Inl _ \<Rightarrow> []) \<rparr>"

definition sample_options :: ReconcileOptions where
  "sample_options = \<lparr> ro_trustedObservers = [''obs'' \<mapsto> ''pem3''], ro_allowedMethods = [''poll''], ro_now = Some ''260'', ro_maxAgeMs = None \<rparr>"

lemma sample_times: "decimal_parse ''255'' = Some 255" "decimal_parse ''260'' = Some 260"
  by (simp_all add: decimal_parse_def is_digit_def digits_val_def char_digit_def)

lemma sample_observation_binding: "binding_fields sample_observation = binding_fields sample_attempt"
  by (simp add: sample_observation_def unsigned_observation_def binding_fields_def EffectBinding.defs EffectObservation.defs)

lemma sample_observation_checked: "check_observation sample sample_options ''260'' sample_observation = Inr (CONFIRMED_NO_EFFECT, 255)"
proof -
  have "effectObservationMaterial sample (observation_object sample_observation) =
      effectObservationMaterial sample (observation_object unsigned_observation)"
    by (simp add: effectObservationMaterial_def observation_object_def sample_observation_def binding_fields_def)
  moreover obtain m where m: "effectObservationMaterial sample (observation_object unsigned_observation) = Inr m"
    using material_total by blast
  moreover have "hex64 (replicate 64 (CHR ''a''))"
    by (simp add: hex64_def list_all_iff is_lower_hex_def code_def)
  moreover have f: "eo_version sample_observation = EFFECT_OBSERVATION_VERSION" "eo_observation_id sample_observation = ''o1''"
    "eo_outcome sample_observation = ''CONFIRMED_NO_EFFECT''" "eo_finality sample_observation = ''settled''"
    "eo_observed_at sample_observation = ''255''" "eo_method sample_observation = ''poll''"
    "eo_external_evidence_hash sample_observation = replicate 64 (CHR ''a'')" "eo_observer_key_id sample_observation = ''obs''"
    "eo_signature sample_observation = ''pem3/'' @ m"
    unfolding sample_observation_def m
    by (simp_all add: unsigned_observation_def EffectBinding.defs EffectObservation.defs)
  ultimately show ?thesis
    by (simp add: check_observation_def sample_options_def Let_def verifyEd25519_def the_default_def outcome_state_def
        sample_times)
qed

lemma sample_get: "get_attempt ''u0'' sample_db = Inr sample_attempt"
proof -
  obtain row where r: "db_attempts sample_db = [row]" "row_attempt row = sample_attempt" using sample_rows by blast
  moreover have "er_attempt_id row = ''u0''"
    using reachable_rows[OF sample_reachable] r sample_begun_eq(4) by (simp add: rows_ok_def row_ok_def)
  ultimately show ?thesis by (simp add: get_attempt_def load_def)
qed

lemma begin_observations:
  assumes "begin_effect P cfg wall uuid input db = Inr (a, db')"
  shows "db_observations db' = db_observations db"
  by (rule begin_Inr[OF assms]) (simp add: event_tables update_row_def)

lemma sample_observations: "db_observations sample_db = []"
  using begin_observations[OF sample_begun_eq(1)[unfolded sample_begun_def]] by (simp add: empty_db_def)

lemma sample_unknown:
  "\<exists>a db'. markUnknown sample sample_config ''u3'' ''u0'' ''255'' sample_db = Inr (a, db') \<and> db' \<noteq> sample_db"
proof -
  obtain a db' where m: "markUnknown sample sample_config ''u3'' ''u0'' ''255'' sample_db = Inr (a, db')" "ea_state a = EFFECT_UNKNOWN"
      "get_attempt ''u0'' db' = Inr a"
    using markUnknown_returns[OF reachable_rows[OF sample_reachable] reachable_log[OF sample_reachable sample_signing_config],
        of "''u0''" _ "''255''" sample_config "''u3''"] sample_get sample_begun_eq(2)
    by (auto simp: get_attempt_def terminal_def sample_times)
  then show ?thesis using sample_get sample_begun_eq(2) by auto
qed

theorem effect_single_owner_witness:
  "db_attempts sample_db \<noteq> [] \<and> distinct (map (\<lambda>r. eb_warrant_id (row_attempt r)) (db_attempts sample_db))"
  using effect_single_owner[OF sample_reachable] sample_rows by auto

theorem effect_store_reopens_witness: "open_store sample sample_db = Inr sample_db"
  using effect_store_reopens[OF sample_reachable sample_signing_config] by blast

theorem effect_attempt_settles_witness:
  "\<exists>a1 db1 a2 db2. markUnknown sample sample_config ''u3'' ''u0'' ''255'' sample_db = Inr (a1, db1) \<and>
    reconcile_effect sample sample_config [] ''u4'' sample_observation sample_options db1 = Inr (a2, db2) \<and>
    ea_state a2 = CONFIRMED_NO_EFFECT \<and> get_attempt ''u0'' db2 = Inr a2"
  by (rule effect_attempt_settles[OF sample_reachable sample_signing_config sample_get _ _ _ sample_observation_checked
        sample_observation_binding, where startedMs = 250])
     (simp_all add: terminal_def sample_begun_eq sample_times sample_dates sample_options_def sample_observations)

theorem effect_store_refines_witness:
  "\<exists>db'. effect_step sample sample_config sample_db db' \<and> own_step (ownership sample_db) (ownership db')"
proof -
  obtain a db' where m: "markUnknown sample sample_config ''u3'' ''u0'' ''255'' sample_db = Inr (a, db')" "db' \<noteq> sample_db"
    using sample_unknown by blast
  with effect_store_refines[OF sample_reachable step_unknown[OF m(1)]] step_unknown[OF m(1)] show ?thesis by blast
qed

theorem effect_settled_final_witness:
  "\<exists>db'. effect_step sample sample_config sample_db db' \<and> db' \<noteq> sample_db \<and>
     (\<exists>r' \<in> set (db_attempts db'). same_columns (hd (db_attempts sample_db)) r')"
proof -
  obtain a db' where m: "markUnknown sample sample_config ''u3'' ''u0'' ''255'' sample_db = Inr (a, db')" "db' \<noteq> sample_db"
    using sample_unknown by blast
  have "hd (db_attempts sample_db) \<in> set (db_attempts sample_db)" using sample_rows by auto
  from effect_settled_final[OF sample_reachable step_unknown[OF m(1)] this] step_unknown[OF m(1)] m(2) show ?thesis by blast
qed

end
