(* ===== verification/Effect_Evidence.thy ===== *)
theory Effect_Evidence
  imports Effect_Store
begin

text \<open>
  \<open>verifyEffectEvidence\<close> of \<open>effects.ts\<close>: the offline check of a ledger of effect events.  The
  records are untrusted JSON, so every field is read as a value and every comparison is JavaScript's
  strict equality.  The theorem says what a verdict \<open>PASS\<close> establishes.
\<close>

section \<open>Values as the verifier compares them\<close>

text \<open>\<open>===\<close> on two values parsed separately: objects and arrays are different references.\<close>

fun strict_eq :: "json \<Rightarrow> json \<Rightarrow> bool" where
  "strict_eq (JArr _) _ = False"
| "strict_eq (JObj _) _ = False"
| "strict_eq v w = (v = w)"

text \<open>\<open>String(v)\<close>, which property keys, \<open>Date.parse\<close> and regular expressions apply to their argument.\<close>

fun js_string :: "json \<Rightarrow> string" where
  "js_string JUndef = ''undefined''"
| "js_string JNull = ''null''"
| "js_string (JBool b) = (if b then ''true'' else ''false'')"
| "js_string (JNum x) = num_string x"
| "js_string JNonFinite = ''Infinity''"
| "js_string (JStr s) = s"
| "js_string (JArr vs) = join '','' (map (\<lambda>v. if v = JUndef \<or> v = JNull then [] else js_string v) vs)"
| "js_string (JObj _) = ''[object Object]''"

definition date_of :: "platform \<Rightarrow> json \<Rightarrow> int option" where
  "date_of P v = date_parse P (js_string v)"

text \<open>A \<open>Map\<close> and a \<open>Set\<close> whose keys are values.\<close>

definition value_get :: "(json \<times> 'v) list \<Rightarrow> json \<Rightarrow> 'v option" where
  "value_get m k = map_option snd (find (\<lambda>e. strict_eq (fst e) k) m)"

fun value_set :: "json \<Rightarrow> 'v \<Rightarrow> (json \<times> 'v) list \<Rightarrow> (json \<times> 'v) list" where
  "value_set k v [] = [(k, v)]"
| "value_set k v ((k', v') # m) = (if strict_eq k' k then (k', v) # m else (k', v') # value_set k v m)"

section \<open>The verifier\<close>

datatype EvidenceStatus = PASS | FAIL | INDETERMINATE

type_synonym EvidenceVerdict = "EvidenceStatus \<times> string list"

record EvidenceOptions =
  vp_trustedLedgerKeys :: "string \<rightharpoonup> string"
  vp_trustedObservers :: "string \<rightharpoonup> string"
  vp_allowedMethods :: "string list option"
  vp_expectedTipHash :: "string option"

record evidence_state =
  ev_latest :: "(json \<times> json) list"
  ev_operations :: "(string, json) jsmap"
  ev_usedWarrants :: "json list"

definition EFFECT_STATES :: "json list" where
  "EFFECT_STATES = map (JStr \<circ> effect_state_name) [AUTHORIZED, IN_FLIGHT, EFFECT_UNKNOWN, CONFIRMED_EFFECT, CONFIRMED_NO_EFFECT]"

definition BINDING_FIELDS :: "string list" where
  "BINDING_FIELDS = [''operation_id'', ''attempt_id'', ''warrant_id'', ''authority_envelope_id'', ''canonical_action_hash'',
     ''ward_id'', ''subject'', ''target'', ''state_fingerprint'']"

abbreviation settled_value :: "json \<Rightarrow> bool" where
  "settled_value v \<equiv> v = JStr ''CONFIRMED_EFFECT'' \<or> v = JStr ''CONFIRMED_NO_EFFECT''"

text \<open>A step of the verifier: it goes on with a value, or stops with a verdict.\<close>

type_synonym 'a check = "EvidenceVerdict + 'a"

definition stop :: "EvidenceStatus \<Rightarrow> string \<Rightarrow> 'a check" where
  "stop status reason = Inl (status, [reason])"

fun bind_check :: "'a check \<Rightarrow> ('a \<Rightarrow> 'b check) \<Rightarrow> 'b check" where
  "bind_check (Inl v) f = Inl v"
| "bind_check (Inr x) f = f x"

text \<open>An exception inside the verifier is caught by \<open>verifyEffectEvidence\<close>.\<close>

definition guarded :: "'a result \<Rightarrow> 'a check" where
  "guarded r = (case r of Inr x \<Rightarrow> Inr x | Inl _ \<Rightarrow> stop FAIL ''EFFECT_EVIDENCE_MALFORMED'')"

definition verify_value :: "platform \<Rightarrow> string \<Rightarrow> string \<Rightarrow> json \<Rightarrow> bool" where
  "verify_value P key material signature =
     (case as_string signature of Some s \<Rightarrow> verifyEd25519 P key material s | None \<Rightarrow> False)"

definition check_ledger_signature :: "platform \<Rightarrow> EvidenceOptions \<Rightarrow> GelRecord \<Rightarrow> unit check" where
  "check_ledger_signature P opts r =
     (let key_id = obj_get r ''signing_key_id'';
          key = (if truthy key_id then vp_trustedLedgerKeys opts (js_string key_id) else None)
      in if \<not> str_truthy key then stop INDETERMINATE ''EFFECT_LEDGER_TRUST_MISSING''
         else if \<not> truthy (obj_get r ''signature'') \<or>
           \<not> verify_value P (the_default [] key) (js_string (obj_get r ''record_hash'')) (obj_get r ''signature'')
         then stop FAIL ''EFFECT_LEDGER_SIGNATURE_INVALID'' else Inr ())"

text \<open>The attempt of the event of a record.\<close>

definition check_event :: "platform \<Rightarrow> GelRecord \<Rightarrow> json check" where
  "check_event P r =
     (let event = obj_get r ''effect_event''; attempt = js_get event ''attempt''
      in if \<not> truthy event \<or> js_get event ''version'' \<noteq> JStr EFFECT_EVENT_VERSION then stop FAIL ''EFFECT_EVENT_INVALID''
         else if attempt = JUndef \<or> attempt = JNull then stop FAIL ''EFFECT_EVIDENCE_MALFORMED''
         else if js_get attempt ''state'' \<notin> set EFFECT_STATES \<or> date_of P (js_get attempt ''started_at'') = None
            \<or> date_of P (js_get attempt ''updated_at'') = None
         then stop FAIL ''EFFECT_STATE_INVALID''
         else if (\<exists>field \<in> set [''warrant_id'', ''authority_envelope_id'', ''canonical_action_hash'', ''subject'', ''ward_id''].
                    \<not> strict_eq (obj_get r field) (js_get attempt field)) \<or> \<not> truthy (js_get attempt ''consumed'')
         then stop FAIL ''EFFECT_RECORD_BINDING_INVALID''
         else Inr attempt)"

definition immutable :: "platform \<Rightarrow> json \<Rightarrow> string result" where
  "immutable P a = stableStringify P (JObj (filter (\<lambda>e. fst e \<noteq> ''state'' \<and> fst e \<noteq> ''updated_at'') (json_fields a)))"

definition attempt_scope :: "platform \<Rightarrow> json \<Rightarrow> string result" where
  "attempt_scope P a = stableStringify P (JArr [js_get a ''ward_id'', js_get a ''subject'', js_get a ''operation_id''])"

text \<open>The first event of an attempt, and any later one.\<close>

definition check_first :: "platform \<Rightarrow> evidence_state \<Rightarrow> json \<Rightarrow> evidence_state check" where
  "check_first P st attempt =
     (if js_get attempt ''state'' \<noteq> JStr ''AUTHORIZED'' \<or> list_ex (\<lambda>w. strict_eq w (js_get attempt ''warrant_id'')) (ev_usedWarrants st)
      then stop FAIL ''EFFECT_CONSUMPTION_INVALID''
      else bind_check (guarded (attempt_scope P attempt)) (\<lambda>scope.
        let previousAttempt = map_of (ev_operations st) scope
        in if (case previousAttempt of None \<Rightarrow> False | Some p \<Rightarrow> truthy p \<and>
               (case value_get (ev_latest st) p of None \<Rightarrow> True | Some a \<Rightarrow> js_get a ''state'' \<noteq> JStr ''CONFIRMED_NO_EFFECT''))
           then stop FAIL ''EFFECT_DUPLICATE_OPERATION''
           else Inr (st \<lparr> ev_operations := map_set scope (js_get attempt ''attempt_id'') (ev_operations st),
                          ev_usedWarrants := ev_usedWarrants st @ [js_get attempt ''warrant_id''] \<rparr>)))"

definition check_transition :: "platform \<Rightarrow> json \<Rightarrow> json \<Rightarrow> unit check" where
  "check_transition P previous attempt =
     bind_check (guarded (immutable P previous)) (\<lambda>a. bind_check (guarded (immutable P attempt)) (\<lambda>b.
       let before = js_get previous ''state''; after = js_get attempt ''state''
       in if a \<noteq> b \<or> settled_value before \<or> before = JStr ''AUTHORIZED'' \<and> after \<noteq> JStr ''IN_FLIGHT'' \<or>
             before \<noteq> JStr ''AUTHORIZED'' \<and> (after = JStr ''AUTHORIZED'' \<or> after = JStr ''IN_FLIGHT'')
          then stop FAIL ''EFFECT_TRANSITION_INVALID'' else Inr ()))"

definition check_evidence_observation ::
  "platform \<Rightarrow> EvidenceOptions \<Rightarrow> json option \<Rightarrow> json \<Rightarrow> json \<Rightarrow> unit check" where
  "check_evidence_observation P opts previous attempt obs =
     (let outcome = js_get obs ''outcome''; observed = date_of P (js_get obs ''observed_at'')
      in if \<not> truthy obs \<or> \<not> strict_eq outcome (js_get attempt ''state'') \<or>
            js_get obs ''finality'' \<noteq> JStr ''settled'' \<and> outcome \<noteq> JStr ''EFFECT_UNKNOWN''
         then stop FAIL ''EFFECT_OBSERVATION_REQUIRED''
         else case vp_allowedMethods opts of None \<Rightarrow> stop INDETERMINATE ''EFFECT_OBSERVATION_POLICY_MISSING''
         | Some methods \<Rightarrow>
           if js_get obs ''version'' \<noteq> JStr EFFECT_OBSERVATION_VERSION \<or> js_get obs ''method'' \<notin> JStr ` set methods \<or>
              \<not> hex64 (js_string (js_get obs ''external_evidence_hash'')) \<or> observed = None \<or>
              nan_less observed (date_of P (js_get attempt ''started_at'')) \<or>
              nan_less (date_of P (js_get attempt ''updated_at'')) observed \<or>
              outcome = JStr ''CONFIRMED_NO_EFFECT'' \<and> map_option (\<lambda>p. js_get p ''state'') previous = Some (JStr ''IN_FLIGHT'')
           then stop FAIL ''EFFECT_OBSERVATION_INVALID''
           else if \<exists>field \<in> set BINDING_FIELDS. \<not> strict_eq (js_get obs field) (js_get attempt field)
           then stop FAIL ''EFFECT_OBSERVATION_BINDING_INVALID''
           else let key = vp_trustedObservers opts (js_string (js_get obs ''observer_key_id''))
             in if \<not> str_truthy key then stop INDETERMINATE ''EFFECT_OBSERVER_TRUST_MISSING''
                else bind_check (guarded (effectObservationMaterial P (json_fields obs))) (\<lambda>material.
                  if \<not> verify_value P (the_default [] key) material (js_get obs ''signature'')
                  then stop FAIL ''EFFECT_OBSERVATION_SIGNATURE_INVALID'' else Inr ()))"

definition check_record :: "platform \<Rightarrow> EvidenceOptions \<Rightarrow> GelRecord \<Rightarrow> evidence_state \<Rightarrow> evidence_state check" where
  "check_record P opts r st =
     bind_check (check_ledger_signature P opts r) (\<lambda>_.
     bind_check (check_event P r) (\<lambda>attempt.
       let previous = value_get (ev_latest st) (js_get attempt ''attempt_id'');
           obs = js_get (obj_get r ''effect_event'') ''observation''
       in bind_check (case previous of None \<Rightarrow> check_first P st attempt
                      | Some p \<Rightarrow> bind_check (check_transition P p attempt) (\<lambda>_. Inr st)) (\<lambda>st'.
          bind_check (if settled_value (js_get attempt ''state'') \<or> truthy obs
                      then check_evidence_observation P opts previous attempt obs else Inr ()) (\<lambda>_.
            Inr (st' \<lparr> ev_latest := value_set (js_get attempt ''attempt_id'') attempt (ev_latest st') \<rparr>)))))"

fun check_records :: "platform \<Rightarrow> EvidenceOptions \<Rightarrow> GelRecord list \<Rightarrow> evidence_state \<Rightarrow> evidence_state check" where
  "check_records P opts [] st = Inr st"
| "check_records P opts (r # rs) st = bind_check (check_record P opts r st) (check_records P opts rs)"

definition initial_state :: evidence_state where
  "initial_state = \<lparr> ev_latest = [], ev_operations = [], ev_usedWarrants = [] \<rparr>"

definition final_reasons :: "EvidenceOptions \<Rightarrow> evidence_state \<Rightarrow> string list" where
  "final_reasons opts st =
     (if vp_expectedTipHash opts = None then [''EFFECT_COMPLETENESS_UNANCHORED''] else []) @
     (if ev_latest st = [] \<or> list_ex (\<lambda>e. \<not> settled_value (js_get (snd e) ''state'')) (ev_latest st)
      then [''EFFECT_UNRESOLVED''] else [])"

definition verifyEffectEvidence :: "platform \<Rightarrow> GelRecord list \<Rightarrow> EvidenceOptions \<Rightarrow> EvidenceVerdict" where
  "verifyEffectEvidence P records opts =
     (case bind_check (guarded (verifyGelRecords P records)) (\<lambda>chain.
        if \<not> gv_ok chain then stop FAIL ''EFFECT_CHAIN_INVALID''
        else if (case vp_expectedTipHash opts of None \<Rightarrow> False | Some h \<Rightarrow> chain_tip records \<noteq> JStr h)
        then stop FAIL ''EFFECT_ANCHOR_MISMATCH''
        else bind_check (check_records P opts records initial_state) (\<lambda>st.
          let reasons = final_reasons opts st
          in Inr (if reasons = [] then PASS else INDETERMINATE, reasons))) of
        Inl v \<Rightarrow> v | Inr v \<Rightarrow> v)"

section \<open>What each check establishes\<close>

lemma bind_check_Inr [simp]: "bind_check c f = Inr y \<longleftrightarrow> (\<exists>x. c = Inr x \<and> f x = Inr y)"
  by (cases c) auto

lemma stop_not_Inr [simp]: "stop s r \<noteq> Inr x" "Inr x \<noteq> stop s r"
  by (simp_all add: stop_def)

lemma guarded_Inr [simp]: "guarded r = Inr x \<longleftrightarrow> r = Inr x"
  by (cases r) (auto simp: guarded_def)

lemma strict_eqD: "strict_eq v w \<Longrightarrow> v = w"
  by (cases v) auto

lemma strict_eq_sym: "strict_eq v w \<Longrightarrow> strict_eq w v"
  by (cases v) auto

abbreviation rec_attempt :: "GelRecord \<Rightarrow> json" where
  "rec_attempt r \<equiv> event_attempt r"

abbreviation rec_id :: "GelRecord \<Rightarrow> json" where
  "rec_id r \<equiv> js_get (event_attempt r) ''attempt_id''"

abbreviation rec_state :: "GelRecord \<Rightarrow> json" where
  "rec_state r \<equiv> js_get (event_attempt r) ''state''"

abbreviation rec_warrant :: "GelRecord \<Rightarrow> json" where
  "rec_warrant r \<equiv> js_get (event_attempt r) ''warrant_id''"

abbreviation dispatch :: "GelRecord \<Rightarrow> bool" where
  "dispatch r \<equiv> rec_state r = JStr ''AUTHORIZED''"

text \<open>The record is signed under a key the operator trusts, and names the warrant, action, subject and Ward of its attempt.\<close>

definition trusted_record :: "platform \<Rightarrow> EvidenceOptions \<Rightarrow> GelRecord \<Rightarrow> bool" where
  "trusted_record P opts r \<longleftrightarrow>
     (\<exists>key h sig. vp_trustedLedgerKeys opts (js_string (obj_get r ''signing_key_id'')) = Some key \<and>
        obj_get r ''signature'' = JStr sig \<and> h = js_string (obj_get r ''record_hash'') \<and> verifyEd25519 P key h sig) \<and>
     (\<forall>field \<in> {''warrant_id'', ''authority_envelope_id'', ''canonical_action_hash'', ''subject'', ''ward_id''}.
        obj_get r field = js_get (event_attempt r) field)"

text \<open>The record settles its attempt on a final observation of a trusted observer that names the attempt.\<close>

definition settles :: "platform \<Rightarrow> EvidenceOptions \<Rightarrow> GelRecord \<Rightarrow> bool" where
  "settles P opts r \<longleftrightarrow> settled_value (rec_state r) \<and>
     (\<exists>obs key material sig methods m. js_get (obj_get r ''effect_event'') ''observation'' = JObj obs \<and>
        obj_get obs ''outcome'' = rec_state r \<and> obj_get obs ''finality'' = JStr ''settled'' \<and>
        vp_allowedMethods opts = Some methods \<and> obj_get obs ''method'' = JStr m \<and> m \<in> set methods \<and>
        (\<forall>field \<in> set BINDING_FIELDS. obj_get obs field = js_get (event_attempt r) field) \<and>
        vp_trustedObservers opts (js_string (obj_get obs ''observer_key_id'')) = Some key \<and>
        obj_get obs ''signature'' = JStr sig \<and> effectObservationMaterial P obs = Inr material \<and> verifyEd25519 P key material sig)"

lemma as_string_Some: "as_string v = Some s \<longleftrightarrow> v = JStr s"
  by (cases v) auto

lemma verify_value_True: "verify_value P key m v \<longleftrightarrow> (\<exists>s. v = JStr s \<and> verifyEd25519 P key m s)"
  by (cases v) (auto simp: verify_value_def)

lemma ledger_signature_Inr:
  assumes "check_ledger_signature P opts r = Inr u"
  shows "\<exists>key sig. vp_trustedLedgerKeys opts (js_string (obj_get r ''signing_key_id'')) = Some key \<and>
    obj_get r ''signature'' = JStr sig \<and> verifyEd25519 P key (js_string (obj_get r ''record_hash'')) sig"
  using assms by (auto simp: check_ledger_signature_def Let_def verify_value_True the_default_def split: if_splits option.splits)

lemma event_check_Inr:
  assumes "check_event P r = Inr a"
  shows "a = event_attempt r" "rec_state r \<in> set EFFECT_STATES"
    and "\<forall>field \<in> {''warrant_id'', ''authority_envelope_id'', ''canonical_action_hash'', ''subject'', ''ward_id''}.
      obj_get r field = js_get (event_attempt r) field"
  using assms by (auto simp: check_event_def event_attempt_def Let_def dest: strict_eqD split: if_splits)

lemma js_get_defined: "js_get v k \<noteq> JUndef \<Longrightarrow> \<exists>es. v = JObj es"
  by (cases v) auto

lemma observation_Inr:
  assumes "check_evidence_observation P opts prev (event_attempt r) obs = Inr u" "settled_value (rec_state r)"
    and "obs = js_get (obj_get r ''effect_event'') ''observation''"
  shows "settles P opts r"
proof -
  obtain es where es: "obs = JObj es"
    using assms(1) js_get_defined[of obs "''version''"]
    by (auto simp: check_evidence_observation_def Let_def split: if_splits option.splits)
  have o: "js_get (obj_get r ''effect_event'') ''observation'' = JObj es" using assms(3) es by simp
  note c = assms(1)[unfolded es check_evidence_observation_def Let_def]
  from c assms(2) obtain methods m key material sig where
    f: "strict_eq (obj_get es ''outcome'') (rec_state r)" "obj_get es ''finality'' = JStr ''settled''"
      "vp_allowedMethods opts = Some methods" "obj_get es ''method'' = JStr m" "m \<in> set methods"
      "\<forall>field \<in> set BINDING_FIELDS. strict_eq (obj_get es field) (js_get (event_attempt r) field)"
      "vp_trustedObservers opts (js_string (obj_get es ''observer_key_id'')) = Some key"
      "obj_get es ''signature'' = JStr sig" "effectObservationMaterial P es = Inr material" "verifyEd25519 P key material sig"
    by (auto simp: verify_value_True the_default_def dest: strict_eqD split: if_splits option.splits)
  have "\<forall>field \<in> set BINDING_FIELDS. obj_get es field = js_get (event_attempt r) field"
    using f(6) strict_eqD by blast
  with f o strict_eqD[OF f(1)] assms(2) show ?thesis unfolding settles_def by blast
qed

lemma check_record_Inr:
  assumes "check_record P opts r st = Inr st'"
  obtains st1 where "trusted_record P opts r" "rec_state r \<in> set EFFECT_STATES"
    "value_get (ev_latest st) (rec_id r) = None \<longrightarrow> check_first P st (event_attempt r) = Inr st1"
    "\<forall>p. value_get (ev_latest st) (rec_id r) = Some p \<longrightarrow> check_transition P p (event_attempt r) = Inr () \<and> st1 = st"
    "settled_value (rec_state r) \<longrightarrow> settles P opts r"
    "st' = st1 \<lparr> ev_latest := value_set (rec_id r) (event_attempt r) (ev_latest st1) \<rparr>"
proof -
  let ?prev = "value_get (ev_latest st) (rec_id r)"
  let ?obs = "js_get (obj_get r ''effect_event'') ''observation''"
  from assms obtain a st1 u where c: "check_ledger_signature P opts r = Inr u" "check_event P r = Inr a"
    and st1: "(case value_get (ev_latest st) (js_get a ''attempt_id'') of None \<Rightarrow> check_first P st a
        | Some p \<Rightarrow> bind_check (check_transition P p a) (\<lambda>_. Inr st)) = Inr st1"
    and obs: "(if settled_value (js_get a ''state'') \<or> truthy ?obs
        then check_evidence_observation P opts (value_get (ev_latest st) (js_get a ''attempt_id'')) a ?obs else Inr ()) = Inr ()"
    and st': "st' = st1 \<lparr> ev_latest := value_set (js_get a ''attempt_id'') a (ev_latest st1) \<rparr>"
    by (auto simp: check_record_def Let_def)
  note a = event_check_Inr[OF c(2)]
  have "trusted_record P opts r"
    using ledger_signature_Inr[OF c(1)] a(3) by (auto simp: trusted_record_def)
  moreover have "settles P opts r" if "settled_value (rec_state r)"
  proof (rule observation_Inr[OF _ that refl])
    show "check_evidence_observation P opts ?prev (event_attempt r) ?obs = Inr ()"
      using obs that unfolding a(1) by (simp split: if_splits)
  qed
  ultimately show thesis
    by (intro that[of st1]) (use a(2) st1 st' in \<open>auto simp: a(1)\<close>)
qed

section \<open>The invariant of the loop\<close>

lemma value_get_Some:
  assumes "value_get m k = Some v"
  shows "(k, v) \<in> set m \<and> strict_eq k k"
proof -
  from assms obtain k' where "find (\<lambda>e. strict_eq (fst e) k) m = Some (k', v)" by (auto simp: value_get_def)
  from find_split[OF this] have "(k', v) \<in> set m" "strict_eq k' k" by auto
  with strict_eqD show ?thesis by metis
qed

lemma value_get_None: "value_get m k = None \<longleftrightarrow> (\<forall>e \<in> set m. \<not> strict_eq (fst e) k)"
  by (auto simp: value_get_def find_None_iff)

lemma set_value_set: "e \<in> set (value_set k v m) \<Longrightarrow> e = (k, v) \<or> e \<in> set m"
  by (induction k v m rule: value_set.induct) (auto dest: strict_eqD split: if_splits)

lemma keys_value_set: "fst ` set (value_set k v m) = insert k (fst ` set m)"
  by (induction k v m rule: value_set.induct) (auto dest: strict_eqD)

lemma check_first_Inr:
  assumes "check_first P st a = Inr st1"
  obtains scope where "js_get a ''state'' = JStr ''AUTHORIZED''" "attempt_scope P a = Inr scope"
    "\<forall>w \<in> set (ev_usedWarrants st). \<not> strict_eq w (js_get a ''warrant_id'')"
    "\<And>p. map_of (ev_operations st) scope = Some p \<Longrightarrow> truthy p \<Longrightarrow>
       \<exists>q. value_get (ev_latest st) p = Some q \<and> js_get q ''state'' = JStr ''CONFIRMED_NO_EFFECT''"
    "st1 = st \<lparr> ev_operations := map_set scope (js_get a ''attempt_id'') (ev_operations st),
        ev_usedWarrants := ev_usedWarrants st @ [js_get a ''warrant_id''] \<rparr>"
  using assms by (auto simp: check_first_def Let_def list_ex_iff split: if_splits option.splits)

lemma transition_not_dispatch: "check_transition P p a = Inr u \<Longrightarrow> js_get a ''state'' \<noteq> JStr ''AUTHORIZED''"
  by (auto simp: check_transition_def Let_def split: if_splits)

definition in_scope :: "platform \<Rightarrow> string \<Rightarrow> GelRecord \<Rightarrow> bool" where
  "in_scope P scope r \<longleftrightarrow> dispatch r \<and> attempt_scope P (event_attempt r) = Inr scope"

text \<open>The state of the loop after the records \<open>done\<close>: the attempts seen, the last dispatch per scope, the warrants used.\<close>

definition latest_inv :: "platform \<Rightarrow> EvidenceOptions \<Rightarrow> GelRecord list \<Rightarrow> evidence_state \<Rightarrow> bool" where
  "latest_inv P opts seen st \<longleftrightarrow>
     (\<forall>e \<in> set (ev_latest st). \<exists>r \<in> set seen. e = (rec_id r, event_attempt r) \<and> (settled_value (rec_state r) \<longrightarrow> settles P opts r)) \<and>
     (\<forall>r \<in> set seen. trusted_record P opts r \<and> rec_id r \<in> fst ` set (ev_latest st))"

definition dispatch_inv :: "platform \<Rightarrow> GelRecord list \<Rightarrow> evidence_state \<Rightarrow> bool" where
  "dispatch_inv P seen st \<longleftrightarrow>
     (\<forall>scope. map_of (ev_operations st) scope = map_option rec_id (find (in_scope P scope) (rev seen))) \<and>
     ev_usedWarrants st = map rec_warrant (filter dispatch seen)"

text \<open>
  What the ledger shows: a dispatch starts a new attempt on an unused warrant, and between two
  dispatches of one operation the first is settled without effect.
\<close>

definition attempts_new :: "GelRecord list \<Rightarrow> bool" where
  "attempts_new seen \<longleftrightarrow> (\<forall>j < length seen. dispatch (seen ! j) \<longrightarrow> (\<forall>i < j. \<not> strict_eq (rec_id (seen ! i)) (rec_id (seen ! j))))"

definition warrants_once :: "GelRecord list \<Rightarrow> bool" where
  "warrants_once seen \<longleftrightarrow> sorted_wrt (\<lambda>r r'. \<not> strict_eq (rec_warrant r) (rec_warrant r')) (filter dispatch seen)"

definition redispatch_settled :: "platform \<Rightarrow> EvidenceOptions \<Rightarrow> GelRecord list \<Rightarrow> bool" where
  "redispatch_settled P opts seen \<longleftrightarrow>
     (\<forall>j < length seen. \<forall>i < j. \<forall>scope. in_scope P scope (seen ! i) \<and> in_scope P scope (seen ! j) \<and> truthy (rec_id (seen ! i)) \<longrightarrow>
        (\<exists>m. i < m \<and> m < j \<and> rec_id (seen ! m) = rec_id (seen ! i) \<and> rec_state (seen ! m) = JStr ''CONFIRMED_NO_EFFECT'' \<and>
           settles P opts (seen ! m)))"

definition evidence_inv :: "platform \<Rightarrow> EvidenceOptions \<Rightarrow> GelRecord list \<Rightarrow> evidence_state \<Rightarrow> bool" where
  "evidence_inv P opts seen st \<longleftrightarrow> latest_inv P opts seen st \<and> dispatch_inv P seen st \<and>
     attempts_new seen \<and> warrants_once seen \<and> redispatch_settled P opts seen"

lemma latest_inv_step:
  assumes "latest_inv P opts seen st" "check_record P opts r st = Inr st'"
  shows "latest_inv P opts (seen @ [r]) st'"
proof -
  obtain st1 where c: "trusted_record P opts r" "rec_state r \<in> set EFFECT_STATES"
    "value_get (ev_latest st) (rec_id r) = None \<longrightarrow> check_first P st (event_attempt r) = Inr st1"
    "\<forall>p. value_get (ev_latest st) (rec_id r) = Some p \<longrightarrow> check_transition P p (event_attempt r) = Inr () \<and> st1 = st"
    "settled_value (rec_state r) \<longrightarrow> settles P opts r"
    "st' = st1 \<lparr> ev_latest := value_set (rec_id r) (event_attempt r) (ev_latest st1) \<rparr>"
    by (rule check_record_Inr[OF assms(2)])
  have "ev_latest st1 = ev_latest st"
    using c(3,4) by (cases "value_get (ev_latest st) (rec_id r)") (auto elim!: check_first_Inr)
  then have l: "ev_latest st' = value_set (rec_id r) (event_attempt r) (ev_latest st)" by (simp add: c(6))
  have "\<exists>q \<in> set (seen @ [r]). e = (rec_id q, event_attempt q) \<and> (settled_value (rec_state q) \<longrightarrow> settles P opts q)"
    if "e \<in> set (ev_latest st')" for e
    using set_value_set[OF that[unfolded l]] assms(1) c(5) by (auto simp: latest_inv_def)
  moreover have "\<forall>q \<in> set (seen @ [r]). trusted_record P opts q \<and> rec_id q \<in> fst ` set (ev_latest st')"
    unfolding l keys_value_set using assms(1) c(1) by (auto simp: latest_inv_def)
  ultimately show ?thesis unfolding latest_inv_def by blast
qed

text \<open>Either the record starts an attempt, or it is no dispatch and leaves the rest of the state alone.\<close>

lemma check_record_cases:
  assumes "check_record P opts r st = Inr st'"
  obtains scope where "value_get (ev_latest st) (rec_id r) = None" "in_scope P scope r"
    "\<forall>w \<in> set (ev_usedWarrants st). \<not> strict_eq w (rec_warrant r)"
    "\<And>p. map_of (ev_operations st) scope = Some p \<Longrightarrow> truthy p \<Longrightarrow>
       \<exists>q. value_get (ev_latest st) p = Some q \<and> js_get q ''state'' = JStr ''CONFIRMED_NO_EFFECT''"
    "ev_operations st' = map_set scope (rec_id r) (ev_operations st)" "ev_usedWarrants st' = ev_usedWarrants st @ [rec_warrant r]"
  | "\<not> dispatch r" "ev_operations st' = ev_operations st" "ev_usedWarrants st' = ev_usedWarrants st"
proof -
  obtain st1 where c: "trusted_record P opts r" "rec_state r \<in> set EFFECT_STATES"
    "value_get (ev_latest st) (rec_id r) = None \<longrightarrow> check_first P st (event_attempt r) = Inr st1"
    "\<forall>p. value_get (ev_latest st) (rec_id r) = Some p \<longrightarrow> check_transition P p (event_attempt r) = Inr () \<and> st1 = st"
    "settled_value (rec_state r) \<longrightarrow> settles P opts r"
    "st' = st1 \<lparr> ev_latest := value_set (rec_id r) (event_attempt r) (ev_latest st1) \<rparr>"
    by (rule check_record_Inr[OF assms])
  show thesis
  proof (cases "value_get (ev_latest st) (rec_id r)")
    case None
    show thesis
    proof (rule check_first_Inr[OF c(3)[rule_format, OF None]])
      fix scope
      assume f: "dispatch r" "attempt_scope P (event_attempt r) = Inr scope"
        "\<forall>w \<in> set (ev_usedWarrants st). \<not> strict_eq w (rec_warrant r)"
        "\<And>p. map_of (ev_operations st) scope = Some p \<Longrightarrow> truthy p \<Longrightarrow>
          \<exists>q. value_get (ev_latest st) p = Some q \<and> js_get q ''state'' = JStr ''CONFIRMED_NO_EFFECT''"
        "st1 = st \<lparr> ev_operations := map_set scope (rec_id r) (ev_operations st), ev_usedWarrants := ev_usedWarrants st @ [rec_warrant r] \<rparr>"
      show thesis by (rule that(1)[OF None _ f(3,4)]) (use f c(6) in \<open>auto simp: in_scope_def\<close>)
    qed
  next
    case (Some p)
    with c(4)[rule_format, OF Some] c(6) transition_not_dispatch that(2) show thesis by auto
  qed
qed

lemma dispatch_inv_step:
  assumes "dispatch_inv P seen st" "check_record P opts r st = Inr st'"
  shows "dispatch_inv P (seen @ [r]) st'"
  using assms(2)
proof (cases rule: check_record_cases)
  case (1 scope)
  then have "in_scope P sc r \<longleftrightarrow> sc = scope" for sc by (auto simp: in_scope_def)
  with 1 assms(1) show ?thesis by (auto simp: dispatch_inv_def js_simps in_scope_def)
next
  case 2
  with assms(1) show ?thesis by (auto simp: dispatch_inv_def in_scope_def)
qed

lemma nth_snoc: "j < length (xs @ [x]) \<Longrightarrow> (xs @ [x]) ! j = (if j < length xs then xs ! j else x)"
  by (auto simp: nth_append)

lemma attempts_new_step:
  assumes "latest_inv P opts seen st" "attempts_new seen" "check_record P opts r st = Inr st'"
  shows "attempts_new (seen @ [r])"
proof -
  have "\<not> strict_eq (rec_id q) (rec_id r)" if "dispatch r" "q \<in> set seen" for q
    using assms(3)
  proof (cases rule: check_record_cases)
    case (1 scope)
    with assms(1) that(2) show ?thesis by (fastforce simp: latest_inv_def value_get_None)
  qed (use that in simp)
  with assms(2) show ?thesis by (auto simp: attempts_new_def nth_append less_Suc_eq)
qed

lemma warrants_once_step:
  assumes "dispatch_inv P seen st" "warrants_once seen" "check_record P opts r st = Inr st'"
  shows "warrants_once (seen @ [r])"
  using assms(3)
proof (cases rule: check_record_cases)
  case (1 scope)
  with assms(1,2) show ?thesis by (auto simp: warrants_once_def dispatch_inv_def sorted_wrt_append in_scope_def)
next
  case 2
  with assms(2) show ?thesis by (simp add: warrants_once_def)
qed

lemma redispatch_step:
  assumes inv: "latest_inv P opts seen st" "dispatch_inv P seen st" "attempts_new seen" "redispatch_settled P opts seen"
    and c: "check_record P opts r st = Inr st'"
  shows "redispatch_settled P opts (seen @ [r])"
proof -
  have new: "\<exists>m. i < m \<and> m < length seen \<and> rec_id (seen ! m) = rec_id (seen ! i) \<and> rec_state (seen ! m) = JStr ''CONFIRMED_NO_EFFECT'' \<and>
      settles P opts (seen ! m)"
    if i: "i < length seen" "in_scope P scope (seen ! i)" "in_scope P scope r" "truthy (rec_id (seen ! i))" for i scope
    using c
  proof (cases rule: check_record_cases)
    case (1 sc)
    then have sc: "sc = scope" using i(3) by (auto simp: in_scope_def)
    have "find (in_scope P scope) (rev seen) \<noteq> None" using i(1,2) by (metis find_None_iff nth_mem set_rev)
    then obtain q where q: "find (in_scope P scope) (rev seen) = Some q" by blast
    from find_rev_last[OF q] obtain ys zs where s: "seen = ys @ q # zs" "in_scope P scope q" "\<forall>z \<in> set zs. \<not> in_scope P scope z"
      by metis
    let ?l = "length ys"
    have il: "i \<le> ?l"
    proof (rule ccontr)
      assume "\<not> i \<le> ?l"
      then have "seen ! i \<in> set zs" using i(1) by (auto simp: s(1) nth_append nth_Cons')
      with s(3) i(2) show False by blast
    qed
    show ?thesis
    proof (cases "i = ?l")
      case False
      have l: "?l < length seen" "seen ! ?l = q" by (simp_all add: s(1))
      obtain m where "i < m" "m < ?l" "rec_id (seen ! m) = rec_id (seen ! i)"
        "rec_state (seen ! m) = JStr ''CONFIRMED_NO_EFFECT''" "settles P opts (seen ! m)"
        using inv(4)[unfolded redispatch_settled_def, rule_format, of ?l i scope] l il False i s(2) by auto
      with s(1) show ?thesis by auto
    next
      case True
      then have qi: "seen ! i = q" by (simp add: s(1))
      have "map_of (ev_operations st) sc = Some (rec_id q)"
        using inv(2) q by (simp add: dispatch_inv_def sc)
      from 1(4)[OF this] i(4) qi obtain a where a: "value_get (ev_latest st) (rec_id q) = Some a" "js_get a ''state'' = JStr ''CONFIRMED_NO_EFFECT''"
        by auto
      have mem: "(rec_id q, a) \<in> set (ev_latest st)" "strict_eq (rec_id q) (rec_id q)"
        using value_get_Some[OF a(1)] by simp_all
      from inv(1) mem(1) obtain x where x0: "x \<in> set seen" "(rec_id q, a) = (rec_id x, event_attempt x)"
          "settled_value (rec_state x) \<longrightarrow> settles P opts x"
        unfolding latest_inv_def by blast
      then have x: "x \<in> set seen" "rec_id x = rec_id q" "event_attempt x = a" "settled_value (rec_state x) \<longrightarrow> settles P opts x"
          "strict_eq (rec_id q) (rec_id q)"
        using mem(2) by auto
      then obtain m where m: "m < length seen" "seen ! m = x" by (auto simp: in_set_conv_nth)
      have "m \<noteq> i" using m(2) qi x(3) a(2) s(2) by (auto simp: in_scope_def)
      moreover have "\<not> m < i"
      proof
        assume "m < i"
        moreover have "dispatch (seen ! i)" using s(2) qi by (simp add: in_scope_def)
        ultimately have "\<not> strict_eq (rec_id (seen ! m)) (rec_id (seen ! i))"
          using inv(3)[unfolded attempts_new_def, rule_format, OF i(1)] by blast
        with x(2,5) m(2) qi show False by simp
      qed
      ultimately have "i < m" by simp
      with m x a(2) qi show ?thesis by auto
    qed
  qed (use i(3) in \<open>simp add: in_scope_def\<close>)
  show ?thesis unfolding redispatch_settled_def
  proof (intro allI impI)
    fix j i scope
    assume j: "j < length (seen @ [r])" "i < j"
      and a: "in_scope P scope ((seen @ [r]) ! i) \<and> in_scope P scope ((seen @ [r]) ! j) \<and> truthy (rec_id ((seen @ [r]) ! i))"
    have i: "i < length seen" using j by simp
    have "\<exists>m. i < m \<and> m < j \<and> m < length seen \<and> rec_id (seen ! m) = rec_id (seen ! i) \<and>
        rec_state (seen ! m) = JStr ''CONFIRMED_NO_EFFECT'' \<and> settles P opts (seen ! m)"
    proof (cases "j < length seen")
      case True
      with inv(4)[unfolded redispatch_settled_def, rule_format, OF True j(2), of scope] a i show ?thesis
        by (auto simp: nth_append)
    next
      case False
      with new[OF i, of scope] a i j show ?thesis by (auto simp: nth_append)
    qed
    then show "\<exists>m. i < m \<and> m < j \<and> rec_id ((seen @ [r]) ! m) = rec_id ((seen @ [r]) ! i) \<and>
        rec_state ((seen @ [r]) ! m) = JStr ''CONFIRMED_NO_EFFECT'' \<and> settles P opts ((seen @ [r]) ! m)"
      using i by (auto simp: nth_append)
  qed
qed

lemma evidence_inv_step:
  "evidence_inv P opts seen st \<Longrightarrow> check_record P opts r st = Inr st' \<Longrightarrow> evidence_inv P opts (seen @ [r]) st'"
  unfolding evidence_inv_def
  using latest_inv_step dispatch_inv_step attempts_new_step warrants_once_step redispatch_step by metis

lemma check_records_snoc:
  "check_records P opts (rs @ [r]) st = bind_check (check_records P opts rs st) (check_record P opts r)"
proof (induction rs arbitrary: st)
  case Nil
  show ?case by (cases "check_record P opts r st") auto
next
  case (Cons q rs)
  then show ?case by (cases "check_record P opts q st") auto
qed

lemma evidence_inv_records: "check_records P opts rs initial_state = Inr st \<Longrightarrow> evidence_inv P opts rs st"
proof (induction rs arbitrary: st rule: rev_induct)
  case Nil
  then show ?case by (auto simp: evidence_inv_def latest_inv_def dispatch_inv_def attempts_new_def warrants_once_def
        redispatch_settled_def initial_state_def)
next
  case (snoc r rs)
  then show ?case by (auto simp: check_records_snoc intro: evidence_inv_step)
qed

section \<open>What a verdict PASS establishes\<close>

text \<open>No check stops with \<open>PASS\<close>.\<close>

definition no_early_pass :: "'a check \<Rightarrow> bool" where
  "no_early_pass c \<longleftrightarrow> (\<forall>v. c = Inl v \<longrightarrow> fst v \<noteq> PASS)"

lemma no_early_pass_simps [simp]:
  "no_early_pass (Inr x)" "no_early_pass (stop status reason) \<longleftrightarrow> status \<noteq> PASS" "no_early_pass (guarded r)"
  by (auto simp: no_early_pass_def stop_def guarded_def split: sum.splits)

lemma no_early_pass_bind: "no_early_pass c \<Longrightarrow> (\<And>x. no_early_pass (f x)) \<Longrightarrow> no_early_pass (bind_check c f)"
  by (cases c) (auto simp: no_early_pass_def)

lemma no_early_pass_checks:
  "no_early_pass (check_ledger_signature P opts r)" "no_early_pass (check_event P r)"
  "no_early_pass (check_first P st a)" "no_early_pass (check_transition P p a)"
  by (simp_all add: check_ledger_signature_def check_event_def check_first_def check_transition_def Let_def no_early_pass_bind)

lemma no_early_pass_observation: "no_early_pass (check_evidence_observation P opts prev a obs)"
  by (simp add: check_evidence_observation_def Let_def no_early_pass_bind split: option.split)

lemma no_early_pass_record: "no_early_pass (check_record P opts r st)"
  unfolding check_record_def Let_def
  by (intro no_early_pass_bind)
     (simp_all add: no_early_pass_checks no_early_pass_observation no_early_pass_bind split: option.split)

lemma no_early_pass_records: "no_early_pass (check_records P opts rs st)"
  by (induction rs arbitrary: st) (auto intro: no_early_pass_bind no_early_pass_record)

lemma verify_PASS:
  assumes "verifyEffectEvidence P records opts = (PASS, reasons)"
  obtains st h where "chain_ok P records" "vp_expectedTipHash opts = Some h" "chain_tip records = JStr h"
    "check_records P opts records initial_state = Inr st" "ev_latest st \<noteq> []"
    "\<forall>e \<in> set (ev_latest st). settled_value (js_get (snd e) ''state'')"
proof -
  obtain chain where chain: "verifyGelRecords P records = Inr chain" "gv_ok chain"
    using assms by (auto simp: verifyEffectEvidence_def guarded_def stop_def split: sum.splits if_splits)
  moreover have "\<not> (case vp_expectedTipHash opts of None \<Rightarrow> False | Some h \<Rightarrow> chain_tip records \<noteq> JStr h)"
    using assms chain by (auto simp: verifyEffectEvidence_def guarded_def stop_def simp del: option.case_cong split: if_splits)
  moreover obtain st where st: "check_records P opts records initial_state = Inr st"
    using assms no_early_pass_records[of P opts records initial_state] calculation
    by (cases "check_records P opts records initial_state") (auto simp: verifyEffectEvidence_def guarded_def no_early_pass_def)
  ultimately have "final_reasons opts st = []"
    using assms by (simp add: verifyEffectEvidence_def guarded_def Let_def split: if_splits)
  then show thesis
    using that[OF _ _ _ st] chain \<open>\<not> (case vp_expectedTipHash opts of None \<Rightarrow> False | Some h \<Rightarrow> chain_tip records \<noteq> JStr h)\<close>
    by (auto simp: final_reasons_def chain_ok_def list_ex_iff split: if_splits option.splits)
qed

text \<open>
  C20: when the offline check of an effect ledger answers \<open>PASS\<close>, the ledger is the anchored one and its
  chain verifies; every record is signed under a trusted key and names the warrant, action, subject and
  Ward of its attempt; every attempt is settled by a final observation a trusted observer signed
  for exactly that attempt; no warrant is consumed by two attempts; and between two dispatches of one
  operation the first one was settled without effect, provided its attempt id is not the empty text, for
  which the verifier skips this check.
\<close>

theorem effect_evidence_sound:
  assumes "verifyEffectEvidence P records opts = (PASS, reasons)"
  shows "(\<exists>h. vp_expectedTipHash opts = Some h \<and> chain_tip records = JStr h) \<and> chain_ok P records \<and> records \<noteq> [] \<and>
    (\<forall>r \<in> set records. trusted_record P opts r \<and> (\<exists>r' \<in> set records. rec_id r' = rec_id r \<and> settles P opts r')) \<and>
    warrants_once records \<and> redispatch_settled P opts records"
proof (rule verify_PASS[OF assms])
  fix st h
  assume a: "chain_ok P records" "vp_expectedTipHash opts = Some h" "chain_tip records = JStr h"
    "check_records P opts records initial_state = Inr st" "ev_latest st \<noteq> []"
    "\<forall>e \<in> set (ev_latest st). settled_value (js_get (snd e) ''state'')"
  have inv: "latest_inv P opts records st" "warrants_once records" "redispatch_settled P opts records"
    using evidence_inv_records[OF a(4)] by (simp_all add: evidence_inv_def)
  have "\<exists>r' \<in> set records. rec_id r' = rec_id r \<and> settles P opts r'" if r: "r \<in> set records" for r
  proof -
    obtain e where e: "e \<in> set (ev_latest st)" "fst e = rec_id r"
      using inv(1) r by (auto simp: latest_inv_def)
    then obtain r' where r': "r' \<in> set records" "e = (rec_id r', event_attempt r')" "settled_value (rec_state r') \<longrightarrow> settles P opts r'"
      using inv(1) unfolding latest_inv_def by blast
    with e(2) a(6) e(1) show ?thesis by auto
  qed
  moreover have "records \<noteq> []" using a(4,5) by (auto simp: initial_state_def)
  ultimately show ?thesis using a(1-3) inv by (auto simp: latest_inv_def)
qed

end
