(* ===== verification/Effect_Complete.thy ===== *)
theory Effect_Complete
  imports Effect_Safety Effect_Evidence
begin

text \<open>
  The store and the offline verifier fit together: the ledger of a store that was used within the trust
  the verifier is configured with passes the verifier.  The store's \<open>begin\<close> does not itself check that the
  Ward it is given is the one the action names, which the verifier insists on, so the runs considered
  make that check first.
\<close>

section \<open>Use within the verifier's trust\<close>

definition trusted_use :: "effect_config \<Rightarrow> EvidenceOptions \<Rightarrow> bool" where
  "trusted_use cfg opts \<longleftrightarrow> sg_key_id (ec_signer cfg) \<noteq> [] \<and>
     vp_trustedLedgerKeys opts (sg_key_id (ec_signer cfg)) = Some (sg_public_key_pem (ec_signer cfg)) \<and>
     vp_allowedMethods opts \<noteq> None"

definition trusted_reconcile :: "EvidenceOptions \<Rightarrow> ReconcileOptions \<Rightarrow> bool" where
  "trusted_reconcile opts ro \<longleftrightarrow> ro_trustedObservers ro \<subseteq>\<^sub>m vp_trustedObservers opts \<and>
     (\<exists>methods. vp_allowedMethods opts = Some methods \<and> set (ro_allowedMethods ro) \<subseteq> set methods)"

inductive trusted_run :: "platform \<Rightarrow> effect_config \<Rightarrow> EvidenceOptions \<Rightarrow> effect_db \<Rightarrow> bool" for P cfg opts where
  run_empty: "trusted_run P cfg opts empty_db"
| run_begin: "trusted_run P cfg opts db \<Longrightarrow> wm_ward_id (bi_ward input) = act_ward_id (bi_action input) \<Longrightarrow>
    begin_effect P cfg wall uuid input db = Inr (a, db') \<Longrightarrow> trusted_run P cfg opts db'"
| run_unknown: "trusted_run P cfg opts db \<Longrightarrow> markUnknown P cfg eid i now db = Inr (a, db') \<Longrightarrow> trusted_run P cfg opts db'"
| run_reconcile: "trusted_run P cfg opts db \<Longrightarrow> trusted_reconcile opts ro \<Longrightarrow>
    reconcile_effect P cfg wall eid obs ro db = Inr (a, db') \<Longrightarrow> trusted_run P cfg opts db'"

lemma trusted_run_reachable: "trusted_run P cfg opts db \<Longrightarrow> effect_reachable P cfg db"
  by (induction rule: trusted_run.induct)
     (auto intro: effect_reachable.intros effect_step.intros)

section \<open>The context of a stored attempt names the attempt\<close>

definition context_bound :: "Stored \<Rightarrow> bool" where
  "context_bound s \<longleftrightarrow> (let a = st_attempt s; c = st_context s in
     wr_warrant_id (cx_warrant c) = eb_warrant_id a \<and>
     cg_authority_envelope_id (cx_decision c) = Some (eb_authority_envelope_id a) \<and>
     cg_canonical_action_hash (cx_decision c) = eb_canonical_action_hash a \<and>
     act_subject (cx_action c) = eb_subject a \<and> wm_ward_id (cx_ward c) = eb_ward_id a)"

definition dated :: "platform \<Rightarrow> EffectAttempt \<Rightarrow> bool" where
  "dated P a \<longleftrightarrow> date_parse P (ea_started_at a) \<noteq> None \<and> date_parse P (ea_updated_at a) \<noteq> None"

abbreviation event_ready :: "platform \<Rightarrow> Stored \<Rightarrow> bool" where
  "event_ready P s \<equiv> event_context s \<and> context_bound s \<and> dated P (st_attempt s)"

lemma context_bound_clone: "context_bound (clone_stored s) = context_bound s"
  by (simp add: context_bound_def clone_stored_def Let_def)

lemmas clone_ready = clone_stored_context context_bound_clone clone_stored_attempt

lemma event_ready_change:
  "event_ready P s \<Longrightarrow> date_parse P now \<noteq> None \<Longrightarrow> event_ready P (attempt_change i s st now)"
  by (simp add: context_bound_def attempt_change_def event_context_def dated_def Let_def)

section \<open>One event passes the checks\<close>

text \<open>A record the store wrote for the event.\<close>

definition event_record :: "platform \<Rightarrow> effect_config \<Rightarrow> string \<Rightarrow> Stored \<Rightarrow> EffectObservation option \<Rightarrow> GelRecord \<Rightarrow> bool" where
  "event_record P cfg eid stored obs r \<longleftrightarrow>
     (\<exists>r0 p. buildGelRecord P [] (JStr p) (event_input cfg eid stored obs) = Inr r0 \<and> r = clone_object r0)"

lemma event_appends:
  assumes "log_ok P db" "event P cfg eid stored obs d = Inr db'" "db_gel d = db_gel db"
  obtains r where "event_record P cfg eid stored obs r" "db_gel db' = db_gel db @ [r]"
proof -
  obtain p where p: "chain_tip (db_gel d) = JStr p" using log_tip[OF assms(1)] assms(3) by metis
  obtain r where r: "buildGelRecord P [] (JStr p) (event_input cfg eid stored obs) = Inr r" "db_gel db' = db_gel db @ [clone_object r]"
    by (rule event_Inr[OF assms(2)]) (use p assms(3) in auto)
  then have "event_record P cfg eid stored obs (clone_object r)" unfolding event_record_def by blast
  with that r(2) show thesis by blast
qed

lemma event_record_fields:
  assumes "event_record P cfg eid stored obs r" "event_context stored"
  shows "obj_get r ''effect_event'' = effect_event eid (st_attempt stored) obs"
    and "obj_get r ''ward_id'' = JStr (wm_ward_id (cx_ward (st_context stored)))"
    and "obj_get r ''subject'' = JStr (act_subject (cx_action (st_context stored)))"
    and "obj_get r ''canonical_action_hash'' = JStr (cg_canonical_action_hash (cx_decision (st_context stored)))"
    and "obj_get r ''warrant_id'' = JStr (wr_warrant_id (cx_warrant (st_context stored)))"
    and "obj_get r ''authority_envelope_id'' = json_clone (opt_json JStr (cg_authority_envelope_id (cx_decision (st_context stored))))"
    and "\<exists>h. obj_get r ''record_hash'' = JStr h \<and> obj_get r ''signature'' = JStr (sg_sign (ec_signer cfg) h)"
    and "obj_get r ''signing_key_id'' = JStr (sg_key_id (ec_signer cfg))"
proof -
  obtain r0 p where b: "buildGelRecord P [] (JStr p) (event_input cfg eid stored obs) = Inr r0" and r: "r = clone_object r0"
    using assms(1) by (auto simp: event_record_def)
  have get: "obj_get r k = json_clone (obj_get r0 k)" for k
    using obj_get_clone[OF built_keys_distinct[OF b]] by (simp add: r)
  obtain j printed where r0: "r0 = gel_base (gel_timestamp [] (event_input cfg eid stored obs)) j (JStr p) (event_input cfg eid stored obs)
      @ [(''record_hash'', JStr (sha256_hex P printed))] @ sign_fields (bg_signer (event_input cfg eid stored obs)) (sha256_hex P printed)"
    using buildGelRecord_Inr[OF b] by metis
  show "obj_get r ''effect_event'' = effect_event eid (st_attempt stored) obs"
    by (simp add: get built_event_fields(1)[OF b] clone_solid event_solid)
  show "obj_get r ''ward_id'' = JStr (wm_ward_id (cx_ward (st_context stored)))"
    "obj_get r ''subject'' = JStr (act_subject (cx_action (st_context stored)))"
    "obj_get r ''canonical_action_hash'' = JStr (cg_canonical_action_hash (cx_decision (st_context stored)))"
    "obj_get r ''warrant_id'' = JStr (wr_warrant_id (cx_warrant (st_context stored)))"
    "obj_get r ''authority_envelope_id'' = json_clone (opt_json JStr (cg_authority_envelope_id (cx_decision (st_context stored))))"
    "\<exists>h. obj_get r ''record_hash'' = JStr h \<and> obj_get r ''signature'' = JStr (sg_sign (ec_signer cfg) h)"
    "obj_get r ''signing_key_id'' = JStr (sg_key_id (ec_signer cfg))"
    unfolding get by (simp_all add: r0 gel_base_def event_input_def sign_fields_def js_simps)
qed

lemma attempt_fields [simp]:
  "obj_get (attempt_object a) ''state'' = JStr (effect_state_name (ea_state a))"
  "obj_get (attempt_object a) ''started_at'' = JStr (ea_started_at a)"
  "obj_get (attempt_object a) ''updated_at'' = JStr (ea_updated_at a)"
  "obj_get (attempt_object a) ''consumed'' = JBool True"
  "obj_get (attempt_object a) ''warrant_id'' = JStr (eb_warrant_id a)"
  "obj_get (attempt_object a) ''attempt_id'' = JStr (eb_attempt_id a)"
  "obj_get (attempt_object a) ''ward_id'' = JStr (eb_ward_id a)"
  "obj_get (attempt_object a) ''subject'' = JStr (eb_subject a)"
  "obj_get (attempt_object a) ''operation_id'' = JStr (eb_operation_id a)"
  "obj_get (attempt_object a) ''authority_envelope_id'' = JStr (eb_authority_envelope_id a)"
  "obj_get (attempt_object a) ''canonical_action_hash'' = JStr (eb_canonical_action_hash a)"
  by (simp_all add: attempt_object_def binding_fields_def js_simps)

lemma event_record_attempt:
  "event_record P cfg eid stored obs r \<Longrightarrow> event_context stored \<Longrightarrow> event_attempt r = JObj (attempt_object (st_attempt stored))"
  by (simp add: event_attempt_def event_record_fields(1)) (simp add: effect_event_def js_simps)

lemma record_observation:
  "event_record P cfg eid stored obs r \<Longrightarrow> event_context stored \<Longrightarrow>
   js_get (obj_get r ''effect_event'') ''observation'' = (case obs of None \<Rightarrow> JUndef | Some o' \<Rightarrow> JObj (observation_object o'))"
  by (simp add: event_record_fields(1)) (simp add: effect_event_def js_simps obj_get_append split: option.split)

lemma ledger_signature_passes:
  assumes "event_record P cfg eid stored obs r" "event_context stored" "trusted_use cfg opts" "effect_signing P cfg"
  shows "check_ledger_signature P opts r = Inr ()"
proof -
  obtain h where h: "obj_get r ''record_hash'' = JStr h" "obj_get r ''signature'' = JStr (sg_sign (ec_signer cfg) h)"
    using event_record_fields(7)[OF assms(1,2)] by blast
  have sg: "signature_scheme (verifyEd25519 P) (sg_sign (ec_signer cfg)) (sg_public_key_pem (ec_signer cfg))"
    using assms(4) by (simp add: effect_signing_def)
  show ?thesis
    using assms(3,4) h event_record_fields(8)[OF assms(1,2)] signature_scheme.verify_sign[OF sg] signature_scheme.pub_nonempty[OF sg]
    by (simp add: check_ledger_signature_def trusted_use_def effect_signing_def verify_value_True the_default_def)
qed

lemma effect_state_listed: "JStr (effect_state_name s) \<in> set EFFECT_STATES"
  by (cases s) (simp_all add: EFFECT_STATES_def)

lemma event_check_passes:
  assumes "event_record P cfg eid stored obs r" "event_ready P stored"
  shows "check_event P r = Inr (JObj (attempt_object (st_attempt stored)))"
proof -
  note f = event_record_fields[OF assms(1)] 
  have a: "js_get (obj_get r ''effect_event'') ''attempt'' = JObj (attempt_object (st_attempt stored))"
    "truthy (obj_get r ''effect_event'')" "js_get (obj_get r ''effect_event'') ''version'' = JStr EFFECT_EVENT_VERSION"
    using assms(2) by (simp_all add: f(1)) (simp_all add: effect_event_def js_simps)
  show ?thesis
    using a f(2-6) assms(2) effect_state_listed[of "ea_state (st_attempt stored)"]
    by (simp add: check_event_def Let_def date_of_def dated_def context_bound_def)
qed

section \<open>The state of the verifier after the events of a store\<close>

definition store_evidence :: "evidence_state \<Rightarrow> effect_row list \<Rightarrow> bool" where
  "store_evidence st rows \<longleftrightarrow> ev_latest st = rows_view rows \<and> ev_usedWarrants st = map (\<lambda>r. JStr (er_warrant_id r)) rows \<and>
     (\<forall>sc. map_of (ev_operations st) sc = map_option (\<lambda>r. JStr (er_attempt_id r)) (find (\<lambda>r. er_scope r = sc) (rev rows)))"

lemma strict_eq_JStr [simp]: "strict_eq v (JStr s) \<longleftrightarrow> v = JStr s"
  by (cases v) auto

lemma value_set_JStr: "value_set (JStr k) v m = map_set (JStr k) v m"
  by (induction m) auto

lemma value_get_JStr: "value_get m (JStr k) = map_of m (JStr k)"
  by (induction m) (auto simp: value_get_def)

lemma find_map_same:
  assumes "\<And>x. Q (f x) = Q x" "\<And>x. g (f x) = g x"
  shows "map_option g (find Q (map f xs)) = map_option g (find Q xs)"
  by (induction xs) (auto simp: assms)

lemma store_evidence_update:
  assumes "store_evidence st rows" "distinct (map er_attempt_id rows)" "i \<in> er_attempt_id ` set rows"
  shows "store_evidence (st \<lparr> ev_latest := value_set (JStr i) (JObj (attempt_object (st_attempt stored))) (ev_latest st) \<rparr>)
    (map (\<lambda>r. if er_attempt_id r = i then r \<lparr> er_json := clone_stored stored \<rparr> else r) rows)"
proof -
  let ?f = "\<lambda>r. if er_attempt_id r = i then r \<lparr> er_json := clone_stored stored \<rparr> else r"
  have "map_option (\<lambda>r. JStr (er_attempt_id r)) (find (\<lambda>r. er_scope r = sc) (map ?f (rev rows))) =
      map_option (\<lambda>r. JStr (er_attempt_id r)) (find (\<lambda>r. er_scope r = sc) (rev rows))" for sc
    by (rule find_map_same) auto
  with assms(1) rows_view_update[OF assms(2,3), of stored] show ?thesis
    by (auto simp: store_evidence_def value_set_JStr rev_map)
qed

definition legal :: "EffectState \<Rightarrow> EffectState \<Rightarrow> bool" where
  "legal s s' \<longleftrightarrow> may_become s s' \<or> s = AUTHORIZED \<and> s' = IN_FLIGHT"

lemma transition_passes:
  assumes "legal (ea_state a) (ea_state a')" "a' = a \<lparr> ea_state := ea_state a', ea_updated_at := ea_updated_at a' \<rparr>"
  shows "check_transition P (JObj (attempt_object a)) (JObj (attempt_object a')) = Inr ()"
proof -
  have same: "filter (\<lambda>e. fst e \<noteq> ''state'' \<and> fst e \<noteq> ''updated_at'') (attempt_object a') =
      filter (\<lambda>e. fst e \<noteq> ''state'' \<and> fst e \<noteq> ''updated_at'') (attempt_object a)"
    by (subst assms(2)) (simp add: attempt_object_def binding_fields_def)
  obtain t where t: "immutable P (JObj (attempt_object a)) = Inr t"
    using stringify_total[of "JObj (filter (\<lambda>e. fst e \<noteq> ''state'' \<and> fst e \<noteq> ''updated_at'') (attempt_object a))" P]
    by (auto simp: immutable_def attempt_object_def binding_fields_def)
  then have "immutable P (JObj (attempt_object a')) = Inr t" by (simp add: immutable_def same)
  with t assms(1) show ?thesis
    by (cases "ea_state a"; cases "ea_state a'") (simp_all add: check_transition_def legal_def)
qed

text \<open>A later event of an attempt passes.\<close>

lemma later_event_passes:
  assumes ev: "store_evidence st rows" and d: "distinct (map er_attempt_id rows)"
    and row: "row \<in> set rows" "er_attempt_id row = i" "eb_attempt_id (st_attempt stored) = i"
    and leg: "legal (row_state row) (ea_state (st_attempt stored))"
      "st_attempt stored = (row_attempt row) \<lparr> ea_state := ea_state (st_attempt stored), ea_updated_at := ea_updated_at (st_attempt stored) \<rparr>"
    and r: "event_record P cfg eid stored obs r" "event_ready P stored" and use: "trusted_use cfg opts" "effect_signing P cfg"
    and ob: "case obs of None \<Rightarrow> \<not> terminal (ea_state (st_attempt stored))
      | Some o' \<Rightarrow> check_evidence_observation P opts (Some (JObj (attempt_object (row_attempt row))))
          (JObj (attempt_object (st_attempt stored))) (JObj (observation_object o')) = Inr ()"
  shows "\<exists>st'. check_record P opts r st = Inr st' \<and>
    store_evidence st' (map (\<lambda>r. if er_attempt_id r = i then r \<lparr> er_json := clone_stored stored \<rparr> else r) rows)"
proof -
  let ?a = "JObj (attempt_object (st_attempt stored))"
  let ?st = "st \<lparr> ev_latest := value_set (JStr i) ?a (ev_latest st) \<rparr>"
  have prev: "value_get (ev_latest st) (JStr i) = Some (JObj (attempt_object (row_attempt row)))"
    using ev map_of_rows_view[OF d row(1)] row(2) by (simp add: store_evidence_def value_get_JStr)
  have o: "js_get (obj_get r ''effect_event'') ''observation'' = (case obs of None \<Rightarrow> JUndef | Some o' \<Rightarrow> JObj (observation_object o'))"
    using record_observation[OF r(1)] r(2) by simp
  have "(if settled_value (js_get ?a ''state'') \<or> truthy (js_get (obj_get r ''effect_event'') ''observation'')
      then check_evidence_observation P opts (value_get (ev_latest st) (JStr i)) ?a (js_get (obj_get r ''effect_event'') ''observation'')
      else Inr ()) = Inr ()"
  proof (cases obs)
    case None
    then show ?thesis using ob by (cases "ea_state (st_attempt stored)") (simp_all add: o terminal_def)
  next
    case (Some o')
    then show ?thesis using ob prev by (simp add: o)
  qed
  then have "check_record P opts r st = Inr ?st"
    using ledger_signature_passes[OF r(1) _ use] event_check_passes[OF r] r(2) prev transition_passes[OF leg, of P] row(3)
    by (auto simp: check_record_def Let_def split: if_splits)
  with store_evidence_update[OF ev d, of i stored] row(1,2) show ?thesis by blast
qed

text \<open>The first event of an attempt passes.\<close>

lemma scope_value: "attempt_scope P (JObj (attempt_object a)) = operation_scope P (eb_ward_id a) (eb_subject a) (eb_operation_id a)"
  by (simp add: attempt_scope_def operation_scope_def)

lemma first_event_passes:
  assumes ev: "store_evidence st (db_attempts db)" and ok: "rows_ok P db"
    and new: "fresh_row row db" "scope_free (er_scope row) db" "row_attempt row = a" "er_warrant_id row = eb_warrant_id a"
      "er_attempt_id row = eb_attempt_id a"
      "operation_scope P (eb_ward_id a) (eb_subject a) (eb_operation_id a) = Inr (er_scope row)" "ea_state a = AUTHORIZED"
    and r: "event_record P cfg eid stored None r" "event_ready P stored" "st_attempt stored = a" and use: "trusted_use cfg opts" "effect_signing P cfg"
  shows "\<exists>st'. check_record P opts r st = Inr st' \<and> store_evidence st' (db_attempts db @ [row])"
proof -
  let ?a = "JObj (attempt_object a)"
  have d: "distinct (map er_attempt_id (db_attempts db))" using ok by (simp add: rows_ok_def)
  have none: "value_get (ev_latest st) (JStr (eb_attempt_id a)) = None"
    using ev new(1,5) by (auto simp: store_evidence_def value_get_None rows_view_def fresh_row_def)
  have used: "\<not> list_ex (\<lambda>w. strict_eq w (JStr (eb_warrant_id a))) (ev_usedWarrants st)"
    using ev new(1,4) by (auto simp: store_evidence_def list_ex_iff fresh_row_def)
  have free: "\<not> (case map_of (ev_operations st) (er_scope row) of None \<Rightarrow> False | Some p \<Rightarrow> truthy p \<and>
      (case value_get (ev_latest st) p of None \<Rightarrow> True | Some q \<Rightarrow> js_get q ''state'' \<noteq> JStr ''CONFIRMED_NO_EFFECT''))"
  proof (cases "latest_in_scope (er_scope row) db")
    case None
    then show ?thesis using ev by (simp add: store_evidence_def latest_in_scope_def)
  next
    case (Some q)
    then have "q \<in> set (db_attempts db)" 
      unfolding latest_in_scope_def by (metis find_split in_set_conv_decomp set_rev)
    from map_of_rows_view[OF d this] Some new(2) ev show ?thesis
      by (simp add: store_evidence_def latest_in_scope_def value_get_JStr scope_free_def)
  qed
  have "check_first P st ?a = Inr (st \<lparr> ev_operations := map_set (er_scope row) (JStr (eb_attempt_id a)) (ev_operations st),
      ev_usedWarrants := ev_usedWarrants st @ [JStr (eb_warrant_id a)] \<rparr>)"
    using used free new(6,7) by (simp add: check_first_def scope_value Let_def)
  then have "check_record P opts r st = Inr (st \<lparr> ev_operations := map_set (er_scope row) (JStr (eb_attempt_id a)) (ev_operations st),
      ev_usedWarrants := ev_usedWarrants st @ [JStr (eb_warrant_id a)],
      ev_latest := value_set (JStr (eb_attempt_id a)) ?a (ev_latest st) \<rparr>)"
    using ledger_signature_passes[OF r(1) _ use] event_check_passes[OF r(1,2)] r(2,3) none new(7) record_observation[OF r(1)]
    by (simp add: check_record_def Let_def)
  moreover have "JStr (eb_attempt_id a) \<notin> fst ` set (rows_view (db_attempts db))"
    using new(1,5) by (auto simp: rows_view_def fresh_row_def)
  ultimately show ?thesis
    using ev new(3-5) by (auto simp: store_evidence_def value_set_JStr map_set_absent js_simps) (simp add: rows_view_def)
qed

text \<open>An observation the store accepted passes the verifier's checks.\<close>

lemma check_observation_Inr:
  assumes "check_observation P ro now obs = Inr (s, ms)"
  obtains key material nowMs where "ro_trustedObservers ro (eo_observer_key_id obs) = Some key" "key \<noteq> []"
    "effectObservationMaterial P (observation_object obs) = Inr material" "verifyEd25519 P key material (eo_signature obs)"
    "eo_version obs = EFFECT_OBSERVATION_VERSION" "s \<noteq> EFFECT_UNKNOWN \<longrightarrow> eo_finality obs = ''settled''"
    "eo_method obs \<in> set (ro_allowedMethods ro)" "hex64 (eo_external_evidence_hash obs)"
    "date_parse P now = Some nowMs" "date_parse P (eo_observed_at obs) = Some ms" "ms \<le> nowMs"
  using assms
  by (auto simp: check_observation_def Let_def the_default_def split: if_splits option.splits)

lemma observation_fields [simp]:
  "obj_get (observation_object o') ''outcome'' = JStr (eo_outcome o')"
  "obj_get (observation_object o') ''finality'' = JStr (eo_finality o')"
  "obj_get (observation_object o') ''version'' = JStr (eo_version o')"
  "obj_get (observation_object o') ''method'' = JStr (eo_method o')"
  "obj_get (observation_object o') ''external_evidence_hash'' = JStr (eo_external_evidence_hash o')"
  "obj_get (observation_object o') ''observed_at'' = JStr (eo_observed_at o')"
  "obj_get (observation_object o') ''observer_key_id'' = JStr (eo_observer_key_id o')"
  "obj_get (observation_object o') ''signature'' = JStr (eo_signature o')"
  by (simp_all add: observation_object_def binding_fields_def js_simps)

lemma binding_field_keys: "field \<in> set BINDING_FIELDS \<Longrightarrow> field \<in> fst ` set (binding_fields b)"
  by (auto simp: BINDING_FIELDS_def binding_fields_def)

lemma binding_values:
  assumes "binding_fields o' = binding_fields a" "field \<in> set BINDING_FIELDS"
  shows "strict_eq (obj_get (observation_object o') field) (obj_get (attempt_object a) field)"
proof -
  have "obj_get (observation_object o') field = obj_get (binding_fields o') field"
    "obj_get (attempt_object a) field = obj_get (binding_fields a) field"
    using binding_field_keys[OF assms(2), of o'] binding_field_keys[OF assms(2), of a] by (simp_all add: observation_object_def attempt_object_def obj_get_append)
  moreover have "\<exists>v. obj_get (binding_fields a) field = JStr v"
    using assms(2) by (auto simp: BINDING_FIELDS_def binding_fields_def js_simps)
  ultimately show ?thesis using assms(1) by auto
qed

lemma observation_passes:
  assumes c: "check_observation P ro now obs = Inr (s, ms)" and t: "trusted_reconcile opts ro"
    and b: "binding_fields obs = binding_fields a" and s: "eo_outcome obs = effect_state_name s" "ea_state a = s" "ea_updated_at a = now"
    and started: "\<not> nan_less (Some ms) (date_parse P (ea_started_at a))" and flight: "\<not> (ea_state p = IN_FLIGHT \<and> s = CONFIRMED_NO_EFFECT)"
  shows "check_evidence_observation P opts (Some (JObj (attempt_object p))) (JObj (attempt_object a)) (JObj (observation_object obs)) = Inr ()"
proof -
  obtain key material nowMs where f: "ro_trustedObservers ro (eo_observer_key_id obs) = Some key" "key \<noteq> []"
    "effectObservationMaterial P (observation_object obs) = Inr material" "verifyEd25519 P key material (eo_signature obs)"
    "eo_version obs = EFFECT_OBSERVATION_VERSION" "s \<noteq> EFFECT_UNKNOWN \<longrightarrow> eo_finality obs = ''settled''"
    "eo_method obs \<in> set (ro_allowedMethods ro)" "hex64 (eo_external_evidence_hash obs)"
    "date_parse P now = Some nowMs" "date_parse P (eo_observed_at obs) = Some ms" "ms \<le> nowMs"
    by (rule check_observation_Inr[OF c])
  obtain methods where m: "vp_allowedMethods opts = Some methods" "eo_method obs \<in> set methods"
    using t f(7) by (auto simp: trusted_reconcile_def)
  have key: "vp_trustedObservers opts (eo_observer_key_id obs) = Some key"
    using t f(1) unfolding trusted_reconcile_def map_le_def by (metis domI)
  have fin: "eo_finality obs = ''settled'' \<or> eo_outcome obs = ''EFFECT_UNKNOWN''"
    using f(6) s(1) by (cases "s = EFFECT_UNKNOWN") auto
  have early: "\<not> (eo_outcome obs = ''CONFIRMED_NO_EFFECT'' \<and> effect_state_name (ea_state p) = ''IN_FLIGHT'')"
    using flight s(1) by (cases s; cases "ea_state p") auto
  have bind: "\<forall>field \<in> set BINDING_FIELDS. strict_eq (obj_get (observation_object obs) field) (obj_get (attempt_object a) field)"
    using binding_values[OF b] by blast
  show ?thesis
    unfolding check_evidence_observation_def Let_def
    using f m key fin early bind s started by (auto simp: date_of_def the_default_def verify_value_True nan_less_iff)
qed

section \<open>Every run\<close>

definition run_evidence :: "platform \<Rightarrow> EvidenceOptions \<Rightarrow> effect_db \<Rightarrow> bool" where
  "run_evidence P opts db \<longleftrightarrow>
     (\<exists>st. check_records P opts (db_gel db) initial_state = Inr st \<and> store_evidence st (db_attempts db)) \<and>
     (\<forall>r \<in> set (db_attempts db). event_ready P (er_json r))"

lemma begun_ready:
  assumes "begun_from P input stored" "wm_ward_id (bi_ward input) = act_ward_id (bi_action input)"
  shows "event_ready P stored" "event_ready P (stored \<lparr> st_attempt := (st_attempt stored) \<lparr> ea_state := s \<rparr> \<rparr>)"
  using assms by (auto simp: begun_from_def begin_attempt_def begin_context_def event_context_def context_bound_def dated_def Let_def)

lemma run_evidence_begin:
  assumes run: "run_evidence P opts db" and ok: "rows_ok P db" "log_ok P db" and use: "trusted_use cfg opts" "effect_signing P cfg"
    and ward: "wm_ward_id (bi_ward input) = act_ward_id (bi_action input)" and b: "begin_effect P cfg wall uuid input db = Inr (a, db')"
  shows "run_evidence P opts db'"
proof -
  obtain row db1 db2 stored where f: "fresh_row row db" "scope_free (er_scope row) db" "row_attempt row = a" "ea_state a = IN_FLIGHT"
    "er_attempt_id row = uuid 0" "eb_attempt_id a = uuid 0" "er_warrant_id row = eb_warrant_id a"
    "operation_scope P (eb_ward_id a) (eb_subject a) (eb_operation_id a) = Inr (er_scope row)"
    and st: "st_attempt stored = a \<lparr> ea_state := AUTHORIZED \<rparr>" "begun_from P input stored"
    and db1: "db1 = db \<lparr> db_attempts := db_attempts db @ [row \<lparr> er_json := clone_stored stored \<rparr>] \<rparr>"
    and e1: "event P cfg (uuid 1) stored None db1 = Inr db2"
    and e2: "event P cfg (uuid 2) (stored \<lparr> st_attempt := a \<rparr>) None (update_row (uuid 0) (stored \<lparr> st_attempt := a \<rparr>) db2) = Inr db'"
    and rows: "db_attempts db' = db_attempts db @ [row]"
    by (rule begin_Inr[OF b])
  let ?fl = "stored \<lparr> st_attempt := a \<rparr>" and ?row = "row \<lparr> er_json := clone_stored stored \<rparr>"
  have fl: "?fl = stored \<lparr> st_attempt := (st_attempt stored) \<lparr> ea_state := IN_FLIGHT \<rparr> \<rparr>" using st(1) f(4) by simp
  have ready: "event_ready P stored" "event_ready P ?fl" using begun_ready[OF st(2) ward] fl by simp_all
  obtain r1 where r1: "event_record P cfg (uuid 1) stored None r1" "db_gel db2 = db_gel db @ [r1]"
    using event_appends[OF ok(2) e1] db1 by auto
  have log2: "log_ok P db2"
    by (rule log_first[OF use(2) ok(2), where row = ?row])
      (use f st ready(1) e1 db1 in \<open>simp_all add: fresh_row_def\<close>)
  obtain r2 where r2: "event_record P cfg (uuid 2) ?fl None r2" "db_gel db' = db_gel db2 @ [r2]"
    using event_appends[OF log2 e2] by (auto simp: update_row_def)
  obtain s0 where s0: "check_records P opts (db_gel db) initial_state = Inr s0" "store_evidence s0 (db_attempts db)"
    using run by (auto simp: run_evidence_def)
  obtain s1 where s1: "check_record P opts r1 s0 = Inr s1" "store_evidence s1 (db_attempts db @ [?row])"
    using first_event_passes[OF s0(2) ok(1) _ _ _ _ _ _ _ r1(1) ready(1) st(1) use, of ?row] f st(1)
    by (auto simp: fresh_row_def)
  have d: "distinct (map er_attempt_id (db_attempts db @ [?row]))"
    using ok(1) f(1) by (auto simp: rows_ok_def fresh_row_def)
  have upd: "map (\<lambda>r. if er_attempt_id r = uuid 0 then r \<lparr> er_json := clone_stored ?fl \<rparr> else r) (db_attempts db @ [?row]) = db_attempts db'"
    using event_tables(1)[OF e2] event_tables(1)[OF e1] by (simp add: update_row_def db1)
  obtain s2 where s2: "check_record P opts r2 s1 = Inr s2" "store_evidence s2 (db_attempts db')"
    using later_event_passes[OF s1(2) d, of ?row "uuid 0" ?fl P cfg "uuid 2" None r2 opts] r2(1) ready(2) use f st(1)
    by (auto simp: legal_def terminal_def upd[symmetric])
  have "check_records P opts (db_gel db') initial_state = Inr s2"
    by (simp add: r2(2) r1(2) check_records_snoc[of P opts "db_gel db @ [r1]", simplified] s0(1) s1(1) s2(1) check_records_snoc)
  moreover have "\<forall>r \<in> set (db_attempts db'). event_ready P (er_json r)"
    using run ready f(5) unfolding upd[symmetric] by (auto simp: run_evidence_def clone_ready)
  ultimately show ?thesis using s2(2) by (auto simp: run_evidence_def)
qed

lemma run_evidence_update:
  assumes run: "run_evidence P opts db" and ok: "rows_ok P db" "log_ok P db" and use: "trusted_use cfg opts" "effect_signing P cfg"
    and l: "load i db = Inr stored" and d: "db_attempts d = db_attempts db" "db_gel d = db_gel db"
    and e: "event P cfg eid (attempt_change i stored s now) obs (update_row i (attempt_change i stored s now) d) = Inr db'"
    and m: "may_become (ea_state (st_attempt stored)) s" and now: "date_parse P now \<noteq> None"
    and ob: "case obs of None \<Rightarrow> \<not> terminal s
      | Some o' \<Rightarrow> check_evidence_observation P opts (Some (JObj (attempt_object (st_attempt stored))))
          (JObj (attempt_object (st_attempt (attempt_change i stored s now)))) (JObj (observation_object o')) = Inr ()"
  shows "run_evidence P opts db'"
proof -
  let ?s = "attempt_change i stored s now"
  obtain row where row: "row \<in> set (db_attempts db)" "er_attempt_id row = i" "er_json row = stored"
    using load_Inr[OF l] by blast
  have "event_ready P stored" using run row by (auto simp: run_evidence_def)
  then have ready: "event_ready P ?s" using event_ready_change now by blast
  obtain r where r: "event_record P cfg eid ?s obs r" "db_gel db' = db_gel db @ [r]"
    using event_appends[OF ok(2) e] d(2) by (auto simp: update_row_def)
  obtain s0 where s0: "check_records P opts (db_gel db) initial_state = Inr s0" "store_evidence s0 (db_attempts db)"
    using run by (auto simp: run_evidence_def)
  have dist: "distinct (map er_attempt_id (db_attempts db))" using ok(1) by (simp add: rows_ok_def)
  have upd: "map (\<lambda>r. if er_attempt_id r = i then r \<lparr> er_json := clone_stored ?s \<rparr> else r) (db_attempts db) = db_attempts db'"
    using event_tables(1)[OF e] d(1) by (simp add: update_row_def)
  have "\<exists>s1. check_record P opts r s0 = Inr s1 \<and> store_evidence s1 (db_attempts db')"
    unfolding upd[symmetric]
  proof (rule later_event_passes[OF s0(2) dist row(1,2) _ _ _ r(1) ready use])
    show "eb_attempt_id (st_attempt ?s) = i" using load_row(2)[OF ok l] by (simp add: attempt_change_def)
  qed (use m row(3) ob in \<open>simp_all add: attempt_change_def legal_def cong: option.case_cong\<close>)
  then obtain s1 where "check_record P opts r s0 = Inr s1" "store_evidence s1 (db_attempts db')" by blast
  moreover have "\<forall>r \<in> set (db_attempts db'). event_ready P (er_json r)"
    using run ready unfolding upd[symmetric] by (auto simp: run_evidence_def clone_ready)
  ultimately show ?thesis using s0(1) r(2) by (auto simp: run_evidence_def check_records_snoc)
qed

lemma run_evidence_unknown:
  assumes "run_evidence P opts db" "rows_ok P db" "log_ok P db" "trusted_use cfg opts" "effect_signing P cfg"
    and u: "markUnknown P cfg eid i now db = Inr (a, db')"
  shows "run_evidence P opts db'"
  using u
proof (cases rule: markUnknown_Inr)
  case (2 stored)
  have "date_parse P now \<noteq> None" using u by (auto simp: markUnknown_def split: if_splits)
  with run_evidence_update[OF assms(1-5) 2(1) refl refl 2(4)] 2(2) show ?thesis by (simp add: terminal_def)
qed (use assms(1) in simp)

lemma run_evidence_reconcile:
  assumes "run_evidence P opts db" "rows_ok P db" "log_ok P db" "trusted_use cfg opts" "effect_signing P cfg" "trusted_reconcile opts ro"
    and r: "reconcile_effect P cfg wall eid obs ro db = Inr (a, db')"
  shows "run_evidence P opts db'"
  using r
proof (cases rule: reconcile_Inr)
  case (2 stored s now db1 ms)
  let ?a = "st_attempt (attempt_change (eb_attempt_id obs) stored s now)"
  have "ea_state (st_attempt stored) \<noteq> AUTHORIZED"
    using assms(2) load_Inr[OF 2(1)] by (auto simp: rows_ok_def row_ok_def list_all_iff)
  then have m: "may_become (ea_state (st_attempt stored)) s" using 2(2) by blast
  have now: "date_parse P now \<noteq> None" by (rule check_observation_Inr[OF 2(11)]) simp
  have "check_evidence_observation P opts (Some (JObj (attempt_object (st_attempt stored)))) (JObj (attempt_object ?a)) (JObj (observation_object obs)) = Inr ()"
  proof (rule observation_passes[OF 2(11) assms(6)])
    have "binding_fields obs = binding_fields (st_attempt stored)" using 2(6) by (simp only: binding_mismatch_None)
    then show "binding_fields obs = binding_fields ?a" by (simp add: attempt_change_def binding_fields_def)
  qed (use 2(3,12,13) in \<open>simp_all add: attempt_change_def\<close>)
  then show ?thesis
    using run_evidence_update[OF assms(1-5) 2(1) 2(8,9) 2(10) m now] by simp
qed (use assms(1) in simp)

lemma trusted_run_evidence:
  assumes "trusted_run P cfg opts db" "effect_signing P cfg" "trusted_use cfg opts"
  shows "run_evidence P opts db"
  using assms(1)
proof (induction rule: trusted_run.induct)
  case run_empty
  then show ?case by (simp add: run_evidence_def empty_db_def initial_state_def store_evidence_def rows_view_def)
next
  case (run_begin db input wall uuid a db')
  note ok = reachable_rows[OF trusted_run_reachable[OF run_begin(1)]] reachable_log[OF trusted_run_reachable[OF run_begin(1)] assms(2)]
  show ?case by (rule run_evidence_begin[OF run_begin(4) ok assms(3,2) run_begin(2,3)])
next
  case (run_unknown db eid i now a db')
  note ok = reachable_rows[OF trusted_run_reachable[OF run_unknown(1)]] reachable_log[OF trusted_run_reachable[OF run_unknown(1)] assms(2)]
  show ?case by (rule run_evidence_unknown[OF run_unknown(3) ok assms(3,2) run_unknown(2)])
next
  case (run_reconcile db ro wall eid obs a db')
  note ok = reachable_rows[OF trusted_run_reachable[OF run_reconcile(1)]] reachable_log[OF trusted_run_reachable[OF run_reconcile(1)] assms(2)]
  show ?case by (rule run_evidence_reconcile[OF run_reconcile(4) ok assms(3,2) run_reconcile(2,3)])
qed

lemma settled_value_state: "settled_value (JStr (effect_state_name s)) \<longleftrightarrow> terminal s"
  by (cases s) (simp_all add: terminal_def)

lemma evidence_verdict:
  assumes "trusted_run P cfg opts db" "effect_signing P cfg" "trusted_use cfg opts"
    and "vp_expectedTipHash opts = None \<or> (\<exists>h. vp_expectedTipHash opts = Some h \<and> chain_tip (db_gel db) = JStr h)"
  shows "fst (verifyEffectEvidence P (db_gel db) opts) =
    (if vp_expectedTipHash opts \<noteq> None \<and> db_attempts db \<noteq> [] \<and> (\<forall>r \<in> set (db_attempts db). terminal (row_state r))
     then PASS else INDETERMINATE)"
proof -
  note reach = trusted_run_reachable[OF assms(1)]
  obtain v where v: "verifyGelRecords P (db_gel db) = Inr v" "gv_ok v"
    using reachable_log[OF reach assms(2)] by (auto simp: log_ok_def chain_ok_def)
  obtain st where st: "check_records P opts (db_gel db) initial_state = Inr st" "ev_latest st = rows_view (db_attempts db)"
    using trusted_run_evidence[OF assms(1-3)] by (auto simp: run_evidence_def store_evidence_def)
  have anchor: "\<not> (case vp_expectedTipHash opts of None \<Rightarrow> False | Some h \<Rightarrow> chain_tip (db_gel db) \<noteq> JStr h)"
    using assms(4) by auto
  have "verifyEffectEvidence P (db_gel db) opts = (if final_reasons opts st = [] then PASS else INDETERMINATE, final_reasons opts st)"
    unfolding verifyEffectEvidence_def by (simp only: v guarded_def sum.case bind_check.simps anchor st(1) if_False not_True_eq_False Let_def)
  moreover have "final_reasons opts st = [] \<longleftrightarrow>
      vp_expectedTipHash opts \<noteq> None \<and> db_attempts db \<noteq> [] \<and> (\<forall>r \<in> set (db_attempts db). terminal (row_state r))"
    by (auto simp: final_reasons_def st(2) rows_view_def list_ex_iff settled_value_state[symmetric])
  ultimately show ?thesis by simp
qed

text \<open>Where \<open>begin\<close> was called with another Ward than the one the action names, the verifier does not pass the ledger.\<close>

lemma other_ward_refused:
  assumes "log_ok P db" "begin_effect P cfg wall uuid input db = Inr (a, db')"
    and "wm_ward_id (bi_ward input) \<noteq> act_ward_id (bi_action input)"
  shows "fst (verifyEffectEvidence P (db_gel db') opts) \<noteq> PASS"
proof
  assume "fst (verifyEffectEvidence P (db_gel db') opts) = PASS"
  then obtain st where st: "check_records P opts (db_gel db') initial_state = Inr st"
    using verify_PASS by (metis prod.collapse)
  obtain row db1 db2 stored where s: "st_attempt stored = a \<lparr> ea_state := AUTHORIZED \<rparr>" "begun_from P input stored"
    and db1: "db1 = db \<lparr> db_attempts := db_attempts db @ [row \<lparr> er_json := clone_stored stored \<rparr>] \<rparr>"
    and e1: "event P cfg (uuid 1) stored None db1 = Inr db2"
    and e2: "event P cfg (uuid 2) (stored \<lparr> st_attempt := a \<rparr>) None (update_row (uuid 0) (stored \<lparr> st_attempt := a \<rparr>) db2) = Inr db'"
    by (rule begin_Inr[OF assms(2)])
  obtain r1 where r1: "event_record P cfg (uuid 1) stored None r1" "db_gel db2 = db_gel db @ [r1]"
    using event_appends[OF assms(1) e1] db1 by auto
  obtain r2 where r2: "db_gel db' = db_gel db @ [r1] @ [r2]"
    by (rule event_Inr[OF e2]) (use r1(2) in \<open>auto simp: update_row_def\<close>)
  have "obj_get r1 ''ward_id'' = JStr (wm_ward_id (bi_ward input))"
    using event_record_fields(2)[OF r1(1) begun_from_context[OF s(2)]] s(2) by (auto simp: begun_from_def begin_context_def Let_def)
  moreover have "js_get (js_get (obj_get r1 ''effect_event'') ''attempt'') ''ward_id'' = JStr (act_ward_id (bi_action input))"
    using event_record_fields(1)[OF r1(1) begun_from_context[OF s(2)]] s(2)
    by (auto simp: begun_from_def begin_attempt_def effect_event_def js_simps attempt_object_def binding_fields_def Let_def)
  ultimately have "check_event P r1 \<noteq> Inr x" for x
    using assms(3) by (auto simp: check_event_def stop_def Let_def)
  then have "check_record P opts r1 st' \<noteq> Inr x" for st' x
    by (auto simp: check_record_def)
  then have "check_records P opts (db_gel db @ [r1]) initial_state \<noteq> Inr x" for x
    by (auto simp: check_records_snoc)
  with st show False
    unfolding r2 by (auto simp: check_records_snoc[of P opts "db_gel db @ [r1]", simplified])
qed

text \<open>
  C21: the ledger of a store used within the verifier's trust never fails the verifier.  Within its trust
  means: the store signs with a ledger key the verifier trusts, every observation is reconciled against
  observers and methods the verifier admits, and every \<open>begin\<close> is called with the Ward the action names
  (\<open>ward.ward_id = action.ward_id\<close>), which \<open>begin\<close> itself does not check; the verifier refuses a record
  where they differ, as \<open>other_ward_refused\<close> shows.  Anchored at its tip, such a ledger passes exactly
  when it has an attempt and every attempt is settled; otherwise the verdict is indeterminate.
\<close>

theorem effect_evidence_complete:
  assumes "trusted_run P cfg opts db" "effect_signing P cfg" "trusted_use cfg opts"
    and "vp_expectedTipHash opts = None \<or> (\<exists>h. vp_expectedTipHash opts = Some h \<and> chain_tip (db_gel db) = JStr h)"
  shows "fst (verifyEffectEvidence P (db_gel db) opts) =
    (if vp_expectedTipHash opts \<noteq> None \<and> db_attempts db \<noteq> [] \<and> (\<forall>r \<in> set (db_attempts db). terminal (row_state r))
     then PASS else INDETERMINATE)"
  using evidence_verdict[OF assms] .

section \<open>A sample run\<close>

definition sample_marked :: "(EffectAttempt \<times> effect_db) result" where
  "sample_marked = markUnknown sample sample_config ''u3'' ''u0'' ''255'' sample_db"

definition sample_settled :: effect_db where
  "sample_settled = (case bind_result sample_marked (\<lambda>(a, db). reconcile_effect sample sample_config [] ''u4'' sample_observation sample_options db) of
     Inr (a, db) \<Rightarrow> db | Inl _ \<Rightarrow> empty_db)"

definition sample_evidence :: EvidenceOptions where
  "sample_evidence = \<lparr> vp_trustedLedgerKeys = [''k1'' \<mapsto> ''pem1''], vp_trustedObservers = [''obs'' \<mapsto> ''pem3''],
     vp_allowedMethods = Some [''poll''], vp_expectedTipHash = as_string (chain_tip (db_gel sample_settled)) \<rparr>"

lemma sample_settles:
  "\<exists>a1 db1 a2. sample_marked = Inr (a1, db1) \<and>
     reconcile_effect sample sample_config [] ''u4'' sample_observation sample_options db1 = Inr (a2, sample_settled) \<and>
     ea_state a2 = CONFIRMED_NO_EFFECT \<and> get_attempt ''u0'' sample_settled = Inr a2"
proof -
  note rows = reachable_rows[OF sample_reachable] and log = reachable_log[OF sample_reachable sample_signing_config]
  obtain st where l: "load ''u0'' sample_db = Inr st" "st_attempt st = sample_attempt"
    using sample_get by (auto simp: get_attempt_def)
  from markUnknown_returns[OF rows log l(1), of "''255''" sample_config "''u3''"] obtain a1 db1 st1 where
    m: "sample_marked = Inr (a1, db1)" "ea_state a1 = EFFECT_UNKNOWN" "load ''u0'' db1 = Inr st1" "st_attempt st1 = a1"
       "binding_fields a1 = binding_fields sample_attempt" "ea_started_at a1 = ''250''" "db_observations db1 = []"
    by (auto simp: l(2) sample_begun_eq terminal_def sample_times sample_marked_def sample_observations)
  have step: "effect_step sample sample_config sample_db db1" using m(1) by (auto simp: sample_marked_def intro: step_unknown)
  have i: "eb_attempt_id sample_observation = ''u0''"
    using binding_attempt_id[OF sample_observation_binding] sample_begun_eq(4) by simp
  have "\<exists>a2 db2. reconcile_effect sample sample_config [] ''u4'' sample_observation sample_options db1 = Inr (a2, db2) \<and>
      ea_state a2 = CONFIRMED_NO_EFFECT \<and> get_attempt (eb_attempt_id sample_observation) db2 = Inr a2"
    by (rule reconcile_returns[OF _ _ _ _ _ sample_observation_checked, where stored = st1 and t = 250])
      (use step_ownership[OF step rows] step_log[OF sample_signing_config rows log step] m i sample_observation_binding
        in \<open>auto simp: sample_options_def sample_dates\<close>)
  then obtain a2 db2 where r: "reconcile_effect sample sample_config [] ''u4'' sample_observation sample_options db1 = Inr (a2, db2)"
    "ea_state a2 = CONFIRMED_NO_EFFECT" "get_attempt ''u0'' db2 = Inr a2"
    using i by auto
  have "sample_settled = db2" unfolding sample_settled_def m(1) by (simp add: r(1))
  with m(1) r show ?thesis by blast
qed

lemma sample_run: "trusted_run sample sample_config sample_evidence sample_settled"
proof -
  obtain a1 db1 a2 where s: "sample_marked = Inr (a1, db1)"
    "reconcile_effect sample sample_config [] ''u4'' sample_observation sample_options db1 = Inr (a2, sample_settled)"
    using sample_settles by blast
  have "trusted_run sample sample_config sample_evidence sample_db"
    by (rule run_begin[OF run_empty _ sample_begun_eq(1)[unfolded sample_begun_def]])
       (simp add: effect_input_def sample_ward_def sample_action_def)
  then have "trusted_run sample sample_config sample_evidence db1"
    using s(1) by (auto simp: sample_marked_def intro: run_unknown)
  then show ?thesis
    by (rule run_reconcile[OF _ _ s(2)]) (simp add: trusted_reconcile_def sample_options_def sample_evidence_def)
qed

lemma sample_use: "trusted_use sample_config sample_evidence"
  by (simp add: trusted_use_def sample_config_def sample_evidence_def sample_signer_def)

lemma sample_anchor: "\<exists>h. vp_expectedTipHash sample_evidence = Some h \<and> chain_tip (db_gel sample_settled) = JStr h"
  using log_tip[OF reachable_log[OF trusted_run_reachable[OF sample_run] sample_signing_config]]
  by (auto simp: sample_evidence_def)

lemma sample_settled_rows: "\<exists>row. db_attempts sample_settled = [row] \<and> terminal (row_state row)"
proof -
  obtain a1 db1 a2 where s: "sample_marked = Inr (a1, db1)"
    "reconcile_effect sample sample_config [] ''u4'' sample_observation sample_options db1 = Inr (a2, sample_settled)"
    "ea_state a2 = CONFIRMED_NO_EFFECT" "get_attempt ''u0'' sample_settled = Inr a2"
    using sample_settles by blast
  have "length (db_attempts db1) = length (db_attempts sample_db)"
    by (rule markUnknown_Inr[OF s(1)[unfolded sample_marked_def]]) (auto simp: event_tables update_row_def)
  moreover have "length (db_attempts sample_settled) = length (db_attempts db1)"
    by (rule reconcile_Inr[OF s(2)]) (auto simp: event_tables update_row_def)
  ultimately obtain row where row: "db_attempts sample_settled = [row]"
    using sample_rows by (auto simp: length_Suc_conv)
  with s(3,4) show ?thesis by (auto simp: get_attempt_def load_def terminal_def split: if_splits)
qed

theorem effect_evidence_complete_witness: "fst (verifyEffectEvidence sample (db_gel sample_settled) sample_evidence) = PASS"
  using effect_evidence_complete[OF sample_run sample_signing_config sample_use] sample_anchor sample_settled_rows by auto

theorem effect_evidence_sound_witness:
  "\<exists>r \<in> set (db_gel sample_settled). settles sample sample_evidence r"
proof -
  have "fst (verifyEffectEvidence sample (db_gel sample_settled) sample_evidence) = PASS"
    using evidence_verdict[OF sample_run sample_signing_config sample_use] sample_anchor sample_settled_rows by auto
  then obtain reasons where "verifyEffectEvidence sample (db_gel sample_settled) sample_evidence = (PASS, reasons)"
    by (metis prod.collapse)
  from effect_evidence_sound[OF this] show ?thesis by (metis last_in_set)
qed

end
