(* ===== verification/Yaml.thy ===== *)
theory Yaml
  imports Json_Text Js_String
begin

text \<open>
  The YAML subset of \<open>index.ts\<close> in which Ward Manifests and Authority Envelopes are written:
  \<open>parseSimpleYaml\<close> and \<open>parseScalar\<close>.  A block is read from the list of the remaining lines instead of
  an index into it.  The block parser takes fuel, which is shown to be enough, so that it always
  returns; and every text of the subset's grammar is read as the object it denotes.

  Numbers are exact decimals.  The key \<open>__proto__\<close>, whose assignment sets the prototype of an object, is
  outside the model.
\<close>

section \<open>Lines\<close>

definition drop_cr :: "string \<Rightarrow> string" where
  "drop_cr p = (if p \<noteq> [] \<and> last p = CHR 0x0D then butlast p else p)"

text \<open>\<open>text.split(/\r?\n/)\<close>.\<close>

definition split_lines :: "string \<Rightarrow> string list" where
  "split_lines s = (let ps = split_on (CHR 0x0A) s in map drop_cr (butlast ps) @ [last ps])"

text \<open>A line terminator, which \<open>.\<close> does not match.\<close>

fun has_terminator :: "string \<Rightarrow> bool" where
  "has_terminator [] = False"
| "has_terminator (c # cs) \<longleftrightarrow> code c = 10 \<or> code c = 13 \<or>
     map code (take 3 (c # cs)) = [0xE2, 0x80, 0xA8] \<or> map code (take 3 (c # cs)) = [0xE2, 0x80, 0xA9] \<or> has_terminator cs"

text \<open>\<open>raw.replace(/\s+#.*$/, "")\<close>.\<close>

fun strip_comment :: "string \<Rightarrow> string" where
  "strip_comment [] = []"
| "strip_comment (c # cs) =
     (if ws_prefix (c # cs) > 0 \<and> (case trim_start (c # cs) of d # ds \<Rightarrow> d = CHR ''#'' \<and> \<not> has_terminator ds | [] \<Rightarrow> False)
      then [] else c # strip_comment cs)"

record yaml_line =
  yl_indent :: nat
  yl_content :: string

definition yaml_lines :: "string \<Rightarrow> yaml_line list" where
  "yaml_lines s =
     map (\<lambda>raw. \<lparr> yl_indent = length (takeWhile (\<lambda>c. c = CHR '' '') raw), yl_content = js_trim raw \<rparr>)
       (filter (\<lambda>raw. js_trim raw \<noteq> []) (map strip_comment (split_lines s)))"

section \<open>Scalars\<close>

text \<open>\<open>/^-?\d+(\.\d+)?$/\<close>, with the sign, the digits before and the digits after the point.\<close>

definition decimal_text :: "string \<Rightarrow> (bool \<times> string \<times> string) option" where
  "decimal_text s =
     (let neg = (s \<noteq> [] \<and> hd s = CHR ''-''); body = (if neg then tl s else s);
          whole = takeWhile is_digit body; rest = dropWhile is_digit body
      in if whole = [] then None
         else case rest of [] \<Rightarrow> Some (neg, whole, [])
           | d # decimals \<Rightarrow> if d = CHR ''.'' \<and> decimals \<noteq> [] \<and> list_all is_digit decimals then Some (neg, whole, decimals) else None)"

definition decimal_value :: "bool \<times> string \<times> string \<Rightarrow> rat" where
  "decimal_value d = (case d of (neg, whole, decimals) \<Rightarrow>
     let m = of_nat (digits_val (whole @ decimals)) / 10 ^ length decimals in if neg then - m else m)"

definition is_quote :: "char \<Rightarrow> bool" where
  "is_quote c \<longleftrightarrow> code c = 34 \<or> code c = 39"

text \<open>\<open>value.replace(/^["']|["']$/g, "")\<close>.\<close>

definition unquote :: "string \<Rightarrow> string" where
  "unquote v = (let w = (if v \<noteq> [] \<and> is_quote (hd v) then tl v else v)
     in if w \<noteq> [] \<and> is_quote (last w) then butlast w else w)"

definition inline_items :: "string \<Rightarrow> string list" where
  "inline_items v = filter (\<lambda>item. item \<noteq> []) (map js_trim (split_on (CHR '','') (butlast (tl v))))"

definition is_inline_list :: "string \<Rightarrow> bool" where
  "is_inline_list v \<longleftrightarrow> starts_with v ''['' \<and> suffix '']'' v"

lemma trim_start_length: "length (trim_start s) \<le> length s"
  using trim_start_suffix suffix_length_le by blast

lemma js_trim_length: "length (js_trim s) \<le> length s"
  using trim_end_prefix[of "trim_start s"] trim_start_length[of s] by (simp add: js_trim_def) (metis le_trans prefix_length_le)

lemma split_on_length: "x \<in> set (split_on c s) \<Longrightarrow> length x \<le> length s"
proof (induction s arbitrary: x)
  case (Cons a s)
  then show ?case
    by (cases "split_on c s") (auto split: if_splits intro: le_SucI)
qed simp

lemma inline_item_length:
  assumes "item \<in> set (inline_items v)" "is_inline_list v"
  shows "length item < length v"
proof -
  obtain x where "x \<in> set (split_on (CHR '','') (butlast (tl v)))" "item = js_trim x"
    using assms(1) by (auto simp: inline_items_def)
  then have "length item \<le> length (butlast (tl v))"
    using js_trim_length split_on_length le_trans by blast
  moreover have "v \<noteq> []" using assms(2) by (auto simp: is_inline_list_def suffix_def)
  ultimately show ?thesis by (cases v) auto
qed

function parseScalar :: "string \<Rightarrow> json" where
  "parseScalar v =
     (if v = ''true'' then JBool True
      else if v = ''false'' then JBool False
      else if v = ''null'' then JNull
      else case decimal_text v of
        Some d \<Rightarrow> JNum (decimal_value d)
      | None \<Rightarrow> if is_inline_list v then JArr (map parseScalar (inline_items v)) else JStr (unquote v))"
  by auto
termination by (relation "measure length") (auto simp: inline_item_length)

declare parseScalar.simps [simp del]

section \<open>Blocks\<close>

definition is_item :: "yaml_line \<Rightarrow> bool" where
  "is_item l \<longleftrightarrow> starts_with (yl_content l) ''- ''"

fun parse_items :: "nat \<Rightarrow> yaml_line list \<Rightarrow> json list \<times> yaml_line list" where
  "parse_items indent [] = ([], [])"
| "parse_items indent (l # ls) =
     (if yl_indent l = indent \<and> is_item l
      then let (items, rest) = parse_items indent ls in (parseScalar (js_trim (drop 2 (yl_content l))) # items, rest)
      else ([], l # ls))"

text \<open>The line before and after its first colon.\<close>

definition colon_split :: "string \<Rightarrow> (string \<times> string) option" where
  "colon_split s = (case dropWhile (\<lambda>c. c \<noteq> CHR '':'') s of [] \<Rightarrow> None
     | _ # after \<Rightarrow> Some (takeWhile (\<lambda>c. c \<noteq> CHR '':'') s, after))"

text \<open>
  \<open>parseBlock\<close> and its loop over the entries of an object: \<open>None\<close> is lack of fuel, otherwise an error or
  the value and the lines that are left.
\<close>

fun parseBlock :: "nat \<Rightarrow> nat \<Rightarrow> yaml_line list \<Rightarrow> (json \<times> yaml_line list) result option"
and parse_entries :: "nat \<Rightarrow> nat \<Rightarrow> jsobject \<Rightarrow> yaml_line list \<Rightarrow> (jsobject \<times> yaml_line list) result option" where
  "parseBlock 0 indent ls = None"
| "parseBlock (Suc fuel) indent [] = Some (Inr (JObj [], []))"
| "parseBlock (Suc fuel) indent (l # ls) =
     (if is_item l then (let (items, rest) = parse_items indent (l # ls) in Some (Inr (JArr items, rest)))
      else map_option (map_sum id (\<lambda>(object, rest). (JObj object, rest))) (parse_entries fuel indent [] (l # ls)))"
| "parse_entries 0 indent object ls = None"
| "parse_entries (Suc fuel) indent object [] = Some (Inr (object, []))"
| "parse_entries (Suc fuel) indent object (l # ls) =
     (if yl_indent l \<noteq> indent \<or> is_item l then Some (Inr (object, l # ls))
      else case colon_split (yl_content l) of
        None \<Rightarrow> Some (Inl (ConfigError (''unsupported YAML line: '' @ yl_content l)))
      | Some (before, after) \<Rightarrow>
          let key = js_trim before; value = js_trim after
          in if value \<noteq> [] then parse_entries fuel indent (map_set key (parseScalar value) object) ls
             else if ls \<noteq> [] \<and> yl_indent (hd ls) > indent
             then (case parseBlock fuel (yl_indent (hd ls)) ls of
                     None \<Rightarrow> None
                   | Some (Inl e) \<Rightarrow> Some (Inl e)
                   | Some (Inr (v, rest)) \<Rightarrow> parse_entries fuel indent (map_set key v object) rest)
             else parse_entries fuel indent (map_set key (JObj []) object) ls)"

definition block_fuel :: "yaml_line list \<Rightarrow> nat" where
  "block_fuel ls = 2 * length ls + 2"

definition parseSimpleYaml :: "string \<Rightarrow> jsobject result option" where
  "parseSimpleYaml s =
     (let ls = yaml_lines s; indent = (case ls of [] \<Rightarrow> 0 | l # _ \<Rightarrow> yl_indent l)
      in map_option (\<lambda>r. bind_result r (\<lambda>(v, rest). case v of JObj object \<Rightarrow> Inr object
           | _ \<Rightarrow> Inl (ConfigError ''YAML root must be an object'')))
           (parseBlock (block_fuel ls) indent ls))"

section \<open>The parser always returns\<close>

lemma parse_items_rest: "parse_items indent ls = (items, rest) \<Longrightarrow> length rest \<le> length ls"
  by (induction indent ls arbitrary: items rest rule: parse_items.induct) (auto split: if_splits prod.splits intro: le_SucI)

text \<open>A block whose first line has the block's indentation consumes at least one line.\<close>

lemma parse_items_progress:
  "parse_items indent (l # ls) = (items, rest) \<Longrightarrow> yl_indent l = indent \<Longrightarrow> is_item l \<Longrightarrow> length rest \<le> length ls"
  using parse_items_rest by (auto split: prod.splits)

text \<open>The result is there, and leaves at most \<open>n\<close> lines.\<close>

definition returns_within :: "('a \<times> yaml_line list) result option \<Rightarrow> nat \<Rightarrow> bool" where
  "returns_within r n \<longleftrightarrow> (\<exists>x. r = Some x \<and> (\<forall>v rest. x = Inr (v, rest) \<longrightarrow> length rest \<le> n))"

lemma returns_within_simps [simp]:
  "\<not> returns_within None n" "returns_within (Some (Inl e)) n" "returns_within (Some (Inr (v, rest))) n \<longleftrightarrow> length rest \<le> n"
  by (auto simp: returns_within_def)

lemma returns_within_mono: "returns_within r n \<Longrightarrow> n \<le> m \<Longrightarrow> returns_within r m"
  by (auto simp: returns_within_def intro: le_trans)

lemma returns_within_map:
  "returns_within (map_option (map_sum id (\<lambda>(object, rest). (f object, rest))) r) n \<longleftrightarrow> returns_within r n"
proof (cases r)
  case (Some x)
  then show ?thesis by (cases x) auto
qed simp

lemma entries_loop:
  assumes entries: "\<And>object qs. length qs \<le> length ls \<Longrightarrow> returns_within (parse_entries fuel indent object qs) (length qs)"
    and block: "ls \<noteq> [] \<Longrightarrow> returns_within (parseBlock fuel (yl_indent (hd ls)) ls) (length ls)"
    and here: "yl_indent l = indent" "\<not> is_item l"
  shows "returns_within (parse_entries (Suc fuel) indent object (l # ls)) (length ls)"
proof (cases "colon_split (yl_content l)")
  case None
  with here show ?thesis by simp
next
  case (Some kv)
  obtain before after where kv: "kv = (before, after)" by (cases kv)
  show ?thesis
  proof (cases "js_trim after = [] \<and> ls \<noteq> [] \<and> yl_indent (hd ls) > indent")
    case False
    with here Some kv entries show ?thesis by (auto simp: Let_def)
  next
    case True
    obtain x where x: "parseBlock fuel (yl_indent (hd ls)) ls = Some x" "\<forall>v rest. x = Inr (v, rest) \<longrightarrow> length rest \<le> length ls"
      using block True by (auto simp: returns_within_def)
    show ?thesis
    proof (cases x)
      case (Inl e)
      with here Some kv True x(1) show ?thesis by (simp add: Let_def)
    next
      case (Inr p)
      obtain v rest where p: "p = (v, rest)" by (cases p)
      with Inr x(2) have "length rest \<le> length ls" by simp
      from entries[OF this, of "map_set (js_trim before) v object"] this
      have "returns_within (parse_entries fuel indent (map_set (js_trim before) v object) rest) (length ls)"
        by (rule returns_within_mono)
      with here Some kv True x(1) Inr p show ?thesis by (simp add: Let_def)
    qed
  qed
qed

lemma parser_returns:
  "(\<forall>ls. ls \<noteq> [] \<longrightarrow> 2 * length ls + 1 \<le> fuel \<longrightarrow> returns_within (parseBlock fuel (yl_indent (hd ls)) ls) (length ls - 1)) \<and>
   (\<forall>indent object ls. 2 * length ls + 1 \<le> fuel \<longrightarrow> returns_within (parse_entries fuel indent object ls) (length ls)) \<and>
   (\<forall>object l ls. 2 * length ls + 2 \<le> fuel \<longrightarrow> \<not> is_item l \<longrightarrow> returns_within (parse_entries fuel (yl_indent l) object (l # ls)) (length ls))"
proof (induction fuel)
  case (Suc fuel)
  have block: "returns_within (parseBlock fuel (yl_indent (hd ls)) ls) (length ls)" if "ls \<noteq> []" "2 * length ls + 1 \<le> fuel" for ls
    using Suc that returns_within_mono[of _ "length ls - 1" "length ls"] by auto
  have entries: "returns_within (parse_entries fuel indent object qs) (length qs)" if "2 * length qs + 1 \<le> fuel" for indent object qs
    using Suc that by blast
  have step: "returns_within (parse_entries (Suc fuel) (yl_indent l) object (l # ls)) (length ls)"
    if "\<not> is_item l" "2 * length ls + 2 \<le> Suc fuel" for l object ls
    by (rule entries_loop[OF entries block _ that(1)]) (use that in auto)
  have "returns_within (parse_entries (Suc fuel) indent object ls) (length ls)" if "2 * length ls + 1 \<le> Suc fuel" for indent object ls
  proof (cases ls)
    case (Cons l ms)
    show ?thesis
    proof (cases "yl_indent l = indent \<and> \<not> is_item l")
      case True
      with step[of l ms object] that Cons returns_within_mono[of _ "length ms" "length ls"] show ?thesis by auto
    next
      case False
      with Cons show ?thesis by auto
    qed
  qed simp
  moreover have "returns_within (parseBlock (Suc fuel) (yl_indent (hd ls)) ls) (length ls - 1)"
    if ne: "ls \<noteq> []" "2 * length ls + 1 \<le> Suc fuel" for ls
  proof -
    obtain l ms where ls: "ls = l # ms" using ne(1) by (cases ls) auto
    show ?thesis
    proof (cases "is_item l")
      case True
      with parse_items_progress[of "yl_indent l" l ms] show ?thesis by (auto simp: ls split: prod.splits)
    next
      case False
      with Suc ne(2) have "returns_within (parse_entries fuel (yl_indent l) [] (l # ms)) (length ms)" by (simp add: ls)
      with False show ?thesis by (simp add: ls returns_within_map)
    qed
  qed
  ultimately show ?case using step by blast
qed simp

section \<open>The grammar\<close>

text \<open>
  The block form of an object: its entries stand at one indentation, each with a scalar on its line, or
  followed by a deeper block, a deeper list of items, or nothing.
\<close>

definition entry_line :: "nat \<Rightarrow> string \<Rightarrow> string \<Rightarrow> yaml_line \<Rightarrow> bool" where
  "entry_line indent key value l \<longleftrightarrow> yl_indent l = indent \<and> \<not> is_item l \<and>
     (\<exists>before after. colon_split (yl_content l) = Some (before, after) \<and> js_trim before = key \<and> js_trim after = value)"

definition item_line :: "nat \<Rightarrow> json \<Rightarrow> yaml_line \<Rightarrow> bool" where
  "item_line indent v l \<longleftrightarrow> yl_indent l = indent \<and> is_item l \<and> parseScalar (js_trim (drop 2 (yl_content l))) = v"

inductive yaml_entries :: "nat \<Rightarrow> jsobject \<Rightarrow> yaml_line list \<Rightarrow> bool" where
  no_entry: "yaml_entries indent [] []"
| scalar_entry: "entry_line indent key t l \<Longrightarrow> t \<noteq> [] \<Longrightarrow> key \<notin> fst ` set es \<Longrightarrow> yaml_entries indent es ls \<Longrightarrow>
    yaml_entries indent ((key, parseScalar t) # es) (l # ls)"
| empty_entry: "entry_line indent key [] l \<Longrightarrow> key \<notin> fst ` set es \<Longrightarrow> yaml_entries indent es ls \<Longrightarrow>
    yaml_entries indent ((key, JObj []) # es) (l # ls)"
| object_entry: "entry_line indent key [] l \<Longrightarrow> indent < deeper \<Longrightarrow> yaml_entries deeper sub ms \<Longrightarrow> ms \<noteq> [] \<Longrightarrow>
    key \<notin> fst ` set es \<Longrightarrow> yaml_entries indent es ls \<Longrightarrow> yaml_entries indent ((key, JObj sub) # es) (l # ms @ ls)"
| list_entry: "entry_line indent key [] l \<Longrightarrow> indent < deeper \<Longrightarrow> list_all2 (item_line deeper) vs ms \<Longrightarrow> ms \<noteq> [] \<Longrightarrow>
    key \<notin> fst ` set es \<Longrightarrow> yaml_entries indent es ls \<Longrightarrow> yaml_entries indent ((key, JArr vs) # es) (l # ms @ ls)"

text \<open>What may follow a block: nothing, or a line further out.\<close>

definition outside :: "nat \<Rightarrow> yaml_line list \<Rightarrow> bool" where
  "outside indent rest \<longleftrightarrow> (rest = [] \<or> yl_indent (hd rest) < indent)"

lemma yaml_entries_hd:
  "yaml_entries indent es ls \<Longrightarrow> ls \<noteq> [] \<Longrightarrow> yl_indent (hd ls) = indent \<and> \<not> is_item (hd ls)"
  by (induction rule: yaml_entries.induct) (auto simp: entry_line_def)

lemma outside_append:
  "yaml_entries indent es ls \<Longrightarrow> outside indent rest \<Longrightarrow> indent < deeper \<Longrightarrow> outside deeper (ls @ rest)"
  using yaml_entries_hd[of indent es ls] by (cases ls) (auto simp: outside_def)

lemma parse_items_exact:
  "list_all2 (item_line indent) vs ms \<Longrightarrow> outside indent rest \<Longrightarrow> parse_items indent (ms @ rest) = (vs, rest)"
proof (induction rule: list_all2_induct)
  case Nil
  then show ?case by (cases rest) (auto simp: outside_def)
next
  case (Cons v vs l ms)
  then show ?case by (simp add: item_line_def)
qed

lemma parse_entries_exact:
  "yaml_entries indent es ls \<Longrightarrow> outside indent rest \<Longrightarrow> 2 * length (ls @ rest) + 1 \<le> fuel \<Longrightarrow>
   fst ` set es \<inter> fst ` set object = {} \<Longrightarrow> parse_entries fuel indent object (ls @ rest) = Some (Inr (object @ es, rest))"
proof (induction arbitrary: rest fuel object rule: yaml_entries.induct)
  case (no_entry indent)
  then obtain f where "fuel = Suc f" by (cases fuel) auto
  with no_entry show ?case by (cases rest) (auto simp: outside_def)
next
  case (scalar_entry indent key t l es ls)
  then obtain f where f: "fuel = Suc f" by (cases fuel) auto
  have "parse_entries f indent (object @ [(key, parseScalar t)]) (ls @ rest) = Some (Inr ((object @ [(key, parseScalar t)]) @ es, rest))"
    by (rule scalar_entry.IH) (use scalar_entry.prems scalar_entry.hyps f in auto)
  with scalar_entry.hyps scalar_entry.prems f show ?case by (auto simp: entry_line_def map_set_absent Let_def)
next
  case (empty_entry indent key l es ls)
  then obtain f where f: "fuel = Suc f" by (cases fuel) auto
  have "parse_entries f indent (object @ [(key, JObj [])]) (ls @ rest) = Some (Inr ((object @ [(key, JObj [])]) @ es, rest))"
    by (rule empty_entry.IH) (use empty_entry.prems empty_entry.hyps f in auto)
  moreover have "\<not> (ls @ rest \<noteq> [] \<and> indent < yl_indent (hd (ls @ rest)))"
    using yaml_entries_hd[OF empty_entry.hyps(3)] empty_entry.prems(1) by (cases ls) (auto simp: outside_def)
  ultimately show ?case
    using empty_entry.hyps empty_entry.prems f by (auto simp: entry_line_def map_set_absent Let_def)
next
  case (object_entry indent key l deeper sub ms es ls)
  then obtain f where f: "fuel = Suc f" by (cases fuel) auto
  then obtain g where g: "f = Suc g" using object_entry.prems(2) by (cases f) auto
  have out: "outside deeper (ls @ rest)"
    using outside_append[OF object_entry.hyps(6) object_entry.prems(1) object_entry.hyps(2)] .
  obtain m ms' where ms: "ms = m # ms'" using object_entry.hyps(4) by (cases ms) auto
  have hd: "yl_indent m = deeper" "\<not> is_item m" using yaml_entries_hd[OF object_entry.hyps(3)] ms by auto
  have "parse_entries g deeper [] (ms @ ls @ rest) = Some (Inr ([] @ sub, ls @ rest))"
    by (rule object_entry.IH(1)[OF out]) (use object_entry.prems f g in auto)
  then have "parseBlock f deeper (ms @ ls @ rest) = Some (Inr (JObj sub, ls @ rest))"
    using hd g by (simp add: ms)
  moreover have "parse_entries f indent (object @ [(key, JObj sub)]) (ls @ rest) = Some (Inr ((object @ [(key, JObj sub)]) @ es, rest))"
    by (rule object_entry.IH(2)) (use object_entry.prems object_entry.hyps f in auto)
  ultimately show ?case
    using object_entry.hyps object_entry.prems f hd by (auto simp: ms entry_line_def map_set_absent Let_def)
next
  case (list_entry indent key l deeper vs ms es ls)
  then obtain f where f: "fuel = Suc f" by (cases fuel) auto
  then obtain g where g: "f = Suc g" using list_entry.prems(2) by (cases f) auto
  have out: "outside deeper (ls @ rest)"
    using outside_append[OF list_entry.hyps(6) list_entry.prems(1) list_entry.hyps(2)] .
  obtain m ms' where ms: "ms = m # ms'" using list_entry.hyps(4) by (cases ms) auto
  have hd: "yl_indent m = deeper" "is_item m" using list_entry.hyps(3) ms by (auto simp: list_all2_Cons2 item_line_def)
  have "parseBlock f deeper (ms @ ls @ rest) = Some (Inr (JArr vs, ls @ rest))"
    using hd g parse_items_exact[OF list_entry.hyps(3) out] by (simp add: ms)
  moreover have "parse_entries f indent (object @ [(key, JArr vs)]) (ls @ rest) = Some (Inr ((object @ [(key, JArr vs)]) @ es, rest))"
    by (rule list_entry.IH) (use list_entry.prems list_entry.hyps f in auto)
  ultimately show ?case
    using list_entry.hyps list_entry.prems f hd by (auto simp: ms entry_line_def map_set_absent Let_def)
qed

section \<open>Properties\<close>

lemma parseSimpleYaml_returns: "\<exists>r. parseSimpleYaml s = Some r"
proof (cases "yaml_lines s")
  case Nil
  then show ?thesis by (simp add: parseSimpleYaml_def block_fuel_def)
next
  case (Cons l ls)
  have "returns_within (parseBlock (block_fuel (l # ls)) (yl_indent (hd (l # ls))) (l # ls)) (length (l # ls) - 1)"
    by (rule parser_returns[THEN conjunct1, rule_format]) (simp_all add: block_fuel_def)
  then show ?thesis by (auto simp: parseSimpleYaml_def Cons Let_def returns_within_def)
qed

text \<open>
  C22: the configuration parser returns on every text, with an object or an error: the fuel the block
  parser is given is never used up.
\<close>

theorem yaml_parser_returns:
  "\<exists>r. parseSimpleYaml s = Some r \<and>
     (\<forall>extra. \<exists>x. parseBlock (block_fuel (yaml_lines s) + extra)
        (case yaml_lines s of [] \<Rightarrow> 0 | l # _ \<Rightarrow> yl_indent l) (yaml_lines s) = Some x)"
proof -
  have "\<exists>x. parseBlock fuel (case yaml_lines s of [] \<Rightarrow> 0 | l # _ \<Rightarrow> yl_indent l) (yaml_lines s) = Some x"
    if "block_fuel (yaml_lines s) \<le> fuel" for fuel
  proof (cases "yaml_lines s")
    case Nil
    with that show ?thesis by (cases fuel) (auto simp: block_fuel_def)
  next
    case (Cons l ls)
    have "returns_within (parseBlock fuel (yl_indent (hd (l # ls))) (l # ls)) (length (l # ls) - 1)"
      by (rule parser_returns[THEN conjunct1, rule_format]) (use that Cons in \<open>auto simp: block_fuel_def\<close>)
    then show ?thesis by (auto simp: Cons returns_within_def)
  qed
  with parseSimpleYaml_returns[of s] show ?thesis by (meson le_add1)
qed

text \<open>
  C23: a text whose lines are the block form of an object is read as exactly that object, nested blocks,
  lists and empty entries included.
\<close>

theorem yaml_grammar_exact:
  assumes "yaml_entries indent es (yaml_lines s)"
  shows "parseSimpleYaml s = Some (Inr es)"
proof (cases "yaml_lines s")
  case Nil
  with assms have "es = []" by (auto elim: yaml_entries.cases)
  with Nil show ?thesis by (simp add: parseSimpleYaml_def block_fuel_def)
next
  case (Cons l ls)
  have hd: "yl_indent l = indent" "\<not> is_item l" using yaml_entries_hd[OF assms] Cons by auto
  have "parse_entries (2 * length (l # ls) + 1) indent [] ((l # ls) @ []) = Some (Inr ([] @ es, []))"
    by (rule parse_entries_exact) (use assms Cons in \<open>auto simp: outside_def\<close>)
  then show ?thesis using hd by (simp add: parseSimpleYaml_def Cons block_fuel_def del: parse_entries.simps)
qed

definition sample_yaml :: string where
  "sample_yaml = ''ward_id: w1 # the Ward'' @ [CHR 0x0A] @ ''physical_bounds:'' @ [CHR 0x0A] @ ''  max_altitude_m: 120'' @ [CHR 0x0D, CHR 0x0A] @
     ''permitted_subjects:'' @ [CHR 0x0A] @ ''  - agent'' @ [CHR 0x0A]"

lemma sample_yaml_lines:
  "yaml_lines sample_yaml =
     [\<lparr> yl_indent = 0, yl_content = ''ward_id: w1'' \<rparr>, \<lparr> yl_indent = 0, yl_content = ''physical_bounds:'' \<rparr>,
      \<lparr> yl_indent = 2, yl_content = ''max_altitude_m: 120'' \<rparr>, \<lparr> yl_indent = 0, yl_content = ''permitted_subjects:'' \<rparr>,
      \<lparr> yl_indent = 2, yl_content = ''- agent'' \<rparr>]"
  by code_simp

lemma sample_scalars: "parseScalar ''w1'' = JStr ''w1''" "parseScalar ''120'' = JNum 120" "parseScalar ''agent'' = JStr ''agent''"
  by code_simp+

lemma entry_line_code:
  "entry_line indent key value l \<longleftrightarrow> yl_indent l = indent \<and> \<not> is_item l \<and>
     map_option (map_prod js_trim js_trim) (colon_split (yl_content l)) = Some (key, value)"
  by (auto simp: entry_line_def)

lemma sample_entry_lines:
  "entry_line 0 ''ward_id'' ''w1'' \<lparr> yl_indent = 0, yl_content = ''ward_id: w1'' \<rparr>"
  "entry_line 0 ''physical_bounds'' [] \<lparr> yl_indent = 0, yl_content = ''physical_bounds:'' \<rparr>"
  "entry_line 2 ''max_altitude_m'' ''120'' \<lparr> yl_indent = 2, yl_content = ''max_altitude_m: 120'' \<rparr>"
  "entry_line 0 ''permitted_subjects'' [] \<lparr> yl_indent = 0, yl_content = ''permitted_subjects:'' \<rparr>"
  "item_line 2 (JStr ''agent'') \<lparr> yl_indent = 2, yl_content = ''- agent'' \<rparr>"
  unfolding entry_line_code by code_simp+

theorem yaml_grammar_exact_witness:
  "parseSimpleYaml sample_yaml = Some (Inr [(''ward_id'', JStr ''w1''), (''physical_bounds'', JObj [(''max_altitude_m'', JNum 120)]),
     (''permitted_subjects'', JArr [JStr ''agent''])])"
proof (rule yaml_grammar_exact[where indent = 0])
  have subjects: "yaml_entries 0 [(''permitted_subjects'', JArr [JStr ''agent''])]
      (\<lparr> yl_indent = 0, yl_content = ''permitted_subjects:'' \<rparr> # [\<lparr> yl_indent = 2, yl_content = ''- agent'' \<rparr>] @ [])"
    by (rule list_entry[where deeper = 2]) (auto simp: sample_entry_lines no_entry)
  have bounds: "yaml_entries 2 [(''max_altitude_m'', parseScalar ''120'')] [\<lparr> yl_indent = 2, yl_content = ''max_altitude_m: 120'' \<rparr>]"
    by (rule scalar_entry) (auto simp: sample_entry_lines no_entry)
  have "yaml_entries 0 ((''ward_id'', parseScalar ''w1'') # (''physical_bounds'', JObj [(''max_altitude_m'', parseScalar ''120'')]) #
      [(''permitted_subjects'', JArr [JStr ''agent''])])
      (\<lparr> yl_indent = 0, yl_content = ''ward_id: w1'' \<rparr> # \<lparr> yl_indent = 0, yl_content = ''physical_bounds:'' \<rparr> #
       [\<lparr> yl_indent = 2, yl_content = ''max_altitude_m: 120'' \<rparr>] @
       (\<lparr> yl_indent = 0, yl_content = ''permitted_subjects:'' \<rparr> # [\<lparr> yl_indent = 2, yl_content = ''- agent'' \<rparr>] @ []))"
    by (intro scalar_entry object_entry[where deeper = 2] subjects bounds) (auto simp: sample_entry_lines)
  then show "yaml_entries 0 [(''ward_id'', JStr ''w1''), (''physical_bounds'', JObj [(''max_altitude_m'', JNum 120)]),
      (''permitted_subjects'', JArr [JStr ''agent''])] (yaml_lines sample_yaml)"
    by (simp add: sample_yaml_lines sample_scalars)
qed

text \<open>
  A line at an unexpected indentation ends the parse: it and every line after it are dropped, and the
  text is still accepted.
\<close>

theorem yaml_misindented_lines_dropped:
  "parseSimpleYaml (''a: 1'' @ [CHR 0x0A] @ ''  b: 2'' @ [CHR 0x0A] @ ''c: 3'') = Some (Inr [(''a'', JNum 1)])"
  by code_simp

end
