(* ===== verification/Validation.thy ===== *)
theory Validation
  imports Physical Js_String
begin

text \<open>
  \<open>validation.ts\<close>: the structural validation of Ward Manifests and Authority Envelopes at load.  The
  theorems: a manifest that passes has its identifying fields and subjects, and every declared limit of
  nine of the sixteen groups of physical checks has the type the gate compares it at, so that none of
  them is silently without effect.
\<close>

section \<open>Issues\<close>

record ValidationIssue =
  vi_path :: string
  vi_message :: string

record ValidationResult =
  vr_ok :: bool
  vr_issues :: "ValidationIssue list"

definition issue :: "string \<Rightarrow> string \<Rightarrow> ValidationIssue" where
  "issue path message = \<lparr> vi_path = path, vi_message = message \<rparr>"

text \<open>A check pushes one issue or none.\<close>

definition issue_if :: "bool \<Rightarrow> string \<Rightarrow> string \<Rightarrow> ValidationIssue list" where
  "issue_if bad path message = (if bad then [issue path message] else [])"

definition blank_or_no_string :: "json \<Rightarrow> bool" where
  "blank_or_no_string v = (case v of JStr s \<Rightarrow> js_trim s = [] | _ \<Rightarrow> True)"

fun is_string :: "json \<Rightarrow> bool" where
  "is_string (JStr s) = True"
| "is_string _ = False"

definition requireString :: "jsobject \<Rightarrow> string \<Rightarrow> string \<Rightarrow> ValidationIssue list" where
  "requireString obj key place =
     issue_if (blank_or_no_string (obj_get obj key)) (place @ ''.'' @ key) ''must be a non-empty string''"

definition requireStringArray :: "jsobject \<Rightarrow> string \<Rightarrow> string \<Rightarrow> bool \<Rightarrow> ValidationIssue list" where
  "requireStringArray obj key place nonEmpty =
     (case obj_get obj key of
        JArr vs \<Rightarrow> if \<not> list_all is_string vs then [issue (place @ ''.'' @ key) ''must be an array of strings'']
                   else issue_if (nonEmpty \<and> vs = []) (place @ ''.'' @ key) ''must not be empty''
      | _ \<Rightarrow> [issue (place @ ''.'' @ key) ''must be an array of strings''])"

section \<open>Physical bounds\<close>

definition VALIDATED_NUMBERS :: "string list" where
  "VALIDATED_NUMBERS =
    [''max_altitude_m'', ''battery_minimum_pct'', ''max_speed_mps'', ''min_map_confidence'',
     ''min_localization_confidence'', ''min_perception_confidence'', ''min_voltage_kv'', ''max_voltage_kv'',
     ''min_frequency_hz'', ''max_frequency_hz'', ''max_feeder_load_pct'', ''max_transformer_load_pct'',
     ''max_der_export_mw'', ''max_telemetry_age_ms'', ''max_authority_speed_mph'',
     ''min_train_separation_m'', ''max_train_length_ft'', ''max_train_tonnage'',
     ''max_ptc_telemetry_age_ms'', ''max_container_weight_kg'', ''min_pnt_confidence'',
     ''max_ais_track_age_ms'', ''max_port_telemetry_age_ms'', ''max_wind_speed_kn'', ''min_reefer_temp_c'',
     ''max_reefer_temp_c'', ''max_chlorine_dose_mg_l'', ''min_chlorine_residual_mg_l'', ''min_pressure_psi'',
     ''max_pressure_psi'', ''min_tank_level_pct'', ''max_tank_level_pct'', ''max_wetwell_level_pct'',
     ''max_turbidity_ntu'', ''min_ph'', ''max_ph'', ''max_sensor_age_ms'', ''max_lab_sample_age_min'',
     ''max_flow_mgd'', ''min_uv_intensity_pct'', ''max_gross_weight_lbs'', ''max_cargo_value_usd'',
     ''max_fuel_advance_usd'', ''max_accessorial_amount_usd'', ''max_fraud_score'',
     ''max_double_broker_risk_score'', ''max_eld_event_age_ms'', ''max_telematics_age_ms'',
     ''max_route_deviation_km'', ''min_remaining_drive_minutes'', ''min_remaining_duty_minutes'',
     ''max_phi_record_count'', ''max_claim_amount_usd'', ''max_patient_message_risk_score'',
     ''max_clinical_context_age_ms'', ''max_medication_reconciliation_age_ms'',
     ''max_device_telemetry_age_ms'', ''max_surface_wind_kts'', ''max_upper_wind_shear_kts_per_kft'',
     ''max_q_kpa'', ''max_delta_v_mps'', ''max_burn_duration_s'', ''max_conjunction_probability'',
     ''min_miss_distance_km'', ''min_power_margin_pct'', ''max_ephemeris_age_ms'',
     ''max_command_window_age_ms'']"

definition VALIDATED_STRINGS :: "string list" where
  "VALIDATED_STRINGS =
    [''permitted_boundary_id'', ''permitted_odd_id'', ''permitted_topology_model_id'',
     ''permitted_territory_id'', ''permitted_port_id'', ''permitted_terminal_id'',
     ''permitted_water_system_id'', ''permitted_facility_id'', ''permitted_logistics_network_id'',
     ''permitted_healthcare_system_id'', ''permitted_healthcare_facility_id'']"

definition VALIDATED_LISTS :: "string list" where
  "VALIDATED_LISTS =
    [''permitted_road_classes'', ''permitted_drive_states'', ''permitted_voltage_classes'',
     ''permitted_asset_types'', ''permitted_grid_states'', ''permitted_route_classes'',
     ''permitted_track_classes'', ''permitted_signal_aspects'', ''permitted_train_types'',
     ''permitted_operating_states'', ''permitted_berth_ids'', ''permitted_yard_blocks'',
     ''permitted_gate_ids'', ''permitted_cargo_types'', ''permitted_hazmat_classes'',
     ''permitted_terminal_zones'', ''permitted_pressure_zones'', ''permitted_process_areas'',
     ''permitted_water_asset_types'', ''permitted_discharge_permit_ids'',
     ''permitted_logistics_facility_ids'', ''permitted_route_ids'', ''permitted_geofence_ids'',
     ''permitted_carrier_ids'', ''permitted_driver_ids'', ''permitted_cargo_classes'',
     ''permitted_logistics_hazmat_classes'', ''permitted_trailer_types'', ''permitted_cdl_classes'',
     ''permitted_clinical_units'', ''permitted_fhir_resource_types'', ''permitted_order_types'',
     ''permitted_medication_classes'', ''permitted_healthcare_device_ids'', ''permitted_phi_purposes'',
     ''permitted_launch_sites'', ''permitted_vehicle_classes'', ''permitted_space_asset_ids'',
     ''permitted_orbit_regimes'', ''permitted_space_mission_classes'', ''permitted_ground_station_ids'',
     ''permitted_rf_bands'', ''permitted_payload_modes'']"

definition VALIDATED_FLAGS :: "string list" where
  "VALIDATED_FLAGS =
    [''require_mrc_available'', ''require_switching_order'', ''require_clearance_released'',
     ''require_protection_known'', ''require_scada_fresh'', ''require_manual_fallback_ready'',
     ''require_ptc_active'', ''require_switch_proven'', ''require_signal_not_stop'',
     ''require_work_zone_released'', ''require_track_bulletin_ack'', ''require_dispatcher_identity'',
     ''require_brake_test_current'', ''require_consist_verified'', ''require_grade_crossing_protected'',
     ''require_crew_acknowledged'', ''require_no_conflicting_authority'', ''require_customs_release'',
     ''require_no_security_hold'', ''require_no_inspection_hold'', ''require_vgm_verified'',
     ''require_crane_exclusion_clear'', ''require_spreader_safe'', ''require_berth_clear'',
     ''require_tide_window_open'', ''require_vessel_clearance'', ''require_truck_appointment'',
     ''require_driver_identity'', ''require_cold_chain_valid'', ''require_shore_power_lockout'',
     ''require_shore_power_isolated'', ''require_fire_watch_ready'', ''require_hazmat_route_approved'',
     ''require_gate_access_granted'', ''require_operator_identity'', ''require_no_vendor_remote_session'',
     ''require_water_scada_fresh'', ''require_backflow_clear'', ''require_disinfection_active'',
     ''require_chemical_inventory_ok'', ''require_pump_available'', ''require_valve_interlock_clear'',
     ''require_discharge_permit_window'', ''require_no_bypass_active'', ''require_driver_qualified'',
     ''require_medical_card_valid'', ''require_carrier_authority_active'',
     ''require_carrier_insurance_valid'', ''require_broker_authority_active'', ''require_hos_available'',
     ''require_eld_fresh'', ''require_route_permitted'', ''require_restricted_area_clear'',
     ''require_vehicle_maintenance_clear'', ''require_dvir_clear'', ''require_trailer_seal_intact'',
     ''require_cargo_secured'', ''require_temperature_in_range'', ''require_logistics_hazmat_endorsement'',
     ''require_customs_clearance'', ''require_logistics_appointment_valid'', ''require_dock_available'',
     ''require_yard_gate_access'', ''require_fuel_card_active'', ''require_logistics_dispatcher_identity'',
     ''require_no_double_broker_risk'', ''require_patient_context'', ''require_patient_identity_verified'',
     ''require_tpo_basis_or_consent'', ''require_clinician_privilege_active'',
     ''require_pharmacist_authority'', ''require_allergy_checked'', ''require_no_allergy_conflict'',
     ''require_medication_interaction_clear'', ''require_order_signing_authority'',
     ''require_diagnosis_context'', ''require_device_safety_limits'', ''require_device_alarm_active'',
     ''require_privacy_officer_approval'', ''require_deidentification_valid'',
     ''require_break_glass_attestation'', ''require_chart_lock_clear'',
     ''require_human_review_for_patient_message'', ''require_claim_attestation'',
     ''require_healthcare_audit_context'', ''require_range_clear'', ''require_fts_armed'',
     ''require_afts_nominal'', ''require_fts_battery_ok'', ''require_fts_rf_link_ok'',
     ''require_propellant_temp_in_spec'', ''require_itar_cleared'', ''require_comms_licensed'',
     ''require_hazard_area_cleared'', ''require_tracking_radar_acquired'', ''require_range_commander_go'',
     ''require_conjunction_screening_clear'', ''require_debris_mitigation_plan'',
     ''require_rf_authorization'', ''require_ground_station_authorized'', ''require_ephemeris_fresh'',
     ''require_attitude_control_stable'', ''require_safe_mode_available'', ''require_power_margin_positive'',
     ''require_thermal_limits_nominal'', ''require_operator_console_locked'',
     ''require_payload_tasking_authorized'', ''require_export_control_clearance'',
     ''require_deorbit_plan_approved'', ''require_collision_avoidance_enabled'']"


fun finite_number :: "json \<Rightarrow> bool" where
  "finite_number (JNum x) = True"
| "finite_number _ = False"

fun is_boolean :: "json \<Rightarrow> bool" where
  "is_boolean (JBool b) = True"
| "is_boolean _ = False"

fun named_list :: "json \<Rightarrow> bool" where
  "named_list (JArr vs) = list_all (\<lambda>v. \<not> blank_or_no_string v) vs"
| "named_list _ = False"

definition bound_issues :: "(json \<Rightarrow> bool) \<Rightarrow> string \<Rightarrow> jsobject \<Rightarrow> string list \<Rightarrow> ValidationIssue list" where
  "bound_issues wanted message bounds keys = concat (map (\<lambda>key.
     issue_if (obj_get bounds key \<noteq> JUndef \<and> \<not> wanted (obj_get bounds key)) (''ward.physical_bounds.'' @ key) message) keys)"

definition physical_bounds_issues :: "json \<Rightarrow> ValidationIssue list" where
  "physical_bounds_issues v =
     (case v of
        JUndef \<Rightarrow> []
      | JObj bounds \<Rightarrow>
          bound_issues finite_number ''must be a finite number when present'' bounds VALIDATED_NUMBERS @
          bound_issues (\<lambda>v. \<not> blank_or_no_string v) ''must be a non-empty string when present'' bounds VALIDATED_STRINGS @
          bound_issues named_list ''must be an array of non-empty strings when present'' bounds VALIDATED_LISTS @
          bound_issues is_boolean ''must be a boolean when present'' bounds VALIDATED_FLAGS
      | _ \<Rightarrow> [issue ''ward.physical_bounds'' ''must be an object when present''])"

definition verdict_of :: "ValidationIssue list \<Rightarrow> ValidationResult" where
  "verdict_of issues = \<lparr> vr_ok = (issues = []), vr_issues = issues \<rparr>"

definition validateWardManifest :: "json \<Rightarrow> ValidationResult" where
  "validateWardManifest v =
     (case v of
        JObj w \<Rightarrow> verdict_of
          (requireString w ''ward_id'' ''ward'' @ requireString w ''name'' ''ward'' @
           requireString w ''sovereignty_context'' ''ward'' @ requireString w ''authority_domain'' ''ward'' @
           requireString w ''policy_version'' ''ward'' @ requireStringArray w ''permitted_subjects'' ''ward'' True @
           physical_bounds_issues (obj_get w ''physical_bounds''))
      | _ \<Rightarrow> \<lparr> vr_ok = False, vr_issues = [issue ''ward'' ''must be an object''] \<rparr>)"

definition validateAuthorityEnvelope :: "platform \<Rightarrow> json \<Rightarrow> ValidationResult" where
  "validateAuthorityEnvelope P v =
     (case v of
        JObj e \<Rightarrow> verdict_of
          (requireString e ''envelope_id'' ''envelope'' @ requireString e ''ward_id'' ''envelope'' @
           requireString e ''subject'' ''envelope'' @ requireString e ''issuer'' ''envelope'' @
           requireStringArray e ''allowed_actions'' ''envelope'' False @ requireStringArray e ''denied_actions'' ''envelope'' False @
           issue_if (obj_get e ''constraints'' \<noteq> JUndef \<and> \<not> is_record (obj_get e ''constraints''))
             ''envelope.constraints'' ''must be an object when present'' @
           issue_if (case obj_get e ''expires_at'' of JStr s \<Rightarrow> date_parse P s = None | _ \<Rightarrow> True)
             ''envelope.expires_at'' ''must be an ISO-8601 date-time string'')
      | _ \<Rightarrow> \<lparr> vr_ok = False, vr_issues = [issue ''envelope'' ''must be an object''] \<rparr>)"

definition formatValidationIssues :: "string \<Rightarrow> ValidationResult \<Rightarrow> string" where
  "formatValidationIssues kind result = kind @ '' is invalid:'' @ [CHR 0x0A] @
     join [CHR 0x0A] (map (\<lambda>i. ''  - '' @ vi_path i @ '': '' @ vi_message i) (vr_issues result))"

definition assertValidWardManifest :: "json \<Rightarrow> unit result" where
  "assertValidWardManifest v = (let r = validateWardManifest v in
     if vr_ok r then Inr () else Inl (ConfigError (formatValidationIssues ''Ward Manifest'' r)))"

definition assertValidAuthorityEnvelope :: "platform \<Rightarrow> json \<Rightarrow> unit result" where
  "assertValidAuthorityEnvelope P v = (let r = validateAuthorityEnvelope P v in
     if vr_ok r then Inr () else Inl (ConfigError (formatValidationIssues ''Authority Envelope'' r)))"

section \<open>What a valid manifest has\<close>

lemma issue_if_Nil [simp]: "issue_if bad p m = [] \<longleftrightarrow> \<not> bad"
  by (simp add: issue_if_def)

lemma verdict_of_simps [simp]: "vr_ok (verdict_of is) \<longleftrightarrow> is = []" "vr_issues (verdict_of is) = is"
  by (simp_all add: verdict_of_def)

lemma requireString_Nil: "requireString obj key place = [] \<longleftrightarrow> (\<exists>s. obj_get obj key = JStr s \<and> js_trim s \<noteq> [])"
  by (simp add: requireString_def blank_or_no_string_def split: json.split)

lemma requireStringArray_Nil:
  "requireStringArray obj key place nonEmpty = [] \<longleftrightarrow>
     (\<exists>ss. obj_get obj key = JArr (map JStr ss) \<and> (nonEmpty \<longrightarrow> ss \<noteq> []))"
proof -
  have "list_all is_string vs \<longleftrightarrow> (\<exists>ss. vs = map JStr ss)" for vs
    by (induction vs) (auto elim: is_string.elims simp: Cons_eq_map_conv)
  then show ?thesis by (auto simp: requireStringArray_def split: json.split)
qed

lemma bound_issues_Nil:
  "bound_issues wanted message bounds keys = [] \<longleftrightarrow> (\<forall>key \<in> set keys. obj_get bounds key = JUndef \<or> wanted (obj_get bounds key))"
  by (auto simp: bound_issues_def)

text \<open>The bounds the validator covers have the types of the interface \<open>PhysicalBounds\<close>.\<close>

definition typed_bounds :: "PhysicalBounds \<Rightarrow> bool" where
  "typed_bounds b \<longleftrightarrow>
     (\<forall>k \<in> set VALIDATED_NUMBERS. obj_get b k = JUndef \<or> (\<exists>x. obj_get b k = JNum x)) \<and>
     (\<forall>k \<in> set VALIDATED_STRINGS. obj_get b k = JUndef \<or> (\<exists>s. obj_get b k = JStr s \<and> js_trim s \<noteq> [])) \<and>
     (\<forall>k \<in> set VALIDATED_LISTS. obj_get b k = JUndef \<or>
        (\<exists>ss. obj_get b k = JArr (map JStr ss) \<and> list_all (\<lambda>s. js_trim s \<noteq> []) ss)) \<and>
     (\<forall>k \<in> set VALIDATED_FLAGS. obj_get b k = JUndef \<or> (\<exists>x. obj_get b k = JBool x))"

lemma finite_number_iff: "finite_number v \<longleftrightarrow> (\<exists>x. v = JNum x)"
  by (cases v) auto

lemma is_boolean_iff: "is_boolean v \<longleftrightarrow> (\<exists>x. v = JBool x)"
  by (cases v) auto

lemma not_blank_iff: "\<not> blank_or_no_string v \<longleftrightarrow> (\<exists>s. v = JStr s \<and> js_trim s \<noteq> [])"
  by (cases v) (auto simp: blank_or_no_string_def)

lemma named_list_strings: "named_list v \<Longrightarrow> \<exists>ss. v = JArr (map JStr ss) \<and> list_all (\<lambda>s. js_trim s \<noteq> []) ss"
proof (cases v)
  case (JArr vs)
  moreover have "list_all (\<lambda>v. \<not> blank_or_no_string v) vs \<Longrightarrow> \<exists>ss. vs = map JStr ss \<and> list_all (\<lambda>s. js_trim s \<noteq> []) ss" for vs
  proof (induction vs)
    case (Cons v vs)
    then obtain x ss where "v = JStr x" "js_trim x \<noteq> []" "vs = map JStr ss" "list_all (\<lambda>s. js_trim s \<noteq> []) ss"
      by (auto simp: not_blank_iff)
    then show ?case by (intro exI[of _ "x # ss"]) simp
  qed simp
  ultimately show "named_list v \<Longrightarrow> ?thesis" by auto
qed simp_all

lemma validated_bounds_typed:
  assumes "vr_ok (validateWardManifest (JObj w))" "obj_get w ''physical_bounds'' = JObj b"
  shows "typed_bounds b"
proof -
  have "physical_bounds_issues (JObj b) = []"
    using assms by (simp add: validateWardManifest_def)
  then show ?thesis
    unfolding typed_bounds_def
    by (auto simp: physical_bounds_issues_def bound_issues_Nil finite_number_iff is_boolean_iff not_blank_iff dest: named_list_strings)
qed

section \<open>Which limits are covered\<close>

text \<open>The limits of nine of the sixteen groups of checks.\<close>

definition VALIDATED_LIMITS :: "limit list" where
  "VALIDATED_LIMITS = vehicle_grid_limits @ rail_limits @ port_limits @ water_limits @ logistics_limits @
     logistics_proof_limits @ healthcare_limits @ launch_limits @ orbital_limits"

text \<open>The flag that switches a rule of a particular shape on.\<close>

fun rule_flag :: "limit \<Rightarrow> string option" where
  "rule_flag Signal_clear = Some ''require_signal_not_stop''"
| "rule_flag Collaborative_mode = Some ''require_collaborative_mode_when_human_present''"
| "rule_flag Hazmat_endorsed = Some ''require_logistics_hazmat_endorsement''"
| "rule_flag Patient_context = Some ''require_patient_context''"
| "rule_flag Basis_or_consent = Some ''require_tpo_basis_or_consent''"
| "rule_flag Break_glass_attested = Some ''require_break_glass_attestation''"
| "rule_flag Ephemeris_known = Some ''require_ephemeris_fresh''"
| "rule_flag Power_positive = Some ''require_power_margin_positive''"
| "rule_flag (Proven k p) = Some k"
| "rule_flag (Denied k p) = Some k"
| "rule_flag (Stated k p) = Some k"
| "rule_flag _ = None"

fun covered :: "limit \<Rightarrow> bool" where
  "covered (At_most k ps) = (k \<in> set VALIDATED_NUMBERS)"
| "covered (At_least k ps) = (k \<in> set VALIDATED_NUMBERS)"
| "covered (Equal_to k p) = (k \<in> set VALIDATED_STRINGS)"
| "covered (Among k ps) = (k \<in> set VALIDATED_LISTS)"
| "covered Geofence = False"
| "covered Drive_time_left = True"
| "covered l = (case rule_flag l of Some k \<Rightarrow> k \<in> set VALIDATED_FLAGS | None \<Rightarrow> False)"

lemmas validated_keys = VALIDATED_NUMBERS_def VALIDATED_STRINGS_def VALIDATED_LISTS_def VALIDATED_FLAGS_def

lemma covered_vehicle_grid: "list_all covered vehicle_grid_limits" by (simp add: validated_keys vehicle_grid_limits_def)
lemma covered_rail: "list_all covered rail_limits" by (simp add: validated_keys rail_limits_def)
lemma covered_port: "list_all covered port_limits" by (simp add: validated_keys port_limits_def)
lemma covered_water: "list_all covered water_limits" by (simp add: validated_keys water_limits_def)
lemma covered_logistics: "list_all covered logistics_limits" by (simp add: validated_keys logistics_limits_def)
lemma covered_logistics_proof: "list_all covered logistics_proof_limits"
  by (simp add: validated_keys logistics_proof_limits_def)
lemma covered_healthcare: "list_all covered healthcare_limits" by (simp add: validated_keys healthcare_limits_def)
lemma covered_launch: "list_all covered launch_limits" by (simp add: validated_keys launch_limits_def)
lemma covered_orbital: "list_all covered orbital_limits" by (simp add: validated_keys orbital_limits_def)

lemma validated_covered: "list_all covered VALIDATED_LIMITS"
  by (simp add: VALIDATED_LIMITS_def covered_vehicle_grid covered_rail covered_port covered_water covered_logistics
      covered_logistics_proof covered_healthcare covered_launch covered_orbital)

text \<open>
  A limit that is declared has a value of the type it is compared at: a number, a text that is not
  blank, a list of such texts, a boolean.
\<close>

fun limit_typed :: "PhysicalBounds \<Rightarrow> limit \<Rightarrow> bool" where
  "limit_typed b (At_most k ps) \<longleftrightarrow> obj_get b k = JUndef \<or> (\<exists>m. obj_get b k = JNum m)"
| "limit_typed b (At_least k ps) \<longleftrightarrow> obj_get b k = JUndef \<or> (\<exists>m. obj_get b k = JNum m)"
| "limit_typed b (Equal_to k p) \<longleftrightarrow> obj_get b k = JUndef \<or> (\<exists>s. obj_get b k = JStr s \<and> js_trim s \<noteq> [])"
| "limit_typed b (Among k ps) \<longleftrightarrow> obj_get b k = JUndef \<or>
     (\<exists>ss. obj_get b k = JArr (map JStr ss) \<and> list_all (\<lambda>s. js_trim s \<noteq> []) ss)"
| "limit_typed b Geofence \<longleftrightarrow> obj_get b ''geofence_polygon'' = JUndef \<and> obj_get b ''geofence_center'' = JUndef"
| "limit_typed b l \<longleftrightarrow> (case rule_flag l of None \<Rightarrow> True | Some k \<Rightarrow> obj_get b k = JUndef \<or> (\<exists>x. obj_get b k = JBool x))"

lemma covered_typed: "typed_bounds b \<Longrightarrow> covered l \<Longrightarrow> limit_typed b l"
  unfolding typed_bounds_def by (cases l rule: covered.cases) auto

text \<open>
  C24 In a Ward Manifest that passes validation no limit of the nine covered groups of physical checks is
  silently without effect.  For each of their limits - ceilings and floors, also those over several
  parameters, fixed identities, lists of permitted values and flags - a bound that is declared has a
  value of its type, identities and permitted values being texts that are not blank, and an action the
  gate accepts respects it.
\<close>

theorem validated_limits_effective:
  assumes "vr_ok (validateWardManifest (JObj w))" "obj_get w ''physical_bounds'' = JObj b"
    and "pir_ok (evaluatePhysicalInvariants a (Some b))"
  shows "list_all (\<lambda>l. limit_typed b l \<and> honours a b l) VALIDATED_LIMITS"
proof -
  have "list_all (limit_typed b) VALIDATED_LIMITS"
    using validated_covered covered_typed[OF validated_bounds_typed[OF assms(1,2)]] by (simp add: list_all_iff)
  moreover have "list_all (honours a b) VALIDATED_LIMITS"
    using accepted_respects[of a b] assms(3) by (simp add: accepted_iff declared_limits_def VALIDATED_LIMITS_def)
  ultimately show ?thesis by (simp add: list_all_iff)
qed

text \<open>
  validation rejects a manifest exactly when it lacks one of its five identifying strings, has no
  non-empty list of subjects, or declares physical bounds that are no object or have a mistyped covered
  bound; the message names each of them, and there is one exactly when validation fails.
\<close>

theorem ward_validation_exact:
  "assertValidWardManifest v = Inr () \<longleftrightarrow>
     (\<exists>w. v = JObj w \<and>
        (\<forall>k \<in> {''ward_id'', ''name'', ''sovereignty_context'', ''authority_domain'', ''policy_version''}.
           \<exists>s. obj_get w k = JStr s \<and> js_trim s \<noteq> []) \<and>
        (\<exists>ss. obj_get w ''permitted_subjects'' = JArr (map JStr ss) \<and> ss \<noteq> []) \<and>
        physical_bounds_issues (obj_get w ''physical_bounds'') = []) \<and>
   (vr_ok (validateWardManifest v) \<longleftrightarrow> vr_issues (validateWardManifest v) = [])"
  by (cases v) (auto simp: assertValidWardManifest_def validateWardManifest_def Let_def requireString_Nil requireStringArray_Nil)

text \<open>
  The other seven groups are not validated: a ceiling written as a text is accepted at load, and the
  comparison with it never refuses.
\<close>

definition sample_manifest :: "jsobject \<Rightarrow> jsobject" where
  "sample_manifest bounds = [(''ward_id'', JStr ''w1''), (''name'', JStr ''n''), (''sovereignty_context'', JStr ''eu''),
     (''authority_domain'', JStr ''d''), (''policy_version'', JStr ''1''), (''permitted_subjects'', JArr [JStr ''agent'']),
     (''physical_bounds'', JObj bounds)]"

lemma sample_manifest_valid: "vr_ok (validateWardManifest (JObj (sample_manifest [(''max_altitude_m'', JNum 120)])))"
  by code_simp

theorem mistyped_bound_accepted:
  "vr_ok (validateWardManifest (JObj (sample_manifest [(''max_altitude_agl_ft'', JStr ''four hundred'')]))) \<and>
   num_bound [(''max_altitude_agl_ft'', JStr ''four hundred'')] ''max_altitude_agl_ft'' = None"
  by code_simp

theorem validated_limits_effective_witness:
  "list_all (\<lambda>l. limit_typed [(''max_altitude_m'', JNum 120)] l \<and>
     honours (sample_action \<lparr> act_params := [(''altitude_m'', JNum 90)] \<rparr>) [(''max_altitude_m'', JNum 120)] l) VALIDATED_LIMITS"
  by (rule validated_limits_effective[OF sample_manifest_valid _ sample_accepted])
     (simp add: sample_manifest_def js_simps)

end
