(* ===== verification/Config.thy ===== *)
theory Config
  imports Yaml Validation
begin

text \<open>
  The loaders of \<open>index.ts\<close> that turn a configuration file into a Ward Manifest or an Authority Envelope:
  the extension of the file name selects the parser, and validation refuses a malformed value.  The
  parser of JSON texts is the argument \<open>json_parse\<close>, \<open>None\<close> where it throws.
\<close>

definition loadStructuredFile :: "(string \<Rightarrow> json option) \<Rightarrow> string \<Rightarrow> string \<Rightarrow> json result option" where
  "loadStructuredFile json_parse name content =
     (if suffix ''.json'' name
      then Some (case json_parse content of Some v \<Rightarrow> Inr v | None \<Rightarrow> Inl (ConfigError ''SyntaxError''))
      else if suffix ''.yaml'' name \<or> suffix ''.yml'' name then map_option (map_sum id JObj) (parseSimpleYaml content)
      else Some (Inl (ConfigError (''unsupported structured file extension: '' @ name))))"

definition loadWardManifest :: "(string \<Rightarrow> json option) \<Rightarrow> string \<Rightarrow> string \<Rightarrow> json result option" where
  "loadWardManifest json_parse name content =
     map_option (\<lambda>r. bind_result r (\<lambda>parsed. bind_result (assertValidWardManifest parsed) (\<lambda>_. Inr parsed)))
       (loadStructuredFile json_parse name content)"

definition loadAuthorityEnvelope :: "platform \<Rightarrow> (string \<Rightarrow> json option) \<Rightarrow> string \<Rightarrow> string \<Rightarrow> json result option" where
  "loadAuthorityEnvelope P json_parse name content =
     map_option (\<lambda>r. bind_result r (\<lambda>parsed. bind_result (assertValidAuthorityEnvelope P parsed) (\<lambda>_. Inr parsed)))
       (loadStructuredFile json_parse name content)"

definition loadCanonicalAction :: "(string \<Rightarrow> json option) \<Rightarrow> string \<Rightarrow> string \<Rightarrow> json result option" where
  "loadCanonicalAction json_parse name content = loadStructuredFile json_parse name content"

lemma load_returns: "\<exists>r. loadStructuredFile json_parse name content = Some r"
proof -
  obtain r where "parseSimpleYaml content = Some r"
    using parseSimpleYaml_returns by blast
  then show ?thesis by (auto simp: loadStructuredFile_def)
qed

lemma loaded_valid:
  "loadWardManifest json_parse name content = Some (Inr v) \<Longrightarrow>
   vr_ok (validateWardManifest v) \<and> loadStructuredFile json_parse name content = Some (Inr v)"
  by (auto simp: loadWardManifest_def assertValidWardManifest_def Let_def split: if_splits)

lemma loaded_envelope_valid:
  "loadAuthorityEnvelope P json_parse name content = Some (Inr v) \<Longrightarrow> vr_ok (validateAuthorityEnvelope P v)"
  by (auto simp: loadAuthorityEnvelope_def assertValidAuthorityEnvelope_def Let_def split: if_splits)

text \<open>An Authority Envelope that was loaded has an expiry the gate can read.\<close>

lemma valid_envelope_fields:
  assumes "vr_ok (validateAuthorityEnvelope P v)"
  shows "\<exists>e. v = JObj e \<and> (\<forall>k \<in> {''envelope_id'', ''ward_id'', ''subject'', ''issuer''}. \<exists>s. obj_get e k = JStr s \<and> js_trim s \<noteq> []) \<and>
    (\<forall>k \<in> {''allowed_actions'', ''denied_actions''}. \<exists>ss. obj_get e k = JArr (map JStr ss)) \<and>
    (obj_get e ''constraints'' = JUndef \<or> is_record (obj_get e ''constraints'')) \<and>
    (\<exists>s ms. obj_get e ''expires_at'' = JStr s \<and> date_parse P s = Some ms)"
proof (cases v)
  case (JObj e)
  have "\<exists>s ms. obj_get e ''expires_at'' = JStr s \<and> date_parse P s = Some ms"
    using assms JObj by (auto simp: validateAuthorityEnvelope_def split: json.splits)
  then show ?thesis
    using assms JObj by (auto simp: validateAuthorityEnvelope_def requireString_Nil requireStringArray_Nil)
qed (use assms in \<open>simp_all add: validateAuthorityEnvelope_def\<close>)

text \<open>
  C25: loading a configuration file always returns.  A loaded Authority Envelope is an object with its four
  identifying strings, its two lists of action names, constraints that are an object where present, and
  an expiry that parses as a date: the envelopes with an unreadable expiry, which the gate itself would
  take as never expiring, do not get past the loader.
\<close>

theorem loaded_envelope_readable:
  "(\<exists>r. loadAuthorityEnvelope P json_parse name content = Some r) \<and>
   (\<forall>v. loadAuthorityEnvelope P json_parse name content = Some (Inr v) \<longrightarrow>
     (\<exists>e s ms. v = JObj e \<and> obj_get e ''expires_at'' = JStr s \<and> date_parse P s = Some ms \<and>
        (\<forall>k \<in> {''envelope_id'', ''ward_id'', ''subject'', ''issuer''}. \<exists>s. obj_get e k = JStr s \<and> js_trim s \<noteq> []) \<and>
        (\<forall>k \<in> {''allowed_actions'', ''denied_actions''}. \<exists>ss. obj_get e k = JArr (map JStr ss)) \<and>
        (obj_get e ''constraints'' = JUndef \<or> is_record (obj_get e ''constraints''))))"
proof -
  have "\<exists>r. loadAuthorityEnvelope P json_parse name content = Some r"
    using load_returns[of json_parse name content] by (auto simp: loadAuthorityEnvelope_def)
  moreover note valid_envelope_fields[OF loaded_envelope_valid]
  ultimately show ?thesis by blast
qed

definition sample_envelope_yaml :: string where
  "sample_envelope_yaml = join [CHR 0x0A] [''envelope_id: e1'', ''ward_id: w1'', ''subject: agent'', ''issuer: root'',
     ''allowed_actions: [pay, read]'', ''denied_actions: []'', ''expires_at: '' @ [CHR 0x22] @ ''300'' @ [CHR 0x22]]"

lemma sample_envelope_loads:
  "loadAuthorityEnvelope sample (\<lambda>_. None) ''e.yaml'' sample_envelope_yaml = Some (Inr (JObj
     [(''envelope_id'', JStr ''e1''), (''ward_id'', JStr ''w1''), (''subject'', JStr ''agent''), (''issuer'', JStr ''root''),
      (''allowed_actions'', JArr [JStr ''pay'', JStr ''read'']), (''denied_actions'', JArr []), (''expires_at'', JStr ''300'')]))"
  by code_simp

theorem loaded_envelope_readable_witness:
  "\<exists>e. loadAuthorityEnvelope sample (\<lambda>_. None) ''e.yaml'' sample_envelope_yaml = Some (Inr (JObj e)) \<and>
     (\<exists>s ms. obj_get e ''expires_at'' = JStr s \<and> date_parse sample s = Some ms)"
  using loaded_envelope_readable[of sample "\<lambda>_. None" "''e.yaml''" sample_envelope_yaml] sample_envelope_loads by blast

end
