(* ===== verification/Mesh_Base.thy ===== *)
theory Mesh_Base
  imports Canonical Warrant
begin

text \<open>
  Messages and signatures of \<open>shared/mesh-runtime/src/index.ts\<close>: the artifacts the nodes exchange, the
  module's own \<open>stableStringify\<close>, and its signers and verifiers (a shared secret, or a key per node with
  an allowlist).  The main theorem: a signature of the shared-secret scheme determines every field of the
  signed artifact, or exhibits a SHA-256 collision.  Clock readings and random identifiers are arguments.
\<close>

section \<open>Text of a payload\<close>

text \<open>
  The default order of \<open>Array.sort\<close> is that of UTF-16 code units.  On UTF-8 bytes it is the byte order,
  except that the lead bytes of supplementary characters come before \<open>0xEE\<close> and \<open>0xEF\<close>.
\<close>

definition unit_rank :: "char \<Rightarrow> nat" where
  "unit_rank c = (let n = of_char c in if n \<ge> 0xF0 then n - 2 else if n \<ge> 0xEE then n + 5 else n)"

fun utf16_le :: "string \<Rightarrow> string \<Rightarrow> bool" where
  "utf16_le [] t = True"
| "utf16_le (a # s) [] = False"
| "utf16_le (a # s) (b # t) = (unit_rank a < unit_rank b \<or> unit_rank a = unit_rank b \<and> utf16_le s t)"

text \<open>
  \<open>stableStringify\<close> of the mesh: an \<open>undefined\<close> value prints as \<open>undefined\<close> in an object and as nothing in
  an array.
\<close>

fun mesh_stableStringify :: "json \<Rightarrow> string" where
  "mesh_stableStringify JUndef = ''undefined''"
| "mesh_stableStringify JNull = ''null''"
| "mesh_stableStringify (JBool b) = (if b then ''true'' else ''false'')"
| "mesh_stableStringify (JNum x) = num_string x"
| "mesh_stableStringify JNonFinite = ''null''"
| "mesh_stableStringify (JStr s) = json_quote s"
| "mesh_stableStringify (JArr vs) =
     ''['' @ join '','' (map (\<lambda>v. if v = JUndef then [] else mesh_stableStringify v) vs) @ '']''"
| "mesh_stableStringify (JObj es) =
     ''{'' @ join '','' (map (\<lambda>(k, t). json_quote k @ '':'' @ t)
        (sort_entries utf16_le (map (\<lambda>(k, v). (k, mesh_stableStringify v)) es))) @ ''}''"

section \<open>Artifacts\<close>

datatype NodeRole = Root_role | Witness_role | Edge_role

record NodeId =
  ni_id :: string
  ni_role :: NodeRole
  ni_host :: string
  ni_port :: nat

record MeshEnvelope =
  me_envelope_id :: string
  me_mae_id :: string
  me_ward_id :: string
  me_subject :: string
  me_allowed_action_types :: "string list"
  me_expires_at :: iso_time
  me_version :: rat
  me_issued_by :: string
  me_issued_at :: iso_time
  me_signature :: string

record QuorumSignature =
  qs_witness_id :: string
  qs_signature :: string
  qs_signed_at :: iso_time
  qs_artifact_kind :: "string option"

datatype RevocationTargetKind = Envelope_target | Warrant_target | Subject_target

record MeshRevocation =
  rv_revocation_id :: string
  rv_target_id :: string
  rv_kind :: RevocationTargetKind
  rv_reason :: string
  rv_revoked_at :: iso_time
  rv_issued_by :: string
  rv_signing_quorum :: "QuorumSignature list option"
  rv_signature :: string

record FluidityToken =
  ft_token_id :: string
  ft_edge_id :: string
  ft_envelope_id :: string
  ft_expires_at :: iso_time
  ft_issued_at :: iso_time
  ft_issued_by :: string
  ft_max_revocation_age_ms :: rat
  ft_signature :: string

record MeshWarrant =
  mw_warrant_id :: string
  mw_envelope_id :: string
  mw_action_type :: string
  mw_action_hash :: string
  mw_issued_by_edge :: string
  mw_issued_at :: iso_time
  mw_under_fluidity_token :: string
  mw_root_reachable_at_issue :: bool
  mw_signature :: string

record CommitRequest =
  cr_action_id :: string
  cr_action_type :: string
  cr_envelope_id :: string
  cr_subject :: string
  cr_params :: jsobject
  cr_presented_at :: iso_time

datatype CommitDecision =
    CommitAllow MeshWarrant
  | CommitRefuse "string list"
  | CommitExpire "string list"
  | CommitEscalate "string list"

record SubmittedEdgeDecision =
  sd_warrant :: MeshWarrant
  sd_request :: CommitRequest
  sd_decision :: CommitDecision
  sd_observed_revocations_at_issue :: "string list"

datatype MeshBody =
    PROPAGATE_ENVELOPE MeshEnvelope
  | GOSSIP_REVOCATION MeshRevocation
  | ISSUE_FLUIDITY_TOKEN FluidityToken
  | RECONCILE_DECISION SubmittedEdgeDecision
  | QUERY_LATEST_ENVELOPE string
  | QUERY_REVOCATIONS int
  | PING

record MeshMessage =
  mm_from :: "string option"
  mm_body :: MeshBody

primrec target_kind_name :: "RevocationTargetKind \<Rightarrow> string" where
  "target_kind_name Envelope_target = ''envelope''"
| "target_kind_name Warrant_target = ''warrant''"
| "target_kind_name Subject_target = ''subject''"

text \<open>
  What is signed: the artifact with an empty \<open>signature\<close>, and for a revocation without the witness
  signatures.
\<close>

definition envelope_payload :: "MeshEnvelope \<Rightarrow> json" where
  "envelope_payload e = JObj
     [(''envelope_id'', JStr (me_envelope_id e)), (''mae_id'', JStr (me_mae_id e)), (''ward_id'', JStr (me_ward_id e)),
      (''subject'', JStr (me_subject e)), (''allowed_action_types'', JArr (map JStr (me_allowed_action_types e))),
      (''expires_at'', JStr (me_expires_at e)), (''version'', JNum (me_version e)),
      (''issued_by'', JStr (me_issued_by e)), (''issued_at'', JStr (me_issued_at e)), (''signature'', JStr [])]"

definition revocation_payload :: "MeshRevocation \<Rightarrow> json" where
  "revocation_payload r = JObj
     [(''revocation_id'', JStr (rv_revocation_id r)), (''target_id'', JStr (rv_target_id r)),
      (''kind'', JStr (target_kind_name (rv_kind r))), (''reason'', JStr (rv_reason r)),
      (''revoked_at'', JStr (rv_revoked_at r)), (''issued_by'', JStr (rv_issued_by r)), (''signature'', JStr [])]"

definition token_payload :: "FluidityToken \<Rightarrow> json" where
  "token_payload t = JObj
     [(''token_id'', JStr (ft_token_id t)), (''edge_id'', JStr (ft_edge_id t)), (''envelope_id'', JStr (ft_envelope_id t)),
      (''expires_at'', JStr (ft_expires_at t)), (''issued_at'', JStr (ft_issued_at t)),
      (''issued_by'', JStr (ft_issued_by t)), (''max_revocation_age_ms'', JNum (ft_max_revocation_age_ms t)),
      (''signature'', JStr [])]"

definition warrant_fields :: "MeshWarrant \<Rightarrow> jsobject" where
  "warrant_fields w =
     [(''warrant_id'', JStr (mw_warrant_id w)), (''envelope_id'', JStr (mw_envelope_id w)),
      (''action_type'', JStr (mw_action_type w)), (''action_hash'', JStr (mw_action_hash w)),
      (''issued_by_edge'', JStr (mw_issued_by_edge w)), (''issued_at'', JStr (mw_issued_at w)),
      (''under_fluidity_token'', JStr (mw_under_fluidity_token w)),
      (''root_reachable_at_issue'', JBool (mw_root_reachable_at_issue w))]"

definition warrant_payload :: "MeshWarrant \<Rightarrow> json" where
  "warrant_payload w = JObj (warrant_fields w @ [(''signature'', JStr [])])"

section \<open>Signers and verifiers\<close>

definition sign :: "platform \<Rightarrow> string \<Rightarrow> json \<Rightarrow> string" where
  "sign P secret payload = sha256_hex P (secret @ '':'' @ mesh_stableStringify payload)"

definition verify :: "platform \<Rightarrow> string \<Rightarrow> json \<Rightarrow> string \<Rightarrow> bool" where
  "verify P secret payload sig \<longleftrightarrow> sign P secret payload = sig"

record MeshSigner =
  sg_signerId :: string
  sg_alg :: string
  sg_sign_payload :: "json \<Rightarrow> string"

record MeshVerifier =
  mv_verify :: "json \<Rightarrow> string \<Rightarrow> string \<Rightarrow> bool"
  mv_trustedSignerIds :: "string list"

definition createHmacMeshSigner :: "platform \<Rightarrow> string \<Rightarrow> string \<Rightarrow> MeshSigner" where
  "createHmacMeshSigner P signerId secret =
     \<lparr> sg_signerId = signerId, sg_alg = ''hmac-sha256'', sg_sign_payload = sign P secret \<rparr>"

definition createHmacMeshVerifier :: "platform \<Rightarrow> string \<Rightarrow> MeshVerifier" where
  "createHmacMeshVerifier P secret =
     \<lparr> mv_verify = (\<lambda>payload signature signerId. verify P secret payload signature), mv_trustedSignerIds = [''*''] \<rparr>"

text \<open>\<open>raw\<close> is the Ed25519 signature, in base64, under the private key of the node.\<close>

definition createEd25519MeshSigner :: "(string \<Rightarrow> string) \<Rightarrow> string \<Rightarrow> MeshSigner" where
  "createEd25519MeshSigner raw signerId =
     \<lparr> sg_signerId = signerId, sg_alg = ''ed25519'', sg_sign_payload = (\<lambda>payload. ''ed25519:'' @ raw (mesh_stableStringify payload)) \<rparr>"

text \<open>
  The state of an Ed25519 verifier is its map from signer ids to public keys; \<open>readable\<close> tells whether
  \<open>createPublicKey\<close> accepts a key.
\<close>

type_synonym trust_anchors = "(string, string) jsmap"

definition addTrustAnchor :: "(string \<Rightarrow> bool) \<Rightarrow> string \<Rightarrow> string \<Rightarrow> trust_anchors \<Rightarrow> trust_anchors result" where
  "addTrustAnchor readable signerId pem keys =
     (if readable pem then Inr (map_set signerId pem keys) else Inl (MeshError ''createPublicKey''))"

definition removeTrustAnchor :: "string \<Rightarrow> trust_anchors \<Rightarrow> trust_anchors" where
  "removeTrustAnchor signerId keys = map_delete signerId keys"

fun seed_anchors :: "(string \<Rightarrow> bool) \<Rightarrow> (string \<times> string) list \<Rightarrow> trust_anchors \<Rightarrow> trust_anchors result" where
  "seed_anchors readable [] keys = Inr keys"
| "seed_anchors readable ((signerId, pem) # seed) keys =
     bind_result (addTrustAnchor readable signerId pem keys) (seed_anchors readable seed)"

definition ed25519_mesh_verify :: "platform \<Rightarrow> trust_anchors \<Rightarrow> json \<Rightarrow> string \<Rightarrow> string \<Rightarrow> bool" where
  "ed25519_mesh_verify P keys payload signature signerId =
     (if \<not> starts_with signature ''ed25519:'' then False
      else case map_of keys signerId of None \<Rightarrow> False
      | Some key \<Rightarrow> verifyEd25519 P key (mesh_stableStringify payload) (drop 8 signature))"

definition createEd25519MeshVerifier :: "platform \<Rightarrow> trust_anchors \<Rightarrow> MeshVerifier" where
  "createEd25519MeshVerifier P keys = \<lparr> mv_verify = ed25519_mesh_verify P keys, mv_trustedSignerIds = map fst keys \<rparr>"

text \<open>The contract between a signer and the verifiers that trust it.\<close>

locale mesh_trust =
  fixes sgn :: "json \<Rightarrow> string" and vrf :: "json \<Rightarrow> string \<Rightarrow> string \<Rightarrow> bool" and signer_id :: string
  assumes verify_signed: "vrf payload (sgn payload) signer_id"

abbreviation trusts :: "MeshVerifier \<Rightarrow> MeshSigner \<Rightarrow> bool" where
  "trusts V S \<equiv> mesh_trust (sg_sign_payload S) (mv_verify V) (sg_signerId S)"

interpretation hmac_trust: mesh_trust "sign P secret" "\<lambda>payload signature _. verify P secret payload signature" signerId
  for P secret signerId
  by unfold_locales (simp add: verify_def)

lemma hmac_trusts: "trusts (createHmacMeshVerifier P secret) (createHmacMeshSigner P signerId secret)"
  by (simp add: createHmacMeshVerifier_def createHmacMeshSigner_def hmac_trust.mesh_trust_axioms)

lemma ed25519_trusts:
  assumes "map_of keys signerId = Some pem" "\<And>msg. verifyEd25519 P pem msg (raw msg)"
  shows "trusts (createEd25519MeshVerifier P keys) (createEd25519MeshSigner raw signerId)"
  using assms by unfold_locales
    (simp add: createEd25519MeshVerifier_def createEd25519MeshSigner_def ed25519_mesh_verify_def js_simps)

text \<open>A signer outside the allowlist, or removed from it, is rejected.\<close>

lemma ed25519_unknown: "map_of keys signerId = None \<Longrightarrow> \<not> ed25519_mesh_verify P keys payload signature signerId"
  by (simp add: ed25519_mesh_verify_def)

lemma ed25519_removed: "\<not> ed25519_mesh_verify P (removeTrustAnchor signerId keys) payload signature signerId"
  by (rule ed25519_unknown) (simp add: removeTrustAnchor_def js_simps)

lemma anchors_keep_others:
  "addTrustAnchor readable i pem keys = Inr keys' \<Longrightarrow> j \<noteq> i \<Longrightarrow>
     ed25519_mesh_verify P keys' payload signature j = ed25519_mesh_verify P keys payload signature j"
  by (auto simp: addTrustAnchor_def ed25519_mesh_verify_def js_simps split: if_splits)

end
