(* ===== verification/Mesh_Quorum.thy ===== *)
theory Mesh_Quorum
  imports Mesh_Base
begin

text \<open>
  Witness co-signatures of \<open>mesh-runtime\<close>: the collector of warrant signatures, the co-signing and
  counting of revocation signatures, and the construction of a revocation under quorum.  The theorems:
  the collector counts distinct configured witnesses, and a revocation the root builds with enough
  witnesses carries enough valid signatures for every verifier that trusts them.
\<close>

section \<open>Warrant quorum\<close>

record QuorumCollector =
  qc_required :: int
  qc_witnessIds :: "string list"
  qc_collected :: "(string, QuorumSignature list) jsmap"

definition new_collector :: "int \<Rightarrow> string list \<Rightarrow> QuorumCollector" where
  "new_collector required witnessIds = \<lparr> qc_required = required, qc_witnessIds = witnessIds, qc_collected = [] \<rparr>"

definition quorum_signatures :: "string \<Rightarrow> QuorumCollector \<Rightarrow> QuorumSignature list" where
  "quorum_signatures warrant_id c = (case map_of (qc_collected c) warrant_id of None \<Rightarrow> [] | Some sigs \<Rightarrow> sigs)"

definition quorum_count :: "string \<Rightarrow> QuorumCollector \<Rightarrow> nat" where
  "quorum_count warrant_id c = length (quorum_signatures warrant_id c)"

definition quorum_satisfied :: "string \<Rightarrow> QuorumCollector \<Rightarrow> bool" where
  "quorum_satisfied warrant_id c \<longleftrightarrow> int (quorum_count warrant_id c) \<ge> qc_required c"

definition quorum_add :: "string \<Rightarrow> QuorumSignature \<Rightarrow> QuorumCollector \<Rightarrow> nat \<times> QuorumCollector" where
  "quorum_add warrant_id sig c =
     (if qs_witness_id sig \<notin> set (qc_witnessIds c) then (quorum_count warrant_id c, c)
      else let sigs = quorum_signatures warrant_id c
           in if list_ex (\<lambda>s. qs_witness_id s = qs_witness_id sig) sigs then (length sigs, c)
              else (Suc (length sigs), c \<lparr> qc_collected := map_set warrant_id (sigs @ [sig]) (qc_collected c) \<rparr>))"

definition warrant_digest :: "platform \<Rightarrow> string \<Rightarrow> string \<Rightarrow> MeshWarrant \<Rightarrow> string" where
  "warrant_digest P secret witness_id w =
     sha256_hex P (secret @ '':quorum:'' @ witness_id @ '':'' @
       sha256_hex P (mesh_stableStringify (JObj (warrant_fields w @ [(''signature'', JStr (mw_signature w))]))))"

definition witnessCoSign :: "platform \<Rightarrow> string \<Rightarrow> string \<Rightarrow> iso_time \<Rightarrow> MeshWarrant \<Rightarrow> QuorumSignature" where
  "witnessCoSign P secret witness_id now w =
     \<lparr> qs_witness_id = witness_id, qs_signature = warrant_digest P secret witness_id w, qs_signed_at = now,
       qs_artifact_kind = None \<rparr>"

definition verifyQuorumSignature :: "platform \<Rightarrow> string \<Rightarrow> MeshWarrant \<Rightarrow> QuorumSignature \<Rightarrow> bool" where
  "verifyQuorumSignature P secret w sig \<longleftrightarrow> qs_signature sig = warrant_digest P secret (qs_witness_id sig) w"

section \<open>Revocation quorum\<close>

definition cosign_payload :: "MeshRevocation \<Rightarrow> json" where
  "cosign_payload r = JObj
     [(''kind'', JStr ''quorum:revocation''), (''revocation_id'', JStr (rv_revocation_id r)),
      (''target_id'', JStr (rv_target_id r)), (''root_signature'', JStr (rv_signature r))]"

definition witnessCoSignRevocation :: "MeshSigner \<Rightarrow> iso_time \<Rightarrow> MeshRevocation \<Rightarrow> QuorumSignature" where
  "witnessCoSignRevocation signer now r =
     \<lparr> qs_witness_id = sg_signerId signer, qs_signature = sg_sign_payload signer (cosign_payload r),
       qs_signed_at = now, qs_artifact_kind = Some ''revocation'' \<rparr>"

definition verifyRevocationQuorumSignature :: "MeshVerifier \<Rightarrow> MeshRevocation \<Rightarrow> QuorumSignature \<Rightarrow> bool" where
  "verifyRevocationQuorumSignature V r sig =
     (if qs_artifact_kind sig \<noteq> Some ''revocation'' then False
      else mv_verify V (cosign_payload r) (qs_signature sig) (qs_witness_id sig))"

fun count_witnesses :: "MeshVerifier \<Rightarrow> MeshRevocation \<Rightarrow> QuorumSignature list \<Rightarrow> string list \<Rightarrow> string list" where
  "count_witnesses V r [] witnesses = witnesses"
| "count_witnesses V r (sig # sigs) witnesses =
     (if qs_witness_id sig \<in> set witnesses then count_witnesses V r sigs witnesses
      else if \<not> verifyRevocationQuorumSignature V r sig then count_witnesses V r sigs witnesses
      else count_witnesses V r sigs (witnesses @ [qs_witness_id sig]))"

definition countValidRevocationQuorum :: "MeshVerifier \<Rightarrow> MeshRevocation \<Rightarrow> nat" where
  "countValidRevocationQuorum V r =
     length (count_witnesses V r (case rv_signing_quorum r of None \<Rightarrow> [] | Some sigs \<Rightarrow> sigs) [])"

text \<open>
  \<open>revokeWithQuorum\<close> up to the gossip: \<open>collect_cosignatures\<close> is its loop over the witnesses, with the
  signatures collected so far by witness id.
\<close>

fun collect_cosignatures ::
  "(nat \<Rightarrow> iso_time) \<Rightarrow> MeshRevocation \<Rightarrow> int \<Rightarrow> MeshSigner list \<Rightarrow> (string, QuorumSignature) jsmap
     \<Rightarrow> (string, QuorumSignature) jsmap" where
  "collect_cosignatures clock r required [] collectedBy = collectedBy"
| "collect_cosignatures clock r required (w # ws) collectedBy =
     (if sg_signerId w \<in> fst ` set collectedBy then collect_cosignatures clock r required ws collectedBy
      else let collectedBy' = map_set (sg_signerId w) (witnessCoSignRevocation w (clock (length collectedBy)) r) collectedBy
           in if int (length collectedBy') \<ge> required then collectedBy'
              else collect_cosignatures clock r required ws collectedBy')"

definition signed_revocation :: "MeshSigner \<Rightarrow> string \<Rightarrow> string \<Rightarrow> RevocationTargetKind \<Rightarrow> string \<Rightarrow> iso_time \<Rightarrow> string
    \<Rightarrow> MeshRevocation" where
  "signed_revocation S revocation_id target kind reason now issuer =
     (let partial = \<lparr> rv_revocation_id = revocation_id, rv_target_id = target, rv_kind = kind, rv_reason = reason,
            rv_revoked_at = now, rv_issued_by = issuer, rv_signing_quorum = None, rv_signature = [] \<rparr>
      in partial \<lparr> rv_signature := sg_sign_payload S (revocation_payload partial) \<rparr>)"

definition quorum_revocation ::
  "MeshSigner \<Rightarrow> string \<Rightarrow> string \<Rightarrow> RevocationTargetKind \<Rightarrow> string \<Rightarrow> iso_time \<Rightarrow> (nat \<Rightarrow> iso_time) \<Rightarrow> string
     \<Rightarrow> MeshSigner list \<Rightarrow> int \<Rightarrow> MeshRevocation result" where
  "quorum_revocation S revocation_id target kind reason now clock issuer witnesses required =
     (if required < 1 then Inl (MeshError ''revokeWithQuorum: requiredQuorum must be >= 1'')
      else if int (length witnesses) < required then Inl (MeshError (''revokeWithQuorum: only '' @ num_string (of_nat (length witnesses)) @
             '' witnesses provided, need '' @ num_string (of_int required)))
      else let partial = signed_revocation S revocation_id target kind reason now issuer;
               collectedBy = collect_cosignatures clock partial required witnesses []
           in if int (length collectedBy) < required
              then Inl (MeshError (''revokeWithQuorum: collected '' @ num_string (of_nat (length collectedBy)) @
                     '' distinct witness signatures, need '' @ num_string (of_int required)))
              else Inr (partial \<lparr> rv_signing_quorum := Some (map snd collectedBy) \<rparr>))"

section \<open>Counting\<close>

text \<open>The witnesses whose signature on a revocation verifies.\<close>

definition valid_witnesses :: "MeshVerifier \<Rightarrow> MeshRevocation \<Rightarrow> string set" where
  "valid_witnesses V r = {qs_witness_id sig | sig. sig \<in> set (case rv_signing_quorum r of None \<Rightarrow> [] | Some sigs \<Rightarrow> sigs) \<and>
     verifyRevocationQuorumSignature V r sig}"

lemma count_witnesses_spec:
  "distinct ws \<Longrightarrow> distinct (count_witnesses V r sigs ws) \<and>
   set (count_witnesses V r sigs ws) = set ws \<union> {qs_witness_id sig | sig. sig \<in> set sigs \<and> verifyRevocationQuorumSignature V r sig}"
  by (induction V r sigs ws rule: count_witnesses.induct) auto

lemma countValidRevocationQuorum_card: "countValidRevocationQuorum V r = card (valid_witnesses V r)"
  using count_witnesses_spec[of "[]" V r "case rv_signing_quorum r of None \<Rightarrow> [] | Some sigs \<Rightarrow> sigs"]
  by (simp add: countValidRevocationQuorum_def valid_witnesses_def flip: distinct_card)

lemma finite_valid_witnesses: "finite (valid_witnesses V r)"
proof (rule finite_subset)
  show "valid_witnesses V r \<subseteq> qs_witness_id ` set (case rv_signing_quorum r of None \<Rightarrow> [] | Some sigs \<Rightarrow> sigs)"
    by (auto simp: valid_witnesses_def)
qed (rule finite_imageI, rule finite_set)

text \<open>The collector: entries are signatures of distinct configured witnesses.\<close>

definition collector_inv :: "QuorumCollector \<Rightarrow> bool" where
  "collector_inv c \<longleftrightarrow> (\<forall>w. distinct (map qs_witness_id (quorum_signatures w c)) \<and>
     set (map qs_witness_id (quorum_signatures w c)) \<subseteq> set (qc_witnessIds c))"

lemma collector_inv_new: "collector_inv (new_collector required witnessIds)"
  by (simp add: collector_inv_def quorum_signatures_def new_collector_def)

lemma quorum_signatures_add:
  "quorum_signatures w' (snd (quorum_add w sig c)) =
     (if w' = w \<and> qs_witness_id sig \<in> set (qc_witnessIds c) \<and> qs_witness_id sig \<notin> qs_witness_id ` set (quorum_signatures w c)
      then quorum_signatures w c @ [sig] else quorum_signatures w' c)"
proof -
  have "list_ex (\<lambda>s. qs_witness_id s = qs_witness_id sig) sigs \<longleftrightarrow> qs_witness_id sig \<in> qs_witness_id ` set sigs"
    for sigs :: "QuorumSignature list"
    unfolding list_ex_iff image_iff by metis
  then show ?thesis
    by (cases "map_of (qc_collected c) w"; cases "w' = w") (simp_all add: quorum_add_def Let_def quorum_signatures_def js_simps)
qed

lemma quorum_add_keeps: "qc_witnessIds (snd (quorum_add w sig c)) = qc_witnessIds c" "qc_required (snd (quorum_add w sig c)) = qc_required c"
  by (simp_all add: quorum_add_def Let_def)

lemma collector_inv_add: "collector_inv c \<Longrightarrow> collector_inv (snd (quorum_add w sig c))"
  by (auto simp: collector_inv_def quorum_signatures_add quorum_add_keeps)

lemma quorum_add_count: "fst (quorum_add w sig c) = quorum_count w (snd (quorum_add w sig c))"
  by (auto simp: quorum_add_def Let_def quorum_count_def quorum_signatures_def js_simps split: option.splits)

text \<open>The collected signatures after a sequence of additions.\<close>

fun quorum_adds :: "(string \<times> QuorumSignature) list \<Rightarrow> QuorumCollector \<Rightarrow> QuorumCollector" where
  "quorum_adds [] c = c"
| "quorum_adds ((w, sig) # adds) c = quorum_adds adds (snd (quorum_add w sig c))"

lemma quorum_adds_witnesses:
  "collector_inv c \<Longrightarrow> collector_inv (quorum_adds adds c) \<and> qc_witnessIds (quorum_adds adds c) = qc_witnessIds c \<and>
   qc_required (quorum_adds adds c) = qc_required c \<and>
   qs_witness_id ` set (quorum_signatures w (quorum_adds adds c)) =
     qs_witness_id ` set (quorum_signatures w c) \<union> ({qs_witness_id sig | sig. (w, sig) \<in> set adds} \<inter> set (qc_witnessIds c))"
proof (induction adds arbitrary: c)
  case (Cons a adds)
  obtain w' sig where a: "a = (w', sig)" by (cases a)
  note IH = Cons.IH[OF collector_inv_add[OF Cons.prems, of w' sig]]
  show ?case using IH by (auto simp: a quorum_signatures_add quorum_add_keeps split: if_splits)
qed simp

text \<open>A warrant's quorum is met exactly when enough distinct configured witnesses were added for it.\<close>

lemma quorum_satisfied_exact:
  "quorum_satisfied w (quorum_adds adds (new_collector required witnessIds)) \<longleftrightarrow>
     required \<le> int (card ({qs_witness_id sig | sig. (w, sig) \<in> set adds} \<inter> set witnessIds))"
proof -
  let ?c = "quorum_adds adds (new_collector required witnessIds)"
  note run = quorum_adds_witnesses[OF collector_inv_new[of required witnessIds], of adds w]
  have "quorum_count w ?c = card (qs_witness_id ` set (quorum_signatures w ?c))"
    using conjunct1[OF run] distinct_card[of "map qs_witness_id (quorum_signatures w ?c)"]
    by (simp add: collector_inv_def quorum_count_def)
  with run show ?thesis
    by (simp add: quorum_satisfied_def new_collector_def quorum_signatures_def)
qed

section \<open>A revocation under quorum\<close>

definition cosigned_by :: "MeshSigner list \<Rightarrow> MeshRevocation \<Rightarrow> (string, QuorumSignature) jsmap \<Rightarrow> bool" where
  "cosigned_by ws r collectedBy \<longleftrightarrow> map_ok collectedBy \<and>
     (\<forall>(i, q) \<in> set collectedBy. \<exists>w \<in> set ws. \<exists>t. i = sg_signerId w \<and> q = witnessCoSignRevocation w t r)"

lemma collect_cosigned:
  assumes "cosigned_by all r collectedBy" "set ws \<subseteq> set all"
  shows "cosigned_by all r (collect_cosignatures clock r required ws collectedBy)"
  using assms
proof (induction ws arbitrary: collectedBy)
  case (Cons w ws)
  show ?case
  proof (cases "sg_signerId w \<in> fst ` set collectedBy")
    case False
    define c where "c = map_set (sg_signerId w) (witnessCoSignRevocation w (clock (length collectedBy)) r) collectedBy"
    have "cosigned_by all r c"
      using Cons.prems map_set_absent[OF False] False by (auto simp: c_def cosigned_by_def map_ok_def)
    with Cons.IH[of c] Cons.prems False show ?thesis by (simp add: Let_def flip: c_def)
  qed (use Cons in simp)
qed simp

lemma collect_enough:
  assumes "map_ok collectedBy" "required \<le> int (card (fst ` set collectedBy \<union> sg_signerId ` set ws))"
  shows "required \<le> int (length (collect_cosignatures clock r required ws collectedBy))"
  using assms
proof (induction ws arbitrary: collectedBy)
  case Nil
  then show ?case by (simp add: map_ok_def distinct_card[of "map fst collectedBy", simplified])
next
  case (Cons w ws)
  show ?case
  proof (cases "sg_signerId w \<in> fst ` set collectedBy")
    case True
    then have "fst ` set collectedBy \<union> sg_signerId ` set (w # ws) = fst ` set collectedBy \<union> sg_signerId ` set ws" by auto
    with Cons True show ?thesis by simp
  next
    case False
    then show ?thesis
      using Cons.IH[of "map_set (sg_signerId w) (witnessCoSignRevocation w (clock (length collectedBy)) r) collectedBy"] Cons.prems
      by (simp add: Let_def keys_map_set)
  qed
qed

lemma revocation_payload_quorum: "revocation_payload (r \<lparr> rv_signing_quorum := q \<rparr>) = revocation_payload r"
  "cosign_payload (r \<lparr> rv_signing_quorum := q \<rparr>) = cosign_payload r"
  by (simp_all add: revocation_payload_def cosign_payload_def)

lemma cosigned_verifies:
  assumes "trusts V w" shows "verifyRevocationQuorumSignature V r (witnessCoSignRevocation w t r')  \<longleftrightarrow>
    mv_verify V (cosign_payload r) (sg_sign_payload w (cosign_payload r')) (sg_signerId w)"
  by (simp add: verifyRevocationQuorumSignature_def witnessCoSignRevocation_def)

lemma quorum_revocation_valid:
  assumes "quorum_revocation S i target kind reason now clock issuer ws required = Inr r" "\<forall>w \<in> set ws. trusts V w"
  shows "required \<le> int (countValidRevocationQuorum V r)"
proof -
  define partial where "partial = signed_revocation S i target kind reason now issuer"
  define c where "c = collect_cosignatures clock partial required ws []"
  have r: "r = partial \<lparr> rv_signing_quorum := Some (map snd c) \<rparr>" and len: "required \<le> int (length c)"
    using assms(1) by (auto simp: quorum_revocation_def Let_def partial_def c_def split: if_splits)
  have cs: "cosigned_by ws partial c" unfolding c_def by (rule collect_cosigned) (simp_all add: cosigned_by_def)
  have "fst ` set c \<subseteq> valid_witnesses V r"
  proof
    fix k assume "k \<in> fst ` set c"
    then obtain q where q: "(k, q) \<in> set c" by auto
    with cs obtain w t where w: "w \<in> set ws" "k = sg_signerId w" "q = witnessCoSignRevocation w t partial"
      by (auto simp: cosigned_by_def)
    have "mv_verify V (cosign_payload partial) (sg_sign_payload w (cosign_payload partial)) (sg_signerId w)"
      using assms(2) w(1) by (simp add: mesh_trust_def)
    then have "verifyRevocationQuorumSignature V r q"
      using assms(2) w by (simp add: cosigned_verifies r revocation_payload_quorum)
    moreover have "qs_witness_id q = k" by (simp add: w witnessCoSignRevocation_def)
    ultimately show "k \<in> valid_witnesses V r"
      using q by (force simp: valid_witnesses_def r)
  qed
  moreover have "finite (valid_witnesses V r)" by (rule finite_valid_witnesses)
  ultimately have "card (fst ` set c) \<le> countValidRevocationQuorum V r"
    by (simp add: countValidRevocationQuorum_card card_mono)
  moreover have "card (fst ` set c) = length c"
    using cs distinct_card[of "map fst c"] by (simp add: cosigned_by_def map_ok_def)
  ultimately show ?thesis using len by linarith
qed

lemma quorum_revocation_succeeds:
  assumes "1 \<le> required" "required \<le> int (card (sg_signerId ` set ws))"
  shows "\<exists>r. quorum_revocation S i target kind reason now clock issuer ws required = Inr r"
proof -
  have "card (sg_signerId ` set ws) \<le> length ws" by (metis card_image_le card_length finite_set le_trans)
  then have "\<not> int (length ws) < required" using assms(2) by linarith
  moreover have "required \<le> int (length (collect_cosignatures clock p required ws []))" for p
    using assms(2) by (intro collect_enough) (simp_all add: map_ok_def)
  ultimately show ?thesis using assms(1) by (simp add: quorum_revocation_def Let_def not_less)
qed

lemma quorum_revocation_root_signed:
  assumes "quorum_revocation S i target kind reason now clock (sg_signerId S) ws required = Inr r" "trusts V S"
  shows "mv_verify V (revocation_payload r) (rv_signature r) (rv_issued_by r)"
    and "rv_revocation_id r = i" "rv_target_id r = target" "rv_kind r = kind" "rv_revoked_at r = now"
  using assms
  by (auto simp: quorum_revocation_def Let_def signed_revocation_def mesh_trust_def revocation_payload_def split: if_splits)

end
