(* ===== verification/Mesh_Ingress.thy ===== *)
theory Mesh_Ingress
  imports Mesh_Base Rate_Limiter
begin

text \<open>
  The HTTP ingress of a mesh node: the rate limiter, the replay cache and the checks of \<open>onRequest\<close> in
  their order, around a handler that is a parameter here.  The limiter is shown to refine the boundary's
  \<open>SubjectRateLimiter\<close>, so that it inherits the token-bucket bound; the main theorem is that a request body
  is not handled twice within the window of the cache.
\<close>

section \<open>Rate limiter\<close>

record mesh_bucket =
  mb_tokens :: rat
  mb_lastRefillMs :: rat

record MeshRateLimiter =
  ml_capacity :: rat
  ml_refillRatePerSec :: rat
  ml_buckets :: "(string, mesh_bucket) jsmap"

definition createMeshRateLimiter :: "rat option \<Rightarrow> rat option \<Rightarrow> MeshRateLimiter" where
  "createMeshRateLimiter capacity refillRatePerSec =
     \<lparr> ml_capacity = (case capacity of Some c \<Rightarrow> c | None \<Rightarrow> 50),
       ml_refillRatePerSec = (case refillRatePerSec of Some r \<Rightarrow> r | None \<Rightarrow> 5), ml_buckets = [] \<rparr>"

definition refill :: "MeshRateLimiter \<Rightarrow> rat \<Rightarrow> mesh_bucket \<Rightarrow> mesh_bucket" where
  "refill ml t b =
     (let elapsedSec = (t - mb_lastRefillMs b) / 1000
      in if elapsedSec \<le> 0 then b
         else \<lparr> mb_tokens = min (ml_capacity ml) (mb_tokens b + elapsedSec * ml_refillRatePerSec ml), mb_lastRefillMs = t \<rparr>)"

definition tryAcquire :: "string \<Rightarrow> rat \<Rightarrow> MeshRateLimiter \<Rightarrow> bool \<times> MeshRateLimiter" where
  "tryAcquire peerId t ml =
     (let b = refill ml t (case map_of (ml_buckets ml) peerId of Some b \<Rightarrow> b
                | None \<Rightarrow> \<lparr> mb_tokens = ml_capacity ml, mb_lastRefillMs = t \<rparr>)
      in if mb_tokens b < 1 then (False, ml \<lparr> ml_buckets := map_set peerId b (ml_buckets ml) \<rparr>)
         else (True, ml \<lparr> ml_buckets := map_set peerId (b \<lparr> mb_tokens := mb_tokens b - 1 \<rparr>) (ml_buckets ml) \<rparr>))"

definition peek :: "string \<Rightarrow> rat \<Rightarrow> MeshRateLimiter \<Rightarrow> (rat \<times> rat) \<times> MeshRateLimiter" where
  "peek peerId t ml =
     (case map_of (ml_buckets ml) peerId of None \<Rightarrow> ((ml_capacity ml, ml_capacity ml), ml)
      | Some b \<Rightarrow> let b' = refill ml t b
          in ((mb_tokens b', ml_capacity ml), ml \<lparr> ml_buckets := map_set peerId b' (ml_buckets ml) \<rparr>))"

text \<open>The mesh limiter as a limiter of the boundary.\<close>

definition as_subject_limiter :: "MeshRateLimiter \<Rightarrow> SubjectRateLimiter" where
  "as_subject_limiter ml = \<lparr> rl_capacity = ml_capacity ml, rl_refillPerSec = ml_refillRatePerSec ml,
     rl_buckets = map (\<lambda>(k, b). (k, \<lparr> bk_tokens = mb_tokens b, bk_updated = mb_lastRefillMs b \<rparr>)) (ml_buckets ml) \<rparr>"

definition mesh_limiter_inv :: "rat \<Rightarrow> MeshRateLimiter \<Rightarrow> bool" where
  "mesh_limiter_inv t ml \<longleftrightarrow> limiter_inv t (as_subject_limiter ml)"

definition mesh_available :: "MeshRateLimiter \<Rightarrow> string \<Rightarrow> rat \<Rightarrow> rat" where
  "mesh_available ml = available (as_subject_limiter ml)"

lemma map_set_map: "map_set k (f v) (map (\<lambda>(k, v). (k, f v)) m) = map (\<lambda>(k, v). (k, f v)) (map_set k v m)"
  by (induction m) auto

lemma map_of_mapped: "map_of (map (\<lambda>(k, v). (k, f v)) m) k = map_option f (map_of m k)"
  by (induction m) auto

lemma as_subject_sel [simp]: "rl_capacity (as_subject_limiter ml) = ml_capacity ml"
  "rl_refillPerSec (as_subject_limiter ml) = ml_refillRatePerSec ml"
  by (simp_all add: as_subject_limiter_def)

lemma as_subject_set:
  "as_subject_limiter (ml \<lparr> ml_buckets := map_set k b (ml_buckets ml) \<rparr>) = (as_subject_limiter ml)
     \<lparr> rl_buckets := map_set k \<lparr> bk_tokens = mb_tokens b, bk_updated = mb_lastRefillMs b \<rparr> (rl_buckets (as_subject_limiter ml)) \<rparr>"
  by (simp add: as_subject_limiter_def map_set_map[where f = "\<lambda>b. \<lparr> bk_tokens = mb_tokens b, bk_updated = mb_lastRefillMs b \<rparr>"])

text \<open>While the clock does not go backwards, a call is a call of the subject limiter.\<close>

lemma tryAcquire_refines:
  assumes "mesh_limiter_inv t ml" "t \<le> now" "tryAcquire k now ml = (ok, ml')"
  shows "limiter_allow k now (as_subject_limiter ml) = (ok, as_subject_limiter ml')"
proof -
  define b where "b = (case map_of (ml_buckets ml) k of Some b \<Rightarrow> b
    | None \<Rightarrow> \<lparr> mb_tokens = ml_capacity ml, mb_lastRefillMs = now \<rparr>)"
  define sb where "sb = \<lparr> bk_tokens = mb_tokens b, bk_updated = mb_lastRefillMs b \<rparr>"
  have sb: "(case map_of (rl_buckets (as_subject_limiter ml)) k of Some b \<Rightarrow> b
      | None \<Rightarrow> \<lparr> bk_tokens = rl_capacity (as_subject_limiter ml), bk_updated = now \<rparr>) = sb"
    by (simp add: sb_def b_def as_subject_limiter_def map_of_mapped split: option.split)
  have b: "mb_lastRefillMs b \<le> now \<and> mb_tokens b \<le> ml_capacity ml"
  proof (cases "map_of (ml_buckets ml) k")
    case (Some x)
    then have "map_of (rl_buckets (as_subject_limiter ml)) k = Some \<lparr> bk_tokens = mb_tokens x, bk_updated = mb_lastRefillMs x \<rparr>"
      by (simp add: as_subject_limiter_def map_of_mapped)
    with assms(1,2) Some show ?thesis by (fastforce simp: mesh_limiter_inv_def limiter_inv_def b_def)
  qed (simp add: b_def)
  define tokens where "tokens = min (ml_capacity ml) (mb_tokens b + max 0 ((now - mb_lastRefillMs b) / 1000) * ml_refillRatePerSec ml)"
  have r: "refill ml now b = \<lparr> mb_tokens = tokens, mb_lastRefillMs = now \<rparr>"
  proof (cases "mb_lastRefillMs b = now")
    case True
    then show ?thesis using b by (simp add: refill_def tokens_def)
  next
    case False
    then have "0 < (now - mb_lastRefillMs b) / 1000" using b by simp
    then show ?thesis by (simp add: refill_def tokens_def Let_def max_def)
  qed
  have "limiter_allow k now (as_subject_limiter ml) = (1 \<le> tokens, (as_subject_limiter ml) \<lparr> rl_buckets :=
      map_set k \<lparr> bk_tokens = (if 1 \<le> tokens then tokens - 1 else tokens), bk_updated = now \<rparr> (rl_buckets (as_subject_limiter ml)) \<rparr>)"
    by (simp only: limiter_allow_def Let_def sb) (simp add: sb_def tokens_def)
  moreover have "(ok, ml') = (1 \<le> tokens, ml \<lparr> ml_buckets := map_set k
      \<lparr> mb_tokens = (if 1 \<le> tokens then tokens - 1 else tokens), mb_lastRefillMs = now \<rparr> (ml_buckets ml) \<rparr>)"
    using assms(3) by (simp only: tryAcquire_def Let_def b_def[symmetric] r) (auto split: if_splits)
  ultimately show ?thesis by (simp add: as_subject_set)
qed

lemma tryAcquire_capacity:
  "tryAcquire k now ml = (ok, ml') \<Longrightarrow> ml_capacity ml' = ml_capacity ml \<and> ml_refillRatePerSec ml' = ml_refillRatePerSec ml"
  by (auto simp: tryAcquire_def Let_def split: if_splits)

interpretation peer_bucket: token_bucket tryAcquire mesh_available mesh_limiter_inv ml_capacity ml_refillRatePerSec
proof unfold_locales
  fix ml :: MeshRateLimiter and t t' now :: rat and k k' ok ml'
  show "mesh_available ml k t \<le> ml_capacity ml"
    using subject_bucket.avail_le[of "as_subject_limiter ml" k t] by (simp add: mesh_available_def)
  assume inv: "mesh_limiter_inv t ml"
  show "0 \<le> mesh_available ml k t"
    using subject_bucket.avail_nonneg inv by (simp add: mesh_available_def mesh_limiter_inv_def)
  show "mesh_limiter_inv t' ml" if "t \<le> t'"
    using subject_bucket.inv_later inv that by (simp add: mesh_limiter_inv_def)
  show "mesh_available ml k t' \<le> mesh_available ml k t + (t' - t) / 1000 * ml_refillRatePerSec ml" if "t \<le> t'"
    using subject_bucket.avail_advance[of t "as_subject_limiter ml" t' k] inv that
    by (simp add: mesh_available_def mesh_limiter_inv_def)
  assume now: "t \<le> now" and call: "tryAcquire k now ml = (ok, ml')"
  note ref = tryAcquire_refines[OF inv now call]
  show "mesh_available ml' k' now = mesh_available ml k' now - (if ok \<and> k' = k then 1 else 0)"
    using subject_bucket.allow_takes[OF inv[unfolded mesh_limiter_inv_def] now ref, of k'] by (simp add: mesh_available_def)
  show "mesh_limiter_inv now ml' \<and> ml_capacity ml' = ml_capacity ml \<and> ml_refillRatePerSec ml' = ml_refillRatePerSec ml"
    using subject_bucket.allow_inv[OF inv[unfolded mesh_limiter_inv_def] now ref] tryAcquire_capacity[OF call]
    by (simp add: mesh_limiter_inv_def)
qed

text \<open>The token-bucket bound of a peer, over any stretch of a run of a fresh limiter.\<close>

lemma mesh_rate_bound:
  assumes "ml_buckets ml = []" "0 \<le> ml_capacity ml" "0 \<le> ml_refillRatePerSec ml"
    and "sorted (map snd (earlier @ stretch))" "\<forall>c \<in> set earlier. snd c \<le> t0"
    and "\<forall>c \<in> set stretch. t0 \<le> snd c \<and> snd c \<le> t1" "t0 \<le> t1"
    and "calls_run tryAcquire earlier ml = (oks, ml1)" "calls_run tryAcquire stretch ml1 = (oks', ml2)"
  shows "of_nat (admitted_for peer stretch oks') \<le> ml_capacity ml + ml_refillRatePerSec ml * (t1 - t0) / 1000"
proof -
  have "mesh_limiter_inv t ml" for t
    using assms(1-3) by (simp add: mesh_limiter_inv_def limiter_inv_def as_subject_limiter_def)
  from peer_bucket.stretch_bound[OF this assms(4-)] show ?thesis .
qed

section \<open>Replay cache\<close>

record MeshReplayCache =
  rc_ttlMs :: rat
  rc_maxSize :: int
  rc_entries :: "(string, rat) jsmap"

definition createMeshReplayCache :: "rat option \<Rightarrow> int option \<Rightarrow> MeshReplayCache" where
  "createMeshReplayCache ttlMs maxSize =
     \<lparr> rc_ttlMs = (case ttlMs of Some t \<Rightarrow> t | None \<Rightarrow> 60000),
       rc_maxSize = (case maxSize of Some n \<Rightarrow> n | None \<Rightarrow> 10000), rc_entries = [] \<rparr>"

definition evictExpired :: "rat \<Rightarrow> MeshReplayCache \<Rightarrow> MeshReplayCache" where
  "evictExpired cutoff c = c \<lparr> rc_entries := dropWhile (\<lambda>(h, stamp). stamp \<le> cutoff) (rc_entries c) \<rparr>"

definition seen :: "string \<Rightarrow> rat \<Rightarrow> MeshReplayCache \<Rightarrow> bool \<times> MeshReplayCache" where
  "seen messageHash t c =
     (let c1 = evictExpired (t - rc_ttlMs c) c
      in if (case map_of (rc_entries c1) messageHash of Some existing \<Rightarrow> existing > t - rc_ttlMs c | None \<Rightarrow> False)
         then (True, c1)
         else let es = map_set messageHash t (rc_entries c1)
              in (False, c1 \<lparr> rc_entries := (if int (length es) > rc_maxSize c
                   then drop (nat (int (length es) - rc_maxSize c)) es else es) \<rparr>))"

definition cache_size :: "rat \<Rightarrow> MeshReplayCache \<Rightarrow> nat \<times> MeshReplayCache" where
  "cache_size t c = (let c1 = evictExpired (t - rc_ttlMs c) c in (length (rc_entries c1), c1))"

text \<open>An entry with at most \<open>n\<close> entries behind it.\<close>

definition held :: "string \<Rightarrow> rat \<Rightarrow> nat \<Rightarrow> MeshReplayCache \<Rightarrow> bool" where
  "held h t n c \<longleftrightarrow> map_ok (rc_entries c) \<and> (\<exists>pre post. rc_entries c = pre @ (h, t) # post \<and> length post \<le> n)"

lemma held_evict:
  assumes "held h t n c" "cutoff < t" shows "held h t n (evictExpired cutoff c)"
proof -
  from assms obtain pre post where c: "rc_entries c = pre @ (h, t) # post" "length post \<le> n" "map_ok (rc_entries c)"
    by (auto simp: held_def)
  have "\<exists>pre'. dropWhile (\<lambda>(h, stamp). stamp \<le> cutoff) (pre @ (h, t) # post) = pre' @ (h, t) # post"
    using assms(2) by (induction pre) auto
  moreover have "map_ok (dropWhile p m)" if "map_ok m" for p and m :: "(string, rat) jsmap"
    using that unfolding map_ok_def by (metis distinct_drop drop_map dropWhile_eq_drop)
  ultimately show ?thesis using c by (auto simp: held_def evictExpired_def)
qed

lemma map_set_split:
  "k \<noteq> h \<Longrightarrow> \<exists>pre' post'. map_set k v (pre @ (h, t) # post) = pre' @ (h, t) # post' \<and> length post' \<le> Suc (length post)"
proof (induction pre)
  case Nil
  then show ?case by (intro exI[of _ "[]"] exI[of _ "map_set k v post"]) (simp add: length_map_set)
next
  case (Cons e pre)
  show ?case
  proof (cases "fst e = k")
    case True
    then have "map_set k v ((e # pre) @ (h, t) # post) = ((k, v) # pre) @ (h, t) # post" by (cases e) simp
    then show ?thesis by (metis le_SucI order_refl)
  next
    case False
    obtain pre' post' where "map_set k v (pre @ (h, t) # post) = pre' @ (h, t) # post'" "length post' \<le> Suc (length post)"
      using Cons by auto
    then have "map_set k v ((e # pre) @ (h, t) # post) = (e # pre') @ (h, t) # post'" using False by (cases e) simp
    with \<open>length post' \<le> Suc (length post)\<close> show ?thesis by metis
  qed
qed

lemma drop_keeps:
  assumes "m = pre @ x # post" "k \<le> length pre" shows "drop k m = drop k pre @ x # post"
  using assms by simp

lemma map_ok_drop: "map_ok m \<Longrightarrow> map_ok (drop k m)"
  unfolding map_ok_def by (metis distinct_drop drop_map)

text \<open>A held entry answers a repetition, and survives the recording of another hash.\<close>

lemma seen_held:
  assumes "held h t n c" "t' < t + rc_ttlMs c"
  shows "fst (seen h t' c) \<and> held h t n (snd (seen h t' c))"
proof -
  have e: "held h t n (evictExpired (t' - rc_ttlMs c) c)" using assms by (intro held_evict) auto
  then have "map_of (rc_entries (evictExpired (t' - rc_ttlMs c) c)) h = Some t"
    by (auto simp: held_def map_of_entry[symmetric])
  with e assms show ?thesis by (simp add: seen_def Let_def algebra_simps)
qed

lemma seen_other:
  assumes "held h t n c" "t' < t + rc_ttlMs c" "h' \<noteq> h" "int (Suc n) < rc_maxSize c"
  shows "held h t (if fst (seen h' t' c) then n else Suc n) (snd (seen h' t' c))"
proof -
  define c1 where "c1 = evictExpired (t' - rc_ttlMs c) c"
  have e: "held h t n c1" using assms unfolding c1_def by (intro held_evict) auto
  show ?thesis
  proof (cases "case map_of (rc_entries c1) h' of Some x \<Rightarrow> x > t' - rc_ttlMs c | None \<Rightarrow> False")
    case True
    then have "seen h' t' c = (True, c1)" by (simp add: seen_def Let_def c1_def)
    with e show ?thesis by simp
  next
    case False
    define m where "m = map_set h' t' (rc_entries c1)"
    obtain pre post where m: "m = pre @ (h, t) # post" "length post \<le> Suc n" and ok: "map_ok m"
    proof -
      from e obtain p q where pq: "rc_entries c1 = p @ (h, t) # q" "length q \<le> n" "map_ok (rc_entries c1)"
        by (auto simp: held_def)
      obtain p' q' where m': "map_set h' t' (p @ (h, t) # q) = p' @ (h, t) # q'" "length q' \<le> Suc (length q)"
        using map_set_split[OF assms(3)] by metis
      show thesis
        by (rule that[of p' q']) (use pq m' map_ok_map_set[OF pq(3), of h' t'] in \<open>auto simp: m_def\<close>)
    qed
    define k where "k = (if int (length m) > rc_maxSize c then nat (int (length m) - rc_maxSize c) else 0)"
    have "k \<le> length pre" using m assms(4) by (auto simp: k_def)
    then have "held h t (Suc n) (c1 \<lparr> rc_entries := drop k m \<rparr>)"
      using drop_keeps[OF m(1)] m(2) map_ok_drop[OF ok, of k] by (auto simp: held_def)
    moreover have "seen h' t' c = (False, c1 \<lparr> rc_entries := drop k m \<rparr>)"
      using False by (simp add: seen_def Let_def c1_def[symmetric] m_def[symmetric] k_def)
    ultimately show ?thesis by simp
  qed
qed

text \<open>While the clock does not go backwards the entries are in the order of their stamps.\<close>

definition cache_inv :: "rat \<Rightarrow> MeshReplayCache \<Rightarrow> bool" where
  "cache_inv t c \<longleftrightarrow> map_ok (rc_entries c) \<and> sorted (map snd (rc_entries c)) \<and> (\<forall>e \<in> set (rc_entries c). snd e \<le> t)"

lemma cache_inv_new: "cache_inv t (createMeshReplayCache ttl maxSize)"
  by (simp add: cache_inv_def createMeshReplayCache_def)

lemma cache_inv_suffix:
  assumes "cache_inv t c" "t \<le> t'" shows "cache_inv t' (c \<lparr> rc_entries := drop k (rc_entries c) \<rparr>)"
  using assms map_ok_drop[of "rc_entries c" k]
  by (auto simp: cache_inv_def drop_map[symmetric] intro: sorted_wrt_drop dest!: in_set_dropD)

lemma evict_suffix: "\<exists>k. evictExpired cutoff c = c \<lparr> rc_entries := drop k (rc_entries c) \<rparr>"
  by (metis dropWhile_eq_drop evictExpired_def)

lemma evict_live:
  "sorted (map snd m) \<Longrightarrow> \<forall>e \<in> set (dropWhile (\<lambda>(h, stamp). stamp \<le> cutoff) m). cutoff < snd (e :: string \<times> rat)"
proof (induction m)
  case (Cons e m)
  then show ?case by (cases e) (auto simp: not_le intro: less_le_trans)
qed simp

lemma seen_step:
  assumes "cache_inv t c" "t \<le> now"
  shows "cache_inv now (snd (seen h now c))" "rc_ttlMs (snd (seen h now c)) = rc_ttlMs c" "rc_maxSize (snd (seen h now c)) = rc_maxSize c"
    and "\<not> fst (seen h now c) \<Longrightarrow> 1 \<le> rc_maxSize c \<Longrightarrow> held h now 0 (snd (seen h now c))"
proof -
  define c1 where "c1 = evictExpired (now - rc_ttlMs c) c"
  have c1: "cache_inv now c1" "rc_ttlMs c1 = rc_ttlMs c" "rc_maxSize c1 = rc_maxSize c"
    using evict_suffix[of "now - rc_ttlMs c" c] cache_inv_suffix[OF assms] by (auto simp: c1_def)
  have live: "\<forall>e \<in> set (rc_entries c1). now - rc_ttlMs c < snd e"
    using assms(1) evict_live by (auto simp: c1_def evictExpired_def cache_inv_def)
  define k where "k = (let es = map_set h now (rc_entries c1) in
      if int (length es) > rc_maxSize c then nat (int (length es) - rc_maxSize c) else 0)"
  consider (old) "seen h now c = (True, c1)"
    | (new) "h \<notin> fst ` set (rc_entries c1)" "seen h now c = (False, c1 \<lparr> rc_entries := drop k (rc_entries c1 @ [(h, now)]) \<rparr>)"
  proof (cases "map_of (rc_entries c1) h")
    case None
    then have fresh: "h \<notin> fst ` set (rc_entries c1)" by (simp add: map_of_eq_None_iff)
    then have "map_set h now (rc_entries c1) = rc_entries c1 @ [(h, now)]"
      by (rule map_set_absent)
    with None fresh show ?thesis
      by (intro new) (simp_all add: seen_def Let_def c1_def[symmetric] k_def)
  next
    case (Some x)
    then have "now - rc_ttlMs c < x" using live map_of_SomeD[OF Some] by fastforce
    with Some show ?thesis by (intro old) (simp add: seen_def Let_def c1_def[symmetric])
  qed
  then have all: "cache_inv now (snd (seen h now c)) \<and> rc_ttlMs (snd (seen h now c)) = rc_ttlMs c \<and>
    rc_maxSize (snd (seen h now c)) = rc_maxSize c \<and>
    (\<not> fst (seen h now c) \<longrightarrow> 1 \<le> rc_maxSize c \<longrightarrow> held h now 0 (snd (seen h now c)))"
  proof cases
    case new
    define c2 where "c2 = c1 \<lparr> rc_entries := rc_entries c1 @ [(h, now)] \<rparr>"
    have "cache_inv now c2"
      using c1(1) new(1) by (auto simp: c2_def cache_inv_def map_ok_def sorted_append)
    then have inv: "cache_inv now (c2 \<lparr> rc_entries := drop k (rc_entries c2) \<rparr>)" by (rule cache_inv_suffix) simp
    have "k \<le> length (rc_entries c1)" if "1 \<le> rc_maxSize c"
      using that new(1) by (auto simp: k_def Let_def length_map_set)
    with new c1 inv show ?thesis by (auto simp: c2_def held_def cache_inv_def)
  qed (use c1 in simp)
  show "cache_inv now (snd (seen h now c))" "rc_ttlMs (snd (seen h now c)) = rc_ttlMs c" "rc_maxSize (snd (seen h now c)) = rc_maxSize c"
    "\<not> fst (seen h now c) \<Longrightarrow> 1 \<le> rc_maxSize c \<Longrightarrow> held h now 0 (snd (seen h now c))"
    using all by auto
qed

section \<open>The ingress\<close>

text \<open>
  A request: its body arrives in chunks of bytes, and reading may fail after the last of them.
\<close>

record MeshRequest =
  rq_method :: string
  rq_content_type :: "string option"
  rq_chunks :: "string list"
  rq_read_error :: bool

record Ingress =
  in_replayCache :: "MeshReplayCache option"
  in_rateLimiter :: "MeshRateLimiter option"
  in_maxRequestBodyBytes :: int
  in_requireJsonContentType :: bool
  in_partitions :: "string set"

datatype 'r MeshResponse = Http_ok 'r | Http_error nat string

fun response_status :: "'r MeshResponse \<Rightarrow> nat" where
  "response_status (Http_ok r) = 200"
| "response_status (Http_error status reason) = status"

text \<open>The loop over the chunks: the body, or the status with which reading stops.\<close>

fun read_body :: "int \<Rightarrow> bool \<Rightarrow> string list \<Rightarrow> string \<Rightarrow> (nat \<times> string) + string" where
  "read_body limit fails [] body = (if fails then Inl (400, ''body-read-error'') else Inr body)"
| "read_body limit fails (c # cs) body =
     (if int (length body + length c) > limit then Inl (413, ''payload-too-large'') else read_body limit fails cs (body @ c))"

definition replay_hash :: "platform \<Rightarrow> MeshMessage \<Rightarrow> string \<Rightarrow> hash" where
  "replay_hash P msg body = sha256_hex P ((case mm_from msg of Some s \<Rightarrow> s | None \<Rightarrow> []) @ '':'' @ body)"

definition admit_rate :: "rat \<Rightarrow> MeshMessage \<Rightarrow> Ingress \<Rightarrow> bool \<times> Ingress" where
  "admit_rate t msg g = (case in_rateLimiter g of None \<Rightarrow> (True, g)
     | Some ml \<Rightarrow> let (ok, ml') = tryAcquire (case mm_from msg of Some s \<Rightarrow> s | None \<Rightarrow> ''*'') t ml
                  in (ok, g \<lparr> in_rateLimiter := Some ml' \<rparr>))"

definition admit_fresh :: "rat \<Rightarrow> hash \<Rightarrow> Ingress \<Rightarrow> bool \<times> Ingress" where
  "admit_fresh t h g = (case in_replayCache g of None \<Rightarrow> (True, g)
     | Some c \<Rightarrow> let (dup, c') = seen h t c in (\<not> dup, g \<lparr> in_replayCache := Some c' \<rparr>))"

text \<open>
  \<open>parse\<close> is \<open>JSON.parse\<close> on message texts and \<open>handle\<close> the node's handler on its state; \<open>t\<close> is the clock.
\<close>

definition onRequest ::
  "platform \<Rightarrow> (string \<Rightarrow> MeshMessage option) \<Rightarrow> (MeshMessage \<Rightarrow> 'n \<Rightarrow> 'r result \<times> 'n) \<Rightarrow> rat \<Rightarrow> MeshRequest
     \<Rightarrow> Ingress \<times> 'n \<Rightarrow> 'r MeshResponse \<times> Ingress \<times> 'n" where
  "onRequest P parse handle t rq = (\<lambda>(g, n).
     if in_requireJsonContentType g \<and> rq_method rq = ''POST'' \<and>
        \<not> starts_with (map ascii_lower (case rq_content_type rq of Some ct \<Rightarrow> ct | None \<Rightarrow> [])) ''application/json''
     then (Http_error 415 ''unsupported-media-type'', g, n)
     else case read_body (in_maxRequestBodyBytes g) (rq_read_error rq) (rq_chunks rq) [] of
       Inl (status, reason) \<Rightarrow> (Http_error status reason, g, n)
     | Inr body \<Rightarrow> (case parse body of None \<Rightarrow> (Http_error 400 ''bad-json'', g, n)
       | Some msg \<Rightarrow>
         if (case mm_from msg of Some s \<Rightarrow> s \<noteq> [] \<and> s \<in> in_partitions g | None \<Rightarrow> False)
         then (Http_error 504 ''partitioned'', g, n)
         else let (ok, g1) = admit_rate t msg g
           in if \<not> ok then (Http_error 429 ''rate-limited'', g1, n)
              else let (fresh, g2) = admit_fresh t (replay_hash P msg body) g1
                in if \<not> fresh then (Http_error 409 ''replay-detected'', g2, n)
                   else (case handle msg n of
                       (Inr out, n') \<Rightarrow> (Http_ok out, g2, n')
                     | (Inl e, n') \<Rightarrow> (Http_error 500 ''handler-error'', g2, n'))))"

fun ingress_run ::
  "platform \<Rightarrow> (string \<Rightarrow> MeshMessage option) \<Rightarrow> (MeshMessage \<Rightarrow> 'n \<Rightarrow> 'r result \<times> 'n) \<Rightarrow> (MeshRequest \<times> rat) list
     \<Rightarrow> Ingress \<times> 'n \<Rightarrow> 'r MeshResponse list \<times> Ingress \<times> 'n" where
  "ingress_run P parse handle [] s = ([], s)"
| "ingress_run P parse handle ((rq, t) # rqs) s =
     (let (r, s') = onRequest P parse handle t rq s; (rs, s'') = ingress_run P parse handle rqs s' in (r # rs, s''))"

text \<open>The requests that reached the handler.\<close>

definition handled :: "'r MeshResponse \<Rightarrow> bool" where
  "handled r \<longleftrightarrow> response_status r \<in> {200, 500}"

lemma read_body_concat: "read_body limit fails cs body = Inr b \<Longrightarrow> b = body @ concat cs"
  by (induction cs arbitrary: body) (fastforce split: if_splits)+

lemma read_body_status: "read_body limit fails cs body = Inl (status, reason) \<Longrightarrow> status \<in> {400, 413}"
  by (induction cs arbitrary: body) (auto split: if_splits)

text \<open>A request either leaves the cache alone and is not handled, or asks it once.\<close>

lemma onRequest_cache:
  assumes "onRequest P parse handle t rq (g, n) = (r, g', n')" "in_replayCache g = Some c"
  shows "(\<not> handled r \<and> in_replayCache g' = Some c) \<or>
    (\<exists>msg c'. parse (concat (rq_chunks rq)) = Some msg \<and> in_replayCache g' = Some c' \<and>
       seen (replay_hash P msg (concat (rq_chunks rq))) t c = (\<not> handled r, c'))"
proof -
  have rate: "in_replayCache (snd (admit_rate t msg g)) = Some c" for msg
    using assms(2) by (simp add: admit_rate_def split: option.split prod.split)
  have fresh: "admit_fresh t h g1 = (\<not> fst (seen h t c), g1 \<lparr> in_replayCache := Some (snd (seen h t c)) \<rparr>)"
    if "in_replayCache g1 = Some c" for g1 h
    using that by (simp add: admit_fresh_def split: prod.split)
  show ?thesis
  proof (cases "read_body (in_maxRequestBodyBytes g) (rq_read_error rq) (rq_chunks rq) []")
    case (Inl e)
    have "\<not> handled (Http_error (fst e) (snd e))"
      using Inl by (cases e) (auto simp: handled_def dest: read_body_status)
    with Inl assms show ?thesis
      by (cases e) (auto simp: onRequest_def handled_def split: if_splits)
  next
    case (Inr body)
    then have body: "body = concat (rq_chunks rq)" using read_body_concat[of _ _ _ "[]"] by simp
    show ?thesis
    proof (cases "parse body")
      case None
      with Inr assms show ?thesis by (auto simp: onRequest_def handled_def split: if_splits)
    next
      case (Some msg)
      obtain ok g1 where g1: "admit_rate t msg g = (ok, g1)" "in_replayCache g1 = Some c" using rate[of msg] by (cases "admit_rate t msg g") auto
      obtain dup c' where dup: "seen (replay_hash P msg body) t c = (dup, c')" by (cases "seen (replay_hash P msg body) t c")
      show ?thesis
        using assms Inr Some g1 fresh[OF g1(2), of "replay_hash P msg body"] dup
        by (auto simp: onRequest_def handled_def body[symmetric] split: if_splits sum.splits prod.splits)
    qed
  qed
qed

text \<open>The cache along a run.\<close>

definition ingress_cache :: "rat \<Rightarrow> int \<Rightarrow> rat \<Rightarrow> Ingress \<times> 'n \<Rightarrow> bool" where
  "ingress_cache ttl maxSize t s \<longleftrightarrow> (\<exists>c. in_replayCache (fst s) = Some c \<and> cache_inv t c \<and> rc_ttlMs c = ttl \<and> rc_maxSize c = maxSize)"

definition ingress_held :: "string \<Rightarrow> rat \<Rightarrow> nat \<Rightarrow> Ingress \<times> 'n \<Rightarrow> bool" where
  "ingress_held h t n s \<longleftrightarrow> (\<exists>c. in_replayCache (fst s) = Some c \<and> held h t n c)"

lemma cache_inv_later: "cache_inv t c \<Longrightarrow> t \<le> t' \<Longrightarrow> cache_inv t' c"
  by (fastforce simp: cache_inv_def)

lemma held_more: "held h t n c \<Longrightarrow> n \<le> m \<Longrightarrow> held h t m c"
  by (fastforce simp: held_def)

lemma onRequest_ingress_cache:
  assumes "ingress_cache ttl maxSize t s" "t \<le> now" "onRequest P parse handle now rq s = (r, s')"
  shows "ingress_cache ttl maxSize now s'"
proof -
  obtain g n g' n' where s: "s = (g, n)" "s' = (g', n')" by (cases s, cases s')
  from assms(1) obtain c where c: "in_replayCache g = Some c" "cache_inv t c" "rc_ttlMs c = ttl" "rc_maxSize c = maxSize"
    by (auto simp: ingress_cache_def s)
  from onRequest_cache[OF assms(3)[unfolded s] c(1)] show ?thesis
  proof (elim disjE exE conjE)
    fix msg c' assume "in_replayCache g' = Some c'" "seen (replay_hash P msg (concat (rq_chunks rq))) now c = (\<not> handled r, c')"
    with seen_step(1-3)[OF c(2) assms(2), of "replay_hash P msg (concat (rq_chunks rq))"] c(3,4) show ?thesis
      by (simp add: ingress_cache_def s)
  qed (use c assms(2) in \<open>auto simp: ingress_cache_def s intro: cache_inv_later\<close>)
qed

lemma onRequest_ingress_held:
  assumes "ingress_cache ttl maxSize t s" "ingress_held h t1 k s" "now < t1 + ttl"
    and "onRequest P parse handle now rq s = (r, s')" "handled r \<Longrightarrow> int (Suc k) < maxSize"
  shows "ingress_held h t1 (if handled r then Suc k else k) s'"
    and "handled r \<Longrightarrow> parse (concat (rq_chunks rq)) = Some msg \<Longrightarrow> replay_hash P msg (concat (rq_chunks rq)) \<noteq> h"
proof -
  obtain g n g' n' where s: "s = (g, n)" "s' = (g', n')" by (cases s, cases s')
  from assms(1,2) obtain c where c: "in_replayCache g = Some c" "rc_ttlMs c = ttl" "rc_maxSize c = maxSize" "held h t1 k c"
    by (auto simp: ingress_cache_def ingress_held_def s)
  note step = onRequest_cache[OF assms(4)[unfolded s] c(1)]
  show "replay_hash P msg (concat (rq_chunks rq)) \<noteq> h" if "handled r" "parse (concat (rq_chunks rq)) = Some msg"
    using step seen_held[OF c(4), of now] assms(3) c(2) that by auto
  from step show "ingress_held h t1 (if handled r then Suc k else k) s'"
  proof (elim disjE exE conjE)
    fix msg c' assume c': "in_replayCache g' = Some c'" "seen (replay_hash P msg (concat (rq_chunks rq))) now c = (\<not> handled r, c')"
    show ?thesis
    proof (cases "replay_hash P msg (concat (rq_chunks rq)) = h")
      case True
      with c' c seen_held[OF c(4), of now] assms(3) show ?thesis by (auto simp: ingress_held_def s)
    next
      case False
      show ?thesis
      proof (cases "handled r")
        case True
        with c' c seen_other[OF c(4) _ False, of now] assms(3) assms(5)[OF True] show ?thesis
          by (auto simp: ingress_held_def s)
      next
        case dup: False
        have "c' = evictExpired (now - rc_ttlMs c) c"
          using c'(2) dup by (auto simp: seen_def Let_def split: if_splits)
        with held_evict[OF c(4), of "now - rc_ttlMs c"] assms(3) c(2) c'(1) dup show ?thesis
          by (auto simp: ingress_held_def s)
      qed
    qed
  qed (use c in \<open>auto simp: ingress_held_def s\<close>)
qed

lemma ingress_run_cache:
  assumes "ingress_run P parse handle rqs s = (rs, s')" "ingress_cache ttl maxSize t s" "sorted (map snd rqs)"
    and "\<forall>c \<in> set rqs. t \<le> snd c \<and> snd c \<le> t'" "t \<le> t'"
  shows "ingress_cache ttl maxSize t' s'"
  using assms
proof (induction rqs arbitrary: s t rs)
  case Nil
  then show ?case by (auto simp: ingress_cache_def intro: cache_inv_later)
next
  case (Cons a rqs)
  obtain rq u where a: "a = (rq, u)" by (cases a)
  obtain r s1 where step: "onRequest P parse handle u rq s = (r, s1)" by (cases "onRequest P parse handle u rq s")
  with Cons.prems(1) a obtain rs1 where run: "ingress_run P parse handle rqs s1 = (rs1, s')" by (auto split: prod.splits)
  have "ingress_cache ttl maxSize u s1" using onRequest_ingress_cache[OF Cons.prems(2) _ step] Cons.prems(4) a by simp
  then show ?case by (rule Cons.IH[OF run]) (use Cons.prems a in auto)
qed

lemma ingress_run_held:
  assumes "ingress_run P parse handle rqs s = (rs, s')" "ingress_cache ttl maxSize t s" "ingress_held h t1 k s"
    and "sorted (map snd rqs)" "\<forall>c \<in> set rqs. t \<le> snd c \<and> snd c < t1 + ttl"
    and "int (k + length (filter handled rs)) < maxSize"
  shows "ingress_held h t1 (k + length (filter handled rs)) s'"
  using assms
proof (induction rqs arbitrary: s t rs k)
  case (Cons a rqs)
  obtain rq u where a: "a = (rq, u)" by (cases a)
  obtain r s1 where step: "onRequest P parse handle u rq s = (r, s1)" by (cases "onRequest P parse handle u rq s")
  with Cons.prems(1) a obtain rs1 where run: "ingress_run P parse handle rqs s1 = (rs1, s')" and rs: "rs = r # rs1"
    by (auto split: prod.splits)
  have u: "t \<le> u" "u < t1 + ttl" using Cons.prems(5) a by auto
  have "ingress_cache ttl maxSize u s1" by (rule onRequest_ingress_cache[OF Cons.prems(2) u(1) step])
  moreover have "ingress_held h t1 (if handled r then Suc k else k) s1"
    by (rule onRequest_ingress_held(1)[OF Cons.prems(2,3) u(2) step]) (use Cons.prems(6) rs in auto)
  ultimately have "ingress_held h t1 ((if handled r then Suc k else k) + length (filter handled rs1)) s'"
    by (rule Cons.IH[OF run]) (use Cons.prems a rs in \<open>auto split: if_splits\<close>)
  then show ?case by (simp add: rs split: if_splits)
qed simp

text \<open>
  C31: a request body is handled at most once in the window of the replay cache.  Start a node with a
  fresh cache and let its clock not go backwards.  When a request with a given body was handled at
  \<open>t1\<close>, a request with the same body at \<open>t2\<close>, before the window has passed, is not handled, unless the
  node handled at least as many other requests in between as the cache has room for.
\<close>

theorem mesh_request_handled_once:
  assumes "in_replayCache g = Some c" "rc_entries c = []" "ttl = rc_ttlMs c"
    and "sorted (map snd (before @ (rq1, t1) # between @ [(rq2, t2)]))" "t2 < t1 + ttl"
    and "ingress_run P parse handle before (g, n) = (rs0, s0)"
    and "onRequest P parse handle t1 rq1 s0 = (r1, s1)" "handled r1"
    and "ingress_run P parse handle between s1 = (rs, s2)" "int (length (filter handled rs)) < rc_maxSize c"
    and "onRequest P parse handle t2 rq2 s2 = (r2, s3)" "concat (rq_chunks rq2) = concat (rq_chunks rq1)"
  shows "\<not> handled r2"
proof -
  have start: "ingress_cache ttl (rc_maxSize c) t (g, n)" for t
    using assms(1-3) by (simp add: ingress_cache_def cache_inv_def)
  have c0: "ingress_cache ttl (rc_maxSize c) t1 s0"
  proof (cases before)
    case Nil
    with assms(6) start show ?thesis by simp
  next
    case (Cons a rest)
    show ?thesis
      by (rule ingress_run_cache[OF assms(6) start[of "snd a"]]) (use assms(4) Cons in \<open>auto simp: sorted_append\<close>)
  qed
  then obtain c1 where c1: "in_replayCache (fst s0) = Some c1" "cache_inv t1 c1" "rc_maxSize c1 = rc_maxSize c"
    by (auto simp: ingress_cache_def)
  obtain msg c' where m: "parse (concat (rq_chunks rq1)) = Some msg" "in_replayCache (fst s1) = Some c'"
      "seen (replay_hash P msg (concat (rq_chunks rq1))) t1 c1 = (False, c')"
    using onRequest_cache[of P parse handle t1 rq1 "fst s0" "snd s0" r1 "fst s1" "snd s1" c1] assms(7,8) c1(1) by auto
  have "1 \<le> rc_maxSize c" using assms(10) by linarith
  then have held: "ingress_held (replay_hash P msg (concat (rq_chunks rq1))) t1 0 s1"
    using seen_step(4)[OF c1(2) order_refl, of "replay_hash P msg (concat (rq_chunks rq1))"] m c1(3)
    by (simp add: ingress_held_def)
  have i1: "ingress_cache ttl (rc_maxSize c) t1 s1" by (rule onRequest_ingress_cache[OF c0 order_refl assms(7)])
  have bt: "\<forall>c \<in> set between. t1 \<le> snd c \<and> snd c \<le> t2" "sorted (map snd between)" "t1 \<le> t2"
    using assms(4) by (auto simp: sorted_append)
  then have bt': "\<forall>c \<in> set between. t1 \<le> snd c \<and> snd c < t1 + ttl" using assms(5) by fastforce
  have i2: "ingress_cache ttl (rc_maxSize c) t2 s2" by (rule ingress_run_cache[OF assms(9) i1 bt(2,1,3)])
  define k where "k = length (filter handled rs)"
  have "ingress_held (replay_hash P msg (concat (rq_chunks rq1))) t1 (0 + k) s2"
    unfolding k_def by (rule ingress_run_held[OF assms(9) i1 held bt(2) bt']) (use assms(10) in simp)
  then obtain c2 where c2: "in_replayCache (fst s2) = Some c2" "held (replay_hash P msg (concat (rq_chunks rq1))) t1 k c2"
    by (auto simp: ingress_held_def)
  have "rc_ttlMs c2 = ttl" using i2 c2 by (auto simp: ingress_cache_def)
  with seen_held[OF c2(2), of t2] assms(5) onRequest_cache[of P parse handle t2 rq2 "fst s2" "snd s2" r2 "fst s3" "snd s3" c2]
    assms(11,12) c2(1) m(1)
  show ?thesis by auto
qed

definition sample_post :: "string \<Rightarrow> MeshRequest" where
  "sample_post body = \<lparr> rq_method = ''POST'', rq_content_type = Some ''Application/JSON'', rq_chunks = [body], rq_read_error = False \<rparr>"

definition sample_ingress :: Ingress where
  "sample_ingress = \<lparr> in_replayCache = Some (createMeshReplayCache (Some 100) (Some 2)), in_rateLimiter = Some (createMeshRateLimiter None None),
     in_maxRequestBodyBytes = 8, in_requireJsonContentType = True, in_partitions = {} \<rparr>"

abbreviation sample_request :: "rat \<Rightarrow> string \<Rightarrow> Ingress \<times> nat \<Rightarrow> unit MeshResponse \<times> Ingress \<times> nat" where
  "sample_request t body \<equiv> onRequest sample (\<lambda>b. Some \<lparr> mm_from = Some ''root'', mm_body = PING \<rparr>) (\<lambda>m n. (Inr (), Suc n)) t (sample_post body)"

theorem mesh_request_handled_once_witness:
  "handled (fst (sample_request 0 ''a'' (sample_ingress, 0))) \<and>
   \<not> handled (fst (sample_request 50 ''a'' (snd (sample_request 10 ''b'' (snd (sample_request 0 ''a'' (sample_ingress, 0)))))))"
proof -
  let ?s1 = "snd (sample_request 0 ''a'' (sample_ingress, 0))"
  let ?s2 = "snd (sample_request 10 ''b'' ?s1)"
  have first: "fst (sample_request 0 ''a'' (sample_ingress, 0)) = Http_ok ()" by code_simp
  have "length (filter handled [fst (sample_request 10 ''b'' ?s1)]) \<le> 1" by (simp add: le_SucI)
  then have "\<not> handled (fst (sample_request 50 ''a'' ?s2))"
    by (intro mesh_request_handled_once[where g = sample_ingress and n = 0 and before = "[]" and between = "[(sample_post ''b'', 10)]"
          and ?rq1.0 = "sample_post ''a''" and ?rq2.0 = "sample_post ''a''" and ?t1.0 = 0 and ?t2.0 = 50 and ?s1.0 = ?s1 and ?s2.0 = ?s2
          and ?r1.0 = "Http_ok ()" and ttl = 100 and rs = "[fst (sample_request 10 ''b'' ?s1)]"
          and handle = "\<lambda>m n. (Inr (), Suc n)" and parse = "\<lambda>b. Some \<lparr> mm_from = Some ''root'', mm_body = PING \<rparr>" and P = sample])
      (use first in \<open>auto simp: sample_ingress_def createMeshReplayCache_def handled_def prod_eq_iff split: prod.split\<close>)
  with first show ?thesis by (simp add: handled_def)
qed

end
