(* ===== verification/Mesh_Nodes.thy ===== *)
theory Mesh_Nodes
  imports Mesh_Quorum Mesh_Ingress
begin

text \<open>
  The nodes of the mesh: construction and trust resolution of \<open>MeshNode\<close>, and the state and handlers of
  \<open>RootNode\<close>, \<open>WitnessNode\<close> and \<open>EdgeNode\<close>.  A handler returns its reply, the new state and the messages it
  then sends.  Messages have the shape of their interfaces; the verifier of a node is fixed, and one
  synchronous stretch of code sees one clock reading.
\<close>

section \<open>Construction\<close>

record MeshNodeOptions =
  mo_id :: string
  mo_host :: string
  mo_port :: nat
  mo_secret :: "string option"
  mo_signer :: "MeshSigner option"
  mo_verifier :: "MeshVerifier option"
  mo_productionMode :: bool
  mo_suppressDemoSecretWarning :: bool
  mo_replayCache :: "MeshReplayCache option"
  mo_rateLimiter :: "MeshRateLimiter option"
  mo_maxRequestBodyBytes :: "int option"
  mo_requireJsonContentType :: "bool option"
  mo_peers :: "NodeId list option"

record MeshNode =
  mn_id :: string
  mn_host :: string
  mn_port :: nat
  mn_secret :: string
  mn_signer :: MeshSigner
  mn_verifier :: MeshVerifier
  mn_peers :: "NodeId list"
  mn_partitions :: "string set"

definition KNOWN_DEMO_MESH_SECRETS :: "string list" where
  "KNOWN_DEMO_MESH_SECRETS =
     [''demo-mesh-secret'', ''aos-demo-mesh-secret'', ''aristotle-demo-secret'', ''test-secret'', ''live-secret'']"

text \<open>The signer, verifier and secret of a node, and the demo secrets warned about so far.\<close>

definition resolve_trust ::
  "platform \<Rightarrow> MeshNodeOptions \<Rightarrow> string set \<Rightarrow> (MeshSigner \<times> MeshVerifier \<times> string \<times> string set) result" where
  "resolve_trust P opts warned =
     (case (mo_signer opts, mo_verifier opts) of
        (Some S, Some V) \<Rightarrow>
          if mo_productionMode opts \<and> sg_alg S = ''hmac-sha256''
          then Inl (MeshError ''MeshNode: productionMode=true forbids the HMAC signer. Use createEd25519MeshSigner / createEd25519MeshVerifier.'')
          else Inr (S, V, the_default [] (mo_secret opts), warned)
      | (None, None) \<Rightarrow> (case mo_secret opts of
            None \<Rightarrow> Inl (MeshError ''MeshNode: must provide either { secret } or { signer, verifier }'')
          | Some secret \<Rightarrow>
              if mo_productionMode opts
              then Inl (MeshError ''MeshNode: productionMode=true forbids the shared-HMAC `secret` constructor path. Provide explicit { signer, verifier } using createEd25519MeshSigner / createEd25519MeshVerifier.'')
              else Inr (createHmacMeshSigner P (mo_id opts) secret, createHmacMeshVerifier P secret, secret,
                if \<not> mo_suppressDemoSecretWarning opts \<and> secret \<in> set KNOWN_DEMO_MESH_SECRETS then insert secret warned else warned))
      | _ \<Rightarrow> Inl (MeshError ''MeshNode: signer and verifier must be provided together''))"

definition new_mesh_node :: "platform \<Rightarrow> MeshNodeOptions \<Rightarrow> string set \<Rightarrow> (MeshNode \<times> Ingress \<times> string set) result" where
  "new_mesh_node P opts warned = bind_result (resolve_trust P opts warned) (\<lambda>(S, V, secret, warned').
     Inr (\<lparr> mn_id = mo_id opts, mn_host = mo_host opts, mn_port = mo_port opts, mn_secret = secret, mn_signer = S,
            mn_verifier = V, mn_peers = the_default [] (mo_peers opts), mn_partitions = {} \<rparr>,
          \<lparr> in_replayCache = mo_replayCache opts, in_rateLimiter = mo_rateLimiter opts,
            in_maxRequestBodyBytes = the_default 1048576 (mo_maxRequestBodyBytes opts),
            in_requireJsonContentType = the_default True (mo_requireJsonContentType opts), in_partitions = {} \<rparr>, warned'))"

definition setPeers :: "NodeId list \<Rightarrow> 'a MeshNode_scheme \<Rightarrow> 'a MeshNode_scheme" where
  "setPeers peers n = n \<lparr> mn_peers := peers \<rparr>"

definition partitionFrom :: "string \<Rightarrow> 'a MeshNode_scheme \<Rightarrow> 'a MeshNode_scheme" where
  "partitionFrom other n = n \<lparr> mn_partitions := insert other (mn_partitions n) \<rparr>"

definition healPartition :: "string \<Rightarrow> 'a MeshNode_scheme \<Rightarrow> 'a MeshNode_scheme" where
  "healPartition other n = n \<lparr> mn_partitions := mn_partitions n - {other} \<rparr>"

section \<open>Replies and shared checks\<close>

datatype MeshReply =
    Pong string NodeRole
  | Envelope_reply "MeshEnvelope option"
  | Revocations_reply "MeshRevocation list"
  | Reply_ok
  | Reply_refused string
  | Quorum_insufficient int nat
  | Reconciled "string option"

definition envelope_trusted :: "'a MeshNode_scheme \<Rightarrow> MeshEnvelope \<Rightarrow> bool" where
  "envelope_trusted n env \<longleftrightarrow> mv_verify (mn_verifier n) (envelope_payload env) (me_signature env) (me_issued_by env)"

definition revocation_trusted :: "'a MeshNode_scheme \<Rightarrow> MeshRevocation \<Rightarrow> bool" where
  "revocation_trusted n rv \<longleftrightarrow> mv_verify (mn_verifier n) (revocation_payload rv) (rv_signature rv) (rv_issued_by rv)"

definition token_trusted :: "'a MeshNode_scheme \<Rightarrow> FluidityToken \<Rightarrow> bool" where
  "token_trusted n token \<longleftrightarrow> mv_verify (mn_verifier n) (token_payload token) (ft_signature token) (ft_issued_by token)"

text \<open>Only a newer or equal version replaces a cached envelope.\<close>

definition keep_newer :: "MeshEnvelope \<Rightarrow> (string, MeshEnvelope) jsmap \<Rightarrow> (string, MeshEnvelope) jsmap" where
  "keep_newer env cache =
     (case map_of cache (me_envelope_id env) of
        None \<Rightarrow> map_set (me_envelope_id env) env cache
      | Some existing \<Rightarrow> if me_version env \<ge> me_version existing then map_set (me_envelope_id env) env cache else cache)"

definition revoked_since :: "platform \<Rightarrow> int \<Rightarrow> (string, MeshRevocation) jsmap \<Rightarrow> MeshRevocation list" where
  "revoked_since P since_ms revs = filter (\<lambda>r. nan_le (Some since_ms) (date_parse P (rv_revoked_at r))) (map snd revs)"

definition sends_to :: "(NodeRole \<Rightarrow> bool) \<Rightarrow> MeshBody \<Rightarrow> NodeId list \<Rightarrow> (NodeId \<times> MeshBody) list" where
  "sends_to wanted body peers = map (\<lambda>p. (p, body)) (filter (\<lambda>p. wanted (ni_role p)) peers)"

section \<open>Root\<close>

record RootNode = MeshNode +
  rn_envelopes :: "(string, MeshEnvelope) jsmap"
  rn_revocations :: "(string, MeshRevocation) jsmap"
  rn_issuedFluidityTokens :: "(string, FluidityToken) jsmap"
  rn_submittedEdgeDecisions :: "SubmittedEdgeDecision list"

text \<open>\<open>draft\<close> carries the arguments of \<open>issueEnvelope\<close>; issuer, date and signature are filled in here.\<close>

definition issueEnvelope :: "iso_time \<Rightarrow> MeshEnvelope \<Rightarrow> RootNode \<Rightarrow> MeshEnvelope \<times> RootNode \<times> (NodeId \<times> MeshBody) list" where
  "issueEnvelope now draft n =
     (let partial = draft \<lparr> me_issued_by := mn_id n, me_issued_at := now, me_signature := [] \<rparr>;
          env = partial \<lparr> me_signature := sg_sign_payload (mn_signer n) (envelope_payload partial) \<rparr>
      in (env, n \<lparr> rn_envelopes := map_set (me_envelope_id env) env (rn_envelopes n) \<rparr>,
          sends_to (\<lambda>r. r = Witness_role \<or> r = Edge_role) (PROPAGATE_ENVELOPE env) (mn_peers n)))"

definition gossip :: "MeshRevocation \<Rightarrow> RootNode \<Rightarrow> RootNode \<times> (NodeId \<times> MeshBody) list" where
  "gossip rv n = (n \<lparr> rn_revocations := map_set (rv_revocation_id rv) rv (rn_revocations n) \<rparr>,
     sends_to (\<lambda>r. r \<noteq> Root_role) (GOSSIP_REVOCATION rv) (mn_peers n))"

definition root_revoke :: "string \<Rightarrow> iso_time \<Rightarrow> string \<Rightarrow> RevocationTargetKind \<Rightarrow> string \<Rightarrow> RootNode
    \<Rightarrow> MeshRevocation \<times> RootNode \<times> (NodeId \<times> MeshBody) list" where
  "root_revoke revocation_id now target kind reason n =
     (let rv = signed_revocation (mn_signer n) revocation_id target kind reason now (mn_id n) in (rv, gossip rv n))"

definition revokeWithQuorum :: "string \<Rightarrow> iso_time \<Rightarrow> (nat \<Rightarrow> iso_time) \<Rightarrow> string \<Rightarrow> RevocationTargetKind \<Rightarrow> string
    \<Rightarrow> MeshSigner list \<Rightarrow> int \<Rightarrow> RootNode \<Rightarrow> (MeshRevocation \<times> RootNode \<times> (NodeId \<times> MeshBody) list) result" where
  "revokeWithQuorum revocation_id now clock target kind reason witnesses requiredQuorum n =
     bind_result (quorum_revocation (mn_signer n) revocation_id target kind reason now clock (mn_id n) witnesses requiredQuorum)
       (\<lambda>rv. Inr (rv, gossip rv n))"

definition issueFluidityToken :: "string \<Rightarrow> iso_time \<Rightarrow> iso_time \<Rightarrow> string \<Rightarrow> string \<Rightarrow> rat option \<Rightarrow> RootNode
    \<Rightarrow> FluidityToken \<times> RootNode" where
  "issueFluidityToken token_id now expires_at edge envelope max_revocation_age_ms n =
     (let partial = \<lparr> ft_token_id = token_id, ft_edge_id = edge, ft_envelope_id = envelope, ft_expires_at = expires_at,
            ft_issued_at = now, ft_issued_by = mn_id n, ft_max_revocation_age_ms = the_default 60000 max_revocation_age_ms,
            ft_signature = [] \<rparr>;
          token = partial \<lparr> ft_signature := sg_sign_payload (mn_signer n) (token_payload partial) \<rparr>
      in (token, n \<lparr> rn_issuedFluidityTokens := map_set token_id token (rn_issuedFluidityTokens n) \<rparr>))"

definition earlier_revocation :: "platform \<Rightarrow> MeshWarrant \<Rightarrow> (string, MeshRevocation) jsmap \<Rightarrow> MeshRevocation option" where
  "earlier_revocation P w revs = find (\<lambda>r. rv_target_id r = mw_envelope_id w \<and> rv_kind r = Envelope_target \<and>
     nan_le (date_parse P (rv_revoked_at r)) (date_parse P (mw_issued_at w))) (map snd revs)"

definition root_handle :: "platform \<Rightarrow> MeshBody \<Rightarrow> RootNode \<Rightarrow> MeshReply \<times> RootNode" where
  "root_handle P body n =
     (case body of
        PING \<Rightarrow> (Pong (mn_id n) Root_role, n)
      | QUERY_LATEST_ENVELOPE i \<Rightarrow> (Envelope_reply (map_of (rn_envelopes n) i), n)
      | QUERY_REVOCATIONS since_ms \<Rightarrow> (Revocations_reply (revoked_since P since_ms (rn_revocations n)), n)
      | RECONCILE_DECISION submitted \<Rightarrow>
          (case map_of (rn_envelopes n) (mw_envelope_id (sd_warrant submitted)) of
             None \<Rightarrow> (Reply_refused ''unknown-envelope'', n)
           | Some env \<Rightarrow> (Reconciled (map_option rv_revocation_id (earlier_revocation P (sd_warrant submitted) (rn_revocations n))),
               n \<lparr> rn_submittedEdgeDecisions := rn_submittedEdgeDecisions n @ [submitted] \<rparr>))
      | _ \<Rightarrow> (Reply_refused ''unknown-kind'', n))"

section \<open>Witness\<close>

record WitnessNode = MeshNode +
  wn_cachedEnvelopes :: "(string, MeshEnvelope) jsmap"
  wn_cachedRevocations :: "(string, MeshRevocation) jsmap"

definition witness_handle :: "platform \<Rightarrow> MeshBody \<Rightarrow> WitnessNode \<Rightarrow> MeshReply \<times> WitnessNode \<times> (NodeId \<times> MeshBody) list" where
  "witness_handle P body n =
     (case body of
        PING \<Rightarrow> (Pong (mn_id n) Witness_role, n, [])
      | PROPAGATE_ENVELOPE env \<Rightarrow>
          if \<not> envelope_trusted n env then (Reply_refused ''bad-signature'', n, [])
          else (Reply_ok, n \<lparr> wn_cachedEnvelopes := keep_newer env (wn_cachedEnvelopes n) \<rparr>,
                sends_to (\<lambda>r. r = Edge_role) (PROPAGATE_ENVELOPE env) (mn_peers n))
      | GOSSIP_REVOCATION rv \<Rightarrow>
          if \<not> revocation_trusted n rv then (Reply_refused ''bad-signature'', n, [])
          else (Reply_ok, n \<lparr> wn_cachedRevocations := map_set (rv_revocation_id rv) rv (wn_cachedRevocations n) \<rparr>,
                sends_to (\<lambda>r. r = Edge_role) (GOSSIP_REVOCATION rv) (mn_peers n))
      | QUERY_LATEST_ENVELOPE i \<Rightarrow> (Envelope_reply (map_of (wn_cachedEnvelopes n) i), n, [])
      | QUERY_REVOCATIONS since_ms \<Rightarrow> (Revocations_reply (revoked_since P since_ms (wn_cachedRevocations n)), n, [])
      | _ \<Rightarrow> (Reply_refused ''unknown-kind'', n, []))"

end
