(* ===== verification/Mesh_Edge.thy ===== *)
theory Mesh_Edge
  imports Mesh_Nodes
begin

text \<open>
  \<open>EdgeNode\<close> of \<open>mesh-runtime\<close>: its caches, the Disconnected Commit Gate, the root ping, the pull of missed
  revocations and the reconciliation of local decisions.  \<open>evaluate\<close> awaits the ping between its checks
  and the issue of the warrant, so other code of the node may run in between: the model has the two parts
  as two operations, and runs interleave them with every other operation of the node.
\<close>

section \<open>State\<close>

record EdgeNode = MeshNode +
  en_cachedEnvelopes :: "(string, MeshEnvelope) jsmap"
  en_cachedRevocations :: "(string, MeshRevocation) jsmap"
  en_fluidityTokens :: "(string, FluidityToken) jsmap"
  en_localDecisions :: "SubmittedEdgeDecision list"
  en_lastRootContactMs :: int
  en_warrantsSinceContact :: nat
  en_maxWarrantsDisconnected :: int
  en_lastRootReachable :: bool
  en_autoPullCount :: nat
  en_requireRevocationQuorum :: int
  en_quorumRejectedCount :: nat

definition new_edge :: "MeshNode \<Rightarrow> int \<Rightarrow> int option \<Rightarrow> int option \<Rightarrow> EdgeNode" where
  "new_edge n now maxWarrantsWhileDisconnected requireRevocationQuorum = MeshNode.extend n
     \<lparr> en_cachedEnvelopes = [], en_cachedRevocations = [], en_fluidityTokens = [], en_localDecisions = [],
       en_lastRootContactMs = now, en_warrantsSinceContact = 0,
       en_maxWarrantsDisconnected = the_default 100 maxWarrantsWhileDisconnected,
       en_lastRootReachable = True, en_autoPullCount = 0,
       en_requireRevocationQuorum = the_default 0 requireRevocationQuorum, en_quorumRejectedCount = 0 \<rparr>"

section \<open>Messages\<close>

definition receiveFluidityToken :: "FluidityToken \<Rightarrow> EdgeNode \<Rightarrow> EdgeNode" where
  "receiveFluidityToken token e =
     (if ft_edge_id token \<noteq> mn_id e then e
      else if \<not> token_trusted e token then e
      else e \<lparr> en_fluidityTokens := map_set (ft_token_id token) token (en_fluidityTokens e) \<rparr>)"

definition quorum_missing :: "EdgeNode \<Rightarrow> MeshRevocation \<Rightarrow> bool" where
  "quorum_missing e rv \<longleftrightarrow> en_requireRevocationQuorum e > 0 \<and>
     int (countValidRevocationQuorum (mn_verifier e) rv) < en_requireRevocationQuorum e"

definition edge_handle :: "MeshBody \<Rightarrow> EdgeNode \<Rightarrow> MeshReply \<times> EdgeNode" where
  "edge_handle body e =
     (case body of
        PING \<Rightarrow> (Pong (mn_id e) Edge_role, e)
      | PROPAGATE_ENVELOPE env \<Rightarrow>
          if \<not> envelope_trusted e env then (Reply_refused ''bad-signature'', e)
          else (Reply_ok, e \<lparr> en_cachedEnvelopes := keep_newer env (en_cachedEnvelopes e) \<rparr>)
      | GOSSIP_REVOCATION rv \<Rightarrow>
          if \<not> revocation_trusted e rv then (Reply_refused ''bad-signature'', e)
          else if quorum_missing e rv
          then (Quorum_insufficient (en_requireRevocationQuorum e) (countValidRevocationQuorum (mn_verifier e) rv),
                e \<lparr> en_quorumRejectedCount := Suc (en_quorumRejectedCount e) \<rparr>)
          else (Reply_ok, e \<lparr> en_cachedRevocations := map_set (rv_revocation_id rv) rv (en_cachedRevocations e) \<rparr>)
      | ISSUE_FLUIDITY_TOKEN token \<Rightarrow> (Reply_ok, receiveFluidityToken token e)
      | _ \<Rightarrow> (Reply_refused ''unknown-kind'', e))"

section \<open>The Disconnected Commit Gate\<close>

definition envelope_revoked :: "string \<Rightarrow> EdgeNode \<Rightarrow> bool" where
  "envelope_revoked i e \<longleftrightarrow> list_ex (\<lambda>(_, r). rv_kind r = Envelope_target \<and> rv_target_id r = i) (en_cachedRevocations e)"

definition valid_tokens :: "platform \<Rightarrow> int \<Rightarrow> string \<Rightarrow> EdgeNode \<Rightarrow> FluidityToken list" where
  "valid_tokens P now i e = filter (\<lambda>t. ft_envelope_id t = i \<and> nan_less (Some now) (date_parse P (ft_expires_at t)))
     (map snd (en_fluidityTokens e))"

text \<open>\<open>evaluate\<close> up to the ping: a decision, or the envelope and token the warrant will rest on.\<close>

definition edge_check :: "platform \<Rightarrow> int \<Rightarrow> CommitRequest \<Rightarrow> EdgeNode \<Rightarrow> CommitDecision + MeshEnvelope \<times> FluidityToken" where
  "edge_check P now req e =
     (case map_of (en_cachedEnvelopes e) (cr_envelope_id req) of
        None \<Rightarrow> Inl (CommitRefuse [''UNKNOWN_ENVELOPE''])
      | Some env \<Rightarrow>
          if nan_le (date_parse P (me_expires_at env)) (Some now) then Inl (CommitExpire [''ENVELOPE_EXPIRED''])
          else if me_subject env \<noteq> cr_subject req then Inl (CommitRefuse [''SUBJECT_MISMATCH''])
          else if cr_action_type req \<notin> set (me_allowed_action_types env) then Inl (CommitRefuse [''ACTION_OUTSIDE_ENVELOPE''])
          else if envelope_revoked (cr_envelope_id req) e then Inl (CommitRefuse [''ENVELOPE_REVOKED''])
          else case valid_tokens P now (cr_envelope_id req) e of
            [] \<Rightarrow> Inl (CommitExpire [''FLUIDITY_TOKEN_EXPIRED''])
          | token # _ \<Rightarrow> Inr (env, token))"

text \<open>
  \<open>pingRoot\<close>, where \<open>answered\<close> tells whether \<open>sendTo\<close> returned: the verdict, the new state, and the start of
  the pull it schedules, if any.
\<close>

definition pingRoot :: "bool \<Rightarrow> int \<Rightarrow> EdgeNode \<Rightarrow> bool \<times> EdgeNode \<times> int option" where
  "pingRoot answered now e =
     (if \<not> list_ex (\<lambda>p. ni_role p = Root_role) (mn_peers e) then (False, e, None)
      else if answered
      then (True, e \<lparr> en_lastRootReachable := True, en_lastRootContactMs := now \<rparr>,
            if en_lastRootReachable e then None else Some (max 0 (en_lastRootContactMs e - 1000)))
      else (False, e \<lparr> en_lastRootReachable := False \<rparr>, None))"

definition action_hash :: "platform \<Rightarrow> CommitRequest \<Rightarrow> string" where
  "action_hash P req = ''sha256:'' @ sha256_hex P (mesh_stableStringify (JObj
     [(''action_type'', JStr (cr_action_type req)), (''params'', JObj (cr_params req)), (''presented_at'', JStr (cr_presented_at req))]))"

definition edge_warrant :: "platform \<Rightarrow> string \<Rightarrow> iso_time \<Rightarrow> bool \<Rightarrow> CommitRequest \<Rightarrow> MeshEnvelope \<Rightarrow> FluidityToken \<Rightarrow> EdgeNode
    \<Rightarrow> MeshWarrant" where
  "edge_warrant P warrant_id now rootReachable req env token e =
     (let partial = \<lparr> mw_warrant_id = warrant_id, mw_envelope_id = me_envelope_id env, mw_action_type = cr_action_type req,
            mw_action_hash = action_hash P req, mw_issued_by_edge = mn_id e, mw_issued_at = now,
            mw_under_fluidity_token = ft_token_id token, mw_root_reachable_at_issue = rootReachable, mw_signature = [] \<rparr>
      in partial \<lparr> mw_signature := sg_sign_payload (mn_signer e) (warrant_payload partial) \<rparr>)"

text \<open>\<open>evaluate\<close> after the ping.\<close>

definition edge_issue :: "platform \<Rightarrow> string \<Rightarrow> iso_time \<Rightarrow> bool \<Rightarrow> CommitRequest \<Rightarrow> MeshEnvelope \<Rightarrow> FluidityToken \<Rightarrow> EdgeNode
    \<Rightarrow> CommitDecision \<times> EdgeNode" where
  "edge_issue P warrant_id now rootReachable req env token e =
     (if \<not> rootReachable \<and> int (en_warrantsSinceContact e) \<ge> en_maxWarrantsDisconnected e
      then (CommitRefuse [''DISCONNECTED_QUOTA_EXCEEDED''], e)
      else let w = edge_warrant P warrant_id now rootReachable req env token e;
               e1 = (if rootReachable then e \<lparr> en_warrantsSinceContact := 0 \<rparr> else e);
               d = CommitAllow w
           in (d, e1 \<lparr> en_warrantsSinceContact := Suc (en_warrantsSinceContact e1),
                 en_localDecisions := en_localDecisions e1 @ [\<lparr> sd_warrant = w, sd_request = req, sd_decision = d,
                   sd_observed_revocations_at_issue = map fst (en_cachedRevocations e1) \<rparr>] \<rparr>))"

text \<open>The whole call when nothing else runs during the ping.\<close>

definition edge_evaluate :: "platform \<Rightarrow> int \<Rightarrow> bool \<Rightarrow> string \<Rightarrow> iso_time \<Rightarrow> CommitRequest \<Rightarrow> EdgeNode
    \<Rightarrow> CommitDecision \<times> EdgeNode \<times> int option" where
  "edge_evaluate P now answered warrant_id issued_at req e =
     (case edge_check P now req e of
        Inl d \<Rightarrow> (d, e, None)
      | Inr (env, token) \<Rightarrow>
          let (reachable, e1, pull) = pingRoot answered now e; (d, e2) = edge_issue P warrant_id issued_at reachable req env token e1
          in (d, e2, pull))"

section \<open>Pulling revocations\<close>

text \<open>The revocations of a reply, with the counts of pulled and rejected ones.\<close>

fun take_revocations :: "MeshRevocation list \<Rightarrow> nat \<Rightarrow> nat \<Rightarrow> EdgeNode \<Rightarrow> (nat \<times> nat) \<times> EdgeNode" where
  "take_revocations [] pulled rejected e = ((pulled, rejected), e)"
| "take_revocations (rv # rvs) pulled rejected e =
     (if \<not> revocation_trusted e rv then take_revocations rvs pulled (Suc rejected) e
      else if quorum_missing e rv
      then take_revocations rvs pulled (Suc rejected) (e \<lparr> en_quorumRejectedCount := Suc (en_quorumRejectedCount e) \<rparr>)
      else if map_of (en_cachedRevocations e) (rv_revocation_id rv) = None
      then take_revocations rvs (Suc pulled) rejected
        (e \<lparr> en_cachedRevocations := map_set (rv_revocation_id rv) rv (en_cachedRevocations e) \<rparr>)
      else take_revocations rvs pulled rejected e)"

text \<open>\<open>pullRevocations\<close>: \<open>reply\<close> is the answer of the root, \<open>None\<close> where the send fails.\<close>

definition pullRevocations :: "MeshRevocation list option \<Rightarrow> EdgeNode \<Rightarrow> (nat \<times> nat) \<times> EdgeNode" where
  "pullRevocations reply e =
     (if \<not> list_ex (\<lambda>p. ni_role p = Root_role) (mn_peers e) then ((0, 0), e)
      else case reply of None \<Rightarrow> ((0, 0), e)
      | Some rvs \<Rightarrow> let (counts, e') = take_revocations rvs 0 0 e in (counts, e' \<lparr> en_autoPullCount := Suc (en_autoPullCount e') \<rparr>))"

section \<open>Reconciliation\<close>

fun reconcile_conflicts :: "(SubmittedEdgeDecision \<times> MeshReply option) list \<Rightarrow> (string \<times> string) list" where
  "reconcile_conflicts [] = []"
| "reconcile_conflicts ((sd, reply) # rest) =
     (case reply of Some (Reconciled (Some revocation_id)) \<Rightarrow> [(mw_warrant_id (sd_warrant sd), revocation_id)] | _ \<Rightarrow> [])
     @ reconcile_conflicts rest"

text \<open>\<open>reconcile\<close>: \<open>reply\<close> gives the answer of the root to each decision, \<open>None\<close> where the send fails.\<close>

definition edge_reconcile :: "(SubmittedEdgeDecision \<Rightarrow> MeshReply option) \<Rightarrow> EdgeNode \<Rightarrow> (string \<times> string) list \<times> EdgeNode" where
  "edge_reconcile reply e =
     (if \<not> list_ex (\<lambda>p. ni_role p = Root_role) (mn_peers e) then ([], e)
      else (reconcile_conflicts (map (\<lambda>sd. (sd, reply sd)) (en_localDecisions e)), e \<lparr> en_localDecisions := [] \<rparr>))"

definition validFluidityTokens :: "platform \<Rightarrow> int \<Rightarrow> EdgeNode \<Rightarrow> FluidityToken list" where
  "validFluidityTokens P now e = filter (\<lambda>t. nan_less (Some now) (date_parse P (ft_expires_at t))) (map snd (en_fluidityTokens e))"

section \<open>Interleaved runs\<close>

text \<open>
  What happens at an edge: a message is handled; a call of \<open>evaluate\<close> starts; the ping of the \<open>i\<close>-th call
  still waiting returns; a pull or a reconciliation completes.
\<close>

datatype edge_event =
    Receive MeshBody
  | Ask int CommitRequest
  | Resume nat bool int string iso_time
  | Pulled "MeshRevocation list option"
  | Reconcile "SubmittedEdgeDecision \<Rightarrow> MeshReply option"

type_synonym waiting = "CommitRequest \<times> MeshEnvelope \<times> FluidityToken"

fun mesh_edge_step :: "platform \<Rightarrow> edge_event \<Rightarrow> EdgeNode \<times> waiting list \<Rightarrow> CommitDecision option \<times> EdgeNode \<times> waiting list" where
  "mesh_edge_step P (Receive body) (e, ws) = (None, snd (edge_handle body e), ws)"
| "mesh_edge_step P (Ask now req) (e, ws) =
     (case edge_check P now req e of Inl d \<Rightarrow> (Some d, e, ws) | Inr (env, token) \<Rightarrow> (None, e, ws @ [(req, env, token)]))"
| "mesh_edge_step P (Resume i answered now warrant_id issued_at) (e, ws) =
     (if i < length ws
      then let (req, env, token) = ws ! i; (reachable, e1, pull) = pingRoot answered now e;
               (d, e2) = edge_issue P warrant_id issued_at reachable req env token e1
           in (Some d, e2, take i ws @ drop (Suc i) ws)
      else (None, e, ws))"
| "mesh_edge_step P (Pulled reply) (e, ws) = (None, snd (pullRevocations reply e), ws)"
| "mesh_edge_step P (Reconcile reply) (e, ws) = (None, snd (edge_reconcile reply e), ws)"

fun mesh_edge_run :: "platform \<Rightarrow> edge_event list \<Rightarrow> EdgeNode \<times> waiting list \<Rightarrow> CommitDecision option list \<times> EdgeNode \<times> waiting list" where
  "mesh_edge_run P [] s = ([], s)"
| "mesh_edge_run P (ev # evs) s =
     (let (d, s') = mesh_edge_step P ev s; (ds, s'') = mesh_edge_run P evs s' in (d # ds, s''))"

abbreviation issues :: "CommitDecision option \<Rightarrow> bool" where
  "issues d \<equiv> (\<exists>w. d = Some (CommitAllow w))"

end
