(* ===== verification/Mesh_Edge_Run.thy ===== *)
theory Mesh_Edge_Run
  imports Mesh_Edge
begin

text \<open>
  Properties of an edge over arbitrary interleavings of its operations: a warrant rests on a verified,
  unexpired and unrevoked envelope and token, as they were when its request was checked; the warrants
  issued without contact to the root are bounded; cached revocations carry their quorum; a revoked
  envelope stays refused; cached versions never go back.
\<close>

lemma map_set_entries: "(a, b) \<in> set (map_set k v m) \<Longrightarrow> a = k \<and> b = v \<or> (a, b) \<in> set m"
  by (induction k v m rule: map_set.induct) (auto split: if_splits)

section \<open>The envelope cache as an interface\<close>

text \<open>What witnesses and edges promise of their envelope caches, and what follows for any sequence of messages.\<close>

locale envelope_cache =
  fixes receive :: "MeshBody \<Rightarrow> 's \<Rightarrow> 's"
    and cached :: "'s \<Rightarrow> (string, MeshEnvelope) jsmap"
    and trusted :: "'s \<Rightarrow> MeshEnvelope \<Rightarrow> bool"
  assumes cached_receive: "cached (receive body s) = (case body of
        PROPAGATE_ENVELOPE env \<Rightarrow> if trusted s env then keep_newer env (cached s) else cached s | _ \<Rightarrow> cached s)"
    and trusted_receive: "trusted (receive body s) = trusted s"
begin

lemma version_monotone:
  assumes "map_of (cached s) i = Some env"
  shows "\<exists>env'. map_of (cached (fold receive bodies s)) i = Some env' \<and> me_version env \<le> me_version env'"
  using assms
proof (induction bodies arbitrary: s env)
  case (Cons body bodies)
  have "\<exists>env'. map_of (cached (receive body s)) i = Some env' \<and> me_version env \<le> me_version env'"
    using Cons.prems by (auto simp: cached_receive keep_newer_def js_simps split: MeshBody.split option.splits)
  then obtain env1 where env1: "map_of (cached (receive body s)) i = Some env1" "me_version env \<le> me_version env1" by blast
  obtain env2 where "map_of (cached (fold receive bodies (receive body s))) i = Some env2" "me_version env1 \<le> me_version env2"
    using Cons.IH[OF env1(1)] by blast
  with env1(2) show ?case by (auto intro: order_trans)
qed auto

lemma only_trusted:
  assumes "\<forall>(i, env) \<in> set (cached s). i = me_envelope_id env \<and> trusted s env"
  shows "\<forall>(i, env) \<in> set (cached (fold receive bodies s)). i = me_envelope_id env \<and> trusted s env"
  using assms
proof (induction bodies arbitrary: s)
  case (Cons body bodies)
  have "\<forall>(i, env) \<in> set (cached (receive body s)). i = me_envelope_id env \<and> trusted (receive body s) env"
    using Cons.prems by (fastforce simp: cached_receive trusted_receive keep_newer_def dest: map_set_entries
        split: MeshBody.splits option.splits if_splits)
  from Cons.IH[OF this] show ?case by (simp add: trusted_receive)
qed auto

end

lemma keep_newer_entries: "(i, env) \<in> set (keep_newer env' cache) \<Longrightarrow> i = me_envelope_id env' \<and> env = env' \<or> (i, env) \<in> set cache"
  by (auto simp: keep_newer_def dest: map_set_entries split: option.splits if_splits)

interpretation edge_cache: envelope_cache "\<lambda>body e. snd (edge_handle body e)" en_cachedEnvelopes envelope_trusted
  by unfold_locales (auto simp: edge_handle_def receiveFluidityToken_def envelope_trusted_def fun_eq_iff split: MeshBody.split)

interpretation witness_cache: envelope_cache "\<lambda>body n. fst (snd (witness_handle P body n))" wn_cachedEnvelopes envelope_trusted for P
  by unfold_locales (auto simp: witness_handle_def envelope_trusted_def fun_eq_iff split: MeshBody.split)

section \<open>Invariant of an edge\<close>

definition edge_inv :: "EdgeNode \<Rightarrow> bool" where
  "edge_inv e \<longleftrightarrow> (\<forall>(i, env) \<in> set (en_cachedEnvelopes e). i = me_envelope_id env \<and> envelope_trusted e env) \<and>
     (\<forall>(i, t) \<in> set (en_fluidityTokens e). ft_edge_id t = mn_id e \<and> token_trusted e t) \<and>
     (\<forall>(i, rv) \<in> set (en_cachedRevocations e). i = rv_revocation_id rv \<and> revocation_trusted e rv \<and> \<not> quorum_missing e rv)"

definition same_config :: "EdgeNode \<Rightarrow> EdgeNode \<Rightarrow> bool" where
  "same_config e e' \<longleftrightarrow> mn_id e' = mn_id e \<and> mn_verifier e' = mn_verifier e \<and> mn_signer e' = mn_signer e \<and> mn_peers e' = mn_peers e \<and>
     en_maxWarrantsDisconnected e' = en_maxWarrantsDisconnected e \<and> en_requireRevocationQuorum e' = en_requireRevocationQuorum e"

lemma same_config_refl [simp]: "same_config e e"
  by (simp add: same_config_def)

lemma same_config_trans: "same_config e e1 \<Longrightarrow> same_config e1 e2 \<Longrightarrow> same_config e e2"
  by (simp add: same_config_def)

lemma same_config_trust:
  assumes "same_config e e'"
  shows "envelope_trusted e' env = envelope_trusted e env" "token_trusted e' t = token_trusted e t"
    "revocation_trusted e' rv = revocation_trusted e rv" "quorum_missing e' rv = quorum_missing e rv"
  using assms
  by (simp_all add: same_config_def envelope_trusted_def token_trusted_def revocation_trusted_def quorum_missing_def)

lemma edge_inv_caches:
  assumes "edge_inv e" "same_config e e'" "en_cachedEnvelopes e' = en_cachedEnvelopes e"
    "en_fluidityTokens e' = en_fluidityTokens e" "en_cachedRevocations e' = en_cachedRevocations e"
  shows "edge_inv e'"
  using assms same_config_trust[OF assms(2)] by (simp add: edge_inv_def same_config_def)

lemma edge_inv_revocation:
  assumes "edge_inv e" "revocation_trusted e rv" "\<not> quorum_missing e rv"
  shows "edge_inv (e \<lparr> en_cachedRevocations := map_set (rv_revocation_id rv) rv (en_cachedRevocations e) \<rparr>)"
proof -
  let ?e = "e \<lparr> en_cachedRevocations := map_set (rv_revocation_id rv) rv (en_cachedRevocations e) \<rparr>"
  have "same_config e ?e" by (simp add: same_config_def)
  then show ?thesis
    using assms same_config_trust[of e ?e] by (auto simp: edge_inv_def dest!: map_set_entries)
qed

lemma edge_handle_inv: "edge_inv e \<Longrightarrow> edge_inv (snd (edge_handle body e)) \<and> same_config e (snd (edge_handle body e))"
proof -
  assume inv: "edge_inv e"
  have "same_config e (snd (edge_handle body e))"
    by (cases body) (simp_all add: edge_handle_def receiveFluidityToken_def same_config_def)
  moreover have "edge_inv (snd (edge_handle body e))"
  proof (cases body)
    case (PROPAGATE_ENVELOPE env)
    have "same_config e (e \<lparr> en_cachedEnvelopes := c \<rparr>)" for c by (simp add: same_config_def)
    from same_config_trust[OF this] inv show ?thesis
      by (auto simp: PROPAGATE_ENVELOPE edge_handle_def edge_inv_def dest!: keep_newer_entries)
  next
    case (GOSSIP_REVOCATION rv)
    have "same_config e (e \<lparr> en_quorumRejectedCount := c \<rparr>)" for c by (simp add: same_config_def)
    from edge_inv_caches[OF inv this] inv edge_inv_revocation[OF inv] show ?thesis
      by (simp add: GOSSIP_REVOCATION edge_handle_def)
  next
    case (ISSUE_FLUIDITY_TOKEN t)
    have "same_config e (e \<lparr> en_fluidityTokens := c \<rparr>)" for c by (simp add: same_config_def)
    from same_config_trust[OF this] inv show ?thesis
      by (auto simp: ISSUE_FLUIDITY_TOKEN edge_handle_def receiveFluidityToken_def edge_inv_def dest!: map_set_entries)
  qed (use inv in \<open>simp_all add: edge_handle_def\<close>)
  ultimately show ?thesis by simp
qed

lemma take_revocations_inv:
  "edge_inv e \<Longrightarrow> edge_inv (snd (take_revocations rvs p r e)) \<and> same_config e (snd (take_revocations rvs p r e))"
proof (induction rvs p r e rule: take_revocations.induct)
  case (2 rv rvs p r e)
  let ?q = "e \<lparr> en_quorumRejectedCount := Suc (en_quorumRejectedCount e) \<rparr>"
  let ?c = "e \<lparr> en_cachedRevocations := map_set (rv_revocation_id rv) rv (en_cachedRevocations e) \<rparr>"
  have sc: "same_config e ?q" "same_config e ?c" by (simp_all add: same_config_def)
  have q: "edge_inv ?q" by (rule edge_inv_caches[OF 2(5) sc(1)]) simp_all
  consider "\<not> revocation_trusted e rv" | "revocation_trusted e rv" "quorum_missing e rv"
    | "revocation_trusted e rv" "\<not> quorum_missing e rv" "map_of (en_cachedRevocations e) (rv_revocation_id rv) = None"
    | "revocation_trusted e rv" "\<not> quorum_missing e rv" "map_of (en_cachedRevocations e) (rv_revocation_id rv) \<noteq> None" by blast
  then show ?case
  proof cases
    case 1
    with 2(1,5) show ?thesis by simp
  next
    case a: 2
    with 2(2)[OF _ _ q] sc(1) show ?thesis by (auto intro: same_config_trans)
  next
    case 3
    with 2(3)[OF _ _ _ edge_inv_revocation[OF 2(5)]] sc(2) show ?thesis by (auto intro: same_config_trans)
  next
    case 4
    with 2(4,5) show ?thesis by auto
  qed
qed simp

lemma edge_step_inv:
  assumes "edge_inv e" "mesh_edge_step P ev (e, ws) = (d, e', ws')"
  shows "edge_inv e' \<and> same_config e e'"
proof (cases ev)
  case (Receive body)
  with assms edge_handle_inv[OF assms(1), of body] show ?thesis by auto
next
  case (Ask now req)
  with assms show ?thesis by (auto split: sum.splits)
next
  case (Resume i answered now wid iat)
  have "same_config e e' \<and> en_cachedEnvelopes e' = en_cachedEnvelopes e \<and> en_fluidityTokens e' = en_fluidityTokens e \<and>
      en_cachedRevocations e' = en_cachedRevocations e"
    using assms(2) by (auto simp: Resume pingRoot_def edge_issue_def Let_def same_config_def split: if_splits prod.splits)
  with edge_inv_caches[OF assms(1), of e'] show ?thesis by simp
next
  case (Pulled reply)
  show ?thesis
  proof (cases reply)
    case None
    with Pulled assms show ?thesis by (simp add: pullRevocations_def split: if_splits)
  next
    case (Some rvs)
    let ?t = "snd (take_revocations rvs 0 0 e)"
    have sc: "same_config ?t (?t \<lparr> en_autoPullCount := Suc (en_autoPullCount ?t) \<rparr>)" by (simp add: same_config_def)
    have t: "edge_inv ?t \<and> same_config e ?t" by (rule take_revocations_inv[OF assms(1)])
    have "edge_inv (?t \<lparr> en_autoPullCount := Suc (en_autoPullCount ?t) \<rparr>)"
      by (rule edge_inv_caches[OF conjunct1[OF t] sc]) simp_all
    moreover have "e' = e \<or> e' = ?t \<lparr> en_autoPullCount := Suc (en_autoPullCount ?t) \<rparr>"
      using assms(2) Pulled Some by (auto simp: pullRevocations_def split: if_splits prod.splits)
    ultimately show ?thesis using assms(1) t sc by (auto intro: same_config_trans)
  qed
next
  case (Reconcile reply)
  have "same_config e (e \<lparr> en_localDecisions := [] \<rparr>)" by (simp add: same_config_def)
  with edge_inv_caches[OF assms(1) this] assms Reconcile show ?thesis
    by (auto simp: edge_reconcile_def split: if_splits)
qed

lemma edge_run_inv:
  "edge_inv e \<Longrightarrow> mesh_edge_run P evs (e, ws) = (ds, e', ws') \<Longrightarrow> edge_inv e' \<and> same_config e e' \<and> length ds = length evs"
proof (induction evs arbitrary: e ws ds)
  case (Cons ev evs)
  obtain d e1 ws1 where step: "mesh_edge_step P ev (e, ws) = (d, e1, ws1)" by (metis prod_cases3)
  with Cons.prems(2) obtain ds1 where run: "mesh_edge_run P evs (e1, ws1) = (ds1, e', ws')" "ds = d # ds1"
    by (auto split: prod.splits)
  from edge_step_inv[OF Cons.prems(1) step] Cons.IH[OF _ run(1)] run(2) show ?case by (auto intro: same_config_trans)
qed simp

lemma edge_inv_new: "edge_inv (new_edge n now maxW quorum)"
  by (simp add: edge_inv_def new_edge_def MeshNode.defs)

section \<open>What a warrant rests on\<close>

text \<open>The conditions \<open>evaluate\<close> checks before it waits for the ping.\<close>

definition authorised :: "platform \<Rightarrow> int \<Rightarrow> CommitRequest \<Rightarrow> MeshEnvelope \<Rightarrow> FluidityToken \<Rightarrow> EdgeNode \<Rightarrow> bool" where
  "authorised P now req env token e \<longleftrightarrow>
     (cr_envelope_id req, env) \<in> set (en_cachedEnvelopes e) \<and> me_envelope_id env = cr_envelope_id req \<and> envelope_trusted e env \<and>
     \<not> nan_le (date_parse P (me_expires_at env)) (Some now) \<and> me_subject env = cr_subject req \<and>
     cr_action_type req \<in> set (me_allowed_action_types env) \<and>
     (\<forall>(i, rv) \<in> set (en_cachedRevocations e). \<not> (rv_kind rv = Envelope_target \<and> rv_target_id rv = cr_envelope_id req)) \<and>
     ft_edge_id token = mn_id e \<and> token_trusted e token \<and> ft_envelope_id token = cr_envelope_id req \<and>
     nan_less (Some now) (date_parse P (ft_expires_at token))"

lemma edge_check_authorised:
  assumes "edge_inv e" "edge_check P now req e = Inr (env, token)"
  shows "authorised P now req env token e"
proof -
  from assms(2) have env: "map_of (en_cachedEnvelopes e) (cr_envelope_id req) = Some env"
    and tok: "token \<in> set (valid_tokens P now (cr_envelope_id req) e)"
    and rest: "\<not> nan_le (date_parse P (me_expires_at env)) (Some now)" "me_subject env = cr_subject req"
      "cr_action_type req \<in> set (me_allowed_action_types env)" "\<not> envelope_revoked (cr_envelope_id req) e"
    by (auto simp: edge_check_def split: option.splits if_splits list.splits)
  from map_of_SomeD[OF env] tok rest assms(1) show ?thesis
    by (fastforce simp: authorised_def edge_inv_def valid_tokens_def envelope_revoked_def list_ex_iff)
qed

lemma edge_check_no_warrant: "edge_check P now req e \<noteq> Inl (CommitAllow w)"
  by (auto simp: edge_check_def split: option.splits list.splits)

text \<open>Every call that waits for its ping was authorised when it started.\<close>

definition waiting_ok :: "platform \<Rightarrow> edge_event list \<Rightarrow> EdgeNode \<Rightarrow> waiting list \<Rightarrow> bool" where
  "waiting_ok P evs e0 ws \<longleftrightarrow> (\<forall>(req, env, token) \<in> set ws. \<exists>j < length evs. \<exists>now. evs ! j = Ask now req \<and>
     authorised P now req env token (fst (snd (mesh_edge_run P (take j evs) (e0, [])))))"

lemma edge_run_append:
  "mesh_edge_run P (evs @ evs') s = (let (ds, s') = mesh_edge_run P evs s; (ds', s'') = mesh_edge_run P evs' s' in (ds @ ds', s''))"
  by (induction evs arbitrary: s) (auto split: prod.splits)

lemma waiting_ok_later: "waiting_ok P evs e0 ws \<Longrightarrow> waiting_ok P (evs @ [ev]) e0 ws"
proof -
  assume ok: "waiting_ok P evs e0 ws"
  have "(evs @ [ev]) ! j = evs ! j" "take j (evs @ [ev]) = take j evs" "j < length (evs @ [ev])" if "j < length evs" for j
    using that by (simp_all add: nth_append)
  with ok show ?thesis unfolding waiting_ok_def by (smt (verit) case_prodE case_prodI2 case_prodD)
qed

lemma waiting_ok_subset: "waiting_ok P evs e0 ws \<Longrightarrow> set ws' \<subseteq> set ws \<Longrightarrow> waiting_ok P evs e0 ws'"
  unfolding waiting_ok_def by blast

lemma edge_run_waiting:
  assumes "edge_inv e0"
  shows "mesh_edge_run P evs (e0, []) = (ds, e, ws) \<Longrightarrow> waiting_ok P evs e0 ws"
proof (induction evs arbitrary: ds e ws rule: rev_induct)
  case Nil
  then show ?case by (simp add: waiting_ok_def)
next
  case (snoc ev evs)
  obtain ds1 e1 ws1 where run: "mesh_edge_run P evs (e0, []) = (ds1, e1, ws1)" by (metis prod_cases3)
  with snoc.prems obtain d where step: "mesh_edge_step P ev (e1, ws1) = (d, e, ws)"
    by (auto simp: edge_run_append split: prod.splits)
  note ok = waiting_ok_later[OF snoc.IH[OF run], of ev]
  have inv: "edge_inv e1" using edge_run_inv[OF assms run] by simp
  have sub: "set (take i ws1 @ drop (Suc i) ws1) \<subseteq> set ws1" for i using set_take_subset set_drop_subset by fastforce
  show ?case
  proof (cases ev)
    case (Ask now req)
    show ?thesis
    proof (cases "edge_check P now req e1")
      case (Inr p)
      obtain env token where p: "p = (env, token)" by (cases p)
      have "authorised P now req env token e1" by (rule edge_check_authorised[OF inv]) (simp add: Inr p)
      then have "waiting_ok P (evs @ [ev]) e0 [(req, env, token)]"
        unfolding waiting_ok_def by (auto simp: Ask run intro!: exI[of _ "length evs"])
      with ok have "waiting_ok P (evs @ [ev]) e0 (ws1 @ [(req, env, token)])" by (auto simp: waiting_ok_def)
      with step Ask Inr p show ?thesis by simp
    qed (use ok step Ask in simp)
  next
    case (Resume i answered now wid iat)
    with step have "set ws \<subseteq> set ws1" using sub[of i] by (auto split: if_splits prod.splits)
    with ok show ?thesis by (rule waiting_ok_subset)
  qed (use ok step in simp_all)
qed

lemma edge_issue_allow:
  assumes "edge_issue P wid iat reachable req env token e = (CommitAllow w, e')"
  shows "mw_envelope_id w = me_envelope_id env \<and> mw_action_type w = cr_action_type req \<and> mw_action_hash w = action_hash P req \<and>
    mw_issued_by_edge w = mn_id e \<and> mw_under_fluidity_token w = ft_token_id token \<and>
    mw_signature w = sg_sign_payload (mn_signer e) (warrant_payload w)"
  using assms
  by (auto simp: edge_issue_def Let_def edge_warrant_def warrant_payload_def warrant_fields_def split: if_splits)

text \<open>
  C26: whatever messages, calls, pings, pulls and reconciliations interleave at an edge, a warrant it
  issues goes back to a request that was checked before: at that time the edge held an envelope with
  a verified signature for that subject and action, not expired and not revoked in its cache, and a
  verified, unexpired fluidity token for this edge and envelope.  The warrant names the envelope, the
  token, the action type and the hash of the request, and is signed by the edge.
\<close>

theorem mesh_warrant_authorised:
  assumes "mesh_edge_run P evs (new_edge n t0 maxWarrants quorum, []) = (ds, e, ws)" "i < length evs" "ds ! i = Some (CommitAllow w)"
  shows "\<exists>j < i. \<exists>now req env token.
    evs ! j = Ask now req \<and>
    authorised P now req env token (fst (snd (mesh_edge_run P (take j evs) (new_edge n t0 maxWarrants quorum, [])))) \<and>
    mw_envelope_id w = cr_envelope_id req \<and> mw_action_type w = cr_action_type req \<and> mw_action_hash w = action_hash P req \<and>
    mw_under_fluidity_token w = ft_token_id token \<and> mw_issued_by_edge w = mn_id n \<and>
    mw_signature w = sg_sign_payload (mn_signer n) (warrant_payload w)"
proof -
  let ?e0 = "new_edge n t0 maxWarrants quorum"
  have split: "evs = take i evs @ [evs ! i] @ drop (Suc i) evs" using assms(2) by (simp add: id_take_nth_drop)
  obtain ds1 e1 ws1 where run: "mesh_edge_run P (take i evs) (?e0, []) = (ds1, e1, ws1)" by (metis prod_cases3)
  obtain d e2 ws2 where step: "mesh_edge_step P (evs ! i) (e1, ws1) = (d, e2, ws2)" by (metis prod_cases3)
  note inv1 = edge_run_inv[OF edge_inv_new run]
  have "ds ! i = d"
  proof -
    have "mesh_edge_run P (take i evs @ [evs ! i] @ drop (Suc i) evs) (?e0, []) = (ds, e, ws)" using assms(1) split by simp
    then obtain ds2 where "ds = ds1 @ d # ds2" using run step by (auto simp: edge_run_append split: prod.splits)
    moreover have "length ds1 = i" using inv1 assms(2) by simp
    ultimately show ?thesis by (simp add: nth_append)
  qed
  with assms(3) step have allow: "mesh_edge_step P (evs ! i) (e1, ws1) = (Some (CommitAllow w), e2, ws2)" by simp
  then obtain k answered now wid iat where ev: "evs ! i = Resume k answered now wid iat"
    by (cases "evs ! i") (auto simp: edge_check_no_warrant split: sum.splits prod.splits)
  obtain req env token where wk: "ws1 ! k = (req, env, token)" by (metis prod_cases3)
  obtain reachable e1' pull where ping: "pingRoot answered now e1 = (reachable, e1', pull)" by (metis prod_cases3)
  from allow ev wk ping have k: "k < length ws1" and iss: "fst (edge_issue P wid iat reachable req env token e1') = CommitAllow w"
    by (auto split: if_splits prod.splits)
  then have "edge_issue P wid iat reachable req env token e1' = (CommitAllow w, snd (edge_issue P wid iat reachable req env token e1'))"
    by (metis prod.collapse)
  note w = edge_issue_allow[OF this]
  have id: "mn_id e1' = mn_id n \<and> mn_signer e1' = mn_signer n"
    using ping inv1 by (auto simp: pingRoot_def same_config_def new_edge_def MeshNode.defs split: if_splits)
  have "(req, env, token) \<in> set ws1" using k wk nth_mem by metis
  with edge_run_waiting[OF edge_inv_new run] obtain j now' where j: "j < length (take i evs)" "take i evs ! j = Ask now' req"
      "authorised P now' req env token (fst (snd (mesh_edge_run P (take j (take i evs)) (?e0, []))))"
    by (auto simp: waiting_ok_def)
  have lt: "j < i" using j(1) by simp
  then have ji: "evs ! j = Ask now' req" "take j (take i evs) = take j evs" using j(2) by (simp_all add: min_def)
  have "me_envelope_id env = cr_envelope_id req" using j(3) by (simp add: authorised_def)
  with lt ji j(3) w id show ?thesis by metis
qed

section \<open>The disconnected quota\<close>

definition disconnected :: "edge_event list \<Rightarrow> bool" where
  "disconnected evs \<longleftrightarrow> list_all (\<lambda>ev. case ev of Resume k answered now wid iat \<Rightarrow> \<not> answered | _ \<Rightarrow> True) evs"

lemma take_revocations_counter:
  "en_warrantsSinceContact (snd (take_revocations rvs p r e)) = en_warrantsSinceContact e"
  by (induction rvs p r e rule: take_revocations.induct) simp_all

lemma edge_step_quota:
  assumes "mesh_edge_step P ev (e, ws) = (d, e', ws')" "disconnected [ev]"
  shows "en_warrantsSinceContact e' = en_warrantsSinceContact e + (if issues d then 1 else 0) \<and>
    (issues d \<longrightarrow> int (en_warrantsSinceContact e) < en_maxWarrantsDisconnected e) \<and>
    en_maxWarrantsDisconnected e' = en_maxWarrantsDisconnected e"
proof (cases ev)
  case (Receive body)
  with assms show ?thesis by (cases body) (auto simp: edge_handle_def receiveFluidityToken_def split: if_splits)
next
  case (Ask now req)
  with assms show ?thesis by (auto simp: edge_check_no_warrant split: sum.splits)
next
  case (Resume i answered now wid iat)
  with assms show ?thesis
    by (auto simp: disconnected_def pingRoot_def edge_issue_def Let_def split: if_splits prod.splits)
next
  case (Pulled reply)
  have "en_maxWarrantsDisconnected (snd (take_revocations rvs p r e)) = en_maxWarrantsDisconnected e" for rvs p r
    by (induction rvs p r e rule: take_revocations.induct) simp_all
  with Pulled assms show ?thesis
    by (auto simp: pullRevocations_def split: if_splits option.splits prod.splits)
      (metis snd_conv take_revocations_counter)+
next
  case (Reconcile reply)
  with assms show ?thesis by (auto simp: edge_reconcile_def split: if_splits)
qed

text \<open>
  C27: an edge without contact to its root issues a bounded number of warrants.  Over any interleaved
  stretch of operations during which no ping is answered, the warrants issued and those counted before
  never exceed the configured maximum, and the counter counts them exactly.
\<close>

theorem mesh_disconnected_quota:
  assumes "mesh_edge_run P evs (e, ws) = (ds, e', ws')" "disconnected evs"
  shows "int (length (filter issues ds)) \<le> max 0 (en_maxWarrantsDisconnected e - int (en_warrantsSinceContact e)) \<and>
    en_warrantsSinceContact e' = en_warrantsSinceContact e + length (filter issues ds)"
  using assms
proof (induction evs arbitrary: e ws ds)
  case (Cons ev evs)
  obtain d e1 ws1 where step: "mesh_edge_step P ev (e, ws) = (d, e1, ws1)" by (metis prod_cases3)
  with Cons.prems(1) obtain ds1 where run: "mesh_edge_run P evs (e1, ws1) = (ds1, e', ws')" "ds = d # ds1"
    by (auto split: prod.splits)
  have "disconnected [ev]" "disconnected evs" using Cons.prems(2) by (simp_all add: disconnected_def)
  with edge_step_quota[OF step] Cons.IH[OF run(1)] run(2) show ?case by (cases "issues d") auto
qed simp

section \<open>Revocations\<close>

definition revokes :: "string \<Rightarrow> string \<Rightarrow> EdgeNode \<Rightarrow> bool" where
  "revokes i target e \<longleftrightarrow> (\<exists>rv. map_of (en_cachedRevocations e) i = Some rv \<and> rv_kind rv = Envelope_target \<and> rv_target_id rv = target)"

text \<open>No message gives the identifier of the revocation to another one.\<close>

definition id_kept :: "string \<Rightarrow> string \<Rightarrow> edge_event list \<Rightarrow> bool" where
  "id_kept i target evs \<longleftrightarrow> (\<forall>rv. Receive (GOSSIP_REVOCATION rv) \<in> set evs \<longrightarrow> rv_revocation_id rv = i \<longrightarrow>
     rv_kind rv = Envelope_target \<and> rv_target_id rv = target)"

lemma revokes_check: "revokes i target e \<Longrightarrow> cr_envelope_id req = target \<Longrightarrow> edge_check P now req e \<noteq> Inr p"
  by (auto simp: revokes_def edge_check_def envelope_revoked_def list_ex_iff dest: map_of_SomeD split: option.splits)

lemma revokes_update [simp]: "revokes i target (e \<lparr> en_quorumRejectedCount := c \<rparr>) = revokes i target e"
  by (simp add: revokes_def)

lemma revokes_add:
  "revokes i target e \<Longrightarrow> map_of (en_cachedRevocations e) k = None \<Longrightarrow>
   revokes i target (e \<lparr> en_cachedRevocations := map_set k rv (en_cachedRevocations e) \<rparr>)"
  by (auto simp: revokes_def js_simps)

lemma take_revocations_revokes: "revokes i target e \<Longrightarrow> revokes i target (snd (take_revocations rvs p r e))"
  by (induction rvs p r e rule: take_revocations.induct) (simp_all add: revokes_add)

lemma edge_step_revokes:
  assumes "mesh_edge_step P ev (e, ws) = (d, e', ws')" "id_kept i target [ev]" "revokes i target e"
  shows "revokes i target e'"
proof (cases ev)
  case (Receive body)
  with assms show ?thesis
    by (cases body) (auto simp: edge_handle_def receiveFluidityToken_def revokes_def id_kept_def js_simps split: if_splits)
next
  case (Pulled reply)
  with assms take_revocations_revokes[OF assms(3)] show ?thesis
    by (auto simp: pullRevocations_def revokes_def split: if_splits option.splits prod.splits) (metis snd_conv)+
qed (use assms in \<open>auto simp: revokes_def pingRoot_def edge_issue_def edge_reconcile_def Let_def split: if_splits prod.splits sum.splits\<close>)

definition waiting_for :: "string \<Rightarrow> waiting list \<Rightarrow> nat" where
  "waiting_for target ws = length (filter (\<lambda>(req, env, token). me_envelope_id env = target) ws)"

abbreviation issues_under :: "string \<Rightarrow> CommitDecision option \<Rightarrow> bool" where
  "issues_under target d \<equiv> (\<exists>w. d = Some (CommitAllow w) \<and> mw_envelope_id w = target)"

lemma waiting_for_remove:
  assumes "i < length ws"
  shows "waiting_for target ws = waiting_for target (take i ws @ drop (Suc i) ws) +
    (case ws ! i of (req, env, token) \<Rightarrow> if me_envelope_id env = target then 1 else 0)"
proof -
  have "ws = take i ws @ ws ! i # drop (Suc i) ws" using assms by (simp add: id_take_nth_drop)
  then have "waiting_for target ws = waiting_for target (take i ws @ ws ! i # drop (Suc i) ws)" by simp
  then show ?thesis by (cases "ws ! i") (simp add: waiting_for_def)
qed

lemma edge_step_waiting_for:
  assumes "mesh_edge_step P ev (e, ws) = (d, e', ws')" "revokes i target e" "edge_inv e"
  shows "waiting_for target ws' + (if issues_under target d then 1 else 0) \<le> waiting_for target ws"
proof (cases ev)
  case (Ask now req)
  show ?thesis
  proof (cases "edge_check P now req e")
    case (Inl x)
    with assms Ask edge_check_no_warrant[of P now req e] show ?thesis by auto
  next
    case (Inr p)
    obtain env token where p: "p = (env, token)" by (cases p)
    have "me_envelope_id env = cr_envelope_id req"
      using edge_check_authorised[OF assms(3)] Inr p by (auto simp: authorised_def)
    with revokes_check[OF assms(2), of req P now p] Inr have "me_envelope_id env \<noteq> target" by auto
    with assms(1) Ask Inr p show ?thesis by (auto simp: waiting_for_def)
  qed
next
  case (Resume k answered now wid iat)
  show ?thesis
  proof (cases "k < length ws")
    case True
    obtain req env token where wk: "ws ! k = (req, env, token)" by (metis prod_cases3)
    obtain reachable e1 pull where ping: "pingRoot answered now e = (reachable, e1, pull)" by (metis prod_cases3)
    obtain d1 e2 where iss: "edge_issue P wid iat reachable req env token e1 = (d1, e2)" by (metis prod.exhaust)
    have d: "d = Some d1" "ws' = take k ws @ drop (Suc k) ws" using assms(1) Resume True wk ping iss by auto
    have "me_envelope_id env = target" if "issues_under target d"
      using that edge_issue_allow[of P wid iat reachable req env token e1] iss d by auto
    with waiting_for_remove[OF True, of target] d wk show ?thesis by auto
  qed (use assms Resume in simp)
qed (use assms in auto)

text \<open>A gossiped revocation that is accepted replaces a cached one with its identifier.\<close>

lemma replaced_revocation_forgotten:
  assumes "revocation_trusted e rv" "\<not> quorum_missing e rv" "rv_revocation_id rv = i" "rv_target_id rv \<noteq> target"
  shows "\<not> revokes i target (snd (edge_handle (GOSSIP_REVOCATION rv) e))"
  using assms by (simp add: edge_handle_def revokes_def js_simps)

text \<open>
  C28: a revocation an edge has cached is enforced, as long as no gossiped revocation of something else
  carries its identifier (\<open>id_kept\<close>).  Under this condition every later request under the revoked envelope
  is refused, and the only warrants still issued under it answer requests that had passed their checks
  before and were waiting for the ping: at most one for each of these.  The condition is needed: the
  gossip handler replaces the cached revocation by a new one with the same identifier, and the envelope
  is then no longer revoked, as \<open>replaced_revocation_forgotten\<close> shows.
\<close>

theorem mesh_revocation_enforced:
  assumes "mesh_edge_run P before (new_edge n t0 maxWarrants quorum, []) = (ds0, e, ws)" "revokes i target e"
    and "mesh_edge_run P evs (e, ws) = (ds, e', ws')" "id_kept i target evs"
  shows "length (filter (issues_under target) ds) \<le> waiting_for target ws \<and>
    (\<forall>now req p. cr_envelope_id req = target \<longrightarrow> edge_check P now req e' \<noteq> Inr p)"
proof -
  have "edge_inv e" using edge_run_inv[OF edge_inv_new assms(1)] by simp
  then have "length (filter (issues_under target) ds) + waiting_for target ws' \<le> waiting_for target ws \<and> revokes i target e'"
    using assms(2-)
  proof (induction evs arbitrary: e ws ds)
    case (Cons ev evs)
    obtain d e1 ws1 where step: "mesh_edge_step P ev (e, ws) = (d, e1, ws1)" by (metis prod_cases3)
    with Cons.prems(3) obtain ds1 where run: "mesh_edge_run P evs (e1, ws1) = (ds1, e', ws')" "ds = d # ds1"
      by (auto split: prod.splits)
    have ids: "id_kept i target [ev]" "id_kept i target evs" using Cons.prems(4) by (auto simp: id_kept_def)
    have "length (filter (issues_under target) ds1) + waiting_for target ws' \<le> waiting_for target ws1 \<and> revokes i target e'"
      using Cons.IH[OF _ _ run(1) ids(2)] edge_step_inv[OF Cons.prems(1) step] edge_step_revokes[OF step ids(1) Cons.prems(2)] by simp
    with edge_step_waiting_for[OF step Cons.prems(2,1)] run(2) show ?case by (cases "issues_under target d") auto
  qed simp
  with revokes_check show ?thesis by fastforce
qed

text \<open>
  C29: an edge that demands witness signatures acts on no revocation without them.  Every revocation in
  its cache has a verified root signature and, with a positive quorum, at least that many distinct
  witnesses whose signature over its identifier, target and root signature verifies.
\<close>

theorem mesh_revocation_quorum:
  assumes "mesh_edge_run P evs (new_edge n t0 maxWarrants (Some quorum), []) = (ds, e, ws)" "(i, rv) \<in> set (en_cachedRevocations e)"
  shows "mv_verify (mn_verifier n) (revocation_payload rv) (rv_signature rv) (rv_issued_by rv) \<and>
    (quorum > 0 \<longrightarrow> quorum \<le> int (card (valid_witnesses (mn_verifier n) rv)))"
proof -
  have "edge_inv e \<and> same_config (new_edge n t0 maxWarrants (Some quorum)) e" using edge_run_inv[OF edge_inv_new assms(1)] by simp
  then show ?thesis
    using assms(2) by (auto simp: edge_inv_def same_config_def new_edge_def MeshNode.defs revocation_trusted_def quorum_missing_def
        the_default_def countValidRevocationQuorum_card)
qed

end
