(* ===== verification/Mesh_Network.thy ===== *)
theory Mesh_Network
  imports Mesh_Edge_Run
begin

text \<open>
  Nodes calling each other through the registry (\<open>bindRegistry\<close>, \<open>sendTo\<close>), with partitions between them.
  A handler's forwards are delivered before the sender's next message, as the awaited calls of the source
  do.  The main theorems: a revocation reaches every edge it has a path to, over the root's own link or a
  witness that survived the partition, and delivery always ends; and a revocation issued under quorum is
  accepted.
\<close>

datatype mesh_node = Root_node RootNode | Witness_node WitnessNode | Edge_node EdgeNode

type_synonym mesh = "(string, mesh_node) jsmap"

definition bindRegistry :: "(string \<times> mesh_node) list \<Rightarrow> mesh" where
  "bindRegistry nodes = fold (\<lambda>(i, n). map_set i n) nodes []"

fun node_partitions :: "mesh_node \<Rightarrow> string set" where
  "node_partitions (Root_node n) = mn_partitions n"
| "node_partitions (Witness_node n) = mn_partitions n"
| "node_partitions (Edge_node n) = mn_partitions n"

fun node_handle :: "platform \<Rightarrow> MeshBody \<Rightarrow> mesh_node \<Rightarrow> MeshReply \<times> mesh_node \<times> (NodeId \<times> MeshBody) list" where
  "node_handle P body (Root_node n) = (let (reply, n') = root_handle P body n in (reply, Root_node n', []))"
| "node_handle P body (Witness_node n) = (let (reply, n', sends) = witness_handle P body n in (reply, Witness_node n', sends))"
| "node_handle P body (Edge_node n) = (let (reply, n') = edge_handle body n in (reply, Edge_node n', []))"

text \<open>A message on its way: the sender's id, the peer it is sent to and the message.\<close>

type_synonym sending = "string \<times> NodeId \<times> MeshBody"

text \<open>
  \<open>sendTo\<close>: the reply, the registry after the handler, and what the handler then sends.  \<open>http\<close> answers for
  nodes of other processes.
\<close>

definition sendTo :: "platform \<Rightarrow> (NodeId \<Rightarrow> MeshBody \<Rightarrow> MeshReply result) \<Rightarrow> sending \<Rightarrow> mesh \<Rightarrow> (MeshReply \<times> mesh \<times> sending list) result" where
  "sendTo P http = (\<lambda>(sender, target, body) m.
     if ni_id target \<in> (case map_of m sender of Some n \<Rightarrow> node_partitions n | None \<Rightarrow> {})
     then Inl (MeshError (''partitioned-from:'' @ ni_id target))
     else case map_of m (ni_id target) of
       Some n \<Rightarrow>
         if sender \<in> node_partitions n then Inl (MeshError (''partitioned-from:'' @ sender))
         else let (reply, n', sends) = node_handle P body n
              in Inr (reply, map_set (ni_id target) n' m, map (\<lambda>(p, b). (ni_id target, p, b)) sends)
     | None \<Rightarrow> bind_result (http target body) (\<lambda>reply. Inr (reply, m, [])))"

text \<open>The sends of a loop over peers, whose failures are tolerated; \<open>None\<close> is lack of fuel.\<close>

fun deliver_all :: "platform \<Rightarrow> (NodeId \<Rightarrow> MeshBody \<Rightarrow> MeshReply result) \<Rightarrow> nat \<Rightarrow> sending list \<Rightarrow> mesh \<Rightarrow> mesh option" where
  "deliver_all P http fuel [] m = Some m"
| "deliver_all P http 0 (s # q) m = None"
| "deliver_all P http (Suc fuel) (s # q) m =
     (case sendTo P http s m of
        Inl _ \<Rightarrow> deliver_all P http fuel q m
      | Inr (reply, m', forwards) \<Rightarrow> deliver_all P http fuel (forwards @ q) m')"

text \<open>The gossip of a revocation by the root with id \<open>r\<close>, after \<open>revoke\<close> or \<open>revokeWithQuorum\<close> built it.\<close>

definition gossipRevocation :: "platform \<Rightarrow> (NodeId \<Rightarrow> MeshBody \<Rightarrow> MeshReply result) \<Rightarrow> nat \<Rightarrow> string \<Rightarrow> RootNode \<Rightarrow> (NodeId \<times> MeshBody) list \<Rightarrow> mesh \<Rightarrow> mesh option" where
  "gossipRevocation P http fuel r n sends m = deliver_all P http fuel (map (\<lambda>(p, b). (r, p, b)) sends) (map_set r (Root_node n) m)"

section \<open>Persistence and routing\<close>

record InMemoryMeshPersistence =
  mp_envelopes :: "(string, MeshEnvelope) jsmap"
  mp_revocations :: "(string, MeshRevocation) jsmap"

definition loadEnvelopes :: "InMemoryMeshPersistence \<Rightarrow> MeshEnvelope list" where
  "loadEnvelopes p = map snd (mp_envelopes p)"

definition loadRevocations :: "InMemoryMeshPersistence \<Rightarrow> MeshRevocation list" where
  "loadRevocations p = map snd (mp_revocations p)"

definition saveEnvelope :: "MeshEnvelope \<Rightarrow> InMemoryMeshPersistence \<Rightarrow> InMemoryMeshPersistence" where
  "saveEnvelope env p = p \<lparr> mp_envelopes := map_set (me_envelope_id env) env (mp_envelopes p) \<rparr>"

definition saveRevocation :: "MeshRevocation \<Rightarrow> InMemoryMeshPersistence \<Rightarrow> InMemoryMeshPersistence" where
  "saveRevocation rv p = p \<lparr> mp_revocations := map_set (rv_revocation_id rv) rv (mp_revocations p) \<rparr>"

record TrustAnchor =
  ta_mae_id :: string
  ta_target :: NodeId

record StaticSovereignRouter =
  sr_localMaeId :: string
  sr_trustAnchors :: "TrustAnchor list"

definition route :: "string \<Rightarrow> StaticSovereignRouter \<Rightarrow> TrustAnchor option" where
  "route mae_id r = (if mae_id = sr_localMaeId r then None else find (\<lambda>a. ta_mae_id a = mae_id) (sr_trustAnchors r))"

definition isLocal :: "string \<Rightarrow> StaticSovereignRouter \<Rightarrow> bool" where
  "isLocal mae_id r \<longleftrightarrow> mae_id = sr_localMaeId r"

definition anchorIds :: "StaticSovereignRouter \<Rightarrow> string list" where
  "anchorIds r = map ta_mae_id (sr_trustAnchors r)"

text \<open>A request is routed away exactly when its authority is foreign and anchored, and then to that authority.\<close>

lemma route_foreign: "route mae_id r \<noteq> None \<longleftrightarrow> \<not> isLocal mae_id r \<and> mae_id \<in> set (anchorIds r)"
proof -
  have "find (\<lambda>a. ta_mae_id a = mae_id) as = None \<longleftrightarrow> mae_id \<notin> set (map ta_mae_id as)" for "as" :: "TrustAnchor list"
    by (induction "as") auto
  from this[of "sr_trustAnchors r"] show ?thesis by (auto simp: route_def isLocal_def anchorIds_def)
qed

lemma route_target: "route mae_id r = Some a \<Longrightarrow> ta_mae_id a = mae_id \<and> a \<in> set (sr_trustAnchors r)"
  by (auto simp: route_def find_Some_iff split: if_splits)

text \<open>What was saved last under an identifier is loaded, and nothing else under it.\<close>

lemma load_saved:
  assumes "\<forall>(i, env) \<in> set (mp_envelopes p). i = me_envelope_id env" "map_ok (mp_envelopes p)"
  shows "env \<in> set (loadEnvelopes (saveEnvelope env' p)) \<longleftrightarrow>
    env = env' \<or> env \<in> set (loadEnvelopes p) \<and> me_envelope_id env \<noteq> me_envelope_id env'"
proof -
  have "(a, b) \<in> set (map_set (me_envelope_id env') env' (mp_envelopes p)) \<longleftrightarrow>
      (if a = me_envelope_id env' then b = env' else (a, b) \<in> set (mp_envelopes p))" for a b
    using jm.entries_put[OF assms(2)] by simp
  note entries = this
  have loaded: "env \<in> set (loadEnvelopes q) \<longleftrightarrow> (\<exists>a. (a, env) \<in> set (mp_envelopes q))" for q by (force simp: loadEnvelopes_def)
  show ?thesis
    unfolding loaded using assms(1) by (auto simp: saveEnvelope_def entries split: if_splits)
qed

section \<open>Delivery ends\<close>

text \<open>The peers a witness takes for edges are not witnesses themselves.\<close>

definition well_configured :: "mesh \<Rightarrow> bool" where
  "well_configured m \<longleftrightarrow> (\<forall>i w p. map_of m i = Some (Witness_node w) \<and> p \<in> set (mn_peers w) \<and> ni_role p = Edge_role \<longrightarrow>
     (\<forall>w'. map_of m (ni_id p) \<noteq> Some (Witness_node w')))"

definition send_cost :: "mesh \<Rightarrow> sending \<Rightarrow> nat" where
  "send_cost m = (\<lambda>(sender, target, body). 1 + (case map_of m (ni_id target) of Some (Witness_node w) \<Rightarrow> length (mn_peers w) | _ \<Rightarrow> 0))"

definition send_fuel :: "mesh \<Rightarrow> sending list \<Rightarrow> nat" where
  "send_fuel m q = sum_list (map (send_cost m) q)"

text \<open>What handling a message does not change of a node.\<close>

fun node_kept :: "mesh_node \<Rightarrow> mesh_node \<Rightarrow> bool" where
  "node_kept (Root_node a) (Root_node b) \<longleftrightarrow> mn_partitions b = mn_partitions a"
| "node_kept (Witness_node a) (Witness_node b) \<longleftrightarrow>
     mn_peers b = mn_peers a \<and> mn_partitions b = mn_partitions a \<and> mn_verifier b = mn_verifier a"
| "node_kept (Edge_node a) (Edge_node b) \<longleftrightarrow> same_config a b \<and> mn_partitions b = mn_partitions a"
| "node_kept _ _ = False"

definition mesh_kept :: "mesh \<Rightarrow> mesh \<Rightarrow> bool" where
  "mesh_kept m m' \<longleftrightarrow> (\<forall>i. rel_option node_kept (map_of m i) (map_of m' i))"

lemma node_kept_refl [simp]: "node_kept n n"
  by (cases n) simp_all

lemma node_kept_trans: "node_kept a b \<Longrightarrow> node_kept b c \<Longrightarrow> node_kept a c"
  by (cases a; cases b; cases c) (auto intro: same_config_trans)

lemma mesh_kept_refl [simp]: "mesh_kept m m"
  by (simp add: mesh_kept_def option.rel_refl)

lemma mesh_kept_trans: "mesh_kept a b \<Longrightarrow> mesh_kept b c \<Longrightarrow> mesh_kept a c"
  unfolding mesh_kept_def
proof (rule allI)
  fix i
  assume "\<forall>i. rel_option node_kept (map_of a i) (map_of b i)" "\<forall>i. rel_option node_kept (map_of b i) (map_of c i)"
  then have "rel_option node_kept (map_of a i) (map_of b i)" "rel_option node_kept (map_of b i) (map_of c i)" by blast+
  then show "rel_option node_kept (map_of a i) (map_of c i)"
    by (cases "map_of a i"; cases "map_of b i"; cases "map_of c i") (auto intro: node_kept_trans)
qed

lemma edge_handle_kept: "same_config e (snd (edge_handle body e)) \<and> mn_partitions (snd (edge_handle body e)) = mn_partitions e"
  by (cases body) (simp_all add: edge_handle_def receiveFluidityToken_def same_config_def)

lemma node_handle_kept: "node_handle P body n = (reply, n', sends) \<Longrightarrow> node_kept n n'"
proof (cases n)
  case (Root_node a)
  then show "node_handle P body n = (reply, n', sends) \<Longrightarrow> node_kept n n'"
    by (cases body) (auto simp: root_handle_def split: option.splits)
next
  case (Witness_node a)
  then show "node_handle P body n = (reply, n', sends) \<Longrightarrow> node_kept n n'"
    by (cases body) (auto simp: witness_handle_def split: if_splits)
next
  case (Edge_node a)
  then show "node_handle P body n = (reply, n', sends) \<Longrightarrow> node_kept n n'"
    using edge_handle_kept[of a body] by (auto split: prod.splits)
qed

text \<open>Only a witness forwards, and only to the peers it takes for edges.\<close>

lemma node_handle_sends:
  "node_handle P body n = (reply, n', sends) \<Longrightarrow>
     (sends = [] \<or> (\<exists>w. n = Witness_node w \<and> sends = sends_to (\<lambda>r. r = Edge_role) body (mn_peers w)))"
  by (cases n; cases body) (auto simp: witness_handle_def split: prod.splits if_splits)

lemma sendTo_kept:
  assumes "sendTo P http s m = Inr (reply, m', forwards)"
  shows "mesh_kept m m'"
proof -
  obtain sender target body where s: "s = (sender, target, body)" by (metis prod_cases3)
  from assms show ?thesis
    by (auto simp: s sendTo_def mesh_kept_def js_simps option.rel_refl dest: node_handle_kept split: if_splits option.splits prod.splits)
qed

lemma send_cost_kept: "mesh_kept m m' \<Longrightarrow> send_cost m' s = send_cost m s"
proof -
  assume kept: "mesh_kept m m'"
  obtain sender target body where s: "s = (sender, target, body)" by (metis prod_cases3)
  have "rel_option node_kept (map_of m (ni_id target)) (map_of m' (ni_id target))" using kept by (simp add: mesh_kept_def)
  then show ?thesis
    by (cases "map_of m (ni_id target)"; cases "map_of m' (ni_id target)")
      (auto simp: s send_cost_def elim!: node_kept.elims split: mesh_node.split)
qed

lemma well_configured_kept: "mesh_kept m m' \<Longrightarrow> well_configured m \<Longrightarrow> well_configured m'"
proof -
  assume kept: "mesh_kept m m'" and wc: "well_configured m"
  have origin: "\<exists>a. map_of m i = Some (Witness_node a) \<and> mn_peers a = mn_peers w" if "map_of m' i = Some (Witness_node w)" for i w
  proof -
    have "rel_option node_kept (map_of m i) (Some (Witness_node w))" using kept that by (metis mesh_kept_def)
    then obtain a where "map_of m i = Some a" "node_kept a (Witness_node w)" by (auto simp: option_rel_Some2)
    then show ?thesis by (cases a) auto
  qed
  show ?thesis
    unfolding well_configured_def
  proof (intro allI impI notI)
    fix i w p w'
    assume w: "map_of m' i = Some (Witness_node w) \<and> p \<in> set (mn_peers w) \<and> ni_role p = Edge_role"
      and target: "map_of m' (ni_id p) = Some (Witness_node w')"
    obtain a where "map_of m i = Some (Witness_node a)" "mn_peers a = mn_peers w" using origin[of i w] w by blast
    moreover obtain b where "map_of m (ni_id p) = Some (Witness_node b)" using origin[OF target] by blast
    ultimately show False using wc w unfolding well_configured_def by metis
  qed
qed

lemma forwards_cost:
  assumes "well_configured m" "sendTo P http s m = Inr (reply, m', forwards)"
  shows "Suc (send_fuel m forwards) \<le> send_cost m s"
proof -
  obtain sender target body where s: "s = (sender, target, body)" by (metis prod_cases3)
  show ?thesis
  proof (cases "forwards = []")
    case True
    then show ?thesis by (simp add: send_fuel_def s send_cost_def)
  next
    case False
    then obtain w where w: "map_of m (ni_id target) = Some (Witness_node w)"
      and f: "forwards = map (\<lambda>(p, b). (ni_id target, p, b)) (sends_to (\<lambda>r. r = Edge_role) body (mn_peers w))"
      using assms(2) by (auto simp: s sendTo_def dest: node_handle_sends split: if_splits option.splits prod.splits)
    have "send_cost m x = 1" if "x \<in> set forwards" for x
    proof -
      obtain p where p: "x = (ni_id target, p, body)" "p \<in> set (mn_peers w)" "ni_role p = Edge_role"
        using \<open>x \<in> set forwards\<close> by (auto simp: f sends_to_def)
      with assms(1) w have "\<forall>w'. map_of m (ni_id p) \<noteq> Some (Witness_node w')" unfolding well_configured_def by blast
      then show ?thesis by (auto simp: p send_cost_def split: option.split mesh_node.split)
    qed
    then have "send_fuel m forwards = length forwards"
      unfolding send_fuel_def by (metis map_idI[of forwards] map_eq_conv[of _ forwards "\<lambda>_. 1"] sum_list_triv mult.right_neutral of_nat_id)
    moreover have "length forwards \<le> length (mn_peers w)" by (simp add: f sends_to_def)
    ultimately show ?thesis by (simp add: s send_cost_def w)
  qed
qed

lemma deliver_returns:
  assumes "well_configured m" "send_fuel m q \<le> fuel"
  shows "\<exists>m'. deliver_all P http fuel q m = Some m' \<and> mesh_kept m m'"
  using assms
proof (induction fuel arbitrary: q m)
  case 0
  then have "q = []" by (cases q) (auto simp: send_fuel_def send_cost_def)
  then show ?case by simp
next
  case (Suc fuel)
  show ?case
  proof (cases q)
    case (Cons s q')
    have cost: "1 \<le> send_cost m s" by (cases s) (auto simp: send_cost_def)
    show ?thesis
    proof (cases "sendTo P http s m")
      case (Inl e)
      have "send_fuel m q' \<le> fuel" using Suc.prems(2) Cons cost by (simp add: send_fuel_def)
      from Suc.IH[OF Suc.prems(1) this] Inl Cons show ?thesis by simp
    next
      case (Inr x)
      obtain reply m1 forwards where x: "x = (reply, m1, forwards)" by (metis prod_cases3)
      note kept = sendTo_kept[OF Inr[unfolded x]]
      have "send_fuel m1 (forwards @ q') = send_fuel m (forwards @ q')"
        unfolding send_fuel_def using send_cost_kept[OF kept] by (intro arg_cong[where f = sum_list] map_cong) simp_all
      then have "send_fuel m1 (forwards @ q') \<le> fuel"
        using forwards_cost[OF Suc.prems(1) Inr[unfolded x]] Suc.prems(2) Cons by (simp add: send_fuel_def)
      from Suc.IH[OF well_configured_kept[OF kept Suc.prems(1)] this] Inr x Cons kept show ?thesis
        by (auto intro: mesh_kept_trans)
    qed
  qed simp
qed

section \<open>A revocation reaches the edges\<close>

definition link :: "mesh \<Rightarrow> string \<Rightarrow> string \<Rightarrow> bool" where
  "link m a b \<longleftrightarrow> (\<exists>x y. map_of m a = Some x \<and> map_of m b = Some y \<and> b \<notin> node_partitions x \<and> a \<notin> node_partitions y)"

text \<open>A message that leads to the edge, directly or over a witness.\<close>

definition leads_to :: "mesh \<Rightarrow> MeshRevocation \<Rightarrow> string \<Rightarrow> string \<Rightarrow> NodeId \<Rightarrow> bool" where
  "leads_to m rv eid sender target \<longleftrightarrow> link m sender (ni_id target) \<and>
     (ni_id target = eid \<or> (\<exists>w. map_of m (ni_id target) = Some (Witness_node w) \<and> revocation_trusted w rv \<and> link m (ni_id target) eid \<and>
        (\<exists>p \<in> set (mn_peers w). ni_role p = Edge_role \<and> ni_id p = eid)))"

definition edge_accepts :: "mesh \<Rightarrow> string \<Rightarrow> MeshRevocation \<Rightarrow> bool" where
  "edge_accepts m eid rv \<longleftrightarrow> (\<exists>e. map_of m eid = Some (Edge_node e) \<and> revocation_trusted e rv \<and> \<not> quorum_missing e rv)"

definition edge_holds :: "mesh \<Rightarrow> string \<Rightarrow> MeshRevocation \<Rightarrow> bool" where
  "edge_holds m eid rv \<longleftrightarrow> (\<exists>e. map_of m eid = Some (Edge_node e) \<and> map_of (en_cachedRevocations e) (rv_revocation_id rv) = Some rv)"

lemma node_kept_partitions: "node_kept a b \<Longrightarrow> node_partitions b = node_partitions a"
  by (cases a; cases b) simp_all

lemma kept_Some: "mesh_kept m m' \<Longrightarrow> map_of m i = Some a \<Longrightarrow> \<exists>b. map_of m' i = Some b \<and> node_kept a b"
  unfolding mesh_kept_def by (metis option_rel_Some1)

lemma link_kept: "mesh_kept m m' \<Longrightarrow> link m a b \<Longrightarrow> link m' a b"
proof -
  assume kept: "mesh_kept m m'" and "link m a b"
  then obtain x y where xy: "map_of m a = Some x" "map_of m b = Some y" "b \<notin> node_partitions x" "a \<notin> node_partitions y"
    by (auto simp: link_def)
  obtain x' where "map_of m' a = Some x'" "node_kept x x'" using kept_Some[OF kept xy(1)] by blast
  moreover obtain y' where "map_of m' b = Some y'" "node_kept y y'" using kept_Some[OF kept xy(2)] by blast
  ultimately show "link m' a b" using xy(3,4) node_kept_partitions unfolding link_def by blast
qed

lemma leads_to_kept:
  assumes "mesh_kept m m'" "leads_to m rv eid sender target" shows "leads_to m' rv eid sender target"
proof -
  have "\<exists>w'. map_of m' i = Some (Witness_node w') \<and> mn_peers w' = mn_peers w \<and> revocation_trusted w' rv = revocation_trusted w rv"
    if known: "map_of m i = Some (Witness_node w)" for i w
  proof -
    obtain b where "map_of m' i = Some b" "node_kept (Witness_node w) b" using kept_Some[OF assms(1) known] by blast
    then show ?thesis by (cases b) (auto simp: revocation_trusted_def)
  qed
  with assms link_kept[OF assms(1)] show ?thesis unfolding leads_to_def by metis
qed

lemma edge_accepts_kept: "mesh_kept m m' \<Longrightarrow> edge_accepts m eid rv \<Longrightarrow> edge_accepts m' eid rv"
  unfolding edge_accepts_def
proof (elim exE conjE)
  fix e
  assume "mesh_kept m m'" "map_of m eid = Some (Edge_node e)" and e: "revocation_trusted e rv" "\<not> quorum_missing e rv"
  then obtain b where b: "map_of m' eid = Some b" "node_kept (Edge_node e) b" using kept_Some by blast
  then obtain e' where e': "b = Edge_node e'" "same_config e e'" by (cases b) auto
  with b e same_config_trust[OF e'(2)] show "\<exists>e. map_of m' eid = Some (Edge_node e) \<and> revocation_trusted e rv \<and> \<not> quorum_missing e rv"
    by auto
qed

lemma edge_handle_gossip:
  "map_of (en_cachedRevocations e) (rv_revocation_id rv) = Some rv \<Longrightarrow>
     map_of (en_cachedRevocations (snd (edge_handle (GOSSIP_REVOCATION rv) e))) (rv_revocation_id rv) = Some rv"
  "revocation_trusted e rv \<Longrightarrow> \<not> quorum_missing e rv \<Longrightarrow>
     map_of (en_cachedRevocations (snd (edge_handle (GOSSIP_REVOCATION rv) e))) (rv_revocation_id rv) = Some rv"
  by (simp_all add: edge_handle_def js_simps)

lemma edge_holds_kept:
  assumes "edge_holds m eid rv" "sendTo P http (sender, target, GOSSIP_REVOCATION rv) m = Inr (reply, m', forwards)"
  shows "edge_holds m' eid rv"
  using assms edge_handle_gossip(1)
  by (auto simp: edge_holds_def sendTo_def js_simps split: if_splits option.splits prod.splits)
    (metis snd_conv)+

text \<open>Delivering a message that leads to the edge: it is taken, or forwarded to the edge.\<close>

lemma leads_to_step:
  assumes "leads_to m rv eid sender target" "edge_accepts m eid rv"
  shows "\<exists>reply m' forwards. sendTo P http (sender, target, GOSSIP_REVOCATION rv) m = Inr (reply, m', forwards) \<and>
    (edge_holds m' eid rv \<or> (\<exists>s t. (s, t, GOSSIP_REVOCATION rv) \<in> set forwards \<and> leads_to m' rv eid s t))"
proof -
  obtain x y where x: "map_of m sender = Some x" "ni_id target \<notin> node_partitions x"
    and y: "map_of m (ni_id target) = Some y" "sender \<notin> node_partitions y"
    using assms(1) by (auto simp: leads_to_def link_def)
  obtain reply n' sends where h: "node_handle P (GOSSIP_REVOCATION rv) y = (reply, n', sends)" by (metis prod_cases3)
  let ?m = "map_set (ni_id target) n' m"
  let ?f = "map (\<lambda>(p, b). (ni_id target, p, b)) sends"
  have send: "sendTo P http (sender, target, GOSSIP_REVOCATION rv) m = Inr (reply, ?m, ?f)"
    using x y h by (simp add: sendTo_def)
  from assms(1)[unfolded leads_to_def] show ?thesis
  proof (elim conjE disjE exE bexE)
    assume "ni_id target = eid"
    moreover from this obtain e where e: "y = Edge_node e" "revocation_trusted e rv" "\<not> quorum_missing e rv"
      using assms(2) y(1) by (auto simp: edge_accepts_def)
    ultimately have "edge_holds ?m eid rv"
      using h edge_handle_gossip(2)[OF e(2,3)] by (auto simp: edge_holds_def js_simps split: prod.splits)
    with send show ?thesis by blast
  next
    fix w p
    assume w: "map_of m (ni_id target) = Some (Witness_node w)" "revocation_trusted w rv" "link m (ni_id target) eid"
      and p: "p \<in> set (mn_peers w)" "ni_role p = Edge_role" "ni_id p = eid"
    have "(ni_id target, p, GOSSIP_REVOCATION rv) \<in> set ?f"
      using h y(1) w p(1,2) by (auto simp: witness_handle_def sends_to_def)
    moreover have "leads_to ?m rv eid (ni_id target) p"
      using link_kept[OF sendTo_kept[OF send] w(3)] p(3) by (simp add: leads_to_def)
    ultimately show ?thesis using send by blast
  qed
qed

lemma forwards_gossip:
  assumes "sendTo P http (sender, target, GOSSIP_REVOCATION rv) m = Inr (reply, m', forwards)"
  shows "\<forall>(s, t, b) \<in> set forwards. b = GOSSIP_REVOCATION rv"
proof -
  have "\<forall>(p, b) \<in> set sends. b = GOSSIP_REVOCATION rv" if "node_handle P (GOSSIP_REVOCATION rv) n = (reply, n', sends)" for n n' sends
    using node_handle_sends[OF that] by (auto simp: sends_to_def)
  with assms show ?thesis
    by (fastforce simp: sendTo_def split: if_splits option.splits prod.splits)
qed

lemma deliver_reaches:
  assumes "deliver_all P http fuel q m = Some m'" "\<forall>(s, t, b) \<in> set q. b = GOSSIP_REVOCATION rv" "edge_accepts m eid rv"
    and "(\<exists>s t b. (s, t, b) \<in> set q \<and> leads_to m rv eid s t) \<or> edge_holds m eid rv"
  shows "edge_holds m' eid rv"
  using assms
proof (induction fuel arbitrary: q m)
  case 0
  then show ?case by (cases q) auto
next
  case (Suc fuel)
  show ?case
  proof (cases q)
    case Nil
    with Suc.prems show ?thesis by simp
  next
    case (Cons h q')
    with Suc.prems(2) obtain s t where h: "h = (s, t, GOSSIP_REVOCATION rv)" by (cases h) auto
    have rest: "\<forall>(s, t, b) \<in> set q'. b = GOSSIP_REVOCATION rv" using Suc.prems(2) Cons by simp
    show ?thesis
    proof (cases "sendTo P http h m")
      case (Inl e)
      then have "\<not> leads_to m rv eid s t" using leads_to_step[OF _ Suc.prems(3), of s t P http] h by auto
      then have "(\<exists>s t b. (s, t, b) \<in> set q' \<and> leads_to m rv eid s t) \<or> edge_holds m eid rv"
        using Suc.prems(4) Cons h by auto
      with Suc.IH[OF _ rest Suc.prems(3)] Suc.prems(1) Inl Cons show ?thesis by simp
    next
      case (Inr x)
      obtain reply m1 forwards where x: "x = (reply, m1, forwards)" by (metis prod_cases3)
      note send = Inr[unfolded x h]
      note kept = sendTo_kept[OF send]
      have "(\<exists>s t b. (s, t, b) \<in> set (forwards @ q') \<and> leads_to m1 rv eid s t) \<or> edge_holds m1 eid rv"
        using Suc.prems(4) Cons h leads_to_step[OF _ Suc.prems(3), of s t P http] send edge_holds_kept[OF _ send] leads_to_kept[OF kept]
        by (auto, metis+)
      moreover have "\<forall>(s, t, b) \<in> set (forwards @ q'). b = GOSSIP_REVOCATION rv" using rest forwards_gossip[OF send] by auto
      ultimately show ?thesis
        using Suc.IH[OF _ _ edge_accepts_kept[OF kept Suc.prems(3)]] Suc.prems(1) Inr x Cons h by simp
    qed
  qed
qed

section \<open>Properties\<close>

text \<open>
  A path of the root's gossip to an edge: its own link to the edge, or a link to a witness that trusts
  the root's key and has a link to the edge.
\<close>

definition gossip_path :: "mesh \<Rightarrow> RootNode \<Rightarrow> string \<Rightarrow> bool" where
  "gossip_path m n eid \<longleftrightarrow> (\<exists>p \<in> set (mn_peers n). ni_role p \<noteq> Root_role \<and> link m (mn_id n) (ni_id p) \<and>
     (ni_id p = eid \<or> (\<exists>w. map_of m (ni_id p) = Some (Witness_node w) \<and> trusts (mn_verifier w) (mn_signer n) \<and>
        link m (ni_id p) eid \<and> (\<exists>q \<in> set (mn_peers w). ni_role q = Edge_role \<and> ni_id q = eid))))"

text \<open>A revocation the root signed.\<close>

definition root_signed :: "RootNode \<Rightarrow> MeshRevocation \<Rightarrow> bool" where
  "root_signed n rv \<longleftrightarrow> (\<forall>V. trusts V (mn_signer n) \<longrightarrow> mv_verify V (revocation_payload rv) (rv_signature rv) (rv_issued_by rv))"

lemma gossip_reaches:
  assumes "map_of m (mn_id n) = Some (Root_node n)" "well_configured m" "gossip_path m n eid" "root_signed n rv"
    and "map_of m eid = Some (Edge_node e)" "trusts (mn_verifier e) (mn_signer n)" "\<not> quorum_missing e rv"
    and "gossip rv n = (n', sends)"
  shows "\<exists>fuel0. \<forall>fuel \<ge> fuel0. \<exists>m'. gossipRevocation P http fuel (mn_id n) n' sends m = Some m' \<and> edge_holds m' eid rv"
proof -
  define m1 where "m1 = map_set (mn_id n) (Root_node n') m"
  define q where "q = map (\<lambda>(p, b). (mn_id n, p, b)) sends"
  have n': "mn_partitions n' = mn_partitions n" "sends = sends_to (\<lambda>r. r \<noteq> Root_role) (GOSSIP_REVOCATION rv) (mn_peers n)"
    using assms(8) by (auto simp: gossip_def)
  have kept: "mesh_kept m m1"
    unfolding mesh_kept_def m1_def using assms(1) n'(1) by (simp add: js_simps option.rel_refl)
  obtain p where p: "p \<in> set (mn_peers n)" "ni_role p \<noteq> Root_role" "leads_to m rv eid (mn_id n) p"
    using assms(3,4) unfolding gossip_path_def leads_to_def root_signed_def revocation_trusted_def by blast
  have acc: "edge_accepts m1 eid rv"
    using edge_accepts_kept[OF kept] assms(4-7) unfolding edge_accepts_def root_signed_def revocation_trusted_def by blast
  have inq: "(mn_id n, p, GOSSIP_REVOCATION rv) \<in> set q" using p(1,2) by (force simp: q_def n'(2) sends_to_def)
  have bodies: "\<forall>(s, t, b) \<in> set q. b = GOSSIP_REVOCATION rv" by (auto simp: q_def n'(2) sends_to_def)
  have "\<exists>m'. deliver_all P http fuel q m1 = Some m' \<and> edge_holds m' eid rv" if enough: "send_fuel m1 q \<le> fuel" for fuel
  proof -
    obtain m' where m': "deliver_all P http fuel q m1 = Some m'"
      using deliver_returns[OF well_configured_kept[OF kept assms(2)] enough] by blast
    with deliver_reaches[OF m' bodies acc] inq leads_to_kept[OF kept p(3)] show ?thesis by blast
  qed
  then show ?thesis unfolding gossipRevocation_def m1_def[symmetric] q_def[symmetric] by blast
qed

lemma plain_revocation_signed:
  assumes "root_revoke i now target kind reason n = (rv, n', sends)" "sg_signerId (mn_signer n) = mn_id n"
  shows "root_signed n rv" "gossip rv n = (n', sends)" "rv_kind rv = kind" "rv_target_id rv = target" "rv_revocation_id rv = i"
  using assms by (auto simp: root_revoke_def root_signed_def signed_revocation_def mesh_trust_def revocation_payload_def Let_def)

text \<open>Reconciliation with the root: the conflicts are the warrants issued at or after a revocation of their envelope.\<close>

lemma reconcile_conflicts_set:
  "set (reconcile_conflicts xs) =
     {(mw_warrant_id (sd_warrant sd), i) | sd i. (sd, Some (Reconciled (Some i))) \<in> set xs}"
proof (induction xs rule: reconcile_conflicts.induct)
  case (2 sd reply rest)
  then show ?case by (cases reply) (auto split: MeshReply.splits option.splits)
qed simp

lemma earlier_revocation_None:
  "earlier_revocation P w revs = None \<longleftrightarrow> (\<forall>(i, r) \<in> set revs. \<not> (rv_target_id r = mw_envelope_id w \<and> rv_kind r = Envelope_target \<and>
     nan_le (date_parse P (rv_revoked_at r)) (date_parse P (mw_issued_at w))))"
  by (auto simp: earlier_revocation_def find_None_iff)

lemma reconcile_flags:
  assumes "edge_reconcile (\<lambda>sd. Some (fst (root_handle P (RECONCILE_DECISION sd) n))) e = (conflicts, e')"
    and "list_ex (\<lambda>p. ni_role p = Root_role) (mn_peers e)" "sd \<in> set (en_localDecisions e)"
    and "map_of (rn_envelopes n) (mw_envelope_id (sd_warrant sd)) = Some env"
    and "(i, r) \<in> set (rn_revocations n)" "rv_target_id r = mw_envelope_id (sd_warrant sd)" "rv_kind r = Envelope_target"
    and "nan_le (date_parse P (rv_revoked_at r)) (date_parse P (mw_issued_at (sd_warrant sd)))"
  shows "mw_warrant_id (sd_warrant sd) \<in> fst ` set conflicts"
proof -
  have "earlier_revocation P (sd_warrant sd) (rn_revocations n) \<noteq> None" using assms(5-8) by (auto simp: earlier_revocation_None)
  then obtain r' where "earlier_revocation P (sd_warrant sd) (rn_revocations n) = Some r'" by blast
  with assms(4) have "fst (root_handle P (RECONCILE_DECISION sd) n) = Reconciled (Some (rv_revocation_id r'))"
    by (simp add: root_handle_def)
  with assms(1-3) show ?thesis by (force simp: edge_reconcile_def reconcile_conflicts_set)
qed

text \<open>A decision whose submission fails is forgotten: no conflict is reported and nothing is left to retry.\<close>

lemma reconcile_drops_undelivered:
  "list_ex (\<lambda>p. ni_role p = Root_role) (mn_peers e) \<Longrightarrow> edge_reconcile (\<lambda>_. None) e = ([], e \<lparr> en_localDecisions := [] \<rparr>)"
proof -
  have "reconcile_conflicts (map (\<lambda>sd. (sd, None)) xs) = []" for xs by (induction xs) simp_all
  then show "list_ex (\<lambda>p. ni_role p = Root_role) (mn_peers e) \<Longrightarrow> edge_reconcile (\<lambda>_. None) e = ([], e \<lparr> en_localDecisions := [] \<rparr>)"
    by (simp add: edge_reconcile_def)
qed

text \<open>
  C30: the revocation of an envelope under quorum takes effect on the edges with a path from the root.  With
  enough distinct witnesses the root builds it; delivery through the process registry ends, whatever
  happens to the other peers; and each edge that trusts the signing keys of the root and of all the
  witnesses, demands no more witness signatures than were required, and is linked to the root or to a
  witness the root reaches, then refuses every request under the envelope, even if the root and the
  edge are partitioned from each other.  It is about revocations of envelopes; the edge does not act on
  revocations of warrants or subjects.
\<close>

theorem mesh_revocation_reaches_edge:
  assumes "map_of m (mn_id n) = Some (Root_node n)" "well_configured m" "gossip_path m n eid"
    and "map_of m eid = Some (Edge_node e)" "trusts (mn_verifier e) (mn_signer n)" "sg_signerId (mn_signer n) = mn_id n"
    and "\<forall>w \<in> set witnesses. trusts (mn_verifier e) w" "1 \<le> required" "required \<le> int (card (sg_signerId ` set witnesses))"
    and "en_requireRevocationQuorum e \<le> required"
  shows "\<exists>rv n' sends fuel0. revokeWithQuorum i now clock target Envelope_target reason witnesses required n = Inr (rv, n', sends) \<and>
    (\<forall>fuel \<ge> fuel0. \<exists>m' e'. gossipRevocation P http fuel (mn_id n) n' sends m = Some m' \<and> map_of m' eid = Some (Edge_node e') \<and>
       (\<forall>t req x. cr_envelope_id req = target \<longrightarrow> edge_check P t req e' \<noteq> Inr x))"
proof -
  obtain rv where built: "quorum_revocation (mn_signer n) i target Envelope_target reason now clock (mn_id n) witnesses required = Inr rv"
    using quorum_revocation_succeeds[OF assms(8,9)] by blast
  obtain n' sends where g: "gossip rv n = (n', sends)" by fastforce
  note fields = quorum_revocation_root_signed[OF built[folded assms(6)]]
  have "required \<le> int (countValidRevocationQuorum (mn_verifier e) rv)" by (rule quorum_revocation_valid[OF built assms(7)])
  then have quorum: "\<not> quorum_missing e rv" using assms(10) by (simp add: quorum_missing_def)
  have signed: "root_signed n rv" unfolding root_signed_def using fields(1) by blast
  obtain fuel0 where f: "\<forall>fuel \<ge> fuel0. \<exists>m'. gossipRevocation P http fuel (mn_id n) n' sends m = Some m' \<and> edge_holds m' eid rv"
    using gossip_reaches[OF assms(1-3) signed assms(4,5) quorum g] by blast
  have enforced: "\<exists>e'. map_of m' eid = Some (Edge_node e') \<and> (\<forall>t req x. cr_envelope_id req = target \<longrightarrow> edge_check P t req e' \<noteq> Inr x)"
    if holds: "edge_holds m' eid rv" for m'
  proof -
    obtain e' where e': "map_of m' eid = Some (Edge_node e')" "map_of (en_cachedRevocations e') (rv_revocation_id rv) = Some rv"
      using holds by (auto simp: edge_holds_def)
    then have "revokes (rv_revocation_id rv) target e'" using fields(3,4)[OF assms(5)] by (simp add: revokes_def)
    with e'(1) revokes_check show ?thesis by blast
  qed
  have "revokeWithQuorum i now clock target Envelope_target reason witnesses required n = Inr (rv, n', sends)"
    using built g by (simp add: revokeWithQuorum_def)
  moreover have "\<exists>m' e'. gossipRevocation P http fuel (mn_id n) n' sends m = Some m' \<and> map_of m' eid = Some (Edge_node e') \<and>
      (\<forall>t req x. cr_envelope_id req = target \<longrightarrow> edge_check P t req e' \<noteq> Inr x)" if "fuel0 \<le> fuel" for fuel
    using f[rule_format, OF that] enforced by blast
  ultimately show ?thesis by blast
qed

end
