(* ===== verification/Mesh_Sample.thy ===== *)
theory Mesh_Sample
  imports Mesh_Network
begin

text \<open>
  A small mesh with a shared secret: a root, a witness and an edge, where root and edge are partitioned
  from each other.  The theorems on the mesh are instantiated on it.
\<close>

definition sample_node :: "string \<Rightarrow> NodeId list \<Rightarrow> string set \<Rightarrow> MeshNode" where
  "sample_node i peers apart = \<lparr> mn_id = i, mn_host = ''h'', mn_port = 1, mn_secret = ''s'', mn_signer = createHmacMeshSigner sample i ''s'',
     mn_verifier = createHmacMeshVerifier sample ''s'', mn_peers = peers, mn_partitions = apart \<rparr>"

definition sample_peer :: "string \<Rightarrow> NodeRole \<Rightarrow> NodeId" where
  "sample_peer i role = \<lparr> ni_id = i, ni_role = role, ni_host = ''h'', ni_port = 1 \<rparr>"

definition sample_root :: RootNode where
  "sample_root = MeshNode.extend (sample_node ''root'' [sample_peer ''edge'' Edge_role, sample_peer ''wit'' Witness_role] {''edge''})
     \<lparr> rn_envelopes = [], rn_revocations = [], rn_issuedFluidityTokens = [], rn_submittedEdgeDecisions = [] \<rparr>"

definition sample_witness :: WitnessNode where
  "sample_witness = MeshNode.extend (sample_node ''wit'' [sample_peer ''edge'' Edge_role] {})
     \<lparr> wn_cachedEnvelopes = [], wn_cachedRevocations = [] \<rparr>"

definition sample_edge_node :: MeshNode where
  "sample_edge_node = sample_node ''edge'' [sample_peer ''root'' Root_role] {''root''}"

abbreviation sample_edge :: EdgeNode where
  "sample_edge \<equiv> new_edge sample_edge_node 0 (Some 1) (Some 1)"

definition sample_envelope_message :: MeshEnvelope where
  "sample_envelope_message = fst (issueEnvelope ''100'' \<lparr> me_envelope_id = ''e1'', me_mae_id = ''mae'', me_ward_id = ''w1'',
     me_subject = ''agent'', me_allowed_action_types = [''pay''], me_expires_at = ''900'', me_version = 1, me_issued_by = [],
     me_issued_at = [], me_signature = [] \<rparr> sample_root)"

definition sample_token :: FluidityToken where
  "sample_token = fst (issueFluidityToken ''t1'' ''100'' ''900'' ''edge'' ''e1'' None sample_root)"

definition sample_commit :: CommitRequest where
  "sample_commit = \<lparr> cr_action_id = ''a1'', cr_action_type = ''pay'', cr_envelope_id = ''e1'', cr_subject = ''agent'',
     cr_params = [], cr_presented_at = ''200'' \<rparr>"

definition sample_quorum_revocation :: MeshRevocation where
  "sample_quorum_revocation = projr (quorum_revocation (mn_signer sample_root) ''r1'' ''e1'' Envelope_target ''lost'' ''300'' (\<lambda>_. ''300'')
     ''root'' [createHmacMeshSigner sample ''wit'' ''s''] 1)"

lemmas sample_mesh_defs = sample_node_def sample_peer_def sample_root_def sample_witness_def sample_edge_node_def new_edge_def MeshNode.defs
  the_default_def createHmacMeshSigner_def createHmacMeshVerifier_def

lemma sample_envelope_trusted:
  "mn_verifier e = createHmacMeshVerifier sample ''s'' \<Longrightarrow> envelope_trusted e sample_envelope_message"
  by (simp add: envelope_trusted_def sample_envelope_message_def issueEnvelope_def Let_def envelope_payload_def verify_def sample_mesh_defs)

lemma sample_token_trusted:
  "mn_verifier e = createHmacMeshVerifier sample ''s'' \<Longrightarrow> token_trusted e sample_token"
  by (simp add: token_trusted_def sample_token_def issueFluidityToken_def Let_def token_payload_def verify_def sample_mesh_defs)

lemma sample_mesh_dates: "decimal_parse ''900'' = Some 900"
  by (simp add: decimal_parse_def is_digit_def digits_val_def char_digit_def)

definition sample_asked :: "edge_event list" where
  "sample_asked = [Receive (PROPAGATE_ENVELOPE sample_envelope_message), Receive (ISSUE_FLUIDITY_TOKEN sample_token), Ask 200 sample_commit]"

definition sample_ready :: EdgeNode where
  "sample_ready = sample_edge \<lparr> en_cachedEnvelopes := [(''e1'', sample_envelope_message)], en_fluidityTokens := [(''t1'', sample_token)] \<rparr>"

lemma sample_asked_run:
  "mesh_edge_run sample sample_asked (sample_edge, []) = ([None, None, None], sample_ready, [(sample_commit, sample_envelope_message, sample_token)])"
proof -
  have v: "mn_verifier sample_edge = createHmacMeshVerifier sample ''s''" by (simp add: sample_mesh_defs)
  have id: "mn_id sample_edge = ''edge''" "me_envelope_id sample_envelope_message = ''e1''" "ft_token_id sample_token = ''t1''"
    "ft_edge_id sample_token = ''edge''" "ft_envelope_id sample_token = ''e1''" "ft_expires_at sample_token = ''900''"
    "me_expires_at sample_envelope_message = ''900''" "me_subject sample_envelope_message = ''agent''"
    "me_allowed_action_types sample_envelope_message = [''pay'']"
    by (simp_all add: sample_mesh_defs sample_envelope_message_def sample_token_def issueEnvelope_def issueFluidityToken_def Let_def)
  let ?e1 = "sample_edge \<lparr> en_cachedEnvelopes := [(''e1'', sample_envelope_message)] \<rparr>"
  have "en_cachedEnvelopes sample_edge = []" "en_fluidityTokens sample_edge = []" "en_cachedRevocations sample_edge = []"
    by (simp_all add: sample_mesh_defs)
  note empty = this
  have s1: "snd (edge_handle (PROPAGATE_ENVELOPE sample_envelope_message) sample_edge) = ?e1"
    using sample_envelope_trusted[OF v] by (simp add: edge_handle_def keep_newer_def empty id)
  have s2: "snd (edge_handle (ISSUE_FLUIDITY_TOKEN sample_token) ?e1) = sample_ready"
    using sample_token_trusted[of ?e1] v by (simp add: edge_handle_def receiveFluidityToken_def id empty sample_ready_def)
  have "edge_check sample 200 sample_commit sample_ready = Inr (sample_envelope_message, sample_token)"
    by (simp add: edge_check_def sample_ready_def sample_commit_def id empty envelope_revoked_def valid_tokens_def sample_mesh_dates sample_def)
  with s1 s2 show ?thesis by (simp add: sample_asked_def)
qed

section \<open>Warrants\<close>

definition sample_finish :: edge_event where
  "sample_finish = Resume 0 False 250 ''w1'' ''250''"

abbreviation sample_mesh_warrant :: MeshWarrant where
  "sample_mesh_warrant \<equiv> edge_warrant sample ''w1'' ''250'' False sample_commit sample_envelope_message sample_token
     (sample_ready \<lparr> en_lastRootReachable := False \<rparr>)"

lemma sample_finish_step:
  assumes "e = sample_ready \<lparr> en_cachedRevocations := rs \<rparr>"
  shows "fst (mesh_edge_step sample sample_finish (e, [(sample_commit, sample_envelope_message, sample_token)])) = Some (CommitAllow sample_mesh_warrant)"
  by (simp add: assms sample_finish_def pingRoot_def edge_issue_def edge_warrant_def Let_def sample_ready_def sample_mesh_defs)

lemma sample_ready_revocations: "sample_ready \<lparr> en_cachedRevocations := [] \<rparr> = sample_ready"
  by (simp add: sample_ready_def sample_mesh_defs)

theorem mesh_warrant_authorised_witness:
  "fst (mesh_edge_run sample (sample_asked @ [sample_finish]) (sample_edge, [])) ! 3 = Some (CommitAllow sample_mesh_warrant) \<and>
   (\<exists>j < 3. \<exists>now req. (sample_asked @ [sample_finish]) ! j = Ask now req \<and> mw_envelope_id sample_mesh_warrant = cr_envelope_id req)"
proof -
  obtain d e ws where step: "mesh_edge_step sample sample_finish (sample_ready, [(sample_commit, sample_envelope_message, sample_token)]) = (d, e, ws)"
    by (metis prod_cases3)
  then have d: "d = Some (CommitAllow sample_mesh_warrant)" using sample_finish_step[of sample_ready "[]"] sample_ready_revocations by simp
  have run: "mesh_edge_run sample (sample_asked @ [sample_finish]) (sample_edge, []) = ([None, None, None, d], e, ws)"
    using sample_asked_run step by (simp add: edge_run_append)
  from mesh_warrant_authorised[OF run, of 3 sample_mesh_warrant] d run show ?thesis by (auto simp: sample_asked_def)
qed

theorem mesh_disconnected_quota_witness:
  "int (length (filter issues (fst (mesh_edge_run sample (sample_asked @ [sample_finish, Ask 260 sample_commit, sample_finish]) (sample_edge, []))))) \<le> 1"
proof -
  obtain ds e ws where run: "mesh_edge_run sample (sample_asked @ [sample_finish, Ask 260 sample_commit, sample_finish]) (sample_edge, []) = (ds, e, ws)"
    by (metis prod_cases3)
  have "disconnected (sample_asked @ [sample_finish, Ask 260 sample_commit, sample_finish])"
    by (simp add: disconnected_def sample_asked_def sample_finish_def)
  from mesh_disconnected_quota[OF run this] run show ?thesis by (simp add: sample_mesh_defs)
qed

section \<open>Revocations\<close>

lemma sample_trusts: "trusts (createHmacMeshVerifier sample ''s'') (createHmacMeshSigner sample i ''s'')"
  by (rule hmac_trusts)

lemma sample_revocation_built:
  "quorum_revocation (createHmacMeshSigner sample ''root'' ''s'') ''r1'' ''e1'' Envelope_target ''lost'' ''300'' (\<lambda>_. ''300'')
     ''root'' [createHmacMeshSigner sample ''wit'' ''s''] 1 = Inr sample_quorum_revocation"
proof -
  have "\<exists>r. quorum_revocation (createHmacMeshSigner sample ''root'' ''s'') ''r1'' ''e1'' Envelope_target ''lost'' ''300'' (\<lambda>_. ''300'')
     ''root'' [createHmacMeshSigner sample ''wit'' ''s''] 1 = Inr r"
    by (rule quorum_revocation_succeeds) simp_all
  moreover have "mn_signer sample_root = createHmacMeshSigner sample ''root'' ''s''" by (simp add: sample_root_def sample_node_def MeshNode.defs)
  ultimately show ?thesis by (auto simp: sample_quorum_revocation_def)
qed

lemma sample_revocation_accepted:
  assumes "mn_verifier e = createHmacMeshVerifier sample ''s''" "en_requireRevocationQuorum e \<le> 1"
  shows "revocation_trusted e sample_quorum_revocation" "\<not> quorum_missing e sample_quorum_revocation"
    and "rv_revocation_id sample_quorum_revocation = ''r1''" "rv_target_id sample_quorum_revocation = ''e1''"
    and "rv_kind sample_quorum_revocation = Envelope_target"
proof -
  have id: "sg_signerId (createHmacMeshSigner sample i ''s'') = i" for i by (simp add: createHmacMeshSigner_def)
  note built = sample_revocation_built
  note fields = quorum_revocation_root_signed[where S = "createHmacMeshSigner sample ''root'' ''s''", unfolded id, OF built sample_trusts[of "''root''", unfolded id]]
  have "1 \<le> int (countValidRevocationQuorum (createHmacMeshVerifier sample ''s'') sample_quorum_revocation)"
    by (rule quorum_revocation_valid[OF built]) (simp add: sample_trusts)
  then show "\<not> quorum_missing e sample_quorum_revocation" using assms by (simp add: quorum_missing_def)
  show "revocation_trusted e sample_quorum_revocation" using fields(1) assms(1) by (simp add: revocation_trusted_def)
  show "rv_revocation_id sample_quorum_revocation = ''r1''" "rv_target_id sample_quorum_revocation = ''e1''"
    "rv_kind sample_quorum_revocation = Envelope_target" using fields(2-4) by simp_all
qed

abbreviation sample_revoked :: EdgeNode where
  "sample_revoked \<equiv> sample_ready \<lparr> en_cachedRevocations := [(''r1'', sample_quorum_revocation)] \<rparr>"

lemma sample_gossip_step:
  "mesh_edge_step sample (Receive (GOSSIP_REVOCATION sample_quorum_revocation)) (sample_ready, ws) = (None, sample_revoked, ws)"
proof -
  have "mn_verifier sample_ready = createHmacMeshVerifier sample ''s''" "en_requireRevocationQuorum sample_ready \<le> 1"
    "en_cachedRevocations sample_ready = []"
    by (simp_all add: sample_ready_def sample_mesh_defs)
  with sample_revocation_accepted[OF this(1,2)] show ?thesis by (simp add: edge_handle_def)
qed

text \<open>The witness is also the race: the warrant is issued after the revocation is cached.\<close>

theorem mesh_revocation_enforced_witness:
  "fst (mesh_edge_run sample [sample_finish] (sample_revoked, [(sample_commit, sample_envelope_message, sample_token)]))
     = [Some (CommitAllow sample_mesh_warrant)] \<and>
   length (filter (issues_under ''e1'') [Some (CommitAllow sample_mesh_warrant)]) \<le> 1"
proof -
  let ?ws = "[(sample_commit, sample_envelope_message, sample_token)]"
  have before: "mesh_edge_run sample (sample_asked @ [Receive (GOSSIP_REVOCATION sample_quorum_revocation)]) (sample_edge, [])
      = ([None, None, None, None], sample_revoked, ?ws)"
    using sample_asked_run sample_gossip_step by (simp add: edge_run_append)
  obtain d e ws where step: "mesh_edge_step sample sample_finish (sample_revoked, ?ws) = (d, e, ws)" by (metis prod_cases3)
  then have d: "d = Some (CommitAllow sample_mesh_warrant)" using sample_finish_step[OF refl, of "[(''r1'', sample_quorum_revocation)]"] by simp
  have run: "mesh_edge_run sample [sample_finish] (sample_revoked, ?ws) = ([d], e, ws)" using step by simp
  have rv: "revokes ''r1'' ''e1'' sample_revoked"
    using sample_revocation_accepted(4,5)[of sample_edge] by (simp add: revokes_def sample_mesh_defs)
  have "id_kept ''r1'' ''e1'' [sample_finish]" by (simp add: id_kept_def sample_finish_def)
  from mesh_revocation_enforced[OF before rv run this] run d show ?thesis
    by (auto simp: waiting_for_def split: if_splits)
qed

theorem mesh_revocation_quorum_witness:
  "1 \<le> int (card (valid_witnesses (createHmacMeshVerifier sample ''s'') sample_quorum_revocation))"
proof -
  obtain ds e ws where run: "mesh_edge_run sample [Receive (GOSSIP_REVOCATION sample_quorum_revocation)] (sample_edge, []) = (ds, e, ws)"
    by (metis prod_cases3)
  have "mn_verifier sample_edge = createHmacMeshVerifier sample ''s''" "en_requireRevocationQuorum sample_edge \<le> 1"
    by (simp_all add: sample_mesh_defs)
  note acc = sample_revocation_accepted[OF this]
  have "(''r1'', sample_quorum_revocation) \<in> set (en_cachedRevocations e)"
    using run acc(1-3) by (auto simp: edge_handle_def) (simp add: sample_mesh_defs)
  from mesh_revocation_quorum[OF run this] show ?thesis by (simp add: sample_edge_node_def sample_node_def)
qed

abbreviation sample_mesh :: mesh where
  "sample_mesh \<equiv> [(''root'', Root_node sample_root), (''wit'', Witness_node sample_witness), (''edge'', Edge_node sample_edge)]"

theorem mesh_revocation_reaches_edge_witness:
  "''edge'' \<in> mn_partitions sample_root \<and>
   (\<exists>rv n' sends fuel m' e'. revokeWithQuorum ''r1'' ''300'' (\<lambda>_. ''300'') ''e1'' Envelope_target ''lost''
       [createHmacMeshSigner sample ''wit'' ''s''] 1 sample_root = Inr (rv, n', sends) \<and>
     gossipRevocation sample (\<lambda>_ _. Inl (MeshError [])) fuel ''root'' n' sends sample_mesh = Some m' \<and>
     map_of m' ''edge'' = Some (Edge_node e') \<and> edge_check sample 200 sample_commit e' \<noteq> Inr (sample_envelope_message, sample_token))"
proof -
  have id: "mn_id sample_root = ''root''" by (simp add: sample_root_def sample_node_def MeshNode.defs)
  have S: "mn_signer sample_root = createHmacMeshSigner sample ''root'' ''s''" "mn_verifier sample_edge = createHmacMeshVerifier sample ''s''"
    "mn_verifier sample_witness = createHmacMeshVerifier sample ''s''"
    by (simp_all add: sample_root_def sample_witness_def sample_edge_node_def sample_node_def new_edge_def MeshNode.defs)
  have wc: "well_configured sample_mesh" by (auto simp: well_configured_def sample_mesh_defs split: if_splits)
  have "gossip_path sample_mesh sample_root ''edge''"
    unfolding gossip_path_def id S
    by (rule bexI[of _ "sample_peer ''wit'' Witness_role"])
      (auto simp: link_def S sample_trusts, simp_all add: sample_mesh_defs)
  note reach = mesh_revocation_reaches_edge[of sample_mesh sample_root "''edge''" sample_edge "[createHmacMeshSigner sample ''wit'' ''s'']" 1
      "''r1''" "''300''" "\<lambda>_. ''300''" "''e1''" "''lost''" sample "\<lambda>_ _. Inl (MeshError [])", unfolded id, OF _ wc this]
  have "\<exists>rv n' sends fuel0. revokeWithQuorum ''r1'' ''300'' (\<lambda>_. ''300'') ''e1'' Envelope_target ''lost''
       [createHmacMeshSigner sample ''wit'' ''s''] 1 sample_root = Inr (rv, n', sends) \<and>
      (\<forall>fuel \<ge> fuel0. \<exists>m' e'. gossipRevocation sample (\<lambda>_ _. Inl (MeshError [])) fuel ''root'' n' sends sample_mesh = Some m' \<and>
         map_of m' ''edge'' = Some (Edge_node e') \<and> (\<forall>t req x. cr_envelope_id req = ''e1'' \<longrightarrow> edge_check sample t req e' \<noteq> Inr x))"
    by (rule reach) (simp_all add: S sample_trusts, simp_all add: createHmacMeshSigner_def sample_mesh_defs)
  moreover have "cr_envelope_id sample_commit = ''e1''" by (simp add: sample_commit_def)
  moreover have "''edge'' \<in> mn_partitions sample_root" by (simp add: sample_mesh_defs)
  ultimately show ?thesis by (metis order_refl)
qed

end
