(* ===== verification/Mesh_Binding.thy ===== *)
theory Mesh_Binding
  imports Mesh_Quorum
begin

text \<open>
  What a mesh signature binds.  The text that is signed determines the artifact: its kind and every field
  but the signature itself and, for a revocation, the witness signatures.  A signature is therefore not
  transferable between artifacts, nor between kinds of artifact, unless SHA-256 collides.
\<close>

datatype artifact =
    Signed_envelope MeshEnvelope
  | Signed_revocation MeshRevocation
  | Signed_token FluidityToken
  | Signed_warrant MeshWarrant
  | Cosigned_revocation MeshRevocation

fun artifact_payload :: "artifact \<Rightarrow> json" where
  "artifact_payload (Signed_envelope e) = envelope_payload e"
| "artifact_payload (Signed_revocation r) = revocation_payload r"
| "artifact_payload (Signed_token t) = token_payload t"
| "artifact_payload (Signed_warrant w) = warrant_payload w"
| "artifact_payload (Cosigned_revocation r) = cosign_payload r"

text \<open>Equality of everything the signature covers.\<close>

fun same_signed :: "artifact \<Rightarrow> artifact \<Rightarrow> bool" where
  "same_signed (Signed_envelope e) (Signed_envelope e') \<longleftrightarrow> e \<lparr> me_signature := [] \<rparr> = e' \<lparr> me_signature := [] \<rparr>"
| "same_signed (Signed_revocation r) (Signed_revocation r') \<longleftrightarrow>
     r \<lparr> rv_signing_quorum := None, rv_signature := [] \<rparr> = r' \<lparr> rv_signing_quorum := None, rv_signature := [] \<rparr>"
| "same_signed (Signed_token t) (Signed_token t') \<longleftrightarrow> t \<lparr> ft_signature := [] \<rparr> = t' \<lparr> ft_signature := [] \<rparr>"
| "same_signed (Signed_warrant w) (Signed_warrant w') \<longleftrightarrow> w \<lparr> mw_signature := [] \<rparr> = w' \<lparr> mw_signature := [] \<rparr>"
| "same_signed (Cosigned_revocation r) (Cosigned_revocation r') \<longleftrightarrow>
     rv_revocation_id r = rv_revocation_id r' \<and> rv_target_id r = rv_target_id r' \<and> rv_signature r = rv_signature r'"
| "same_signed _ _ = False"

text \<open>The numbers of an artifact are printed in positional notation.\<close>

fun artifact_plain :: "artifact \<Rightarrow> bool" where
  "artifact_plain (Signed_envelope e) = plain_number (me_version e)"
| "artifact_plain (Signed_token t) = plain_number (ft_max_revocation_age_ms t)"
| "artifact_plain _ = True"

section \<open>The text as the text of the sorted value\<close>

fun mesh_sort :: "json \<Rightarrow> json" where
  "mesh_sort (JArr vs) = JArr (map mesh_sort vs)"
| "mesh_sort (JObj es) = JObj (sort_entries utf16_le (map (\<lambda>(k, v). (k, mesh_sort v)) es))"
| "mesh_sort v = v"

lemma insert_entry_map: "insert_entry le (fst e, f (snd e)) (map (\<lambda>(k, v). (k, f v)) es) = map (\<lambda>(k, v). (k, f v)) (insert_entry le e es)"
  by (induction es) (auto simp: case_prod_beta)

lemma sort_entries_map: "sort_entries le (map (\<lambda>(k, v). (k, f v)) es) = map (\<lambda>(k, v). (k, f v)) (sort_entries le es)"
proof (induction es)
  case (Cons e es)
  then show ?case using insert_entry_map[of le e f "sort_entries le es"] by (cases e) simp
qed simp

lemma clean_mesh_sort: "clean_json v \<Longrightarrow> clean_json (mesh_sort v)"
  by (induction v rule: mesh_sort.induct) (auto simp: list_all_iff sort_entries_map set_sort_entries)

lemma mesh_text_sorted: "clean_json v \<Longrightarrow> mesh_stableStringify v = json_string (mesh_sort v)"
proof (induction v rule: mesh_sort.induct)
  case (1 vs)
  then have "map (\<lambda>v. if v = JUndef then [] else mesh_stableStringify v) vs = map (json_string \<circ> mesh_sort) vs"
    by (auto simp: list_all_iff)
  then show ?case by (simp only: mesh_stableStringify.simps mesh_sort.simps json_string.simps map_map)
next
  case (2 es)
  let ?s = "sort_entries utf16_le es"
  have clean: "\<forall>e \<in> set ?s. clean_json (snd e)" using 2(2) by (auto simp: list_all_iff set_sort_entries)
  then have keep: "filter (\<lambda>(k, v). v \<noteq> JUndef) (map (\<lambda>(k, v). (k, mesh_sort v)) ?s) = map (\<lambda>(k, v). (k, mesh_sort v)) ?s"
    by (intro clean_json_defined) (auto simp: list_all_iff intro!: clean_mesh_sort)
  have "mesh_stableStringify (snd e) = json_string (mesh_sort (snd e))" if "e \<in> set ?s" for e
    using 2(1)[of e "fst e" "snd e"] clean that by (auto simp: set_sort_entries)
  then have "map (\<lambda>(k, t). json_quote k @ '':'' @ t) (map (\<lambda>(k, v). (k, mesh_stableStringify v)) ?s)
      = map (\<lambda>(k, v). json_quote k @ '':'' @ json_string v) (map (\<lambda>(k, v). (k, mesh_sort v)) ?s)"
    by (auto simp: case_prod_beta)
  then show ?case by (simp only: mesh_stableStringify.simps mesh_sort.simps json_string.simps sort_entries_map keep)
qed auto

lemma mesh_text_inj:
  assumes "clean_json v" "clean_json w" "mesh_stableStringify v = mesh_stableStringify w"
  shows "mesh_sort v = mesh_sort w"
  using json_string_inj[OF clean_mesh_sort[OF assms(1)] clean_mesh_sort[OF assms(2)], of "[]" "[]"] assms
  by (simp add: mesh_text_sorted)

section \<open>Binding\<close>

lemma artifact_clean: "artifact_plain a \<Longrightarrow> clean_json (artifact_payload a)"
  by (cases a) (simp_all add: envelope_payload_def revocation_payload_def token_payload_def warrant_payload_def
      warrant_fields_def cosign_payload_def list_all_iff)

definition artifact_field :: "artifact \<Rightarrow> string \<Rightarrow> json" where
  "artifact_field a k = js_get (mesh_sort (artifact_payload a)) k"

lemmas payload_defs = envelope_payload_def revocation_payload_def token_payload_def warrant_payload_def
  warrant_fields_def cosign_payload_def

lemma obj_get_sorted:
  assumes "distinct (map fst es)"
  shows "js_get (mesh_sort (JObj es)) k = mesh_sort (obj_get es k)"
proof -
  have "distinct (map fst (map (\<lambda>(k, v). (k, mesh_sort v)) es))" using assms by (simp add: case_prod_beta comp_def)
  then have "map_of (sort_entries utf16_le (map (\<lambda>(k, v). (k, mesh_sort v)) es)) k = map_option mesh_sort (map_of es k)"
    by (simp add: map_of_sort_entries map_of_map)
  then show ?thesis by (simp add: obj_get_def split: option.split)
qed

lemma artifact_field_eq:
  "artifact_field a k = mesh_sort (js_get (artifact_payload a) k)"
  by (cases a) (simp_all add: artifact_field_def payload_defs obj_get_sorted del: mesh_sort.simps)

text \<open>One field that only the artifacts of a kind have.\<close>

fun kind_field :: "artifact \<Rightarrow> string" where
  "kind_field (Signed_envelope e) = ''mae_id''"
| "kind_field (Signed_revocation r) = ''reason''"
| "kind_field (Signed_token t) = ''token_id''"
| "kind_field (Signed_warrant w) = ''warrant_id''"
| "kind_field (Cosigned_revocation r) = ''root_signature''"

lemma kind_field_present: "artifact_field b (kind_field a) \<noteq> JUndef \<longleftrightarrow> kind_field a = kind_field b"
  by (cases a; cases b) (simp_all add: artifact_field_eq payload_defs js_simps)

lemma target_kind_name_inj: "target_kind_name k = target_kind_name k' \<longleftrightarrow> k = k'"
  by (cases k; cases k') simp_all

lemma same_fields_signed:
  assumes f: "\<And>k. artifact_field a k = artifact_field b k"
  shows "same_signed a b"
proof -
  have "kind_field a = kind_field b" using f kind_field_present[of b a] kind_field_present[of a a] by simp
  then consider (e) e e' where "a = Signed_envelope e" "b = Signed_envelope e'"
    | (r) r r' where "a = Signed_revocation r" "b = Signed_revocation r'"
    | (t) t t' where "a = Signed_token t" "b = Signed_token t'"
    | (w) w w' where "a = Signed_warrant w" "b = Signed_warrant w'"
    | (c) r r' where "a = Cosigned_revocation r" "b = Cosigned_revocation r'"
    by (cases a; cases b) auto
  then show ?thesis
  proof cases
    case e
    have "map (mesh_sort \<circ> JStr) (me_allowed_action_types e) = map (mesh_sort \<circ> JStr) (me_allowed_action_types e')"
      using f[of "''allowed_action_types''"] by (simp add: e artifact_field_eq envelope_payload_def js_simps)
    then have "me_allowed_action_types e = me_allowed_action_types e'" by (simp add: inj_map_eq_map inj_def)
    then show ?thesis
      using f[of "''envelope_id''"] f[of "''mae_id''"] f[of "''ward_id''"] f[of "''subject''"] f[of "''expires_at''"]
        f[of "''version''"] f[of "''issued_by''"] f[of "''issued_at''"]
      by (simp add: e artifact_field_eq envelope_payload_def js_simps)
  next
    case r
    show ?thesis
      using f[of "''revocation_id''"] f[of "''target_id''"] f[of "''kind''"] f[of "''reason''"] f[of "''revoked_at''"]
        f[of "''issued_by''"]
      by (simp add: r artifact_field_eq revocation_payload_def js_simps target_kind_name_inj)
  next
    case t
    show ?thesis
      using f[of "''token_id''"] f[of "''edge_id''"] f[of "''envelope_id''"] f[of "''expires_at''"] f[of "''issued_at''"]
        f[of "''issued_by''"] f[of "''max_revocation_age_ms''"]
      by (simp add: t artifact_field_eq token_payload_def js_simps)
  next
    case w
    show ?thesis
      using f[of "''warrant_id''"] f[of "''envelope_id''"] f[of "''action_type''"] f[of "''action_hash''"]
        f[of "''issued_by_edge''"] f[of "''issued_at''"] f[of "''under_fluidity_token''"] f[of "''root_reachable_at_issue''"]
      by (simp add: w artifact_field_eq warrant_payload_def warrant_fields_def js_simps)
  next
    case c
    show ?thesis
      using f[of "''revocation_id''"] f[of "''target_id''"] f[of "''root_signature''"]
      by (simp add: c artifact_field_eq cosign_payload_def js_simps)
  qed
qed

lemma artifact_text_binds:
  assumes "artifact_plain a" "artifact_plain b"
    and "mesh_stableStringify (artifact_payload a) = mesh_stableStringify (artifact_payload b)"
  shows "same_signed a b"
  using mesh_text_inj[OF artifact_clean[OF assms(1)] artifact_clean[OF assms(2)] assms(3)]
  by (intro same_fields_signed) (simp add: artifact_field_def)

text \<open>
  a shared-secret signature binds its artifact.  When the signature of one artifact verifies for
  another, the two are of the same kind and agree on everything that is signed, the fields of an
  envelope, token, warrant or revocation but the signature and the co-signatures, or the identifier,
  target and root signature of a co-signed revocation; or else the two signed texts collide under SHA-256.
\<close>

theorem mesh_signature_binds:
  assumes "verify P secret (artifact_payload b) (sign P secret (artifact_payload a))" "artifact_plain a" "artifact_plain b"
  shows "same_signed a b \<or>
    sha256_collision P (secret @ '':'' @ mesh_stableStringify (artifact_payload b))
      (secret @ '':'' @ mesh_stableStringify (artifact_payload a))"
  using assms artifact_text_binds[OF assms(2,3)] by (auto simp: verify_def sign_def dest!: sha256_eqD)

definition sample_mesh_envelope :: MeshEnvelope where
  "sample_mesh_envelope = \<lparr> me_envelope_id = ''e1'', me_mae_id = ''mae'', me_ward_id = ''w1'', me_subject = ''agent'',
     me_allowed_action_types = [''pay''], me_expires_at = ''900'', me_version = 1, me_issued_by = ''root'',
     me_issued_at = ''100'', me_signature = [] \<rparr>"

theorem mesh_signature_binds_witness:
  "\<not> verify sample ''s'' (artifact_payload (Signed_envelope (sample_mesh_envelope \<lparr> me_subject := ''mallory'' \<rparr>)))
       (sign sample ''s'' (artifact_payload (Signed_envelope sample_mesh_envelope)))"
proof -
  have "plain_number 1" by code_simp
  then show ?thesis
    using mesh_signature_binds[of sample "''s''" "Signed_envelope (sample_mesh_envelope \<lparr> me_subject := ''mallory'' \<rparr>)"
        "Signed_envelope sample_mesh_envelope"]
    by (auto simp: sample_mesh_envelope_def sha256_collision_def sample_def)
qed

end
