(* ===== verification/Policy_Lexer.thy ===== *)
theory Policy_Lexer
  imports Yaml
begin

text \<open>
  The tokenizer of the policy language (\<open>execution-control-runtime/src/policy-dsl.ts\<close>).  The source is
  read from the characters that remain instead of an index into it; the position of a token counts
  lines and UTF-16 columns as \<open>advance\<close> does.  The lexical grammar is the inductive relation \<open>spells\<close>,
  and the tokenizer accepts exactly the texts it derives, with exactly the tokens it gives them.

  In the message about an unexpected character outside the Basic Multilingual Plane the model quotes the
  character and the code its first surrogate.
\<close>

section \<open>Tokens\<close>

datatype TokenType = T_ident | T_string | T_number | T_punct | T_eof

primrec type_name :: "TokenType \<Rightarrow> string" where
  "type_name T_ident = ''ident''"
| "type_name T_string = ''string''"
| "type_name T_number = ''number''"
| "type_name T_punct = ''punct''"
| "type_name T_eof = ''eof''"

record Token =
  tk_type :: TokenType
  tk_value :: string
  tk_line :: nat
  tk_column :: nat

type_synonym lexeme = "TokenType \<times> string"

definition lexeme_of :: "Token \<Rightarrow> lexeme" where
  "lexeme_of t = (tk_type t, tk_value t)"

section \<open>Characters\<close>

abbreviation newline :: char where "newline \<equiv> CHR 0x0A"
abbreviation dquote :: char where "dquote \<equiv> CHR 0x22"

definition is_blank :: "char \<Rightarrow> bool" where
  "is_blank c \<longleftrightarrow> c = newline \<or> c = CHR '' '' \<or> c = CHR 0x09 \<or> c = CHR 0x0D"

text \<open>\<open>/[A-Za-z0-9_.:/-]/\<close>.\<close>

definition IDENT_CHAR :: "char \<Rightarrow> bool" where
  "IDENT_CHAR c \<longleftrightarrow> 65 \<le> code c \<and> code c \<le> 90 \<or> 97 \<le> code c \<and> code c \<le> 122 \<or> 48 \<le> code c \<and> code c \<le> 57 \<or>
     code c \<in> {95, 46, 58, 47, 45}"

definition PUNCT2 :: "string list" where
  "PUNCT2 = [''<='', ''>='']"

definition PUNCT1 :: string where
  "PUNCT1 = ''{},<>=''"

text \<open>The character a text starts with, as the bytes of its encoding.\<close>

definition first_char :: "string \<Rightarrow> string" where
  "first_char s = (let a = code (hd s) in take (if a < 0x80 then 1 else if a < 0xE0 then 2 else if a < 0xF0 then 3 else 4) s)"

text \<open>
  \<open>/^-?[0-9]+(\.[0-9]+)?(?=$|[\s,{}<>=#])/.exec(rest)\<close>: the length of the match.  Nothing shorter can be
  followed by a delimiter, so the greedy match is the only candidate.
\<close>

definition delimits :: "string \<Rightarrow> bool" where
  "delimits s \<longleftrightarrow> s = [] \<or> ws_prefix s > 0 \<or> hd s \<in> set '',{}<>=#''"

definition number_length :: "string \<Rightarrow> nat" where
  "number_length s =
     (let sign = (if s \<noteq> [] \<and> hd s = CHR ''-'' then 1 else 0); body = drop sign s;
          whole = takeWhile is_digit body; rest = dropWhile is_digit body;
          fraction = (case rest of d # ds \<Rightarrow> if d = CHR ''.'' \<and> takeWhile is_digit ds \<noteq> [] then d # takeWhile is_digit ds else [] | [] \<Rightarrow> [])
      in if whole = [] then 0 else sign + length whole + length fraction)"

definition number_match :: "string \<Rightarrow> nat option" where
  "number_match s = (let n = number_length s in if n > 0 \<and> delimits (drop n s) then Some n else None)"

definition starts_number :: "string \<Rightarrow> bool" where
  "starts_number s \<longleftrightarrow> (case s of c # cs \<Rightarrow> is_digit c \<or> c = CHR ''-'' \<and> cs \<noteq> [] \<and> is_digit (hd cs) | [] \<Rightarrow> False)"

section \<open>The tokenizer\<close>

text \<open>
  One round of the loop: the lexeme it pushes, none for white space and comments, and how many
  characters it consumes; or the message it throws at the position where the round started.
\<close>

definition scan :: "string \<Rightarrow> string + lexeme option \<times> nat" where
  "scan s =
     (let ch = hd s; two = take 2 s
      in if is_blank ch then Inr (None, 1)
         else if ch = CHR ''#'' then Inr (None, length (takeWhile (\<lambda>c. c \<noteq> newline) s))
         else if ch = dquote then
           (let inside = (\<lambda>c. c \<noteq> dquote \<and> c \<noteq> newline); value = takeWhile inside (tl s)
            in case dropWhile inside (tl s) of
                 c # _ \<Rightarrow> if c = dquote then Inr (Some (T_string, value), length value + 2) else Inl ''unterminated string''
               | [] \<Rightarrow> Inl ''unterminated string'')
         else if two \<in> set PUNCT2 then Inr (Some (T_punct, two), 2)
         else if ch \<in> set PUNCT1 then Inr (Some (T_punct, [ch]), 1)
         else case (if starts_number s then number_match s else None) of
           Some n \<Rightarrow> Inr (Some (T_number, take n s), n)
         | None \<Rightarrow>
             if IDENT_CHAR ch then (let value = takeWhile IDENT_CHAR s in Inr (Some (T_ident, value), length value))
             else Inl (''unexpected character '' @ [CHR 0x27] @ first_char s @ [CHR 0x27]))"

text \<open>The position after a character: a new line, or as many columns as it has UTF-16 units.\<close>

definition advance_char :: "char \<Rightarrow> nat \<times> nat \<Rightarrow> nat \<times> nat" where
  "advance_char c p = (if c = newline then (Suc (fst p), 1) else (fst p, snd p + utf16_length [c]))"

definition advance :: "string \<Rightarrow> nat \<times> nat \<Rightarrow> nat \<times> nat" where
  "advance used p = fold advance_char used p"

definition lexeme_tokens :: "lexeme option \<Rightarrow> nat \<times> nat \<Rightarrow> Token list" where
  "lexeme_tokens lx p = (case lx of None \<Rightarrow> []
     | Some (ty, v) \<Rightarrow> [\<lparr> tk_type = ty, tk_value = v, tk_line = fst p, tk_column = snd p \<rparr>])"

lemma scan_progress: "s \<noteq> [] \<Longrightarrow> scan s = Inr (lx, n) \<Longrightarrow> 0 < n"
  by (auto simp: scan_def Let_def number_match_def takeWhile_eq_Nil_iff split: if_splits list.splits option.splits)

function tokenize_from :: "nat \<times> nat \<Rightarrow> string \<Rightarrow> Token list result" where
  "tokenize_from p s =
     (if s = [] then Inr [\<lparr> tk_type = T_eof, tk_value = [], tk_line = fst p, tk_column = snd p \<rparr>]
      else case scan s of
        Inl message \<Rightarrow> Inl (PolicyError message (fst p) (snd p))
      | Inr (lx, n) \<Rightarrow> bind_result (tokenize_from (advance (take n s) p) (drop n s)) (\<lambda>ts. Inr (lexeme_tokens lx p @ ts)))"
  by auto
termination by (relation "measure (length \<circ> snd)") (use scan_progress in fastforce)+

declare tokenize_from.simps [simp del]

definition tokenize :: "string \<Rightarrow> Token list result" where
  "tokenize source = tokenize_from (1, 1) source"

section \<open>The lexical grammar\<close>

fun lexeme_text :: "lexeme \<Rightarrow> string" where
  "lexeme_text (T_string, v) = dquote # v @ [dquote]"
| "lexeme_text (_, v) = v"

text \<open>
  A lexeme may be written before a text: an identifier that does not go on there and is not the
  number the text would show, a decimal number that is delimited, an operator that \<open>=\<close> does not extend.
\<close>

definition is_identifier :: "string \<Rightarrow> bool" where
  "is_identifier v \<longleftrightarrow> v \<noteq> [] \<and> list_all IDENT_CHAR v"

fun lexeme_fits :: "lexeme \<Rightarrow> string \<Rightarrow> bool" where
  "lexeme_fits (T_ident, v) s \<longleftrightarrow> is_identifier v \<and> (s = [] \<or> \<not> IDENT_CHAR (hd s)) \<and> \<not> (decimal_text v \<noteq> None \<and> delimits s)"
| "lexeme_fits (T_string, v) s \<longleftrightarrow> list_all (\<lambda>c. c \<noteq> dquote \<and> c \<noteq> newline) v"
| "lexeme_fits (T_number, v) s \<longleftrightarrow> decimal_text v \<noteq> None \<and> delimits s"
| "lexeme_fits (T_punct, v) s \<longleftrightarrow> v \<in> set PUNCT2 \<or> v \<in> (\<lambda>c. [c]) ` set PUNCT1 \<and> take 2 (v @ s) \<notin> set PUNCT2"
| "lexeme_fits (T_eof, v) s \<longleftrightarrow> False"

inductive spells :: "lexeme list \<Rightarrow> string \<Rightarrow> bool" where
  spells_end: "spells [] []"
| spells_blank: "is_blank c \<Longrightarrow> spells ls s \<Longrightarrow> spells ls (c # s)"
| spells_comment: "list_all (\<lambda>c. c \<noteq> newline) remark \<Longrightarrow> s = [] \<or> hd s = newline \<Longrightarrow> spells ls s \<Longrightarrow> spells ls (CHR ''#'' # remark @ s)"
| spells_lexeme: "lexeme_fits l s \<Longrightarrow> spells ls s \<Longrightarrow> spells (l # ls) (lexeme_text l @ s)"

section \<open>Characters of identifiers and numbers\<close>

lemma is_digit_code: "is_digit c \<longleftrightarrow> 48 \<le> code c \<and> code c \<le> 57"
  by (simp add: is_digit_def code_def)

lemma ws_bytes_ascii: "33 \<le> a \<Longrightarrow> a < 0x80 \<Longrightarrow> ws_bytes (a # as) = 0"
  by (cases as; cases "tl as") simp_all

lemma ident_char_ws:
  assumes "IDENT_CHAR c"
  shows "ws_prefix (c # s) = 0"
proof -
  from assms have "33 \<le> code c" "code c < 0x80" by (auto simp: IDENT_CHAR_def)
  then show ?thesis by (simp add: ws_prefix_def ws_bytes_ascii)
qed

lemma not_ident_chars: "list_all (\<lambda>c. \<not> IDENT_CHAR c) ([newline, CHR 0x09, CHR 0x0D, dquote] @ '' #,{}<>='')"
  by (simp add: IDENT_CHAR_def code_def)

lemma ident_char_plain:
  assumes "IDENT_CHAR c"
  shows "\<not> is_blank c" "c \<noteq> CHR ''#''" "c \<noteq> dquote" "c \<notin> set PUNCT1" "take 2 (c # s) \<notin> set PUNCT2" "\<not> delimits (c # s)"
proof -
  have no: "c \<notin> set ([newline, CHR 0x09, CHR 0x0D, dquote] @ '' #,{}<>='')"
    using assms not_ident_chars by (auto simp: list_all_iff)
  then show "\<not> is_blank c" "c \<noteq> CHR ''#''" "c \<noteq> dquote" "c \<notin> set PUNCT1" "take 2 (c # s) \<notin> set PUNCT2"
    by (auto simp: is_blank_def PUNCT1_def PUNCT2_def)
  show "\<not> delimits (c # s)" using no ident_char_ws[OF assms, of s] by (auto simp: delimits_def)
qed

text \<open>Where a number stops no digit and no point follows.\<close>

lemma delimits_stop: "delimits s \<Longrightarrow> s \<noteq> [] \<Longrightarrow> \<not> IDENT_CHAR (hd s)"
  using ident_char_plain(6) by (cases s) auto

lemma digit_ident: "is_digit c \<Longrightarrow> IDENT_CHAR c"
  by (simp add: is_digit_code IDENT_CHAR_def)

lemma point_sign_ident: "IDENT_CHAR (CHR ''.'')" "IDENT_CHAR (CHR ''-'')"
  by (simp_all add: IDENT_CHAR_def code_def)

section \<open>Numbers\<close>

definition decimal_parts :: "string \<Rightarrow> string \<Rightarrow> string \<Rightarrow> bool" where
  "decimal_parts sg w f \<longleftrightarrow> sg \<in> {[], ''-''} \<and> w \<noteq> [] \<and> list_all is_digit w \<and>
     (f = [] \<or> (\<exists>ds. f = CHR ''.'' # ds \<and> ds \<noteq> [] \<and> list_all is_digit ds))"

lemma takeWhile_all: "list_all P w \<Longrightarrow> takeWhile P (w @ s) = w @ takeWhile P s" "list_all P w \<Longrightarrow> dropWhile P (w @ s) = dropWhile P s"
  by (simp_all add: list_all_iff takeWhile_append2 dropWhile_append2)

lemma takeWhile_all_id: "list_all P w \<Longrightarrow> takeWhile P w = w" "list_all P w \<Longrightarrow> dropWhile P w = []"
  using takeWhile_all[of P w "[]"] by simp_all

lemma takeWhile_stop: "s = [] \<or> \<not> P (hd s) \<Longrightarrow> takeWhile P s = []" "s = [] \<or> \<not> P (hd s) \<Longrightarrow> dropWhile P s = s"
  by (cases s; simp)+

lemma digit_not_sign: "list_all is_digit w \<Longrightarrow> w \<noteq> [] \<Longrightarrow> hd (w @ s) \<noteq> CHR ''-''"
  by (cases w) (auto simp: is_digit_code code_def)

lemma decimal_text_parts: "decimal_text v \<noteq> None \<longleftrightarrow> (\<exists>sg w f. v = sg @ w @ f \<and> decimal_parts sg w f)"
proof
  assume v: "decimal_text v \<noteq> None"
  define sg where "sg = (if v \<noteq> [] \<and> hd v = CHR ''-'' then ''-'' else [])"
  define body where "body = (if v \<noteq> [] \<and> hd v = CHR ''-'' then tl v else v)"
  have "v = sg @ takeWhile is_digit body @ dropWhile is_digit body"
    by (cases v) (auto simp: sg_def body_def)
  moreover have "decimal_parts sg (takeWhile is_digit body) (dropWhile is_digit body)"
    using v set_takeWhileD[of _ is_digit body]
    by (auto simp: decimal_parts_def decimal_text_def Let_def sg_def body_def list_all_iff split: if_splits list.splits)
  ultimately show "\<exists>sg w f. v = sg @ w @ f \<and> decimal_parts sg w f" by blast
next
  assume "\<exists>sg w f. v = sg @ w @ f \<and> decimal_parts sg w f"
  then obtain sg w f where v: "v = sg @ w @ f" and p: "decimal_parts sg w f" by blast
  from p have f: "f = [] \<or> \<not> is_digit (hd f)" by (auto simp: decimal_parts_def is_digit_code code_def)
  from p have "w \<noteq> []" "list_all is_digit w" "sg = [] \<or> sg = ''-''" by (auto simp: decimal_parts_def)
  with digit_not_sign[of w f] have "(if v \<noteq> [] \<and> hd v = CHR ''-'' then tl v else v) = w @ f"
    by (auto simp: v)
  with p f show "decimal_text v \<noteq> None"
    by (auto simp: decimal_text_def Let_def takeWhile_all takeWhile_stop decimal_parts_def split: list.splits)
qed

lemma decimal_text_ident: "decimal_text v \<noteq> None \<Longrightarrow> is_identifier v"
  unfolding decimal_text_parts is_identifier_def
  by (auto simp: decimal_parts_def list_all_iff digit_ident point_sign_ident)

lemma decimal_starts_number: "decimal_text v \<noteq> None \<Longrightarrow> starts_number (v @ s)"
  unfolding decimal_text_parts
  by (auto simp: decimal_parts_def starts_number_def list_all_iff hd_append neq_Nil_conv split: list.splits)

lemma number_length_parts:
  assumes "decimal_parts sg w f" "s = [] \<or> \<not> IDENT_CHAR (hd s)"
  shows "number_length (sg @ w @ f @ s) = length (sg @ w @ f)"
proof -
  have sd: "s = [] \<or> \<not> is_digit (hd s)" using assms(2) digit_ident by blast
  have w: "w \<noteq> []" "list_all is_digit w" "sg = [] \<or> sg = ''-''" using assms(1) by (auto simp: decimal_parts_def)
  have fs: "f @ s = [] \<or> \<not> is_digit (hd (f @ s))"
    using assms(1) sd by (auto simp: decimal_parts_def is_digit_code code_def)
  have sign: "drop (if sg @ w @ f @ s \<noteq> [] \<and> hd (sg @ w @ f @ s) = CHR ''-'' then 1 else 0) (sg @ w @ f @ s) = w @ f @ s"
    "(if sg @ w @ f @ s \<noteq> [] \<and> hd (sg @ w @ f @ s) = CHR ''-'' then 1 else 0) = length sg"
    using w digit_not_sign[of w "f @ s"] by auto
  have "s \<noteq> [] \<Longrightarrow> hd s \<noteq> CHR ''.''" using assms(2) point_sign_ident by auto
  then have "(case f @ s of d # ds \<Rightarrow> if d = CHR ''.'' \<and> takeWhile is_digit ds \<noteq> [] then d # takeWhile is_digit ds else [] | [] \<Rightarrow> []) = f"
    using assms(1) sd by (cases f; cases s) (auto simp: decimal_parts_def takeWhile_all takeWhile_all_id takeWhile_stop)
  then show ?thesis
    unfolding number_length_def Let_def sign using w(1,2) fs by (simp add: takeWhile_all takeWhile_stop)
qed

lemma number_match_complete:
  assumes "decimal_text v \<noteq> None" "delimits s"
  shows "number_match (v @ s) = Some (length v)"
proof -
  obtain sg w f where v: "v = sg @ w @ f" "decimal_parts sg w f" using assms(1) unfolding decimal_text_parts by blast
  then have "number_length (v @ s) = length v" using number_length_parts[OF v(2), of s] delimits_stop[OF assms(2)] by auto
  with assms(2) v show ?thesis by (auto simp: number_match_def decimal_parts_def)
qed

lemma number_match_sound:
  assumes "number_match s = Some n"
  shows "decimal_text (take n s) \<noteq> None \<and> delimits (drop n s) \<and> 0 < n \<and> n \<le> length s"
proof -
  define sg where "sg = (if s \<noteq> [] \<and> hd s = CHR ''-'' then ''-'' else [])"
  define w where "w = takeWhile is_digit (drop (length sg) s)"
  define r where "r = dropWhile is_digit (drop (length sg) s)"
  define f where "f = (case r of d # ds \<Rightarrow> if d = CHR ''.'' \<and> takeWhile is_digit ds \<noteq> [] then d # takeWhile is_digit ds else [] | [] \<Rightarrow> [])"
  have len: "length sg = (if s \<noteq> [] \<and> hd s = CHR ''-'' then 1 else 0)" by (simp add: sg_def)
  have n: "number_length s = (if w = [] then 0 else length sg + length w + length f)"
    by (simp only: number_length_def Let_def w_def r_def f_def len)
  have "s = sg @ drop (length sg) s" by (cases s) (auto simp: sg_def)
  moreover have "drop (length sg) s = w @ r" by (simp add: w_def r_def)
  moreover have "r = f @ drop (length f) r"
    by (cases r) (auto simp: f_def, metis append_eq_conv_conj takeWhile_dropWhile_id)
  ultimately have s: "s = sg @ w @ f @ drop (length f) r" by metis
  from assms n have w: "w \<noteq> []" "n = length (sg @ w @ f)" and d: "delimits (drop n s)"
    by (auto simp: number_match_def Let_def split: if_splits)
  have "list_all is_digit w" "list_all is_digit (takeWhile is_digit ds)" for ds
    by (auto simp: w_def list_all_iff dest: set_takeWhileD)
  with w have "decimal_parts sg w f"
    by (auto simp: decimal_parts_def sg_def f_def split: list.splits if_splits)
  moreover have "take n s = sg @ w @ f" by (subst s) (simp add: w(2))
  moreover have "n \<le> length s" by (subst s) (simp add: w(2))
  ultimately show ?thesis using d w decimal_text_parts by auto
qed

section \<open>The tokenizer reads the lexical grammar\<close>

text \<open>An identifier is never taken for the number it starts like.\<close>

lemma ident_not_number:
  assumes "lexeme_fits (T_ident, v) s"
  shows "number_match (v @ s) = None"
proof (rule ccontr)
  assume "number_match (v @ s) \<noteq> None"
  then obtain n where n: "number_match (v @ s) = Some n" by blast
  note d = number_match_sound[OF n]
  have v: "v \<noteq> []" "list_all IDENT_CHAR v" "s = [] \<or> \<not> IDENT_CHAR (hd s)" using assms by (auto simp: is_identifier_def)
  have chars: "list_all IDENT_CHAR (take n (v @ s))"
    using d decimal_text_ident[of "take n (v @ s)"] by (simp add: is_identifier_def)
  consider "n < length v" | "n = length v" | "n > length v" "s \<noteq> []" using d by (cases s) force+
  then show False
  proof cases
    case 1
    then have "drop n (v @ s) = (v ! n) # drop (Suc n) (v @ s)" by (simp add: Cons_nth_drop_Suc nth_append flip: Cons_nth_drop_Suc)
    with d 1 v(2) ident_char_plain(6) show False by (metis list_all_length)
  next
    case 2
    with d assms show False by simp
  next
    case 3
    then have "hd s \<in> set (take n (v @ s))" by (cases s; cases "n - length v") auto
    with chars v(3) 3 show False by (auto simp: list_all_iff)
  qed
qed

lemma scan_plain:
  assumes "IDENT_CHAR c"
  shows "scan (c # cs) = (case (if starts_number (c # cs) then number_match (c # cs) else None) of
       Some n \<Rightarrow> Inr (Some (T_number, take n (c # cs)), n)
     | None \<Rightarrow> Inr (Some (T_ident, takeWhile IDENT_CHAR (c # cs)), length (takeWhile IDENT_CHAR (c # cs))))"
  using ident_char_plain(1-4)[OF assms] ident_char_plain(5)[OF assms, of cs] assms
  by (simp add: scan_def Let_def split: option.split)

lemma scan_blank: "is_blank c \<Longrightarrow> scan (c # s) = Inr (None, 1)"
  by (simp add: scan_def)

lemma scan_comment:
  assumes "list_all (\<lambda>c. c \<noteq> newline) remark" "s = [] \<or> hd s = newline"
  shows "scan (CHR ''#'' # remark @ s) = Inr (None, Suc (length remark))"
  using assms by (simp add: scan_def is_blank_def takeWhile_all takeWhile_stop)

lemma scan_string:
  "list_all (\<lambda>c. c \<noteq> dquote \<and> c \<noteq> newline) v \<Longrightarrow> scan (dquote # v @ dquote # s) = Inr (Some (T_string, v), length v + 2)"
  by (simp add: scan_def is_blank_def Let_def takeWhile_all)

lemma punct_plain: "list_all (\<lambda>c. \<not> is_blank c \<and> c \<noteq> CHR ''#'' \<and> c \<noteq> dquote) PUNCT1"
  by (simp add: PUNCT1_def is_blank_def)

lemma PUNCT2_plain: "v \<in> set PUNCT2 \<Longrightarrow> take 2 (v @ s) = v \<and> hd (v @ s) \<in> set PUNCT1 \<and> v \<noteq> []"
  by (auto simp: PUNCT2_def PUNCT1_def)

lemma scan_punct:
  assumes "lexeme_fits (T_punct, v) s"
  shows "scan (v @ s) = Inr (Some (T_punct, v), length v)"
proof (cases "v \<in> set PUNCT2")
  case True
  note p = PUNCT2_plain[OF True, of s]
  then have "\<not> is_blank (hd (v @ s)) \<and> hd (v @ s) \<noteq> CHR ''#'' \<and> hd (v @ s) \<noteq> dquote"
    using punct_plain[unfolded list_all_iff] by blast
  moreover have "length v = 2" using True by (auto simp: PUNCT2_def)
  ultimately show ?thesis using p True by (simp add: scan_def Let_def del: hd_append2)
next
  case False
  with assms obtain c where c: "v = [c]" "c \<in> set PUNCT1" "take 2 (c # s) \<notin> set PUNCT2" by auto
  then have "\<not> is_blank c" "c \<noteq> CHR ''#''" "c \<noteq> dquote" using punct_plain by (auto simp: list_all_iff)
  with c show ?thesis by (simp add: scan_def Let_def)
qed

lemma scan_lexeme:
  assumes "lexeme_fits l s"
  shows "scan (lexeme_text l @ s) = Inr (Some l, length (lexeme_text l))"
proof -
  obtain ty v where l: "l = (ty, v)" by (cases l)
  have plain: ?thesis if ty: "ty = T_ident \<or> ty = T_number"
  proof -
    have "is_identifier v" using assms ty decimal_text_ident by (auto simp: l)
    then obtain c cs where v: "v = c # cs" "IDENT_CHAR c" "list_all IDENT_CHAR cs" by (cases v) (auto simp: is_identifier_def)
    have "number_match (v @ s) = (if ty = T_number then Some (length v) else None)"
      "ty = T_number \<Longrightarrow> starts_number (v @ s)" "ty = T_ident \<Longrightarrow> takeWhile IDENT_CHAR (v @ s) = v"
      using assms ty ident_not_number[of v s] number_match_complete[of v s] decimal_starts_number[of v s] v
      by (auto simp: l takeWhile_all takeWhile_stop)
    then show ?thesis using ty scan_plain[OF v(2), of "cs @ s"] by (auto simp: l v(1))
  qed
  show ?thesis
    using assms plain scan_string[of v s] scan_punct[of v s] by (cases ty) (auto simp: l)
qed

lemma scan_sound:
  assumes "s \<noteq> []" "scan s = Inr (lx, n)" "spells ls (drop n s)"
  shows "spells (case lx of None \<Rightarrow> ls | Some l \<Rightarrow> l # ls) s"
proof -
  obtain c cs where s: "s = c # cs" using assms(1) by (cases s) auto
  have lex: "spells (l # ls) s" if "s = lexeme_text l @ drop n s" "lexeme_fits l (drop n s)" for l
    using spells_lexeme[OF that(2) assms(3)] that(1) by simp
  consider "is_blank c" | "\<not> is_blank c" "c = CHR ''#''" | "c = dquote" | "IDENT_CHAR c"
    | "\<not> is_blank c" "c \<noteq> CHR ''#''" "c \<noteq> dquote" "\<not> IDENT_CHAR c" by blast
  then show ?thesis
  proof cases
    case 1
    with assms(2) have "lx = None" "n = 1" by (simp_all add: s scan_blank)
    with assms(3) 1 spells_blank show ?thesis by (simp add: s)
  next
    case 2
    let ?remark = "takeWhile (\<lambda>c. c \<noteq> newline) cs"
    have lx: "lx = None" "n = Suc (length ?remark)" using assms(2) 2 by (simp_all add: s scan_def)
    then have "drop n s = dropWhile (\<lambda>c. c \<noteq> newline) cs" by (simp add: s dropWhile_eq_drop)
    moreover have "cs = ?remark @ dropWhile (\<lambda>c. c \<noteq> newline) cs" by simp
    moreover have "dropWhile (\<lambda>c. c \<noteq> newline) cs = [] \<or> hd (dropWhile (\<lambda>c. c \<noteq> newline) cs) = newline"
      using hd_dropWhile[of "\<lambda>c. c \<noteq> newline" cs] by auto
    ultimately show ?thesis
      using spells_comment[of ?remark "drop n s" ls] assms(3) 2 lx(1) by (simp add: s list_all_iff) (metis set_takeWhileD)
  next
    case 3
    let ?in = "\<lambda>c. c \<noteq> dquote \<and> c \<noteq> newline"
    obtain r where r: "dropWhile ?in cs = dquote # r" "lx = Some (T_string, takeWhile ?in cs)" "n = length (takeWhile ?in cs) + 2"
      using assms(2) 3 by (auto simp: s scan_def Let_def is_blank_def split: list.splits if_splits)
    have cs: "cs = takeWhile ?in cs @ dquote # r" using r(1) takeWhile_dropWhile_id[of ?in cs] by simp
    have "drop n s = r" using arg_cong[OF cs, of "drop (Suc (length (takeWhile ?in cs)))"] by (simp add: s r(3))
    moreover have "dquote # cs = lexeme_text (T_string, takeWhile ?in cs) @ r"
      unfolding lexeme_text.simps append_Cons append_assoc append_Nil by (rule arg_cong[OF cs])
    moreover have "lexeme_fits (T_string, takeWhile ?in cs) r" by (auto simp: list_all_iff dest: set_takeWhileD)
    ultimately show ?thesis using lex[of "(T_string, takeWhile ?in cs)"] unfolding s r(2) 3 by simp
  next
    case 4
    show ?thesis
    proof (cases "if starts_number s then number_match s else None")
      case None
      let ?v = "takeWhile IDENT_CHAR s" and ?r = "dropWhile IDENT_CHAR s"
      have lx: "lx = Some (T_ident, ?v)" "n = length ?v" using assms(2) scan_plain[OF 4, of cs, folded s, unfolded None] by simp_all
      have r: "drop n s = ?r" by (simp add: lx dropWhile_eq_drop)
      have "\<not> (decimal_text ?v \<noteq> None \<and> delimits ?r)"
        using None number_match_complete[of ?v ?r] decimal_starts_number[of ?v ?r] by auto
      moreover have "?r = [] \<or> \<not> IDENT_CHAR (hd ?r)" using hd_dropWhile[of IDENT_CHAR s] by auto
      moreover have "is_identifier ?v"
        using 4 by (auto simp: is_identifier_def list_all_iff s dest: set_takeWhileD)
      ultimately show ?thesis using lex[of "(T_ident, ?v)"] by (simp add: lx(1) r)
    next
      case (Some k)
      then have k: "number_match s = Some k" by (simp split: if_splits)
      have "lx = Some (T_number, take k s)" "n = k" using assms(2) scan_plain[OF 4, of cs, folded s, unfolded Some] by auto
      with number_match_sound[OF k] lex[of "(T_number, take k s)"] show ?thesis by simp
    qed
  next
    case 5
    have "\<not> starts_number s" using 5 digit_ident point_sign_ident by (auto simp: starts_number_def s)
    then have "take 2 s \<in> set PUNCT2 \<and> lx = Some (T_punct, take 2 s) \<and> n = 2 \<or>
        take 2 s \<notin> set PUNCT2 \<and> c \<in> set PUNCT1 \<and> lx = Some (T_punct, [c]) \<and> n = 1"
      using assms(2) 5 by (auto simp: s scan_def Let_def split: if_splits)
    then show ?thesis using lex[of "(T_punct, take 2 s)"] lex[of "(T_punct, [c])"] by (auto simp: s)
  qed
qed

lemma tokenize_sound:
  "tokenize_from p s = Inr ts \<Longrightarrow> \<exists>ls. map lexeme_of ts = ls @ [(T_eof, [])] \<and> spells ls s"
proof (induction p s arbitrary: ts rule: tokenize_from.induct)
  case (1 p s)
  show ?case
  proof (cases "s = []")
    case True
    with 1(2) spells_end show ?thesis by (auto simp: tokenize_from.simps[of p "[]"] lexeme_of_def)
  next
    case False
    with 1(2) obtain lx n ts' where sc: "scan s = Inr (lx, n)" "tokenize_from (advance (take n s) p) (drop n s) = Inr ts'"
      "ts = lexeme_tokens lx p @ ts'"
      by (auto simp: tokenize_from.simps[of p s] split: sum.splits)
    from 1(1)[OF False sc(1) refl sc(2)] obtain ls where ls: "map lexeme_of ts' = ls @ [(T_eof, [])]" "spells ls (drop n s)" by blast
    have "map lexeme_of ts = (case lx of None \<Rightarrow> ls | Some l \<Rightarrow> l # ls) @ [(T_eof, [])]"
      by (auto simp: sc(3) ls(1) lexeme_tokens_def lexeme_of_def split: option.splits)
    with scan_sound[OF False sc(1) ls(2)] show ?thesis by blast
  qed
qed

lemma tokenize_step:
  assumes "s \<noteq> []" "scan s = Inr (lx, n)" "tokenize_from (advance (take n s) p) (drop n s) = Inr ts"
  shows "tokenize_from p s = Inr (lexeme_tokens lx p @ ts)"
  using assms by (simp add: tokenize_from.simps[of p s])

lemma tokenize_complete:
  "spells ls s \<Longrightarrow> \<exists>ts. tokenize_from p s = Inr ts \<and> map lexeme_of ts = ls @ [(T_eof, [])]"
proof (induction arbitrary: p rule: spells.induct)
  case spells_end
  then show ?case by (simp add: tokenize_from.simps lexeme_of_def)
next
  case (spells_blank c ls s)
  from spells_blank.IH[of "advance [c] p"] show ?case
    using tokenize_step[of "c # s" None 1 p] scan_blank[OF spells_blank.hyps(1)] by (auto simp: lexeme_tokens_def)
next
  case (spells_comment remark s ls)
  from spells_comment.IH[of "advance (CHR ''#'' # remark) p"] show ?case
    using tokenize_step[of "CHR ''#'' # remark @ s" None "Suc (length remark)" p] scan_comment[OF spells_comment.hyps(1,2)]
    by (auto simp: lexeme_tokens_def)
next
  case (spells_lexeme l s ls)
  have "lexeme_text l @ s \<noteq> []"
    using spells_lexeme.hyps(1) by (cases "(l, s)" rule: lexeme_fits.cases) (auto simp: is_identifier_def PUNCT2_def decimal_text_def)
  with spells_lexeme.IH[of "advance (lexeme_text l) p"] show ?case
    using tokenize_step[of "lexeme_text l @ s" "Some l" "length (lexeme_text l)" p] scan_lexeme[OF spells_lexeme.hyps(1)]
    by (auto simp: lexeme_tokens_def lexeme_of_def split: prod.splits)
qed

text \<open>The only errors are policy errors.\<close>

lemma tokenize_error: "tokenize_from p s = Inl e \<Longrightarrow> \<exists>m l c. e = PolicyError m l c"
proof (induction p s rule: tokenize_from.induct)
  case (1 p s)
  then show ?case by (auto simp: tokenize_from.simps[of p s] bind_result_eq_Inl split: if_splits sum.splits)
qed

end
