(* ===== verification/Policy_Parser.thy ===== *)
theory Policy_Parser
  imports Policy_Lexer Fail_Mode Classification
begin

text \<open>
  The parser of the policy language (class \<open>Parser\<close> of \<open>execution-control-runtime/src/policy-dsl.ts\<close>): a
  recursive-descent parser over the tokens that remain.  Reading past the last token is the
  \<open>TypeError\<close> that \<open>this.tokens[this.pos].type\<close> would throw.  The grammar is the datatype \<open>stmt\<close> with its
  spelling \<open>stmt_lexemes\<close> and its meaning \<open>stmt_apply\<close>; the parser accepts exactly the token lists that
  spell a program and returns its meaning, and it never reads past the end.
\<close>

section \<open>Parsers\<close>

lemma bind_result_cong [fundef_cong]:
  "r = r' \<Longrightarrow> (\<And>x. r' = Inr x \<Longrightarrow> f x = g x) \<Longrightarrow> bind_result r f = bind_result r' g"
  by (cases r') auto

type_synonym 'a parser = "Token list \<Rightarrow> ('a \<times> Token list) result"

definition then_parse :: "'a parser \<Rightarrow> ('a \<Rightarrow> 'b parser) \<Rightarrow> 'b parser" where
  "then_parse p q ts = bind_result (p ts) (\<lambda>(x, ts'). q x ts')"

definition yields :: "'a \<Rightarrow> 'a parser" where
  "yields x ts = Inr (x, ts)"

definition policy_error :: "string \<Rightarrow> Token \<Rightarrow> js_error" where
  "policy_error message t = PolicyError message (tk_line t) (tk_column t)"

definition fails :: "string \<Rightarrow> Token \<Rightarrow> 'a parser" where
  "fails message t ts = Inl (policy_error message t)"

fun peek_token :: "Token list \<Rightarrow> Token result" where
  "peek_token [] = Inl TypeError"
| "peek_token (t # ts) = Inr t"

fun next_token :: "Token parser" where
  "next_token [] = Inl TypeError"
| "next_token (t # ts) = Inr (t, ts)"

text \<open>\<open>t.value || t.type\<close>.\<close>

definition shown :: "Token \<Rightarrow> string" where
  "shown t = (if tk_value t \<noteq> [] then tk_value t else type_name (tk_type t))"

definition quoted :: "string \<Rightarrow> string" where
  "quoted s = [CHR 0x27] @ s @ [CHR 0x27]"

definition is_token :: "TokenType \<Rightarrow> string \<Rightarrow> Token \<Rightarrow> bool" where
  "is_token ty v t \<longleftrightarrow> tk_type t = ty \<and> tk_value t = v"

definition expectPunct :: "string \<Rightarrow> Token parser" where
  "expectPunct value ts = bind_result (peek_token ts) (\<lambda>t.
     if \<not> is_token T_punct value t then Inl (policy_error (''expected '' @ quoted value) t) else next_token ts)"

definition expect :: "TokenType \<Rightarrow> Token parser" where
  "expect ty ts = bind_result (peek_token ts) (\<lambda>t.
     if tk_type t \<noteq> ty then Inl (policy_error (''expected '' @ type_name ty @ '', got '' @ quoted (shown t)) t) else next_token ts)"

text \<open>A comma-separated list of tokens of one type: \<open>identList\<close>, and the loop over the caveats.\<close>

lemma expect_Inr [simp]: "expect ty ts = Inr (t, ts') \<longleftrightarrow> ts = t # ts' \<and> tk_type t = ty"
  by (cases ts) (auto simp: expect_def)

function more_values :: "TokenType \<Rightarrow> string list parser" where
  "more_values ty ts = bind_result (peek_token ts) (\<lambda>t.
     if is_token T_punct '','' t
     then bind_result (expect ty (tl ts)) (\<lambda>(v, ts'). bind_result (more_values ty ts') (\<lambda>(vs, ts''). Inr (tk_value v # vs, ts'')))
     else Inr ([], ts))"
  by auto
termination by (relation "measure (length \<circ> snd)") (auto simp: neq_Nil_conv tl_def split: list.splits)

declare more_values.simps [simp del]

definition value_list :: "TokenType \<Rightarrow> string list parser" where
  "value_list ty = then_parse (expect ty) (\<lambda>v. then_parse (more_values ty) (\<lambda>vs. yields (tk_value v # vs)))"

definition identList :: "string list parser" where
  "identList = value_list T_ident"

text \<open>An optional clause that a keyword opens: \<open>when\<close>, \<open>caveats\<close>, \<open>within\<close>.\<close>

definition clause :: "string \<Rightarrow> 'a parser \<Rightarrow> 'a option parser" where
  "clause keyword p ts = bind_result (peek_token ts) (\<lambda>t.
     if is_token T_ident keyword t then then_parse p (\<lambda>x. yields (Some x)) (tl ts) else Inr (None, ts))"

section \<open>Nodes\<close>

record DualControlNode =
  dn_actions :: "string list"
  dn_required :: rat
  dn_ttlMs :: "rat option"

record AllowNode =
  an_actions :: "string list"
  an_when :: "string list"

record WardNode =
  wn_name :: string
  wn_token :: Token
  wn_id :: "string option"
  wn_domain :: "string option"
  wn_sovereignty :: "string option"
  wn_version :: "string option"
  wn_subject :: "string option"
  wn_envelope :: "string option"
  wn_issuer :: "string option"
  wn_expires :: "string option"
  wn_criticality :: "WardCriticality option"
  wn_classification :: "Classification option"
  wn_allow :: "AllowNode list"
  wn_deny :: "string list"
  wn_require :: "string list"
  wn_maxAltitude :: "rat option"
  wn_batteryMin :: "rat option"
  wn_boundary :: "string option"
  wn_budget :: "jsobject option"
  wn_dualControl :: "DualControlNode option"

definition new_node :: "string \<Rightarrow> Token \<Rightarrow> WardNode" where
  "new_node name kw = \<lparr> wn_name = name, wn_token = kw, wn_id = None, wn_domain = None, wn_sovereignty = None, wn_version = None,
     wn_subject = None, wn_envelope = None, wn_issuer = None, wn_expires = None, wn_criticality = None,
     wn_classification = None, wn_allow = [], wn_deny = [], wn_require = [], wn_maxAltitude = None, wn_batteryMin = None,
     wn_boundary = None, wn_budget = None, wn_dualControl = None \<rparr>"

primrec criticality_name :: "WardCriticality \<Rightarrow> string" where
  "criticality_name safety_critical = ''safety_critical''"
| "criticality_name mission_critical = ''mission_critical''"
| "criticality_name routine = ''routine''"
| "criticality_name best_effort = ''best_effort''"
| "criticality_name (UnknownCriticality s) = s"

definition CRITICALITIES :: "WardCriticality list" where
  "CRITICALITIES = [safety_critical, mission_critical, routine, best_effort]"

definition CLASSIFICATION_LEVELS :: "ClassificationLevel list" where
  "CLASSIFICATION_LEVELS = [UNCLASSIFIED, CUI, CONFIDENTIAL, SECRET, TOP_SECRET]"

text \<open>\<open>/^(\d+)(ms|s|m|h|d)$/\<close> and the table \<open>DURATION_MS\<close>.\<close>

definition DURATION_MS :: "(string \<times> rat) list" where
  "DURATION_MS = [(''ms'', 1), (''s'', 1000), (''m'', 60000), (''h'', 3600000), (''d'', 86400000)]"

definition duration :: "string \<Rightarrow> rat option" where
  "duration v = (let digits = takeWhile is_digit v; unit = dropWhile is_digit v
     in if digits = [] then None else map_option (\<lambda>ms. of_nat (digits_val digits) * ms) (map_of DURATION_MS unit))"

definition parseDuration :: "rat parser" where
  "parseDuration = then_parse (expect T_ident) (\<lambda>t. case duration (tk_value t) of
     Some ms \<Rightarrow> yields ms
   | None \<Rightarrow> fails (''invalid duration '' @ quoted (tk_value t) @ '' (expected e.g. 30s, 15m, 1h, 1d)'') t)"

text \<open>\<open>Number(this.expect("number").value)\<close>.\<close>

definition number_value :: "string \<Rightarrow> rat" where
  "number_value v = (case decimal_text v of Some d \<Rightarrow> decimal_value d | None \<Rightarrow> 0)"

definition parse_number :: "rat parser" where
  "parse_number = then_parse (expect T_number) (\<lambda>t. yields (number_value (tk_value t)))"

section \<open>The statements of a Ward block\<close>

text \<open>The statements that set one field to one token, with the type of the token.\<close>

definition field_type :: "string \<Rightarrow> TokenType option" where
  "field_type k = map_of [(''id'', T_ident), (''domain'', T_ident), (''sovereignty'', T_string), (''version'', T_ident),
     (''subject'', T_ident), (''envelope'', T_ident), (''issuer'', T_string), (''expires'', T_string), (''within'', T_ident)] k"

definition set_field :: "string \<Rightarrow> string \<Rightarrow> WardNode \<Rightarrow> WardNode" where
  "set_field k v node =
     (if k = ''id'' then node \<lparr> wn_id := Some v \<rparr>
      else if k = ''domain'' then node \<lparr> wn_domain := Some v \<rparr>
      else if k = ''sovereignty'' then node \<lparr> wn_sovereignty := Some v \<rparr>
      else if k = ''version'' then node \<lparr> wn_version := Some v \<rparr>
      else if k = ''subject'' then node \<lparr> wn_subject := Some v \<rparr>
      else if k = ''envelope'' then node \<lparr> wn_envelope := Some v \<rparr>
      else if k = ''issuer'' then node \<lparr> wn_issuer := Some v \<rparr>
      else if k = ''expires'' then node \<lparr> wn_expires := Some v \<rparr>
      else node \<lparr> wn_boundary := Some v \<rparr>)"

definition add_allow :: "string list \<Rightarrow> string list option \<Rightarrow> WardNode \<Rightarrow> WardNode" where
  "add_allow actions w node =
     node \<lparr> wn_allow := wn_allow node @ [\<lparr> an_actions = actions, an_when = (case w of Some r \<Rightarrow> r | None \<Rightarrow> []) \<rparr>] \<rparr>"

definition set_approve :: "string list \<Rightarrow> rat \<Rightarrow> rat option \<Rightarrow> WardNode \<Rightarrow> WardNode" where
  "set_approve actions required ttl node =
     (let old = wn_dualControl node
      in node \<lparr> wn_dualControl := Some
           \<lparr> dn_actions = (case old of Some d \<Rightarrow> dn_actions d | None \<Rightarrow> []) @ actions, dn_required = required,
             dn_ttlMs = (case ttl of Some t \<Rightarrow> Some t | None \<Rightarrow> Option.bind old dn_ttlMs) \<rparr> \<rparr>)"

definition set_budget :: "string \<Rightarrow> rat \<Rightarrow> rat \<Rightarrow> WardNode \<Rightarrow> WardNode" where
  "set_budget dm limit windowMs node =
     node \<lparr> wn_budget := Some (map_set (if dm = ''cost'' then ''maxCostPerWindow'' else ''maxCallsPerWindow'') (JNum limit)
       (map_set ''windowMs'' (JNum windowMs) (case wn_budget node of Some b \<Rightarrow> b | None \<Rightarrow> []))) \<rparr>"

definition parse_allow :: "WardNode \<Rightarrow> WardNode parser" where
  "parse_allow node = then_parse identList (\<lambda>actions. then_parse (clause ''when'' identList) (\<lambda>w. yields (add_allow actions w node)))"

definition parse_criticality :: "WardNode \<Rightarrow> WardNode parser" where
  "parse_criticality node = then_parse (expect T_ident) (\<lambda>v.
     case find (\<lambda>c. criticality_name c = tk_value v) CRITICALITIES of
       Some c \<Rightarrow> yields (node \<lparr> wn_criticality := Some c \<rparr>)
     | None \<Rightarrow> fails (''unknown criticality '' @ quoted (tk_value v) @ '' (expected '' @
                join '' | '' (map criticality_name CRITICALITIES) @ '')'') v)"

definition parse_classification :: "WardNode \<Rightarrow> WardNode parser" where
  "parse_classification node = then_parse (expect T_ident) (\<lambda>lvl.
     case find (\<lambda>l. level_name l = tk_value lvl) CLASSIFICATION_LEVELS of
       Some l \<Rightarrow> then_parse (clause ''caveats'' (value_list T_string)) (\<lambda>caveats.
         yields (node \<lparr> wn_classification := Some \<lparr> cl_level = l, cl_caveats = caveats \<rparr> \<rparr>))
     | None \<Rightarrow> fails (''unknown classification '' @ quoted (tk_value lvl) @ '' (expected '' @
                join '' | '' (map level_name CLASSIFICATION_LEVELS) @ '')'') lvl)"

definition parse_approve :: "WardNode \<Rightarrow> WardNode parser" where
  "parse_approve node = then_parse identList (\<lambda>actions. then_parse (expect T_ident) (\<lambda>reqKw.
     if tk_value reqKw \<noteq> ''requires'' then fails (''expected '' @ quoted ''requires'' @ '' in approve statement'') reqKw
     else then_parse parse_number (\<lambda>required. then_parse (clause ''within'' parseDuration) (\<lambda>ttl.
       yields (set_approve actions required ttl node)))))"

definition parse_budget :: "WardNode \<Rightarrow> WardNode parser" where
  "parse_budget node = then_parse (expect T_ident) (\<lambda>dm. then_parse next_token (\<lambda>op.
     if \<not> is_token T_punct ''<='' op then fails (''expected '' @ quoted ''<='' @ '' after budget '' @ tk_value dm) op
     else then_parse parse_number (\<lambda>limit. then_parse (expect T_ident) (\<lambda>per.
       if tk_value per \<noteq> ''per'' then fails (''expected '' @ quoted ''per'' @ '' in budget statement'') per
       else then_parse parseDuration (\<lambda>windowMs.
         if tk_value dm = ''cost'' \<or> tk_value dm = ''calls'' then yields (set_budget (tk_value dm) limit windowMs node)
         else fails (''unknown budget dimension '' @ quoted (tk_value dm) @ '' (expected cost | calls)'') dm)))))"

definition parse_bound :: "WardNode \<Rightarrow> WardNode parser" where
  "parse_bound node = then_parse (expect T_ident) (\<lambda>field. then_parse next_token (\<lambda>op.
     if tk_type op \<noteq> T_punct \<or> tk_value op \<noteq> ''<='' \<and> tk_value op \<noteq> ''>=''
     then fails (''expected '' @ quoted ''<='' @ '' or '' @ quoted ''>='' @ '' after bound '' @ tk_value field) op
     else then_parse parse_number (\<lambda>num.
       if tk_value field = ''altitude_m'' then
         (if tk_value op \<noteq> ''<='' then fails (''altitude_m bound must use '' @ quoted ''<='') op
          else yields (node \<lparr> wn_maxAltitude := Some num \<rparr>))
       else if tk_value field = ''battery_pct'' then
         (if tk_value op \<noteq> ''>='' then fails (''battery_pct bound must use '' @ quoted ''>='') op
          else yields (node \<lparr> wn_batteryMin := Some num \<rparr>))
       else fails (''unknown bound field '' @ quoted (tk_value field) @ '' (expected altitude_m | battery_pct)'') field)))"

text \<open>The \<open>switch\<close> on the keyword, which has been read.\<close>

definition parse_statement :: "Token \<Rightarrow> WardNode \<Rightarrow> WardNode parser" where
  "parse_statement t node =
     (let k = tk_value t
      in case field_type k of
           Some ty \<Rightarrow> then_parse (expect ty) (\<lambda>v. yields (set_field k (tk_value v) node))
         | None \<Rightarrow>
             if k = ''require'' then then_parse identList (\<lambda>rs. yields (node \<lparr> wn_require := wn_require node @ rs \<rparr>))
             else if k = ''deny'' then then_parse identList (\<lambda>as. yields (node \<lparr> wn_deny := wn_deny node @ as \<rparr>))
             else if k = ''allow'' then parse_allow node
             else if k = ''criticality'' then parse_criticality node
             else if k = ''classification'' then parse_classification node
             else if k = ''approve'' then parse_approve node
             else if k = ''budget'' then parse_budget node
             else if k = ''bound'' then parse_bound node
             else fails (''unknown statement '' @ quoted k @ '' in ward block'') t)"

section \<open>What a parser accepts\<close>

lemma lexeme_of_eq: "lexeme_of t = (ty, v) \<longleftrightarrow> is_token ty v t"
  by (auto simp: lexeme_of_def is_token_def)

lemma then_parse_Inr [simp]:
  "then_parse p q ts = Inr (y, us) \<longleftrightarrow> (\<exists>x ts'. p ts = Inr (x, ts') \<and> q x ts' = Inr (y, us))"
  by (auto simp: then_parse_def)

lemma then_parse_step: "p ts = Inr (x, ts') \<Longrightarrow> then_parse p q ts = q x ts'"
  by (simp add: then_parse_def)

lemma yields_fails_Inr [simp]: "yields x ts = Inr (y, us) \<longleftrightarrow> y = x \<and> us = ts" "fails m t ts \<noteq> Inr r"
  by (auto simp: yields_def fails_def)

lemma next_token_Inr [simp]: "next_token ts = Inr (t, ts') \<longleftrightarrow> ts = t # ts'"
  by (cases ts) auto

lemma peek_token_Inr [simp]: "peek_token ts = Inr t \<longleftrightarrow> (\<exists>ts'. ts = t # ts')"
  by (cases ts) auto

lemma expectPunct_Inr [simp]: "expectPunct v ts = Inr (t, ts') \<longleftrightarrow> ts = t # ts' \<and> is_token T_punct v t"
  by (cases ts) (auto simp: expectPunct_def)

lemma clause_Inr:
  "clause k p ts = Inr (x, ts') \<longleftrightarrow>
     (\<exists>t us y. ts = t # us \<and> is_token T_ident k t \<and> x = Some y \<and> p us = Inr (y, ts')) \<or>
     (\<exists>t us. ts = t # us \<and> \<not> is_token T_ident k t \<and> x = None \<and> ts' = ts)"
  by (cases ts) (auto simp: clause_def)

definition next_not :: "TokenType \<Rightarrow> string \<Rightarrow> Token list \<Rightarrow> bool" where
  "next_not ty v ts \<longleftrightarrow> (\<exists>t us. ts = t # us \<and> \<not> is_token ty v t)"

definition comma_lexemes :: "TokenType \<Rightarrow> string list \<Rightarrow> lexeme list" where
  "comma_lexemes ty vs = concat (map (\<lambda>v. [(T_punct, '',''), (ty, v)]) vs)"

text \<open>A token list spells some lexemes and then goes on.\<close>

definition spelled :: "Token list \<Rightarrow> lexeme list \<Rightarrow> Token list \<Rightarrow> bool" where
  "spelled ts ls ts' \<longleftrightarrow> (\<exists>us. ts = us @ ts' \<and> map lexeme_of us = ls)"

lemma spelled_Nil [simp]: "spelled ts [] ts' \<longleftrightarrow> ts' = ts"
  by (auto simp: spelled_def)

lemma spelled_Cons: "spelled ts ((ty, v) # ls) ts' \<longleftrightarrow> (\<exists>t us. ts = t # us \<and> is_token ty v t \<and> spelled us ls ts')"
proof
  assume "spelled ts ((ty, v) # ls) ts'"
  then obtain us where us: "ts = us @ ts'" "map lexeme_of us = (ty, v) # ls" by (auto simp: spelled_def)
  then obtain u us' where "us = u # us'" "lexeme_of u = (ty, v)" "map lexeme_of us' = ls" by (cases us) auto
  with us(1) show "\<exists>t us. ts = t # us \<and> is_token ty v t \<and> spelled us ls ts'" by (auto simp: spelled_def lexeme_of_eq)
next
  assume "\<exists>t us. ts = t # us \<and> is_token ty v t \<and> spelled us ls ts'"
  then obtain t us vs where "ts = t # us" "lexeme_of t = (ty, v)" "us = vs @ ts'" "map lexeme_of vs = ls"
    by (auto simp: spelled_def lexeme_of_eq)
  then show "spelled ts ((ty, v) # ls) ts'" unfolding spelled_def by (intro exI[of _ "t # vs"]) simp
qed

lemma spelled_append: "spelled ts (ls @ ls') ts' \<longleftrightarrow> (\<exists>us. spelled ts ls us \<and> spelled us ls' ts')"
  by (induction ls arbitrary: ts) (simp, simp add: spelled_Cons split_paired_all, blast)

lemma spelled_length: "spelled ts ls ts' \<Longrightarrow> length ts = length ls + length ts'"
  by (auto simp: spelled_def)

lemma more_values_Inr:
  "more_values ty ts = Inr (vs, ts') \<longleftrightarrow> spelled ts (comma_lexemes ty vs) ts' \<and> next_not T_punct '','' ts'"
proof (induction ty ts arbitrary: vs rule: more_values.induct)
  case (1 ty ts)
  show ?case
  proof (cases ts)
    case Nil
    then show ?thesis by (cases vs) (auto simp: more_values.simps[of ty "[]"] next_not_def comma_lexemes_def spelled_Cons)
  next
    case (Cons t us)
    show ?thesis
    proof (cases "is_token T_punct '','' t")
      case False
      with Cons show ?thesis
        by (cases vs) (auto simp: more_values.simps[of ty "t # us"] next_not_def comma_lexemes_def spelled_Cons)
    next
      case True
      have ih: "more_values ty us' = Inr (vs', ts') \<longleftrightarrow> spelled us' (comma_lexemes ty vs') ts' \<and> next_not T_punct '','' ts'"
        if "us = v # us'" "tk_type v = ty" for v us' vs'
        using 1[of t "(v, us')" v us' vs'] that Cons True by simp
      have "more_values ty ts = Inr (vs, ts') \<longleftrightarrow>
          (\<exists>v vs' us'. us = v # us' \<and> tk_type v = ty \<and> vs = tk_value v # vs' \<and> more_values ty us' = Inr (vs', ts'))"
        using Cons True by (auto simp: more_values.simps[of ty "t # us"])
      also have "\<dots> \<longleftrightarrow> (\<exists>v vs' us'. us = v # us' \<and> tk_type v = ty \<and> vs = tk_value v # vs' \<and>
          spelled us' (comma_lexemes ty vs') ts' \<and> next_not T_punct '','' ts')"
        using ih by blast
      also have "\<dots> \<longleftrightarrow> spelled ts (comma_lexemes ty vs) ts' \<and> next_not T_punct '','' ts'"
        using Cons True by (cases vs) (auto simp: comma_lexemes_def spelled_Cons next_not_def is_token_def)
      finally show ?thesis .
    qed
  qed
qed

definition list_lexemes :: "TokenType \<Rightarrow> string list \<Rightarrow> lexeme list" where
  "list_lexemes ty vs = (ty, hd vs) # comma_lexemes ty (tl vs)"

lemma value_list_Inr:
  "value_list ty ts = Inr (vs, ts') \<longleftrightarrow> vs \<noteq> [] \<and> spelled ts (list_lexemes ty vs) ts' \<and> next_not T_punct '','' ts'"
  by (cases vs) (auto simp: value_list_def more_values_Inr list_lexemes_def spelled_Cons is_token_def)

section \<open>The grammar\<close>

datatype stmt =
    St_field string string
  | St_require "string list"
  | St_deny "string list"
  | St_allow "string list" "string list option"
  | St_criticality WardCriticality
  | St_classification ClassificationLevel "string list option"
  | St_approve "string list" string "string option"
  | St_budget string string string
  | St_bound string string

abbreviation kw :: "string \<Rightarrow> lexeme" where "kw k \<equiv> (T_ident, k)"

fun clause_lexemes :: "string \<Rightarrow> ('a \<Rightarrow> lexeme list) \<Rightarrow> 'a option \<Rightarrow> lexeme list" where
  "clause_lexemes k f None = []"
| "clause_lexemes k f (Some x) = kw k # f x"

definition bound_op :: "string \<Rightarrow> string" where
  "bound_op field = (if field = ''altitude_m'' then ''<='' else ''>='')"

fun stmt_lexemes :: "stmt \<Rightarrow> lexeme list" where
  "stmt_lexemes (St_field k v) = [kw k, (case field_type k of Some ty \<Rightarrow> ty | None \<Rightarrow> T_ident, v)]"
| "stmt_lexemes (St_require rs) = kw ''require'' # list_lexemes T_ident rs"
| "stmt_lexemes (St_deny as) = kw ''deny'' # list_lexemes T_ident as"
| "stmt_lexemes (St_allow as w) = kw ''allow'' # list_lexemes T_ident as @ clause_lexemes ''when'' (list_lexemes T_ident) w"
| "stmt_lexemes (St_criticality c) = [kw ''criticality'', kw (criticality_name c)]"
| "stmt_lexemes (St_classification l cs) = kw ''classification'' # kw (level_name l) # clause_lexemes ''caveats'' (list_lexemes T_string) cs"
| "stmt_lexemes (St_approve as n d) = kw ''approve'' # list_lexemes T_ident as @ kw ''requires'' # (T_number, n) #
     clause_lexemes ''within'' (\<lambda>t. [kw t]) d"
| "stmt_lexemes (St_budget dm n d) = [kw ''budget'', kw dm, (T_punct, ''<=''), (T_number, n), kw ''per'', kw d]"
| "stmt_lexemes (St_bound field n) = [kw ''bound'', kw field, (T_punct, bound_op field), (T_number, n)]"

text \<open>The side conditions of the grammar.\<close>

fun stmt_ok :: "stmt \<Rightarrow> bool" where
  "stmt_ok (St_field k v) \<longleftrightarrow> field_type k \<noteq> None"
| "stmt_ok (St_require rs) \<longleftrightarrow> rs \<noteq> []"
| "stmt_ok (St_deny as) \<longleftrightarrow> as \<noteq> []"
| "stmt_ok (St_allow as w) \<longleftrightarrow> as \<noteq> [] \<and> w \<noteq> Some []"
| "stmt_ok (St_criticality c) \<longleftrightarrow> c \<in> set CRITICALITIES"
| "stmt_ok (St_classification l cs) \<longleftrightarrow> cs \<noteq> Some []"
| "stmt_ok (St_approve as n d) \<longleftrightarrow> as \<noteq> [] \<and> (\<forall>t. d = Some t \<longrightarrow> duration t \<noteq> None)"
| "stmt_ok (St_budget dm n d) \<longleftrightarrow> dm \<in> {''cost'', ''calls''} \<and> duration d \<noteq> None"
| "stmt_ok (St_bound field n) \<longleftrightarrow> field \<in> {''altitude_m'', ''battery_pct''}"

text \<open>The meaning of a statement.\<close>

fun stmt_apply :: "stmt \<Rightarrow> WardNode \<Rightarrow> WardNode" where
  "stmt_apply (St_field k v) node = set_field k v node"
| "stmt_apply (St_require rs) node = node \<lparr> wn_require := wn_require node @ rs \<rparr>"
| "stmt_apply (St_deny as) node = node \<lparr> wn_deny := wn_deny node @ as \<rparr>"
| "stmt_apply (St_allow as w) node = add_allow as w node"
| "stmt_apply (St_criticality c) node = node \<lparr> wn_criticality := Some c \<rparr>"
| "stmt_apply (St_classification l cs) node = node \<lparr> wn_classification := Some \<lparr> cl_level = l, cl_caveats = cs \<rparr> \<rparr>"
| "stmt_apply (St_approve as n d) node = set_approve as (number_value n) (Option.bind d duration) node"
| "stmt_apply (St_budget dm n d) node = set_budget dm (number_value n) (case duration d of Some ms \<Rightarrow> ms | None \<Rightarrow> 0) node"
| "stmt_apply (St_bound field n) node =
     (if field = ''altitude_m'' then node \<lparr> wn_maxAltitude := Some (number_value n) \<rparr>
      else node \<lparr> wn_batteryMin := Some (number_value n) \<rparr>)"

text \<open>
  Which token may not come next: a comma would go on with a list, the keyword of an optional clause
  would open it.  Only \<open>within\<close> after an \<open>approve\<close> without a deadline could start another statement.
\<close>

fun stmt_follow :: "stmt \<Rightarrow> Token list \<Rightarrow> bool" where
  "stmt_follow (St_require rs) ts = next_not T_punct '','' ts"
| "stmt_follow (St_deny as) ts = next_not T_punct '','' ts"
| "stmt_follow (St_allow as w) ts = (next_not T_punct '','' ts \<and> (w = None \<longrightarrow> next_not T_ident ''when'' ts))"
| "stmt_follow (St_classification l cs) ts = (if cs = None then next_not T_ident ''caveats'' ts else next_not T_punct '','' ts)"
| "stmt_follow (St_approve as n d) ts = (d = None \<longrightarrow> next_not T_ident ''within'' ts)"
| "stmt_follow _ ts = True"

lemma identList_Inr: "identList ts = Inr (vs, ts') \<longleftrightarrow> vs \<noteq> [] \<and> spelled ts (list_lexemes T_ident vs) ts' \<and> next_not T_punct '','' ts'"
  by (simp add: identList_def value_list_Inr)

lemma list_clause_Inr:
  "clause k (value_list ty) ts = Inr (x, ts') \<longleftrightarrow> x \<noteq> Some [] \<and> spelled ts (clause_lexemes k (list_lexemes ty) x) ts' \<and>
     (if x = None then next_not T_ident k ts' else next_not T_punct '','' ts')"
  by (cases x) (auto simp: clause_Inr value_list_Inr spelled_Cons next_not_def)

lemma parse_number_Inr: "parse_number ts = Inr (x, ts') \<longleftrightarrow> (\<exists>n. spelled ts [(T_number, n)] ts' \<and> x = number_value n)"
  by (auto simp: parse_number_def spelled_Cons is_token_def)

lemma parseDuration_Inr: "parseDuration ts = Inr (x, ts') \<longleftrightarrow> (\<exists>d. spelled ts [kw d] ts' \<and> duration d = Some x)"
  by (fastforce simp: parseDuration_def spelled_Cons is_token_def split: option.splits)

lemma duration_clause_Inr:
  "clause k parseDuration ts = Inr (x, ts') \<longleftrightarrow> (\<exists>d. spelled ts (clause_lexemes k (\<lambda>t. [kw t]) d) ts' \<and>
     (\<forall>t. d = Some t \<longrightarrow> duration t \<noteq> None) \<and> x = Option.bind d duration \<and> (d = None \<longrightarrow> next_not T_ident k ts'))"
    (is "_ \<longleftrightarrow> ?R")
proof
  assume "clause k parseDuration ts = Inr (x, ts')"
  then consider t us y d where "ts = t # us" "is_token T_ident k t" "x = Some y" "spelled us [kw d] ts'" "duration d = Some y"
    | "next_not T_ident k ts" "x = None" "ts' = ts"
    by (auto simp: clause_Inr parseDuration_Inr next_not_def)
  then show ?R
  proof cases
    case (1 t us y d)
    then show ?thesis by (intro exI[of _ "Some d"]) (auto simp: spelled_Cons)
  next
    case 2
    then show ?thesis by (intro exI[of _ None]) simp
  qed
next
  assume ?R
  then obtain d where "spelled ts (clause_lexemes k (\<lambda>t. [kw t]) d) ts'" "\<forall>t. d = Some t \<longrightarrow> duration t \<noteq> None"
    "x = Option.bind d duration" "d = None \<longrightarrow> next_not T_ident k ts'" by blast
  then show "clause k parseDuration ts = Inr (x, ts')"
    by (cases d) (auto simp: clause_Inr parseDuration_Inr next_not_def spelled_Cons is_token_def)
qed

section \<open>The statements parsed are those of the grammar\<close>

lemma next_not_spelled: "spelled ts ((ty, v) # ls) ts' \<Longrightarrow> (ty, v) \<noteq> (ty', v') \<Longrightarrow> next_not ty' v' ts"
  by (auto simp: spelled_Cons next_not_def is_token_def)

lemma parse_allow_Inr:
  "parse_allow node ts = Inr (node', ts') \<longleftrightarrow> (\<exists>as w. stmt_ok (St_allow as w) \<and>
     spelled ts (list_lexemes T_ident as @ clause_lexemes ''when'' (list_lexemes T_ident) w) ts' \<and>
     stmt_follow (St_allow as w) ts' \<and> node' = stmt_apply (St_allow as w) node)" (is "_ \<longleftrightarrow> ?R")
proof
  assume "parse_allow node ts = Inr (node', ts')"
  then obtain as us w where "identList ts = Inr (as, us)" "clause ''when'' (value_list T_ident) us = Inr (w, ts')" "node' = add_allow as w node"
    by (auto simp: parse_allow_def identList_def)
  then show ?R
    by (intro exI[of _ as] exI[of _ w]) (cases w; auto simp: identList_Inr list_clause_Inr spelled_append)
next
  assume ?R
  then obtain as w where r: "as \<noteq> []" "w \<noteq> Some []" "next_not T_punct '','' ts'" "w = None \<longrightarrow> next_not T_ident ''when'' ts'"
    "node' = add_allow as w node"
    and sp: "spelled ts (list_lexemes T_ident as @ clause_lexemes ''when'' (list_lexemes T_ident) w) ts'" by auto
  from sp obtain us where us: "spelled ts (list_lexemes T_ident as) us" "spelled us (clause_lexemes ''when'' (list_lexemes T_ident) w) ts'"
    by (auto simp: spelled_append)
  have "next_not T_punct '','' us" using us(2) r(3) by (cases w) (auto intro: next_not_spelled)
  with r us have "identList ts = Inr (as, us)" "clause ''when'' (value_list T_ident) us = Inr (w, ts')"
    by (auto simp: identList_Inr list_clause_Inr)
  with r(5) show "parse_allow node ts = Inr (node', ts')"
    by (auto simp: parse_allow_def identList_def)
qed

lemma find_name: "inj_on f (set xs) \<Longrightarrow> find (\<lambda>x. f x = n) xs = Some y \<longleftrightarrow> y \<in> set xs \<and> f y = n"
  by (induction xs) (auto simp: inj_on_def)

lemma criticality_found: "find (\<lambda>c. criticality_name c = n) CRITICALITIES = Some c \<longleftrightarrow> c \<in> set CRITICALITIES \<and> criticality_name c = n"
  by (rule find_name) (simp add: CRITICALITIES_def inj_on_def)

lemma level_found: "find (\<lambda>l. level_name l = n) CLASSIFICATION_LEVELS = Some l \<longleftrightarrow> level_name l = n"
proof -
  have "l \<in> set CLASSIFICATION_LEVELS" by (cases l) (simp_all add: CLASSIFICATION_LEVELS_def)
  moreover have "inj_on level_name (set CLASSIFICATION_LEVELS)" by (simp add: CLASSIFICATION_LEVELS_def inj_on_def)
  ultimately show ?thesis by (simp add: find_name)
qed

lemma parse_criticality_Inr:
  "parse_criticality node ts = Inr (node', ts') \<longleftrightarrow> (\<exists>c. c \<in> set CRITICALITIES \<and> spelled ts [kw (criticality_name c)] ts' \<and>
     node' = node \<lparr> wn_criticality := Some c \<rparr>)"
proof -
  have "parse_criticality node ts = Inr (node', ts') \<longleftrightarrow> (\<exists>v c. ts = v # ts' \<and> tk_type v = T_ident \<and>
      find (\<lambda>c. criticality_name c = tk_value v) CRITICALITIES = Some c \<and> node' = node \<lparr> wn_criticality := Some c \<rparr>)"
    by (auto simp: parse_criticality_def split: option.splits)
  then show ?thesis by (auto simp: criticality_found spelled_Cons is_token_def)
qed

lemma parse_classification_Inr:
  "parse_classification node ts = Inr (node', ts') \<longleftrightarrow> (\<exists>l cs. stmt_ok (St_classification l cs) \<and>
     spelled ts (kw (level_name l) # clause_lexemes ''caveats'' (list_lexemes T_string) cs) ts' \<and>
     stmt_follow (St_classification l cs) ts' \<and> node' = stmt_apply (St_classification l cs) node)" (is "_ \<longleftrightarrow> ?R")
proof -
  have "parse_classification node ts = Inr (node', ts') \<longleftrightarrow> (\<exists>v us l cs. ts = v # us \<and> tk_type v = T_ident \<and>
      find (\<lambda>l. level_name l = tk_value v) CLASSIFICATION_LEVELS = Some l \<and>
      clause ''caveats'' (value_list T_string) us = Inr (cs, ts') \<and> node' = stmt_apply (St_classification l cs) node)"
    by (auto simp: parse_classification_def split: option.splits)
  also have "\<dots> \<longleftrightarrow> (\<exists>l cs v us. ts = v # us \<and> tk_type v = T_ident \<and> tk_value v = level_name l \<and>
      clause ''caveats'' (value_list T_string) us = Inr (cs, ts') \<and> node' = stmt_apply (St_classification l cs) node)"
    unfolding level_found by metis
  also have "\<dots> \<longleftrightarrow> ?R"
    unfolding spelled_Cons is_token_def list_clause_Inr stmt_ok.simps stmt_follow.simps by blast
  finally show ?thesis .
qed

lemma parse_approve_Inr:
  "parse_approve node ts = Inr (node', ts') \<longleftrightarrow> (\<exists>as n d. stmt_ok (St_approve as n d) \<and>
     spelled ts (list_lexemes T_ident as @ kw ''requires'' # (T_number, n) # clause_lexemes ''within'' (\<lambda>t. [kw t]) d) ts' \<and>
     stmt_follow (St_approve as n d) ts' \<and> node' = stmt_apply (St_approve as n d) node)" (is "_ \<longleftrightarrow> ?R")
proof
  assume "parse_approve node ts = Inr (node', ts')"
  then obtain as us v vs n ws x where p: "identList ts = Inr (as, us)" "us = v # vs" "is_token T_ident ''requires'' v"
    "spelled vs [(T_number, n)] ws" "clause ''within'' parseDuration ws = Inr (x, ts')"
    "node' = set_approve as (number_value n) x node"
    by (auto simp: parse_approve_def parse_number_Inr is_token_def split: if_splits)
  then obtain d where d: "spelled ws (clause_lexemes ''within'' (\<lambda>t. [kw t]) d) ts'" "\<forall>t. d = Some t \<longrightarrow> duration t \<noteq> None"
    "x = Option.bind d duration" "d = None \<longrightarrow> next_not T_ident ''within'' ts'"
    by (auto simp: duration_clause_Inr)
  have "spelled vs ((T_number, n) # clause_lexemes ''within'' (\<lambda>t. [kw t]) d) ts'"
    using p(4) d(1) by (auto simp: spelled_Cons)
  then have "spelled us (kw ''requires'' # (T_number, n) # clause_lexemes ''within'' (\<lambda>t. [kw t]) d) ts'"
    using p(2,3) by (subst spelled_Cons) blast
  with p(1,6) d show ?R by (intro exI[of _ as] exI[of _ n] exI[of _ d]) (auto simp: identList_Inr spelled_append)
next
  assume ?R
  then obtain as n d where r: "as \<noteq> []" "\<forall>t. d = Some t \<longrightarrow> duration t \<noteq> None" "d = None \<longrightarrow> next_not T_ident ''within'' ts'"
    "node' = set_approve as (number_value n) (Option.bind d duration) node"
    and sp: "spelled ts (list_lexemes T_ident as @ kw ''requires'' # (T_number, n) # clause_lexemes ''within'' (\<lambda>t. [kw t]) d) ts'" by auto
  from sp obtain us where us: "spelled ts (list_lexemes T_ident as) us"
    "spelled us (kw ''requires'' # (T_number, n) # clause_lexemes ''within'' (\<lambda>t. [kw t]) d) ts'"
    by (auto simp: spelled_append)
  from us(2) obtain v vs ws where v: "us = v # vs" "is_token T_ident ''requires'' v" "spelled vs [(T_number, n)] ws"
    "spelled ws (clause_lexemes ''within'' (\<lambda>t. [kw t]) d) ts'" by (auto simp: spelled_Cons)
  have "next_not T_punct '','' us" using us(2) by (rule next_not_spelled) simp
  then have "identList ts = Inr (as, us)" using r(1) us(1) by (simp add: identList_Inr)
  moreover have "expect T_ident us = Inr (v, vs)" using v(1,2) by (simp add: is_token_def)
  moreover have "parse_number vs = Inr (number_value n, ws)" using v(3) by (auto simp: parse_number_Inr)
  moreover have "clause ''within'' parseDuration ws = Inr (Option.bind d duration, ts')"
    using v(4) r(2,3) by (auto simp: duration_clause_Inr)
  ultimately show "parse_approve node ts = Inr (node', ts')"
    using v(2) r(4) by (simp add: parse_approve_def then_parse_step is_token_def del: then_parse_Inr expect_Inr)
qed

lemma parse_budget_Inr:
  "parse_budget node ts = Inr (node', ts') \<longleftrightarrow> (\<exists>dm n d. stmt_ok (St_budget dm n d) \<and>
     spelled ts [kw dm, (T_punct, ''<=''), (T_number, n), kw ''per'', kw d] ts' \<and> node' = stmt_apply (St_budget dm n d) node)"
    (is "_ \<longleftrightarrow> ?R")
proof
  assume "parse_budget node ts = Inr (node', ts')"
  then obtain a b c us n vs ms ws where p: "ts = a # b # us" "tk_type a = T_ident" "is_token T_punct ''<='' b"
    "spelled us [(T_number, n)] (c # vs)" "is_token T_ident ''per'' c" "parseDuration vs = Inr (ms, ts')"
    "tk_value a = ''cost'' \<or> tk_value a = ''calls''" "node' = set_budget (tk_value a) (number_value n) ms node"
    by (auto simp: parse_budget_def parse_number_Inr is_token_def split: if_splits)
  from p(6) obtain d where "spelled vs [kw d] ts'" "duration d = Some ms" by (auto simp: parseDuration_Inr)
  with p show ?R by (intro exI[of _ "tk_value a"] exI[of _ n] exI[of _ d]) (auto simp: spelled_Cons is_token_def)
next
  assume ?R
  then obtain dm n d where r: "dm = ''cost'' \<or> dm = ''calls''" "duration d \<noteq> None" "node' = stmt_apply (St_budget dm n d) node"
    "spelled ts [kw dm, (T_punct, ''<=''), (T_number, n), kw ''per'', kw d] ts'" by auto
  from r(4) obtain a b c e f where t: "ts = a # b # c # e # f # ts'" "is_token T_ident dm a" "is_token T_punct ''<='' b"
    "is_token T_number n c" "is_token T_ident ''per'' e" "is_token T_ident d f" by (auto simp: spelled_Cons)
  have "expect T_ident ts = Inr (a, b # c # e # f # ts')" "parse_number (c # e # f # ts') = Inr (number_value n, e # f # ts')"
    "expect T_ident (e # f # ts') = Inr (e, f # ts')" "parseDuration (f # ts') = Inr (the (duration d), ts')"
    using t r(2) by (auto simp: is_token_def parse_number_Inr parseDuration_Inr spelled_Cons)
  with t r show "parse_budget node ts = Inr (node', ts')"
    by (auto simp: parse_budget_def then_parse_step is_token_def yields_def simp del: then_parse_Inr expect_Inr)
qed

lemma parse_bound_Inr:
  "parse_bound node ts = Inr (node', ts') \<longleftrightarrow> (\<exists>field n. stmt_ok (St_bound field n) \<and>
     spelled ts [kw field, (T_punct, bound_op field), (T_number, n)] ts' \<and> node' = stmt_apply (St_bound field n) node)"
    (is "_ \<longleftrightarrow> ?R")
proof
  assume parsed: "parse_bound node ts = Inr (node', ts')"
  then obtain a b us where ts: "ts = a # b # us" "tk_type a = T_ident"
    by (auto simp: parse_bound_def)
  have op: "tk_type b = T_punct" "tk_value b = ''<='' \<or> tk_value b = ''>=''"
    using parsed ts by (auto simp: parse_bound_def split: if_split_asm)
  have field: "tk_value a = ''altitude_m'' \<or> tk_value a = ''battery_pct''"
    using parsed ts op by (auto simp: parse_bound_def split: if_split_asm)
  have b: "tk_value b = bound_op (tk_value a)" using parsed ts op field by (auto simp: parse_bound_def bound_op_def split: if_split_asm)
  have "\<exists>x. parse_number us = Inr (x, ts') \<and>
      node' = (if tk_value a = ''altitude_m'' then node \<lparr> wn_maxAltitude := Some x \<rparr> else node \<lparr> wn_batteryMin := Some x \<rparr>)"
    using field
  proof
    assume "tk_value a = ''altitude_m''"
    with parsed ts op b show ?thesis by (simp add: parse_bound_def bound_op_def)
  next
    assume "tk_value a = ''battery_pct''"
    with parsed ts op b show ?thesis by (simp add: parse_bound_def bound_op_def)
  qed
  then obtain n where "spelled us [(T_number, n)] ts'" "node' = stmt_apply (St_bound (tk_value a) n) node"
    unfolding parse_number_Inr by auto
  moreover from this(1) have "spelled ts [kw (tk_value a), (T_punct, bound_op (tk_value a)), (T_number, n)] ts'"
    using ts op(1) b by (simp add: spelled_Cons is_token_def)
  ultimately show ?R using field by (intro exI[of _ "tk_value a"] exI[of _ n]) simp
next
  assume ?R
  then obtain field n where r: "field \<in> {''altitude_m'', ''battery_pct''}" "node' = stmt_apply (St_bound field n) node"
    "spelled ts [kw field, (T_punct, bound_op field), (T_number, n)] ts'" by auto
  from r(3) obtain a b c where t: "ts = a # b # c # ts'" "is_token T_ident field a" "is_token T_punct (bound_op field) b"
    "is_token T_number n c" by (auto simp: spelled_Cons)
  have "expect T_ident ts = Inr (a, b # c # ts')" "parse_number (c # ts') = Inr (number_value n, ts')"
    using t by (auto simp: is_token_def parse_number_Inr spelled_Cons)
  with t r show "parse_bound node ts = Inr (node', ts')"
    by (auto simp: parse_bound_def then_parse_step is_token_def yields_def bound_op_def simp del: then_parse_Inr expect_Inr)
qed

text \<open>The keyword of a statement, and the keywords of the fields among them.\<close>

fun stmt_keyword :: "stmt \<Rightarrow> string" where
  "stmt_keyword (St_field k v) = k"
| "stmt_keyword (St_require rs) = ''require''"
| "stmt_keyword (St_deny as) = ''deny''"
| "stmt_keyword (St_allow as w) = ''allow''"
| "stmt_keyword (St_criticality c) = ''criticality''"
| "stmt_keyword (St_classification l cs) = ''classification''"
| "stmt_keyword (St_approve as n d) = ''approve''"
| "stmt_keyword (St_budget dm n d) = ''budget''"
| "stmt_keyword (St_bound field n) = ''bound''"

lemma not_field: "field_type ''require'' = None" "field_type ''deny'' = None" "field_type ''allow'' = None"
  "field_type ''criticality'' = None" "field_type ''classification'' = None" "field_type ''approve'' = None"
  "field_type ''budget'' = None" "field_type ''bound'' = None" "field_type ''when'' = None" "field_type ''caveats'' = None"
  by (simp_all add: field_type_def)

lemma stmt_lexemes_keyword: "\<exists>ls. stmt_lexemes st = kw (stmt_keyword st) # ls"
  by (cases st) auto

lemma statement_field:
  "field_type (tk_value t) = Some ty \<Longrightarrow> parse_statement t node ts = Inr (node', ts') \<longleftrightarrow>
     (\<exists>v. spelled ts [(ty, v)] ts' \<and> node' = set_field (tk_value t) v node)"
  by (auto simp: parse_statement_def spelled_Cons is_token_def)

lemma parse_statement_sound:
  assumes "tk_type t = T_ident" "parse_statement t node ts = Inr (node', ts')"
  shows "\<exists>st. stmt_ok st \<and> spelled (t # ts) (stmt_lexemes st) ts' \<and> stmt_follow st ts' \<and> node' = stmt_apply st node"
proof (cases "field_type (tk_value t)")
  case (Some ty)
  with assms obtain v where "spelled ts [(ty, v)] ts'" "node' = set_field (tk_value t) v node"
    by (auto simp: statement_field)
  then show ?thesis
    using assms(1) Some by (intro exI[of _ "St_field (tk_value t) v"]) (simp add: spelled_Cons is_token_def)
next
  case None
  have st: ?thesis if "stmt_ok st" "spelled ts (tl (stmt_lexemes st)) ts'" "stmt_follow st ts'" "node' = stmt_apply st node"
    "stmt_keyword st = tk_value t" for st
    using that assms(1) stmt_lexemes_keyword[of st] by (intro exI[of _ st]) (auto simp: spelled_Cons is_token_def)
  consider "tk_value t = ''require''" | "tk_value t = ''deny''" | "tk_value t = ''allow''" | "tk_value t = ''criticality''"
    | "tk_value t = ''classification''" | "tk_value t = ''approve''" | "tk_value t = ''budget''" | "tk_value t = ''bound''"
    using assms(2) None by (auto simp: parse_statement_def Let_def split: if_splits)
  then show ?thesis
  proof cases
    case 1
    with assms(2) None obtain rs where "rs \<noteq> []" "spelled ts (list_lexemes T_ident rs) ts'" "next_not T_punct '','' ts'"
      "node' = node \<lparr> wn_require := wn_require node @ rs \<rparr>" by (auto simp: parse_statement_def identList_Inr)
    with 1 show ?thesis by (intro st[of "St_require rs"]) auto
  next
    case 2
    with assms(2) None obtain as where "as \<noteq> []" "spelled ts (list_lexemes T_ident as) ts'" "next_not T_punct '','' ts'"
      "node' = node \<lparr> wn_deny := wn_deny node @ as \<rparr>" by (auto simp: parse_statement_def identList_Inr)
    with 2 show ?thesis by (intro st[of "St_deny as"]) auto
  next
    case 3
    with assms(2) None have "parse_allow node ts = Inr (node', ts')" by (simp add: parse_statement_def)
    then obtain as w where "stmt_ok (St_allow as w)" "spelled ts (tl (stmt_lexemes (St_allow as w))) ts'"
      "stmt_follow (St_allow as w) ts'" "node' = stmt_apply (St_allow as w) node" unfolding parse_allow_Inr by auto
    with 3 show ?thesis by (intro st[of "St_allow as w"]) auto
  next
    case 4
    with assms(2) None have "parse_criticality node ts = Inr (node', ts')" by (simp add: parse_statement_def)
    then obtain c where "c \<in> set CRITICALITIES" "spelled ts [kw (criticality_name c)] ts'" "node' = node \<lparr> wn_criticality := Some c \<rparr>"
      unfolding parse_criticality_Inr by auto
    with 4 show ?thesis by (intro st[of "St_criticality c"]) auto
  next
    case 5
    with assms(2) None have "parse_classification node ts = Inr (node', ts')" by (simp add: parse_statement_def)
    then obtain l cs where "stmt_ok (St_classification l cs)" "spelled ts (tl (stmt_lexemes (St_classification l cs))) ts'"
      "stmt_follow (St_classification l cs) ts'" "node' = stmt_apply (St_classification l cs) node"
      unfolding parse_classification_Inr by auto
    with 5 show ?thesis by (intro st[of "St_classification l cs"]) auto
  next
    case 6
    with assms(2) None have "parse_approve node ts = Inr (node', ts')" by (simp add: parse_statement_def)
    then obtain as n d where "stmt_ok (St_approve as n d)" "spelled ts (tl (stmt_lexemes (St_approve as n d))) ts'"
      "stmt_follow (St_approve as n d) ts'" "node' = stmt_apply (St_approve as n d) node" unfolding parse_approve_Inr by auto
    with 6 show ?thesis by (intro st[of "St_approve as n d"]) auto
  next
    case 7
    with assms(2) None have "parse_budget node ts = Inr (node', ts')" by (simp add: parse_statement_def)
    then obtain dm n d where "stmt_ok (St_budget dm n d)" "spelled ts (tl (stmt_lexemes (St_budget dm n d))) ts'"
      "node' = stmt_apply (St_budget dm n d) node" unfolding parse_budget_Inr by auto
    with 7 show ?thesis by (intro st[of "St_budget dm n d"]) auto
  next
    case 8
    with assms(2) None have "parse_bound node ts = Inr (node', ts')" by (simp add: parse_statement_def)
    then obtain field n where "stmt_ok (St_bound field n)" "spelled ts (tl (stmt_lexemes (St_bound field n))) ts'"
      "node' = stmt_apply (St_bound field n) node" unfolding parse_bound_Inr by auto
    with 8 show ?thesis by (intro st[of "St_bound field n"]) auto
  qed
qed

lemma parse_statement_complete:
  assumes "stmt_ok st" "spelled ts (stmt_lexemes st) ts'" "stmt_follow st ts'"
  shows "\<exists>t us. ts = t # us \<and> is_token T_ident (stmt_keyword st) t \<and> parse_statement t node us = Inr (stmt_apply st node, ts')"
proof -
  obtain ls where ls: "stmt_lexemes st = kw (stmt_keyword st) # ls" using stmt_lexemes_keyword by blast
  with assms(2) obtain t us where t: "ts = t # us" "is_token T_ident (stmt_keyword st) t" "spelled us ls ts'" by (auto simp: spelled_Cons)
  from t(3) ls have sp: "spelled us (tl (stmt_lexemes st)) ts'" by simp
  from t(2) have k: "tk_value t = stmt_keyword st" by (simp add: is_token_def)
  have "parse_statement t node us = Inr (stmt_apply st node, ts')"
  proof (cases st)
    case (St_field f v)
    with assms(1) obtain ty where "field_type f = Some ty" by auto
    with St_field ls t(3) k show ?thesis by (auto simp: statement_field)
  next
    case (St_require rs)
    with assms ls t(3) k have "identList us = Inr (rs, ts')" by (simp add: identList_Inr)
    with St_require k show ?thesis by (simp add: parse_statement_def not_field then_parse_step yields_def del: then_parse_Inr)
  next
    case (St_deny as)
    with assms ls t(3) k have "identList us = Inr (as, ts')" by (simp add: identList_Inr)
    with St_deny k show ?thesis by (simp add: parse_statement_def not_field then_parse_step yields_def del: then_parse_Inr)
  next
    case (St_allow as w)
    then have "parse_allow node us = Inr (stmt_apply st node, ts')"
      unfolding parse_allow_Inr using assms(1,3) sp by (intro exI[of _ as] exI[of _ w]) simp
    with St_allow k show ?thesis by (simp add: parse_statement_def not_field)
  next
    case (St_criticality c)
    then have "parse_criticality node us = Inr (stmt_apply st node, ts')"
      unfolding parse_criticality_Inr using assms(1,3) sp by (intro exI[of _ c]) simp
    with St_criticality k show ?thesis by (simp add: parse_statement_def not_field)
  next
    case (St_classification l cs)
    then have "parse_classification node us = Inr (stmt_apply st node, ts')"
      unfolding parse_classification_Inr using assms(1,3) sp by (intro exI[of _ l] exI[of _ cs]) simp
    with St_classification k show ?thesis by (simp add: parse_statement_def not_field)
  next
    case (St_approve as n d)
    then have "parse_approve node us = Inr (stmt_apply st node, ts')"
      unfolding parse_approve_Inr using assms(1,3) sp by (intro exI[of _ as] exI[of _ n] exI[of _ d]) simp
    with St_approve k show ?thesis by (simp add: parse_statement_def not_field)
  next
    case (St_budget dm n d)
    then have "parse_budget node us = Inr (stmt_apply st node, ts')"
      unfolding parse_budget_Inr using assms(1,3) sp by (intro exI[of _ dm] exI[of _ n] exI[of _ d]) simp
    with St_budget k show ?thesis by (simp add: parse_statement_def not_field)
  next
    case (St_bound field n)
    have "spelled us [kw field, (T_punct, bound_op field), (T_number, n)] ts'"
      using sp by (simp only: St_bound stmt_lexemes.simps list.sel)
    with assms(1) have "parse_bound node us = Inr (stmt_apply st node, ts')"
      unfolding parse_bound_Inr St_bound by blast
    with St_bound k show ?thesis by (simp add: parse_statement_def not_field)
  qed
  with t show ?thesis by blast
qed

end
