(* ===== verification/Policy_Program.thy ===== *)
theory Policy_Program
  imports Policy_Parser
begin

text \<open>
  The block and program parsers of the policy language (\<open>parseWard\<close>, \<open>parseProgram\<close>).  A program parses exactly when
  its tokens spell blocks of the grammar, each block then denotes its node, and on tokens that end
  with the end marker the parser fails with policy errors only.
\<close>

section \<open>Blocks and programs\<close>

lemma parse_statement_shorter:
  assumes "tk_type t = T_ident" "parse_statement t node ts = Inr (node', ts')"
  shows "length ts' \<le> length ts"
proof -
  obtain st where "spelled (t # ts) (stmt_lexemes st) ts'" using parse_statement_sound[OF assms] by blast
  from spelled_length[OF this] stmt_lexemes_keyword[of st] show ?thesis by auto
qed

function parse_statements :: "WardNode \<Rightarrow> WardNode parser" where
  "parse_statements node ts = bind_result (peek_token ts) (\<lambda>t.
     if is_token T_punct ''}'' t then Inr (node, ts)
     else if tk_type t = T_eof then Inl (policy_error (''unterminated ward block (expected '' @ quoted ''}'' @ '')'') t)
     else if tk_type t \<noteq> T_ident then Inl (policy_error (''unexpected '' @ quoted (shown t) @ '' in ward block'') t)
     else bind_result (parse_statement t node (tl ts)) (\<lambda>(node', ts'). parse_statements node' ts'))"
  by auto
termination
proof (relation "measure (length \<circ> snd)", goal_cases)
  case (2 node ts t r node' ts')
  then obtain us where "ts = t # us" by auto
  with 2 parse_statement_shorter[of t node us node' ts'] show ?case by auto
qed simp

declare parse_statements.simps [simp del]

definition parseWard :: "WardNode parser" where
  "parseWard ts = bind_result (peek_token ts) (\<lambda>t.
     if \<not> is_token T_ident ''ward'' t then Inl (policy_error (''expected '' @ quoted ''ward'' @ '', got '' @ quoted (shown t)) t)
     else then_parse (expect T_string) (\<lambda>name. then_parse (expectPunct ''{'') (\<lambda>_.
       then_parse (parse_statements (new_node (tk_value name) t)) (\<lambda>node. then_parse (expectPunct ''}'') (\<lambda>_. yields node)))) (tl ts))"

text \<open>A block of the grammar: its name and its statements.\<close>

type_synonym block = "string \<times> stmt list"

definition block_lexemes :: "block \<Rightarrow> lexeme list" where
  "block_lexemes b = [kw ''ward'', (T_string, fst b), (T_punct, ''{'')] @ concat (map stmt_lexemes (snd b)) @ [(T_punct, ''}'')]"

text \<open>An approval without a deadline is not followed by a boundary, which would be read as its deadline.\<close>

fun clear_after :: "stmt \<Rightarrow> stmt list \<Rightarrow> bool" where
  "clear_after (St_approve as n None) (St_field k v # sts) \<longleftrightarrow> k \<noteq> ''within''"
| "clear_after _ _ \<longleftrightarrow> True"

fun stmts_ok :: "stmt list \<Rightarrow> bool" where
  "stmts_ok [] \<longleftrightarrow> True"
| "stmts_ok (st # sts) \<longleftrightarrow> stmt_ok st \<and> clear_after st sts \<and> stmts_ok sts"

definition node_of :: "Token \<Rightarrow> block \<Rightarrow> WardNode" where
  "node_of t b = fold stmt_apply (snd b) (new_node (fst b) t)"

abbreviation body_lexemes :: "stmt list \<Rightarrow> lexeme list" where
  "body_lexemes sts \<equiv> concat (map stmt_lexemes sts)"

definition closes :: "Token list \<Rightarrow> bool" where
  "closes ts \<longleftrightarrow> (\<exists>t us. ts = t # us \<and> is_token T_punct ''}'' t)"

text \<open>The token after a statement is a keyword or the closing brace.\<close>

lemma keyword_not_clause: "stmt_ok st \<Longrightarrow> stmt_keyword st \<noteq> ''when'' \<and> stmt_keyword st \<noteq> ''caveats''"
  by (cases st) (auto simp: not_field)

lemma next_after:
  assumes "stmts_ok sts" "spelled us (body_lexemes sts) ts'" "closes ts'"
  shows "next_not T_punct '','' us \<and> next_not T_ident ''when'' us \<and> next_not T_ident ''caveats'' us \<and>
    ((\<forall>st sts'. sts = st # sts' \<longrightarrow> stmt_keyword st \<noteq> ''within'') \<longrightarrow> next_not T_ident ''within'' us)"
proof (cases sts)
  case Nil
  with assms show ?thesis by (auto simp: closes_def next_not_def is_token_def)
next
  case (Cons st sts')
  obtain ls where "stmt_lexemes st = kw (stmt_keyword st) # ls" using stmt_lexemes_keyword by blast
  with assms Cons obtain t vs where "us = t # vs" "is_token T_ident (stmt_keyword st) t" by (auto simp: spelled_Cons)
  with keyword_not_clause[of st] assms(1) Cons show ?thesis by (auto simp: next_not_def is_token_def)
qed

lemma within_keyword: "stmt_ok st \<Longrightarrow> stmt_keyword st = ''within'' \<Longrightarrow> \<exists>v. st = St_field ''within'' v"
  by (cases st) auto

lemma clear_after_iff:
  "stmts_ok sts \<Longrightarrow> clear_after st sts \<longleftrightarrow> (\<forall>as n. st = St_approve as n None \<longrightarrow> (\<forall>st' sts'. sts = st' # sts' \<longrightarrow> stmt_keyword st' \<noteq> ''within''))"
  by (cases "(st, sts)" rule: clear_after.cases) (auto dest: within_keyword)

lemma follow_next:
  assumes "stmts_ok (st # sts)" "spelled us (body_lexemes sts) ts'" "closes ts'"
  shows "stmt_follow st us"
proof -
  have ok: "stmts_ok sts" "clear_after st sts" using assms(1) by auto
  note n = next_after[OF ok(1) assms(2,3)]
  show ?thesis
  proof (cases st)
    case (St_approve as k d)
    with n ok(2) clear_after_iff[OF ok(1), of st] show ?thesis by auto
  qed (use n in auto)
qed

lemma parse_statements_sound:
  "parse_statements node ts = Inr (node', ts') \<Longrightarrow>
     closes ts' \<and> (\<exists>sts. stmts_ok sts \<and> spelled ts (body_lexemes sts) ts' \<and> node' = fold stmt_apply sts node)"
proof (induction node ts rule: parse_statements.induct)
  case (1 node ts)
  then obtain t us where ts: "ts = t # us" by (auto simp: parse_statements.simps[of node ts])
  show ?case
  proof (cases "is_token T_punct ''}'' t")
    case True
    with 1(2) ts show ?thesis
      by (auto simp: parse_statements.simps[of node "t # us"] closes_def intro: exI[of _ "[]"])
  next
    case False
    with 1(2) ts obtain node1 us' where p: "tk_type t = T_ident" "parse_statement t node us = Inr (node1, us')"
      "parse_statements node1 us' = Inr (node', ts')"
      by (auto simp: parse_statements.simps[of node "t # us"] split: if_splits)
    have "closes ts' \<and> (\<exists>sts. stmts_ok sts \<and> spelled us' (body_lexemes sts) ts' \<and> node' = fold stmt_apply sts node1)"
      using 1(1)[of t "(node1, us')" node1 us'] ts False p by simp
    then obtain sts where sts: "closes ts'" "stmts_ok sts" "spelled us' (body_lexemes sts) ts'" "node' = fold stmt_apply sts node1"
      by blast
    obtain st where st: "stmt_ok st" "spelled ts (stmt_lexemes st) us'" "stmt_follow st us'" "node1 = stmt_apply st node"
      using parse_statement_sound[OF p(1,2)] ts by blast
    have "clear_after st sts"
    proof -
      have "stmt_keyword st' \<noteq> ''within''" if "st = St_approve as n None" "sts = st' # sts'" for as n st' sts'
        using that st(3) sts(3) stmt_lexemes_keyword[of st'] by (auto simp: next_not_def spelled_Cons)
      then show ?thesis using clear_after_iff[OF sts(2)] by blast
    qed
    with st sts show ?thesis by (auto simp: spelled_append intro!: exI[of _ "st # sts"])
  qed
qed

lemma parse_statements_complete:
  "stmts_ok sts \<Longrightarrow> spelled ts (body_lexemes sts) ts' \<Longrightarrow> closes ts' \<Longrightarrow>
     parse_statements node ts = Inr (fold stmt_apply sts node, ts')"
proof (induction sts arbitrary: node ts)
  case Nil
  then obtain t us where "ts = t # us" "ts' = ts" "is_token T_punct ''}'' t" by (auto simp: closes_def)
  then show ?case by (simp add: parse_statements.simps[of node "t # us"])
next
  case (Cons st sts)
  then obtain us where us: "spelled ts (stmt_lexemes st) us" "spelled us (body_lexemes sts) ts'" by (auto simp: spelled_append)
  have "stmt_follow st us" using follow_next[OF Cons.prems(1) us(2) Cons.prems(3)] .
  then obtain t vs where t: "ts = t # vs" "is_token T_ident (stmt_keyword st) t" "parse_statement t node vs = Inr (stmt_apply st node, us)"
    using parse_statement_complete[of st ts us node] Cons.prems(1) us(1) by auto
  then show ?case
    using Cons.IH[of us "stmt_apply st node"] Cons.prems us(2)
    by (simp add: parse_statements.simps[of node "t # vs"] is_token_def)
qed

lemma parseWard_Inr:
  "parseWard ts = Inr (node, ts') \<longleftrightarrow>
     (\<exists>b. stmts_ok (snd b) \<and> spelled ts (block_lexemes b) ts' \<and> node = node_of (hd ts) b)" (is "_ \<longleftrightarrow> ?R")
proof
  assume w: "parseWard ts = Inr (node, ts')"
  then obtain t ts1 where t: "ts = t # ts1" by (cases ts) (simp_all add: parseWard_def)
  with w have k: "is_token T_ident ''ward'' t" by (simp add: parseWard_def split: if_split_asm)
  with w t obtain n br us u where p: "ts = t # n # br # us" "is_token T_ident ''ward'' t" "tk_type n = T_string" "is_token T_punct ''{'' br"
    "parse_statements (new_node (tk_value n) t) us = Inr (node, u # ts')" "is_token T_punct ''}'' u"
    by (simp add: parseWard_def) blast
  from parse_statements_sound[OF p(5)] obtain sts where sts: "stmts_ok sts" "spelled us (body_lexemes sts) (u # ts')"
    "node = fold stmt_apply sts (new_node (tk_value n) t)" by blast
  have "spelled us (body_lexemes sts @ [(T_punct, ''}'')]) ts'"
    unfolding spelled_append using sts(2) p(6) by (auto simp: spelled_Cons intro!: exI[of _ "u # ts'"])
  with p sts show ?R
    by (intro exI[of _ "(tk_value n, sts)"]) (simp add: block_lexemes_def node_of_def spelled_Cons is_token_def)
next
  assume ?R
  then obtain b where b: "stmts_ok (snd b)" "spelled ts (block_lexemes b) ts'" "node = node_of (hd ts) b" by blast
  from b(2) obtain t n br us where t: "ts = t # n # br # us" "is_token T_ident ''ward'' t" "is_token T_string (fst b) n"
    "is_token T_punct ''{'' br" "spelled us (body_lexemes (snd b) @ [(T_punct, ''}'')]) ts'"
    by (auto simp: block_lexemes_def spelled_Cons)
  then obtain u where u: "spelled us (body_lexemes (snd b)) (u # ts')" "is_token T_punct ''}'' u"
    by (auto simp: spelled_append spelled_Cons)
  have "parse_statements (new_node (fst b) t) us = Inr (node, u # ts')"
    using parse_statements_complete[OF b(1) u(1)] u(2) b(3) t(1) by (auto simp: closes_def node_of_def)
  with t u(2) show "parseWard ts = Inr (node, ts')" by (auto simp: parseWard_def is_token_def)
qed

lemma parseWard_shorter:
  assumes "parseWard ts = Inr (node, ts')"
  shows "length ts' < length ts"
proof -
  obtain b where "spelled ts (block_lexemes b) ts'" using assms by (auto simp: parseWard_Inr)
  from spelled_length[OF this] show ?thesis by (simp add: block_lexemes_def)
qed

function parseProgram :: "Token list \<Rightarrow> WardNode list result" where
  "parseProgram ts = bind_result (peek_token ts) (\<lambda>t.
     if tk_type t = T_eof then Inr []
     else bind_result (parseWard ts) (\<lambda>(node, ts'). bind_result (parseProgram ts') (\<lambda>nodes. Inr (node # nodes))))"
  by auto
termination by (relation "measure length") (use parseWard_shorter in auto)

declare parseProgram.simps [simp del]

type_synonym program = "block list"

definition program_ok :: "program \<Rightarrow> bool" where
  "program_ok bs \<longleftrightarrow> list_all (\<lambda>b. stmts_ok (snd b)) bs"

definition program_lexemes :: "program \<Rightarrow> lexeme list" where
  "program_lexemes bs = concat (map block_lexemes bs)"

text \<open>A node is the meaning of a block, whatever the position of its keyword.\<close>

definition denotes :: "block \<Rightarrow> WardNode \<Rightarrow> bool" where
  "denotes b node \<longleftrightarrow> (\<exists>t. node = node_of t b)"

definition at_end :: "Token list \<Rightarrow> bool" where
  "at_end ts \<longleftrightarrow> (\<exists>t us. ts = t # us \<and> tk_type t = T_eof)"

lemma parseProgram_sound:
  "parseProgram ts = Inr nodes \<Longrightarrow>
     \<exists>bs us. program_ok bs \<and> spelled ts (program_lexemes bs) us \<and> at_end us \<and> list_all2 denotes bs nodes"
proof (induction ts arbitrary: nodes rule: parseProgram.induct)
  case (1 ts)
  then obtain t vs where ts: "ts = t # vs" by (auto simp: parseProgram.simps[of ts])
  show ?case
  proof (cases "tk_type t = T_eof")
    case True
    with 1(2) ts show ?thesis
      by (intro exI[of _ "[]"] exI[of _ ts]) (simp add: parseProgram.simps[of "t # vs"] program_ok_def program_lexemes_def at_end_def)
  next
    case False
    with 1(2) ts obtain node ts' nodes' where p: "parseWard ts = Inr (node, ts')" "parseProgram ts' = Inr nodes'" "nodes = node # nodes'"
      by (auto simp: parseProgram.simps[of "t # vs"])
    have "\<exists>bs us. program_ok bs \<and> spelled ts' (program_lexemes bs) us \<and> at_end us \<and> list_all2 denotes bs nodes'"
      using 1(1)[of t "(node, ts')" node ts' nodes'] ts False p by simp
    then obtain bs us where bs: "program_ok bs" "spelled ts' (program_lexemes bs) us" "at_end us" "list_all2 denotes bs nodes'" by blast
    obtain b where b: "stmts_ok (snd b)" "spelled ts (block_lexemes b) ts'" "node = node_of (hd ts) b"
      using p(1) by (auto simp: parseWard_Inr)
    have "spelled ts (program_lexemes (b # bs)) us" using b(2) bs(2) by (auto simp: program_lexemes_def spelled_append)
    moreover have "list_all2 denotes (b # bs) nodes" using b(3) bs(4) p(3) by (auto simp: denotes_def)
    moreover have "program_ok (b # bs)" using b(1) bs(1) by (simp add: program_ok_def)
    ultimately show ?thesis using bs(3) by blast
  qed
qed

lemma parseProgram_complete:
  "program_ok bs \<Longrightarrow> spelled ts (program_lexemes bs) us \<Longrightarrow> at_end us \<Longrightarrow> \<exists>nodes. parseProgram ts = Inr nodes \<and> list_all2 denotes bs nodes"
proof (induction bs arbitrary: ts)
  case Nil
  then obtain t vs where "ts = t # vs" "tk_type t = T_eof" by (auto simp: at_end_def program_lexemes_def)
  then show ?case by (simp add: parseProgram.simps[of "t # vs"])
next
  case (Cons b bs)
  then obtain vs where vs: "spelled ts (block_lexemes b) vs" "spelled vs (program_lexemes bs) us"
    by (auto simp: program_lexemes_def spelled_append)
  then obtain nodes where n: "parseProgram vs = Inr nodes" "list_all2 denotes bs nodes"
    using Cons by (auto simp: program_ok_def)
  have w: "parseWard ts = Inr (node_of (hd ts) b, vs)" 
    unfolding parseWard_Inr using Cons.prems(1) vs(1) by (intro exI[of _ b]) (simp add: program_ok_def)
  from vs(1) obtain t ws where "ts = t # ws" "tk_type t = T_ident" by (auto simp: block_lexemes_def spelled_Cons is_token_def)
  moreover have "denotes b (node_of (hd ts) b)" by (auto simp: denotes_def)
  ultimately show ?case using w n by (simp add: parseProgram.simps[of "t # ws"])
qed

section \<open>The parser never reads past the end\<close>

definition ends_eof :: "Token list \<Rightarrow> bool" where
  "ends_eof ts \<longleftrightarrow> (\<exists>us e. ts = us @ [e] \<and> tk_type e = T_eof \<and> list_all (\<lambda>t. tk_type t \<noteq> T_eof) us)"

lemma ends_eof_Cons: "ends_eof (t # ts) \<longleftrightarrow> (if tk_type t = T_eof then ts = [] else ends_eof ts)"
  by (auto simp: ends_eof_def Cons_eq_append_conv)

lemma not_ends_eof_Nil [simp]: "\<not> ends_eof []"
  by (simp add: ends_eof_def)

definition safe_result :: "('a \<times> Token list) result \<Rightarrow> bool" where
  "safe_result r = (case r of Inl e \<Rightarrow> (\<exists>m l c. e = PolicyError m l c) | Inr (x, ts') \<Rightarrow> ends_eof ts')"

definition safe :: "'a parser \<Rightarrow> bool" where
  "safe p \<longleftrightarrow> (\<forall>ts. ends_eof ts \<longrightarrow> safe_result (p ts))"

named_theorems safe_intros

lemma safe_then [safe_intros]:
  assumes "safe p" "\<And>x. safe (q x)"
  shows "safe (then_parse p q)"
  unfolding safe_def
proof (intro allI impI)
  fix ts
  assume "ends_eof ts"
  with assms(1) have "safe_result (p ts)" by (simp add: safe_def)
  then show "safe_result (then_parse p q ts)"
    using assms(2) by (cases "p ts") (auto simp: then_parse_def safe_def safe_result_def)
qed

lemma safe_yields [safe_intros]: "safe (yields x)"
  by (simp add: safe_def safe_result_def yields_def)

lemma safe_fails [safe_intros]: "safe (fails m t)"
  by (simp add: safe_def safe_result_def fails_def policy_error_def)

lemma safe_if [safe_intros]: "safe p \<Longrightarrow> safe q \<Longrightarrow> safe (if c then p else q)"
  by simp

lemma safe_option [safe_intros]: "safe p \<Longrightarrow> (\<And>x. safe (q x)) \<Longrightarrow> safe (case o' of None \<Rightarrow> p | Some x \<Rightarrow> q x)"
  by (cases o') auto

lemma safe_tokenI:
  assumes "\<And>t ts. ends_eof (t # ts) \<Longrightarrow> safe_result (p (t # ts))"
  shows "safe p"
  unfolding safe_def using assms by (metis list.exhaust not_ends_eof_Nil)

lemma safe_expect [safe_intros]: "ty \<noteq> T_eof \<Longrightarrow> safe (expect ty)"
  by (rule safe_tokenI) (auto simp: expect_def safe_result_def policy_error_def ends_eof_Cons split: if_splits)

lemma safe_expectPunct [safe_intros]: "safe (expectPunct v)"
  by (rule safe_tokenI) (auto simp: expectPunct_def safe_result_def policy_error_def is_token_def ends_eof_Cons split: if_splits)

text \<open>\<open>next()\<close> may read the end itself, where what comes next fails.\<close>

lemma safe_next [safe_intros]:
  assumes "\<And>t. tk_type t \<noteq> T_eof \<Longrightarrow> safe (q t)" "\<And>t. tk_type t = T_eof \<Longrightarrow> \<exists>m. q t = fails m t"
  shows "safe (then_parse next_token q)"
proof (rule safe_tokenI)
  fix t ts
  assume e: "ends_eof (t # ts)"
  show "safe_result (then_parse next_token q (t # ts))"
  proof (cases "tk_type t = T_eof")
    case True
    with assms(2) obtain m where "q t = fails m t" by blast
    then show ?thesis by (simp add: then_parse_def fails_def safe_result_def policy_error_def)
  next
    case False
    with e assms(1)[OF False] show ?thesis by (simp add: then_parse_def safe_def ends_eof_Cons)
  qed
qed

lemma safe_clause [safe_intros]:
  assumes "safe p"
  shows "safe (clause k p)"
proof (rule safe_tokenI)
  fix t ts
  assume e: "ends_eof (t # ts)"
  have "safe (then_parse p (\<lambda>x. yields (Some x)))" using assms by (intro safe_intros)
  with e show "safe_result (clause k p (t # ts))"
    by (auto simp: clause_def safe_def safe_result_def is_token_def ends_eof_Cons split: if_splits)
qed

lemma safe_more_values [safe_intros]:
  assumes "ty \<noteq> T_eof"
  shows "safe (more_values ty)"
proof -
  have "ends_eof ts \<Longrightarrow> safe_result (more_values ty ts)" for ts
  proof (induction "length ts" arbitrary: ts rule: less_induct)
    case less
    then obtain t us where ts: "ts = t # us" by (cases ts) auto
    show ?case
    proof (cases "is_token T_punct '','' t")
      case False
      with less.prems ts show ?thesis by (simp add: more_values.simps[of ty "t # us"] safe_result_def)
    next
      case True
      with less.prems ts have us: "ends_eof us" by (simp add: ends_eof_Cons is_token_def)
      have e: "safe_result (expect ty us)" using safe_expect[OF assms] us by (simp add: safe_def)
      show ?thesis
      proof (cases "expect ty us")
        case (Inl x)
        with e True ts show ?thesis by (simp add: more_values.simps[of ty "t # us"] safe_result_def)
      next
        case (Inr r)
        obtain v us' where r: "r = (v, us')" by (cases r)
        have "ends_eof us'" using e by (simp add: Inr r safe_result_def)
        moreover have "length us' < length ts" using Inr ts by (simp add: r)
        ultimately have "safe_result (more_values ty us')" using less.hyps by blast
        moreover have "more_values ty ts = bind_result (more_values ty us') (\<lambda>(vs, ts''). Inr (tk_value v # vs, ts''))"
          unfolding ts more_values.simps[of ty "t # us"] using True Inr r by (simp del: expect_Inr)
        ultimately show ?thesis by (cases "more_values ty us'") (auto simp: safe_result_def)
      qed
    qed
  qed
  then show ?thesis by (simp add: safe_def)
qed

lemma safe_statement_parts [safe_intros]:
  "ty \<noteq> T_eof \<Longrightarrow> safe (value_list ty)" "safe identList" "safe parse_number" "safe parseDuration"
  unfolding value_list_def identList_def parse_number_def parseDuration_def
  by (intro safe_intros; simp)+

lemma eof_not_punct: "tk_type t = T_eof \<Longrightarrow> \<not> is_token T_punct v t"
  by (simp add: is_token_def)

lemma safe_statement_kinds:
  "safe (parse_allow node)" "safe (parse_criticality node)" "safe (parse_classification node)" "safe (parse_approve node)"
  "safe (parse_budget node)" "safe (parse_bound node)"
  unfolding parse_allow_def parse_criticality_def parse_classification_def parse_approve_def parse_budget_def parse_bound_def
  by (intro safe_intros; force simp: eof_not_punct)+

lemma field_type_no_eof: "field_type k = Some ty \<Longrightarrow> ty \<noteq> T_eof"
  by (auto simp: field_type_def split: if_splits)

lemma safe_statement: "safe (parse_statement t node)"
proof (cases "field_type (tk_value t)")
  case (Some ty)
  then have "safe (then_parse (expect ty) (\<lambda>v. yields (set_field (tk_value t) (tk_value v) node)))"
    by (intro safe_intros field_type_no_eof)
  with Some show ?thesis by (simp add: parse_statement_def)
next
  case None
  have "safe (then_parse identList f)" if "\<And>x. safe (f x)" for f :: "string list \<Rightarrow> WardNode parser"
    using that by (intro safe_intros)
  with None show ?thesis
    unfolding parse_statement_def Let_def by (auto intro!: safe_statement_kinds safe_then safe_statement_parts safe_yields safe_fails)
qed

lemma safe_statements: "safe (parse_statements node)"
proof -
  have "ends_eof ts \<Longrightarrow> safe_result (parse_statements node ts)" for ts
  proof (induction node ts rule: parse_statements.induct)
    case (1 node ts)
    then obtain t us where ts: "ts = t # us" by (cases ts) auto
    have rec: ?case if k: "\<not> is_token T_punct ''}'' t" "tk_type t = T_ident"
    proof -
      have us: "ends_eof us" using 1(2) ts k by (simp add: ends_eof_Cons)
      then have st: "safe_result (parse_statement t node us)" using safe_statement by (auto simp: safe_def)
      have eq: "parse_statements node ts = bind_result (parse_statement t node us) (\<lambda>(node', ts'). parse_statements node' ts')"
        unfolding ts parse_statements.simps[of node "t # us"] using k by simp
      show ?case
      proof (cases "parse_statement t node us")
        case (Inl e)
        with st eq show ?thesis by (simp add: safe_result_def)
      next
        case (Inr r)
        obtain node' ts' where r: "r = (node', ts')" by (cases r)
        with st Inr have e: "ends_eof ts'" by (simp add: safe_result_def)
        have "safe_result (parse_statements node' ts')"
          by (rule 1(1)[of t r node' ts']) (use ts k Inr r e in simp_all)
        then show ?thesis unfolding eq Inr r by simp
      qed
    qed
    show ?case
      using rec 1(2) ts
      by (cases "is_token T_punct ''}'' t"; cases "tk_type t = T_ident")
        (auto simp: parse_statements.simps[of node "t # us"] safe_result_def policy_error_def)
  qed
  then show ?thesis by (simp add: safe_def)
qed

lemma safe_ward: "safe parseWard"
proof (rule safe_tokenI)
  fix t ts
  assume e: "ends_eof (t # ts)"
  have "safe (then_parse (expect T_string) (\<lambda>name. then_parse (expectPunct ''{'') (\<lambda>_.
      then_parse (parse_statements (new_node (tk_value name) t)) (\<lambda>node. then_parse (expectPunct ''}'') (\<lambda>_. yields node)))))"
    by (intro safe_intros safe_statements) simp
  with e show "safe_result (parseWard (t # ts))"
    by (auto simp: parseWard_def safe_def safe_result_def policy_error_def is_token_def ends_eof_Cons)
qed

lemma parseProgram_error: "ends_eof ts \<Longrightarrow> parseProgram ts = Inl e \<Longrightarrow> \<exists>m l c. e = PolicyError m l c"
proof (induction ts rule: parseProgram.induct)
  case (1 ts)
  then obtain t us where ts: "ts = t # us" by (cases ts) auto
  have w: "safe_result (parseWard ts)" using safe_ward 1(2) by (simp add: safe_def)
  have eq: "parseProgram ts = (if tk_type t = T_eof then Inr []
      else bind_result (parseWard ts) (\<lambda>(node, ts'). bind_result (parseProgram ts') (\<lambda>nodes. Inr (node # nodes))))"
    unfolding ts parseProgram.simps[of "t # us"] by simp
  with 1(3) have k: "tk_type t \<noteq> T_eof" by (simp split: if_split_asm)
  show ?case
  proof (cases "parseWard ts")
    case (Inl x)
    with w 1(3) eq k show ?thesis by (simp add: safe_result_def)
  next
    case (Inr r)
    obtain node ts' where r: "r = (node, ts')" by (cases r)
    with w Inr have e: "ends_eof ts'" by (simp add: safe_result_def)
    have "parseProgram ts' = Inl e" using 1(3) unfolding eq Inr r using k by (auto simp: bind_result_eq_Inl)
    then show ?thesis by (intro 1(1)[of t r node ts']) (use ts Inr r e k in simp_all)
  qed
qed

text \<open>The tokenizer ends every token list with the end marker, and puts none before it.\<close>

lemma spells_no_eof: "spells ls s \<Longrightarrow> list_all (\<lambda>l. fst l \<noteq> T_eof) ls"
proof (induction rule: spells.induct)
  case (spells_lexeme l s ls)
  then show ?case by (cases "(l, s)" rule: lexeme_fits.cases) auto
qed auto

lemma tokenize_ends_eof:
  assumes "tokenize_from p s = Inr ts"
  shows "ends_eof ts"
proof -
  obtain ls where ls: "map lexeme_of ts = ls @ [(T_eof, [])]" "spells ls s" using tokenize_sound[OF assms] by blast
  then obtain us e where ts: "ts = us @ [e]" "map lexeme_of us = ls" "lexeme_of e = (T_eof, [])"
    by (auto simp: map_eq_append_conv)
  have "list_all (\<lambda>t. tk_type t \<noteq> T_eof) us"
    using spells_no_eof[OF ls(2)] unfolding ts(2)[symmetric] by (simp add: list_all_iff lexeme_of_def)
  with ts show ?thesis by (auto simp: ends_eof_def lexeme_of_def)
qed

end
