(* ===== verification/Policy_Compiler.thy ===== *)
theory Policy_Compiler
  imports Policy_Program Commit_Gate
begin

text \<open>
  The compiler of the policy language (\<open>slug\<close>, \<open>compileWard\<close> and \<open>compilePolicy\<close> of
  \<open>execution-control-runtime/src/policy-dsl.ts\<close>).  The main theorems: the compiler always answers, accepts
  exactly the sources the grammar derives whose blocks name a subject and distinct Wards, and returns
  the drafts the grammar assigns to them; and what the Commit Gate admits under a compiled draft is
  what the statements of its block grant.

  The key \<open>__proto__\<close> is not among the properties the compiler sets.
\<close>

section \<open>Drafts and results\<close>

record GovernanceDraft =
  gd_ward :: WardManifest
  gd_authorityEnvelope :: AuthorityEnvelope
  gd_now :: "iso_time option"

record PolicyDiagnostic =
  pd_message :: string
  pd_line :: nat
  pd_column :: nat

record PolicyCompileResult =
  pc_drafts :: "GovernanceDraft list"
  pc_diagnostics :: "PolicyDiagnostic list"
  pc_ok :: bool

section \<open>The identifier of a Ward\<close>

definition is_slug_char :: "char \<Rightarrow> bool" where
  "is_slug_char c \<longleftrightarrow> 97 \<le> code c \<and> code c \<le> 122 \<or> is_digit c"

text \<open>\<open>.replace(/[^a-z0-9]+/g, "-")\<close>.\<close>

function dash_runs :: "string \<Rightarrow> string" where
  "dash_runs [] = []"
| "dash_runs (c # cs) =
     (if is_slug_char c then c # dash_runs cs else CHR ''-'' # dash_runs (dropWhile (\<lambda>c. \<not> is_slug_char c) cs))"
  by pat_completeness auto
termination by (relation "measure length") (auto simp: le_imp_less_Suc length_dropWhile_le)

definition slug :: "string \<Rightarrow> string" where
  "slug name =
     (let dashed = dash_runs (js_lower name);
          stripped = rev (dropWhile (\<lambda>c. c = CHR ''-'') (rev (dropWhile (\<lambda>c. c = CHR ''-'') dashed)))
      in if stripped = [] then ''ward'' else stripped)"

text \<open>\<open>[...new Set(values)]\<close>: the first occurrences, in order.\<close>

definition unique_strings :: "string list \<Rightarrow> string list" where
  "unique_strings values = fold (\<lambda>v seen. if v \<in> set seen then seen else seen @ [v]) values []"

section \<open>Compiling a block\<close>

definition or_default :: "'a option \<Rightarrow> 'a \<Rightarrow> 'a" where
  "or_default x d = (case x of Some v \<Rightarrow> v | None \<Rightarrow> d)"

definition present :: "string \<Rightarrow> ('a \<Rightarrow> json) \<Rightarrow> 'a option \<Rightarrow> jsobject" where
  "present key f x = (case x of Some v \<Rightarrow> [(key, f v)] | None \<Rightarrow> [])"

definition ward_id_of :: "WardNode \<Rightarrow> string" where
  "ward_id_of node = or_default (wn_id node) (slug (wn_name node))"

text \<open>\<open>node.boundary\<close> where it is truthy.\<close>

definition boundary_of :: "WardNode \<Rightarrow> string option" where
  "boundary_of node = (if str_truthy (wn_boundary node) then wn_boundary node else None)"

definition bounds_of :: "WardNode \<Rightarrow> PhysicalBounds option" where
  "bounds_of node =
     (if wn_maxAltitude node \<noteq> None \<or> wn_batteryMin node \<noteq> None \<or> boundary_of node \<noteq> None
      then Some (present ''max_altitude_m'' JNum (wn_maxAltitude node) @ present ''permitted_boundary_id'' JStr (boundary_of node) @
                 present ''battery_minimum_pct'' JNum (wn_batteryMin node))
      else None)"

definition registers_of :: "WardNode \<Rightarrow> string list" where
  "registers_of node = unique_strings (concat (map an_when (wn_allow node)) @ wn_require node)"

definition dual_control_json :: "DualControlNode \<Rightarrow> json" where
  "dual_control_json d = JObj ([(''actions'', JArr (map JStr (dn_actions d))), (''required'', JNum (dn_required d))] @
     present ''ttlMs'' JNum (dn_ttlMs d))"

definition constraints_of :: "WardNode \<Rightarrow> jsobject" where
  "constraints_of node =
     (if registers_of node \<noteq> [] then [(''required_runtime_registers'', JArr (map JStr (registers_of node)))] else []) @
     present ''max_altitude_m'' JNum (wn_maxAltitude node) @
     present ''permitted_boundary_id'' JStr (boundary_of node) @
     present ''budget'' JObj (wn_budget node) @
     present ''dual_control'' dual_control_json (wn_dualControl node)"

definition ward_of :: "WardNode \<Rightarrow> string \<Rightarrow> WardManifest" where
  "ward_of node subject =
     \<lparr> wm_ward_id = ward_id_of node, wm_name = wn_name node,
       wm_sovereignty_context = or_default (wn_sovereignty node) ''unspecified'',
       wm_authority_domain = or_default (wn_domain node) ''default-domain'',
       wm_policy_version = or_default (wn_version node) ''0.1.0'', wm_evidence_ledger_path = None,
       wm_permitted_subjects = [subject], wm_physical_bounds = bounds_of node, wm_metadata = None,
       wm_classification = wn_classification node, wm_criticality = wn_criticality node \<rparr>"

definition envelope_of :: "WardNode \<Rightarrow> string \<Rightarrow> AuthorityEnvelope" where
  "envelope_of node subject =
     \<lparr> ae_envelope_id = or_default (wn_envelope node) (''ae-'' @ ward_id_of node), ae_ward_id = ward_id_of node,
       ae_subject = subject, ae_allowed_actions = unique_strings (concat (map an_actions (wn_allow node))),
       ae_denied_actions = unique_strings (wn_deny node), ae_constraints = constraints_of node,
       ae_expires_at = or_default (wn_expires node) ''2099-12-31T23:59:59Z'',
       ae_issuer = or_default (wn_issuer node) ''aristotle-root'', ae_signature = None,
       ae_classification = wn_classification node \<rparr>"

definition draft_of :: "iso_time option \<Rightarrow> WardNode \<Rightarrow> string \<Rightarrow> GovernanceDraft" where
  "draft_of now node subject =
     \<lparr> gd_ward = ward_of node subject, gd_authorityEnvelope = envelope_of node subject, gd_now = now \<rparr>"

definition compileWard :: "iso_time option \<Rightarrow> WardNode \<Rightarrow> GovernanceDraft result" where
  "compileWard now node =
     (case wn_subject node of
        Some (c # cs) \<Rightarrow> Inr (draft_of now node (c # cs))
      | _ \<Rightarrow> Inl (policy_error (''ward '' @ [dquote] @ wn_name node @ [dquote] @ '' has no subject'') (wn_token node)))"

section \<open>Compiling a source\<close>

fun first_duplicate :: "string list \<Rightarrow> string list \<Rightarrow> string option" where
  "first_duplicate seen [] = None"
| "first_duplicate seen (i # is) = (if i \<in> set seen then Some i else first_duplicate (i # seen) is)"

definition policy_rejected :: "string \<Rightarrow> nat \<Rightarrow> nat \<Rightarrow> PolicyCompileResult" where
  "policy_rejected message line column =
     \<lparr> pc_drafts = [], pc_diagnostics = [\<lparr> pd_message = message, pd_line = line, pd_column = column \<rparr>], pc_ok = False \<rparr>"

definition policy_accepted :: "GovernanceDraft list \<Rightarrow> PolicyCompileResult" where
  "policy_accepted drafts = \<lparr> pc_drafts = drafts, pc_diagnostics = [], pc_ok = True \<rparr>"

text \<open>The body of the \<open>try\<close>; the message of a caught error loses the position its constructor appended.\<close>

definition compile_body :: "string \<Rightarrow> iso_time option \<Rightarrow> PolicyCompileResult result" where
  "compile_body source now =
     bind_result (tokenize source) (\<lambda>ts. bind_result (parseProgram ts) (\<lambda>nodes.
       if nodes = [] then Inr (policy_rejected ''no ward blocks found'' 1 1)
       else bind_result (map_result (compileWard now) nodes) (\<lambda>drafts.
         case first_duplicate [] (map (wm_ward_id \<circ> gd_ward) drafts) of
           Some i \<Rightarrow> Inr (policy_rejected (''duplicate ward id '' @ quoted i) 1 1)
         | None \<Rightarrow> Inr (policy_accepted drafts))))"

definition compilePolicy :: "string \<Rightarrow> iso_time option \<Rightarrow> PolicyCompileResult result" where
  "compilePolicy source now =
     (case compile_body source now of Inl (PolicyError message line column) \<Rightarrow> Inr (policy_rejected message line column) | r \<Rightarrow> r)"

section \<open>The compiler and the grammar\<close>

definition writes :: "string \<Rightarrow> program \<Rightarrow> bool" where
  "writes source prog \<longleftrightarrow> program_ok prog \<and> spells (program_lexemes prog) source"

text \<open>The meaning of a block, at no particular position.\<close>

definition block_node :: "block \<Rightarrow> WardNode" where
  "block_node b = node_of \<lparr> tk_type = T_ident, tk_value = ''ward'', tk_line = 1, tk_column = 1 \<rparr> b"

definition block_draft :: "iso_time option \<Rightarrow> block \<Rightarrow> GovernanceDraft" where
  "block_draft now b = draft_of now (block_node b) (or_default (wn_subject (block_node b)) [])"

definition compilable :: "program \<Rightarrow> bool" where
  "compilable prog \<longleftrightarrow> prog \<noteq> [] \<and> (\<forall>b \<in> set prog. str_truthy (wn_subject (block_node b))) \<and>
     distinct (map (ward_id_of \<circ> block_node) prog)"

lemma stmt_apply_token: "stmt_apply st (node \<lparr> wn_token := t \<rparr>) = (stmt_apply st node) \<lparr> wn_token := t \<rparr>"
  by (cases st) (simp_all add: set_field_def add_allow_def set_approve_def set_budget_def Let_def)

lemma fold_apply_token: "fold stmt_apply sts (node \<lparr> wn_token := t \<rparr>) = (fold stmt_apply sts node) \<lparr> wn_token := t \<rparr>"
  by (induction sts arbitrary: node) (simp_all add: stmt_apply_token)

lemma denotes_block: "denotes b node \<Longrightarrow> \<exists>t. node = (block_node b) \<lparr> wn_token := t \<rparr>"
proof -
  have "new_node n t = (new_node n t') \<lparr> wn_token := t \<rparr>" for n t t' by (simp add: new_node_def)
  then have "node_of t b = (node_of t' b) \<lparr> wn_token := t \<rparr>" for t t'
    unfolding node_of_def by (metis fold_apply_token)
  then show "denotes b node \<Longrightarrow> ?thesis" unfolding denotes_def block_node_def by blast
qed

lemma draft_of_token: "draft_of now (node \<lparr> wn_token := t \<rparr>) s = draft_of now node s"
  by (simp add: draft_of_def ward_of_def envelope_of_def ward_id_of_def bounds_of_def boundary_of_def registers_of_def constraints_of_def)

lemma compileWard_block:
  assumes "denotes b node"
  shows "compileWard now node = Inr d \<longleftrightarrow> str_truthy (wn_subject (block_node b)) \<and> d = block_draft now b"
    and "\<not> str_truthy (wn_subject (block_node b)) \<Longrightarrow> \<exists>m l c. compileWard now node = Inl (PolicyError m l c)"
proof -
  obtain t where "node = (block_node b) \<lparr> wn_token := t \<rparr>" using denotes_block[OF assms] by blast
  then have n: "wn_subject node = wn_subject (block_node b)" "draft_of now node s = draft_of now (block_node b) s" for s
    by (simp_all add: draft_of_token)
  show "compileWard now node = Inr d \<longleftrightarrow> str_truthy (wn_subject (block_node b)) \<and> d = block_draft now b"
    by (auto simp: compileWard_def n block_draft_def or_default_def split: option.splits list.splits)
  show "\<exists>m l c. compileWard now node = Inl (PolicyError m l c)" if "\<not> str_truthy (wn_subject (block_node b))"
    using that by (auto simp: compileWard_def n policy_error_def split: option.splits list.splits)
qed

lemma compile_nodes:
  assumes "list_all2 denotes prog nodes"
  shows "map_result (compileWard now) nodes = Inr ds \<longleftrightarrow>
      (\<forall>b \<in> set prog. str_truthy (wn_subject (block_node b))) \<and> ds = map (block_draft now) prog"
    and "map_result (compileWard now) nodes = Inl e \<Longrightarrow> \<exists>m l c. e = PolicyError m l c"
proof -
  show "map_result (compileWard now) nodes = Inr ds \<longleftrightarrow>
      (\<forall>b \<in> set prog. str_truthy (wn_subject (block_node b))) \<and> ds = map (block_draft now) prog"
    using assms
  proof (induction arbitrary: ds rule: list_all2_induct)
    case (Cons b bs n ns)
    show ?case
      using Cons(3) by (auto simp: compileWard_block(1)[OF Cons(1)])
  qed auto
  show "map_result (compileWard now) nodes = Inl e \<Longrightarrow> \<exists>m l c. e = PolicyError m l c"
    using assms
  proof (induction rule: list_all2_induct)
    case (Cons b bs n ns)
    then show ?case
      using compileWard_block(1)[OF Cons(1), of now "block_draft now b"] compileWard_block(2)[OF Cons(1), of now]
      by (cases "str_truthy (wn_subject (block_node b))") (auto simp: bind_result_eq_Inl)
  qed simp
qed

lemma first_duplicate_None: "first_duplicate seen is = None \<longleftrightarrow> distinct is \<and> set seen \<inter> set is = {}"
  by (induction seen "is" rule: first_duplicate.induct) auto

lemma block_draft_ward: "wm_ward_id (gd_ward (block_draft now b)) = ward_id_of (block_node b)"
  by (simp add: block_draft_def draft_of_def ward_of_def)

lemma spelled_all: "spelled ts ls us \<Longrightarrow> at_end us \<Longrightarrow> map lexeme_of ts = ls' @ [(T_eof, [])] \<Longrightarrow> list_all (\<lambda>l. fst l \<noteq> T_eof) ls' \<Longrightarrow> ls = ls'"
proof -
  assume a: "spelled ts ls us" "at_end us" "map lexeme_of ts = ls' @ [(T_eof, [])]" "list_all (\<lambda>l. fst l \<noteq> T_eof) ls'"
  from a(1,2) obtain vs e ws where ts: "ts = vs @ e # ws" "map lexeme_of vs = ls" "tk_type e = T_eof"
    by (auto simp: spelled_def at_end_def)
  have eq: "ls @ lexeme_of e # map lexeme_of ws = ls' @ [(T_eof, [])]" using a(3) ts by simp
  have "ws = []"
  proof (rule ccontr)
    assume "ws \<noteq> []"
    then have "butlast (ls @ lexeme_of e # map lexeme_of ws) = ls @ lexeme_of e # butlast (map lexeme_of ws)" by (simp add: butlast_append)
    with eq have "lexeme_of e \<in> set ls'" by (metis butlast_snoc in_set_conv_decomp)
    with a(4) ts(3) show False by (auto simp: list_all_iff lexeme_of_def)
  qed
  with eq show "ls = ls'" by simp
qed

lemma tokenize_program:
  assumes "tokenize source = Inr ts"
  shows "program_ok prog \<and> (\<exists>us. spelled ts (program_lexemes prog) us \<and> at_end us) \<longleftrightarrow> writes source prog"
proof -
  obtain ls where ls: "map lexeme_of ts = ls @ [(T_eof, [])]" "spells ls source"
    using tokenize_sound assms unfolding tokenize_def by blast
  note no_eof = spells_no_eof[OF ls(2)]
  have "(\<exists>us. spelled ts (program_lexemes prog) us \<and> at_end us) \<longleftrightarrow> program_lexemes prog = ls"
  proof
    assume "program_lexemes prog = ls"
    moreover obtain us e where "ts = us @ [e]" "map lexeme_of us = ls" "lexeme_of e = (T_eof, [])"
      using ls(1) by (auto simp: map_eq_append_conv)
    ultimately have "spelled ts (program_lexemes prog) [e]" "at_end [e]" by (auto simp: spelled_def at_end_def lexeme_of_def)
    then show "\<exists>us. spelled ts (program_lexemes prog) us \<and> at_end us" by blast
  qed (use spelled_all[OF _ _ ls(1) no_eof] in blast)
  moreover have "spells ls' source \<Longrightarrow> ls' = ls" for ls'
    using tokenize_complete[of ls' source "(1, 1)"] assms ls(1) by (auto simp: tokenize_def)
  ultimately show ?thesis using ls(2) unfolding writes_def by blast
qed

lemma writes_tokenizes: "writes source prog \<Longrightarrow> \<exists>ts. tokenize source = Inr ts"
  using tokenize_complete unfolding writes_def tokenize_def by blast

lemma parse_source:
  assumes "tokenize source = Inr ts"
  shows "parseProgram ts = Inr nodes \<Longrightarrow> \<exists>prog. writes source prog \<and> list_all2 denotes prog nodes"
    and "writes source prog \<Longrightarrow> \<exists>nodes. parseProgram ts = Inr nodes \<and> list_all2 denotes prog nodes"
    and "parseProgram ts = Inl e \<Longrightarrow> \<exists>m l c. e = PolicyError m l c"
proof -
  show "parseProgram ts = Inr nodes \<Longrightarrow> \<exists>prog. writes source prog \<and> list_all2 denotes prog nodes"
    using parseProgram_sound[of ts nodes] tokenize_program[OF assms] by blast
  show "writes source prog \<Longrightarrow> \<exists>nodes. parseProgram ts = Inr nodes \<and> list_all2 denotes prog nodes"
    using parseProgram_complete[of prog ts] tokenize_program[OF assms, of prog] by blast
  show "parseProgram ts = Inl e \<Longrightarrow> \<exists>m l c. e = PolicyError m l c"
    using parseProgram_error[of ts e] tokenize_ends_eof assms by (auto simp: tokenize_def)
qed

lemma compile_body_written:
  assumes "writes source prog"
  shows "compilable prog \<Longrightarrow> compile_body source now = Inr (policy_accepted (map (block_draft now) prog))"
    and "\<not> compilable prog \<Longrightarrow> \<exists>m l c. compile_body source now \<in> {Inr (policy_rejected m l c), Inl (PolicyError m l c)}"
proof -
  obtain ts nodes where ts: "tokenize source = Inr ts" "parseProgram ts = Inr nodes" and d: "list_all2 denotes prog nodes"
    using writes_tokenizes[OF assms] parse_source(2) assms by blast
  have ids: "map (wm_ward_id \<circ> gd_ward) (map (block_draft now) prog) = map (ward_id_of \<circ> block_node) prog"
    by (simp add: block_draft_ward)
  have ne: "nodes = [] \<longleftrightarrow> prog = []" using d by auto
  show "compile_body source now = Inr (policy_accepted (map (block_draft now) prog))" if c: "compilable prog"
  proof -
    have "map_result (compileWard now) nodes = Inr (map (block_draft now) prog)" using c by (simp add: compile_nodes(1)[OF d] compilable_def)
    moreover have "first_duplicate [] (map (ward_id_of \<circ> block_node) prog) = None" using c by (simp add: first_duplicate_None compilable_def)
    ultimately show ?thesis using c ts ne by (simp add: compile_body_def ids[unfolded map_map] compilable_def)
  qed
  show "\<exists>m l c. compile_body source now \<in> {Inr (policy_rejected m l c), Inl (PolicyError m l c)}" if c: "\<not> compilable prog"
  proof (cases "map_result (compileWard now) nodes")
    case (Inl e)
    with compile_nodes(2)[OF d] ts show ?thesis by (cases "nodes = []") (auto simp: compile_body_def)
  next
    case (Inr ds)
    then have ds: "ds = map (block_draft now) prog" "\<forall>b \<in> set prog. str_truthy (wn_subject (block_node b))"
      by (auto simp: compile_nodes(1)[OF d])
    show ?thesis
    proof (cases "prog = []")
      case True
      with ts ne show ?thesis by (auto simp: compile_body_def)
    next
      case False
      with c ds(2) have "first_duplicate [] (map (wm_ward_id \<circ> gd_ward) ds) \<noteq> None"
        unfolding ds(1) ids by (auto simp: first_duplicate_None compilable_def)
      with ts ne False Inr show ?thesis by (auto simp: compile_body_def) blast
    qed
  qed
qed

lemma compile_body_unwritten:
  assumes "\<nexists>prog. writes source prog"
  shows "\<exists>m l c. compile_body source now = Inl (PolicyError m l c)"
proof (cases "tokenize source")
  case (Inl e)
  with tokenize_error show ?thesis by (auto simp: compile_body_def tokenize_def)
next
  case (Inr ts)
  show ?thesis
  proof (cases "parseProgram ts")
    case (Inl e)
    with parse_source(3)[OF Inr Inl] Inr show ?thesis by (auto simp: compile_body_def)
  next
    case (Inr nodes)
    with parse_source(1)[OF \<open>tokenize source = Inr ts\<close>] assms show ?thesis by blast
  qed
qed

lemma compile_exact:
  "\<exists>r. compilePolicy source now = Inr r \<and>
     (pc_ok r \<longleftrightarrow> (\<exists>prog. writes source prog \<and> compilable prog)) \<and>
     (\<forall>prog. writes source prog \<and> compilable prog \<longrightarrow> r = policy_accepted (map (block_draft now) prog)) \<and>
     (\<not> pc_ok r \<longrightarrow> (\<exists>message line column. r = policy_rejected message line column))"
proof (cases "\<exists>prog. writes source prog \<and> compilable prog")
  case True
  then obtain prog where p: "writes source prog" "compilable prog" by blast
  have r: "compilePolicy source now = Inr (policy_accepted (map (block_draft now) prog))"
    by (simp add: compilePolicy_def compile_body_written(1)[OF p])
  have "policy_accepted (map (block_draft now) prog) = policy_accepted (map (block_draft now) prog')" if "writes source prog'" "compilable prog'" for prog'
    using compile_body_written(1)[OF that, of now] compile_body_written(1)[OF p, of now] by simp
  with r True show ?thesis by (auto simp: policy_accepted_def)
next
  case False
  have "\<exists>m l c. compile_body source now \<in> {Inr (policy_rejected m l c), Inl (PolicyError m l c)}"
    using compile_body_written(2) compile_body_unwritten[of source now] False by (cases "\<exists>prog. writes source prog") blast+
  then have "\<exists>m l c. compilePolicy source now = Inr (policy_rejected m l c)" by (auto simp: compilePolicy_def) blast+
  with False show ?thesis by (auto simp: policy_rejected_def)
qed

text \<open>
  C32 The policy compiler is exact.  On every source it answers, and never with anything but a result:
  it accepts exactly the sources that the lexical rules and the grammar derive from a program whose
  blocks all name a subject and have distinct Ward identifiers, and then returns the drafts that the
  statements of that program denote, in the order of the blocks; every other source gets one
  diagnostic and no draft.
\<close>

theorem policy_compiler_exact:
  "\<exists>r. compilePolicy source now = Inr r \<and>
     (pc_ok r \<longleftrightarrow> (\<exists>prog. writes source prog \<and> compilable prog)) \<and>
     (\<forall>prog. writes source prog \<and> compilable prog \<longrightarrow> r = policy_accepted (map (block_draft now) prog)) \<and>
     (\<not> pc_ok r \<longrightarrow> (\<exists>message line column. r = policy_rejected message line column))"
  by (rule compile_exact)

definition sample_policy :: string where
  "sample_policy = ''ward '' @ [dquote] @ ''Pay'' @ [dquote] @ '' { # refunds'' @ [newline] @
     ''subject agent expires '' @ [dquote] @ ''900'' @ [dquote] @ [newline] @ ''allow pay,read when telemetry.ok'' @ [newline] @ ''deny wire }''"

definition sample_program :: program where
  "sample_program = [(''Pay'', [St_field ''subject'' ''agent'', St_field ''expires'' ''900'', St_allow [''pay'', ''read''] (Some [''telemetry.ok'']), St_deny [''wire'']])]"

lemma sample_tokens: "map_sum id (map lexeme_of) (tokenize sample_policy) = Inr (program_lexemes sample_program @ [(T_eof, [])])"
  by code_simp

lemma sample_writes: "writes sample_policy sample_program"
proof -
  obtain ts where ts: "tokenize sample_policy = Inr ts" "map lexeme_of ts = program_lexemes sample_program @ [(T_eof, [])]"
    using sample_tokens by (cases "tokenize sample_policy") auto
  then have "spells (program_lexemes sample_program) sample_policy" using tokenize_sound[of "(1, 1)" sample_policy ts] by (auto simp: tokenize_def)
  moreover have "program_ok sample_program" by (simp add: program_ok_def sample_program_def field_type_def)
  ultimately show ?thesis by (simp add: writes_def)
qed

lemma sample_compilable: "compilable sample_program"
  by (simp add: compilable_def sample_program_def block_node_def node_of_def set_field_def add_allow_def new_node_def)

theorem policy_compiler_exact_witness:
  "\<exists>r. compilePolicy sample_policy None = Inr r \<and> pc_ok r \<and> pc_drafts r = map (block_draft None) sample_program"
  using policy_compiler_exact[of sample_policy None] sample_writes sample_compilable by (auto simp: policy_accepted_def)

section \<open>What a block grants\<close>

fun stmt_allows :: "stmt \<Rightarrow> string list" where
  "stmt_allows (St_allow as w) = as"
| "stmt_allows _ = []"

fun stmt_denies :: "stmt \<Rightarrow> string list" where
  "stmt_denies (St_deny as) = as"
| "stmt_denies _ = []"

text \<open>The runtime state a statement asks for.\<close>

fun stmt_needs :: "stmt \<Rightarrow> string list" where
  "stmt_needs (St_allow as (Some w)) = w"
| "stmt_needs (St_require rs) = rs"
| "stmt_needs _ = []"

lemma set_field_sel [simp]:
  "wn_allow (set_field k v n) = wn_allow n" "wn_deny (set_field k v n) = wn_deny n" "wn_require (set_field k v n) = wn_require n"
  "wn_maxAltitude (set_field k v n) = wn_maxAltitude n" "wn_batteryMin (set_field k v n) = wn_batteryMin n"
  by (simp_all add: set_field_def)

lemma set_approve_sel [simp]:
  "wn_allow (set_approve as r t n) = wn_allow n" "wn_deny (set_approve as r t n) = wn_deny n"
  "wn_require (set_approve as r t n) = wn_require n" "wn_maxAltitude (set_approve as r t n) = wn_maxAltitude n"
  "wn_batteryMin (set_approve as r t n) = wn_batteryMin n" "wn_boundary (set_approve as r t n) = wn_boundary n"
  by (simp_all add: set_approve_def Let_def)

lemma set_budget_sel [simp]:
  "wn_allow (set_budget d l w n) = wn_allow n" "wn_deny (set_budget d l w n) = wn_deny n"
  "wn_require (set_budget d l w n) = wn_require n" "wn_maxAltitude (set_budget d l w n) = wn_maxAltitude n"
  "wn_batteryMin (set_budget d l w n) = wn_batteryMin n" "wn_boundary (set_budget d l w n) = wn_boundary n"
  by (simp_all add: set_budget_def)

lemma add_allow_sel [simp]:
  "wn_allow (add_allow as w n) = wn_allow n @ [\<lparr> an_actions = as, an_when = (case w of Some r \<Rightarrow> r | None \<Rightarrow> []) \<rparr>]"
  "wn_deny (add_allow as w n) = wn_deny n" "wn_require (add_allow as w n) = wn_require n"
  "wn_maxAltitude (add_allow as w n) = wn_maxAltitude n" "wn_batteryMin (add_allow as w n) = wn_batteryMin n"
  "wn_boundary (add_allow as w n) = wn_boundary n"
  by (simp_all add: add_allow_def)

lemma set_unique [simp]: "set (unique_strings vs) = set vs"
proof -
  have "set (fold (\<lambda>v seen. if v \<in> set seen then seen else seen @ [v]) vs acc) = set acc \<union> set vs" for acc
    by (induction vs arbitrary: acc) auto
  then show ?thesis by (simp add: unique_strings_def)
qed

lemma stmt_actions:
  "set (concat (map an_actions (wn_allow (stmt_apply st n)))) = set (concat (map an_actions (wn_allow n))) \<union> set (stmt_allows st)"
  by (cases st) auto

lemma stmt_denied: "set (wn_deny (stmt_apply st n)) = set (wn_deny n) \<union> set (stmt_denies st)"
  by (cases st) auto

lemma registers_set: "set (registers_of n) = set (concat (map an_when (wn_allow n))) \<union> set (wn_require n)"
  by (simp add: registers_of_def)

lemma stmt_registers: "set (registers_of (stmt_apply st n)) = set (registers_of n) \<union> set (stmt_needs st)"
  unfolding registers_set by (cases st rule: stmt_needs.cases) auto

lemma fold_collects:
  assumes "\<And>st n. f (stmt_apply st n) = f n \<union> set (g st)"
  shows "f (fold stmt_apply sts n) = f n \<union> set (concat (map g sts))"
  by (induction sts arbitrary: n) (auto simp: assms)

lemmas block_actions = fold_collects[of "\<lambda>n. set (concat (map an_actions (wn_allow n)))", OF stmt_actions]
lemmas block_denied = fold_collects[of "\<lambda>n. set (wn_deny n)", OF stmt_denied]
lemmas block_registers = fold_collects[of "\<lambda>n. set (registers_of n)", OF stmt_registers]

text \<open>A field keeps what the last statement that sets it gave it.\<close>

lemma last_setting:
  assumes "\<And>st n. st \<in> set post \<Longrightarrow> f (stmt_apply st n) = f n"
  shows "f (fold stmt_apply (pre @ st # post) n) = f (stmt_apply st (fold stmt_apply pre n))"
proof -
  have "f (fold stmt_apply post n) = f n" for n
    using assms by (induction post arbitrary: n) simp_all
  then show ?thesis by simp
qed

definition is_bound :: "string \<Rightarrow> stmt \<Rightarrow> bool" where
  "is_bound field st \<longleftrightarrow> (\<exists>n. st = St_bound field n)"

definition is_boundary :: "stmt \<Rightarrow> bool" where
  "is_boundary st \<longleftrightarrow> (\<exists>v. st = St_field ''within'' v)"

definition last_of :: "(stmt \<Rightarrow> bool) \<Rightarrow> stmt \<Rightarrow> stmt list \<Rightarrow> bool" where
  "last_of p st sts \<longleftrightarrow> (\<exists>pre post. sts = pre @ st # post \<and> (\<forall>s \<in> set post. \<not> p s))"

lemma altitude_kept: "\<not> is_bound ''altitude_m'' st \<Longrightarrow> wn_maxAltitude (stmt_apply st n) = wn_maxAltitude n"
  by (cases st) (auto simp: is_bound_def)

lemma battery_kept: "stmt_ok st \<Longrightarrow> \<not> is_bound ''battery_pct'' st \<Longrightarrow> wn_batteryMin (stmt_apply st n) = wn_batteryMin n"
  by (cases st) (auto simp: is_bound_def)

lemma boundary_kept: "stmt_ok st \<Longrightarrow> \<not> is_boundary st \<Longrightarrow> wn_boundary (stmt_apply st n) = wn_boundary n"
  by (cases st) (auto simp: is_boundary_def set_field_def field_type_def split: if_splits)

lemma stmts_ok_all: "stmts_ok sts \<Longrightarrow> st \<in> set sts \<Longrightarrow> stmt_ok st"
  by (induction sts) auto

lemma block_limits:
  assumes "stmts_ok (snd b)"
  shows "last_of (is_bound ''altitude_m'') (St_bound ''altitude_m'' n) (snd b) \<Longrightarrow> wn_maxAltitude (block_node b) = Some (number_value n)"
    and "last_of (is_bound ''battery_pct'') (St_bound ''battery_pct'' n) (snd b) \<Longrightarrow> wn_batteryMin (block_node b) = Some (number_value n)"
    and "last_of is_boundary (St_field ''within'' v) (snd b) \<Longrightarrow> wn_boundary (block_node b) = Some v"
proof -
  note ok = stmts_ok_all[OF assms]
  show "wn_maxAltitude (block_node b) = Some (number_value n)" if l: "last_of (is_bound ''altitude_m'') (St_bound ''altitude_m'' n) (snd b)"
  proof -
    obtain pre post where b: "snd b = pre @ St_bound ''altitude_m'' n # post" "\<forall>s \<in> set post. \<not> is_bound ''altitude_m'' s"
      using l by (auto simp: last_of_def)
    have "wn_maxAltitude (stmt_apply st m) = wn_maxAltitude m" if "st \<in> set post" for st m using b(2) that altitude_kept by blast
    from last_setting[of post wn_maxAltitude pre "St_bound ''altitude_m'' n", OF this] show ?thesis unfolding block_node_def node_of_def b(1) by (simp add: set_field_def)
  qed
  show "wn_batteryMin (block_node b) = Some (number_value n)" if l: "last_of (is_bound ''battery_pct'') (St_bound ''battery_pct'' n) (snd b)"
  proof -
    obtain pre post where b: "snd b = pre @ St_bound ''battery_pct'' n # post" "\<forall>s \<in> set post. \<not> is_bound ''battery_pct'' s"
      using l by (auto simp: last_of_def)
    have "wn_batteryMin (stmt_apply st m) = wn_batteryMin m" if "st \<in> set post" for st m using b that battery_kept ok by simp
    from last_setting[of post wn_batteryMin pre "St_bound ''battery_pct'' n", OF this] show ?thesis unfolding block_node_def node_of_def b(1) by (simp add: set_field_def)
  qed
  show "wn_boundary (block_node b) = Some v" if l: "last_of is_boundary (St_field ''within'' v) (snd b)"
  proof -
    obtain pre post where b: "snd b = pre @ St_field ''within'' v # post" "\<forall>s \<in> set post. \<not> is_boundary s"
      using l by (auto simp: last_of_def)
    have "wn_boundary (stmt_apply st m) = wn_boundary m" if "st \<in> set post" for st m using b that boundary_kept ok by simp
    from last_setting[of post wn_boundary pre "St_field ''within'' v", OF this] show ?thesis unfolding block_node_def node_of_def b(1) by (simp add: set_field_def)
  qed
qed

section \<open>Compiled policies at the gate\<close>

text \<open>
  What the statements of a block grant: the subject they name, an action some \<open>allow\<close> lists and no
  \<open>deny\<close> does, with every register a \<open>when\<close> or a \<open>require\<close> names present, within the last altitude and
  battery bounds and inside the last boundary.
\<close>

definition block_grants :: "block \<Rightarrow> CanonicalActionInput \<Rightarrow> RuntimeRegister \<Rightarrow> bool" where
  "block_grants b a registers \<longleftrightarrow>
     wn_subject (block_node b) = Some (act_subject a) \<and>
     act_action_type a \<in> set (concat (map stmt_allows (snd b))) - set (concat (map stmt_denies (snd b))) \<and>
     (\<forall>st \<in> set (snd b). \<forall>r \<in> set (stmt_needs st). getPath (JObj (combined_registers a registers)) r \<noteq> JUndef) \<and>
     (\<forall>n x. last_of (is_bound ''altitude_m'') (St_bound ''altitude_m'' n) (snd b) \<longrightarrow>
        numericParam a ''altitude_m'' = Some x \<longrightarrow> x \<le> number_value n) \<and>
     (\<forall>n x. last_of (is_bound ''battery_pct'') (St_bound ''battery_pct'' n) (snd b) \<longrightarrow>
        numericParam a ''battery_pct'' = Some x \<longrightarrow> number_value n \<le> x) \<and>
     (\<forall>v x. last_of is_boundary (St_field ''within'' v) (snd b) \<longrightarrow> v \<noteq> [] \<longrightarrow>
        stringParam a ''boundary_id'' = Some x \<longrightarrow> x \<noteq> [] \<longrightarrow> x = v)"

lemma present_simps [simp]: "present k f (Some v) = [(k, f v)]" "present k f None = []"
  by (simp_all add: present_def)

lemma map_filter_strings [simp]: "List.map_filter as_string (map JStr xs) = xs"
  by (induction xs) (simp_all add: List.map_filter_simps)

lemma required_registers:
  "obj_get (constraints_of node) ''required_runtime_registers'' =
     (if registers_of node \<noteq> [] then JArr (map JStr (registers_of node)) else JUndef)"
  by (simp add: constraints_of_def js_simps present_def split: option.split)

lemma bounds_limits:
  assumes "pir_ok (evaluatePhysicalInvariants a (bounds_of node))"
  shows "wn_maxAltitude node = Some m \<Longrightarrow> numericParam a ''altitude_m'' = Some x \<Longrightarrow> x \<le> m"
    and "wn_batteryMin node = Some m \<Longrightarrow> numericParam a ''battery_pct'' = Some x \<Longrightarrow> m \<le> x"
    and "wn_boundary node = Some v \<Longrightarrow> v \<noteq> [] \<Longrightarrow> stringParam a ''boundary_id'' = Some y \<Longrightarrow> y \<noteq> [] \<Longrightarrow> y = v"
proof -
  have some: "wn_maxAltitude node \<noteq> None \<or> wn_batteryMin node \<noteq> None \<or> boundary_of node \<noteq> None \<Longrightarrow>
      \<exists>b. bounds_of node = Some b \<and> physical_failure a b = None \<and>
        num_bound b ''max_altitude_m'' = wn_maxAltitude node \<and> num_bound b ''battery_minimum_pct'' = wn_batteryMin node \<and>
        str_bound b ''permitted_boundary_id'' = boundary_of node"
    using assms by (cases "wn_maxAltitude node"; cases "wn_batteryMin node"; cases "boundary_of node")
      (simp_all add: bounds_of_def accepted_iff num_bound_def str_bound_def js_simps)
  have limits: "num_bound b ''max_altitude_m'' = Some m \<Longrightarrow> numericParam a ''altitude_m'' = Some x \<Longrightarrow> x \<le> m"
    "num_bound b ''battery_minimum_pct'' = Some m \<Longrightarrow> numericParam a ''battery_pct'' = Some x \<Longrightarrow> m \<le> x"
    "str_bound b ''permitted_boundary_id'' = Some v \<Longrightarrow> v \<noteq> [] \<Longrightarrow> stringParam a ''boundary_id'' = Some y \<Longrightarrow> y \<noteq> [] \<Longrightarrow> y = v"
    if "physical_failure a b = None" for b
  proof -
    have vg: "list_all (honours a b) vehicle_grid_limits"
      using that by (simp only: physical_failure_None vehicle_grid_exact)
    then have "honours a b (At_most ''max_altitude_m'' [''altitude_m''])" "honours a b (At_least ''battery_minimum_pct'' [''battery_pct''])"
      "honours a b (Equal_to ''permitted_boundary_id'' ''boundary_id'')"
      unfolding vehicle_grid_limits_def list.pred_inject by blast+
    then show "num_bound b ''max_altitude_m'' = Some m \<Longrightarrow> numericParam a ''altitude_m'' = Some x \<Longrightarrow> x \<le> m"
      "num_bound b ''battery_minimum_pct'' = Some m \<Longrightarrow> numericParam a ''battery_pct'' = Some x \<Longrightarrow> m \<le> x"
      "str_bound b ''permitted_boundary_id'' = Some v \<Longrightarrow> v \<noteq> [] \<Longrightarrow> stringParam a ''boundary_id'' = Some y \<Longrightarrow> y \<noteq> [] \<Longrightarrow> y = v"
      by (auto simp: bound_of_json param_of_json split: json.splits)
  qed
  show "wn_maxAltitude node = Some m \<Longrightarrow> numericParam a ''altitude_m'' = Some x \<Longrightarrow> x \<le> m"
    using some limits(1) by auto
  show "wn_batteryMin node = Some m \<Longrightarrow> numericParam a ''battery_pct'' = Some x \<Longrightarrow> m \<le> x"
    using some limits(2) by auto
  show "wn_boundary node = Some v \<Longrightarrow> v \<noteq> [] \<Longrightarrow> stringParam a ''boundary_id'' = Some y \<Longrightarrow> y \<noteq> [] \<Longrightarrow> y = v"
    using some limits(3) by (auto simp: boundary_of_def)
qed

lemma admitted_grants:
  assumes "stmts_ok (snd b)" "str_truthy (wn_subject (block_node b))"
    and "envelope_admits P t a snapshot (gd_ward (block_draft now b)) (gd_authorityEnvelope (block_draft now b))"
  shows "block_grants b a snapshot"
proof -
  let ?n = "block_node b"
  obtain sub where sub: "wn_subject ?n = Some sub" using assms(2) by auto
  have e: "ae_subject (gd_authorityEnvelope (block_draft now b)) = sub"
    "ae_allowed_actions (gd_authorityEnvelope (block_draft now b)) = unique_strings (concat (map an_actions (wn_allow ?n)))"
    "ae_denied_actions (gd_authorityEnvelope (block_draft now b)) = unique_strings (wn_deny ?n)"
    "ae_constraints (gd_authorityEnvelope (block_draft now b)) = constraints_of ?n"
    "wm_physical_bounds (gd_ward (block_draft now b)) = bounds_of ?n"
    by (simp_all add: block_draft_def draft_of_def envelope_of_def ward_of_def sub or_default_def)
  have sets: "set (concat (map an_actions (wn_allow ?n))) = set (concat (map stmt_allows (snd b)))"
    "set (wn_deny ?n) = set (concat (map stmt_denies (snd b)))" "set (registers_of ?n) = set (concat (map stmt_needs (snd b)))"
    unfolding block_node_def node_of_def block_actions block_denied block_registers by (simp_all add: new_node_def registers_of_def unique_strings_def)
  have adm: "sub = act_subject a" "act_action_type a \<in> set (concat (map stmt_allows (snd b))) - set (concat (map stmt_denies (snd b)))"
    "missingRuntimeRegisters (gd_authorityEnvelope (block_draft now b)) a snapshot = []"
    "pir_ok (evaluatePhysicalInvariants a (bounds_of ?n))"
    using assms(3) sets(1,2) by (auto simp: envelope_admits_def e)
  have "\<forall>r \<in> set (registers_of ?n). getPath (JObj (combined_registers a snapshot)) r \<noteq> JUndef"
    using adm(3) by (cases "registers_of ?n = []")
      (auto simp: missingRuntimeRegisters_def e required_registers filter_empty_conv)
  then have regs: "\<forall>st \<in> set (snd b). \<forall>r \<in> set (stmt_needs st). getPath (JObj (combined_registers a snapshot)) r \<noteq> JUndef"
    unfolding sets(3) by auto
  show ?thesis
    unfolding block_grants_def
    using sub adm(1,2) regs block_limits[OF assms(1)] bounds_limits[OF adm(4)] by blast
qed

text \<open>
  C33 A compiled policy grants what it says.  When the Commit Gate admits an action under the Ward and
  the envelope of a draft that the compiler returned for a source, the source is written by a program
  one of whose blocks has this draft, and that block grants the action: the subject it names, an action
  type listed by an \<open>allow\<close> and by no \<open>deny\<close>, every register named in a \<open>when\<close> or \<open>require\<close> present, and
  the altitude, battery and boundary statements respected.
\<close>

theorem policy_gate_sound:
  assumes "compilePolicy source now = Inr r" "d \<in> set (pc_drafts r)"
    and "ci_ward input = Some (gd_ward d)" "ci_authorityEnvelope input = Some (gd_authorityEnvelope d)"
    and "register_snapshot P (ci_runtimeRegister input) = Inr snapshot"
    and "evaluateCommitGate P wall input = Inr dec" "cg_decision dec = ALLOW"
  shows "\<exists>prog. writes source prog \<and> (\<exists>b \<in> set prog. d = block_draft now b \<and> block_grants b (ci_action input) snapshot)"
proof -
  obtain r' where r': "compilePolicy source now = Inr r'"
    "pc_ok r' \<longleftrightarrow> (\<exists>prog. writes source prog \<and> compilable prog)"
    "\<forall>prog. writes source prog \<and> compilable prog \<longrightarrow> r' = policy_accepted (map (block_draft now) prog)"
    "\<not> pc_ok r' \<longrightarrow> (\<exists>message line column. r' = policy_rejected message line column)"
    using compile_exact[of source now] by blast
  then have "r' = r" using assms(1) by simp
  moreover have "pc_ok r" using r'(4) assms(2) \<open>r' = r\<close> by (auto simp: policy_rejected_def)
  ultimately obtain prog where prog: "writes source prog" "compilable prog" "r = policy_accepted (map (block_draft now) prog)" using r' by blast
  then obtain b where b: "b \<in> set prog" "d = block_draft now b" using assms(2) by (auto simp: policy_accepted_def)
  have "stmts_ok (snd b)" "str_truthy (wn_subject (block_node b))"
    using prog(1,2) b(1) by (auto simp: writes_def program_ok_def list_all_iff compilable_def)
  moreover obtain t where "envelope_admits P t (ci_action input) snapshot (gd_ward d) (gd_authorityEnvelope d)"
    using assms(3-7) by (auto simp: evaluateCommitGate_Inr gate_decision_allow admissible_def)
  ultimately show ?thesis using admitted_grants prog(1) b by blast
qed

definition sample_draft :: GovernanceDraft where
  "sample_draft = block_draft None (hd sample_program)"

abbreviation sample_telemetry :: jsobject where
  "sample_telemetry \<equiv> [(''telemetry'', JObj [(''ok'', JBool True)])]"

definition sample_policy_input :: CommitGateInput where
  "sample_policy_input = \<lparr> ci_ward = Some (gd_ward sample_draft), ci_authorityEnvelope = Some (gd_authorityEnvelope sample_draft),
     ci_action = sample_action, ci_runtimeRegister = Some sample_telemetry, ci_now = Some ''200'', ci_degradedConditions = None \<rparr>"

lemma sample_registers: "register_snapshot sample (Some sample_telemetry) = Inr sample_telemetry"
  by code_simp

lemma sample_block: "block_node (hd sample_program) = (new_node ''Pay'' \<lparr> tk_type = T_ident, tk_value = ''ward'', tk_line = 1, tk_column = 1 \<rparr>)
  \<lparr> wn_subject := Some ''agent'', wn_expires := Some ''900'', wn_deny := [''wire''],
    wn_allow := [\<lparr> an_actions = [''pay'', ''read''], an_when = [''telemetry.ok''] \<rparr>] \<rparr>"
  by (simp add: block_node_def node_of_def sample_program_def set_field_def add_allow_def new_node_def)

lemma sample_policy_admits:
  "envelope_admits sample (decimal_parse ''200'') sample_action sample_telemetry (gd_ward sample_draft) (gd_authorityEnvelope sample_draft)"
proof -
  have "decimal_parse ''200'' = Some 200" "decimal_parse ''900'' = Some 900"
    by (simp_all add: decimal_parse_def is_digit_def digits_val_def char_digit_def)
  then show ?thesis
    by (simp add: envelope_admits_def sample_draft_def block_draft_def draft_of_def ward_of_def envelope_of_def sample_block new_node_def
        or_default_def unique_strings_def bounds_of_def boundary_of_def constraints_of_def registers_of_def sample_action_def
        missingRuntimeRegisters_def constraintsPass_def numericConstraint_def js_simps evaluatePhysicalInvariants_def
        getPath_def combined_registers_def spread_def List.map_filter_simps)
qed

theorem policy_gate_sound_witness:
  "\<exists>prog. writes sample_policy prog \<and> (\<exists>b \<in> set prog. sample_draft = block_draft None b \<and> block_grants b sample_action sample_telemetry)"
proof -
  obtain r where r: "compilePolicy sample_policy None = Inr r" "r = policy_accepted (map (block_draft None) sample_program)"
    using compile_exact[of sample_policy None] sample_writes sample_compilable by blast
  obtain c where c: "canonicalizeAction sample sample_action = Inr c" using sample_canonical by blast
  have gate: "cg_decision (gate_decision sample (decimal_parse ''200'') sample_policy_input c sample_telemetry) = ALLOW"
    unfolding gate_decision_allow admissible_def using sample_policy_admits
    by (simp add: sample_policy_input_def degraded_action_def sample_draft_def block_draft_def draft_of_def ward_of_def sample_block
        new_node_def or_default_def sample_action_def)
  have "evaluateCommitGate sample ''0'' sample_policy_input = Inr (gate_decision sample (decimal_parse ''200'') sample_policy_input c sample_telemetry)"
    using c sample_registers by (simp add: evaluateCommitGate_def sample_policy_input_def)
  from policy_gate_sound[OF r(1) _ _ _ _ this gate, of sample_draft sample_telemetry] r(2) sample_registers show ?thesis
    by (simp add: sample_policy_input_def policy_accepted_def sample_draft_def sample_program_def)
qed

text \<open>
  Statements of which only the last counts: a later \<open>approve\<close> sets the number of approvals for every
  action listed so far, so that it can lower what an earlier one required.
\<close>

lemma approve_last_wins:
  "wn_dualControl (fold stmt_apply [St_approve as m None, St_approve bs n None] node) =
     Some \<lparr> dn_actions = (case wn_dualControl node of Some d \<Rightarrow> dn_actions d | None \<Rightarrow> []) @ as @ bs, dn_required = number_value n,
       dn_ttlMs = Option.bind (wn_dualControl node) dn_ttlMs \<rparr>"
  by (cases "wn_dualControl node") (simp_all add: set_approve_def)

text \<open>
  A boundary after an approval without a deadline is read as the deadline, and a version of one
  decimal number is a number and not an identifier: both are rejected.
\<close>

lemma boundary_after_approval_rejected:
  "map_sum id (map pd_message \<circ> pc_diagnostics) (compilePolicy (''ward '' @ [dquote] @ ''x'' @ [dquote] @ '' { subject a approve t requires 2 within zone }'') None) =
     Inr [''invalid duration '' @ quoted ''zone'' @ '' (expected e.g. 30s, 15m, 1h, 1d)'']"
  by code_simp

lemma decimal_version_rejected:
  "map_sum id (map pd_message \<circ> pc_diagnostics) (compilePolicy (''ward '' @ [dquote] @ ''x'' @ [dquote] @ '' { subject a version 1.0 }'') None) =
     Inr [''expected ident, got '' @ quoted ''1.0'']"
  by code_simp

end
