(* ===== verification/Attestation.thy ===== *)
theory Attestation
  imports Warrant
begin

text \<open>
  Attested telemetry (\<open>execution-control-runtime/src/attestation.ts\<close>): \<open>signTelemetry\<close>,
  \<open>verifyTelemetryAttestation\<close> and \<open>attestActionTelemetry\<close>, which replaces safety-relevant action
  parameters by readings a pinned device signed.  The theorems: what a device signs is accepted while
  it is fresh, and when the Commit Gate admits an attested action, the signed readings themselves
  respect the declared limits of the Ward.

  Property lookup models own properties, as in the theory of the gate.
\<close>

section \<open>Data\<close>

type_synonym TelemetryReadings = jsobject

record TelemetryAttestation =
  ta_device_id :: string
  ta_readings :: TelemetryReadings
  ta_signed_at :: iso_time
  ta_signature :: string
  ta_algorithm :: string

record AttestationTrust =
  at_trustedDeviceKeys :: "(string, string) jsmap"
  at_maxAgeMs :: "rat option"
  at_now :: "iso_time option"

datatype AttestationVerification =
    AttestationVerified TelemetryReadings string
  | AttestationRefused string

section \<open>Signing and verification\<close>

definition attestation_object :: "string \<Rightarrow> TelemetryReadings \<Rightarrow> iso_time \<Rightarrow> json" where
  "attestation_object device_id readings signed_at =
     JObj [(''device_id'', JStr device_id), (''readings'', JObj readings), (''signed_at'', JStr signed_at)]"

definition attestationMaterial :: "platform \<Rightarrow> string \<Rightarrow> TelemetryReadings \<Rightarrow> iso_time \<Rightarrow> string result" where
  "attestationMaterial P device_id readings signed_at =
     stableStringify P (attestation_object device_id readings signed_at)"

text \<open>\<open>wall\<close> is the reading of the clock behind \<open>new Date().toISOString()\<close>.\<close>

definition signTelemetry :: "platform \<Rightarrow> iso_time \<Rightarrow> AristotleSigner \<Rightarrow> string \<Rightarrow> TelemetryReadings
    \<Rightarrow> iso_time option \<Rightarrow> TelemetryAttestation result" where
  "signTelemetry P wall signer device_id readings signedAt =
     (let signed_at = (case signedAt of Some t \<Rightarrow> t | None \<Rightarrow> wall)
      in bind_result (attestationMaterial P device_id readings signed_at) (\<lambda>material.
           Inr \<lparr> ta_device_id = device_id, ta_readings = readings, ta_signed_at = signed_at,
                 ta_signature = sg_sign signer material, ta_algorithm = ''ed25519'' \<rparr>))"

text \<open>The freshness bound: \<open>nowMs\<close> and the signing time, \<open>None\<close> where the date does not parse.\<close>

definition attestation_age :: "int option \<Rightarrow> int option \<Rightarrow> int option" where
  "attestation_age nowMs signedMs =
     (case (nowMs, signedMs) of (Some n, Some s) \<Rightarrow> Some (n - s) | _ \<Rightarrow> None)"

definition freshness_failure :: "int option \<Rightarrow> rat \<Rightarrow> string option" where
  "freshness_failure age maxAge =
     (case age of
        None \<Rightarrow> Some ''attestation timestamp invalid or in the future''
      | Some a \<Rightarrow>
          if of_int a < - maxAge then Some ''attestation timestamp invalid or in the future''
          else if maxAge < of_int a
            then Some (''attestation stale ('' @ num_string (of_int a) @ ''ms > '' @ num_string maxAge @ ''ms)'')
          else None)"

text \<open>\<open>trust.now ? Date.parse(trust.now) : Date.now()\<close>.\<close>

definition trust_now :: "platform \<Rightarrow> int \<Rightarrow> AttestationTrust \<Rightarrow> int option" where
  "trust_now P wallMs trust =
     (if str_truthy (at_now trust) then Option.bind (at_now trust) (date_parse P) else Some wallMs)"

definition trust_max_age :: "AttestationTrust \<Rightarrow> rat" where
  "trust_max_age trust = (case at_maxAgeMs trust of Some m \<Rightarrow> m | None \<Rightarrow> 30000)"

definition verifyTelemetryAttestation ::
  "platform \<Rightarrow> int \<Rightarrow> TelemetryAttestation \<Rightarrow> AttestationTrust \<Rightarrow> AttestationVerification result" where
  "verifyTelemetryAttestation P wallMs att trust =
     (if ta_algorithm att \<noteq> ''ed25519''
      then Inr (AttestationRefused (''unsupported attestation algorithm: '' @ ta_algorithm att))
      else if \<not> str_truthy (map_of (at_trustedDeviceKeys trust) (ta_device_id att))
      then Inr (AttestationRefused (''untrusted device: '' @ ta_device_id att))
      else bind_result (attestationMaterial P (ta_device_id att) (ta_readings att) (ta_signed_at att)) (\<lambda>material.
        if \<not> (case map_of (at_trustedDeviceKeys trust) (ta_device_id att) of
                Some pem \<Rightarrow> verifyEd25519 P pem material (ta_signature att) | None \<Rightarrow> False)
        then Inr (AttestationRefused ''attestation signature mismatch'')
        else case freshness_failure
               (attestation_age (trust_now P wallMs trust) (date_parse P (ta_signed_at att))) (trust_max_age trust) of
               Some reason \<Rightarrow> Inr (AttestationRefused reason)
             | None \<Rightarrow> Inr (AttestationVerified (ta_readings att) (ta_device_id att))))"

section \<open>Binding readings into an action\<close>

record AttestActionInput =
  aa_action :: CanonicalActionInput
  aa_attestation :: "TelemetryAttestation option"
  aa_trust :: AttestationTrust
  aa_attestedFields :: "string list"

datatype AttestActionResult =
    ActionAttested CanonicalActionInput string
  | TelemetryUnattested string

text \<open>\<open>for (const field of fields) params[field] = readings[field]\<close>, on a copy of the parameters.\<close>

definition bind_readings :: "TelemetryReadings \<Rightarrow> string list \<Rightarrow> jsobject \<Rightarrow> jsobject" where
  "bind_readings readings flds params = foldl (\<lambda>ps f. map_set f (obj_get readings f) ps) params flds"

definition attested_action :: "CanonicalActionInput \<Rightarrow> TelemetryAttestation \<Rightarrow> string list \<Rightarrow> CanonicalActionInput" where
  "attested_action action att flds =
     action \<lparr> act_params := bind_readings (ta_readings att) flds (act_params action),
              act_telemetry := Some (map_set ''attestation_signed_at'' (JStr (ta_signed_at att))
                (map_set ''attested_by'' (JStr (ta_device_id att))
                  (case act_telemetry action of Some t \<Rightarrow> t | None \<Rightarrow> []))) \<rparr>"

definition attestActionTelemetry :: "platform \<Rightarrow> int \<Rightarrow> AttestActionInput \<Rightarrow> AttestActionResult result" where
  "attestActionTelemetry P wallMs input =
     (case aa_attestation input of
        None \<Rightarrow> Inr (TelemetryUnattested ''no telemetry attestation provided'')
      | Some att \<Rightarrow>
          bind_result (verifyTelemetryAttestation P wallMs att (aa_trust input)) (\<lambda>verified.
            case verified of
              AttestationRefused reason \<Rightarrow> Inr (TelemetryUnattested reason)
            | AttestationVerified readings device \<Rightarrow>
                (case find (\<lambda>f. map_of readings f = None) (aa_attestedFields input) of
                   Some field \<Rightarrow> Inr (TelemetryUnattested (''attested telemetry missing required field: '' @ field))
                 | None \<Rightarrow> Inr (ActionAttested (attested_action (aa_action input) att (aa_attestedFields input)) device))))"

section \<open>Lemmas\<close>

lemma freshness_ok:
  "freshness_failure age maxAge = None \<longleftrightarrow> (\<exists>a. age = Some a \<and> \<bar>of_int a\<bar> \<le> maxAge)"
  by (auto simp: freshness_failure_def abs_le_iff not_less split: option.splits)

lemma attestation_age_Some [simp]:
  "attestation_age n s = Some a \<longleftrightarrow> (\<exists>x y. n = Some x \<and> s = Some y \<and> a = x - y)"
  by (cases n; cases s) (auto simp: attestation_age_def)

text \<open>Exactly when an attestation is accepted.\<close>

definition attestation_valid :: "platform \<Rightarrow> int \<Rightarrow> TelemetryAttestation \<Rightarrow> AttestationTrust \<Rightarrow> bool" where
  "attestation_valid P wallMs att trust \<longleftrightarrow>
     ta_algorithm att = ''ed25519'' \<and>
     (\<exists>pem material n s. map_of (at_trustedDeviceKeys trust) (ta_device_id att) = Some pem \<and> pem \<noteq> [] \<and>
        attestationMaterial P (ta_device_id att) (ta_readings att) (ta_signed_at att) = Inr material \<and>
        verifyEd25519 P pem material (ta_signature att) \<and>
        trust_now P wallMs trust = Some n \<and> date_parse P (ta_signed_at att) = Some s \<and>
        \<bar>of_int (n - s)\<bar> \<le> trust_max_age trust)"

lemma attested_raw:
  "attestation_valid P wallMs att trust \<longleftrightarrow>
     (\<exists>pem msg n s. ta_algorithm att = ''ed25519'' \<and> map_of (at_trustedDeviceKeys trust) (ta_device_id att) = Some pem \<and> pem \<noteq> [] \<and>
        stableStringify P (JObj [(''device_id'', JStr (ta_device_id att)), (''readings'', JObj (ta_readings att)),
          (''signed_at'', JStr (ta_signed_at att))]) = Inr msg \<and>
        ed25519_verify P pem msg (ta_signature att) = Some True \<and> date_parse P (ta_signed_at att) = Some s \<and>
        Some n = (case at_now trust of Some (c # cs) \<Rightarrow> date_parse P (c # cs) | _ \<Rightarrow> Some wallMs) \<and>
        \<bar>of_int n - of_int s\<bar> \<le> (case at_maxAgeMs trust of Some m \<Rightarrow> m | None \<Rightarrow> 30000))"
proof -
  have clock: "trust_now P wallMs trust = (case at_now trust of Some (c # cs) \<Rightarrow> date_parse P (c # cs) | _ \<Rightarrow> Some wallMs)"
    by (auto simp: trust_now_def split: option.split list.split)
  have sig: "verifyEd25519 P pem m s \<longleftrightarrow> ed25519_verify P pem m s = Some True" for pem m s
    by (simp add: verifyEd25519_def split: option.split)
  have age: "\<bar>of_int (n - s)\<bar> \<le> trust_max_age trust \<longleftrightarrow>
      \<bar>of_int n - of_int s\<bar> \<le> (case at_maxAgeMs trust of Some m \<Rightarrow> m | None \<Rightarrow> 30000)" for n s
    by (simp add: trust_max_age_def)
  show ?thesis
    unfolding attestation_valid_def clock sig age attestationMaterial_def attestation_object_def
    by (auto simp: eq_commute[of "Some _"])
qed

lemma attestation_verified:
  "verifyTelemetryAttestation P wallMs att trust = Inr (AttestationVerified r d) \<longleftrightarrow>
     attestation_valid P wallMs att trust \<and> r = ta_readings att \<and> d = ta_device_id att"
proof (cases "freshness_failure (attestation_age (trust_now P wallMs trust) (date_parse P (ta_signed_at att))) (trust_max_age trust)")
  case None
  then obtain n s where "trust_now P wallMs trust = Some n" "date_parse P (ta_signed_at att) = Some s"
      "\<bar>of_int (n - s)\<bar> \<le> trust_max_age trust"
    by (auto simp: freshness_ok)
  with None show ?thesis
    by (auto simp: verifyTelemetryAttestation_def attestation_valid_def split: if_splits option.splits)
next
  case (Some x)
  then have "\<not> attestation_valid P wallMs att trust"
    using freshness_ok[of "attestation_age (trust_now P wallMs trust) (date_parse P (ta_signed_at att))" "trust_max_age trust"]
    unfolding attestation_valid_def by (metis attestation_age_Some option.distinct(1))
  with Some show ?thesis
    by (auto simp: verifyTelemetryAttestation_def split: if_splits option.splits)
qed

lemma bind_readings_get:
  "map_of (bind_readings readings flds params) k =
     (if k \<in> set flds then Some (obj_get readings k) else map_of params k)"
  unfolding bind_readings_def
  by (induction flds arbitrary: params) (auto simp: js_simps)

lemma attested_params:
  "obj_get (act_params (attested_action a att flds)) k =
     (if k \<in> set flds then obj_get (ta_readings att) k else obj_get (act_params a) k)"
  by (simp add: attested_action_def obj_get_def bind_readings_get)

lemma action_attested:
  "attestActionTelemetry P wallMs input = Inr (ActionAttested a d) \<longleftrightarrow>
     (\<exists>att. aa_attestation input = Some att \<and> attestation_valid P wallMs att (aa_trust input) \<and>
        (\<forall>f \<in> set (aa_attestedFields input). f \<in> fst ` set (ta_readings att)) \<and>
        a = attested_action (aa_action input) att (aa_attestedFields input) \<and> d = ta_device_id att)"
proof (cases "aa_attestation input")
  case (Some att)
  let ?missing = "find (\<lambda>f. map_of (ta_readings att) f = None) (aa_attestedFields input)"
  have covered: "?missing = None \<longleftrightarrow> (\<forall>f \<in> set (aa_attestedFields input). f \<in> fst ` set (ta_readings att))"
    by (auto simp: find_None_iff map_of_eq_None_iff)
  show ?thesis
  proof (cases "attestation_valid P wallMs att (aa_trust input)")
    case True
    then have "verifyTelemetryAttestation P wallMs att (aa_trust input) = Inr (AttestationVerified (ta_readings att) (ta_device_id att))"
      by (simp add: attestation_verified)
    then show ?thesis
      unfolding attestActionTelemetry_def
      by (cases ?missing) (use Some True covered in auto)
  next
    case False
    have "verifyTelemetryAttestation P wallMs att (aa_trust input) \<noteq> Inr (AttestationVerified r c)" for r c
      using False by (simp add: attestation_verified)
    with Some False show ?thesis
      unfolding attestActionTelemetry_def
      by (cases "verifyTelemetryAttestation P wallMs att (aa_trust input)") (auto split: AttestationVerification.splits)
  qed
qed (simp add: attestActionTelemetry_def)

lemma signTelemetry_fields:
  assumes "signTelemetry P wall signer device readings signedAt = Inr att"
  obtains material where "attestationMaterial P device readings (ta_signed_at att) = Inr material"
    and "ta_device_id att = device" "ta_readings att = readings" "ta_algorithm att = ''ed25519''"
    and "ta_signed_at att = (case signedAt of Some t \<Rightarrow> t | None \<Rightarrow> wall)" "ta_signature att = sg_sign signer material"
  using assms by (auto simp: signTelemetry_def Let_def dest!: sym[of _ att])

text \<open>
  The parameters a limit looks at, given the values they have: of several parameters those up to the
  first one that is stated.
\<close>

fun consulted :: "(json \<Rightarrow> bool) \<Rightarrow> jsobject \<Rightarrow> string list \<Rightarrow> string list" where
  "consulted stated params [] = []"
| "consulted stated params (p # ps) = p # (if stated (obj_get params p) then [] else consulted stated params ps)"

fun limit_reads :: "jsobject \<Rightarrow> limit \<Rightarrow> string list" where
  "limit_reads params (At_most k ps) = consulted (\<lambda>v. as_number v \<noteq> None) params ps"
| "limit_reads params (At_least k ps) = consulted (\<lambda>v. as_number v \<noteq> None) params ps"
| "limit_reads params (Among k ps) = consulted (\<lambda>v. as_string v \<noteq> None) params ps"
| "limit_reads params (Equal_to k p) = [p]"
| "limit_reads params (Proven k p) = [p]"
| "limit_reads params (Denied k p) = [p]"
| "limit_reads params (Stated k p) = [p]"
| "limit_reads params Geofence =
     consulted (\<lambda>v. v \<noteq> JUndef \<and> v \<noteq> JNull) params [''lat'', ''latitude''] @
     consulted (\<lambda>v. v \<noteq> JUndef \<and> v \<noteq> JNull) params [''lon'', ''longitude'']"
| "limit_reads params Signal_clear = [''signal_aspect'']"
| "limit_reads params Collaborative_mode = [''human_present'', ''operating_mode'']"
| "limit_reads params Drive_time_left = [''remaining_drive_minutes'', ''required_drive_minutes'']"
| "limit_reads params Hazmat_endorsed = [''hazmat_class'', ''hazmat_endorsement_valid'']"
| "limit_reads params Patient_context = [''patient_context_hash'', ''patient_context_present'']"
| "limit_reads params Basis_or_consent =
     ''patient_consent_valid'' # consulted (\<lambda>v. as_string v \<noteq> None) params [''phi_purpose'', ''tpo_basis'']"
| "limit_reads params Break_glass_attested = [''tpo_basis'', ''break_glass_attested'']"
| "limit_reads params Ephemeris_known = [''ephemeris_age_ms'']"
| "limit_reads params Power_positive = [''power_margin_pct'']"

lemma consulted_number:
  "\<forall>p \<in> set (consulted (\<lambda>v. as_number v \<noteq> None) (act_params a) ps). obj_get (act_params a) p = obj_get (act_params a') p \<Longrightarrow>
   stated_number a ps = stated_number a' ps"
  by (induction ps) (auto split: json.splits if_splits)

lemma consulted_text:
  "\<forall>p \<in> set (consulted (\<lambda>v. as_string v \<noteq> None) (act_params a) ps). obj_get (act_params a) p = obj_get (act_params a') p \<Longrightarrow>
   stated_text a ps = stated_text a' ps"
  by (induction ps) (auto split: json.splits if_splits)

lemma consulted_coords:
  assumes "\<forall>p \<in> set (limit_reads (act_params a) Geofence). obj_get (act_params a) p = obj_get (act_params a') p"
  shows "extractCoords a = extractCoords a'"
proof -
  have nullish: "not_nullish v d = (if v = JUndef \<or> v = JNull then d else v)" for v d by (cases v) simp_all
  have pick: "not_nullish (obj_get (act_params a) p) (obj_get (act_params a) q) =
      not_nullish (obj_get (act_params a') p) (obj_get (act_params a') q)"
    if "\<forall>k \<in> set (consulted (\<lambda>v. v \<noteq> JUndef \<and> v \<noteq> JNull) (act_params a) [p, q]). obj_get (act_params a) k = obj_get (act_params a') k"
    for p q
  proof (cases "obj_get (act_params a) p = JUndef \<or> obj_get (act_params a) p = JNull")
    case True
    then have "set (consulted (\<lambda>v. v \<noteq> JUndef \<and> v \<noteq> JNull) (act_params a) [p, q]) = {p, q}" by auto
    with that have "obj_get (act_params a) p = obj_get (act_params a') p" "obj_get (act_params a) q = obj_get (act_params a') q"
      by blast+
    then show ?thesis by (simp only:)
  next
    case False
    have "p \<in> set (consulted (\<lambda>v. v \<noteq> JUndef \<and> v \<noteq> JNull) (act_params a) [p, q])" by simp
    with that have "obj_get (act_params a) p = obj_get (act_params a') p" by blast
    with False show ?thesis unfolding nullish by simp
  qed
  note agree = assms[unfolded limit_reads.simps set_append, THEN bspec, OF UnI1]
    assms[unfolded limit_reads.simps set_append, THEN bspec, OF UnI2]
  have lat: "not_nullish (obj_get (act_params a) ''lat'') (obj_get (act_params a) ''latitude'') =
      not_nullish (obj_get (act_params a') ''lat'') (obj_get (act_params a') ''latitude'')"
    by (intro pick ballI agree(1))
  have lon: "not_nullish (obj_get (act_params a) ''lon'') (obj_get (act_params a) ''longitude'') =
      not_nullish (obj_get (act_params a') ''lon'') (obj_get (act_params a') ''longitude'')"
    by (intro pick ballI agree(2))
  show ?thesis unfolding extractCoords_def Let_def lat lon ..
qed

text \<open>Whether a limit is respected depends on these parameters alone.\<close>

lemma honours_reads:
  assumes "\<forall>p \<in> set (limit_reads (act_params a) l). obj_get (act_params a) p = obj_get (act_params a') p"
  shows "honours a b l = honours a' b l"
proof (cases l)
  case Geofence
  from consulted_coords[OF assms[unfolded Geofence]] show ?thesis
    unfolding Geofence honours.simps inside_geofence_def by simp
next
  case Basis_or_consent
  have "stated_text a [''phi_purpose'', ''tpo_basis''] = stated_text a' [''phi_purpose'', ''tpo_basis'']"
    using assms Basis_or_consent by (intro consulted_text) (simp only: limit_reads.simps set_simps, blast)
  then show ?thesis
    using assms Basis_or_consent by (simp add: holds_def)
next
  case Hazmat_endorsed
  then have "holds a ''hazmat_endorsement_valid'' = holds a' ''hazmat_endorsement_valid''"
    "obj_get (act_params a) ''hazmat_class'' = obj_get (act_params a') ''hazmat_class''"
    using assms by (simp_all add: holds_def)
  with Hazmat_endorsed show ?thesis by (simp split: json.split)
qed (use assms consulted_number[of a _ a'] consulted_text[of a _ a'] in \<open>auto simp: holds_def\<close>)

section \<open>Properties\<close>

text \<open>
  C38 Attested limits: when the Commit Gate admits an action whose parameters were attested, there is an
  attestation with an Ed25519 signature by the pinned key of the device over its id, readings and
  signing time, the signing time is within the freshness bound (30 seconds by default) of the clock in
  both directions, every attested field is among the readings, nothing but those parameters and the
  telemetry of the action changed, and the signed readings themselves respect every declared limit
  that looks at attested fields only: ceilings, floors, permitted values, identities such as an attested
  boundary id, proofs, and the geofence at an attested position.
\<close>

theorem attested_readings_within_limits:
  assumes "attestActionTelemetry P wallMs input = Inr (ActionAttested a device)"
    and "evaluateCommitGate P wall gate = Inr d" "cg_decision d = ALLOW" "ci_action gate = a"
    and "ci_ward gate = Some ward" "wm_physical_bounds ward = Some b"
  shows "\<exists>att pem msg nowMs signedMs. aa_attestation input = Some att \<and> device = ta_device_id att \<and>
     ta_algorithm att = ''ed25519'' \<and> map_of (at_trustedDeviceKeys (aa_trust input)) device = Some pem \<and> pem \<noteq> [] \<and>
     stableStringify P (JObj [(''device_id'', JStr device), (''readings'', JObj (ta_readings att)),
       (''signed_at'', JStr (ta_signed_at att))]) = Inr msg \<and>
     ed25519_verify P pem msg (ta_signature att) = Some True \<and>
     date_parse P (ta_signed_at att) = Some signedMs \<and>
     Some nowMs = (case at_now (aa_trust input) of Some (c # cs) \<Rightarrow> date_parse P (c # cs) | _ \<Rightarrow> Some wallMs) \<and>
     \<bar>of_int nowMs - of_int signedMs\<bar> \<le> (case at_maxAgeMs (aa_trust input) of Some m \<Rightarrow> m | None \<Rightarrow> 30000) \<and>
     set (aa_attestedFields input) \<subseteq> fst ` set (ta_readings att) \<and>
     a = aa_action input \<lparr> act_params := act_params a, act_telemetry := act_telemetry a \<rparr> \<and>
     (\<forall>k. k \<notin> set (aa_attestedFields input) \<longrightarrow> obj_get (act_params a) k = obj_get (act_params (aa_action input)) k) \<and>
     list_all (honours (a \<lparr> act_params := ta_readings att \<rparr>) b)
       (filter (\<lambda>l. set (limit_reads (ta_readings att) l) \<subseteq> set (aa_attestedFields input)) declared_limits)"
proof -
  obtain att where att: "aa_attestation input = Some att" "attestation_valid P wallMs att (aa_trust input)"
    "\<forall>f \<in> set (aa_attestedFields input). f \<in> fst ` set (ta_readings att)" "device = ta_device_id att"
    and a: "a = attested_action (aa_action input) att (aa_attestedFields input)"
    using assms(1) by (auto simp: action_attested)
  have "pir_ok (evaluatePhysicalInvariants a (Some b))"
    using assms(2-6) by (auto simp: evaluateCommitGate_Inr gate_decision_allow admissible_def envelope_admits_def)
  then have ok: "list_all (honours a b) declared_limits"
    by (rule accepted_respects[OF accepted_iff[THEN iffD1]])
  have "honours (a \<lparr> act_params := ta_readings att \<rparr>) b l = honours a b l"
    if "set (limit_reads (ta_readings att) l) \<subseteq> set (aa_attestedFields input)" for l
    using that by (intro honours_reads) (auto simp: a attested_params)
  with ok have limits: "list_all (honours (a \<lparr> act_params := ta_readings att \<rparr>) b)
      (filter (\<lambda>l. set (limit_reads (ta_readings att) l) \<subseteq> set (aa_attestedFields input)) declared_limits)"
    by (simp add: list_all_iff)
  have kept: "a = aa_action input \<lparr> act_params := act_params a, act_telemetry := act_telemetry a \<rparr>"
    "\<forall>k. k \<notin> set (aa_attestedFields input) \<longrightarrow> obj_get (act_params a) k = obj_get (act_params (aa_action input)) k"
    by (auto simp: a attested_params) (simp add: attested_action_def)
  from att(2) obtain pem msg n s where valid: "ta_algorithm att = ''ed25519''"
    "map_of (at_trustedDeviceKeys (aa_trust input)) device = Some pem" "pem \<noteq> []"
    "stableStringify P (JObj [(''device_id'', JStr device), (''readings'', JObj (ta_readings att)),
       (''signed_at'', JStr (ta_signed_at att))]) = Inr msg"
    "ed25519_verify P pem msg (ta_signature att) = Some True" "date_parse P (ta_signed_at att) = Some s"
    "Some n = (case at_now (aa_trust input) of Some (c # cs) \<Rightarrow> date_parse P (c # cs) | _ \<Rightarrow> Some wallMs)"
    "\<bar>of_int n - of_int s\<bar> \<le> (case at_maxAgeMs (aa_trust input) of Some m \<Rightarrow> m | None \<Rightarrow> 30000)"
    unfolding attested_raw att(4) by blast
  show ?thesis
    using att(1,3,4) valid kept limits by blast
qed

text \<open>
  Device round trip: readings a sound signer signs under a pinned key are accepted exactly while the
  clock is within the freshness bound of the signing time, in both directions, and the accepted
  readings are the signed ones.
\<close>

theorem signed_telemetry_verifies:
  assumes "signTelemetry P wall signer device readings signedAt = Inr att" "sound_signer P signer"
    and "map_of (at_trustedDeviceKeys trust) device = Some (sg_public_key_pem signer)"
  shows "verifyTelemetryAttestation P wallMs att trust = Inr (AttestationVerified readings device) \<longleftrightarrow>
     (\<exists>n s. trust_now P wallMs trust = Some n \<and> date_parse P (case signedAt of Some t \<Rightarrow> t | None \<Rightarrow> wall) = Some s \<and>
        \<bar>of_int (n - s)\<bar> \<le> trust_max_age trust)"
proof -
  obtain material where m: "attestationMaterial P device readings (ta_signed_at att) = Inr material"
    and att: "ta_device_id att = device" "ta_readings att = readings" "ta_algorithm att = ''ed25519''"
      "ta_signed_at att = (case signedAt of Some t \<Rightarrow> t | None \<Rightarrow> wall)" "ta_signature att = sg_sign signer material"
    using assms(1) by (rule signTelemetry_fields)
  have "verifyEd25519 P (sg_public_key_pem signer) material (sg_sign signer material)" "sg_public_key_pem signer \<noteq> []"
    using assms(2) signature_scheme.verify_sign signature_scheme.pub_nonempty by blast+
  with m att assms(3) show ?thesis
    by (simp add: attestation_verified attestation_valid_def)
qed

section \<open>Witnesses\<close>

definition sample_trust :: AttestationTrust where
  "sample_trust = \<lparr> at_trustedDeviceKeys = [(''d1'', ''pem1'')], at_maxAgeMs = Some 50, at_now = Some ''5'' \<rparr>"

definition sample_attestation :: TelemetryAttestation where
  "sample_attestation = (case signTelemetry sample ''3'' sample_signer ''d1'' [(''altitude_m'', JNum 90)] None of Inr att \<Rightarrow> att)"

lemma sample_attestation_signed:
  "signTelemetry sample ''3'' sample_signer ''d1'' [(''altitude_m'', JNum 90)] None = Inr sample_attestation"
proof -
  have "finite_json (attestation_object ''d1'' [(''altitude_m'', JNum 90)] ''3'')"
    by (simp add: attestation_object_def)
  then obtain m where "attestationMaterial sample ''d1'' [(''altitude_m'', JNum 90)] ''3'' = Inr m"
    using stringify_total unfolding attestationMaterial_def by blast
  then show ?thesis
    by (simp add: sample_attestation_def signTelemetry_def Let_def)
qed

lemma sample_attestation_fields [simp]:
  "ta_readings sample_attestation = [(''altitude_m'', JNum 90)]" "ta_device_id sample_attestation = ''d1''"
  "ta_signed_at sample_attestation = ''3''" "ta_algorithm sample_attestation = ''ed25519''"
  by (rule signTelemetry_fields[OF sample_attestation_signed]; simp)+

lemma attestation_times: "decimal_parse ''3'' = Some 3" "decimal_parse ''5'' = Some 5"
  by (simp_all add: decimal_parse_def is_digit_def digits_val_def char_digit_def)

theorem signed_telemetry_verifies_witness:
  "verifyTelemetryAttestation sample 0 sample_attestation sample_trust = Inr (AttestationVerified [(''altitude_m'', JNum 90)] ''d1'')"
  using signed_telemetry_verifies[OF sample_attestation_signed, of sample_trust 0] sample_signers_sound
  by (simp add: sample_trust_def sample_signer_def trust_now_def trust_max_age_def attestation_times)

text \<open>An agent that claims 10 m while the signed reading is 90 m, under a ceiling of 120 m.\<close>

definition sample_climb :: CanonicalActionInput where
  "sample_climb = sample_action \<lparr> act_params := [(''altitude_m'', JNum 10)] \<rparr>"

definition sample_attest_input :: AttestActionInput where
  "sample_attest_input = \<lparr> aa_action = sample_climb, aa_attestation = Some sample_attestation,
     aa_trust = sample_trust, aa_attestedFields = [''altitude_m''] \<rparr>"

lemma sample_attested:
  "attestActionTelemetry sample 0 sample_attest_input =
     Inr (ActionAttested (attested_action sample_climb sample_attestation [''altitude_m'']) ''d1'')"
proof -
  obtain m where "attestationMaterial sample ''d1'' [(''altitude_m'', JNum 90)] ''3'' = Inr m"
    "ta_signature sample_attestation = sg_sign sample_signer m"
    using signTelemetry_fields[OF sample_attestation_signed] by (metis sample_attestation_fields(3))
  then have "verifyTelemetryAttestation sample 0 sample_attestation sample_trust = Inr (AttestationVerified [(''altitude_m'', JNum 90)] ''d1'')"
    by (simp add: attestation_verified attestation_valid_def sample_trust_def sample_signer_def
        trust_now_def trust_max_age_def attestation_times verifyEd25519_def)
  then show ?thesis
    by (simp add: attestActionTelemetry_def sample_attest_input_def)
qed

abbreviation sample_climb_attested :: CanonicalActionInput where
  "sample_climb_attested \<equiv> attested_action sample_climb sample_attestation [''altitude_m'']"

definition sample_climb_gate :: CommitGateInput where
  "sample_climb_gate = sample_gate \<lparr> ci_ward := Some (sample_ward \<lparr> wm_physical_bounds := Some [(''max_altitude_m'', JNum 120)] \<rparr>),
     ci_action := sample_climb_attested \<rparr>"

lemma sample_climb_accepted:
  "pir_ok (evaluatePhysicalInvariants sample_climb_attested (Some [(''max_altitude_m'', JNum 120)]))"
  unfolding accepted_iff physical_failure_None
  by (simp add: vertical_defs interlocks_industrial_def interlocks_mission_def sample_climb_def sample_action_def
      attested_action_def bind_readings_def check_pass
      num_bound_def str_bound_def flag_bound_def list_bound_def numericParam_def stringParam_def booleanParam_def
      js_simps geofence_check_def)

lemma sample_climb_allowed: "\<exists>d. evaluateCommitGate sample ''0'' sample_climb_gate = Inr d \<and> cg_decision d = ALLOW"
proof -
  have "finite_json (canonical_object sample_climb_attested)"
    by (simp add: canonical_object_def attested_action_def bind_readings_def sample_climb_def sample_action_def js_simps)
  then obtain c where "canonicalizeAction sample sample_climb_attested = Inr c"
    using normalize_total[of "canonical_object sample_climb_attested" sample] by (auto simp: canonicalizeAction_def Let_def)
  moreover have "admissible sample (decimal_parse ''200'') sample_climb_gate []"
    using sample_admissible sample_climb_accepted
    by (simp add: admissible_def envelope_admits_def sample_climb_gate_def sample_gate_def attested_action_def sample_climb_def
        missingRuntimeRegisters_def constraintsPass_def numericConstraint_def sample_envelope_def js_simps degraded_action_def
        sample_ward_def sample_action_def)
  ultimately show ?thesis
    using sample_snapshot by (auto simp: evaluateCommitGate_def sample_climb_gate_def sample_gate_def gate_decision_allow)
qed

theorem attested_readings_within_limits_witness:
  "\<exists>att. aa_attestation sample_attest_input = Some att \<and>
     list_all (honours (sample_climb_attested \<lparr> act_params := ta_readings att \<rparr>) [(''max_altitude_m'', JNum 120)])
       (filter (\<lambda>l. set (limit_reads (ta_readings att) l) \<subseteq> set [''altitude_m'']) declared_limits)"
proof -
  obtain d where "evaluateCommitGate sample ''0'' sample_climb_gate = Inr d" "cg_decision d = ALLOW"
    using sample_climb_allowed by blast
  from attested_readings_within_limits[OF sample_attested this, of _ "[(''max_altitude_m'', JNum 120)]"] show ?thesis
    by (auto simp: sample_climb_gate_def sample_attest_input_def simp del: set_simps limit_reads.simps)
qed

end
