(* ===== verification/Sample_Calls.thy ===== *)
theory Sample_Calls
  imports Boundary
begin

text \<open>
  A concrete call of \<open>evaluateExecutionControl\<close> that is admitted, on a file-backed and on an in-memory
  ledger: the input on which the witnesses of the decision path and of the proxy are evaluated.
\<close>

text \<open>A boundary with empty stores, and a call on it that is admitted.\<close>

definition sample_ambience :: ambience where
  "sample_ambience = \<lparr> am_wall = ''200'', am_nonce = ''n1'', am_dev_signer = sample_signer \<rparr>"

definition sample_input :: EvaluateExecutionControlInput where
  "sample_input = \<lparr> ec_gate = sample_gate, ec_signer = None, ec_killSwitch = False, ec_replayProtection = True,
     ec_revocations = None, ec_warrantTtlSeconds = Some (1 / 10), ec_actor = None, ec_trace_context = None \<rparr>"

definition empty_index :: LedgerIndex where
  "empty_index = \<lparr> ix_tip = JStr GENESIS_HASH, ix_count = 0, ix_admitted = {}, ix_ok = True, ix_failure = None \<rparr>"

definition sample_file :: "file_ledger boundary" where
  "sample_file = \<lparr> bd_ledger = \<lparr> fl_index = empty_index, fl_file = [] \<rparr>, bd_budget = None, bd_approvals = None \<rparr>"

definition sample_memory :: "memory_ledger boundary" where
  "sample_memory = \<lparr> bd_ledger = \<lparr> ml_index = empty_index, ml_chain = [] \<rparr>, bd_budget = None, bd_approvals = None \<rparr>"

lemma empty_index_agrees: "index_agrees [] empty_index"
  by (simp add: index_agrees_def empty_index_def chain_tip_def hasPriorAdmission_def)

lemma sample_inv: "file_inv (bd_ledger sample_file)" "memory_inv (bd_ledger sample_memory)"
  using empty_index_agrees by (simp_all add: file_inv_def memory_inv_def sample_file_def sample_memory_def)

lemma sample_decided:
  assumes "\<not> lb_hasAdmitted B (bd_ledger st) (ca_canonical_action_hash c)" "bd_budget st = None" "bd_approvals st = None"
    and "canonicalizeAction sample sample_action = Inr c"
  shows "\<exists>d. decide_phase sample B sample_ambience sample_input st = Inr d \<and> cg_decision (dd_decision d) = ALLOW \<and>
     dd_budget d = \<lparr> bv_policy = None, bv_nowMs = Some 200, bv_cost = 0, bv_exceeded = None \<rparr> \<and> dd_dual d = None \<and>
     finite_json (opt_json physical_json (cg_physical_invariant_result (dd_decision d))) \<and>
     cg_runtime_register_snapshot (dd_decision d) = []"
proof -
  let ?d = "full_decision sample sample_ambience sample_input sample_signer c [] False False False False"
  have gate: "ec_gate sample_input = sample_gate" "ci_action sample_gate = sample_action" "ci_runtimeRegister sample_gate = None"
    "ci_authorityEnvelope sample_gate = Some sample_envelope" "ci_now sample_gate = Some ''200''" "ae_constraints sample_envelope = []"
    by (simp_all add: sample_input_def sample_gate_def sample_envelope_def)
  have budget: "evaluateBudget sample sample_ambience sample_input None =
      Inr \<lparr> bv_policy = None, bv_nowMs = Some 200, bv_cost = 0, bv_exceeded = None \<rparr>"
    by (simp add: evaluateBudget_def gate Let_def sample_dates) (simp add: sample_action_def js_simps)
  have dual: "evaluateDualControl sample sample_ambience sample_input c None = Inr None"
    by (simp add: evaluateDualControl_def gate Let_def envelope_constraint_def js_simps dualControlPolicyFrom_def is_object_def)
  have allow: "cg_decision ?d = ALLOW"
    using sample_admissible
    by (simp add: full_decision_allow gate gate_time_def sample_input_def revoked_now_def)
  obtain w where w: "warrant_for sample sample_ambience sample_input sample_signer ?d = Inr w"
    using allow by (simp add: warrant_for_def gate issueWarrant_def Let_def to_iso_def sample_dates effective_ttl_def js_trunc_def
        sample_input_def)
  have phys: "finite_json (opt_json physical_json x)" for x
    by (cases x) (simp_all add: physical_json_def list_all_iff)
  have snap: "cg_runtime_register_snapshot ?d = []"
    by (auto simp: full_decision_def Let_def gate_decision_fields refuse_def split: option.splits)
  have signer: "call_signer sample_ambience sample_input = sample_signer"
    by (simp add: call_signer_def sample_input_def sample_ambience_def)
  have "decide_phase sample B sample_ambience sample_input st =
      Inr \<lparr> dd_canonical = c, dd_budget = \<lparr> bv_policy = None, bv_nowMs = Some 200, bv_cost = 0, bv_exceeded = None \<rparr>,
            dd_dual = None, dd_decision = ?d, dd_warrant = w \<rparr>"
    using assms sample_snapshot decideAndWarrant_full[of sample sample_input c "[]" sample_ambience sample_signer]
    by (simp add: decide_phase_def gate budget dual signer w)
  with allow phys snap show ?thesis by simp
qed

lemma sample_gel_finite:
  assumes "cg_runtime_register_snapshot (dd_decision d) = []"
    "finite_json (opt_json physical_json (cg_physical_invariant_result (dd_decision d)))"
  shows "finite_json (JObj (gel_base t i (JStr p) (gel_input am sample_input ward d)))"
proof -
  have opt: "finite_json (opt_json JStr x)" for x by (cases x) simp_all
  show ?thesis
    using assms opt by (simp add: gel_base_def gel_input_def list_all_iff) (simp add: sample_input_def)
qed

lemma sample_builds:
  assumes "cg_runtime_register_snapshot (dd_decision d) = []"
    "finite_json (opt_json physical_json (cg_physical_invariant_result (dd_decision d)))"
  shows "\<exists>r. buildGelRecord sample wall (JStr p) (gel_input am sample_input ward d) = Inr r \<and> finite_json (JObj r)"
proof -
  let ?g = "gel_input am sample_input ward d"
  obtain i where i: "record_id_of sample (JStr p) (gel_timestamp wall ?g) (cg_canonical_action_hash (bg_decision ?g)) = Inr i"
    using stringify_total[of "JObj [(''previous_hash'', JStr p), (''timestamp'', JStr (gel_timestamp wall ?g)),
        (''action'', JStr (cg_canonical_action_hash (bg_decision ?g)))]" sample] by (auto simp: record_id_of_def)
  obtain s where s: "stableStringify sample (JObj (gel_base (gel_timestamp wall ?g) i (JStr p) ?g)) = Inr s"
    using stringify_total[OF sample_gel_finite[OF assms]] by blast
  show ?thesis
    using i s sample_gel_finite[OF assms, of "gel_timestamp wall ?g" i p am ward]
    by (simp add: buildGelRecord_def Let_def sign_fields_def split: option.split)
qed

lemma sample_evaluates:
  assumes "lb_tipHash B (bd_ledger st) = JStr p" "\<And>h. \<not> lb_hasAdmitted B (bd_ledger st) h"
    and "bd_budget st = None" "bd_approvals st = None"
    and "\<And>r. finite_json (JObj r) \<Longrightarrow> \<exists>b'. lb_persist B r (bd_ledger st) = Inr b'"
  shows "\<exists>res st'. evaluateExecutionControl sample B sample_ambience sample_input st = (Inr res, st') \<and> er_decision res = ALLOW"
proof -
  obtain c where "canonicalizeAction sample sample_action = Inr c" using sample_canonical by blast
  from sample_decided[OF assms(2-4) this] obtain d where d: "decide_phase sample B sample_ambience sample_input st = Inr d"
    "cg_decision (dd_decision d) = ALLOW" "dd_dual d = None" "cg_runtime_register_snapshot (dd_decision d) = []"
    "finite_json (opt_json physical_json (cg_physical_invariant_result (dd_decision d)))"
    "dd_budget d = \<lparr> bv_policy = None, bv_nowMs = Some 200, bv_cost = 0, bv_exceeded = None \<rparr>" by blast
  obtain r where r: "buildGelRecord sample ''200'' (JStr p) (gel_input sample_ambience sample_input sample_ward d) = Inr r" "finite_json (JObj r)"
    using sample_builds[OF d(4,5)] by blast
  obtain b' where b': "lb_persist B r (bd_ledger st) = Inr b'" using assms(5)[OF r(2)] by blast
  have "ledger_append sample B (am_wall sample_ambience) (gel_input sample_ambience sample_input sample_ward d) (bd_ledger st) = Inr (r, b')"
    using r(1) b' assms(1) by (simp add: ledger_append_def sample_ambience_def)
  moreover have "ci_ward (ec_gate sample_input) = Some sample_ward" by (simp add: sample_input_def sample_gate_def)
  ultimately show ?thesis
    using d assms(3,4)
    by (simp add: evaluateExecutionControl_def recordBudget_def openDualControlRequest_def Let_def reclassify_runtime)
qed

lemma sample_file_call:
  "\<exists>res st'. evaluateExecutionControl sample (FileLedgerBackend sample) sample_ambience sample_input sample_file = (Inr res, st') \<and>
     er_decision res = ALLOW"
proof (rule sample_evaluates[where p = GENESIS_HASH])
  show "\<exists>b'. lb_persist (FileLedgerBackend sample) r (bd_ledger sample_file) = Inr b'" if "finite_json (JObj r)" for r
    using normalize_total[OF that, of sample] by (auto simp: FileLedgerBackend_def file_persist_def writeGelRecord_def)
qed (simp_all add: FileLedgerBackend_def sample_file_def empty_index_def)

lemma sample_memory_call:
  "\<exists>res st'. evaluateExecutionControl sample InMemoryLedgerBackend sample_ambience sample_input sample_memory = (Inr res, st') \<and>
     er_decision res = ALLOW"
  by (rule sample_evaluates[where p = GENESIS_HASH])
     (simp_all add: InMemoryLedgerBackend_def memory_persist_def sample_memory_def empty_index_def)

end
