(* ===== verification/Egress_Guard.thy ===== *)
theory Egress_Guard
  imports Js_String Sample "HOL-Library.Word"
begin

unbundle bit_operations_syntax

text \<open>
  The SSRF egress guard (\<open>execution-control-runtime/src/egress-guard.ts\<close>): \<open>blockedCategory\<close> and
  \<open>classifyEgressUrl\<close>, with \<open>isIP\<close> of \<open>node:net\<close>.  The URL parser is a parameter: \<open>url_parse raw\<close>
  is the protocol and the hostname of \<open>new URL(raw)\<close>, \<open>None\<close> where it throws.  Host names are ASCII,
  as the URL parser yields them.

  The main theorem: on every IPv4 address the guard computes exactly the category of the address
  blocks it names, as prefixes of the 32-bit address.  The lemmas after it show that the guard does not
  see through an IPv4-mapped IPv6 address once the URL parser has printed it in hexadecimal.
\<close>

section \<open>\<open>isIP\<close>\<close>

text \<open>A decimal octet without leading zeros.\<close>

definition ipv4_segment :: "string \<Rightarrow> bool" where
  "ipv4_segment s \<longleftrightarrow> s \<noteq> [] \<and> length s \<le> 3 \<and> list_all is_digit s \<and> digits_val s \<le> 255 \<and>
     (hd s = CHR ''0'' \<longrightarrow> length s = 1)"

definition isIPv4 :: "string \<Rightarrow> bool" where
  "isIPv4 s \<longleftrightarrow> (let parts = split_on CHR ''.'' s in length parts = 4 \<and> list_all ipv4_segment parts)"

definition is_hex :: "char \<Rightarrow> bool" where
  "is_hex c \<longleftrightarrow> is_digit c \<or> (97 \<le> code c \<and> code c \<le> 102) \<or> (65 \<le> code c \<and> code c \<le> 70)"

definition ipv6_segment :: "string \<Rightarrow> bool" where
  "ipv6_segment s \<longleftrightarrow> s \<noteq> [] \<and> length s \<le> 4 \<and> list_all is_hex s"

text \<open>
  The number of 16-bit groups of a colon-separated list whose last part may be a dotted quad, or
  \<open>None\<close> where a part is malformed.
\<close>

fun ipv6_groups :: "string list \<Rightarrow> nat option" where
  "ipv6_groups [] = Some 0"
| "ipv6_groups [s] = (if ipv6_segment s then Some 1 else if isIPv4 s then Some 2 else None)"
| "ipv6_groups (s # t # ss) = (if ipv6_segment s then map_option Suc (ipv6_groups (t # ss)) else None)"

text \<open>The text before and after the first \<open>::\<close>.\<close>

fun split_double_colon :: "string \<Rightarrow> (string \<times> string) option" where
  "split_double_colon (a # b # s) =
     (if a = CHR '':'' \<and> b = CHR '':'' then Some ([], s)
      else map_option (\<lambda>(l, r). (a # l, r)) (split_double_colon (b # s)))"
| "split_double_colon _ = None"

definition colon_parts :: "string \<Rightarrow> string list" where
  "colon_parts s = (if s = [] then [] else split_on CHR '':'' s)"

definition zone_char :: "char \<Rightarrow> bool" where
  "zone_char c \<longleftrightarrow> is_digit c \<or> (97 \<le> code c \<and> code c \<le> 122) \<or> (65 \<le> code c \<and> code c \<le> 90) \<or> c \<in> {CHR ''-'', CHR ''.'', CHR '':''}"

definition isIPv6 :: "string \<Rightarrow> bool" where
  "isIPv6 s \<longleftrightarrow>
     (let addr = takeWhile (\<lambda>c. c \<noteq> CHR 0x25) s;
          zone = dropWhile (\<lambda>c. c \<noteq> CHR 0x25) s
      in (zone = [] \<or> (tl zone \<noteq> [] \<and> list_all zone_char (tl zone))) \<and>
         (case split_double_colon addr of
            None \<Rightarrow> ipv6_groups (colon_parts addr) = Some 8
          | Some (left, right) \<Rightarrow>
              list_all ipv6_segment (colon_parts left) \<and>
              (case ipv6_groups (colon_parts right) of
                 Some n \<Rightarrow> length (colon_parts left) + n \<le> 7 | None \<Rightarrow> False)))"

definition isIP :: "string \<Rightarrow> nat" where
  "isIP s = (if isIPv4 s then 4 else if isIPv6 s then 6 else 0)"

section \<open>Classification\<close>

definition METADATA_HOSTNAMES :: "string list" where
  "METADATA_HOSTNAMES = [''metadata.google.internal'', ''metadata'', ''instance-data'']"

definition ipv4Octets :: "string \<Rightarrow> nat list option" where
  "ipv4Octets host = (if isIP host \<noteq> 4 then None else Some (map digits_val (split_on CHR ''.'' host)))"

text \<open>\<open>host.toLowerCase().replace(/^\[|\]$/g, "")\<close>.\<close>

definition unbracket :: "string \<Rightarrow> string" where
  "unbracket s =
     (let t = (if s \<noteq> [] \<and> hd s = CHR ''['' then tl s else s)
      in if t \<noteq> [] \<and> last t = CHR '']'' then butlast t else t)"

definition ends_with :: "string \<Rightarrow> string \<Rightarrow> bool" where
  "ends_with s e \<longleftrightarrow> length e \<le> length s \<and> drop (length s - length e) s = e"

text \<open>\<open>lower.match(/::ffff:(\d+\.\d+\.\d+\.\d+)$/i)\<close>: the captured text of the leftmost match.\<close>

definition dotted_digits :: "string \<Rightarrow> bool" where
  "dotted_digits s \<longleftrightarrow>
     (let parts = split_on CHR ''.'' s in length parts = 4 \<and> list_all (\<lambda>p. p \<noteq> [] \<and> list_all is_digit p) parts)"

fun mapped_ipv4 :: "string \<Rightarrow> string option" where
  "mapped_ipv4 [] = None"
| "mapped_ipv4 (c # s) =
     (if take 7 (c # s) = ''::ffff:'' \<and> dotted_digits (drop 7 (c # s)) then Some (drop 7 (c # s)) else mapped_ipv4 s)"

lemma mapped_ipv4_length: "mapped_ipv4 s = Some m \<Longrightarrow> length m < length s"
proof (induction s)
  case (Cons c s)
  show ?case
  proof (cases "take 7 (c # s) = ''::ffff:'' \<and> dotted_digits (drop 7 (c # s))")
    case True
    then have "m = drop 7 (c # s)" using Cons.prems by simp
    then show ?thesis by simp
  next
    case False
    then show ?thesis using Cons by (simp only: mapped_ipv4.simps if_False) simp
  qed
qed simp

lemma unbracket_length: "length (unbracket s) \<le> length s"
  by (simp add: unbracket_def Let_def)

text \<open>The test of an IPv4 address on its first two octets.\<close>

definition ipv4_category :: "nat \<Rightarrow> nat \<Rightarrow> bool \<Rightarrow> string option" where
  "ipv4_category a b blockPrivate =
     (if a = 0 then Some ''unspecified''
      else if a = 169 \<and> b = 254 then Some ''link-local''
      else if blockPrivate \<and> a = 127 then Some ''loopback''
      else if blockPrivate \<and> a = 10 then Some ''private''
      else if blockPrivate \<and> a = 172 \<and> 16 \<le> b \<and> b \<le> 31 then Some ''private''
      else if blockPrivate \<and> a = 192 \<and> b = 168 then Some ''private''
      else if blockPrivate \<and> a = 100 \<and> 64 \<le> b \<and> b \<le> 127 then Some ''carrier-grade-nat''
      else None)"

definition hostname_category :: "string \<Rightarrow> bool \<Rightarrow> string option" where
  "hostname_category lower blockPrivate =
     (if lower \<in> set METADATA_HOSTNAMES then Some ''metadata-hostname''
      else if blockPrivate \<and> (lower = ''localhost'' \<or> ends_with lower ''.localhost'' \<or> ends_with lower ''.local'' \<or>
          ends_with lower ''.internal'') then Some ''private-hostname''
      else None)"

function blockedCategory :: "string \<Rightarrow> bool \<Rightarrow> string option" where
  "blockedCategory host blockPrivate =
     (let lower = unbracket (map ascii_lower host) in
      if isIP lower = 0 then hostname_category lower blockPrivate
      else case ipv4Octets lower of
        Some octets \<Rightarrow> ipv4_category (octets ! 0) (octets ! 1) blockPrivate
      | None \<Rightarrow>
          if lower = ''::'' then Some ''unspecified''
          else if starts_with lower ''fe80'' then Some ''link-local''
          else if lower = ''::1'' \<and> blockPrivate then Some ''loopback''
          else if blockPrivate \<and> (starts_with lower ''fc'' \<or> starts_with lower ''fd'') then Some ''unique-local''
          else (case mapped_ipv4 lower of
                  Some m \<Rightarrow> blockedCategory m blockPrivate
                | None \<Rightarrow> None))"
  by pat_completeness auto
termination
proof (relation "measure (length \<circ> fst)")
  fix host lower m and blockPrivate
  assume "lower = unbracket (map ascii_lower host)" "mapped_ipv4 lower = Some m"
  then have "length m < length host"
    using mapped_ipv4_length[of lower m] unbracket_length[of "map ascii_lower host"] by simp
  then show "((m, blockPrivate), host, blockPrivate) \<in> measure (length \<circ> fst)" by simp
qed simp

declare blockedCategory.simps [simp del]

datatype EgressVerdict = EgressAllowed | EgressRefused string

definition classifyEgressUrl :: "(string \<Rightarrow> (string \<times> string) option) \<Rightarrow> string \<Rightarrow> bool \<Rightarrow> EgressVerdict" where
  "classifyEgressUrl url_parse raw blockPrivateNetworks =
     (case url_parse raw of
        None \<Rightarrow> EgressRefused (''invalid URL: '' @ raw)
      | Some (protocol, hostname) \<Rightarrow>
          if protocol \<noteq> ''http:'' \<and> protocol \<noteq> ''https:''
          then EgressRefused (''scheme '' @ protocol @ '' is not an allowed egress scheme'')
          else (case blockedCategory hostname blockPrivateNetworks of
                  Some category \<Rightarrow> EgressRefused (''destination '' @ hostname @ '' is in a blocked range ('' @ category @ '')'')
                | None \<Rightarrow> EgressAllowed))"

section \<open>IPv4 addresses as 32-bit words\<close>

definition octet :: "32 word \<Rightarrow> nat \<Rightarrow> nat" where
  "octet w i = unat w div 2 ^ (24 - 8 * i) mod 256"

definition dotted :: "32 word \<Rightarrow> string" where
  "dotted w = join ''.'' (map (\<lambda>i. nat_digits (octet w i)) [0, 1, 2, 3])"

text \<open>The address block \<open>base/n\<close>.\<close>

definition in_block :: "32 word \<Rightarrow> 32 word \<Rightarrow> nat \<Rightarrow> bool" where
  "in_block w base n \<longleftrightarrow> drop_bit (32 - n) w = drop_bit (32 - n) base"

text \<open>The blocks the guard names: always 0.0.0.0/8 and 169.254.0.0/16; when private networks are refused
  also 127.0.0.0/8, 10.0.0.0/8, 172.16.0.0/12, 192.168.0.0/16 and 100.64.0.0/10.\<close>

definition blocked_blocks :: "bool \<Rightarrow> (32 word \<times> nat \<times> string) list" where
  "blocked_blocks blockPrivate =
     [(0x00000000, 8, ''unspecified''), (0xA9FE0000, 16, ''link-local'')] @
     (if blockPrivate then
        [(0x7F000000, 8, ''loopback''), (0x0A000000, 8, ''private''), (0xAC100000, 12, ''private''),
         (0xC0A80000, 16, ''private''), (0x64400000, 10, ''carrier-grade-nat'')]
      else [])"

definition block_category :: "32 word \<Rightarrow> bool \<Rightarrow> string option" where
  "block_category w blockPrivate =
     map_option (\<lambda>(_, _, c). c) (find (\<lambda>(base, n, _). in_block w base n) (blocked_blocks blockPrivate))"

lemma in_block_nat: "in_block w base n \<longleftrightarrow> unat w div 2 ^ (32 - n) = unat base div 2 ^ (32 - n)"
  by (simp only: in_block_def word_unat_eq_iff unat_drop_bit_eq) (simp add: drop_bit_eq_div)

lemma group_eq: "r < (n :: nat) \<Longrightarrow> s < n \<Longrightarrow> n * q + r = n * p + s \<longleftrightarrow> q = p \<and> r = s"
  by (metis div_mult_self4 div_less mod_mult_self4 mod_less add_0_right not_less_zero)

lemma block_category_octets: "block_category w blockPrivate = ipv4_category (octet w 0) (octet w 1) blockPrivate"
proof -
  define m where "m = unat w div 65536"
  have "unat w < 2 ^ 32" using unsigned_less[of w] by simp
  then have m: "m < 65536" by (simp add: m_def)
  have o: "octet w 0 = m div 256" "octet w 1 = m mod 256"
    using m by (simp_all add: octet_def m_def div_mult2_eq[symmetric])
  have d: "unat w div 16777216 = m div 256" "unat w div 1048576 = m div 16" "unat w div 4194304 = m div 64"
    by (simp_all add: m_def div_mult2_eq[symmetric])
  have b: "in_block w 0 8 \<longleftrightarrow> m div 256 = 0" "in_block w 0xA9FE0000 16 \<longleftrightarrow> m = 43518"
    "in_block w 0x7F000000 8 \<longleftrightarrow> m div 256 = 127" "in_block w 0x0A000000 8 \<longleftrightarrow> m div 256 = 10"
    "in_block w 0xAC100000 12 \<longleftrightarrow> m div 16 = 2753" "in_block w 0xC0A80000 16 \<longleftrightarrow> m = 49320"
    "in_block w 0x64400000 10 \<longleftrightarrow> m div 64 = 401"
    by (simp_all add: in_block_nat d flip: m_def)
  obtain q r where qr: "m = 256 * q + r" "r < 256"
    using mod_less_divisor[of 256 m] by (metis mult_div_mod_eq zero_less_numeral)
  have k: "r div 16 < 16" "r div 64 < 4" using qr(2) by simp_all
  have e: "m div 256 = q" "m mod 256 = r" "m div 16 = 16 * q + r div 16" "m div 64 = 4 * q + r div 64"
    using qr by simp_all
  have s: "m = 43518 \<longleftrightarrow> q = 169 \<and> r = 254" "m = 49320 \<longleftrightarrow> q = 192 \<and> r = 168"
    using group_eq[of r 256 254 q 169] group_eq[of r 256 168 q 192] qr by simp_all
  have t: "16 * q + r div 16 = 2753 \<longleftrightarrow> q = 172 \<and> r div 16 = 1" "4 * q + r div 64 = 401 \<longleftrightarrow> q = 100 \<and> r div 64 = 1"
    using group_eq[of "r div 16" 16 1 q 172] group_eq[of "r div 64" 4 1 q 100] k by simp_all
  have u: "r div 16 = 1 \<longleftrightarrow> 16 \<le> r \<and> r \<le> 31" "r div 64 = 1 \<longleftrightarrow> 64 \<le> r \<and> r \<le> 127"
    by arith+
  have oct: "octet w 0 = q" "octet w 1 = r"
    by (simp_all only: o e)
  have blocks: "in_block w 0 8 \<longleftrightarrow> q = 0" "in_block w 0xA9FE0000 16 \<longleftrightarrow> q = 169 \<and> r = 254"
    "in_block w 0x7F000000 8 \<longleftrightarrow> q = 127" "in_block w 0x0A000000 8 \<longleftrightarrow> q = 10"
    "in_block w 0xAC100000 12 \<longleftrightarrow> q = 172 \<and> 16 \<le> r \<and> r \<le> 31" "in_block w 0xC0A80000 16 \<longleftrightarrow> q = 192 \<and> r = 168"
    "in_block w 0x64400000 10 \<longleftrightarrow> q = 100 \<and> 64 \<le> r \<and> r \<le> 127"
    by (simp_all only: b e s t u)
  show ?thesis
    unfolding oct block_category_def blocked_blocks_def ipv4_category_def
    by (cases blockPrivate) (simp_all add: blocks)
qed

lemma block_category_None:
  "block_category w blockPrivate = None \<longleftrightarrow> list_all (\<lambda>(base, n, c). \<not> in_block w base n) (blocked_blocks blockPrivate)"
  by (auto simp: block_category_def find_None_iff list_all_iff)

lemma digit_char_0: "d < 10 \<Longrightarrow> digit_char d = CHR ''0'' \<Longrightarrow> d = 0"
  using char_digit_digit_char[of d] by (simp only:) (simp add: char_digit_def)

lemma split_on_none: "c \<notin> set s \<Longrightarrow> split_on c s = [s]"
  by (induction s) auto

lemma split_on_append: "c \<notin> set s \<Longrightarrow> split_on c (s @ c # t) = s # split_on c t"
  by (induction s) auto

lemma no_dot_digits: "list_all is_digit s \<Longrightarrow> CHR ''.'' \<notin> set s"
  by (auto simp: list_all_iff is_digit_def)

lemma octet_segment:
  assumes "n < 256"
  shows "ipv4_segment (nat_digits n)"
proof -
  have "hd (nat_digits n) = CHR ''0'' \<longrightarrow> length (nat_digits n) = 1" "length (nat_digits n) \<le> 3"
    using assms by (auto simp: nat_digits.simps[of n] nat_digits.simps[of "n div 10"] nat_digits.simps[of "n div 10 div 10"]
        dest: digit_char_0[rotated])
  then show ?thesis
    using assms nat_digits_digits[of n] by (simp add: ipv4_segment_def)
qed

lemma dotted_parts:
  "split_on CHR ''.'' (dotted w) = map (\<lambda>i. nat_digits (octet w i)) [0, 1, 2, 3]"
  using no_dot_digits[OF nat_digits_digits]
  by (simp add: dotted_def split_on_append split_on_none)

lemma dotted_isIPv4: "isIPv4 (dotted w)"
  unfolding isIPv4_def dotted_parts by (simp add: octet_segment octet_def)

lemma dotted_chars: "list_all (\<lambda>c. is_digit c \<or> c = CHR ''.'') (dotted w)"
  using nat_digits_digits by (auto simp: dotted_def list_all_iff)

lemma dotted_lower: "unbracket (map ascii_lower (dotted w)) = dotted w"
proof -
  have "ascii_lower c = c \<and> c \<noteq> CHR ''['' \<and> c \<noteq> CHR '']''" if "c \<in> set (dotted w)" for c
    using that dotted_chars[of w] by (auto simp: list_all_iff is_digit_def ascii_lower_def code_def)
  then show ?thesis
    by (auto simp: unbracket_def Let_def map_idI)
qed

section \<open>Properties\<close>

text \<open>
  C37 Exactness on IPv4: for each of the 2^32 addresses, the guard answers on its dotted text the category of the
  first named address block that contains it, and no category when none does; with the URL parsed to that
  host and an HTTP scheme, the URL is refused exactly in the first case.
\<close>

theorem egress_ipv4_exact:
  "blockedCategory (dotted w) blockPrivate = block_category w blockPrivate \<and>
   (classifyEgressUrl (\<lambda>_. Some (''http:'', dotted w)) raw blockPrivate = EgressAllowed \<longleftrightarrow>
      list_all (\<lambda>(base, n, c). \<not> in_block w base n) (blocked_blocks blockPrivate))"
proof -
  have "ipv4Octets (dotted w) = Some (map (octet w) [0, 1, 2, 3])"
    by (simp add: ipv4Octets_def isIP_def dotted_isIPv4 dotted_parts)
  then have *: "blockedCategory (dotted w) blockPrivate = block_category w blockPrivate"
    by (simp add: blockedCategory.simps[of "dotted w"] dotted_lower isIP_def dotted_isIPv4 block_category_octets)
  show ?thesis
    by (cases "block_category w blockPrivate") (use block_category_None[of w blockPrivate] * in \<open>simp_all add: classifyEgressUrl_def\<close>)
qed

text \<open>
  The mapped metadata address is refused as the tests write it, in dotted form, but not in the hexadecimal
  form in which a URL parser prints the host of \<open>http://[::ffff:169.254.169.254]/\<close>; the same holds of
  the mapped loopback address when private networks are refused.
\<close>

lemma mapped_metadata_dotted_blocked: "blockedCategory ''::ffff:169.254.169.254'' False = Some ''link-local''"
  by code_simp

lemma mapped_metadata_hex_allowed: "blockedCategory ''[::ffff:a9fe:a9fe]'' True = None"
  by code_simp

lemma mapped_loopback_hex_allowed: "blockedCategory ''[::ffff:7f00:1]'' True = None"
  by code_simp

text \<open>Link-local addresses outside \<open>fe80::/16\<close>, and metadata host names with a trailing dot, pass.\<close>

lemma link_local_fe90_allowed: "blockedCategory ''[fe90::1]'' True = None"
  by code_simp

lemma metadata_trailing_dot_allowed: "blockedCategory ''metadata.google.internal.'' False = None"
  by code_simp

end
