(* ===== verification/Credential_Broker.thy ===== *)
theory Credential_Broker
  imports Action Js_String
begin

text \<open>
  The credential revocation list (\<open>execution-control-runtime/src/credential-revocation.ts\<close>) and the
  \<open>CredentialBroker\<close> of \<open>proxy.ts\<close>, which hands out the headers of the rules that match an
  action.  The theorems: what the broker releases comes from a rule for the action type whose credential
  is not revoked and whose URL prefix has the origin of the target and a path at or above its path, and
  a revocation written to the file is never undone.

  The URL parser is a parameter: \<open>url_parse s\<close> holds the components of \<open>new URL(s)\<close>, \<open>None\<close> where it
  throws.  A revocation file is the array \<open>revoked_credentials\<close> it holds, \<open>None\<close> when it is missing;
  a file without that array counts as an empty one.
\<close>

section \<open>The revocation list\<close>

record CredentialRevocationEntry =
  cre_credential_ref :: string
  cre_revoked_at :: iso_time
  cre_reason :: string
  cre_source :: string
  cre_warrant_id :: "string option"
  cre_gel_record_id :: "string option"
  cre_finding_id :: "string option"
  cre_evidence_hash :: "string option"

type_synonym CredentialRevocationList = "CredentialRevocationEntry list"
type_synonym credential_file = "CredentialRevocationList option"

definition loadCredentialRevocations :: "credential_file \<Rightarrow> CredentialRevocationList" where
  "loadCredentialRevocations file = (case file of None \<Rightarrow> [] | Some list \<Rightarrow> list)"

definition saveCredentialRevocations :: "platform \<Rightarrow> CredentialRevocationList \<Rightarrow> credential_file" where
  "saveCredentialRevocations P list =
     Some (sort_by (\<lambda>l r. locale_le P (cre_credential_ref l) (cre_credential_ref r)) list)"

text \<open>\<open>Object.assign(existing, ...)\<close>; the reference and the first date stay.\<close>

definition merge_entry :: "CredentialRevocationEntry \<Rightarrow> CredentialRevocationEntry \<Rightarrow> CredentialRevocationEntry" where
  "merge_entry entry existing =
     existing \<lparr> cre_reason := (if cre_reason entry \<noteq> [] then cre_reason entry else cre_reason existing),
       cre_source := cre_source entry,
       cre_warrant_id := coalesce (cre_warrant_id entry) (cre_warrant_id existing),
       cre_gel_record_id := coalesce (cre_gel_record_id entry) (cre_gel_record_id existing),
       cre_finding_id := coalesce (cre_finding_id entry) (cre_finding_id existing),
       cre_evidence_hash := coalesce (cre_evidence_hash entry) (cre_evidence_hash existing) \<rparr>"

text \<open>The first entry with the reference is updated in place; otherwise the entry is appended.\<close>

fun upsert_entry :: "CredentialRevocationEntry \<Rightarrow> CredentialRevocationList \<Rightarrow> CredentialRevocationList" where
  "upsert_entry entry [] = [entry]"
| "upsert_entry entry (e # es) =
     (if cre_credential_ref e = cre_credential_ref entry then merge_entry entry e # es else e # upsert_entry entry es)"

text \<open>The new file and the returned list.\<close>

definition addCredentialRevocation ::
  "platform \<Rightarrow> credential_file \<Rightarrow> CredentialRevocationEntry \<Rightarrow> credential_file \<times> CredentialRevocationList" where
  "addCredentialRevocation P file entry =
     (let saved = saveCredentialRevocations P (upsert_entry entry (loadCredentialRevocations file))
      in (saved, loadCredentialRevocations saved))"

definition credentialRevocationReason ::
  "CredentialRevocationList option \<Rightarrow> string \<Rightarrow> CredentialRevocationEntry option" where
  "credentialRevocationReason list credentialRef =
     Option.bind list (find (\<lambda>e. cre_credential_ref e = credentialRef))"

section \<open>The broker\<close>

record url_parts =
  up_protocol :: string
  up_hostname :: string
  up_origin :: string
  up_pathname :: string
  up_search :: string
  up_username :: string
  up_password :: string

record CredentialRule =
  cr_action_type :: "string option"
  cr_target_prefix :: "string option"
  cr_header :: string
  cr_value :: "string option"
  cr_value_env :: "string option"
  cr_scheme :: "string option"
  cr_credential_ref :: "string option"

record CredentialBroker =
  cb_rules :: "CredentialRule list"
  cb_env :: "string \<Rightarrow> string option"
  cb_credentialRevocations :: "CredentialRevocationList option"

text \<open>\<open>path.replace(/\/$/, "")\<close>.\<close>

definition drop_trailing_slash :: "string \<Rightarrow> string" where
  "drop_trailing_slash s = (if s \<noteq> [] \<and> last s = CHR ''/'' then butlast s else s)"

definition prefix_covers :: "url_parts \<Rightarrow> url_parts \<Rightarrow> bool" where
  "prefix_covers pre target \<longleftrightarrow>
     (let basePath = drop_trailing_slash (up_pathname pre) in
      up_protocol pre \<in> {''http:'', ''https:''} \<and>
      up_username pre = [] \<and> up_password pre = [] \<and> up_username target = [] \<and> up_password target = [] \<and>
      up_origin pre = up_origin target \<and>
      (up_pathname target = basePath \<or> starts_with (up_pathname target) (basePath @ ''/'')) \<and>
      (up_search pre \<noteq> [] \<longrightarrow> up_search pre = up_search target))"

definition rule_matches :: "(string \<Rightarrow> url_parts option) \<Rightarrow> CredentialRule \<Rightarrow> CanonicalActionInput \<Rightarrow> bool" where
  "rule_matches url_parse rule action =
     (if str_truthy (cr_action_type rule) \<and> cr_action_type rule \<noteq> Some (act_action_type action) then False
      else if str_truthy (cr_target_prefix rule) then
        (case (url_parse (the_default [] (cr_target_prefix rule)), url_parse (act_target action)) of
           (Some pre, Some target) \<Rightarrow> prefix_covers pre target
         | _ \<Rightarrow> False)
      else True)"

definition broker_describe :: "(string \<Rightarrow> url_parts option) \<Rightarrow> CredentialBroker \<Rightarrow> CanonicalActionInput \<Rightarrow> string list" where
  "broker_describe url_parse broker action =
     map cr_header (filter (\<lambda>rule. rule_matches url_parse rule action) (cb_rules broker))"

definition rule_secret :: "CredentialBroker \<Rightarrow> CredentialRule \<Rightarrow> string option" where
  "rule_secret broker rule =
     (case cr_value rule of Some v \<Rightarrow> Some v
      | None \<Rightarrow> if str_truthy (cr_value_env rule) then Option.bind (cr_value_env rule) (cb_env broker) else None)"

definition rule_revoked :: "CredentialBroker \<Rightarrow> CredentialRule \<Rightarrow> bool" where
  "rule_revoked broker rule \<longleftrightarrow> str_truthy (cr_credential_ref rule) \<and>
     credentialRevocationReason (cb_credentialRevocations broker) (the_default [] (cr_credential_ref rule)) \<noteq> None"

definition header_value :: "CredentialRule \<Rightarrow> string \<Rightarrow> string" where
  "header_value rule raw =
     (if str_truthy (cr_scheme rule) then the_default [] (cr_scheme rule) @ '' '' @ raw else raw)"

text \<open>\<open>resolve\<close>: an error is its message.\<close>

fun resolve_rules :: "(string \<Rightarrow> url_parts option) \<Rightarrow> CredentialBroker \<Rightarrow> CanonicalActionInput \<Rightarrow> CredentialRule list
    \<Rightarrow> (string, string) jsmap \<Rightarrow> string + (string, string) jsmap" where
  "resolve_rules url_parse broker action [] headers = Inr headers"
| "resolve_rules url_parse broker action (rule # rules) headers =
     (if \<not> rule_matches url_parse rule action then resolve_rules url_parse broker action rules headers
      else if rule_revoked broker rule
      then Inl (''credential broker: credential \"'' @ the_default [] (cr_credential_ref rule) @ ''\" is revoked'')
      else if \<not> str_truthy (rule_secret broker rule)
      then Inl (''credential broker: missing secret for header \"'' @ cr_header rule @ ''\"'' @
             (if str_truthy (cr_value_env rule) then '' (env '' @ the_default [] (cr_value_env rule) @ '')'' else []))
      else resolve_rules url_parse broker action rules
             (map_set (cr_header rule) (header_value rule (the_default [] (rule_secret broker rule))) headers))"

definition broker_resolve :: "(string \<Rightarrow> url_parts option) \<Rightarrow> CredentialBroker \<Rightarrow> CanonicalActionInput
    \<Rightarrow> string + (string, string) jsmap" where
  "broker_resolve url_parse broker action = resolve_rules url_parse broker action (cb_rules broker) []"

section \<open>Lemmas\<close>

text \<open>A rule that may release its secret for an action, and the header it sets.\<close>

definition releases :: "(string \<Rightarrow> url_parts option) \<Rightarrow> CredentialBroker \<Rightarrow> CanonicalActionInput \<Rightarrow> CredentialRule
    \<Rightarrow> string \<Rightarrow> bool" where
  "releases url_parse broker action rule v \<longleftrightarrow>
     rule_matches url_parse rule action \<and> \<not> rule_revoked broker rule \<and>
     (\<exists>secret. rule_secret broker rule = Some secret \<and> secret \<noteq> [] \<and> v = header_value rule secret)"

lemma resolve_rules_Inr:
  "resolve_rules url_parse broker action rules headers = Inr out \<Longrightarrow>
     (\<forall>rule \<in> set rules. rule_matches url_parse rule action \<longrightarrow> \<not> rule_revoked broker rule) \<and>
     (\<forall>h v. map_of out h = Some v \<longrightarrow> map_of headers h = Some v \<or>
        (\<exists>rule \<in> set rules. cr_header rule = h \<and> releases url_parse broker action rule v)) \<and>
     fst ` set out = fst ` set headers \<union> cr_header ` {rule \<in> set rules. rule_matches url_parse rule action}"
proof (induction rules arbitrary: headers)
  case (Cons rule rules)
  show ?case
  proof (cases "rule_matches url_parse rule action")
    case False
    with Cons show ?thesis by auto
  next
    case True
    with Cons.prems obtain secret where s: "\<not> rule_revoked broker rule" "rule_secret broker rule = Some secret" "secret \<noteq> []"
      and r: "resolve_rules url_parse broker action rules (map_set (cr_header rule) (header_value rule secret) headers) = Inr out"
      by (auto simp: the_default_def split: if_splits)
    have "releases url_parse broker action rule (header_value rule secret)"
      using True s by (auto simp: releases_def)
    with Cons.IH[OF r] True s show ?thesis
      by (auto simp: map_of_map_set keys_map_set split: if_splits)
  qed
qed simp

lemma revoked_iff: "credentialRevocationReason (Some list) ref \<noteq> None \<longleftrightarrow> ref \<in> cre_credential_ref ` set list"
  by (auto simp: credentialRevocationReason_def find_None_iff)

lemma merge_ref [simp]: "cre_credential_ref (merge_entry entry e) = cre_credential_ref e"
  by (simp add: merge_entry_def)

lemma upsert_refs: "cre_credential_ref ` set (upsert_entry entry es) = insert (cre_credential_ref entry) (cre_credential_ref ` set es)"
  by (induction es) auto

lemma add_refs:
  "cre_credential_ref ` set (loadCredentialRevocations (fst (addCredentialRevocation P file entry))) =
     insert (cre_credential_ref entry) (cre_credential_ref ` set (loadCredentialRevocations file))"
  using upsert_refs by (simp add: addCredentialRevocation_def saveCredentialRevocations_def loadCredentialRevocations_def Let_def)

definition add_all :: "platform \<Rightarrow> credential_file \<Rightarrow> CredentialRevocationEntry list \<Rightarrow> credential_file" where
  "add_all P file entries = foldl (\<lambda>f e. fst (addCredentialRevocation P f e)) file entries"

lemma add_all_refs:
  "cre_credential_ref ` set (loadCredentialRevocations (add_all P file entries)) =
     cre_credential_ref ` set (loadCredentialRevocations file) \<union> cre_credential_ref ` set entries"
  by (induction entries rule: rev_induct) (auto simp: add_all_def add_refs)

section \<open>What a rule is meant to grant\<close>

text \<open>
  A URL lies at or below another: an http or https URL without credentials on either side, the same
  origin, a path that is the prefix path, read without a trailing slash, or continues it after a slash,
  and the same query if the prefix has one.
\<close>

definition at_or_below :: "url_parts \<Rightarrow> url_parts \<Rightarrow> bool" where
  "at_or_below pre target \<longleftrightarrow>
     (up_protocol pre = ''http:'' \<or> up_protocol pre = ''https:'') \<and>
     up_username pre @ up_password pre @ up_username target @ up_password target = [] \<and>
     up_origin target = up_origin pre \<and>
     (\<exists>base rest. (up_pathname pre = base \<or> up_pathname pre = base @ ''/'') \<and> up_pathname target = base @ rest \<and>
        (rest = [] \<or> (\<exists>below. rest = CHR ''/'' # below))) \<and>
     (up_search pre = [] \<or> up_search target = up_search pre)"

text \<open>A rule applies: its action type, if it has one, is that of the action, and the target lies at or below its prefix.\<close>

definition applies :: "(string \<Rightarrow> url_parts option) \<Rightarrow> CredentialRule \<Rightarrow> CanonicalActionInput \<Rightarrow> bool" where
  "applies url_parse rule action \<longleftrightarrow>
     (case cr_action_type rule of Some (c # cs) \<Rightarrow> act_action_type action = c # cs | _ \<Rightarrow> True) \<and>
     (case cr_target_prefix rule of
        Some (c # cs) \<Rightarrow> (\<exists>pre target. url_parse (c # cs) = Some pre \<and> url_parse (act_target action) = Some target \<and>
          at_or_below pre target)
      | _ \<Rightarrow> True)"

definition unrevoked :: "CredentialBroker \<Rightarrow> CredentialRule \<Rightarrow> bool" where
  "unrevoked broker rule \<longleftrightarrow>
     (case (cr_credential_ref rule, cb_credentialRevocations broker) of
        (Some (c # cs), Some revoked) \<Rightarrow> c # cs \<notin> cre_credential_ref ` set revoked
      | _ \<Rightarrow> True)"

text \<open>The value a rule sets: a secret of the rule or of the environment that is not empty, after the scheme if there is one.\<close>

definition secret_header :: "CredentialBroker \<Rightarrow> CredentialRule \<Rightarrow> string \<Rightarrow> bool" where
  "secret_header broker rule v \<longleftrightarrow>
     (\<exists>secret. secret \<noteq> [] \<and>
        (cr_value rule = Some secret \<or>
         cr_value rule = None \<and> (\<exists>var. cr_value_env rule = Some var \<and> var \<noteq> [] \<and> cb_env broker var = Some secret)) \<and>
        v = (case cr_scheme rule of Some (c # cs) \<Rightarrow> (c # cs) @ '' '' @ secret | _ \<Rightarrow> secret))"

lemma dropped_slash:
  "(t = drop_trailing_slash p \<or> starts_with t (drop_trailing_slash p @ ''/'')) \<longleftrightarrow>
     (\<exists>base rest. (p = base \<or> p = base @ ''/'') \<and> t = base @ rest \<and> (rest = [] \<or> (\<exists>below. rest = CHR ''/'' # below)))"
proof (cases "p \<noteq> [] \<and> last p = CHR ''/''")
  case True
  then obtain q where p: "p = q @ ''/''" by (metis append_butlast_last_id)
  have "(\<exists>base rest. (p = base \<or> p = base @ ''/'') \<and> t = base @ rest \<and> (rest = [] \<or> (\<exists>below. rest = CHR ''/'' # below))) \<longleftrightarrow>
      t = q \<or> (\<exists>below. t = q @ CHR ''/'' # below)"
    unfolding p by (auto simp: append_assoc[symmetric])
  then show ?thesis by (simp add: p drop_trailing_slash_def starts_with_def) (auto simp: prefix_def)
next
  case False
  then have "\<nexists>base. p = base @ ''/''" by auto
  with False show ?thesis by (simp add: drop_trailing_slash_def starts_with_def) (auto simp: prefix_def)
qed

lemma prefix_covers_iff: "prefix_covers pre target \<longleftrightarrow> at_or_below pre target"
  unfolding prefix_covers_def at_or_below_def Let_def dropped_slash by auto

lemma rule_matches_iff: "rule_matches url_parse rule action \<longleftrightarrow> applies url_parse rule action"
  by (auto simp: rule_matches_def applies_def prefix_covers_iff the_default_def split: option.splits list.splits)

lemma rule_revoked_iff: "rule_revoked broker rule \<longleftrightarrow> \<not> unrevoked broker rule"
proof (cases "cb_credentialRevocations broker")
  case (Some list)
  then show ?thesis
    using revoked_iff[of list] by (auto simp: rule_revoked_def unrevoked_def the_default_def split: option.splits list.splits)
qed (auto simp: rule_revoked_def unrevoked_def credentialRevocationReason_def split: option.splits list.splits)

lemma rule_secret_iff:
  "(\<exists>secret. rule_secret broker rule = Some secret \<and> secret \<noteq> [] \<and> v = header_value rule secret) \<longleftrightarrow> secret_header broker rule v"
proof -
  have "header_value rule secret = (case cr_scheme rule of Some (c # cs) \<Rightarrow> (c # cs) @ '' '' @ secret | _ \<Rightarrow> secret)" for secret
    by (auto simp: header_value_def the_default_def split: option.split list.split)
  moreover have "rule_secret broker rule = Some secret \<longleftrightarrow> cr_value rule = Some secret \<or>
      cr_value rule = None \<and> (\<exists>var. cr_value_env rule = Some var \<and> var \<noteq> [] \<and> cb_env broker var = Some secret)" for secret
    by (auto simp: rule_secret_def split: option.split)
  ultimately show ?thesis unfolding secret_header_def by auto
qed

lemma releases_iff:
  "releases url_parse broker action rule v \<longleftrightarrow> applies url_parse rule action \<and> unrevoked broker rule \<and> secret_header broker rule v"
  unfolding releases_def rule_matches_iff rule_revoked_iff rule_secret_iff by simp

section \<open>Properties\<close>

text \<open>
  C36 The broker releases secrets only where they belong.  When it returns, every header it hands out is
  set by a rule that applies to the action: the rule's action type, if any, is the action's, and its
  prefix, if any, is an http or https URL of the same origin whose path is that of the target or lies
  above it at a slash, with no credentials in either URL and the same query if the prefix has one.  The
  value is a secret that is not empty, after the rule's scheme; the credentials of all rules that apply
  are unrevoked; and the names handed out, and those \<open>describe\<close> reports, are exactly those of these rules.
\<close>

theorem broker_releases_matching:
  assumes "broker_resolve url_parse broker action = Inr headers"
  shows "(\<forall>h v. map_of headers h = Some v \<longrightarrow>
       (\<exists>rule \<in> set (cb_rules broker). cr_header rule = h \<and> applies url_parse rule action \<and> secret_header broker rule v)) \<and>
     (\<forall>rule \<in> set (cb_rules broker). applies url_parse rule action \<longrightarrow> unrevoked broker rule) \<and>
     fst ` set headers = cr_header ` {rule \<in> set (cb_rules broker). applies url_parse rule action} \<and>
     set (broker_describe url_parse broker action) = fst ` set headers"
  using resolve_rules_Inr[OF assms[unfolded broker_resolve_def]]
  unfolding rule_matches_iff rule_revoked_iff releases_iff broker_describe_def by auto blast

text \<open>
  Revocations last: after any entries are added to the file, in any order, the broker that loads it
  refuses every action a rule of one of those credentials matches.
\<close>

theorem revoked_credential_never_released:
  assumes "cb_credentialRevocations broker = Some (loadCredentialRevocations (add_all P file entries))"
    and "rule \<in> set (cb_rules broker)" "rule_matches url_parse rule action"
    and "cr_credential_ref rule = Some ref" "ref \<noteq> []"
    and "ref \<in> cre_credential_ref ` set (loadCredentialRevocations file) \<union> cre_credential_ref ` set entries"
  shows "\<exists>message. broker_resolve url_parse broker action = Inl message"
proof -
  have "rule_revoked broker rule"
    using assms revoked_iff[of "loadCredentialRevocations (add_all P file entries)" ref]
    by (simp add: rule_revoked_def the_default_def add_all_refs)
  with assms(2,3) have "broker_resolve url_parse broker action \<noteq> Inr headers" for headers
    using resolve_rules_Inr unfolding broker_resolve_def by blast
  then show ?thesis by (cases "broker_resolve url_parse broker action") auto
qed

section \<open>Witnesses\<close>

definition sample_rule :: CredentialRule where
  "sample_rule = \<lparr> cr_action_type = Some ''pay'', cr_target_prefix = None, cr_header = ''authorization'',
     cr_value = Some ''secret'', cr_value_env = None, cr_scheme = Some ''Bearer'', cr_credential_ref = Some ''c1'' \<rparr>"

definition sample_entry :: CredentialRevocationEntry where
  "sample_entry = \<lparr> cre_credential_ref = ''c1'', cre_revoked_at = ''100'', cre_reason = ''leaked'', cre_source = ''operator'',
     cre_warrant_id = None, cre_gel_record_id = None, cre_finding_id = None, cre_evidence_hash = None \<rparr>"

definition sample_broker :: "credential_file \<Rightarrow> CredentialBroker" where
  "sample_broker file = \<lparr> cb_rules = [sample_rule], cb_env = (\<lambda>_. None),
     cb_credentialRevocations = Some (loadCredentialRevocations file) \<rparr>"

lemma sample_rule_matches: "rule_matches url_parse sample_rule sample_action"
  by (simp add: rule_matches_def sample_rule_def sample_action_def)

lemma sample_resolves: "broker_resolve url_parse (sample_broker None) sample_action = Inr [(''authorization'', ''Bearer secret'')]"
  using sample_rule_matches
  by (simp add: broker_resolve_def sample_broker_def rule_revoked_def loadCredentialRevocations_def credentialRevocationReason_def
      rule_secret_def header_value_def) (simp add: sample_rule_def the_default_def)

text \<open>A rule for everything below a path of one origin, and a parser that knows two URLs.\<close>

definition sample_prefix_rule :: CredentialRule where
  "sample_prefix_rule = sample_rule \<lparr> cr_target_prefix := Some ''https://bank/v1/'' \<rparr>"

definition sample_url :: "string \<Rightarrow> url_parts" where
  "sample_url path = \<lparr> up_protocol = ''https:'', up_hostname = ''bank'', up_origin = ''https://bank'', up_pathname = path,
     up_search = [], up_username = [], up_password = [] \<rparr>"

definition sample_urls :: "string \<Rightarrow> url_parts option" where
  "sample_urls u = (if u = ''https://bank/v1/'' then Some (sample_url ''/v1/'')
     else if u = ''https://bank/v1/pay'' then Some (sample_url ''/v1/pay'') else None)"

definition sample_payment :: CanonicalActionInput where
  "sample_payment = sample_action \<lparr> act_target := ''https://bank/v1/pay'' \<rparr>"

lemma sample_payment_resolves:
  "broker_resolve sample_urls ((sample_broker None) \<lparr> cb_rules := [sample_prefix_rule] \<rparr>) sample_payment =
     Inr [(''authorization'', ''Bearer secret'')]"
  by (simp add: broker_resolve_def sample_broker_def sample_prefix_rule_def sample_rule_def sample_payment_def sample_action_def
      rule_matches_def the_default_def sample_urls_def prefix_covers_def sample_url_def drop_trailing_slash_def starts_with_def
      rule_revoked_def loadCredentialRevocations_def credentialRevocationReason_def rule_secret_def header_value_def)

theorem broker_releases_matching_witness:
  "secret_header ((sample_broker None) \<lparr> cb_rules := [sample_prefix_rule] \<rparr>) sample_prefix_rule ''Bearer secret'' \<and>
   at_or_below (sample_url ''/v1/'') (sample_url ''/v1/pay'')"
proof -
  have r: "cb_rules ((sample_broker None) \<lparr> cb_rules := [sample_prefix_rule] \<rparr>) = [sample_prefix_rule]" by simp
  have "applies sample_urls sample_prefix_rule sample_payment \<and>
      secret_header ((sample_broker None) \<lparr> cb_rules := [sample_prefix_rule] \<rparr>) sample_prefix_rule ''Bearer secret''"
    using broker_releases_matching[OF sample_payment_resolves] unfolding r by auto
  then show ?thesis
    by (simp add: applies_def sample_prefix_rule_def sample_urls_def sample_payment_def)
qed

theorem revoked_credential_never_released_witness:
  "\<exists>message. broker_resolve (\<lambda>_. None) (sample_broker (add_all sample None [sample_entry])) sample_action = Inl message"
  by (rule revoked_credential_never_released[where rule = sample_rule and ref = "''c1''" and P = sample and entries = "[sample_entry]"])
     (simp_all add: sample_broker_def sample_rule_matches, simp_all add: sample_rule_def sample_entry_def)

end
