(* ===== verification/Proxy.thy ===== *)
theory Proxy
  imports Sample_Calls Effect_Safety Effect_Evidence Egress_Guard Credential_Broker
begin

text \<open>
  The governed action proxy (\<open>execution-control-runtime/src/proxy.ts\<close>): \<open>methodFor\<close>,
  \<open>resolveDestination\<close>, \<open>bodyFor\<close> and \<open>proxyGovernedAction\<close> on a synchronous ledger, with or without a
  shared effect store.

  The handler is asynchronous only at the call of \<open>fetch\<close>: what precedes it is one atomic step
  (\<open>proxy_start\<close>), which either returns or leaves a request in flight, and what follows it is another
  (\<open>proxy_finish\<close>).  Calls on the same boundary and the same store interleave between these steps.  The
  world of the proxy is the boundary, the store and the trace of the requests handed to \<open>fetch\<close>, each with
  the attempt it was sent under.

  The branch for an asynchronous ledger is not modelled, nor is \<open>structuredClone\<close>, which has no effect on
  values.  Errors thrown by \<open>Headers\<close> carry the platform's text and are a constructor of their own.
\<close>

section \<open>Requests\<close>

definition ascii_upper :: "char \<Rightarrow> char" where
  "ascii_upper c = (if 97 \<le> code c \<and> code c \<le> 122 then char_of (code c - 32) else c)"

definition METHOD_BY_TYPE :: "(string, string) jsmap" where
  "METHOD_BY_TYPE =
     [(''http.get'', ''GET''), (''http.post'', ''POST''), (''http.put'', ''PUT''), (''http.patch'', ''PATCH''),
      (''http.delete'', ''DELETE''), (''http.request'', ''GET'')]"

definition methodFor :: "CanonicalActionInput \<Rightarrow> string" where
  "methodFor action =
     (case obj_get (act_params action) ''method'' of
        JStr explicit \<Rightarrow> map ascii_upper explicit
      | _ \<Rightarrow> the_default ''GET'' (map_of METHOD_BY_TYPE (act_action_type action)))"

text \<open>The destination, or \<open>None\<close> where \<open>params.url\<close> diverges from the target.\<close>

definition resolveDestination :: "CanonicalActionInput \<Rightarrow> string option" where
  "resolveDestination action =
     (case obj_get (act_params action) ''url'' of
        JStr declared \<Rightarrow> if declared \<noteq> act_target action then None else Some (act_target action)
      | _ \<Rightarrow> Some (act_target action))"

definition bodyFor :: "CanonicalActionInput \<Rightarrow> string option" where
  "bodyFor action =
     (case obj_get (act_params action) ''body'' of
        JUndef \<Rightarrow> None | JStr body \<Rightarrow> Some body | body \<Rightarrow> Some (json_string body))"

text \<open>
  \<open>Headers.set\<close>: the name is a token, compared in lower case; the value loses blanks at its ends, and
  has no line break or NUL and only characters up to \<open>U+00FF\<close>.
\<close>

definition token_char :: "char \<Rightarrow> bool" where
  "token_char c \<longleftrightarrow> is_digit c \<or> (97 \<le> code c \<and> code c \<le> 122) \<or> (65 \<le> code c \<and> code c \<le> 90) \<or>
     c \<in> set ''!#$%&*+-.^_|~'' \<or> code c = 39 \<or> code c = 96"

definition http_blank :: "char \<Rightarrow> bool" where
  "http_blank c \<longleftrightarrow> code c \<in> {9, 10, 13, 32}"

definition trim_header :: "string \<Rightarrow> string" where
  "trim_header s = rev (dropWhile http_blank (rev (dropWhile http_blank s)))"

definition header_char :: "char \<Rightarrow> bool" where
  "header_char c \<longleftrightarrow> code c \<notin> {0, 10, 13} \<and> (192 \<le> code c \<longrightarrow> code c \<in> {194, 195})"

datatype proxy_error =
    ProxyMessage string
  | HeaderRejected string
  | StoreFailure js_error

definition header_set :: "string \<Rightarrow> string \<Rightarrow> (string, string) jsmap \<Rightarrow> proxy_error + (string, string) jsmap" where
  "header_set name v headers =
     (if name = [] \<or> \<not> list_all token_char name \<or> \<not> list_all header_char (trim_header v) then Inl (HeaderRejected name)
      else Inr (map_set (map ascii_lower name) (trim_header v) headers))"

text \<open>
  \<open>Object.entries\<close> of the declared headers, an object by its type; the entries of an array and of a text
  are indexed by position, other values have none.
\<close>

definition declared_headers :: "CanonicalActionInput \<Rightarrow> (string \<times> json) list" where
  "declared_headers action =
     (case obj_get (act_params action) ''headers'' of
        JObj es \<Rightarrow> es
      | JArr vs \<Rightarrow> map (\<lambda>i. (nat_digits i, vs ! i)) [0..<length vs]
      | JStr s \<Rightarrow> map (\<lambda>i. (nat_digits i, JStr [s ! i])) [0..<length s]
      | _ \<Rightarrow> [])"

definition transport_headers :: "string list" where
  "transport_headers = [''host'', ''connection'', ''content-length'', ''transfer-encoding'']"

fun set_declared :: "(string \<times> json) list \<Rightarrow> (string, string) jsmap \<Rightarrow> proxy_error + (string, string) jsmap" where
  "set_declared [] headers = Inr headers"
| "set_declared ((key, v) # es) headers =
     (if map ascii_lower key \<in> set transport_headers then Inl (ProxyMessage ''proxy transport header override refused'')
      else case header_set key (js_string v) headers of
             Inl e \<Rightarrow> Inl e | Inr headers' \<Rightarrow> set_declared es headers')"

fun set_injected :: "(string \<times> string) list \<Rightarrow> (string, string) jsmap \<Rightarrow> proxy_error + (string, string) jsmap" where
  "set_injected [] headers = Inr headers"
| "set_injected ((key, v) # es) headers =
     (case header_set key v headers of Inl e \<Rightarrow> Inl e | Inr headers' \<Rightarrow> set_injected es headers')"

record http_request =
  hr_url :: string
  hr_method :: string
  hr_headers :: "(string, string) jsmap"
  hr_body :: "string option"

record http_response =
  hs_status :: nat
  hs_headers :: "(string, string) jsmap"
  hs_body :: string

definition method_differs :: "CanonicalActionInput \<Rightarrow> bool" where
  "method_differs action \<longleftrightarrow> act_action_type action \<noteq> ''http.request'' \<and>
     str_truthy (map_of METHOD_BY_TYPE (act_action_type action)) \<and>
     Some (methodFor action) \<noteq> map_of METHOD_BY_TYPE (act_action_type action)"

text \<open>The request that is sent, built inside the \<open>try\<close> before the store is opened.\<close>

definition build_request :: "CanonicalActionInput \<Rightarrow> string \<Rightarrow> (string, string) jsmap \<Rightarrow> proxy_error + http_request" where
  "build_request action url injected =
     (if method_differs action then Inl (ProxyMessage ''proxy method differs from authorized action type'')
      else case set_declared (declared_headers action) [] of
        Inl e \<Rightarrow> Inl e
      | Inr headers \<Rightarrow>
          (case set_injected injected headers of
             Inl e \<Rightarrow> Inl e
           | Inr headers' \<Rightarrow> Inr \<lparr> hr_url = url, hr_method = methodFor action, hr_headers = headers', hr_body = bodyFor action \<rparr>))"

section \<open>Input, result and world\<close>

text \<open>
  \<open>pg_effectStore\<close> is the configuration of the store the caller passes; without one the handler opens the
  store beside the ledger under the signer of the call.
\<close>

record ProxyGovernedActionInput =
  pg_evaluate :: EvaluateExecutionControlInput
  pg_broker :: "CredentialBroker option"
  pg_blockPrivateEgress :: bool
  pg_effectStore :: "effect_config option"

datatype DispatchStatus = NOT_ATTEMPTED | ATTEMPTED_UNKNOWN | RESPONSE_RECEIVED

text \<open>\<open>pr_evaluation\<close> holds the fields of \<open>base\<close>.\<close>

record ProxyGovernedActionResult =
  pr_evaluation :: EvaluateExecutionControlResult
  pr_forwarded :: bool
  pr_dispatch_status :: DispatchStatus
  pr_effect_state :: EffectState
  pr_effect_attempt :: "EffectAttempt option"
  pr_injected_headers :: "string list"
  pr_response :: "http_response option"
  pr_error :: "proxy_error option"

record 'b proxy_world =
  pw_boundary :: "'b boundary"
  pw_effects :: effect_db
  pw_sent :: "(EffectAttempt \<times> http_request) list"

record flight =
  ft_evaluation :: EvaluateExecutionControlResult
  ft_attempt :: EffectAttempt
  ft_injected :: "string list"
  ft_config :: effect_config

datatype proxy_outcome = Answered ProxyGovernedActionResult | Sent flight

section \<open>Up to the call of fetch\<close>

definition not_forwarded :: "EvaluateExecutionControlResult \<Rightarrow> EffectState \<Rightarrow> proxy_error option \<Rightarrow> ProxyGovernedActionResult" where
  "not_forwarded ev state error =
     \<lparr> pr_evaluation = ev, pr_forwarded = False, pr_dispatch_status = NOT_ATTEMPTED, pr_effect_state = state,
       pr_effect_attempt = None, pr_injected_headers = [], pr_response = None, pr_error = error \<rparr>"

definition proxy_action :: "ProxyGovernedActionInput \<Rightarrow> CanonicalActionInput" where
  "proxy_action input = ci_action (ec_gate (pg_evaluate input))"

definition proxy_now :: "ambience \<Rightarrow> ProxyGovernedActionInput \<Rightarrow> iso_time" where
  "proxy_now am input = (case ci_now (ec_gate (pg_evaluate input)) of Some t \<Rightarrow> t | None \<Rightarrow> am_wall am)"

text \<open>The checks before the \<open>try\<close>, and the request: an error is the text of the answer, \<open>None\<close> for none.\<close>

definition plan_request :: "platform \<Rightarrow> (string \<Rightarrow> url_parts option) \<Rightarrow> ambience \<Rightarrow> ProxyGovernedActionInput
    \<Rightarrow> EvaluateExecutionControlResult \<Rightarrow> proxy_error option + (Warrant \<times> (string, string) jsmap \<times> http_request)" where
  "plan_request P url_parse am input ev =
     (case (er_decision ev, er_warrant ev) of
        (ALLOW, Some warrant) \<Rightarrow>
          (case verifyWarrant P warrant (er_canonical_action_hash ev) (proxy_now am input) default_options of
             Some reason \<Rightarrow> Inl (Some (ProxyMessage (''warrant verification failed: '' @ warrant_reason_name reason)))
           | None \<Rightarrow>
          (case resolveDestination (proxy_action input) of
             None \<Rightarrow> Inl (Some (ProxyMessage ''proxy destination mismatch: params.url must equal the authorized target''))
           | Some url \<Rightarrow>
          (case classifyEgressUrl (\<lambda>raw. map_option (\<lambda>u. (up_protocol u, up_hostname u)) (url_parse raw)) url
                  (pg_blockPrivateEgress input) of
             EgressRefused reason \<Rightarrow> Inl (Some (ProxyMessage (''egress blocked: '' @ reason)))
           | EgressAllowed \<Rightarrow>
          (case (case pg_broker input of None \<Rightarrow> Inr [] | Some broker \<Rightarrow> broker_resolve url_parse broker (proxy_action input)) of
             Inl message \<Rightarrow> Inl (Some (ProxyMessage message))
           | Inr injected \<Rightarrow>
          (case build_request (proxy_action input) url injected of
             Inl e \<Rightarrow> Inl (Some e)
           | Inr request \<Rightarrow> Inr (warrant, injected, request))))))
      | _ \<Rightarrow> Inl None)"

text \<open>What \<open>begin\<close> reads of the ledger record of the admission.\<close>

definition named :: "('a \<Rightarrow> string) \<Rightarrow> 'a list \<Rightarrow> json \<Rightarrow> 'a option" where
  "named name vs j = find (\<lambda>v. j = JStr (name v)) vs"

definition reason_codes_all :: "ExecutionControlReasonCode list" where
  "reason_codes_all = [WARD_NOT_FOUND, SUBJECT_NOT_IN_WARD, ENVELOPE_EXPIRED, ACTION_DENIED, ACTION_NOT_ALLOWED,
     CONSTRAINT_FAILED, PHYSICAL_INVARIANT_FAILED, RUNTIME_STATE_MISSING, POLICY_VERSION_MISMATCH, KILL_SWITCH_ENGAGED,
     REPLAY_DETECTED, BUDGET_EXCEEDED, DUAL_CONTROL_REQUIRED, DUAL_CONTROL_STORE_MISSING, AUTHORITY_REVOKED,
     CLASSIFICATION_VIOLATION, DEGRADED_MODE, ALLOWED]"

definition admission_of :: "GelRecord \<Rightarrow> Admission" where
  "admission_of r =
     \<lparr> ad_canonical_action_hash = the_default [] (as_string (obj_get r ''canonical_action_hash'')),
       ad_warrant_id = as_string (obj_get r ''warrant_id''),
       ad_decision = the_default REFUSE (named decision_name [ALLOW, REFUSE, ESCALATE, EXPIRE] (obj_get r ''decision'')),
       ad_reason_codes = List.map_filter (named reason_name reason_codes_all) (id_array (obj_get r ''reason_codes'')),
       ad_policy_version = as_string (obj_get r ''policy_version''),
       ad_runtime_register_snapshot = record_fields (obj_get r ''runtime_register_snapshot''),
       ad_record_hash = the_default [] (as_string (obj_get r ''record_hash'')) \<rparr>"

definition default_store :: "AristotleSigner \<Rightarrow> effect_config" where
  "default_store signer = \<lparr> effect_config.ec_signer = signer,
     ec_trustedWarrantKeys = [sg_key_id signer \<mapsto> sg_public_key_pem signer] \<rparr>"

definition proxy_begin :: "platform \<Rightarrow> ambience \<Rightarrow> (nat \<Rightarrow> string) \<Rightarrow> ProxyGovernedActionInput \<Rightarrow> WardManifest
    \<Rightarrow> EvaluateExecutionControlResult \<Rightarrow> Warrant \<Rightarrow> effect_db \<Rightarrow> (effect_config \<times> EffectAttempt \<times> effect_db) result" where
  "proxy_begin P am uuid input ward ev warrant db =
     (let signer = call_signer am (pg_evaluate input);
          cfg = (case pg_effectStore input of Some cfg \<Rightarrow> cfg | None \<Rightarrow> default_store signer);
          opened = (case pg_effectStore input of Some _ \<Rightarrow> Inr db | None \<Rightarrow> open_store P db)
      in bind_result opened (\<lambda>db1.
         bind_result (begin_effect P cfg (am_wall am) uuid
           \<lparr> bi_ward = ward, bi_action = proxy_action input, bi_warrant = warrant,
             bi_admission = admission_of (er_gel_record ev), bi_now = ci_now (ec_gate (pg_evaluate input)),
             bi_verify = Some (default_options \<lparr> vo_trustedKeyIds := Some [sg_key_id signer],
               vo_revocations := map_option loadRevocationList (ec_revocations (pg_evaluate input)) \<rparr>) \<rparr> db1)
           (\<lambda>(attempt, db2). Inr (cfg, attempt, db2))))"

text \<open>\<open>message.includes("EFFECT_OPERATION_ALREADY_ATTEMPTED")\<close>; only one error carries the text.\<close>

definition begin_failure_state :: "js_error \<Rightarrow> EffectState" where
  "begin_failure_state e =
     (if e = EffectError ''EFFECT_OPERATION_ALREADY_ATTEMPTED'' then EFFECT_UNKNOWN else CONFIRMED_NO_EFFECT)"

definition proxy_start :: "platform \<Rightarrow> 'b LedgerBackend \<Rightarrow> (string \<Rightarrow> url_parts option) \<Rightarrow> ambience \<Rightarrow> (nat \<Rightarrow> string)
    \<Rightarrow> ProxyGovernedActionInput \<Rightarrow> 'b proxy_world \<Rightarrow> proxy_outcome result \<times> 'b proxy_world" where
  "proxy_start P B url_parse am uuid input w =
     (case evaluateExecutionControl P B am (pg_evaluate input) (pw_boundary w) of
        (Inl e, bd) \<Rightarrow> (Inl e, w \<lparr> pw_boundary := bd \<rparr>)
      | (Inr ev, bd) \<Rightarrow>
          (let w1 = w \<lparr> pw_boundary := bd \<rparr> in
          (case plan_request P url_parse am input ev of
             Inl error \<Rightarrow> (Inr (Answered (not_forwarded ev CONFIRMED_NO_EFFECT error)), w1)
           | Inr (warrant, injected, request) \<Rightarrow>
          (case ci_ward (ec_gate (pg_evaluate input)) of
             None \<Rightarrow> (Inl WardRequired, w1)
           | Some ward \<Rightarrow>
          (case proxy_begin P am uuid input ward ev warrant (pw_effects w) of
             Inl e \<Rightarrow> (Inr (Answered (not_forwarded ev (begin_failure_state e) (Some (StoreFailure e)))), w1)
           | Inr (cfg, attempt, db) \<Rightarrow>
               (Inr (Sent \<lparr> ft_evaluation = ev \<lparr> er_warrant := Some (warrant \<lparr> wr_consumed := True \<rparr>) \<rparr>,
                            ft_attempt = attempt, ft_injected = map fst injected, ft_config = cfg \<rparr>),
                w1 \<lparr> pw_effects := db, pw_sent := pw_sent w @ [(attempt, request)] \<rparr>))))))"

section \<open>After the call of fetch\<close>

text \<open>\<open>fetched\<close> is the response, or the message of the error \<open>fetch\<close> failed with; \<open>now\<close> is the time of the call.\<close>

definition proxy_finish :: "platform \<Rightarrow> string \<Rightarrow> iso_time \<Rightarrow> flight \<Rightarrow> string + http_response \<Rightarrow> 'b proxy_world
    \<Rightarrow> ProxyGovernedActionResult \<times> 'b proxy_world" where
  "proxy_finish P event_id now f fetched w =
     (let response = (case fetched of Inr r \<Rightarrow> Some r | Inl _ \<Rightarrow> None);
          error = (case fetched of Inr _ \<Rightarrow> None | Inl message \<Rightarrow> Some (ProxyMessage message));
          answer = (\<lambda>attempt error.
            \<lparr> pr_evaluation = ft_evaluation f, pr_forwarded = (response \<noteq> None),
              pr_dispatch_status = (if response \<noteq> None then RESPONSE_RECEIVED else ATTEMPTED_UNKNOWN),
              pr_effect_state = EFFECT_UNKNOWN, pr_effect_attempt = Some attempt,
              pr_injected_headers = ft_injected f, pr_response = response, pr_error = error \<rparr>)
      in case markUnknown P (ft_config f) event_id (eb_attempt_id (ft_attempt f)) now (pw_effects w) of
           Inl _ \<Rightarrow> (answer (ft_attempt f)
             (Some (ProxyMessage ''effect finalization unavailable; durable attempt remains in flight'')), w)
         | Inr (attempt, db) \<Rightarrow> (answer attempt error, w \<lparr> pw_effects := db \<rparr>))"

text \<open>The whole handler, when nothing interleaves.\<close>

definition proxyGovernedAction :: "platform \<Rightarrow> 'b LedgerBackend \<Rightarrow> (string \<Rightarrow> url_parts option)
    \<Rightarrow> (http_request \<Rightarrow> string + http_response) \<Rightarrow> ambience \<Rightarrow> (nat \<Rightarrow> string) \<Rightarrow> ProxyGovernedActionInput \<Rightarrow> 'b proxy_world
    \<Rightarrow> ProxyGovernedActionResult result \<times> 'b proxy_world" where
  "proxyGovernedAction P B url_parse fetch am uuid input w =
     (case proxy_start P B url_parse am uuid input w of
        (Inl e, w') \<Rightarrow> (Inl e, w')
      | (Inr (Answered r), w') \<Rightarrow> (Inr r, w')
      | (Inr (Sent f), w') \<Rightarrow>
          (case proxy_finish P (uuid 3) (proxy_now am input) f (fetch (snd (last (pw_sent w')))) w' of
             (r, w'') \<Rightarrow> (Inr r, w'')))"

section \<open>What a started request went through\<close>

lemma plan_request_Inr:
  "plan_request P url_parse am input ev = Inr (warrant, injected, request) \<longleftrightarrow>
     er_decision ev = ALLOW \<and> er_warrant ev = Some warrant \<and>
     verifyWarrant P warrant (er_canonical_action_hash ev) (proxy_now am input) default_options = None \<and>
     resolveDestination (proxy_action input) = Some (act_target (proxy_action input)) \<and>
     classifyEgressUrl (\<lambda>raw. map_option (\<lambda>u. (up_protocol u, up_hostname u)) (url_parse raw))
       (act_target (proxy_action input)) (pg_blockPrivateEgress input) = EgressAllowed \<and>
     (case pg_broker input of None \<Rightarrow> Inr [] | Some broker \<Rightarrow> broker_resolve url_parse broker (proxy_action input)) = Inr injected \<and>
     build_request (proxy_action input) (act_target (proxy_action input)) injected = Inr request"
  (is "?l \<longleftrightarrow> ?r")
proof
  assume ?l
  moreover have "resolveDestination (proxy_action input) = Some url \<Longrightarrow> url = act_target (proxy_action input)" for url
    by (auto simp: resolveDestination_def split: json.splits if_splits)
  ultimately show ?r
    by (auto simp: plan_request_def split: ExecutionControlDecision.splits option.splits EgressVerdict.splits sum.splits)
qed (simp add: plan_request_def)

lemma build_request_fields:
  assumes "build_request action url injected = Inr request"
  shows "hr_url request = url" "hr_method request = methodFor action" "\<not> method_differs action"
    "\<exists>headers. set_declared (declared_headers action) [] = Inr headers \<and> set_injected injected headers = Inr (hr_headers request)"
  using assms by (auto simp: build_request_def split: if_splits sum.splits)

lemma set_declared_keys:
  "set_declared es headers = Inr out \<Longrightarrow> fst ` set headers \<inter> set transport_headers = {} \<Longrightarrow>
   fst ` set out \<inter> set transport_headers = {}"
proof (induction es arbitrary: headers)
  case (Cons e es)
  obtain k v where e: "e = (k, v)" by (cases e)
  with Cons.prems(1) obtain headers' where h: "header_set k (js_string v) headers = Inr headers'" "set_declared es headers' = Inr out"
      "map ascii_lower k \<notin> set transport_headers"
    by (auto split: if_splits sum.splits)
  then have "headers' = map_set (map ascii_lower k) (trim_header (js_string v)) headers"
    by (auto simp: header_set_def split: if_splits)
  then have "fst ` set headers' = insert (map ascii_lower k) (fst ` set headers)"
    by (simp add: keys_map_set)
  then have "fst ` set headers' \<inter> set transport_headers = {}"
    using Cons.prems(2) h(3) by simp
  with Cons.IH h(2) show ?case by blast
qed simp

lemma find_append: "find Q (xs @ ys) = (case find Q xs of Some x \<Rightarrow> Some x | None \<Rightarrow> find Q ys)"
  by (induction xs) auto

lemma find_in: "find Q xs = Some x \<Longrightarrow> x \<in> set xs \<and> Q x"
  by (auto simp: find_Some_iff)

text \<open>The last injected header of a name wins, whatever the action declared.\<close>

lemma set_injected_get:
  "set_injected es headers = Inr out \<Longrightarrow>
   map_of out n = (case find (\<lambda>e. map ascii_lower (fst e) = n) (rev es) of
      Some e \<Rightarrow> Some (trim_header (snd e)) | None \<Rightarrow> map_of headers n)"
proof (induction es arbitrary: headers)
  case (Cons e es)
  obtain k v where e: "e = (k, v)" by (cases e)
  with Cons.prems obtain headers' where h: "header_set k v headers = Inr headers'" "set_injected es headers' = Inr out"
    by (auto split: sum.splits)
  have "map_of headers' n = (if map ascii_lower k = n then Some (trim_header v) else map_of headers n)"
    using h(1) by (auto simp: header_set_def map_of_map_set split: if_splits)
  then show ?case
    using Cons.IH[OF h(2)] e by (auto simp: find_append split: option.splits)
qed simp

lemma proxy_begin_Inr:
  assumes "proxy_begin P am uuid input ward ev warrant db = Inr (cfg, attempt, db')"
  obtains db1 where "db1 = db \<or> open_store P db = Inr db1" 
    "begin_effect P cfg (am_wall am) uuid
       \<lparr> bi_ward = ward, bi_action = proxy_action input, bi_warrant = warrant,
         bi_admission = admission_of (er_gel_record ev), bi_now = ci_now (ec_gate (pg_evaluate input)),
         bi_verify = Some (default_options \<lparr> vo_trustedKeyIds := Some [sg_key_id (call_signer am (pg_evaluate input))],
           vo_revocations := map_option loadRevocationList (ec_revocations (pg_evaluate input)) \<rparr>) \<rparr> db1 = Inr (attempt, db')"
  using assms by (auto simp: proxy_begin_def Let_def split: option.splits)

lemma open_store_same: "open_store P db = Inr db' \<Longrightarrow> db' = db"
  by (auto simp: open_store_def)

lemma proxy_begin_effect:
  assumes "proxy_begin P am uuid input ward ev warrant db = Inr (cfg, attempt, db')"
  shows "begin_effect P cfg (am_wall am) uuid
       \<lparr> bi_ward = ward, bi_action = proxy_action input, bi_warrant = warrant,
         bi_admission = admission_of (er_gel_record ev), bi_now = ci_now (ec_gate (pg_evaluate input)),
         bi_verify = Some (default_options \<lparr> vo_trustedKeyIds := Some [sg_key_id (call_signer am (pg_evaluate input))],
           vo_revocations := map_option loadRevocationList (ec_revocations (pg_evaluate input)) \<rparr>) \<rparr> db = Inr (attempt, db')"
  using proxy_begin_Inr[OF assms] open_store_same by metis

text \<open>What \<open>begin\<close> records of its input.\<close>

lemma begin_effect_binding:
  assumes "begin_effect P cfg wall uuid bi db = Inr (a, db')"
  shows "eb_warrant_id a = wr_warrant_id (bi_warrant bi)" "eb_target a = act_target (bi_action bi)"
    "eb_subject a = act_subject (bi_action bi)" "eb_ward_id a = act_ward_id (bi_action bi)" "ea_state a = IN_FLIGHT"
    "ea_admission_record_hash a = ad_record_hash (bi_admission bi)"
    "\<exists>canonical. canonicalizeAction P (bi_action bi) = Inr canonical \<and> eb_canonical_action_hash a = ca_canonical_action_hash canonical"
  using assms by (auto simp: begin_effect_def Let_def begin_attempt_def check_begin_def split: if_splits option.splits)

lemma proxy_start_cases:
  assumes "proxy_start P B url_parse am uuid input w = (r, w')"
  obtains (quiet) "pw_sent w' = pw_sent w" "pw_effects w' = pw_effects w" "\<nexists>f. r = Inr (Sent f)"
  | (dispatched) ev warrant injected request ward cfg attempt db f where
    "evaluateExecutionControl P B am (pg_evaluate input) (pw_boundary w) = (Inr ev, pw_boundary w')"
    "plan_request P url_parse am input ev = Inr (warrant, injected, request)"
    "ci_ward (ec_gate (pg_evaluate input)) = Some ward"
    "proxy_begin P am uuid input ward ev warrant (pw_effects w) = Inr (cfg, attempt, db)"
    "r = Inr (Sent f)" "ft_attempt f = attempt" "ft_config f = cfg"
    "pw_effects w' = db" "pw_sent w' = pw_sent w @ [(attempt, request)]"
proof -
  obtain res bd where e: "evaluateExecutionControl P B am (pg_evaluate input) (pw_boundary w) = (res, bd)"
    by (cases "evaluateExecutionControl P B am (pg_evaluate input) (pw_boundary w)")
  show thesis
  proof (cases res)
    case (Inl x)
    with assms e quiet show thesis by (auto simp: proxy_start_def)
  next
    case (Inr ev)
    show thesis
    proof (cases "plan_request P url_parse am input ev")
      case (Inl x)
      with assms e Inr quiet show thesis by (auto simp: proxy_start_def Let_def)
    next
      case plan: (Inr t)
      obtain warrant injected request where t: "t = (warrant, injected, request)" by (cases t)
      show thesis
      proof (cases "ci_ward (ec_gate (pg_evaluate input))")
        case None
        with assms e Inr plan t quiet show thesis by (auto simp: proxy_start_def Let_def)
      next
        case (Some ward)
        show thesis
        proof (cases "proxy_begin P am uuid input ward ev warrant (pw_effects w)")
          case (Inl x)
          with assms e Inr plan t Some quiet show thesis by (auto simp: proxy_start_def Let_def)
        next
          case b: (Inr y)
          obtain cfg attempt db where y: "y = (cfg, attempt, db)" by (cases y)
          show thesis
            by (rule dispatched[of ev warrant injected request ward cfg attempt db
                "\<lparr> ft_evaluation = ev \<lparr> er_warrant := Some (warrant \<lparr> wr_consumed := True \<rparr>) \<rparr>,
                   ft_attempt = attempt, ft_injected = map fst injected, ft_config = cfg \<rparr>"])
               (use assms e Inr plan t Some b y in \<open>auto simp: proxy_start_def Let_def\<close>)
        qed
      qed
    qed
  qed
qed

section \<open>Interleavings\<close>

text \<open>
  Any interleaving of calls up to their \<open>fetch\<close>, of completions, and of operations other parties perform on
  the same store, each under its own configuration.
\<close>

inductive proxy_reach :: "platform \<Rightarrow> 'b LedgerBackend \<Rightarrow> (string \<Rightarrow> url_parts option) \<Rightarrow> 'b proxy_world \<Rightarrow> bool"
  for P B url_parse where
  proxy_init: "proxy_reach P B url_parse \<lparr> pw_boundary = bd, pw_effects = empty_db, pw_sent = [] \<rparr>"
| proxy_call: "proxy_reach P B url_parse w \<Longrightarrow> proxy_start P B url_parse am uuid input w = (r, w') \<Longrightarrow> proxy_reach P B url_parse w'"
| proxy_return: "proxy_reach P B url_parse w \<Longrightarrow> proxy_finish P event_id now f fetched w = (r, w') \<Longrightarrow> proxy_reach P B url_parse w'"
| proxy_store: "proxy_reach P B url_parse w \<Longrightarrow> effect_step P cfg (pw_effects w) db \<Longrightarrow>
    proxy_reach P B url_parse (w \<lparr> pw_effects := db \<rparr>)"

text \<open>The row of a dispatched attempt, and that it is settled without effect.\<close>

definition row_of :: "effect_db \<Rightarrow> EffectAttempt \<Rightarrow> effect_row \<Rightarrow> bool" where
  "row_of db a row \<longleftrightarrow> row \<in> set (db_attempts db) \<and> binding_fields (row_attempt row) = binding_fields a"

definition no_effect :: "effect_db \<Rightarrow> EffectAttempt \<Rightarrow> bool" where
  "no_effect db a \<longleftrightarrow> (\<exists>row. row_of db a row \<and> row_state row = CONFIRMED_NO_EFFECT)"

definition dispatched_ok :: "effect_db \<Rightarrow> (EffectAttempt \<times> http_request) list \<Rightarrow> bool" where
  "dispatched_ok db sent \<longleftrightarrow>
     distinct (map (eb_attempt_id \<circ> fst) sent) \<and> distinct (map (eb_warrant_id \<circ> fst) sent) \<and>
     (\<forall>x \<in> set sent. \<exists>row. row_of db (fst x) row) \<and>
     sorted_wrt (\<lambda>x y. attempt_key (fst x) = attempt_key (fst y) \<longrightarrow> no_effect db (fst x)) sent"

lemma binding_ids:
  assumes "binding_fields a = binding_fields b"
  shows "eb_attempt_id a = eb_attempt_id b" "eb_warrant_id a = eb_warrant_id b" "attempt_key a = attempt_key b"
  using assms by (simp_all add: binding_fields_def attempt_key_def)

lemma step_row_of:
  assumes "effect_step P cfg db db'" "rows_ok P db" "row_of db a row"
  shows "\<exists>row'. row_of db' a row' \<and> (row_state row = CONFIRMED_NO_EFFECT \<longrightarrow> row_state row' = CONFIRMED_NO_EFFECT)"
proof -
  have "row \<in> set (db_attempts db)" using assms(3) by (simp add: row_of_def)
  from step_evolves[OF assms(1,2) this] obtain row' where "row' \<in> set (db_attempts db')" "evolves row row'" by blast
  with assms(3) show ?thesis
    using evolves_columns[of row row'] evolves_terminal[of row row']
    by (auto simp: row_of_def same_columns_def terminal_def)
qed

lemma step_dispatched:
  assumes "effect_step P cfg db db'" "rows_ok P db" "dispatched_ok db sent"
  shows "dispatched_ok db' sent"
proof -
  have "\<exists>row. row_of db' a row" if "row_of db a row" for a row
    using step_row_of[OF assms(1,2) that] by blast
  moreover have "no_effect db' a" if "no_effect db a" for a
    using that step_row_of[OF assms(1,2)] unfolding no_effect_def by blast
  ultimately show ?thesis
    using assms(3) unfolding dispatched_ok_def by (blast intro: sorted_wrt_mono_rel[rotated])
qed

lemma begin_dispatched:
  assumes "begin_effect P cfg wall uuid bi db = Inr (a, db')" "rows_ok P db" "dispatched_ok db sent"
  shows "dispatched_ok db' (sent @ [(a, request)])"
proof -
  obtain row where row: "fresh_row row db" "scope_free (er_scope row) db" "row_attempt row = a"
    "er_attempt_id row = uuid 0" "eb_attempt_id a = uuid 0" "er_warrant_id row = eb_warrant_id a"
    "operation_scope P (eb_ward_id a) (eb_subject a) (eb_operation_id a) = Inr (er_scope row)"
    "db_attempts db' = db_attempts db @ [row]"
    using begin_Inr[OF assms(1)] by metis
  have old: "dispatched_ok db' sent"
    using step_dispatched[OF step_begin[OF assms(1)] assms(2,3)] .
  have ids: "eb_attempt_id (fst x) \<noteq> eb_attempt_id a \<and> eb_warrant_id (fst x) \<noteq> eb_warrant_id a \<and>
      (attempt_key (fst x) = attempt_key a \<longrightarrow> no_effect db' (fst x))" if x: "x \<in> set sent" for x
  proof -
    obtain q where q: "row_of db (fst x) q" using assms(3) x by (auto simp: dispatched_ok_def)
    then have qs: "q \<in> set (db_attempts db)" "row_ok P q"
      using assms(2) by (auto simp: row_of_def rows_ok_def list_all_iff)
    note b = binding_ids[of "row_attempt q" "fst x"]
    have "no_effect db' (fst x)" if k: "attempt_key (fst x) = attempt_key a"
    proof -
      have "operation_scope P (eb_ward_id a) (eb_subject a) (eb_operation_id a) = Inr (er_scope q)"
        using qs(2) b(3) q k by (auto simp: row_ok_def row_of_def attempt_key_def)
      then have "er_scope q = er_scope row" using row(7) by simp
      with scope_free_settled[OF assms(2) row(2) qs(1)] q row(8) show ?thesis
        by (auto simp: no_effect_def row_of_def)
    qed
    moreover have "er_attempt_id q \<noteq> er_attempt_id row" "er_warrant_id q \<noteq> er_warrant_id row"
      using row(1) qs(1) by (auto simp: fresh_row_def)
    ultimately show ?thesis
      using qs(2) q b(1,2) row(4-6) by (auto simp: row_ok_def row_of_def)
  qed
  have "row_of db' a row" using row(3,8) by (simp add: row_of_def)
  moreover have "eb_attempt_id a \<notin> (eb_attempt_id \<circ> fst) ` set sent" "eb_warrant_id a \<notin> (eb_warrant_id \<circ> fst) ` set sent"
    using ids by fastforce+
  ultimately show ?thesis
    using old ids by (auto simp: dispatched_ok_def sorted_wrt_append)
qed

lemma proxy_reach_inv:
  "proxy_reach P B url_parse w \<Longrightarrow> rows_ok P (pw_effects w) \<and> dispatched_ok (pw_effects w) (pw_sent w)"
proof (induction rule: proxy_reach.induct)
  case (proxy_init bd)
  then show ?case
    by (simp add: rows_ok_def empty_db_def ownership_def single_owner_def dispatched_ok_def)
next
  case (proxy_call w am uuid input r w')
  from proxy_call.hyps(2) show ?case
  proof (cases rule: proxy_start_cases)
    case quiet
    with proxy_call.IH show ?thesis by simp
  next
    case (dispatched ev warrant injected request ward cfg attempt db f)
    note b = proxy_begin_effect[OF dispatched(4)]
    with proxy_call.IH begin_dispatched[OF b, of "pw_sent w" request] step_ownership[OF step_begin[OF b]] show ?thesis
      by (simp add: dispatched(8,9))
  qed
next
  case (proxy_return w event_id now f fetched r w')
  show ?case
  proof (cases "markUnknown P (ft_config f) event_id (eb_attempt_id (ft_attempt f)) now (pw_effects w)")
    case (Inl x)
    with proxy_return show ?thesis by (auto simp: proxy_finish_def Let_def)
  next
    case (Inr y)
    obtain a db where y: "y = (a, db)" by (cases y)
    with proxy_return.hyps(2) Inr have w': "w' = w \<lparr> pw_effects := db \<rparr>" by (auto simp: proxy_finish_def Let_def)
    note st = step_unknown[OF Inr[unfolded y]]
    with proxy_return.IH step_dispatched[OF st] step_ownership[OF st] w' show ?thesis by simp
  qed
next
  case (proxy_store w cfg db)
  then show ?case using step_dispatched[OF proxy_store.hyps(2)] step_ownership[OF proxy_store.hyps(2)] by simp
qed

section \<open>Properties\<close>

text \<open>
  C34 Every dispatch is authorised: a call reaches \<open>fetch\<close> only with an ALLOW decision of the boundary on
  this action and a warrant that verifies for its hash; the request goes to the authorised target and
  nowhere else, which the egress guard passes; before it is sent the store holds its attempt, in
  flight, bound to the warrant and to the hash of the action; the value of every header the broker
  injects is the broker's, whatever the action declared; and the action cannot set a transport header.
\<close>

theorem proxy_dispatch_authorised:
  assumes "proxy_start P B url_parse am uuid input w = (Inr (Sent f), w')"
  shows "\<exists>ev warrant injected request canonical.
     evaluateExecutionControl P B am (pg_evaluate input) (pw_boundary w) = (Inr ev, pw_boundary w') \<and>
     er_decision ev = ALLOW \<and> er_warrant ev = Some warrant \<and>
     verifyWarrant P warrant (er_canonical_action_hash ev) (proxy_now am input) default_options = None \<and>
     pw_sent w' = pw_sent w @ [(ft_attempt f, request)] \<and> hr_url request = act_target (proxy_action input) \<and>
     classifyEgressUrl (\<lambda>raw. map_option (\<lambda>u. (up_protocol u, up_hostname u)) (url_parse raw)) (hr_url request)
       (pg_blockPrivateEgress input) = EgressAllowed \<and>
     get_attempt (eb_attempt_id (ft_attempt f)) (pw_effects w') = Inr (ft_attempt f) \<and> ea_state (ft_attempt f) = IN_FLIGHT \<and>
     eb_warrant_id (ft_attempt f) = wr_warrant_id warrant \<and> eb_target (ft_attempt f) = hr_url request \<and>
     canonicalizeAction P (proxy_action input) = Inr canonical \<and>
     eb_canonical_action_hash (ft_attempt f) = ca_canonical_action_hash canonical \<and>
     (case pg_broker input of None \<Rightarrow> Inr [] | Some broker \<Rightarrow> broker_resolve url_parse broker (proxy_action input)) = Inr injected \<and>
     (\<forall>n \<in> map ascii_lower ` fst ` set injected. \<exists>e \<in> set injected.
        map ascii_lower (fst e) = n \<and> map_of (hr_headers request) n = Some (trim_header (snd e))) \<and>
     fst ` set (hr_headers request) \<inter> set transport_headers \<subseteq> map ascii_lower ` fst ` set injected"
  using assms
proof (cases rule: proxy_start_cases)
  case (dispatched ev warrant injected request ward cfg attempt db g)
  then have f: "ft_attempt f = attempt" by simp
  note plan = dispatched(2)[unfolded plan_request_Inr]
  note b = proxy_begin_effect[OF dispatched(4)]
  note binding = begin_effect_binding[OF b]
  obtain row where row: "fresh_row row (pw_effects w)" "row_attempt row = attempt" "er_attempt_id row = eb_attempt_id attempt"
    "db_attempts db = db_attempts (pw_effects w) @ [row]"
    using begin_Inr[OF b] by metis
  have "find (\<lambda>r. er_attempt_id r = eb_attempt_id attempt) (db_attempts db) = Some row"
    using row by (auto simp: find_append find_None_iff fresh_row_def split: option.splits dest: find_in)
  then have get: "get_attempt (eb_attempt_id attempt) (pw_effects w') = Inr attempt"
    using row(2) dispatched(8) by (simp add: get_attempt_def load_def)
  obtain headers where h: "set_declared (declared_headers (proxy_action input)) [] = Inr headers"
      "set_injected injected headers = Inr (hr_headers request)" and url: "hr_url request = act_target (proxy_action input)"
    using plan build_request_fields by blast
  have inj: "\<exists>e \<in> set injected. map ascii_lower (fst e) = n \<and> map_of (hr_headers request) n = Some (trim_header (snd e))"
    if "n \<in> map ascii_lower ` fst ` set injected" for n
  proof -
    have "find (\<lambda>e. map ascii_lower (fst e) = n) (rev injected) \<noteq> None"
      using that by (auto simp: find_None_iff)
    then obtain e where e: "find (\<lambda>e. map ascii_lower (fst e) = n) (rev injected) = Some e" by blast
    then show ?thesis
      using set_injected_get[OF h(2), of n] find_in[OF e] by auto
  qed
  have "n \<in> map ascii_lower ` fst ` set injected" if n: "n \<in> fst ` set (hr_headers request)" "n \<in> set transport_headers" for n
  proof (rule ccontr)
    assume "n \<notin> map ascii_lower ` fst ` set injected"
    then have "find (\<lambda>e. map ascii_lower (fst e) = n) (rev injected) = None"
      by (force simp: find_None_iff image_iff)
    then have "map_of (hr_headers request) n = map_of headers n" using set_injected_get[OF h(2), of n] by simp
    moreover have "map_of headers n = None"
      using set_declared_keys[OF h(1)] n(2) by (auto simp: map_of_eq_None_iff)
    ultimately show False using n(1) by (simp add: map_of_eq_None_iff)
  qed
  then have own: "fst ` set (hr_headers request) \<inter> set transport_headers \<subseteq> map ascii_lower ` fst ` set injected"
    by blast
  from inj have injected: "\<forall>n \<in> map ascii_lower ` fst ` set injected. \<exists>e \<in> set injected.
      map ascii_lower (fst e) = n \<and> map_of (hr_headers request) n = Some (trim_header (snd e))" ..
  obtain canonical where "canonicalizeAction P (proxy_action input) = Inr canonical"
    "eb_canonical_action_hash attempt = ca_canonical_action_hash canonical"
    using binding(7) by auto
  with own injected get plan binding(1,2,5) url dispatched(1,9) show ?thesis
    unfolding f by (intro exI[of _ ev] exI[of _ warrant] exI[of _ injected] exI[of _ request] exI[of _ canonical])
      (simp only: url simp_thms BeginInput.simps)
qed simp

text \<open>
  C35 No doubled effect: under any interleaving of calls, completions and operations of other parties on the
  store, no two requests were sent under one warrant or one attempt, and of two requests sent for one
  operation of a subject in a Ward the attempt of the earlier one is by now confirmed to have had no
  effect.
\<close>

theorem proxy_no_doubled_effect:
  assumes "proxy_reach P B url_parse w"
  shows "distinct (map (eb_warrant_id \<circ> fst) (pw_sent w)) \<and> distinct (map (eb_attempt_id \<circ> fst) (pw_sent w)) \<and>
     sorted_wrt (\<lambda>x y. attempt_key (fst x) = attempt_key (fst y) \<longrightarrow> no_effect (pw_effects w) (fst x)) (pw_sent w)"
  using proxy_reach_inv[OF assms] by (simp add: dispatched_ok_def)

section \<open>Witnesses\<close>

text \<open>The admitted sample call, of an action whose target the URL parser reads as a public host.\<close>

definition sample_url :: "string \<Rightarrow> url_parts option" where
  "sample_url raw = Some \<lparr> up_protocol = ''https:'', up_hostname = raw, up_origin = raw, up_pathname = ''/'',
     up_search = [], up_username = [], up_password = [] \<rparr>"

definition sample_proxy :: ProxyGovernedActionInput where
  "sample_proxy = \<lparr> pg_evaluate = sample_input, pg_broker = None, pg_blockPrivateEgress = True,
     pg_effectStore = Some sample_config \<rparr>"

definition sample_world :: "memory_ledger proxy_world" where
  "sample_world = \<lparr> pw_boundary = sample_memory, pw_effects = empty_db, pw_sent = [] \<rparr>"

lemma sample_proxy_simps:
  "pg_evaluate sample_proxy = sample_input" "ec_gate sample_input = sample_gate" "pg_broker sample_proxy = None"
  "pg_blockPrivateEgress sample_proxy" "pg_effectStore sample_proxy = Some sample_config" "am_wall sample_ambience = ''200''"
  "ci_now sample_gate = Some ''200''" "ci_ward sample_gate = Some sample_ward" "sg_key_id sample_signer = ''k1''"
  "default_options \<lparr> vo_trustedKeyIds := ks, vo_revocations := None \<rparr> = default_options \<lparr> vo_trustedKeyIds := ks \<rparr>"
  "proxy_action sample_proxy = sample_action"
  "proxy_now sample_ambience sample_proxy = ''200''" "call_signer sample_ambience sample_input = sample_signer"
  "EvaluateExecutionControlInput.ec_signer sample_input = None" "ec_revocations sample_input = None"
  by (simp_all add: sample_proxy_def sample_input_def proxy_action_def proxy_now_def sample_gate_def call_signer_def
      sample_ambience_def default_options_def sample_signer_def)

lemma sample_plain_request:
  "resolveDestination sample_action = Some ''t1''"
  "build_request sample_action ''t1'' [] = Inr \<lparr> hr_url = ''t1'', hr_method = ''GET'', hr_headers = [], hr_body = None \<rparr>"
  by (simp_all add: resolveDestination_def build_request_def method_differs_def methodFor_def declared_headers_def bodyFor_def
      METHOD_BY_TYPE_def the_default_def sample_action_def js_simps)

lemma sample_egress:
  "classifyEgressUrl (\<lambda>raw. map_option (\<lambda>u. (up_protocol u, up_hostname u)) (sample_url raw)) ''t1'' True = EgressAllowed"
proof -
  have "blockedCategory ''t1'' True = None" by code_simp
  then show ?thesis by (simp add: classifyEgressUrl_def sample_url_def)
qed

lemma sample_issued_verifies:
  assumes "issueWarrant sample decision action envelope ''200'' sample_signer (Some (1 / 10)) ''n1'' = Inr (Some w)"
    and "opts = default_options \<or> opts = default_options \<lparr> vo_trustedKeyIds := Some [''k1''] \<rparr>"
  shows "verifyWarrant sample w (cg_canonical_action_hash decision) ''200'' opts = None"
proof -
  note w = issueWarrant_Some[OF assms(1)]
  have "decimal_iso 300 = Some (wr_expires_at w)"
    using w(15) by (simp add: to_iso_def sample_dates effective_ttl_def js_trunc_def split: option.splits)
  then have "decimal_parse (wr_expires_at w) = Some 300" by simp
  then show ?thesis
    using w assms(2) issued_signature_valid[OF assms(1)] sample_signers_sound
    by (auto simp: verifyWarrant_ok sample_dates default_options_def clock_skew_def lifetime_exceeded_def nonce_seen_def
        key_untrusted_def warrant_revoked_def sample_signer_def)
qed

lemma sample_dispatch:
  "\<exists>f w'. proxy_start sample InMemoryLedgerBackend sample_url sample_ambience sample_uuid sample_proxy sample_world
     = (Inr (Sent f), w')"
proof -
  obtain ev st' where ev: "evaluateExecutionControl sample InMemoryLedgerBackend sample_ambience sample_input sample_memory = (Inr ev, st')"
      "er_decision ev = ALLOW"
    using sample_memory_call by blast
  then obtain d where d: "decide_phase sample InMemoryLedgerBackend sample_ambience sample_input sample_memory = Inr d"
    "ledger_append sample InMemoryLedgerBackend (am_wall sample_ambience) (gel_input sample_ambience sample_input sample_ward d)
       (bd_ledger sample_memory) = Inr (er_gel_record ev, bd_ledger st')"
    "er_decision ev = cg_decision (dd_decision d)" "er_canonical_action_hash ev = cg_canonical_action_hash (dd_decision d)"
    "er_warrant ev = dd_warrant d"
    by (auto elim!: evaluate_Inr simp: sample_input_def sample_gate_def)
  obtain w where w: "dd_warrant d = Some w"
    using decide_phase_warrant[OF d(1)] d(3) ev(2) by auto
  obtain envelope where i: "issueWarrant sample (dd_decision d) sample_action envelope ''200'' sample_signer (Some (1 / 10)) ''n1'' = Inr (Some w)"
    using decide_phase_issued[OF d(1) w] by (auto simp: sample_input_def sample_gate_def sample_ambience_def call_signer_def)
  obtain canonical where c: "canonicalizeAction sample sample_action = Inr canonical"
      "cg_canonical_action_hash (dd_decision d) = ca_canonical_action_hash canonical"
    using decide_phase_hash[OF d(1)] d(1) by (auto elim!: decide_phase_Inr simp: sample_input_def sample_gate_def)
  obtain r where r: "buildGelRecord sample ''200'' (lb_tipHash InMemoryLedgerBackend (bd_ledger sample_memory))
      (gel_input sample_ambience sample_input sample_ward d) = Inr (er_gel_record ev)"
    using d(2) by (auto simp: ledger_append_def sample_ambience_def)
  have snap: "obj_get (er_gel_record ev) ''runtime_register_snapshot'' = JObj []"
  proof -
    have "cg_runtime_register_snapshot (dd_decision d) = []"
      using sample_decided[OF _ _ _ c(1), of InMemoryLedgerBackend sample_memory] d(1)
      by (auto simp: InMemoryLedgerBackend_def sample_memory_def empty_index_def)
    with r show ?thesis
      by (auto elim!: buildGelRecord_Inr simp: gel_base_def gel_input_def js_simps)
  qed
  have plan: "plan_request sample sample_url sample_ambience sample_proxy ev =
      Inr (w, [], \<lparr> hr_url = ''t1'', hr_method = ''GET'', hr_headers = [], hr_body = None \<rparr>)"
    using ev(2) d w sample_issued_verifies[OF i, of default_options] sample_plain_request sample_egress
    by (simp add: plan_request_Inr sample_proxy_simps sample_action_def)
  define bi where "bi = \<lparr> bi_ward = sample_ward, bi_action = sample_action, bi_warrant = w,
      bi_admission = admission_of (er_gel_record ev), bi_now = Some ''200'',
      bi_verify = Some (default_options \<lparr> vo_trustedKeyIds := Some [''k1''] \<rparr>) \<rparr>"
  have "named decision_name [ALLOW, REFUSE, ESCALATE, EXPIRE] (JStr ''ALLOW'') = Some ALLOW"
    by (simp add: named_def)
  then have adm: "ad_canonical_action_hash (bi_admission bi) = ca_canonical_action_hash canonical"
    "ad_warrant_id (bi_admission bi) = Some (wr_warrant_id w)" "ad_decision (bi_admission bi) = ALLOW"
    using built_field(2,3)[OF r] built_warrant_id[OF r] w c(2) d(3) ev(2)
    by (simp_all add: bi_def admission_of_def gel_input_def the_default_def)
  have bi: "bi_action bi = sample_action" "bi_warrant bi = w"
    "bi_verify bi = Some (default_options \<lparr> vo_trustedKeyIds := Some [''k1''] \<rparr>)"
    by (simp_all add: bi_def)
  have v: "verifyWarrant sample w (ca_canonical_action_hash canonical) ''200''
      (default_options \<lparr> vo_trustedKeyIds := Some [''k1''] \<rparr>) = None"
    using sample_issued_verifies[OF i] c(2) by simp
  have key: "ec_trustedWarrantKeys sample_config (wr_signing_key_id w) = Some ''pem1''" "wr_signing_public_key w = ''pem1''"
    "wr_nonce w = Some ''n1''"
    using issueWarrant_Some[OF i] by (simp_all add: sample_config_def sample_signer_def)
  have "check_begin sample sample_config ''200'' bi = Inr (ca_canonical_action_hash canonical)"
    by (simp add: check_begin_def Let_def sample_dates bi c(1) adm v key)
  moreover obtain fp where "state_fingerprint sample sample_action (bi_admission bi) = Inr fp"
  proof -
    have "finite_json (JObj [(''telemetry'', opt_json JObj (act_telemetry sample_action)),
        (''registers'', JObj (ad_runtime_register_snapshot (bi_admission bi)))])"
      using snap by (simp add: bi_def admission_of_def sample_action_def)
    from stringify_total[OF this, of sample] show thesis using that by (auto simp: state_fingerprint_def)
  qed
  ultimately obtain db where "begin_effect sample sample_config ''200'' sample_uuid bi empty_db = 
      Inr (begin_attempt ''200'' (ca_canonical_action_hash canonical) ''a1'' (sample_uuid 0) fp bi \<lparr> ea_state := IN_FLIGHT \<rparr>, db)"
    using begin_first[OF sample_signing_config, of bi "''200''" "ca_canonical_action_hash canonical" "''a1''" fp "''200''" sample_uuid]
      sample_operation by (auto simp: bi_def)
  then have "proxy_begin sample sample_ambience sample_uuid sample_proxy sample_ward ev w empty_db =
      Inr (sample_config, begin_attempt ''200'' (ca_canonical_action_hash canonical) ''a1'' (sample_uuid 0) fp bi \<lparr> ea_state := IN_FLIGHT \<rparr>, db)"
    by (simp add: proxy_begin_def Let_def sample_proxy_simps bi_def)
  then show ?thesis
    using ev plan by (simp add: proxy_start_def sample_world_def sample_proxy_simps)
qed

theorem proxy_dispatch_authorised_witness:
  "\<exists>f w'. proxy_start sample InMemoryLedgerBackend sample_url sample_ambience sample_uuid sample_proxy sample_world = (Inr (Sent f), w') \<and>
     get_attempt (eb_attempt_id (ft_attempt f)) (pw_effects w') = Inr (ft_attempt f) \<and> length (pw_sent w') = 1"
proof -
  obtain f w' where s: "proxy_start sample InMemoryLedgerBackend sample_url sample_ambience sample_uuid sample_proxy sample_world
     = (Inr (Sent f), w')" using sample_dispatch by blast
  from proxy_dispatch_authorised[OF s] s show ?thesis by (auto simp: sample_world_def)
qed

theorem proxy_no_doubled_effect_witness:
  "\<exists>w'. proxy_reach sample InMemoryLedgerBackend sample_url w' \<and> distinct (map (eb_warrant_id \<circ> fst) (pw_sent w')) \<and> pw_sent w' \<noteq> []"
proof -
  obtain f w' where s: "proxy_start sample InMemoryLedgerBackend sample_url sample_ambience sample_uuid sample_proxy sample_world
     = (Inr (Sent f), w')" using sample_dispatch by blast
  have "proxy_reach sample InMemoryLedgerBackend sample_url sample_world"
    unfolding sample_world_def by (rule proxy_init)
  from proxy_call[OF this s] have reach: "proxy_reach sample InMemoryLedgerBackend sample_url w'" .
  have "pw_sent w' \<noteq> []"
    using s by (cases rule: proxy_start_cases) auto
  with reach show ?thesis using proxy_no_doubled_effect[OF reach] by (intro exI[of _ w']) simp
qed

end
