(* ===== verification/Ward_Marshal.thy ===== *)
theory Ward_Marshal
  imports Action Js_String
begin

text \<open>
  The Ward Marshal census (\<open>execution-control-runtime/src/ward-marshal.ts\<close>): \<open>runWardMarshalCensus\<close>
  with the grouping of observations, the risk signals, the status and the disposition of a finding, and
  \<open>buildWardMarshalInterdictionAction\<close>.  The theorems: the findings partition the observations and
  the summary counts them; the report does not depend on the order of the observations; and what the
  status and the disposition of a finding say about the registry and the risk.

  Times are ASCII, so that the default order of \<open>sort\<close> is the order of the bytes.  A list field that
  is \<open>undefined\<close> is the empty list, which every use replaces it by.
\<close>

section \<open>Data\<close>

datatype AgentObservationSource =
    kubernetes | developer_workstation | ci | mcp | saas_automation | api_gateway | edge_node | network

datatype AgentFindingStatus = governed | shadow | rogue | orphaned | contained

datatype AgentRiskBand = low | medium | high | critical

datatype WardMarshalDisposition =
    bind_to_ward | shadow_profile | request_authority_review | quarantine | revoke_credentials | terminate_execution

datatype WardMarshalInterdictionKind =
    kind_quarantine | kind_revoke_credentials | kind_disable_tool_access | kind_scale_to_zero | kind_terminate_execution

record AgentObservation =
  ao_observation_id :: string
  ao_source :: AgentObservationSource
  ao_observed_at :: iso_time
  ao_location :: string
  ao_process_name :: "string option"
  ao_container_image :: "string option"
  ao_service_account :: "string option"
  ao_executable_path :: "string option"
  ao_command_line :: "string option"
  ao_declared_agent_id :: "string option"
  ao_owner :: "string option"
  ao_ward_id :: "string option"
  ao_outbound_hosts :: "string list"
  ao_llm_endpoints :: "string list"
  ao_tool_targets :: "string list"
  ao_credential_refs :: "string list"
  ao_labels :: "(string, string) jsmap"
  ao_telemetry :: "jsobject option"

datatype registered_status = agent_approved | agent_shadow | agent_revoked | agent_retired

record RegisteredAgent =
  ra_agent_id :: string
  ra_subject :: string
  ra_ward_id :: string
  ra_owner :: string
  ra_approved_tools :: "string list"
  ra_credential_refs :: "string list"
  ra_status :: registered_status

record AgentRegistry =
  ar_registry_version :: string
  ar_agents :: "RegisteredAgent list"

record AgentRiskSignal =
  rs_code :: string
  rs_weight :: nat
  rs_detail :: string

record WardMarshalFinding =
  mf_finding_id :: string
  mf_agent_id :: string
  mf_subject :: string
  mf_ward_id :: "string option"
  mf_status :: AgentFindingStatus
  mf_risk_score :: nat
  mf_risk_band :: AgentRiskBand
  mf_owner :: "string option"
  mf_observed_locations :: "string list"
  mf_observed_tools :: "string list"
  mf_credential_refs :: "string list"
  mf_last_seen :: iso_time
  mf_signals :: "AgentRiskSignal list"
  mf_recommended_disposition :: WardMarshalDisposition
  mf_evidence_hash :: hash
  mf_observation_ids :: "string list"

record census_summary =
  cs_observed :: nat
  cs_governed :: nat
  cs_shadow :: nat
  cs_rogue :: nat
  cs_orphaned :: nat
  cs_contained :: nat
  cs_high_or_critical :: nat

record WardMarshalReport =
  mr_generated_at :: iso_time
  mr_registry_version :: "string option"
  mr_summary :: census_summary
  mr_findings :: "WardMarshalFinding list"
  mr_report_hash :: hash

primrec status_name :: "AgentFindingStatus \<Rightarrow> string" where
  "status_name governed = ''governed''"
| "status_name shadow = ''shadow''"
| "status_name rogue = ''rogue''"
| "status_name orphaned = ''orphaned''"
| "status_name contained = ''contained''"

primrec band_name :: "AgentRiskBand \<Rightarrow> string" where
  "band_name low = ''low''"
| "band_name medium = ''medium''"
| "band_name high = ''high''"
| "band_name critical = ''critical''"

primrec disposition_name :: "WardMarshalDisposition \<Rightarrow> string" where
  "disposition_name bind_to_ward = ''bind_to_ward''"
| "disposition_name shadow_profile = ''shadow_profile''"
| "disposition_name request_authority_review = ''request_authority_review''"
| "disposition_name quarantine = ''quarantine''"
| "disposition_name revoke_credentials = ''revoke_credentials''"
| "disposition_name terminate_execution = ''terminate_execution''"

primrec interdiction_name :: "WardMarshalInterdictionKind \<Rightarrow> string" where
  "interdiction_name kind_quarantine = ''quarantine''"
| "interdiction_name kind_revoke_credentials = ''revoke_credentials''"
| "interdiction_name kind_disable_tool_access = ''disable_tool_access''"
| "interdiction_name kind_scale_to_zero = ''scale_to_zero''"
| "interdiction_name kind_terminate_execution = ''terminate_execution''"

section \<open>Signals\<close>

text \<open>\<open>[...new Set(items)].sort((l, r) => l.localeCompare(r))\<close>.\<close>

definition unique :: "platform \<Rightarrow> string list \<Rightarrow> string list" where
  "unique P items = sort_by (locale_le P) (rev (remdups (rev items)))"

text \<open>\<open>/(a|b|...)/i.test(s)\<close> for words of ASCII letters and dashes.\<close>

fun contains :: "string \<Rightarrow> string \<Rightarrow> bool" where
  "contains [] w = (w = [])"
| "contains (c # s) w = (starts_with (c # s) w \<or> contains s w)"

definition mentions :: "string list \<Rightarrow> string \<Rightarrow> bool" where
  "mentions ws s \<longleftrightarrow> list_ex (contains (map ascii_lower s)) ws"

definition consequential_words :: "string list" where
  "consequential_words = [''write'', ''delete'', ''deploy'', ''refund'', ''transfer'', ''firewall'', ''scale'', ''terminate'',
     ''exec'', ''shell'', ''kubectl'']"

definition sensitive_words :: "string list" where
  "sensitive_words = [''prod'', ''production'', ''customer'', ''payment'', ''identity'', ''secrets'', ''cluster-admin'']"

definition privileged_words :: "string list" where
  "privileged_words = [''admin'', ''cluster'', ''root'', ''owner'', ''prod'']"

definition runtime_words :: "string list" where
  "runtime_words = [''langgraph'', ''autogen'', ''crewai'', ''openai'', ''anthropic'', ''claude'', ''cursor'', ''mcp'', ''agent'']"

definition observed_command :: "AgentObservation \<Rightarrow> string" where
  "observed_command o' = js_lower
     (the_default [] (ao_process_name o') @ '' '' @ the_default [] (ao_command_line o') @ '' '' @ the_default [] (ao_container_image o'))"

definition risk_signal :: "bool \<Rightarrow> string \<Rightarrow> nat \<Rightarrow> string \<Rightarrow> AgentRiskSignal list" where
  "risk_signal c sig weight detail = (if c then [\<lparr> rs_code = sig, rs_weight = weight, rs_detail = detail \<rparr>] else [])"

definition registered_with :: "registered_status \<Rightarrow> RegisteredAgent option \<Rightarrow> bool" where
  "registered_with s registered \<longleftrightarrow> map_option ra_status registered = Some s"

definition riskSignals :: "platform \<Rightarrow> AgentObservation list \<Rightarrow> RegisteredAgent option \<Rightarrow> AgentRiskSignal list" where
  "riskSignals P observations registered =
     (let tools = unique P (concat (map ao_tool_targets observations));
          credentials = unique P (concat (map ao_credential_refs observations));
          llmEndpoints = unique P (concat (map ao_llm_endpoints observations));
          serviceAccounts = unique P (filter (\<lambda>a. a \<noteq> []) (List.map_filter ao_service_account observations));
          commands = map observed_command observations
      in sort_by (\<lambda>l r. locale_le P (rs_code l) (rs_code r))
        (risk_signal (registered = None) ''UNREGISTERED_AGENT'' 30 ''no matching approved agent registry entry'' @
         risk_signal (credentials \<noteq> []) ''CREDENTIAL_ACCESS'' (min 25 (10 + length credentials * 5))
           (nat_digits (length credentials) @ '' credential reference(s) observed'') @
         risk_signal (llmEndpoints \<noteq> []) ''LLM_EGRESS'' 10 (nat_digits (length llmEndpoints) @ '' LLM endpoint(s) observed'') @
         risk_signal (list_ex (mentions consequential_words) tools) ''CONSEQUENTIAL_TOOL_ACCESS'' 20
           ''tool surface can mutate infrastructure, money, records, or execution state'' @
         risk_signal (list_ex (mentions sensitive_words) tools) ''SENSITIVE_TARGET'' 15
           ''tool target touches production or sensitive enterprise surface'' @
         risk_signal (list_ex (mentions privileged_words) serviceAccounts) ''PRIVILEGED_IDENTITY'' 20
           ''privileged service account observed'' @
         risk_signal (list_ex (mentions runtime_words) commands) ''AGENT_RUNTIME_SIGNATURE'' 10
           ''process or container resembles an autonomous agent runtime'' @
         risk_signal (list_ex (\<lambda>o'. \<not> str_truthy (ao_owner o')) observations \<and> \<not> str_truthy (map_option ra_owner registered))
           ''UNKNOWN_OWNER'' 10 ''no accountable owner declared'' @
         risk_signal (registered_with agent_revoked registered) ''REVOKED_REGISTRY_ENTRY'' 40 ''registry entry is revoked'' @
         risk_signal (registered_with agent_retired registered) ''RETIRED_REGISTRY_ENTRY'' 25
           ''registry entry is retired but still observed''))"

section \<open>Status and disposition\<close>

definition riskBand :: "nat \<Rightarrow> AgentRiskBand" where
  "riskBand score =
     (if score \<ge> 75 then critical else if score \<ge> 50 then high else if score \<ge> 25 then medium else low)"

definition findingStatus :: "RegisteredAgent option \<Rightarrow> AgentObservation list \<Rightarrow> AgentRiskBand \<Rightarrow> AgentFindingStatus" where
  "findingStatus registered observations risk =
     (if registered_with agent_revoked registered \<or> registered_with agent_retired registered then orphaned
      else if registered_with agent_shadow registered then shadow
      else if registered_with agent_approved registered then governed
      else if list_ex (\<lambda>o'. map_of (ao_labels o') ''aristotle.contained'' = Some ''true'') observations then contained
      else if risk = low then shadow else rogue)"

definition dispositionFor :: "AgentFindingStatus \<Rightarrow> AgentRiskBand \<Rightarrow> nat \<Rightarrow> WardMarshalDisposition" where
  "dispositionFor status risk credentialCount =
     (if status = governed then shadow_profile
      else if status = contained then shadow_profile
      else if status = orphaned then (if credentialCount > 0 then revoke_credentials else terminate_execution)
      else if risk = critical then terminate_execution
      else if risk = high then (if credentialCount > 0 then revoke_credentials else quarantine)
      else if risk = medium then request_authority_review
      else bind_to_ward)"

text \<open>\<open>id.replace(/^agent:/, "")\<close>.\<close>

definition without_agent :: "string \<Rightarrow> string" where
  "without_agent s = (if starts_with s ''agent:'' then drop 6 s else s)"

definition inferSubject :: "AgentObservation \<Rightarrow> string option" where
  "inferSubject o' =
     (if str_truthy (ao_declared_agent_id o')
      then Some (''agent:'' @ without_agent (the_default [] (ao_declared_agent_id o')))
      else let explicit = coalesce (map_of (ao_labels o') ''aristotle.subject'') (map_of (ao_labels o') ''subject'')
        in if str_truthy explicit then explicit
           else case ao_service_account o' of
             Some account \<Rightarrow> if starts_with account ''agent:'' then Some account else None
           | None \<Rightarrow> None)"

section \<open>Findings\<close>

definition evidence_material :: "string \<Rightarrow> string list \<Rightarrow> string list \<Rightarrow> string list \<Rightarrow> AgentRiskBand \<Rightarrow> nat
    \<Rightarrow> AgentFindingStatus \<Rightarrow> string \<Rightarrow> string option \<Rightarrow> json" where
  "evidence_material agent_id credentials observation_ids tools band score status subject ward_id = JObj
     [(''agent_id'', JStr agent_id), (''credential_refs'', JArr (map JStr credentials)),
      (''observation_ids'', JArr (map JStr observation_ids)), (''observed_tools'', JArr (map JStr tools)),
      (''risk_band'', JStr (band_name band)), (''risk_score'', JNum (of_nat score)),
      (''status'', JStr (status_name status)), (''subject'', JStr subject), (''ward_id'', opt_json JStr ward_id)]"

text \<open>
  \<open>stableStringify\<close> of an object whose only numbers are finite never throws; \<open>text_of\<close> is its value.
\<close>

definition text_of :: "platform \<Rightarrow> json \<Rightarrow> string" where
  "text_of P v = (case stableStringify P v of Inr s \<Rightarrow> s | Inl _ \<Rightarrow> [])"

definition by_observation_id :: "platform \<Rightarrow> AgentObservation list \<Rightarrow> AgentObservation list" where
  "by_observation_id P observations =
     sort_by (\<lambda>l r. locale_le P (ao_observation_id l) (ao_observation_id r)) observations"

text \<open>\<open>new Map(agents.map(a => [f(a), a])).get(k)\<close>: the last entry of a key wins.\<close>

definition registry_lookup :: "(RegisteredAgent \<Rightarrow> string) \<Rightarrow> RegisteredAgent list \<Rightarrow> string \<Rightarrow> RegisteredAgent option" where
  "registry_lookup f agents k = map_of (foldl (\<lambda>m a. map_set (f a) a m) [] agents) k"

definition sorted_finding :: "platform \<Rightarrow> iso_time \<Rightarrow> RegisteredAgent list \<Rightarrow> string \<Rightarrow> AgentObservation list \<Rightarrow> WardMarshalFinding" where
  "sorted_finding P epoch agents key obs =
     (let first = hd obs;
          subject = (case inferSubject first of Some s \<Rightarrow> s | None \<Rightarrow> ''agent:unclaimed:'' @ take 10 (sha256_hex P key));
          registered = coalesce
            (if str_truthy (ao_declared_agent_id first)
             then registry_lookup ra_agent_id agents (the_default [] (ao_declared_agent_id first)) else None)
            (registry_lookup ra_subject agents subject);
          tools = unique P (concat (map ao_tool_targets obs));
          credentials = unique P (concat (map ao_credential_refs obs));
          locations = unique P (map ao_location obs);
          times = sort_by byte_le (map ao_observed_at obs);
          last_seen = (if times = [] then epoch else last times);
          signals = riskSignals P obs registered;
          score = min 100 (sum_list (map rs_weight signals));
          band = riskBand score;
          status = findingStatus registered obs band;
          ward_id = coalesce (map_option ra_ward_id registered)
            (Option.bind (find (\<lambda>o'. str_truthy (ao_ward_id o')) obs) ao_ward_id);
          agent_id = (case registered of Some r \<Rightarrow> ra_agent_id r
            | None \<Rightarrow> case ao_declared_agent_id first of Some i \<Rightarrow> i
            | None \<Rightarrow> ''discovered-'' @ take 12 (sha256_hex P (text_of P (JObj [(''subject'', JStr subject),
                (''locations'', JArr (map JStr locations))]))));
          observation_ids = map ao_observation_id obs;
          evidence_hash = sha256_hex P (text_of P (evidence_material agent_id credentials observation_ids tools band score status subject ward_id))
      in \<lparr> mf_finding_id = ''wmf-'' @ take 16 evidence_hash, mf_agent_id = agent_id, mf_subject = subject, mf_ward_id = ward_id,
           mf_status = status, mf_risk_score = score, mf_risk_band = band,
           mf_owner = coalesce (map_option ra_owner registered) (Option.bind (find (\<lambda>o'. str_truthy (ao_owner o')) obs) ao_owner),
           mf_observed_locations = locations, mf_observed_tools = tools, mf_credential_refs = credentials,
           mf_last_seen = last_seen, mf_signals = signals,
           mf_recommended_disposition = dispositionFor status band (length credentials),
           mf_evidence_hash = evidence_hash, mf_observation_ids = observation_ids \<rparr>)"

definition buildFinding :: "platform \<Rightarrow> iso_time \<Rightarrow> RegisteredAgent list \<Rightarrow> string \<Rightarrow> AgentObservation list \<Rightarrow> WardMarshalFinding" where
  "buildFinding P epoch agents key observations = sorted_finding P epoch agents key (by_observation_id P observations)"

section \<open>The census\<close>

definition group_key :: "AgentObservation \<Rightarrow> string" where
  "group_key o' =
     (case coalesce (ao_declared_agent_id o') (inferSubject o') of
        Some k \<Rightarrow> k
      | None \<Rightarrow> ''unknown:'' @ ao_location o' @ '':'' @
          (case coalesce (ao_process_name o') (ao_container_image o') of Some n \<Rightarrow> n | None \<Rightarrow> ao_observation_id o'))"

fun grouped :: "AgentObservation list \<Rightarrow> (string, AgentObservation list) jsmap \<Rightarrow> (string, AgentObservation list) jsmap" where
  "grouped [] m = m"
| "grouped (o' # os) m =
     grouped os (map_set (group_key o') ((case map_of m (group_key o') of Some g \<Rightarrow> g | None \<Rightarrow> []) @ [o']) m)"

definition signal_json :: "AgentRiskSignal \<Rightarrow> json" where
  "signal_json s = JObj [(''code'', JStr (rs_code s)), (''weight'', JNum (of_nat (rs_weight s))), (''detail'', JStr (rs_detail s))]"

definition finding_json :: "WardMarshalFinding \<Rightarrow> json" where
  "finding_json f = JObj
     [(''finding_id'', JStr (mf_finding_id f)), (''agent_id'', JStr (mf_agent_id f)), (''subject'', JStr (mf_subject f)),
      (''ward_id'', opt_json JStr (mf_ward_id f)), (''status'', JStr (status_name (mf_status f))),
      (''risk_score'', JNum (of_nat (mf_risk_score f))), (''risk_band'', JStr (band_name (mf_risk_band f))),
      (''owner'', opt_json JStr (mf_owner f)), (''observed_locations'', JArr (map JStr (mf_observed_locations f))),
      (''observed_tools'', JArr (map JStr (mf_observed_tools f))),
      (''credential_refs'', JArr (map JStr (mf_credential_refs f))), (''last_seen'', JStr (mf_last_seen f)),
      (''signals'', JArr (map signal_json (mf_signals f))),
      (''recommended_disposition'', JStr (disposition_name (mf_recommended_disposition f))),
      (''evidence_hash'', JStr (mf_evidence_hash f)), (''observation_ids'', JArr (map JStr (mf_observation_ids f)))]"

definition count_status :: "AgentFindingStatus \<Rightarrow> WardMarshalFinding list \<Rightarrow> nat" where
  "count_status s findings = length (filter (\<lambda>f. mf_status f = s) findings)"

definition summary_of :: "WardMarshalFinding list \<Rightarrow> census_summary" where
  "summary_of findings =
     \<lparr> cs_observed = length findings, cs_governed = count_status governed findings, cs_shadow = count_status shadow findings,
       cs_rogue = count_status rogue findings, cs_orphaned = count_status orphaned findings,
       cs_contained = count_status contained findings,
       cs_high_or_critical = length (filter (\<lambda>f. mf_risk_band f = high \<or> mf_risk_band f = critical) findings) \<rparr>"

definition summary_json :: "census_summary \<Rightarrow> json" where
  "summary_json s = JObj
     [(''observed'', JNum (of_nat (cs_observed s))), (''governed'', JNum (of_nat (cs_governed s))),
      (''shadow'', JNum (of_nat (cs_shadow s))), (''rogue'', JNum (of_nat (cs_rogue s))),
      (''orphaned'', JNum (of_nat (cs_orphaned s))), (''contained'', JNum (of_nat (cs_contained s))),
      (''high_or_critical'', JNum (of_nat (cs_high_or_critical s)))]"

text \<open>
  \<open>runWardMarshalCensus\<close>; \<open>wall\<close> and \<open>epoch\<close> are the texts of \<open>new Date()\<close> and \<open>new Date(0)\<close>.
\<close>

definition runWardMarshalCensus :: "platform \<Rightarrow> iso_time \<Rightarrow> iso_time \<Rightarrow> AgentObservation list \<Rightarrow> AgentRegistry option
    \<Rightarrow> iso_time option \<Rightarrow> WardMarshalReport" where
  "runWardMarshalCensus P wall epoch observations registry generatedAt =
     (let generated_at = (case generatedAt of Some t \<Rightarrow> t | None \<Rightarrow> wall);
          agents = (case registry of Some r \<Rightarrow> ar_agents r | None \<Rightarrow> []);
          findings = sort_by (\<lambda>l r. locale_le P (mf_finding_id l) (mf_finding_id r))
            (map (\<lambda>(key, os). buildFinding P epoch agents key os) (grouped observations []));
          summary = summary_of findings;
          version = map_option ar_registry_version registry;
          material = text_of P (JObj [(''doctrine'', JStr ''authority-before-consequence''),
            (''findings'', JArr (map finding_json findings)), (''generated_at'', JStr generated_at),
            (''registry_version'', opt_json JStr version), (''summary'', summary_json summary)])
      in \<lparr> mr_generated_at = generated_at, mr_registry_version = version, mr_summary = summary,
           mr_findings = findings, mr_report_hash = sha256_hex P material \<rparr>)"

section \<open>Interdiction\<close>

definition buildWardMarshalInterdictionAction :: "WardMarshalFinding \<Rightarrow> WardMarshalInterdictionKind \<Rightarrow> string \<Rightarrow> iso_time
    \<Rightarrow> string \<Rightarrow> string option \<Rightarrow> string option \<Rightarrow> CanonicalActionInput" where
  "buildWardMarshalInterdictionAction f kind requestedBy requestedAt reason target requestId =
     \<lparr> act_action_id = ''wm-'' @ interdiction_name kind @ ''-'' @ mf_finding_id f,
       act_ward_id = the_default ''unassigned-ward'' (mf_ward_id f), act_subject = requestedBy,
       act_action_type = ''ward_marshal.'' @ interdiction_name kind,
       act_target = the_default (mf_subject f) target,
       act_params = [(''target_agent_id'', JStr (mf_agent_id f)), (''target_subject'', JStr (mf_subject f)),
         (''containment_kind'', JStr (interdiction_name kind)), (''risk_score'', JNum (of_nat (mf_risk_score f))),
         (''risk_band'', JStr (band_name (mf_risk_band f))), (''observed_locations'', JArr (map JStr (mf_observed_locations f))),
         (''observed_tools'', JArr (map JStr (mf_observed_tools f))), (''credential_refs'', JArr (map JStr (mf_credential_refs f))),
         (''evidence_hash'', JStr (mf_evidence_hash f)), (''reason'', JStr reason)],
       act_requested_at = requestedAt, act_nonce = None,
       act_request_id = Some (the_default (''req-'' @ interdiction_name kind @ ''-'' @ mf_finding_id f) requestId),
       act_telemetry = Some [(''source'', JStr ''ward-marshal''), (''finding_id'', JStr (mf_finding_id f)),
         (''recommended_disposition'', JStr (disposition_name (mf_recommended_disposition f)))],
       act_classification = None \<rparr>"

definition explainWardMarshalFinding :: "WardMarshalFinding \<Rightarrow> string" where
  "explainWardMarshalFinding f =
     (let signalText = (if mf_signals f = [] then ''no elevated signals''
        else join '', '' (map (\<lambda>s. rs_code s @ ''('' @ nat_digits (rs_weight s) @ '')'') (mf_signals f)))
      in mf_subject f @ '' is '' @ status_name (mf_status f) @ '' in '' @ the_default ''no assigned Ward'' (mf_ward_id f) @
         '' with '' @ band_name (mf_risk_band f) @ '' risk ('' @ nat_digits (mf_risk_score f) @
         ''). Recommended disposition: '' @ disposition_name (mf_recommended_disposition f) @ ''. Signals: '' @ signalText @ ''.'')"

section \<open>Sorting and grouping\<close>

lemma insert_by_entries:
  "insert_by (\<lambda>a b. le (f a) (f b)) x (map snd es) = map snd (insert_entry le (f x, x) es)" if "\<forall>e \<in> set es. fst e = f (snd e)"
  using that by (induction es) auto

lemma sort_by_entries:
  "sort_by (\<lambda>a b. le (f a) (f b)) xs = map snd (sort_entries le (map (\<lambda>x. (f x, x)) xs))"
proof (induction xs)
  case (Cons x xs)
  have "\<forall>e \<in> set (sort_entries le (map (\<lambda>x. (f x, x)) xs)). fst e = f (snd e)" by auto
  with Cons insert_by_entries[of "sort_entries le (map (\<lambda>x. (f x, x)) xs)" f le x] show ?case
    by (simp add: sort_by_def)
qed (simp add: sort_by_def)

text \<open>Sorting by a key that tells the elements apart forgets their order.\<close>

lemma sort_by_key_perm:
  assumes "collation le K" "mset xs = mset ys" "distinct (map f xs)" "f ` set xs \<subseteq> K"
  shows "sort_by (\<lambda>a b. le (f a) (f b)) xs = sort_by (\<lambda>a b. le (f a) (f b)) ys"
proof -
  have "sort_entries le (map (\<lambda>x. (f x, x)) xs) = sort_entries le (map (\<lambda>x. (f x, x)) ys)"
  proof (rule collation.sort_entries_perm[OF assms(1)])
    show "mset (map (\<lambda>x. (f x, x)) xs) = mset (map (\<lambda>x. (f x, x)) ys)"
      using assms(2) by simp
  qed (use assms(3,4) in \<open>auto simp: comp_def\<close>)
  then show ?thesis by (simp add: sort_by_entries)
qed

text \<open>The groups: every key once, with its observations in the order they came.\<close>

definition group_of :: "AgentObservation list \<Rightarrow> string \<Rightarrow> AgentObservation list" where
  "group_of os k = filter (\<lambda>o'. group_key o' = k) os"

lemma grouped_inv:
  assumes "map_ok m" "\<forall>k. map_of m k = (if k \<in> group_key ` set seen then Some (group_of seen k) else None)"
  shows "map_ok (grouped os m) \<and>
     (\<forall>k. map_of (grouped os m) k = (if k \<in> group_key ` set (seen @ os) then Some (group_of (seen @ os) k) else None))"
  using assms
proof (induction os arbitrary: m seen)
  case (Cons o' os)
  let ?m = "map_set (group_key o') ((case map_of m (group_key o') of Some g \<Rightarrow> g | None \<Rightarrow> []) @ [o']) m"
  have empty: "group_of seen k = []" if "k \<notin> group_key ` set seen" for k
    using that by (auto simp: group_of_def filter_empty_conv)
  have "map_of ?m k = (if k \<in> group_key ` set (seen @ [o']) then Some (group_of (seen @ [o']) k) else None)" for k
    using Cons.prems(2) empty by (auto simp: map_of_map_set group_of_def)
  with Cons.IH[of ?m "seen @ [o']"] Cons.prems(1) show ?case by simp
qed simp

lemma grouped_entries:
  "distinct (map fst (grouped os [])) \<and>
   set (grouped os []) = (\<lambda>k. (k, group_of os k)) ` group_key ` set os"
proof -
  have *: "map_ok (grouped os []) \<and>
     (\<forall>k. map_of (grouped os []) k = (if k \<in> group_key ` set os then Some (group_of os k) else None))"
    using grouped_inv[of "[]" "[]" os] by (simp add: group_of_def)
  then have "(k, g) \<in> set (grouped os []) \<longleftrightarrow> k \<in> group_key ` set os \<and> g = group_of os k" for k g
    using map_of_entry[of "grouped os []" k g] by auto
  with * show ?thesis by (auto simp: map_ok_def)
qed

lemma grouped_mset:
  "mset (grouped os []) = image_mset (\<lambda>k. (k, group_of os k)) (mset_set (group_key ` set os))"
proof -
  let ?g = "grouped os []"
  have d: "distinct ?g" using grouped_entries[of os] by (simp add: distinct_map)
  have "mset ?g = mset_set (set ?g)" using d by (simp add: mset_set_set)
  also have "\<dots> = mset_set ((\<lambda>k. (k, group_of os k)) ` (group_key ` set os))" using grouped_entries by simp
  also have "\<dots> = image_mset (\<lambda>k. (k, group_of os k)) (mset_set (group_key ` set os))"
    by (rule image_mset_mset_set[symmetric]) (simp add: inj_on_def)
  finally show ?thesis .
qed

lemma groups_cover: "(\<Sum>k \<in> group_key ` set os. mset (group_of os k)) = mset os"
proof (rule multiset_eqI)
  fix o'
  have "count (\<Sum>k \<in> group_key ` set os. mset (group_of os k)) o' =
      (\<Sum>k \<in> group_key ` set os. if k = group_key o' then count (mset os) o' else 0)"
    by (auto simp: count_sum group_of_def mset_filter intro!: sum.cong)
  also have "\<dots> = (if group_key o' \<in> group_key ` set os then count (mset os) o' else 0)"
    by (simp add: sum.delta)
  also have "\<dots> = count (mset os) o'"
    by (auto simp: count_eq_zero_iff)
  finally show "count (\<Sum>k \<in> group_key ` set os. mset (group_of os k)) o' = count (mset os) o'" .
qed

lemma image_mset_sum: "finite A \<Longrightarrow> (\<Sum>k \<in> A. image_mset f (M k)) = image_mset f (\<Sum>k \<in> A. M k)"
  by (induction rule: finite_induct) simp_all

lemma group_of_perm: "mset os = mset os' \<Longrightarrow> mset (group_of os k) = mset (group_of os' k)"
  by (simp add: group_of_def)

section \<open>Findings of the report\<close>

lemma sorted_finding_ids [simp]: "mf_observation_ids (sorted_finding P epoch agents key obs) = map ao_observation_id obs"
  by (simp add: sorted_finding_def Let_def)

definition census_findings :: "platform \<Rightarrow> iso_time \<Rightarrow> RegisteredAgent list \<Rightarrow> AgentObservation list \<Rightarrow> WardMarshalFinding multiset" where
  "census_findings P epoch agents os =
     image_mset (\<lambda>k. buildFinding P epoch agents k (group_of os k)) (mset_set (group_key ` set os))"

lemma report_findings:
  "mset (mr_findings (runWardMarshalCensus P wall epoch os registry t)) =
     census_findings P epoch (case registry of Some r \<Rightarrow> ar_agents r | None \<Rightarrow> []) os"
  by (simp add: runWardMarshalCensus_def Let_def census_findings_def grouped_mset comp_def multiset.map_comp)

lemma report_summary:
  "mr_summary (runWardMarshalCensus P wall epoch os registry t) =
     summary_of (mr_findings (runWardMarshalCensus P wall epoch os registry t))"
  by (simp add: runWardMarshalCensus_def Let_def)

lemma statuses_count:
  "length fs = count_status governed fs + count_status shadow fs + count_status rogue fs + count_status orphaned fs + count_status contained fs"
proof (induction fs)
  case (Cons f fs)
  then show ?case by (cases "mf_status f") (simp_all add: count_status_def)
qed (simp add: count_status_def)

lemma registry_lookup_Some: "registry_lookup f agents k = Some a \<Longrightarrow> a \<in> set agents \<and> f a = k"
proof (induction agents rule: rev_induct)
  case (snoc x xs)
  then show ?case by (auto simp: registry_lookup_def map_of_map_set split: if_splits)
qed (simp add: registry_lookup_def)

lemma unregistered_score: "30 \<le> sum_list (map rs_weight (riskSignals P obs None))"
proof -
  have weights: "sum_list (map rs_weight (sort_by le xs)) = sum_list (map rs_weight xs)" for le xs
  proof -
    have "mset (map rs_weight (sort_by le xs)) = mset (map rs_weight xs)" by simp
    then have "sum_mset (mset (map rs_weight (sort_by le xs))) = sum_mset (mset (map rs_weight xs))" by (rule arg_cong)
    then show ?thesis by (simp only: sum_mset_sum_list)
  qed
  show ?thesis
    unfolding riskSignals_def Let_def weights by (simp add: risk_signal_def)
qed

text \<open>The registry entry a finding rests on, and what its status says.\<close>

definition entry_of :: "RegisteredAgent list \<Rightarrow> WardMarshalFinding \<Rightarrow> registered_status \<Rightarrow> bool" where
  "entry_of agents f s \<longleftrightarrow> (\<exists>a \<in> set agents. ra_agent_id a = mf_agent_id f \<and> mf_ward_id f = Some (ra_ward_id a) \<and> ra_status a = s)"

definition finding_ok :: "RegisteredAgent list \<Rightarrow> WardMarshalFinding \<Rightarrow> bool" where
  "finding_ok agents f \<longleftrightarrow>
     mf_risk_score f \<le> 100 \<and> mf_risk_band f = riskBand (mf_risk_score f) \<and>
     (case mf_status f of
        governed \<Rightarrow> entry_of agents f agent_approved \<and> mf_recommended_disposition f = shadow_profile
      | shadow \<Rightarrow> entry_of agents f agent_shadow
      | orphaned \<Rightarrow> (entry_of agents f agent_revoked \<or> entry_of agents f agent_retired) \<and>
          mf_recommended_disposition f = (if mf_credential_refs f \<noteq> [] then revoke_credentials else terminate_execution)
      | contained \<Rightarrow> 30 \<le> mf_risk_score f \<and> mf_recommended_disposition f = shadow_profile
      | rogue \<Rightarrow> 30 \<le> mf_risk_score f \<and> mf_recommended_disposition f =
          (if 75 \<le> mf_risk_score f then terminate_execution
           else if mf_risk_score f < 50 then request_authority_review
           else if mf_credential_refs f \<noteq> [] then revoke_credentials else quarantine))"

lemma sorted_finding_ok: "finding_ok agents (sorted_finding P epoch agents key obs)"
proof -
  define f where "f = sorted_finding P epoch agents key obs"
  define subject where "subject = (case inferSubject (hd obs) of Some s \<Rightarrow> s | None \<Rightarrow> ''agent:unclaimed:'' @ take 10 (sha256_hex P key))"
  define registered where "registered = coalesce
      (if str_truthy (ao_declared_agent_id (hd obs))
       then registry_lookup ra_agent_id agents (the_default [] (ao_declared_agent_id (hd obs))) else None)
      (registry_lookup ra_subject agents subject)"
  have score: "mf_risk_score f = min 100 (sum_list (map rs_weight (riskSignals P obs registered)))"
    by (simp add: f_def sorted_finding_def Let_def registered_def subject_def)
  have band: "mf_risk_band f = riskBand (mf_risk_score f)"
    by (simp add: f_def sorted_finding_def Let_def)
  have status: "mf_status f = findingStatus registered obs (mf_risk_band f)"
    by (simp add: f_def sorted_finding_def Let_def registered_def subject_def)
  have disp: "mf_recommended_disposition f = dispositionFor (mf_status f) (mf_risk_band f) (length (mf_credential_refs f))"
    by (simp add: f_def sorted_finding_def Let_def)
  have ident: "registered = Some a \<Longrightarrow> mf_agent_id f = ra_agent_id a \<and> mf_ward_id f = Some (ra_ward_id a)" for a
    unfolding f_def sorted_finding_def Let_def registered_def subject_def by simp
  have member: "registered = Some a \<Longrightarrow> a \<in> set agents" for a
    by (auto simp: registered_def dest: registry_lookup_Some dest!: sym[of "Some a"] split: if_splits elim!: coalesce.elims)
  have entry: "registered_with s registered \<Longrightarrow> entry_of agents f s" for s
    using ident member by (auto simp: registered_with_def entry_of_def)
  have risky: "registered = None \<Longrightarrow> 30 \<le> mf_risk_score f"
    using unregistered_score[of P obs] score by simp
  have le100: "mf_risk_score f \<le> 100" using score by simp
  have "finding_ok agents f"
  proof (cases registered)
    case None
    have "\<not> registered_with s registered" for s using None by (simp add: registered_with_def)
    moreover have "mf_risk_band f \<noteq> low" using risky[OF None] band by (simp add: riskBand_def)
    ultimately have "mf_status f \<in> {contained, rogue}" unfolding status findingStatus_def by simp
    then consider "mf_status f = contained" | "mf_status f = rogue" by blast
    then show ?thesis
    proof cases
      case 1
      with risky[OF None] le100 band disp show ?thesis by (simp add: finding_ok_def dispositionFor_def)
    next
      case 2
      with risky[OF None] le100 disp show ?thesis
        by (simp add: finding_ok_def dispositionFor_def band riskBand_def)
    qed
  next
    case (Some a)
    then have r: "registered_with s registered \<longleftrightarrow> s = ra_status a" for s by (auto simp: registered_with_def)
    note e = entry[of "ra_status a"]
    show ?thesis
    proof (cases "ra_status a")
      case agent_approved
      then have "mf_status f = governed" unfolding status findingStatus_def r by simp
      with e agent_approved le100 band disp show ?thesis by (simp add: finding_ok_def dispositionFor_def r)
    next
      case agent_shadow
      then have "mf_status f = shadow" unfolding status findingStatus_def r by simp
      with e agent_shadow le100 band show ?thesis by (simp add: finding_ok_def r)
    next
      case agent_revoked
      then have "mf_status f = orphaned" unfolding status findingStatus_def r by simp
      with e agent_revoked le100 band disp show ?thesis by (simp add: finding_ok_def dispositionFor_def r)
    next
      case agent_retired
      then have "mf_status f = orphaned" unfolding status findingStatus_def r by simp
      with e agent_retired le100 band disp show ?thesis by (simp add: finding_ok_def dispositionFor_def r)
    qed
  qed
  then show ?thesis by (simp add: f_def)
qed

section \<open>Order of the observations\<close>

lemma census_findings_perm:
  assumes "collation (locale_le P) K" "mset os = mset os'" "distinct (map ao_observation_id os)" "ao_observation_id ` set os \<subseteq> K"
  shows "census_findings P epoch agents os = census_findings P epoch agents os'"
proof -
  have "by_observation_id P (group_of os k) = by_observation_id P (group_of os' k)" for k
    unfolding by_observation_id_def
    by (rule sort_by_key_perm[OF assms(1) group_of_perm[OF assms(2)]])
       (use assms(3,4) in \<open>auto simp: group_of_def distinct_map_filter\<close>)
  moreover have "set os = set os'" using assms(2) mset_eq_setD by blast
  ultimately show ?thesis by (simp add: census_findings_def buildFinding_def)
qed

definition unsorted_findings :: "platform \<Rightarrow> iso_time \<Rightarrow> RegisteredAgent list \<Rightarrow> AgentObservation list \<Rightarrow> WardMarshalFinding list" where
  "unsorted_findings P epoch agents os = map (\<lambda>(key, g). buildFinding P epoch agents key g) (grouped os [])"

lemma unsorted_findings_mset: "mset (unsorted_findings P epoch agents os) = census_findings P epoch agents os"
  by (simp add: unsorted_findings_def census_findings_def grouped_mset comp_def multiset.map_comp)

section \<open>Properties\<close>

text \<open>
  C39 The census accounts for every observation: each observation is evidence of exactly one finding, the
  summary counts every finding under exactly one status, and each finding is sound: its score is at
  most 100 and its band is that of the score; it is governed, shadow or orphaned only by a registry
  entry of that status for its agent, whose Ward it names; an agent without an entry scores at least
  30 and is rogue or contained; and the recommendation of an orphaned finding and of a rogue one
  from the high band on is to revoke, to quarantine or to terminate.
\<close>

theorem census_accounts:
  "let r = runWardMarshalCensus P wall epoch os registry t;
       agents = (case registry of Some r \<Rightarrow> ar_agents r | None \<Rightarrow> []); s = mr_summary r
   in mset (concat (map mf_observation_ids (mr_findings r))) = mset (map ao_observation_id os) \<and>
      length (mr_findings r) = cs_observed s \<and>
      cs_observed s = cs_governed s + cs_shadow s + cs_rogue s + cs_orphaned s + cs_contained s \<and>
      list_all (finding_ok agents) (mr_findings r)"
proof -
  define r where "r = runWardMarshalCensus P wall epoch os registry t"
  define agents where "agents = (case registry of Some r \<Rightarrow> ar_agents r | None \<Rightarrow> [])"
  have f: "mset (mr_findings r) = census_findings P epoch agents os"
    unfolding r_def agents_def by (rule report_findings)
  have "mset (concat (map mf_observation_ids (mr_findings r))) =
      (\<Sum>x \<in># mset (mr_findings r). mset (mf_observation_ids x))"
    by (simp add: mset_concat sum_mset_sum_list[symmetric] comp_def)
  also have "\<dots> = (\<Sum>k \<in> group_key ` set os. image_mset ao_observation_id (mset (group_of os k)))"
    unfolding f census_findings_def
    by (simp add: comp_def multiset.map_comp buildFinding_def by_observation_id_def sum_unfold_sum_mset)
  also have "\<dots> = image_mset ao_observation_id (\<Sum>k \<in> group_key ` set os. mset (group_of os k))"
    by (rule image_mset_sum) simp
  also have "\<dots> = mset (map ao_observation_id os)" by (simp add: groups_cover)
  finally have ids: "mset (concat (map mf_observation_ids (mr_findings r))) = mset (map ao_observation_id os)" .
  have "list_all (finding_ok agents) (mr_findings r)"
    unfolding list_all_iff using sorted_finding_ok
    by (auto simp: f census_findings_def buildFinding_def simp flip: set_mset_mset)
  moreover have "mr_summary r = summary_of (mr_findings r)" unfolding r_def by (rule report_summary)
  ultimately show ?thesis
    using ids statuses_count[of "mr_findings r"] by (simp add: r_def[symmetric] agents_def[symmetric] Let_def summary_of_def)
qed

text \<open>
  The census is deterministic: listing the observations in another order yields the same report,
  hash included, when their identifiers are distinct, the findings have distinct identifiers, and the
  collation tells these identifiers apart.
\<close>

theorem census_order_independent:
  assumes "collation (locale_le P) K" "mset os = mset os'" "distinct (map ao_observation_id os)"
    and "ao_observation_id ` set os \<subseteq> K"
    and "distinct (map mf_finding_id (mr_findings (runWardMarshalCensus P wall epoch os registry t)))"
    and "mf_finding_id ` set (mr_findings (runWardMarshalCensus P wall epoch os registry t)) \<subseteq> K"
  shows "runWardMarshalCensus P wall epoch os' registry t = runWardMarshalCensus P wall epoch os registry t"
proof -
  let ?agents = "case registry of Some r \<Rightarrow> ar_agents r | None \<Rightarrow> []"
  let ?u = "unsorted_findings P epoch ?agents"
  have m: "mset (?u os) = mset (?u os')"
    unfolding unsorted_findings_mset by (rule census_findings_perm[OF assms(1-4)])
  have r: "mset (mr_findings (runWardMarshalCensus P wall epoch os registry t)) = mset (?u os)"
    by (simp add: report_findings unsorted_findings_mset)
  have "mset (map mf_finding_id (mr_findings (runWardMarshalCensus P wall epoch os registry t))) = mset (map mf_finding_id (?u os))"
    using r by simp
  then have "distinct (map mf_finding_id (?u os))"
    using assms(5) mset_eq_imp_distinct_iff by blast
  moreover have "mf_finding_id ` set (?u os) \<subseteq> K"
    using assms(6) mset_eq_setD[OF r] by simp
  ultimately have "sort_by (\<lambda>l r. locale_le P (mf_finding_id l) (mf_finding_id r)) (?u os) =
      sort_by (\<lambda>l r. locale_le P (mf_finding_id l) (mf_finding_id r)) (?u os')"
    by (intro sort_by_key_perm[OF assms(1) m])
  then show ?thesis
    unfolding runWardMarshalCensus_def unsorted_findings_def[symmetric] by (simp only: Let_def)
qed

section \<open>Witnesses and samples\<close>

definition sample_observation_of :: "string \<Rightarrow> string option \<Rightarrow> string option \<Rightarrow> AgentObservation" where
  "sample_observation_of i declared account = \<lparr> ao_observation_id = i, ao_source = ci, ao_observed_at = ''100'', ao_location = ''l'',
     ao_process_name = None, ao_container_image = None, ao_service_account = account, ao_executable_path = None,
     ao_command_line = None, ao_declared_agent_id = declared, ao_owner = None, ao_ward_id = None, ao_outbound_hosts = [],
     ao_llm_endpoints = [], ao_tool_targets = [], ao_credential_refs = [''c'' @ i], ao_labels = [], ao_telemetry = None \<rparr>"

definition sample_observations_of :: "AgentObservation list" where
  "sample_observations_of = [sample_observation_of ''o1'' (Some ''a'') None, sample_observation_of ''o2'' (Some ''a'') None]"

lemma one_group: "\<exists>f. mr_findings (runWardMarshalCensus P wall epoch sample_observations_of registry t) = [f]"
proof -
  have "group_key ` set sample_observations_of = {''a''}"
    by (simp add: sample_observations_of_def sample_observation_of_def group_key_def)
  then have "mset (mr_findings (runWardMarshalCensus P wall epoch sample_observations_of registry t)) =
      {# buildFinding P epoch (case registry of Some r \<Rightarrow> ar_agents r | None \<Rightarrow> []) ''a'' (group_of sample_observations_of ''a'') #}"
    by (simp add: report_findings census_findings_def)
  then have "mr_findings (runWardMarshalCensus P wall epoch sample_observations_of registry t) =
      [buildFinding P epoch (case registry of Some r \<Rightarrow> ar_agents r | None \<Rightarrow> []) ''a'' (group_of sample_observations_of ''a'')]"
    by simp
  then show ?thesis ..
qed

theorem census_order_independent_witness:
  "runWardMarshalCensus sample ''0'' ''0'' (rev sample_observations_of) None None =
   runWardMarshalCensus sample ''0'' ''0'' sample_observations_of None None"
proof (rule census_order_independent[where K = UNIV])
  show "collation (locale_le sample) UNIV" using bytes.collation_axioms by simp
  show "distinct (map mf_finding_id (mr_findings (runWardMarshalCensus sample ''0'' ''0'' sample_observations_of None None)))"
    using one_group[of sample "''0''" "''0''" None None] by auto
qed (simp_all add: sample_observations_of_def sample_observation_of_def)

text \<open>
  One agent seen under its declared identifier and under its service account makes two findings of the
  same subject, each with part of the evidence: the groups are keyed by the declared identifier, not by
  the subject.
\<close>

lemma census_splits_agent:
  "let os = [sample_observation_of ''o1'' (Some ''a'') None, sample_observation_of ''o2'' None (Some ''agent:a'')];
       fs = mr_findings (runWardMarshalCensus P wall epoch os None t)
   in length fs = 2 \<and> list_all (\<lambda>f. mf_subject f = ''agent:a'') fs"
proof -
  let ?a = "sample_observation_of ''o1'' (Some ''a'') None" and ?b = "sample_observation_of ''o2'' None (Some ''agent:a'')"
  let ?fs = "mr_findings (runWardMarshalCensus P wall epoch [?a, ?b] None t)"
  have k: "group_key ?a = ''a''" "group_key ?b = ''agent:a''"
    by (simp_all add: group_key_def sample_observation_of_def inferSubject_def starts_with_code)
  have s: "inferSubject ?a = Some ''agent:a''" "inferSubject ?b = Some ''agent:a''"
    by (simp_all add: inferSubject_def sample_observation_of_def starts_with_code without_agent_def the_default_def)
  have "mset ?fs = {# buildFinding P epoch [] ''a'' [?a], buildFinding P epoch [] ''agent:a'' [?b] #}"
    by (simp add: report_findings census_findings_def k group_of_def)
  moreover have "mf_subject (buildFinding P epoch [] key [o']) = ''agent:a''" if "inferSubject o' = Some ''agent:a''" for key o'
    using that by (simp add: buildFinding_def by_observation_id_def sort_by_def sorted_finding_def Let_def)
  ultimately show ?thesis
    using s by (auto simp: Let_def list_all_iff size_mset[symmetric] simp flip: set_mset_mset simp del: size_mset)
qed

end
