(* ===== verification/Spec2Isabelle.thy ===== *)
theory Spec2Isabelle
  imports Server Evidence Conflict_Inbox Nonce_Store Effect_Complete Config Mesh_Sample Mesh_Binding Policy_Compiler Attestation Proxy
 Ward_Marshal
begin

text \<open>
  AristotleOS is an authority layer for agents: an action becomes a consequence only when the
  execution-control boundary admits it, and every decision leaves a record in a hash-chained ledger.
  This library models the boundary of \<open>src/extracted/shared/execution-control-runtime/src\<close>, and the
  stores it relies on, as pure functions with explicit state.  The remaining services, user interfaces
  and protocol adapters call the boundary.

  \<^bold>\<open>Parts and theories.\<close>

  \<^item> \<open>Prelude\<close>: JavaScript values, insertion-ordered maps (locale \<open>js_map\<close>), error values and the
    platform record (hash, signature check, date parser, collation), a parameter of the model.
  \<^item> \<open>Json_Text\<close>, \<open>Canonical\<close>: \<open>JSON.stringify\<close>, \<open>stableNormalize\<close>, \<open>stableStringify\<close>; injectivity of
    the printed text and independence from key order (locale \<open>collation\<close>).
  \<^item> \<open>Action\<close>: the interfaces of \<open>index.ts\<close> and \<open>canonicalizeAction\<close>; what the action hash binds.
  \<^item> \<open>Fail_Mode\<close>, \<open>Classification\<close>, \<open>Revocation\<close>, \<open>Budget\<close>, \<open>Dual_Control\<close>: the files
    \<open>fail-mode.ts\<close>, \<open>classification.ts\<close>, \<open>revocation.ts\<close>, \<open>budget.ts\<close> and \<open>dual-control.ts\<close>.
  \<^item> \<open>Physical_Base\<close>, \<open>Physical_Checks\<close>, \<open>Physical\<close>: \<open>evaluatePhysicalInvariants\<close>, check by check in the
    order of the source, and the declarative limits an action is accepted under, check by check exactly.
  \<^item> \<open>Commit_Gate\<close>: \<open>evaluateCommitGate\<close> and its abstract specification \<open>admissible\<close>.
  \<^item> \<open>Warrant\<close>: \<open>issueWarrant\<close>, \<open>verifyWarrant\<close>, \<open>AristotleWarrant\<close> (locale \<open>signature_scheme\<close>).
  \<^item> \<open>Ledger\<close>, \<open>Ledger_Chain\<close>: records, the two synchronous backends behind the contract
    \<open>ledger_backend\<close>, \<open>verifyGelRecords\<close>.
  \<^item> \<open>Evidence\<close>: \<open>exportEvidenceBundle\<close> and \<open>verifyEvidenceBundle\<close>.
  \<^item> \<open>Decision\<close>, \<open>Boundary\<close>: \<open>evaluateExecutionControl\<close> over any backend, and sequences of calls.
  \<^item> \<open>Rate_Limiter\<close>: \<open>SubjectRateLimiter\<close>.
  \<^item> \<open>Edge_Containment\<close>: \<open>edge-containment.ts\<close> and the probes of \<open>degradation.ts\<close>.
  \<^item> \<open>Conflict_Inbox\<close>: \<open>reconcile.ts\<close> and \<open>conflict-inbox.ts\<close>, the inbox as a step relation.
  \<^item> \<open>Nonce_Store\<close>: \<open>shared/nonce-store\<close>, both backends behind the contract \<open>nonce_backend\<close>.
  \<^item> \<open>Server\<close>: the evaluate handler, which composes the limiter, the probes and the governed call.
  \<^item> \<open>Js_String\<close>, \<open>Json_Clone\<close>: \<open>String.trim\<close> on UTF-8 text, and a value written as JSON and read back.
  \<^item> \<open>Effects\<close>: the tables and operations of \<open>SqliteEffectStore\<close> in \<open>effects.ts\<close>; \<open>Effect_Store\<close>: its step
    relation, the abstract ownership discipline, the invariants, and the store as an \<open>append_ledger\<close>;
    \<open>Effect_Safety\<close>: single ownership, refinement, finality, reopening, settling.
  \<^item> \<open>Effect_Evidence\<close>, \<open>Effect_Complete\<close>: \<open>verifyEffectEvidence\<close>, its soundness on arbitrary records and
    its completeness on the ledgers the store writes.
  \<^item> \<open>Yaml\<close>, \<open>Validation\<close>, \<open>Config\<close>: \<open>parseSimpleYaml\<close>, \<open>validation.ts\<close> and the loaders of \<open>index.ts\<close>.
  \<^item> \<open>Token_Bucket\<close>: the contract of a token-bucket limiter, which \<open>Rate_Limiter\<close> and \<open>Mesh_Ingress\<close> provide.
  \<^item> \<open>Mesh_Base\<close>, \<open>Mesh_Quorum\<close>, \<open>Mesh_Binding\<close>: messages, signatures and witness co-signatures of
    \<open>shared/mesh-runtime\<close>, and what a signature binds (locale \<open>mesh_trust\<close>).
  \<^item> \<open>Mesh_Ingress\<close>: rate limiter, replay cache and \<open>onRequest\<close> of a mesh node.
  \<^item> \<open>Mesh_Nodes\<close>, \<open>Mesh_Edge\<close>: \<open>RootNode\<close>, \<open>WitnessNode\<close> and \<open>EdgeNode\<close>; \<open>Mesh_Edge_Run\<close>: interleaved runs of an
    edge (locale \<open>envelope_cache\<close>); \<open>Mesh_Network\<close>: the registry with partitions; \<open>Mesh_Sample\<close>: a small mesh.
  \<^item> \<open>Policy_Lexer\<close>, \<open>Policy_Parser\<close>, \<open>Policy_Program\<close>, \<open>Policy_Compiler\<close>: the tokenizer, the parser and the compiler of
    \<open>policy-dsl.ts\<close>, each equivalent to its grammar, and what a compiled policy grants at the gate.
  \<^item> \<open>Attestation\<close>: \<open>attestation.ts\<close>, and what the gate's verdict means for the signed readings.
  \<^item> \<open>Egress_Guard\<close>, \<open>Credential_Broker\<close>: \<open>egress-guard.ts\<close>, against the CIDR blocks of 32-bit addresses, and the broker
    of \<open>proxy.ts\<close> with \<open>credential-revocation.ts\<close>.
  \<^item> \<open>Proxy\<close>: \<open>proxyGovernedAction\<close>, which composes the boundary, the warrant check, the guard, the broker and the
    effect store; its interleavings. \<open>Sample_Calls\<close>: the admitted call of the witnesses.
  \<^item> \<open>Ward_Marshal\<close>: the census of \<open>ward-marshal.ts\<close>, as a partition of the observations.

  \<^bold>\<open>State and errors.\<close>  A store is its content: the file of a file-backed store is absent, unreadable
  or holds a parsed value.  A call returns \<open>Inl\<close> of an error where the source throws, together with the
  state it leaves.  Clock readings, nonces and keys of a call are arguments.

  \<^bold>\<open>What is shown.\<close>  End to end, in this theory: replay protection on both backends, that ALLOW needs
  every authority check, that a decision leaves exactly one record, and that the chain of a running
  boundary verifies.  Per component: refinement of the gate, hash binding and tamper evidence with the
  SHA-256 collision exhibited where binding fails, exactness of warrants in terms of their fields, round trip of bundles exported with their own warrant,
  quorum and finality of approvals, the sliding-window and token-bucket bounds, fail-closed defaults,
  and the lattice properties of classification labels; for effects, that an operation is not dispatched
  again before its last attempt is settled without effect, and that the evidence verifier is sound, and
  complete on runs that pass \<open>begin\<close> the Ward of the action; for configuration, that the parser returns on every text, computes the value of the
  grammar, and that validated limits have effect; for the mesh, what a warrant of a disconnected edge
  rests on, its quota, the quorum and the reach of revocations of envelopes, and that a request is handled
  once; for
  the policy language, that the compiler accepts exactly the grammar and what a compiled policy grants;
  for the proxy, that only an authorised request is sent, and none twice; that the egress guard is exact
  on IPv4, what the broker releases, that signed readings respect the limits, and that the census
  accounts for every observation.  For the nonce store, that an accepted nonce is found again
  across restarts and crashes in an append.  Conditions a property needs are stated with it; a few
  theorems show what the code does where its comments say otherwise, or where a condition fails.

  \<^bold>\<open>Bounds.\<close>  All functions are total.  The block parser takes fuel, two units per line and two more,
  which is shown to be enough on every text; the delivery of mesh messages takes fuel, and enough fuel
  is shown to exist when no witness takes another for an edge.  The decimal expansion of a number takes at most 400 digits,
  more than any finite double needs in positional notation; injectivity of printed numbers is stated
  for numbers in positional range.

  \<^bold>\<open>Not modelled.\<close>  Binary rounding of arithmetic; properties inherited from \<open>Object.prototype\<close>, and the
  key \<open>__proto__\<close> and the order of array-index keys of a parsed YAML document; physical bounds of another
  type than the interface declares, which the model reads as absent and the source compares after a
  coercion; classification levels outside the five; upper case beyond ASCII; calls of
  \<open>evaluateExecutionControl\<close> that pass a ledger path and no ledger; gossip over HTTP, which reaches a
  node through \<open>Mesh_Ingress\<close> but is not wired to it; the tracer; the HTTP server, authentication and metrics (I/O); the asynchronous ledger and the database
  adapters; the vertical packs, which only build inputs for the gate; the services, the command line,
  the console and the language SDKs.
\<close>

section \<open>The boundary as a whole\<close>

text \<open>
  C1 Replay protection: over any sequence of replay-protected calls on a file-backed ledger, whatever the
  inputs and the errors in between, at most one call admits a given canonical action, none does when
  the ledger already admitted it, and the ledger holds exactly one admission record per admission.
\<close>

theorem replay_protection_file:
  assumes "file_inv (bd_ledger st)" "run_calls P (FileLedgerBackend P) calls st = (results, st')"
    and "list_all (\<lambda>c. ec_replayProtection (snd c)) calls" "admissions h (fl_file (bd_ledger st)) \<le> 1"
  shows "length (filter (admits h) results) \<le> 1 - admissions h (fl_file (bd_ledger st)) \<and>
     admissions h (fl_file (bd_ledger st')) = admissions h (fl_file (bd_ledger st)) + length (filter (admits h) results) \<and>
     length (fl_file (bd_ledger st')) = length (fl_file (bd_ledger st)) + length (filter returned results)"
  using file_backed.run_admissions[OF assms(1,2,3), of h] file_backed.run_length[OF assms(1,2)] assms(4)
  by (simp add: FileLedgerBackend_def) linarith

text \<open>
  The same guarantee for the in-memory ledger.
\<close>

theorem replay_protection_memory:
  assumes "memory_inv (bd_ledger st)" "run_calls P InMemoryLedgerBackend calls st = (results, st')"
    and "list_all (\<lambda>c. ec_replayProtection (snd c)) calls" "admissions h (ml_chain (bd_ledger st)) \<le> 1"
  shows "length (filter (admits h) results) \<le> 1 - admissions h (ml_chain (bd_ledger st)) \<and>
     admissions h (ml_chain (bd_ledger st')) = admissions h (ml_chain (bd_ledger st)) + length (filter (admits h) results)"
  using memory.run_admissions[OF assms(1,2,3), of h] assms(4)
  by (simp add: InMemoryLedgerBackend_def) linarith

text \<open>
  C2 Authority before consequence: a call answers ALLOW only when the kill switch is off, neither the
  signing key nor the envelope is revoked, the action was not admitted before if replay protection is
  on, the budget check passed, the Commit Gate finds the action admissible, and, when the envelope puts
  the action type under dual control, the approval request of the action is approved.
\<close>

theorem allow_requires_authority:
  assumes "evaluateExecutionControl P B am input st = (Inr res, st')" "er_decision res = ALLOW"
  shows "\<not> ec_killSwitch input \<and> \<not> revoked_now input (call_signer am input) \<and>
     (ec_replayProtection input \<longrightarrow> \<not> lb_hasAdmitted B (bd_ledger st) (er_canonical_action_hash res)) \<and>
     (\<exists>snapshot. register_snapshot P (ci_runtimeRegister (ec_gate input)) = Inr snapshot \<and>
        admissible P (gate_time P am (ec_gate input)) (ec_gate input) snapshot) \<and>
     (\<exists>budget. evaluateBudget P am input (bd_budget st) = Inr budget \<and> bv_exceeded budget = None) \<and>
     (\<forall>policy. dualControlPolicyFrom (envelope_constraint (ec_gate input) ''dual_control'') = Some policy \<longrightarrow>
        act_action_type (ci_action (ec_gate input)) \<in> set (dp_actions policy) \<longrightarrow>
        (\<exists>store m req. bd_approvals st = Some store \<and> approvals_read store = Inr m \<and>
           map_of m (requestIdFor (er_canonical_action_hash res)) = Some req \<and>
           evaluateApproval P req (case ci_now (ec_gate input) of Some t \<Rightarrow> t | None \<Rightarrow> am_wall am) = approved))"
proof -
  obtain d where d: "decide_phase P B am input st = Inr d" "er_decision res = cg_decision (dd_decision d)"
      "er_canonical_action_hash res = cg_canonical_action_hash (dd_decision d)"
    using assms(1) by (rule evaluate_Inr)
  have allowed: "cg_decision (dd_decision d) = ALLOW" using d(2) assms(2) by simp
  obtain snapshot where s: "register_snapshot P (ci_runtimeRegister (ec_gate input)) = Inr snapshot"
    "admissible P (gate_time P am (ec_gate input)) (ec_gate input) snapshot"
    "\<not> ec_killSwitch input" "\<not> revoked_now input (call_signer am input)"
    "ec_replayProtection input \<longrightarrow> \<not> lb_hasAdmitted B (bd_ledger st) (cg_canonical_action_hash (dd_decision d))"
    "bv_exceeded (dd_budget d) = None"
    "dd_dual d = None \<or> (\<exists>v. dd_dual d = Some v \<and> dv_satisfied v \<and> dv_storeAvailable v)"
    by (rule decide_phase_allow[OF d(1) allowed])
  have e: "evaluateBudget P am input (bd_budget st) = Inr (dd_budget d)"
    "evaluateDualControl P am input (dd_canonical d) (bd_approvals st) = Inr (dd_dual d)"
    using d(1) by (auto elim: decide_phase_Inr)
  have "\<exists>store m req. bd_approvals st = Some store \<and> approvals_read store = Inr m \<and>
      map_of m (requestIdFor (er_canonical_action_hash res)) = Some req \<and>
           evaluateApproval P req (case ci_now (ec_gate input) of Some t \<Rightarrow> t | None \<Rightarrow> am_wall am) = approved"
    if "dualControlPolicyFrom (envelope_constraint (ec_gate input) ''dual_control'') = Some policy"
      "act_action_type (ci_action (ec_gate input)) \<in> set (dp_actions policy)" for policy
    using dual_control_satisfied[OF e(2) that s(7)] d(3) decide_phase_hash[OF d(1)] by simp
  with s e(1) d(3) show ?thesis by auto
qed

text \<open>
  C4 No consequence without evidence: a call that returns appends exactly one record to the file ledger,
  which carries the returned decision and action hash; it returns a warrant exactly when the decision
  is ALLOW, and then the warrant is for that action, unconsumed, signed by the call's signer, and the
  record names its id.  A call that throws leaves the ledger unchanged.
\<close>

theorem decision_leaves_evidence:
  assumes "file_inv (bd_ledger st)" "evaluateExecutionControl P (FileLedgerBackend P) am input st = (out, st')"
  shows "case out of
     Inl e \<Rightarrow> bd_ledger st' = bd_ledger st
   | Inr res \<Rightarrow>
       (\<exists>r. fl_file (bd_ledger st') = fl_file (bd_ledger st) @ [r] \<and>
          obj_get r ''decision'' = JStr (decision_name (er_decision res)) \<and>
          obj_get r ''canonical_action_hash'' = JStr (er_canonical_action_hash res) \<and>
          (\<forall>w. er_warrant res = Some w \<longrightarrow> obj_get r ''warrant_id'' = JStr (wr_warrant_id w))) \<and>
       (er_warrant res \<noteq> None \<longleftrightarrow> er_decision res = ALLOW) \<and>
       (\<forall>w. er_warrant res = Some w \<longrightarrow> wr_canonical_action_hash w = er_canonical_action_hash res \<and> \<not> wr_consumed w \<and>
          wr_signature w = sg_sign (call_signer am input) (material_of P w))"
proof (cases out)
  case (Inl e)
  with assms show ?thesis by (auto dest: evaluate_Inl)
next
  case (Inr res)
  obtain ward d where d: "decide_phase P (FileLedgerBackend P) am input st = Inr d"
    and a: "ledger_append P (FileLedgerBackend P) (am_wall am) (gel_input am input ward d) (bd_ledger st) = Inr (er_gel_record res, bd_ledger st')"
    and res: "er_decision res = cg_decision (dd_decision d)" "er_warrant res = dd_warrant d"
      "er_canonical_action_hash res = cg_canonical_action_hash (dd_decision d)"
    using assms(2) unfolding Inr by (rule evaluate_Inr)
  have b: "buildGelRecord P (am_wall am) (lb_tipHash (FileLedgerBackend P) (bd_ledger st)) (gel_input am input ward d) = Inr (er_gel_record res)"
    using a by (auto simp: ledger_append_def)
  obtain r where r: "fl_file (bd_ledger st') = fl_file (bd_ledger st) @ [r]" "same_strings (er_gel_record res) r"
    using file_backed.append_spec[OF assms(1) a] by (auto simp: FileLedgerBackend_def)
  have w: "\<forall>w. dd_warrant d = Some w \<longrightarrow> wr_canonical_action_hash w = er_canonical_action_hash res \<and> \<not> wr_consumed w \<and>
          wr_signature w = sg_sign (call_signer am input) (material_of P w)"
    using decide_phase_issued[OF d] res(3) by (auto dest: issueWarrant_Some)
  have "obj_get r ''decision'' = JStr (decision_name (er_decision res)) \<and>
      obj_get r ''canonical_action_hash'' = JStr (er_canonical_action_hash res) \<and>
      (\<forall>w. er_warrant res = Some w \<longrightarrow> obj_get r ''warrant_id'' = JStr (wr_warrant_id w))"
    using built_field(2,3)[OF b] built_warrant_id[OF b] r(2) res
    by (auto simp: gel_input_def same_strings_def)
  then show ?thesis
    using r(1) w decide_phase_warrant[OF d] res by (auto simp: Inr)
qed

text \<open>
  C6 The ledger of a running boundary stays verifiable: after any sequence of calls with sound signers on
  an in-memory ledger whose chain verifies, the chain verifies.
\<close>

theorem run_keeps_chain_verifiable:
  assumes "memory_inv (bd_ledger st)" "chain_ok P (ml_chain (bd_ledger st))"
    and "run_calls P InMemoryLedgerBackend calls st = (results, st')"
    and "list_all (\<lambda>(am, input). sound_signer P (call_signer am input)) calls"
  shows "\<exists>v. verifyGelRecords P (ml_chain (bd_ledger st')) = Inr v \<and> gv_ok v"
  using memory.run_chain[OF assms(1) _ assms(3,4)] assms(2) by (simp add: InMemoryLedgerBackend_def chain_ok_def)

text \<open>
  A call never answers EXPIRE: the codes \<open>reclassifyExpire\<close> looks for are not among the codes the
  runtime emits, so an expired envelope is reported as REFUSE.
\<close>

theorem expire_never_reported:
  assumes "evaluateExecutionControl P B am input st = (Inr res, st')"
  shows "er_decision res \<noteq> EXPIRE \<and>
     reclassifyExpire REFUSE (map reason_name [ENVELOPE_EXPIRED]) = REFUSE"
proof -
  obtain d where d: "decide_phase P B am input st = Inr d" "er_decision res = cg_decision (dd_decision d)"
    using assms by (rule evaluate_Inr)
  have "cg_decision (dd_decision d) \<noteq> EXPIRE"
    using d(1) by (auto elim!: decide_phase_Inr simp: full_decision_not_expire)
  with d(2) show ?thesis by (simp add: reclassify_runtime[of REFUSE "[ENVELOPE_EXPIRED]", simplified])
qed

section \<open>Witnesses\<close>

text \<open>The same action submitted twice.\<close>

abbreviation twice :: "call list" where
  "twice \<equiv> [(sample_ambience, sample_input), (sample_ambience, sample_input)]"

lemma twice_protected: "list_all (\<lambda>c. ec_replayProtection (snd c)) twice"
  by (simp add: sample_input_def)

lemma twice_sound: "list_all (\<lambda>(am, input). sound_signer sample (call_signer am input)) twice"
  using sample_signers_sound by (simp add: call_signer_def sample_input_def sample_ambience_def)

theorem replay_protection_file_witness:
  "\<exists>res st'. evaluateExecutionControl sample (FileLedgerBackend sample) sample_ambience sample_input sample_file = (Inr res, st') \<and>
     er_decision res = ALLOW \<and>
     length (filter (admits (er_canonical_action_hash res)) (fst (run_calls sample (FileLedgerBackend sample) twice sample_file))) \<le> 1"
proof -
  have "length (filter (admits h) (fst (run_calls sample (FileLedgerBackend sample) twice sample_file))) \<le> 1" for h
    using replay_protection_file[OF sample_inv(1) prod.collapse[symmetric] twice_protected, of h]
    by (simp add: sample_file_def admissions_def del: run_calls.simps)
  then show ?thesis using sample_file_call by blast
qed


theorem allow_requires_authority_witness:
  "\<not> revoked_now sample_input (call_signer sample_ambience sample_input)"
proof -
  obtain res st' where "evaluateExecutionControl sample (FileLedgerBackend sample) sample_ambience sample_input sample_file = (Inr res, st')"
    "er_decision res = ALLOW" using sample_file_call by blast
  from allow_requires_authority[OF this] show ?thesis by blast
qed

theorem decision_leaves_evidence_witness:
  "\<exists>res st' w r. evaluateExecutionControl sample (FileLedgerBackend sample) sample_ambience sample_input sample_file = (Inr res, st') \<and>
     er_warrant res = Some w \<and> fl_file (bd_ledger st') = [r] \<and> obj_get r ''warrant_id'' = JStr (wr_warrant_id w)"
proof -
  obtain res st' where e: "evaluateExecutionControl sample (FileLedgerBackend sample) sample_ambience sample_input sample_file = (Inr res, st')"
    "er_decision res = ALLOW" using sample_file_call by blast
  have "fl_file (bd_ledger sample_file) = []" by (simp add: sample_file_def)
  with decision_leaves_evidence[OF sample_inv(1) e(1)] e show ?thesis by auto
qed

theorem run_keeps_chain_verifiable_witness:
  "\<exists>v. verifyGelRecords sample (ml_chain (bd_ledger (snd (run_calls sample InMemoryLedgerBackend twice sample_memory)))) = Inr v \<and> gv_ok v"
  using run_keeps_chain_verifiable[OF sample_inv(2) _ prod.collapse[symmetric] twice_sound]
  by (simp add: sample_memory_def del: run_calls.simps)

theorem expire_never_reported_witness:
  "\<exists>res st'. evaluateExecutionControl sample (FileLedgerBackend sample) sample_ambience sample_input sample_file = (Inr res, st') \<and>
     er_decision res \<noteq> EXPIRE"
  using sample_file_call expire_never_reported by blast

end
